(* ===== verification/Auth_Prelude.thy ===== *)
theory Auth_Prelude
  imports Main "HOL-Library.AList" "HOL-Library.List_Lexorder" "HOL-Library.Char_ord"
begin

text \<open>
  The vocabulary every component theory of the development shares.

  \<^item> \<open>time\<close>: a point in time or a duration, an integer number of microseconds (the
    resolution of Python's \<open>datetime.utcnow()\<close>); \<open>seconds n\<close> is
    \<open>timedelta(seconds=n)\<close> and \<open>whole_seconds\<close> is \<open>int(...)\<close> of a
    non-negative number of seconds.
  \<^item> \<open>exn\<close>: the exceptions the services raise, as values; a message is its template
    and its arguments.
  \<^item> \<open>json\<close>: the JSON values of the JSON columns and of the audit records.
  \<^item> table operations: a database table is the list of its rows; \<open>query_first\<close>,
    \<open>update_where\<close> and \<open>delete_where\<close> are \<open>query(...).filter(...)\<close>
    followed by \<open>first()\<close>, \<open>update(...)\<close> or \<open>delete()\<close>.

  Two collections of rewrite rules are carried through the development:
  \<open>table_simps\<close> (how a read sees a written table) and \<open>frame_simps\<close> (which parts
  of the state an operation leaves alone).
\<close>

named_theorems table_simps
named_theorems frame_simps

subsection \<open>Time\<close>

type_synonym time = int

definition seconds :: "int \<Rightarrow> time" where
  "seconds n = n * 1000000"

definition minutes :: "int \<Rightarrow> time" where
  "minutes n = seconds (n * 60)"

definition days :: "int \<Rightarrow> time" where
  "days n = seconds (n * 86400)"

definition whole_seconds :: "time \<Rightarrow> int" where
  "whole_seconds t = t div 1000000"

text \<open>\<open>int(td.total_seconds())\<close>, which truncates towards zero.\<close>

definition trunc_seconds :: "time \<Rightarrow> int" where
  "trunc_seconds t = (if 0 \<le> t then t div 1000000 else - (- t div 1000000))"

lemma whole_seconds_seconds [simp]: "whole_seconds (seconds n) = n"
  by (simp add: whole_seconds_def seconds_def)

lemma seconds_mono: "m \<le> n \<Longrightarrow> seconds m \<le> seconds n"
  by (simp add: seconds_def)

lemma seconds_pos [simp]: "0 < seconds n \<longleftrightarrow> 0 < n"
  by (simp add: seconds_def)

lemma seconds_nonneg [simp]: "0 \<le> seconds n \<longleftrightarrow> 0 \<le> n"
  by (simp add: seconds_def)

subsection \<open>Exceptions and JSON values\<close>

datatype json =
    JNull
  | JBool bool
  | JInt int
  | JStr string
  | JList "json list"
  | JObj "(string \<times> json) list"

datatype exn =
    ValueError string "string list"
  | LookupError string
  | RuntimeError string
  | HTTPException int string
  | IntegrityError string
  | MFAEnrollmentRequiredError
  | UnknownHashError
  | PasswordSizeError
  | JWTClaimsError
  | JWTError
  | EmailMFAUnavailableError
  | EmailMFAChallengeError
  | EmailMFAResendLimitedError int
  | MFAChallengeError
  | MFAThrottledError int
  | TypeError
  | AttributeError
  | BinasciiError
  | CryptoError
  | MintRefused string
  | OrganizationInvitationError string int
  | KeyError string
  | PasswordPolicyError string
  | HTTPDetail int json
  | SSOLoginError string
  | SSODiscoveryError string
  | OAuthError string
  | OAuthUnverifiedEmail string "string option"
  | ManualLicenseError string int
  | TransportError string
  | CredentialError string int

abbreviation jstrs :: "string list \<Rightarrow> json" where
  "jstrs xs \<equiv> JList (map JStr xs)"

definition jint_opt :: "int option \<Rightarrow> json" where
  "jint_opt v = (case v of None \<Rightarrow> JNull | Some n \<Rightarrow> JInt n)"

definition jstr_opt :: "string option \<Rightarrow> json" where
  "jstr_opt v = (case v of None \<Rightarrow> JNull | Some s \<Rightarrow> JStr s)"

text \<open>Python's truth value of an optional string: neither \<open>None\<close> nor empty.\<close>

definition truthy :: "string option \<Rightarrow> bool" where
  "truthy s = (case s of None \<Rightarrow> False | Some x \<Rightarrow> x \<noteq> [])"

lemma truthy_simps [simp]: "\<not> truthy None" "truthy (Some x) \<longleftrightarrow> x \<noteq> []"
  by (simp_all add: truthy_def)

lemma truthyE: "truthy s \<Longrightarrow> (\<And>x. s = Some x \<Longrightarrow> x \<noteq> [] \<Longrightarrow> P) \<Longrightarrow> P"
  by (cases s) auto

subsection \<open>Sorting strings as Python does\<close>

definition sorted_strs :: "string list \<Rightarrow> string list" where
  "sorted_strs xs = sort xs"

definition sorted_set :: "string list \<Rightarrow> string list" where
  "sorted_set xs = sort (remdups xs)"

lemma set_sorted_strs [simp]: "set (sorted_strs xs) = set xs"
  by (simp add: sorted_strs_def)

lemma set_sorted_set [simp]: "set (sorted_set xs) = set xs"
  by (simp add: sorted_set_def)

lemma distinct_sorted_set [simp]: "distinct (sorted_set xs)"
  by (simp add: sorted_set_def)

lemma sorted_sorted_set [simp]: "sorted (sorted_set xs)"
  by (simp add: sorted_set_def)

lemma sorted_set_cong: "set xs = set ys \<Longrightarrow> sorted_set xs = sorted_set ys"
  by (simp add: sorted_set_def sorted_distinct_set_unique)

text \<open>
  \<open>str.lower()\<close>, \<open>str.strip()\<close>, \<open>str.rstrip(c)\<close>, \<open>str.startswith\<close> and \<open>str.endswith\<close> on the
  characters a \<open>string\<close> holds, the first 256 code points.
\<close>

definition lower_char :: "char \<Rightarrow> char" where
  "lower_char c = (let n = of_char c :: nat
     in if 65 \<le> n \<and> n \<le> 90 \<or> 192 \<le> n \<and> n \<le> 222 \<and> n \<noteq> 215 then char_of (n + 32) else c)"

definition str_lower :: "string \<Rightarrow> string" where
  "str_lower s = map lower_char s"

text \<open>
  \<open>str.upper\<close>; the two characters whose upper case is not among the first 256 code points (181 and
  255) stay as they are.
\<close>

definition upper_char :: "char \<Rightarrow> string" where
  "upper_char c = (let n = of_char c :: nat
     in if 97 \<le> n \<and> n \<le> 122 \<or> 224 \<le> n \<and> n \<le> 254 \<and> n \<noteq> 247 then [char_of (n - 32)]
        else if n = 223 then ''SS'' else [c])"

definition str_upper :: "string \<Rightarrow> string" where
  "str_upper s = concat (map upper_char s)"

definition is_space :: "char \<Rightarrow> bool" where
  "is_space c = (let n = of_char c :: nat in 9 \<le> n \<and> n \<le> 13 \<or> 28 \<le> n \<and> n \<le> 32 \<or> n = 133 \<or> n = 160)"

definition rstrip_by :: "(char \<Rightarrow> bool) \<Rightarrow> string \<Rightarrow> string" where
  "rstrip_by P s = rev (dropWhile P (rev s))"

definition str_strip :: "string \<Rightarrow> string" where
  "str_strip s = rstrip_by is_space (dropWhile is_space s)"

definition starts_with :: "string \<Rightarrow> string \<Rightarrow> bool" where
  "starts_with pre s \<longleftrightarrow> take (length pre) s = pre"

definition ends_with :: "string \<Rightarrow> string \<Rightarrow> bool" where
  "ends_with suf s \<longleftrightarrow> starts_with (rev suf) (rev s)"

fun contains_text :: "string \<Rightarrow> string \<Rightarrow> bool" where
  "contains_text pat [] = (pat = [])"
| "contains_text pat (c # s) = (starts_with pat (c # s) \<or> contains_text pat s)"

subsection \<open>Tables\<close>

definition query_first :: "('r \<Rightarrow> bool) \<Rightarrow> 'r list \<Rightarrow> 'r option" where
  "query_first P rows = List.find P rows"

definition query_exists :: "('r \<Rightarrow> bool) \<Rightarrow> 'r list \<Rightarrow> bool" where
  "query_exists P rows = (\<exists>r \<in> set rows. P r)"

definition query_count :: "('r \<Rightarrow> bool) \<Rightarrow> 'r list \<Rightarrow> int" where
  "query_count P rows = int (length (filter P rows))"

definition update_where :: "('r \<Rightarrow> bool) \<Rightarrow> ('r \<Rightarrow> 'r) \<Rightarrow> 'r list \<Rightarrow> 'r list" where
  "update_where P f rows = map (\<lambda>r. if P r then f r else r) rows"

definition delete_where :: "('r \<Rightarrow> bool) \<Rightarrow> 'r list \<Rightarrow> 'r list" where
  "delete_where P rows = filter (\<lambda>r. \<not> P r) rows"

text \<open>The next value of an auto-increment integer primary key.\<close>

definition next_id :: "('r \<Rightarrow> int) \<Rightarrow> 'r list \<Rightarrow> int" where
  "next_id key rows = 1 + fold (\<lambda>r m. max (key r) m) rows 0"

lemma fold_max_ge: "m \<le> fold (\<lambda>r m. max (key r) m) rows (m::int)"
proof (induction rows arbitrary: m)
  case (Cons r rows)
  have "m \<le> max (key r) m" by simp
  also have "\<dots> \<le> fold (\<lambda>r m. max (key r) m) rows (max (key r) m)" by (rule Cons.IH)
  finally show ?case by simp
qed simp

lemma fold_max_member: "r \<in> set rows \<Longrightarrow> key r \<le> fold (\<lambda>r m. max (key r) m) rows (m::int)"
proof (induction rows arbitrary: m)
  case (Cons x rows)
  show ?case
  proof (cases "r = x")
    case True
    have "key r \<le> max (key r) m" by simp
    also have "\<dots> \<le> fold (\<lambda>r m. max (key r) m) rows (max (key r) m)" by (rule fold_max_ge)
    finally show ?thesis using True by simp
  next
    case False
    then show ?thesis using Cons by simp
  qed
qed simp

lemma next_id_fresh: "r \<in> set rows \<Longrightarrow> key r < next_id key rows"
  using fold_max_member [of r rows key 0] by (simp add: next_id_def)

lemma next_id_notin: "next_id key rows \<notin> key ` set rows"
  using next_id_fresh [of _ rows key] by fastforce

lemma next_id_pos [simp]: "0 < next_id key rows"
  using fold_max_ge [of 0 key rows] by (simp add: next_id_def)

lemma query_first_Some:
  "query_first P rows = Some r \<Longrightarrow> r \<in> set rows \<and> P r"
  by (auto simp: query_first_def find_Some_iff)

lemma query_first_None [simp]:
  "query_first P rows = None \<longleftrightarrow> (\<forall>r \<in> set rows. \<not> P r)"
  by (auto simp: query_first_def find_None_iff)

lemma query_first_Nil [simp]: "query_first P [] = None"
  by (simp add: query_first_def)

lemma query_first_Cons [simp]:
  "query_first P (r # rows) = (if P r then Some r else query_first P rows)"
  by (simp add: query_first_def)

lemma query_first_filter: "query_first P (filter Q rows) = query_first (\<lambda>r. Q r \<and> P r) rows"
  by (induction rows) auto

lemma query_first_append [table_simps]:
  "query_first P (xs @ ys) =
     (case query_first P xs of Some r \<Rightarrow> Some r | None \<Rightarrow> query_first P ys)"
  by (induction xs) auto

text \<open>Where a column is unique, the first match is the only one.\<close>

lemma query_first_unique:
  assumes "distinct (map key rows)" and "r \<in> set rows" and "key r = k"
  shows "query_first (\<lambda>x. key x = k) rows = Some r"
  using assms by (induction rows) (auto simp: image_iff)

lemma filter_key_unique:
  "distinct (map key rows) \<Longrightarrow> r \<in> set rows \<Longrightarrow> filter (\<lambda>x. key x = key r) rows = [r]"
proof (induction rows)
  case (Cons a rows)
  show ?case
  proof (cases "a = r")
    case True
    then have "\<forall>x \<in> set rows. key x \<noteq> key r" using Cons.prems(1) by (metis distinct.simps(2) imageI list.set_map list.simps(9))
    then show ?thesis using True by (simp add: filter_empty_conv)
  next
    case False
    then have "r \<in> set rows" "key a \<noteq> key r" using Cons.prems by auto
    then show ?thesis using Cons by simp
  qed
qed simp

lemma distinct_keyD:
  assumes "distinct (map key rows)" "x \<in> set rows" "y \<in> set rows" "key x = key y"
  shows "x = y"
  using assms by (auto simp: distinct_map inj_on_def)

lemma update_where_Nil [simp]: "update_where P f [] = []"
  by (simp add: update_where_def)

lemma update_where_Cons [simp]:
  "update_where P f (r # rows) = (if P r then f r else r) # update_where P f rows"
  by (simp add: update_where_def)

lemma update_where_append [table_simps]:
  "update_where P f (xs @ ys) = update_where P f xs @ update_where P f ys"
  by (simp add: update_where_def)

lemma length_update_where [simp]: "length (update_where P f rows) = length rows"
  by (simp add: update_where_def)

lemma set_update_where:
  "set (update_where P f rows) = f ` {r \<in> set rows. P r} \<union> {r \<in> set rows. \<not> P r}"
  by (auto simp: update_where_def)

lemma in_update_whereE:
  assumes "x \<in> set (update_where P f rows)"
  obtains r where "r \<in> set rows" "P r" "x = f r" | "x \<in> set rows" "\<not> P x"
  using assms by (auto simp: set_update_where)

lemma in_update_whereI:
  "r \<in> set rows \<Longrightarrow> (if P r then f r else r) \<in> set (update_where P f rows)"
  by (auto simp: update_where_def)

lemma map_update_where_same:
  "(\<And>r. P r \<Longrightarrow> key (f r) = key r) \<Longrightarrow> map key (update_where P f rows) = map key rows"
  by (simp add: update_where_def)

lemma query_first_update_where [table_simps]:
  assumes "\<And>r. P r \<Longrightarrow> Q (f r) = Q r"
  shows "query_first Q (update_where P f rows)
       = map_option (\<lambda>r. if P r then f r else r) (query_first Q rows)"
  using assms by (induction rows) auto

lemma set_delete_where [simp]: "set (delete_where P rows) = {r \<in> set rows. \<not> P r}"
  by (auto simp: delete_where_def)

lemma distinct_map_delete_where: "distinct (map key rows) \<Longrightarrow> distinct (map key (delete_where P rows))"
  by (simp add: delete_where_def distinct_map_filter)

lemma query_count_nonneg [simp]: "0 \<le> query_count P rows"
  by (simp add: query_count_def)

lemma query_count_0: "query_count P rows = 0 \<longleftrightarrow> (\<forall>r \<in> set rows. \<not> P r)"
  by (simp add: query_count_def filter_empty_conv)

lemma query_count_pos: "0 < query_count P rows \<longleftrightarrow> (\<exists>r \<in> set rows. P r)"
  by (simp add: query_count_def filter_empty_conv)

subsection \<open>Invariants of transition systems\<close>

text \<open>
  What every step keeps holds in every reachable state. Each component with a step relation
  interprets this locale with its own relation and invariant.
\<close>

locale transition_invariant =
  fixes step :: "'s \<Rightarrow> 's \<Rightarrow> bool" and inv_state :: "'s \<Rightarrow> bool"
  assumes preserved: "step s s' \<Longrightarrow> inv_state s \<Longrightarrow> inv_state s'"
begin

lemma reachable: "step\<^sup>*\<^sup>* s s' \<Longrightarrow> inv_state s \<Longrightarrow> inv_state s'"
  by (induction rule: rtranclp_induct) (auto intro: preserved)

text \<open>A further property that is kept by steps from states satisfying the invariant.\<close>

lemma reachable_relative:
  assumes "step\<^sup>*\<^sup>* s s'" "inv_state s" "P s" and "\<And>t t'. step t t' \<Longrightarrow> inv_state t \<Longrightarrow> P t \<Longrightarrow> P t'"
  shows "P s'"
proof -
  have "inv_state s' \<and> P s'"
    using assms(1) by (induction rule: rtranclp_induct) (use assms(2-4) in \<open>auto intro: preserved\<close>)
  then show ?thesis by blast
qed

end

end
