(* ===== verification/Db_Schema.thy ===== *)
theory Db_Schema
  imports Auth_Prelude
begin

text \<open>
  The relational schema of \<open>app/db/models.py\<close>: one record per mapped class, a field per
  column (nullable columns are options, \<open>DateTime\<close> columns are \<open>time\<close>), and one record
  \<open>db\<close> with a list of rows per table. Association tables (\<open>user_roles\<close>,
  \<open>role_permissions\<close>, \<open>membership_roles\<close>) are lists of pairs, and the ORM
  relationships that go through them are the functions of the last section. Only the
  tables the modelled services read or write are here.

  \<open>db_ok\<close> collects the primary-key and unique constraints the schema declares.
\<close>

subsection \<open>Accounts, roles and permissions\<close>

record user =
  u_id :: int
  u_email :: string
  u_hashed_password :: "string option"
  u_status :: string
  u_preferred_timezone :: "string option"
  u_created_at :: "time option"
  u_status_changed_at :: "time option"
  u_status_changed_reason :: "string option"
  u_status_changed_by_user_id :: "int option"
  u_last_login_at :: "time option"
  u_authentication_method :: "string option"
  u_mfa_enabled :: bool
  u_mfa_status :: string
  u_mfa_primary_method :: "string option"
  u_mfa_enabled_at :: "time option"
  u_mfa_last_verified_at :: "time option"

record role =
  r_id :: int
  r_name :: string
  r_description :: "string option"
  r_organization_id :: "int option"

record permission =
  p_id :: int
  p_name :: string

subsection \<open>Tokens and sessions\<close>

record refresh_token =
  rt_id :: int
  rt_user_id :: int
  rt_token :: string
  rt_token_hash :: string
  rt_revoked :: bool
  rt_created_at :: time
  rt_expires_at :: time
  rt_family_id :: "string option"
  rt_rotated_at :: "time option"

record revoked_token =
  rv_id :: int
  rv_token_jti :: string
  rv_revoked_at :: time

record user_session =
  us_id :: int
  us_session_id :: string
  us_user_id :: int
  us_organization_id :: "int option"
  us_org_role :: json
  us_auth_method :: "string option"
  us_mfa_verified :: bool
  us_status :: string
  us_created_at :: time
  us_last_activity_at :: time
  us_expires_at :: time
  us_revoked_at :: "time option"
  us_revoked_reason :: "string option"
  us_client_ip :: "string option"
  us_user_agent :: "string option"
  us_saml_name_id :: "string option"
  us_saml_session_index :: "string option"
  us_organization_saml_config_id :: "int option"

subsection \<open>Organizations and teams\<close>

record organization =
  o_id :: int
  o_slug :: string
  o_name :: string
  o_plan :: string
  o_status :: string
  o_created_at :: time
  o_created_by_user_id :: "int option"
  o_status_changed_at :: "time option"
  o_status_changed_reason :: "string option"
  o_status_changed_by_user_id :: "int option"

record org_membership =
  m_id :: int
  m_organization_id :: int
  m_user_id :: int
  m_status :: string
  m_invited_by_user_id :: "int option"
  m_joined_at :: time

record team =
  t_id :: int
  t_organization_id :: int
  t_name :: string
  t_description :: "string option"
  t_created_at :: time
  t_created_by_user_id :: "int option"

record team_member =
  tm_team_id :: int
  tm_user_id :: int
  tm_role :: string
  tm_invited_by_user_id :: "int option"
  tm_joined_at :: "time option"

subsection \<open>Service clients, MFA and the audit ledger\<close>

record oauth_client =
  oc_id :: int
  oc_organization_id :: int
  oc_created_by_user_id :: int
  oc_client_id :: string
  oc_client_secret_hash :: string
  oc_name :: "string option"
  oc_scopes :: "string list"
  oc_status :: string
  oc_created_at :: time
  oc_expires_at :: "time option"
  oc_last_used_at :: "time option"
  oc_revoked_at :: "time option"
  oc_revoked_reason :: "string option"

record org_mfa_policy =
  mp_id :: int
  mp_organization_id :: int
  mp_required :: bool
  mp_created_at :: time
  mp_updated_at :: "time option"
  mp_enabled_at :: "time option"
  mp_enabled_by_user_id :: "int option"
  mp_override_active :: bool
  mp_override_reason :: "string option"
  mp_override_at :: "time option"
  mp_override_by_user_id :: "int option"

record mfa_device =
  d_id :: int
  d_user_id :: int
  d_device_type :: string
  d_label :: "string option"
  d_encrypted_secret :: string
  d_created_at :: time
  d_verified_at :: "time option"
  d_last_used_at :: "time option"
  d_disabled_at :: "time option"

record mfa_recovery_code =
  rc_id :: int
  rc_user_id :: int
  rc_code_hash :: string
  rc_created_at :: time
  rc_used_at :: "time option"

record mfa_used_totp_step =
  ts_id :: int
  ts_device_id :: int
  ts_time_step :: int
  ts_consumed_at :: time

record mfa_email_otp =
  eo_id :: int
  eo_user_id :: int
  eo_challenge_jti :: string
  eo_code_hash :: string
  eo_attempts :: int
  eo_created_at :: time
  eo_expires_at :: time
  eo_consumed_at :: "time option"
  eo_invalidated_at :: "time option"

record mfa_enrollment_session =
  es_id :: int
  es_user_id :: int
  es_token_jti :: string
  es_device_id :: "int option"
  es_created_at :: time
  es_expires_at :: time
  es_consumed_at :: "time option"

record api_key =
  ak_id :: int
  ak_organization_id :: int
  ak_created_by_user_id :: int
  ak_name :: "string option"
  ak_key_prefix :: "string option"
  ak_key_hash :: "string option"
  ak_scopes :: "string list"
  ak_status :: string
  ak_expires_at :: "time option"
  ak_last_used_at :: "time option"
  ak_created_at :: time
  ak_revoked_at :: "time option"
  ak_revoked_reason :: "string option"

record delegated_grant =
  dg_delegation_id :: string
  dg_client_id :: string
  dg_user_id :: int
  dg_organization_id :: int
  dg_permissions :: "string list"
  dg_audience :: string
  dg_expires_at :: time
  dg_created_at :: time
  dg_revoked_at :: "time option"
  dg_revoked_reason :: "string option"

record org_invitation =
  oi_id :: int
  oi_organization_id :: int
  oi_invited_by_user_id :: int
  oi_inviter_is_platform_admin :: bool
  oi_invited_email :: string
  oi_role_names :: "string list"
  oi_token_hash :: string
  oi_active_key :: "string option"
  oi_status :: string
  oi_created_at :: time
  oi_expires_at :: time
  oi_accepted_at :: "time option"
  oi_accepted_user_id :: "int option"
  oi_revoked_at :: "time option"
  oi_revoked_by_user_id :: "int option"
  oi_mfa_secret_encrypted :: "string option"
  oi_mfa_setup_at :: "time option"
  oi_mfa_attempts :: int

subsection \<open>Sign-in through identity providers, licences, configuration and credentials\<close>

record oauth_account =
  oa_id :: int
  oa_user_id :: int
  oa_provider :: string
  oa_provider_user_id :: string
  oa_email :: "string option"
  oa_created_at :: time
  oa_organization_sso_config_id :: "int option"
  oa_organization_saml_config_id :: "int option"

record org_sso_config =
  sso_id :: int
  sso_organization_id :: int
  sso_provider_type :: string
  sso_issuer :: string
  sso_client_id :: string
  sso_client_secret_encrypted :: string
  sso_authorization_endpoint :: "string option"
  sso_token_endpoint :: "string option"
  sso_userinfo_endpoint :: "string option"
  sso_jwks_uri :: "string option"
  sso_allowed_domains :: "string list"
  sso_enforced :: bool
  sso_status :: string
  sso_created_at :: time
  sso_updated_at :: "time option"
  sso_updated_by_user_id :: "int option"
  sso_last_verified_at :: "time option"
  sso_override_at :: "time option"
  sso_override_reason :: "string option"
  sso_override_by_user_id :: "int option"

record org_saml_config =
  saml_id :: int
  saml_organization_id :: int
  saml_entity_id :: string
  saml_sso_url :: string
  saml_x509_certificate :: string
  saml_allowed_domains :: "string list"
  saml_enforced :: bool
  saml_override_at :: "time option"
  saml_override_reason :: "string option"
  saml_override_by_user_id :: "int option"
  saml_slo_url :: "string option"
  saml_attribute_mapping :: "(string \<times> string) list"
  saml_enabled :: bool
  saml_status :: string
  saml_created_at :: time
  saml_updated_at :: "time option"
  saml_updated_by_user_id :: "int option"

record license_key =
  lk_id :: int
  lk_key :: "string option"
  lk_key_digest :: "string option"
  lk_key_prefix :: "string option"
  lk_user_id :: "int option"
  lk_email :: string
  lk_recipient_name :: "string option"
  lk_plan :: string
  lk_platform :: string
  lk_max_uses :: int
  lk_usage_count :: int
  lk_created_at :: time
  lk_expires_at :: "time option"
  lk_last_used_at :: "time option"
  lk_revoked_at :: "time option"
  lk_revoked_reason :: "string option"
  lk_renewed_at :: "time option"
  lk_organization_id :: "int option"
  lk_machine_id :: "string option"

record license_issuance_request =
  li_id :: int
  li_actor_user_id :: int
  li_idempotency_key_hash :: string
  li_request_fingerprint :: string
  li_license_id :: "int option"
  li_created_at :: time

record organization_config =
  ogc_id :: int
  ogc_organization_id :: int
  ogc_llm_provider :: "string option"
  ogc_llm_api_key_encrypted :: "string option"
  ogc_cloud_provider :: "string option"
  ogc_cloud_credentials_encrypted :: "string option"
  ogc_work_directory :: "string option"
  ogc_data_directory :: "string option"
  ogc_updated_at :: "time option"
  ogc_updated_by_user_id :: "int option"

record global_config =
  glc_id :: int
  glc_llm_provider :: "string option"
  glc_llm_api_key_encrypted :: "string option"
  glc_cloud_provider :: "string option"
  glc_cloud_credentials_encrypted :: "string option"
  glc_work_directory :: "string option"
  glc_data_directory :: "string option"
  glc_updated_at :: "time option"
  glc_updated_by_user_id :: "int option"

record integration_credential =
  ic_id :: int
  ic_provider_id :: string
  ic_scope :: string
  ic_owner_key :: string
  ic_user_id :: "int option"
  ic_organization_id :: "int option"
  ic_encrypted_payload :: "string option"
  ic_masked_hint :: "string option"
  ic_display_metadata :: "(string \<times> string) list option"
  ic_status :: string
  ic_version :: int
  ic_created_at :: time
  ic_updated_at :: time
  ic_revoked_at :: "time option"
  ic_created_by_user_id :: int
  ic_updated_by_user_id :: int

record integration_reference =
  ir_id :: int
  ir_token_hash :: string
  ir_credential_id :: int
  ir_credential_version :: int
  ir_provider_id :: string
  ir_scope :: string
  ir_subject_user_id :: int
  ir_organization_id :: "int option"
  ir_consumer :: string
  ir_purpose :: string
  ir_created_at :: time
  ir_expires_at :: time
  ir_revoked_at :: "time option"

record audit_event =
  ae_id :: int
  ae_event_type :: string
  ae_actor_user_id :: "int option"
  ae_target_user_id :: "int option"
  ae_organization_id :: "int option"
  ae_resource_type :: "string option"
  ae_resource_id :: "string option"
  ae_before_state :: json
  ae_after_state :: json
  ae_event_metadata :: json
  ae_created_at :: time
  ae_integrity_version :: "int option"
  ae_integrity_algorithm :: "string option"
  ae_integrity_digest :: "string option"

subsection \<open>The database\<close>

record db =
  users :: "user list"
  roles :: "role list"
  permissions :: "permission list"
  user_roles :: "(int \<times> int) list"
  role_permissions :: "(int \<times> int) list"
  refresh_tokens :: "refresh_token list"
  revoked_tokens :: "revoked_token list"
  user_sessions :: "user_session list"
  organizations :: "organization list"
  memberships :: "org_membership list"
  membership_roles :: "(int \<times> int) list"
  teams :: "team list"
  team_members :: "team_member list"
  oauth_clients :: "oauth_client list"
  mfa_policies :: "org_mfa_policy list"
  mfa_devices :: "mfa_device list"
  mfa_recovery_codes :: "mfa_recovery_code list"
  mfa_used_totp_steps :: "mfa_used_totp_step list"
  mfa_email_otps :: "mfa_email_otp list"
  mfa_enrollment_sessions :: "mfa_enrollment_session list"
  api_keys :: "api_key list"
  delegated_grants :: "delegated_grant list"
  org_invitations :: "org_invitation list"
  oauth_accounts :: "oauth_account list"
  sso_configs :: "org_sso_config list"
  saml_configs :: "org_saml_config list"
  license_keys :: "license_key list"
  license_requests :: "license_issuance_request list"
  organization_configs :: "organization_config list"
  global_configs :: "global_config list"
  integration_credentials :: "integration_credential list"
  integration_references :: "integration_reference list"
  audit_events :: "audit_event list"

definition empty_db :: db where
  "empty_db = \<lparr>users = [], roles = [], permissions = [], user_roles = [], role_permissions = [],
     refresh_tokens = [], revoked_tokens = [], user_sessions = [], organizations = [],
     memberships = [], membership_roles = [], teams = [], team_members = [],
     oauth_clients = [], mfa_policies = [], mfa_devices = [], mfa_recovery_codes = [],
     mfa_used_totp_steps = [], mfa_email_otps = [], mfa_enrollment_sessions = [],
     api_keys = [], delegated_grants = [], org_invitations = [], oauth_accounts = [], sso_configs = [], saml_configs = [],
     license_keys = [], license_requests = [], organization_configs = [], global_configs = [],
     integration_credentials = [], integration_references = [], audit_events = []\<rparr>"

text \<open>
  The keys and unique constraints of the modelled tables. Every relation the services
  maintain is checked against this invariant.
\<close>

definition db_ok :: "db \<Rightarrow> bool" where
  "db_ok s \<longleftrightarrow>
     distinct (map u_id (users s)) \<and> distinct (map u_email (users s))
   \<and> distinct (map r_id (roles s))
   \<and> distinct (map p_id (permissions s)) \<and> distinct (map p_name (permissions s))
   \<and> distinct (map rt_token_hash (refresh_tokens s))
   \<and> distinct (map us_session_id (user_sessions s))
   \<and> distinct (map o_id (organizations s)) \<and> distinct (map o_slug (organizations s))
   \<and> distinct (map m_id (memberships s))
   \<and> distinct (map (\<lambda>m. (m_organization_id m, m_user_id m)) (memberships s))
   \<and> distinct (membership_roles s)
   \<and> distinct (map t_id (teams s))
   \<and> distinct (map (\<lambda>t. (tm_team_id t, tm_user_id t)) (team_members s))"

lemma db_ok_empty [simp]: "db_ok empty_db"
  by (simp add: db_ok_def empty_db_def)

subsection \<open>ORM relationships\<close>

text \<open>
  \<open>Role.permissions\<close>, \<open>User.roles\<close> and \<open>OrganizationMembership.roles\<close>: the
  rows joined through the association table.
\<close>

definition role_perms :: "db \<Rightarrow> role \<Rightarrow> string list" where
  "role_perms s r = map p_name (filter (\<lambda>p. (r_id r, p_id p) \<in> set (role_permissions s)) (permissions s))"

definition roles_of_user :: "db \<Rightarrow> user \<Rightarrow> role list" where
  "roles_of_user s u = filter (\<lambda>r. (u_id u, r_id r) \<in> set (user_roles s)) (roles s)"

definition roles_of_membership :: "db \<Rightarrow> org_membership \<Rightarrow> role list" where
  "roles_of_membership s m = filter (\<lambda>r. (m_id m, r_id r) \<in> set (membership_roles s)) (roles s)"

definition find_user :: "db \<Rightarrow> int \<Rightarrow> user option" where
  "find_user s uid = query_first (\<lambda>u. u_id u = uid) (users s)"

definition find_user_by_email :: "db \<Rightarrow> string \<Rightarrow> user option" where
  "find_user_by_email s email = query_first (\<lambda>u. u_email u = email) (users s)"

definition find_org :: "db \<Rightarrow> int \<Rightarrow> organization option" where
  "find_org s oid = query_first (\<lambda>o'. o_id o' = oid) (organizations s)"

text \<open>
  Assigning a list to a relationship that goes through an association table: rows of the
  owner that are not wanted any more are deleted, rows for new members are inserted (once
  per occurrence in the list), the others stay.
\<close>

definition assign_links :: "int \<Rightarrow> int list \<Rightarrow> (int \<times> int) list \<Rightarrow> (int \<times> int) list" where
  "assign_links i ids pairs =
     delete_where (\<lambda>(a, b). a = i \<and> b \<notin> set ids) pairs @ map (Pair i) (filter (\<lambda>b. (i, b) \<notin> set pairs) ids)"

text \<open>Assigning to attributes of a loaded \<open>User\<close> object: its row is rewritten.\<close>

definition set_user :: "int \<Rightarrow> (user \<Rightarrow> user) \<Rightarrow> db \<Rightarrow> db" where
  "set_user uid f s = s\<lparr>users := update_where (\<lambda>u. u_id u = uid) f (users s)\<rparr>"

lemma set_assign_links: "(a, b) \<in> set (assign_links i ids pairs) \<longleftrightarrow> (if a = i then b \<in> set ids else (a, b) \<in> set pairs)"
  by (auto simp: assign_links_def)

lemma distinct_assign_links:
  "distinct pairs \<Longrightarrow> distinct (filter (\<lambda>b. (i, b) \<notin> set pairs) ids) \<Longrightarrow> distinct (assign_links i ids pairs)"
  by (auto simp: assign_links_def delete_where_def distinct_map inj_on_def)

lemma find_user_Some: "find_user s uid = Some u \<Longrightarrow> u \<in> set (users s) \<and> u_id u = uid"
  by (auto simp: find_user_def dest: query_first_Some)

lemma find_user_unique:
  "db_ok s \<Longrightarrow> u \<in> set (users s) \<Longrightarrow> find_user s (u_id u) = Some u"
  by (auto simp: db_ok_def find_user_def intro: query_first_unique)

lemma role_perms_frame [frame_simps]:
  "permissions s' = permissions s \<Longrightarrow> role_permissions s' = role_permissions s \<Longrightarrow>
   role_perms s' r = role_perms s r"
  by (simp add: role_perms_def)

lemma find_user_set_user [table_simps]:
  assumes "\<And>u. u_id (f u) = u_id u"
  shows "find_user (set_user uid f s) k =
     (if k = uid then map_option f (find_user s k) else find_user s k)"
proof -
  have "find_user (set_user uid f s) k
      = map_option (\<lambda>u. if u_id u = uid then f u else u) (find_user s k)"
    using assms by (simp add: find_user_def set_user_def query_first_update_where)
  then show ?thesis
    by (cases "find_user s k") (auto dest: find_user_Some)
qed

end
