(* ===== verification/Auth_Env.thy ===== *)
theory Auth_Env
  imports Db_Schema
begin

text \<open>
  What the services take from outside: the configuration (\<open>Settings\<close> of
  \<open>app/core/config.py\<close>) and the functions of packages and services that are not part of
  the repository. The latter are fields of the record \<open>env\<close>, an argument of every
  definition that uses one of them; what the code relies on of them is stated as a locale
  or as hypotheses where a theorem needs it.

  \<^item> \<open>sha256_hex\<close>, \<open>hmac_sha256_hex\<close>: hexadecimal digests;
  \<^item> \<open>isoformat\<close>: \<open>datetime.isoformat(timespec="microseconds")\<close>; \<open>isoformat_auto\<close>: without the
    argument;
  \<^item> \<open>jwt_encode\<close>, \<open>jwt_decode\<close>, \<open>jwt_header_alg\<close>: the \<open>jose\<close>
    package; \<open>jwt_decode\<close> is given the current time, since it rejects expired tokens;
  \<^item> \<open>pwd_verify\<close>, \<open>pwd_hash\<close>, \<open>pwd_needs_update\<close>: passlib's context;
  \<^item> \<open>tz_offset\<close>: the offset of the process's local time zone from UTC, in seconds, which
    \<open>datetime.timestamp()\<close> applies to a naive datetime;
  \<^item> \<open>totp_digest\<close>: the bytes of the HMAC-SHA-1 of a packed counter under a base32 secret, or
    nothing when the secret is not base32;
  \<^item> \<open>crypto_decrypt\<close>, \<open>crypto_encrypt\<close>, \<open>crypto_configured\<close>: the Fernet cipher behind
    \<open>app/core/crypto.py\<close>; decrypting something that was not encrypted under the key fails;
  \<^item> \<open>email_delivered\<close>, \<open>invitation_delivered\<close>: whether the mail service accepted a code, or an
    invitation with its link, for an address;
  \<^item> \<open>urlsplit\<close>: \<open>urllib.parse.urlsplit\<close> with the attributes the code reads, or nothing when it
    or one of them raises \<open>ValueError\<close>; \<open>ip_is_global\<close>: \<open>ipaddress.ip_address(host).is_global\<close>,
    or nothing when the text is not an address;
  \<^item> \<open>pwned_range\<close>: the lines of the answer of the Pwned Passwords service for a prefix of five
    digits, or nothing when the request fails; \<open>sha1_hex\<close>: the digest it is asked with;
  \<^item> \<open>getaddrinfo\<close>: the addresses a host name resolves to, or nothing when it does not resolve;
    \<open>s256_challenge\<close>: the base64url text of the SHA-256 digest of a PKCE verifier.

  Fresh random identifiers (\<open>uuid.uuid4()\<close>) are arguments of the operations that draw
  them.
\<close>

subsection \<open>Settings\<close>

text \<open>
  The \<open>RATE_LIMIT_*\<close> and the \<open>MFA_RATE_LIMIT_*\<close> families have the same members; the
  fallback bound \<open>RATE_LIMIT_FALLBACK_MAX_KEYS\<close> is shared. The client identifiers and secrets of
  the public providers (\<open>GOOGLE_OAUTH_CLIENT_ID\<close> and so on) are indexed by the provider's name.
\<close>

record throttle_settings =
  TS_ENABLED :: bool
  TS_ACCOUNT_MAX_ATTEMPTS :: int
  TS_ACCOUNT_WINDOW_SECONDS :: int
  TS_ACCOUNT_LOCKOUT_SECONDS :: int
  TS_IP_MAX_ATTEMPTS :: int
  TS_IP_WINDOW_SECONDS :: int
  TS_IP_LOCKOUT_SECONDS :: int
  TS_PAIR_MAX_ATTEMPTS :: int
  TS_PAIR_WINDOW_SECONDS :: int
  TS_PAIR_LOCKOUT_SECONDS :: int
  TS_PROGRESSIVE_MULTIPLIER :: int
  TS_MAX_LOCKOUT_SECONDS :: int
  TS_STRIKE_TTL_SECONDS :: int
  TS_FALLBACK_MAX_ATTEMPTS :: int
  TS_FALLBACK_WINDOW_SECONDS :: int

record settings =
  RATE_LIMIT :: throttle_settings
  MFA_RATE_LIMIT :: throttle_settings
  RATE_LIMIT_FALLBACK_MAX_KEYS :: int
  SESSION_IDLE_TIMEOUT_SECONDS :: int
  SESSION_ABSOLUTE_TIMEOUT_SECONDS :: int
  SESSION_MAX_CONCURRENT :: int
  ACCESS_TOKEN_EXPIRE_MINUTES :: int
  DELEGATED_EXECUTION_TOKEN_EXPIRE_MINUTES :: int
  TOOLSERVER_REGISTRATION_TOKEN_EXPIRE_MINUTES :: int
  SECRET_KEY :: string
  ALGORITHM :: string
  JWT_ALGORITHM :: string
  PRIVATE_KEY_PEM :: string
  PUBLIC_KEY_PEM :: string
  JWT_ISSUER :: string
  JWT_AUDIENCE :: string
  EMAIL_MFA_ENABLED :: bool
  EMAIL_MFA_OTP_PEPPER :: string
  EMAIL_MFA_TTL_SECONDS :: int
  EMAIL_MFA_MAX_ATTEMPTS :: int
  EMAIL_MFA_RESEND_COOLDOWN_SECONDS :: int
  EMAIL_MFA_MAX_SENDS_PER_HOUR :: int
  API_KEY_TOKEN_EXPIRE_MINUTES :: int
  SERVICE_MINT_TOKEN_TTL_SECONDS :: int
  ORG_INVITATIONS_ENABLED :: bool
  ORG_INVITATION_ACCEPT_URL :: string
  ORG_INVITATION_TTL_SECONDS :: int
  ORG_INVITATION_MAX_ACCEPT_ATTEMPTS :: int
  CLIENT_CREDENTIALS_TOKEN_EXPIRE_MINUTES :: int
  API_KEY_EXCHANGE_SECRET :: string
  SERVICE_MINT_RATE_LIMIT :: int
  SERVICE_MINT_RATE_WINDOW_SECONDS :: int
  PASSWORD_MIN_LENGTH :: int
  PASSWORD_MAX_LENGTH :: int
  PASSWORD_COMPROMISE_CHECK_ENABLED :: bool
  PASSWORD_COMPROMISE_CHECK_FAIL_CLOSED :: bool
  REQUIRE_HTTPS_FOR_SSO_ISSUER :: bool
  OAUTH_CLIENT_ID :: "string \<Rightarrow> string"
  OAUTH_CLIENT_SECRET :: "string \<Rightarrow> string"
  OAUTH_REDIRECT_BASE_URL :: string
  FRONTEND_BASE_URL :: string
  LIMS_SSO_CLIENT_ID :: string
  LIMS_SSO_CLIENT_SECRET :: string
  LIMS_SSO_REDIRECT_URI :: string
  LIMS_SSO_CODE_TTL_SECONDS :: int
  PROVIDER_KEY_REVEAL_SECRET :: string
  WORKBENCH_PROVIDER_POLICY_BASE_URL :: string
  INTEGRATION_CREDENTIAL_SERVICE_SECRET :: string
  INTEGRATION_CREDENTIAL_REFERENCE_TTL_SECONDS :: int
  LICENSE_KEY_PEPPER :: string
  LICENSE_ALLOWED_VALIDITY_DAYS :: "int list"

text \<open>The defaults of \<open>Settings\<close>, where it has one.\<close>

definition default_rate_limit :: throttle_settings where
  "default_rate_limit = \<lparr>TS_ENABLED = True,
     TS_ACCOUNT_MAX_ATTEMPTS = 10, TS_ACCOUNT_WINDOW_SECONDS = 900, TS_ACCOUNT_LOCKOUT_SECONDS = 900,
     TS_IP_MAX_ATTEMPTS = 30, TS_IP_WINDOW_SECONDS = 900, TS_IP_LOCKOUT_SECONDS = 900,
     TS_PAIR_MAX_ATTEMPTS = 5, TS_PAIR_WINDOW_SECONDS = 300, TS_PAIR_LOCKOUT_SECONDS = 300,
     TS_PROGRESSIVE_MULTIPLIER = 2, TS_MAX_LOCKOUT_SECONDS = 3600, TS_STRIKE_TTL_SECONDS = 86400,
     TS_FALLBACK_MAX_ATTEMPTS = 5, TS_FALLBACK_WINDOW_SECONDS = 300\<rparr>"

definition default_mfa_rate_limit :: throttle_settings where
  "default_mfa_rate_limit = \<lparr>TS_ENABLED = True,
     TS_ACCOUNT_MAX_ATTEMPTS = 5, TS_ACCOUNT_WINDOW_SECONDS = 300, TS_ACCOUNT_LOCKOUT_SECONDS = 300,
     TS_IP_MAX_ATTEMPTS = 20, TS_IP_WINDOW_SECONDS = 300, TS_IP_LOCKOUT_SECONDS = 300,
     TS_PAIR_MAX_ATTEMPTS = 3, TS_PAIR_WINDOW_SECONDS = 300, TS_PAIR_LOCKOUT_SECONDS = 300,
     TS_PROGRESSIVE_MULTIPLIER = 2, TS_MAX_LOCKOUT_SECONDS = 1800, TS_STRIKE_TTL_SECONDS = 3600,
     TS_FALLBACK_MAX_ATTEMPTS = 2, TS_FALLBACK_WINDOW_SECONDS = 300\<rparr>"

definition default_settings :: settings where
  "default_settings = \<lparr>RATE_LIMIT = default_rate_limit, MFA_RATE_LIMIT = default_mfa_rate_limit,
     RATE_LIMIT_FALLBACK_MAX_KEYS = 10000,
     SESSION_IDLE_TIMEOUT_SECONDS = 604800, SESSION_ABSOLUTE_TIMEOUT_SECONDS = 2592000,
     SESSION_MAX_CONCURRENT = 5, ACCESS_TOKEN_EXPIRE_MINUTES = 15,
     DELEGATED_EXECUTION_TOKEN_EXPIRE_MINUTES = 5, TOOLSERVER_REGISTRATION_TOKEN_EXPIRE_MINUTES = 5,
     SECRET_KEY = '''', ALGORITHM = ''HS256'', JWT_ALGORITHM = ''HS256'', PRIVATE_KEY_PEM = '''', PUBLIC_KEY_PEM = '''',
     JWT_ISSUER = ''omnibioai-auth'', JWT_AUDIENCE = ''omnibioai-platform'',
     EMAIL_MFA_ENABLED = False, EMAIL_MFA_OTP_PEPPER = '''', EMAIL_MFA_TTL_SECONDS = 300, EMAIL_MFA_MAX_ATTEMPTS = 5,
     EMAIL_MFA_RESEND_COOLDOWN_SECONDS = 60, EMAIL_MFA_MAX_SENDS_PER_HOUR = 5,
     API_KEY_TOKEN_EXPIRE_MINUTES = 5, SERVICE_MINT_TOKEN_TTL_SECONDS = 300,
     ORG_INVITATIONS_ENABLED = False, ORG_INVITATION_ACCEPT_URL = '''', ORG_INVITATION_TTL_SECONDS = 604800,
     ORG_INVITATION_MAX_ACCEPT_ATTEMPTS = 5, CLIENT_CREDENTIALS_TOKEN_EXPIRE_MINUTES = 10,
     API_KEY_EXCHANGE_SECRET = '''', SERVICE_MINT_RATE_LIMIT = 300, SERVICE_MINT_RATE_WINDOW_SECONDS = 60,
     PASSWORD_MIN_LENGTH = 12, PASSWORD_MAX_LENGTH = 128, PASSWORD_COMPROMISE_CHECK_ENABLED = True,
     PASSWORD_COMPROMISE_CHECK_FAIL_CLOSED = False, REQUIRE_HTTPS_FOR_SSO_ISSUER = True,
     OAUTH_CLIENT_ID = (\<lambda>_. ''''), OAUTH_CLIENT_SECRET = (\<lambda>_. ''''),
     OAUTH_REDIRECT_BASE_URL = ''https://webstudio.omnibioai.org'', FRONTEND_BASE_URL = ''https://webstudio.omnibioai.org'',
     LIMS_SSO_CLIENT_ID = '''', LIMS_SSO_CLIENT_SECRET = '''', LIMS_SSO_REDIRECT_URI = '''', LIMS_SSO_CODE_TTL_SECONDS = 60,
     PROVIDER_KEY_REVEAL_SECRET = '''',
     WORKBENCH_PROVIDER_POLICY_BASE_URL = ''http://workbench:8000/plugins/integration_connections/internal/providers'',
     INTEGRATION_CREDENTIAL_SERVICE_SECRET = '''', INTEGRATION_CREDENTIAL_REFERENCE_TTL_SECONDS = 300,
     LICENSE_KEY_PEPPER = '''', LICENSE_ALLOWED_VALIDITY_DAYS = []\<rparr>"

subsection \<open>External functions\<close>

text \<open>A JWT payload: a Python dict from claim names to JSON values.\<close>

type_synonym claims = "(string \<times> json) list"

record url_parts =
  url_scheme :: string
  url_hostname :: "string option"
  url_username :: "string option"
  url_password :: "string option"
  url_port :: "int option"

record env =
  cfg :: settings
  sha256_hex :: "string \<Rightarrow> string"
  hmac_sha256_hex :: "string \<Rightarrow> string \<Rightarrow> string"
  isoformat :: "time \<Rightarrow> string"
  isoformat_auto :: "time \<Rightarrow> string"
  jwt_encode :: "claims \<Rightarrow> string \<Rightarrow> string \<Rightarrow> string"
  jwt_decode :: "time \<Rightarrow> string \<Rightarrow> string \<Rightarrow> string \<Rightarrow> string \<Rightarrow> claims option"
  jwt_header_alg :: "string \<Rightarrow> string option"
  pwd_verify :: "string \<Rightarrow> string \<Rightarrow> exn + bool"
  pwd_hash :: "string \<Rightarrow> string"
  pwd_needs_update :: "string \<Rightarrow> bool"
  audit_key :: string
  tz_offset :: int
  totp_digest :: "string \<Rightarrow> int \<Rightarrow> nat list option"
  crypto_decrypt :: "string \<Rightarrow> string option"
  crypto_encrypt :: "string \<Rightarrow> string"
  crypto_configured :: bool
  email_delivered :: "string \<Rightarrow> string \<Rightarrow> bool"
  invitation_delivered :: "string \<Rightarrow> string \<Rightarrow> bool"
  urlsplit :: "string \<Rightarrow> url_parts option"
  ip_is_global :: "string \<Rightarrow> bool option"
  sha1_hex :: "string \<Rightarrow> string"
  pwned_range :: "string \<Rightarrow> string list option"
  getaddrinfo :: "string \<Rightarrow> string list option"
  s256_challenge :: "string \<Rightarrow> string"

subsection \<open>Python's str of an integer\<close>

function (sequential) show_nat :: "nat \<Rightarrow> string" where
  "show_nat n = (if n < 10 then [char_of (48 + n)] else show_nat (n div 10) @ [char_of (48 + n mod 10)])"
  by pat_completeness auto
termination
  by (relation "measure id") auto

declare show_nat.simps [simp del]

definition show_int :: "int \<Rightarrow> string" where
  "show_int i = (if i < 0 then CHR ''-'' # show_nat (nat (- i)) else show_nat (nat i))"

definition digit_val :: "char \<Rightarrow> nat" where
  "digit_val c = of_char c - 48"

definition read_nat :: "string \<Rightarrow> nat" where
  "read_nat s = foldl (\<lambda>n c. n * 10 + digit_val c) 0 s"

lemma digit_val_char_of [simp]: "n < 10 \<Longrightarrow> digit_val (char_of (48 + n)) = n"
  by (simp add: digit_val_def)

lemma read_show_nat [simp]: "read_nat (show_nat n) = n"
proof (induction n rule: show_nat.induct)
  case (1 n)
  show ?case
  proof (cases "n < 10")
    case True
    then show ?thesis by (simp add: show_nat.simps [of n] read_nat_def)
  next
    case False
    then have "read_nat (show_nat (n div 10)) = n div 10" using 1 by simp
    then show ?thesis using False
      by (simp add: show_nat.simps [of n] read_nat_def)
  qed
qed

lemma show_nat_inj [simp]: "show_nat m = show_nat n \<longleftrightarrow> m = n"
  using read_show_nat by metis

lemma show_nat_ne_Nil [simp]: "show_nat n \<noteq> []"
  by (simp add: show_nat.simps [of n])

lemma hd_show_nat: "\<exists>k < 10. hd (show_nat n) = char_of (48 + k :: nat)"
proof (induction n rule: show_nat.induct)
  case (1 n)
  then show ?case by (cases "n < 10") (auto simp: show_nat.simps [of n])
qed

lemma show_nat_no_minus: "CHR ''-'' # xs \<noteq> show_nat n"
proof
  assume "CHR ''-'' # xs = show_nat n"
  then have eq: "hd (show_nat n) = CHR ''-''" by (metis list.sel(1))
  obtain k where "k < 10" and k: "hd (show_nat n) = char_of (48 + k :: nat)"
    using hd_show_nat by blast
  from k eq have "of_char (char_of (48 + k :: nat)) = (of_char (CHR ''-'') :: nat)" by simp
  with \<open>k < 10\<close> show False by simp
qed

lemma show_int_inj [simp]: "show_int i = show_int j \<longleftrightarrow> i = j"
  using show_nat_no_minus [of "show_nat (nat (- j))" "nat i"]
    show_nat_no_minus [of "show_nat (nat (- i))" "nat j"]
  by (auto simp: show_int_def dest: sym)

subsection \<open>A concrete environment\<close>

text \<open>
  An instance of the parameters, used where a theorem with hypotheses about them is applied
  to a concrete input. Tokens are written out in clear, so distinct payloads give distinct
  tokens, and decoding knows the tokens it is given.
\<close>

fun plain_value :: "json \<Rightarrow> string" where
  "plain_value (JStr s) = s"
| "plain_value (JInt i) = show_int i"
| "plain_value _ = ''-''"

definition sample_env :: "(string \<rightharpoonup> claims) \<Rightarrow> env" where
  "sample_env tokens = \<lparr>cfg = default_settings, sha256_hex = (\<lambda>s. s),
     hmac_sha256_hex = (\<lambda>k m. replicate 64 (CHR ''0'')), isoformat = show_int, isoformat_auto = show_int,
     jwt_encode = (\<lambda>c k a. concat (map (\<lambda>(n, v). n @ CHR ''='' # plain_value v @ '';'') c)),
     jwt_decode = (\<lambda>now t k a aud. tokens t), jwt_header_alg = (\<lambda>t. Some ''HS256''),
     pwd_verify = (\<lambda>p h. Inr (p = h)), pwd_hash = (\<lambda>p. p), pwd_needs_update = (\<lambda>h. False),
     audit_key = ''key'', tz_offset = 0,
     totp_digest = (\<lambda>k c. Some (replicate 19 0 @ [nat (c mod 16)])), crypto_decrypt = Some, crypto_encrypt = (\<lambda>x. x), crypto_configured = True,
     email_delivered = (\<lambda>to code. True),
     invitation_delivered = (\<lambda>to url. True), 
     urlsplit = (\<lambda>u. Some \<lparr>url_scheme = ''https'', url_hostname = Some ''portal.example.org'', url_username = None,
        url_password = None, url_port = None\<rparr>),
     ip_is_global = (\<lambda>h. None), sha1_hex = (\<lambda>s. s), pwned_range = (\<lambda>p. Some []),
     getaddrinfo = (\<lambda>h. Some [h]), s256_challenge = (\<lambda>v. v)\<rparr>"

end
