(* ===== verification/Canonical_Json.thy ===== *)
theory Canonical_Json
  imports Auth_Env "HOL-Library.Multiset"
begin

text \<open>
  The canonical JSON text of \<open>app/services/audit_integrity.py\<close>: \<open>json_normalize\<close> is
  \<open>_normalize\<close> (object keys sorted at every level) and \<open>dump\<close> is \<open>json.dumps\<close>
  with \<open>separators=(",", ":")\<close> and \<open>ensure_ascii=False\<close>, characters being the
  bytes of the UTF-8 encoding. Floating-point values, which no audit record carries, are
  not part of \<open>json\<close>.

  The main result is \<open>dump_inject\<close>: the text determines the value, so two different
  records never share a canonical text. It is proved for texts in any context that starts
  with a closing delimiter (\<open>follow\<close>), which makes the induction go through.
\<close>

subsection \<open>Normalisation\<close>

primrec json_normalize :: "json \<Rightarrow> json" where
  "json_normalize JNull = JNull"
| "json_normalize (JBool b) = JBool b"
| "json_normalize (JInt i) = JInt i"
| "json_normalize (JStr s) = JStr s"
| "json_normalize (JList xs) = JList (map json_normalize xs)"
| "json_normalize (JObj kvs) = JObj (sort_key fst (map (map_prod id json_normalize) kvs))"

lemma insort_key_map_snd:
  "insort_key fst (k, f v) (map (map_prod id f) ys) = map (map_prod id f) (insort_key fst (k, v) ys)"
  by (induction ys) auto

lemma sort_key_map_snd:
  "sort_key fst (map (map_prod id f) kvs) = map (map_prod id f) (sort_key fst kvs)"
  by (induction kvs) (auto simp: insort_key_map_snd [unfolded id_def] id_def)

lemma sort_key_sort_key: "sort_key f (sort_key f xs) = sort_key f xs"
  by (rule sort_key_id_if_sorted) simp

lemma json_normalize_idem [simp]: "json_normalize (json_normalize v) = json_normalize v"
proof (induction v)
  case (JObj kvs)
  have "map (map_prod id json_normalize) (map (map_prod id json_normalize) kvs)
      = map (map_prod id json_normalize) kvs"
    using JObj by (force simp: map_prod_def)
  then have "map (map_prod id json_normalize) (sort_key fst (map (map_prod id json_normalize) kvs))
      = sort_key fst (map (map_prod id json_normalize) kvs)"
    by (metis sort_key_map_snd)
  then show ?case by (simp add: sort_key_sort_key)
qed auto

text \<open>Reordering the keys of an object does not change its normal form.\<close>

lemma normalize_permuted:
  assumes "distinct (map fst kvs)" and "mset kvs = mset kvs'"
  shows "json_normalize (JObj kvs) = json_normalize (JObj kvs')"
proof -
  let ?xs = "map (map_prod id json_normalize) kvs" and ?ys = "map (map_prod id json_normalize) kvs'"
  have m: "mset ?xs = mset ?ys" using assms(2) by simp
  have "map fst ?xs = map fst kvs" by simp
  then have d: "distinct (map fst ?xs)" using assms(1) by (simp only:)
  then have "inj_on fst (set ?xs)" by (simp only: distinct_map)
  then have "sort_key fst ?xs = sort_key fst ?ys"
    using m by (intro sort_key_inj_key_eq) simp_all
  then show ?thesis by simp
qed

subsection \<open>The text\<close>

definition hex_digit :: "nat \<Rightarrow> char" where
  "hex_digit n = char_of (if n < 10 then 48 + n else 87 + n)"

text \<open>The escape of one character inside a JSON string.\<close>

definition esc :: "char \<Rightarrow> string" where
  "esc c = (let n = of_char c :: nat in
     if n = 34 then [CHR 0x5C, CHR 0x22]
     else if n = 92 then [CHR 0x5C, CHR 0x5C]
     else if n = 10 then [CHR 0x5C, CHR ''n'']
     else if n = 13 then [CHR 0x5C, CHR ''r'']
     else if n = 9 then [CHR 0x5C, CHR ''t'']
     else if n = 12 then [CHR 0x5C, CHR ''f'']
     else if n = 8 then [CHR 0x5C, CHR ''b'']
     else if n < 32 then [CHR 0x5C, CHR ''u'', CHR ''0'', CHR ''0'', hex_digit (n div 16), hex_digit (n mod 16)]
     else [c])"

definition quote :: "string \<Rightarrow> string" where
  "quote s = CHR 0x22 # concat (map esc s) @ [CHR 0x22]"

fun commas :: "string list \<Rightarrow> string" where
  "commas [] = []"
| "commas [x] = x"
| "commas (x # y # ys) = x @ CHR '','' # commas (y # ys)"

primrec dump :: "json \<Rightarrow> string" where
  "dump JNull = ''null''"
| "dump (JBool b) = (if b then ''true'' else ''false'')"
| "dump (JInt i) = show_int i"
| "dump (JStr s) = quote s"
| "dump (JList xs) = CHR ''['' # commas (map dump xs) @ '']''"
| "dump (JObj kvs) =
     CHR ''{'' # commas (map (\<lambda>(k, d). quote k @ CHR '':'' # d) (map (map_prod id dump) kvs)) @ ''}''"

text \<open>\<open>json.dumps(..., sort_keys=True)\<close>.\<close>

definition json_dumps :: "json \<Rightarrow> string" where
  "json_dumps v = dump (json_normalize v)"

subsection \<open>The text determines the value\<close>

text \<open>One character is read back from the front of an escaped text.\<close>

definition hex_val :: "char \<Rightarrow> nat" where
  "hex_val c = (let n = of_char c in if n < 58 then n - 48 else n - 87)"

fun next_char :: "string \<Rightarrow> char \<times> string" where
  "next_char (x # xs) =
     (if x \<noteq> CHR 0x5C then (x, xs)
      else case xs of
        y # ys \<Rightarrow>
          (if y = CHR ''u'' then (char_of (16 * hex_val (ys ! 2) + hex_val (ys ! 3)), drop 4 ys)
           else ((if y = CHR ''n'' then CHR 0x0A else if y = CHR ''r'' then CHR 0x0D
                  else if y = CHR ''t'' then CHR 0x09 else if y = CHR ''f'' then CHR 0x0C
                  else if y = CHR ''b'' then CHR 0x08 else y), ys))
      | [] \<Rightarrow> (x, []))"
| "next_char [] = (CHR 0x00, [])"

lemma hex_val_hex_digit: "n < 16 \<Longrightarrow> hex_val (hex_digit n) = n"
  by (auto simp: hex_val_def hex_digit_def Let_def)

lemma char_eq_of_nat: "of_char c = (n :: nat) \<Longrightarrow> c = char_of n"
  by (metis char_of_char)

lemma next_char_esc: "next_char (esc c @ r) = (c, r)"
proof (cases "of_char c \<in> {34, 92, 10, 13, 9, 12, 8 :: nat}")
  case True
  then show ?thesis
    by (auto simp: esc_def char_of_def bit_iff_odd dest!: char_eq_of_nat)
next
  case False
  show ?thesis
  proof (cases "of_char c < (32 :: nat)")
    case True
    then have "of_char c div 16 < (16 :: nat)" "of_char c mod 16 < (16 :: nat)" by auto
    then show ?thesis using True False
      by (simp add: esc_def Let_def hex_val_hex_digit)
  next
    case high: False
    then have "c \<noteq> CHR 0x5C" using False by auto
    then show ?thesis using False high by (simp add: esc_def Let_def)
  qed
qed

lemma esc_inject: "esc c @ r = esc d @ r' \<Longrightarrow> c = d \<and> r = r'"
  by (metis next_char_esc prod.inject)

lemma esc_ne_Nil [simp]: "esc c \<noteq> []"
  by (simp add: esc_def Let_def)

lemma esc_not_quote: "esc c @ r \<noteq> CHR 0x22 # r'"
  by (auto simp: esc_def Let_def)

lemma quote_inject:
  "quote s @ r = quote s' @ r' \<Longrightarrow> s = s' \<and> r = r'"
proof -
  have "concat (map esc s) @ CHR 0x22 # r = concat (map esc s') @ CHR 0x22 # r' \<Longrightarrow> s = s' \<and> r = r'"
  proof (induction s arbitrary: s')
    case Nil
    then show ?case using esc_not_quote by (cases s') (auto dest: sym)
  next
    case (Cons c s)
    show ?case
    proof (cases s')
      case Nil
      then show ?thesis using Cons.prems esc_not_quote by auto
    next
      case (Cons d t)
      then have "esc c @ (concat (map esc s) @ CHR 0x22 # r) = esc d @ (concat (map esc t) @ CHR 0x22 # r')"
        using Cons.prems by simp
      from esc_inject [OF this] Cons.IH [of t] Cons show ?thesis by simp
    qed
  qed
  then show "quote s @ r = quote s' @ r' \<Longrightarrow> s = s' \<and> r = r'" by (simp add: quote_def)
qed

definition follow :: "string \<Rightarrow> bool" where
  "follow r \<longleftrightarrow> r = [] \<or> hd r \<in> {CHR '','', CHR '']'', CHR ''}''}"

definition int_char :: "char \<Rightarrow> bool" where
  "int_char c \<longleftrightarrow> c = CHR ''-'' \<or> (48 \<le> (of_char c :: nat) \<and> (of_char c :: nat) < 58)"

lemma int_char_show_nat: "c \<in> set (show_nat n) \<Longrightarrow> int_char c"
proof (induction n rule: show_nat.induct)
  case (1 n)
  then show ?case
    by (cases "n < 10") (auto simp: show_nat.simps [of n] int_char_def)
qed

lemma int_char_show_int: "c \<in> set (show_int i) \<Longrightarrow> int_char c"
  using int_char_show_nat by (auto simp: show_int_def int_char_def split: if_splits)

lemma takeWhile_show_int: "follow r \<Longrightarrow> takeWhile int_char (show_int i @ r) = show_int i"
proof -
  assume r: "follow r"
  have "takeWhile int_char r = []"
    using r by (auto simp: follow_def int_char_def takeWhile_eq_Nil_iff)
  then show ?thesis
    by (subst takeWhile_append2) (auto intro: int_char_show_int)
qed

lemma show_int_inject:
  "follow r \<Longrightarrow> follow r' \<Longrightarrow> show_int i @ r = show_int j @ r' \<Longrightarrow> i = j \<and> r = r'"
  using takeWhile_show_int [of r i] takeWhile_show_int [of r' j] by auto

lemma show_int_hd: "show_int i \<noteq> []" "int_char (hd (show_int i))"
  using int_char_show_int [of "hd (show_int i)" i] by (auto simp: show_int_def)

lemma commas_inject:
  assumes inj: "\<And>x y r r'. x \<in> set xs \<Longrightarrow> follow r \<Longrightarrow> follow r' \<Longrightarrow> f x @ r = f y @ r' \<Longrightarrow> x = y \<and> r = r'"
    and hd: "\<And>x. f x \<noteq> [] \<and> hd (f x) \<noteq> z" and z: "z \<in> {CHR '']'', CHR ''}''}"
    and eq: "commas (map f xs) @ z # r = commas (map f ys) @ z # r'"
  shows "xs = ys \<and> r = r'"
proof -
  have ne: "f x @ q \<noteq> z # q'" for x q q'
    using hd [of x] by (cases "f x") auto
  show ?thesis using eq inj
  proof (induction xs arbitrary: ys)
    case Nil
    then show ?case using ne
      by (cases "map f ys" rule: commas.cases) (auto dest: sym)
  next
    case (Cons x xs)
    from Cons.prems(1) obtain y ys' where ys: "ys = y # ys'"
      using ne by (cases ys; cases xs) auto
    let ?rest = "\<lambda>zs q. if zs = [] then z # q else CHR '','' # commas (map f zs) @ z # q"
    have c: "commas (map f (u # us)) @ z # q = f u @ ?rest us q" for u us q
      by (cases us) auto
    have fo: "follow (?rest us q)" for us q
      using z by (auto simp: follow_def)
    have xy: "x = y" and rest: "?rest xs r = ?rest ys' r'"
      using Cons.prems(2) [of x "?rest xs r" "?rest ys' r'" y] Cons.prems(1) fo
      by (simp_all only: ys c list.set_intros)
    have zc: "z \<noteq> CHR '',''" using z by auto
    show ?case
    proof (cases "xs = []")
      case True
      then show ?thesis using rest zc xy ys by (auto split: if_splits)
    next
      case False
      then have "commas (map f xs) @ z # r = commas (map f ys') @ z # r'"
        using rest zc by (auto split: if_splits)
      then show ?thesis using Cons.IH [of ys'] Cons.prems(2) xy ys by auto
    qed
qed
qed

definition item :: "string \<times> json \<Rightarrow> string" where
  "item kv = quote (fst kv) @ CHR '':'' # dump (snd kv)"

lemma dump_JObj: "dump (JObj kvs) = CHR ''{'' # commas (map item kvs) @ ''}''"
  by (simp add: item_def [abs_def] o_def split_beta)

lemma item_hd: "item kv \<noteq> [] \<and> hd (item kv) \<noteq> CHR ''}''"
  by (simp add: item_def quote_def)

text \<open>The first character tells the kind of value.\<close>

fun kind_char :: "json \<Rightarrow> char \<Rightarrow> bool" where
  "kind_char JNull c = (c = CHR ''n'')"
| "kind_char (JBool b) c = (c = (if b then CHR ''t'' else CHR ''f''))"
| "kind_char (JInt i) c = int_char c"
| "kind_char (JStr s) c = (c = CHR 0x22)"
| "kind_char (JList xs) c = (c = CHR ''['')"
| "kind_char (JObj kvs) c = (c = CHR ''{'')"

lemma dump_hd: "dump v \<noteq> [] \<and> kind_char v (hd (dump v))"
  by (cases v) (auto simp: quote_def show_int_hd)

lemma dump_hd_bracket: "dump v \<noteq> [] \<and> hd (dump v) \<noteq> CHR '']''"
  using dump_hd [of v] by (cases v) (auto simp: int_char_def)

lemma dump_same_kind: "dump v @ r = dump w @ r' \<Longrightarrow> kind_char w (hd (dump v))"
  using dump_hd [of v] dump_hd [of w] by (metis hd_append2)

lemma dump_inject_follow:
  "follow r \<Longrightarrow> follow r' \<Longrightarrow> dump v @ r = dump w @ r' \<Longrightarrow> v = w \<and> r = r'"
proof (induction v arbitrary: w r r')
  case JNull
  then show ?case using dump_same_kind [OF JNull(3)]
    by (cases w) (auto simp: int_char_def split: if_splits)
next
  case (JBool b)
  then show ?case using dump_same_kind [OF JBool(3)]
    by (cases w; cases b) (auto simp: int_char_def split: if_splits)
next
  case (JInt i)
  have "int_char (hd (dump (JInt i)))" by (simp add: show_int_hd)
  then obtain j where "w = JInt j" using dump_same_kind [OF JInt(3)]
    by (cases w) (auto simp: int_char_def split: if_splits)
  then show ?case using JInt show_int_inject [of r r' i j] by (simp only: dump.simps)
next
  case (JStr s)
  have "kind_char w (CHR 0x22)" using dump_same_kind [OF JStr(3)] by (simp add: quote_def)
  then obtain t where "w = JStr t" by (cases w) (auto simp: int_char_def split: if_splits)
  then show ?case using JStr(3) quote_inject [of s r t r'] by (simp only: dump.simps)
next
  case (JList xs)
  have "kind_char w (CHR ''['')" using dump_same_kind [OF JList(4)] by simp
  then obtain ys where w: "w = JList ys" by (cases w) (auto simp: int_char_def split: if_splits)
  have "xs = ys \<and> r = r'"
    by (rule commas_inject [of xs dump "CHR '']''" r ys r'])
       (use JList.IH JList.prems(3) dump_hd_bracket w in auto)
  then show ?case using w by simp
next
  case (JObj kvs)
  have "kind_char w (CHR ''{'')" using dump_same_kind [OF JObj(4)] by simp
  then obtain kvs' where w: "w = JObj kvs'" by (cases w) (auto simp: int_char_def split: if_splits)
  have inj: "x = y \<and> q = q'"
    if "x \<in> set kvs" "follow q" "follow q'" "item x @ q = item y @ q'" for x y q q'
  proof -
    have "fst x = fst y \<and> CHR '':'' # dump (snd x) @ q = CHR '':'' # dump (snd y) @ q'"
      using that(4) by (intro quote_inject) (simp add: item_def)
    moreover have "snd x \<in> Basic_BNFs.snds x" by (simp add: snds.simps)
    ultimately show ?thesis
      using JObj.IH [OF that(1), of "snd x" q q' "snd y"] that(2,3) by (simp add: prod_eq_iff)
  qed
  have "kvs = kvs' \<and> r = r'"
    by (rule commas_inject [of kvs item "CHR ''}''" r kvs' r'])
       (use inj JObj.prems(3) item_hd w dump_JObj in auto)
  then show ?case using w by simp
qed

lemma dump_inject [simp]: "dump v = dump w \<longleftrightarrow> v = w"
  using dump_inject_follow [of "[]" "[]" v w] by (auto simp: follow_def)

lemma json_dumps_inject: "json_dumps v = json_dumps w \<longleftrightarrow> json_normalize v = json_normalize w"
  by (simp add: json_dumps_def)

end
