(* ===== verification/Audit_Log.thy ===== *)
theory Audit_Log
  imports Canonical_Json "HOL-Library.Product_Lexorder"
begin

text \<open>
  The audit ledger: \<open>app/services/audit_integrity.py\<close> (the HMAC of a record's canonical
  text) and \<open>app/services/audit_service.py\<close> (\<open>log_event\<close>, \<open>list_events\<close>).

  \<open>log_event\<close> is given the decoded integrity key (\<open>audit_key\<close> of the environment);
  \<open>key_bytes\<close> is the check that produces it and the errors it raises. A row is appended
  in a transaction of its own or in the caller's (\<open>commit\<close>); in the sequential model both
  append.

  \<open>ledger_ext\<close> is the contract every service keeps towards the ledger: rows are only ever
  appended, and every appended row verifies.
\<close>

subsection \<open>Integrity of one record\<close>

datatype integrity_result = VALID | INVALID | LEGACY_UNSIGNED | UNSUPPORTED_VERSION

definition INTEGRITY_VERSION :: int where
  "INTEGRITY_VERSION = 1"

definition INTEGRITY_ALGORITHM :: string where
  "INTEGRITY_ALGORITHM = ''HMAC-SHA-256''"

definition is_hex :: "char \<Rightarrow> bool" where
  "is_hex c = (let n = of_char c :: nat in 48 \<le> n \<and> n \<le> 57 \<or> 97 \<le> n \<and> n \<le> 102 \<or> 65 \<le> n \<and> n \<le> 70)"

definition is_lower_hex :: "char \<Rightarrow> bool" where
  "is_lower_hex c = (let n = of_char c :: nat in 48 \<le> n \<and> n \<le> 57 \<or> 97 \<le> n \<and> n \<le> 102)"

definition nibble :: "char \<Rightarrow> nat" where
  "nibble c = (let n = of_char c in if n \<le> 57 then n - 48 else if n \<le> 70 then n - 55 else n - 87)"

text \<open>\<open>bytes.fromhex\<close> on a string of hexadecimal digits; \<open>None\<close> is its \<open>ValueError\<close>.\<close>

fun bytes_fromhex :: "string \<Rightarrow> string option" where
  "bytes_fromhex [] = Some []"
| "bytes_fromhex [c] = None"
| "bytes_fromhex (c # d # cs) =
     map_option (\<lambda>bs. char_of (16 * nibble c + nibble d) # bs) (bytes_fromhex cs)"

definition key_bytes :: "string \<Rightarrow> exn + string" where
  "key_bytes candidate =
     (if candidate = [] \<or> \<not> list_all is_hex candidate
      then Inl (RuntimeError ''Auth audit integrity key is missing or malformed'')
      else case bytes_fromhex candidate of
        None \<Rightarrow> Inl (RuntimeError ''Auth audit integrity key is malformed'')
      | Some key \<Rightarrow>
          if length key < 32
          then Inl (RuntimeError ''Auth audit integrity key must contain at least 256 bits'')
          else Inr key)"

definition signed_body :: "env \<Rightarrow> audit_event \<Rightarrow> json" where
  "signed_body E e = JObj
     [(''event_type'', JStr (ae_event_type e)),
      (''actor_user_id'', jint_opt (ae_actor_user_id e)),
      (''target_user_id'', jint_opt (ae_target_user_id e)),
      (''organization_id'', jint_opt (ae_organization_id e)),
      (''resource_type'', jstr_opt (ae_resource_type e)),
      (''resource_id'', jstr_opt (ae_resource_id e)),
      (''before_state'', json_normalize (ae_before_state e)),
      (''after_state'', json_normalize (ae_after_state e)),
      (''event_metadata'', json_normalize (ae_event_metadata e)),
      (''created_at'', JStr (isoformat E (ae_created_at e)))]"

definition canonical_record :: "env \<Rightarrow> audit_event \<Rightarrow> string" where
  "canonical_record E e = json_dumps (JObj
     [(''canonicalization'', JStr ''omnibioai-auth-audit-v1''), (''record'', signed_body E e)])"

definition sign_record :: "env \<Rightarrow> audit_event \<Rightarrow> string" where
  "sign_record E e = hmac_sha256_hex E (audit_key E) (canonical_record E e)"

definition set_integrity :: "env \<Rightarrow> audit_event \<Rightarrow> audit_event" where
  "set_integrity E e =
     (let e1 = e\<lparr>ae_integrity_version := Some INTEGRITY_VERSION,
                 ae_integrity_algorithm := Some INTEGRITY_ALGORITHM\<rparr>
      in e1\<lparr>ae_integrity_digest := Some (sign_record E e1)\<rparr>)"

definition digest_format :: "string \<Rightarrow> bool" where
  "digest_format d \<longleftrightarrow> length d = 64 \<and> list_all is_lower_hex d"

definition verify_record :: "env \<Rightarrow> audit_event \<Rightarrow> integrity_result" where
  "verify_record E e =
     (if ae_integrity_version e = None \<and> ae_integrity_algorithm e = None \<and> ae_integrity_digest e = None
      then LEGACY_UNSIGNED
      else if ae_integrity_version e \<noteq> Some INTEGRITY_VERSION
            \<or> ae_integrity_algorithm e \<noteq> Some INTEGRITY_ALGORITHM
      then UNSUPPORTED_VERSION
      else case ae_integrity_digest e of
        None \<Rightarrow> INVALID
      | Some d \<Rightarrow>
          if \<not> digest_format d then INVALID
          else if sign_record E e = d then VALID else INVALID)"

text \<open>What is assumed of the digest function: its documented output format.\<close>

definition hmac_format :: "env \<Rightarrow> bool" where
  "hmac_format E \<longleftrightarrow> (\<forall>k m. digest_format (hmac_sha256_hex E k m))"

lemma sign_record_integrity_frame [simp]:
  "sign_record E (e\<lparr>ae_integrity_version := v\<rparr>) = sign_record E e"
  "sign_record E (e\<lparr>ae_integrity_algorithm := a\<rparr>) = sign_record E e"
  "sign_record E (e\<lparr>ae_integrity_digest := d\<rparr>) = sign_record E e"
  "sign_record E (e\<lparr>ae_id := i\<rparr>) = sign_record E e"
  by (simp_all add: sign_record_def canonical_record_def signed_body_def)

lemma sign_record_format: "hmac_format E \<Longrightarrow> digest_format (sign_record E e)"
  by (simp add: hmac_format_def sign_record_def)

lemma verify_set_integrity: "hmac_format E \<Longrightarrow> verify_record E (set_integrity E e) = VALID"
  by (simp add: verify_record_def set_integrity_def Let_def sign_record_format)

lemma verify_VALID:
  "verify_record E e = VALID \<longleftrightarrow>
     ae_integrity_version e = Some INTEGRITY_VERSION \<and> ae_integrity_algorithm e = Some INTEGRITY_ALGORITHM
     \<and> ae_integrity_digest e = Some (sign_record E e) \<and> digest_format (sign_record E e)"
  by (auto simp: verify_record_def split: option.splits)

lemma jint_opt_inj [simp]: "jint_opt a = jint_opt b \<longleftrightarrow> a = b"
  by (auto simp: jint_opt_def split: option.splits)

lemma jstr_opt_inj [simp]: "jstr_opt a = jstr_opt b \<longleftrightarrow> a = b"
  by (auto simp: jstr_opt_def split: option.splits)

lemma normalize_jopt [simp]: "json_normalize (jint_opt a) = jint_opt a" "json_normalize (jstr_opt s) = jstr_opt s"
  by (simp_all add: jint_opt_def jstr_opt_def split: option.splits)

text \<open>Two records with one canonical text agree on every signed field.\<close>

definition signed_fields :: "env \<Rightarrow> audit_event \<Rightarrow> string \<times> int option list \<times> string option list \<times> json list \<times> string" where
  "signed_fields E e =
     (ae_event_type e,
      [ae_actor_user_id e, ae_target_user_id e, ae_organization_id e],
      [ae_resource_type e, ae_resource_id e],
      map json_normalize [ae_before_state e, ae_after_state e, ae_event_metadata e],
      isoformat E (ae_created_at e))"

lemma sort_key_distinct_inj:
  assumes "map fst xs = map fst ys" and "distinct (map fst xs)"
    and "sort_key fst xs = sort_key fst ys"
  shows "xs = ys"
proof (rule nth_equalityI)
  show len: "length xs = length ys" using assms(1) by (metis length_map)
  have set: "set xs = set ys" using assms(3) by (metis set_sort)
  have d: "distinct (map fst ys)" using assms(1,2) by (simp only:)
  fix i assume i: "i < length xs"
  then have "fst (xs ! i) = fst (ys ! i)" using assms(1) len by (metis nth_map)
  moreover have "xs ! i \<in> set ys" "ys ! i \<in> set ys" using i len set by (auto simp: set_conv_nth)
  ultimately show "xs ! i = ys ! i" using distinct_keyD [OF d] by blast
qed

lemma json_normalize_JObj_inj:
  assumes "map fst xs = map fst ys" and "distinct (map fst xs)"
    and "json_normalize (JObj xs) = json_normalize (JObj ys)"
  shows "map (json_normalize \<circ> snd) xs = map (json_normalize \<circ> snd) ys"
proof -
  let ?n = "map (map_prod id json_normalize)"
  have keys: "map fst (?n zs) = map fst zs" for zs by simp
  have "?n xs = ?n ys"
  proof (rule sort_key_distinct_inj)
    show "map fst (?n xs) = map fst (?n ys)" unfolding keys by (rule assms(1))
    show "distinct (map fst (?n xs))" unfolding keys by (rule assms(2))
    show "sort_key fst (?n xs) = sort_key fst (?n ys)" using assms(3) by (simp only: json_normalize.simps json.inject)
  qed
  then have "map snd (map (map_prod id json_normalize) xs) = map snd (map (map_prod id json_normalize) ys)"
    by (simp only:)
  then show ?thesis by (simp add: o_def)
qed

lemma canonical_record_inj:
  "canonical_record E e = canonical_record E e' \<Longrightarrow> signed_fields E e = signed_fields E e'"
proof -
  assume "canonical_record E e = canonical_record E e'"
  then have "json_normalize (signed_body E e) = json_normalize (signed_body E e')"
    unfolding canonical_record_def json_dumps_inject
    by (drule_tac json_normalize_JObj_inj [rotated 2]) simp_all
  then show ?thesis
    unfolding signed_body_def
    by (drule_tac json_normalize_JObj_inj [rotated 2]) (simp_all add: signed_fields_def)
qed

subsection \<open>Writing events\<close>

text \<open>The keyword arguments of \<open>log_event\<close>, with their defaults.\<close>

record audit_args =
  a_type :: string
  a_actor :: "int option"
  a_target :: "int option"
  a_org :: "int option"
  a_rtype :: "string option"
  a_rid :: "string option"
  a_before :: json
  a_after :: json
  a_meta :: json

definition audit :: "string \<Rightarrow> audit_args" where
  "audit t = \<lparr>a_type = t, a_actor = None, a_target = None, a_org = None, a_rtype = None,
     a_rid = None, a_before = JNull, a_after = JNull, a_meta = JNull\<rparr>"

definition drop_microseconds :: "time \<Rightarrow> time" where
  "drop_microseconds t = t - t mod 1000000"

definition new_event :: "env \<Rightarrow> time \<Rightarrow> audit_args \<Rightarrow> int \<Rightarrow> audit_event" where
  "new_event E now a i = set_integrity E
     \<lparr>ae_id = i, ae_event_type = a_type a, ae_actor_user_id = a_actor a,
      ae_target_user_id = a_target a, ae_organization_id = a_org a,
      ae_resource_type = a_rtype a, ae_resource_id = a_rid a,
      ae_before_state = a_before a, ae_after_state = a_after a, ae_event_metadata = a_meta a,
      ae_created_at = drop_microseconds now, ae_integrity_version = None,
      ae_integrity_algorithm = None, ae_integrity_digest = None\<rparr>"

definition log_event :: "env \<Rightarrow> time \<Rightarrow> audit_args \<Rightarrow> db \<Rightarrow> db" where
  "log_event E now a s =
     s\<lparr>audit_events := audit_events s @ [new_event E now a (next_id ae_id (audit_events s))]\<rparr>"

text \<open>Nothing but the ledger changes.\<close>

lemma log_event_frame [simp, frame_simps]:
  "users (log_event E now a s) = users s"
  "roles (log_event E now a s) = roles s"
  "permissions (log_event E now a s) = permissions s"
  "user_roles (log_event E now a s) = user_roles s"
  "role_permissions (log_event E now a s) = role_permissions s"
  "refresh_tokens (log_event E now a s) = refresh_tokens s"
  "revoked_tokens (log_event E now a s) = revoked_tokens s"
  "user_sessions (log_event E now a s) = user_sessions s"
  "organizations (log_event E now a s) = organizations s"
  "memberships (log_event E now a s) = memberships s"
  "membership_roles (log_event E now a s) = membership_roles s"
  "teams (log_event E now a s) = teams s"
  "team_members (log_event E now a s) = team_members s"
  "oauth_clients (log_event E now a s) = oauth_clients s"
  "mfa_policies (log_event E now a s) = mfa_policies s"
  "mfa_devices (log_event E now a s) = mfa_devices s"
  "mfa_recovery_codes (log_event E now a s) = mfa_recovery_codes s"
  "mfa_used_totp_steps (log_event E now a s) = mfa_used_totp_steps s"
  "mfa_email_otps (log_event E now a s) = mfa_email_otps s"
  "mfa_enrollment_sessions (log_event E now a s) = mfa_enrollment_sessions s"
  "api_keys (log_event E now a s) = api_keys s"
  "delegated_grants (log_event E now a s) = delegated_grants s"
  "org_invitations (log_event E now a s) = org_invitations s"
  "oauth_accounts (log_event E now a s) = oauth_accounts s"
  "sso_configs (log_event E now a s) = sso_configs s"
  "saml_configs (log_event E now a s) = saml_configs s"
  "license_keys (log_event E now a s) = license_keys s"
  "license_requests (log_event E now a s) = license_requests s"
  by (simp_all add: log_event_def)

lemma find_log_event [simp, frame_simps]:
  "find_user (log_event E now a s) k = find_user s k"
  "find_user_by_email (log_event E now a s) em = find_user_by_email s em"
  "find_org (log_event E now a s) k = find_org s k"
  "role_perms (log_event E now a s) r = role_perms s r"
  "roles_of_user (log_event E now a s) u = roles_of_user s u"
  "roles_of_membership (log_event E now a s) m = roles_of_membership s m"
  by (simp_all add: find_user_def find_user_by_email_def find_org_def role_perms_def
      roles_of_user_def roles_of_membership_def)

lemma db_ok_log_event [simp]: "db_ok (log_event E now a s) = db_ok s"
  by (simp add: db_ok_def)

subsection \<open>The ledger contract\<close>

definition ledger_ext :: "env \<Rightarrow> db \<Rightarrow> db \<Rightarrow> bool" where
  "ledger_ext E s s' \<longleftrightarrow>
     (\<exists>es. audit_events s' = audit_events s @ es \<and> (\<forall>e \<in> set es. verify_record E e = VALID))"

lemma ledger_ext_same [simp, intro]: "audit_events s' = audit_events s \<Longrightarrow> ledger_ext E s s'"
  by (simp add: ledger_ext_def)

lemma ledger_ext_trans [trans]: "ledger_ext E s t \<Longrightarrow> ledger_ext E t u \<Longrightarrow> ledger_ext E s u"
  by (fastforce simp: ledger_ext_def)

lemma ledger_ext_log_event:
  "hmac_format E \<Longrightarrow> audit_events t = audit_events s \<Longrightarrow> ledger_ext E s (log_event E now a t)"
  by (auto simp: ledger_ext_def log_event_def new_event_def verify_set_integrity)

lemma ledger_ext_log_step:
  "hmac_format E \<Longrightarrow> ledger_ext E s t \<Longrightarrow> ledger_ext E s (log_event E now a t)"
  by (blast intro: ledger_ext_trans ledger_ext_log_event)

lemma ledger_ext_upd:
  "ledger_ext E s t \<Longrightarrow> audit_events t' = audit_events t \<Longrightarrow> ledger_ext E s t'"
  by (simp add: ledger_ext_def)

subsection \<open>Reading the ledger\<close>

definition event_filter :: "int option \<Rightarrow> int option \<Rightarrow> string option \<Rightarrow> time option \<Rightarrow> time option \<Rightarrow> audit_event \<Rightarrow> bool" where
  "event_filter org actor et start_date end_date e \<longleftrightarrow>
     (case org of None \<Rightarrow> True | Some v \<Rightarrow> ae_organization_id e = Some v)
   \<and> (case actor of None \<Rightarrow> True | Some v \<Rightarrow> ae_actor_user_id e = Some v)
   \<and> (if truthy et then ae_event_type e = the et else True)
   \<and> (case start_date of None \<Rightarrow> True | Some t \<Rightarrow> t \<le> ae_created_at e)
   \<and> (case end_date of None \<Rightarrow> True | Some t \<Rightarrow> ae_created_at e \<le> t)"

definition list_events ::
  "db \<Rightarrow> nat \<Rightarrow> nat \<Rightarrow> int option \<Rightarrow> int option \<Rightarrow> string option \<Rightarrow> time option \<Rightarrow> time option
     \<Rightarrow> audit_event list \<times> nat" where
  "list_events s page page_size org actor et start_date end_date =
     (let query = filter (event_filter org actor et start_date end_date) (audit_events s);
          ordered = sort_key (\<lambda>e. (- ae_created_at e, - ae_id e)) query
      in (take page_size (drop ((page - 1) * page_size) ordered), length query))"

lemma pages_cover:
  "concat (map (\<lambda>p. take k (drop ((p - 1) * k) xs)) [1..<Suc n]) = take (n * k) (xs :: 'a list)"
proof (induction n)
  case (Suc n)
  have "take (n * k) xs @ take k (drop (n * k) xs) = take (Suc n * k) xs"
    by (simp add: take_add [symmetric] add.commute)
  then show ?case using Suc by simp
qed simp

subsection \<open>Properties\<close>

text \<open>
  C32. Tamper evidence of the audit ledger. Two rows that verify under the configured key and
  carry one digest have one canonical record and agree on every signed field (event type, actor,
  target, organization, resource, the three JSON documents up to key order, and the timestamp);
  otherwise just their two canonical records are different messages with one HMAC. So whoever
  changes a signed field of a row and keeps its digest has to have found, for this row's record,
  a second record with the same HMAC.
\<close>

theorem audit_tamper_evidence:
  assumes "verify_record E e = VALID" and "verify_record E e' = VALID"
    and "ae_integrity_digest e = ae_integrity_digest e'"
  shows "(canonical_record E e = canonical_record E e' \<and> signed_fields E e = signed_fields E e')
       \<or> (canonical_record E e \<noteq> canonical_record E e'
          \<and> hmac_sha256_hex E (audit_key E) (canonical_record E e) = hmac_sha256_hex E (audit_key E) (canonical_record E e'))"
proof (cases "canonical_record E e = canonical_record E e'")
  case True
  then show ?thesis using canonical_record_inj by blast
next
  case False
  moreover have "hmac_sha256_hex E (audit_key E) (canonical_record E e)
              = hmac_sha256_hex E (audit_key E) (canonical_record E e')"
    using assms by (simp add: verify_VALID sign_record_def)
  ultimately show ?thesis by blast
qed

definition sample_event :: audit_event where
  "sample_event = new_event (sample_env Map.empty) 7 ((audit ''login_failure'')\<lparr>a_actor := Some 3\<rparr>) 1"

lemma hmac_format_sample [simp]: "hmac_format (sample_env tokens)"
  by (simp add: hmac_format_def sample_env_def digest_format_def is_lower_hex_def list_all_iff)

theorem audit_tamper_evidence_witness:
  "verify_record (sample_env Map.empty) sample_event = VALID
   \<and> signed_fields (sample_env Map.empty) sample_event = signed_fields (sample_env Map.empty) (sample_event\<lparr>ae_id := 2\<rparr>)"
proof -
  let ?E = "sample_env Map.empty"
  have v: "verify_record ?E sample_event = VALID"
    by (simp add: sample_event_def new_event_def verify_set_integrity)
  moreover have "verify_record ?E (sample_event\<lparr>ae_id := 2\<rparr>) = VALID"
    using v by (simp add: verify_VALID)
  moreover have "canonical_record ?E sample_event = canonical_record ?E (sample_event\<lparr>ae_id := 2\<rparr>)"
    by (simp add: canonical_record_def signed_body_def)
  ultimately show ?thesis using audit_tamper_evidence [of ?E sample_event "sample_event\<lparr>ae_id := 2\<rparr>"]
    by simp
qed

text \<open>
  Property. Paging through the ledger. Reading pages 1 to n of \<open>list_events\<close> one after the other
  returns, without loss or repetition, the newest n times page-size matching events, and the
  reported total is the number of matching events.
\<close>

theorem list_events_pages:
  "concat (map (\<lambda>p. fst (list_events s p k org actor et a b)) [1..<Suc n])
     = take (n * k) (sort_key (\<lambda>e. (- ae_created_at e, - ae_id e))
         (filter (event_filter org actor et a b) (audit_events s)))
   \<and> snd (list_events s p k org actor et a b)
     = length (filter (event_filter org actor et a b) (audit_events s))"
  by (simp only: list_events_def Let_def fst_conv snd_conv pages_cover)

end
