(* ===== verification/Permission_Registry.thy ===== *)
theory Permission_Registry
  imports Auth_Prelude "HOL-Library.AList"
begin

text \<open>
  \<open>app/core/permission_names.py\<close>: the registry of permission names. The registry is a
  dict filled at import time by \<open>_register\<close>; its entries are listed here in the order
  and with the fields of the source, and \<open>REGISTRY\<close> is the dict after all registrations
  (an association list in insertion order). \<open>import_check\<close> is the loop at the end of
  the module, which refuses to load a registry with an ill-formed name.
\<close>

datatype permission_scope = SCOPE_GLOBAL | SCOPE_ORG | SCOPE_BOTH

datatype permission_category =
    CAT_PLATFORM | CAT_ORGANIZATION | CAT_WORKFLOW | CAT_WORKSPACE
  | CAT_MODEL | CAT_DATASET | CAT_BILLING | CAT_MARKETPLACE

record permission_def =
  pd_name :: string
  pd_resource :: string
  pd_action :: string
  pd_scope :: permission_scope
  pd_category :: permission_category
  pd_description :: string
  pd_legacy :: bool
  pd_deprecated :: bool
  pd_deprecated_reason :: "string option"

fun scope_value :: "permission_scope \<Rightarrow> string" where
  "scope_value SCOPE_GLOBAL = ''global''"
| "scope_value SCOPE_ORG = ''org''"
| "scope_value SCOPE_BOTH = ''both''"

fun category_value :: "permission_category \<Rightarrow> string" where
  "category_value CAT_PLATFORM = ''platform''"
| "category_value CAT_ORGANIZATION = ''organization''"
| "category_value CAT_WORKFLOW = ''workflow''"
| "category_value CAT_WORKSPACE = ''workspace''"
| "category_value CAT_MODEL = ''model''"
| "category_value CAT_DATASET = ''dataset''"
| "category_value CAT_BILLING = ''billing''"
| "category_value CAT_MARKETPLACE = ''marketplace''"

definition as_dict :: "permission_def \<Rightarrow> json" where
  "as_dict p = JObj
     [(''name'', JStr (pd_name p)), (''resource'', JStr (pd_resource p)), (''action'', JStr (pd_action p)),
      (''scope'', JStr (scope_value (pd_scope p))), (''category'', JStr (category_value (pd_category p))),
      (''description'', JStr (pd_description p)), (''legacy'', JBool (pd_legacy p)),
      (''deprecated'', JBool (pd_deprecated p)), (''deprecated_reason'', jstr_opt (pd_deprecated_reason p))]"

subsection \<open>The entries\<close>

definition registry_services :: "permission_def list" where
  "registry_services =
    [\<lparr>pd_name = ''toolserver.delegate'', pd_resource = ''toolserver'', pd_action = ''delegate'',
      pd_scope = SCOPE_BOTH, pd_category = CAT_WORKFLOW,
      pd_description = ''Authorize a registered service identity to request narrowly scoped ToolServer execution delegations.'',
      pd_legacy = False, pd_deprecated = False, pd_deprecated_reason = None\<rparr>,
     \<lparr>pd_name = ''toolserver.register'', pd_resource = ''toolserver'', pd_action = ''register'',
      pd_scope = SCOPE_BOTH, pd_category = CAT_WORKFLOW,
      pd_description = ''Authorize a registered service identity (TES) to obtain a short-lived, ToolServer-audience credential for POST /register_tools. Service-only: carries no user identity and grants no execution or run access.'',
      pd_legacy = False, pd_deprecated = False, pd_deprecated_reason = None\<rparr>,
     \<lparr>pd_name = ''storage_ledger.write'', pd_resource = ''storage_ledger'', pd_action = ''write'',
      pd_scope = SCOPE_GLOBAL, pd_category = CAT_DATASET,
      pd_description = ''Authorize an active TES service identity to provision tenant-owned Storage Ledger output allocations. Runtime workers receive only allocation-scoped capabilities minted by Workbench.'',
      pd_legacy = False, pd_deprecated = False, pd_deprecated_reason = None\<rparr>]"

definition registry_platform :: "permission_def list" where
  "registry_platform =
    [\<lparr>pd_name = ''manage_roles'', pd_resource = ''roles'', pd_action = ''manage'',
      pd_scope = SCOPE_GLOBAL, pd_category = CAT_PLATFORM,
      pd_description = ''Manage global roles and their permission assignments.'',
      pd_legacy = True, pd_deprecated = False, pd_deprecated_reason = None\<rparr>,
     \<lparr>pd_name = ''manage_licenses'', pd_resource = ''licenses'', pd_action = ''manage'',
      pd_scope = SCOPE_GLOBAL, pd_category = CAT_PLATFORM,
      pd_description = ''Manage platform license validation and status.'',
      pd_legacy = True, pd_deprecated = False, pd_deprecated_reason = None\<rparr>,
     \<lparr>pd_name = ''manage_config'', pd_resource = ''config'', pd_action = ''manage'',
      pd_scope = SCOPE_GLOBAL, pd_category = CAT_PLATFORM,
      pd_description = ''Manage platform-wide LLM/cloud/directory configuration.'',
      pd_legacy = True, pd_deprecated = False, pd_deprecated_reason = None\<rparr>,
     \<lparr>pd_name = ''override_sso_enforcement'', pd_resource = ''sso_enforcement'', pd_action = ''override'',
      pd_scope = SCOPE_GLOBAL, pd_category = CAT_PLATFORM,
      pd_description = ''Break-glass override of an organization's enforced SSO login.'',
      pd_legacy = True, pd_deprecated = False, pd_deprecated_reason = None\<rparr>,
     \<lparr>pd_name = ''manage_all_orgs'', pd_resource = ''all_orgs'', pd_action = ''manage'',
      pd_scope = SCOPE_GLOBAL, pd_category = CAT_PLATFORM,
      pd_description = ''Cross-tenant platform-admin access to every organization.'',
      pd_legacy = True, pd_deprecated = False, pd_deprecated_reason = None\<rparr>,
     \<lparr>pd_name = ''license.issue'', pd_resource = ''license'', pd_action = ''issue'',
      pd_scope = SCOPE_GLOBAL, pd_category = CAT_PLATFORM,
      pd_description = ''Issue license keys as a client_credentials service (e.g. the storefront checkout worker). Only a holder of manage_licenses can grant it to an OAuth client.'',
      pd_legacy = False, pd_deprecated = False, pd_deprecated_reason = None\<rparr>,
     \<lparr>pd_name = ''service_token.mint'', pd_resource = ''service_token'', pd_action = ''mint'',
      pd_scope = SCOPE_GLOBAL, pd_category = CAT_PLATFORM,
      pd_description = ''Mint a short-lived access token on behalf of an already-authenticated user, for a trusted internal service to use when forwarding that user's real identity to a downstream system (#443) instead of the service's own shared identity.'',
      pd_legacy = False, pd_deprecated = False, pd_deprecated_reason = None\<rparr>,
     \<lparr>pd_name = ''service_token.mint_privileged'', pd_resource = ''service_token'', pd_action = ''mint_privileged'',
      pd_scope = SCOPE_GLOBAL, pd_category = CAT_PLATFORM,
      pd_description = ''Additionally allow service_token.mint to mint for users whose token would carry administrative or service permissions.'',
      pd_legacy = False, pd_deprecated = False, pd_deprecated_reason = None\<rparr>,
     \<lparr>pd_name = ''platform.manage_infra'', pd_resource = ''platform'', pd_action = ''manage_infra'',
      pd_scope = SCOPE_GLOBAL, pd_category = CAT_PLATFORM,
      pd_description = ''Manage Control Center's docker/services/summary/config surfaces.'',
      pd_legacy = True, pd_deprecated = False, pd_deprecated_reason = None\<rparr>,
     \<lparr>pd_name = ''platform.manage_cron'', pd_resource = ''platform'', pd_action = ''manage_cron'',
      pd_scope = SCOPE_GLOBAL, pd_category = CAT_PLATFORM,
      pd_description = ''Manage Control Center's scheduled cron jobs.'',
      pd_legacy = True, pd_deprecated = False, pd_deprecated_reason = None\<rparr>,
     \<lparr>pd_name = ''platform.manage_content'', pd_resource = ''platform'', pd_action = ''manage_content'',
      pd_scope = SCOPE_GLOBAL, pd_category = CAT_PLATFORM,
      pd_description = ''Manage Control Center's known-issues/report/coverage content.'',
      pd_legacy = True, pd_deprecated = False, pd_deprecated_reason = None\<rparr>]"

definition registry_org :: "permission_def list" where
  "registry_org =
    [\<lparr>pd_name = ''manage_org'', pd_resource = ''org'', pd_action = ''manage'',
      pd_scope = SCOPE_ORG, pd_category = CAT_ORGANIZATION,
      pd_description = ''Manage an organization's own settings and membership.'',
      pd_legacy = True, pd_deprecated = False, pd_deprecated_reason = None\<rparr>,
     \<lparr>pd_name = ''manage_teams'', pd_resource = ''teams'', pd_action = ''manage'',
      pd_scope = SCOPE_ORG, pd_category = CAT_ORGANIZATION,
      pd_description = ''Manage an organization's teams and their members.'',
      pd_legacy = True, pd_deprecated = False, pd_deprecated_reason = None\<rparr>,
     \<lparr>pd_name = ''manage_api_keys'', pd_resource = ''api_keys'', pd_action = ''manage'',
      pd_scope = SCOPE_ORG, pd_category = CAT_ORGANIZATION,
      pd_description = ''Manage an organization's API keys.'',
      pd_legacy = True, pd_deprecated = False, pd_deprecated_reason = None\<rparr>,
     \<lparr>pd_name = ''manage_billing'', pd_resource = ''billing'', pd_action = ''manage'',
      pd_scope = SCOPE_ORG, pd_category = CAT_ORGANIZATION,
      pd_description = ''Manage an organization's billing payment method (omnibioai-billing).'',
      pd_legacy = True, pd_deprecated = False, pd_deprecated_reason = None\<rparr>,
     \<lparr>pd_name = ''manage_oauth_clients'', pd_resource = ''oauth_clients'', pd_action = ''manage'',
      pd_scope = SCOPE_ORG, pd_category = CAT_ORGANIZATION,
      pd_description = ''Manage an organization's OAuth2 service-identity clients.'',
      pd_legacy = True, pd_deprecated = False, pd_deprecated_reason = None\<rparr>,
     \<lparr>pd_name = ''manage_sso'', pd_resource = ''sso'', pd_action = ''manage'',
      pd_scope = SCOPE_ORG, pd_category = CAT_ORGANIZATION,
      pd_description = ''Manage an organization's SSO/OIDC/SAML identity provider configuration.'',
      pd_legacy = True, pd_deprecated = False, pd_deprecated_reason = None\<rparr>]"

definition registry_science :: "permission_def list" where
  "registry_science =
    [\<lparr>pd_name = ''workflow.execute'', pd_resource = ''workflow'', pd_action = ''execute'',
      pd_scope = SCOPE_BOTH, pd_category = CAT_WORKFLOW,
      pd_description = ''Start or cancel a tool-execution run, and validate a run request before submission (omnibioai-tes).'',
      pd_legacy = False, pd_deprecated = False, pd_deprecated_reason = None\<rparr>,
     \<lparr>pd_name = ''workflow.read'', pd_resource = ''workflow'', pd_action = ''read'',
      pd_scope = SCOPE_BOTH, pd_category = CAT_WORKFLOW,
      pd_description = ''List and view workflow bundle catalog entries/definitions (omnibioai-workflow-bundles).'',
      pd_legacy = False, pd_deprecated = False, pd_deprecated_reason = None\<rparr>,
     \<lparr>pd_name = ''workflow.publish'', pd_resource = ''workflow'', pd_action = ''publish'',
      pd_scope = SCOPE_BOTH, pd_category = CAT_WORKFLOW,
      pd_description = ''Register/publish a new workflow bundle version (omnibioai-workflow-bundles).'',
      pd_legacy = False, pd_deprecated = False, pd_deprecated_reason = None\<rparr>,
     \<lparr>pd_name = ''workflow.manage'', pd_resource = ''workflow'', pd_action = ''manage'',
      pd_scope = SCOPE_BOTH, pd_category = CAT_WORKFLOW,
      pd_description = ''Create/update/delete workflow bundle definitions; administrative lifecycle operations (omnibioai-workflow-bundles).'',
      pd_legacy = False, pd_deprecated = False, pd_deprecated_reason = None\<rparr>,
     \<lparr>pd_name = ''runs.read'', pd_resource = ''runs'', pd_action = ''read'',
      pd_scope = SCOPE_BOTH, pd_category = CAT_WORKFLOW,
      pd_description = ''List and view tool-execution run status, logs, and results (omnibioai-tes). Does not grant starting or cancelling a run -- see workflow.execute.'',
      pd_legacy = False, pd_deprecated = False, pd_deprecated_reason = None\<rparr>,
     \<lparr>pd_name = ''model.use'', pd_resource = ''model'', pd_action = ''use'',
      pd_scope = SCOPE_BOTH, pd_category = CAT_MODEL,
      pd_description = ''Reserved -- not yet enforced by any route.'',
      pd_legacy = False, pd_deprecated = False, pd_deprecated_reason = None\<rparr>,
     \<lparr>pd_name = ''model.read'', pd_resource = ''model'', pd_action = ''read'',
      pd_scope = SCOPE_BOTH, pd_category = CAT_MODEL,
      pd_description = ''List and view Model Registry catalog metadata -- registered models, versions, aliases, comparisons, metrics, and experiment-tracking runs (omnibioai-model-registry). Does not grant resolving a model to its artifact path (model.use) or any write/mutation route.'',
      pd_legacy = False, pd_deprecated = False, pd_deprecated_reason = None\<rparr>,
     \<lparr>pd_name = ''model.resolve_ownership'', pd_resource = ''model'', pd_action = ''resolve_ownership'',
      pd_scope = SCOPE_BOTH, pd_category = CAT_MODEL,
      pd_description = ''Resolve a legacy_unowned Model Registry model's ownership to the resolver's own organization (omnibioai-model-registry Phase 2E). Distinct from model.use -- does not grant, and is not granted by, ordinary model read/write access. Already-owned models can never be reassigned via this permission; authorization is enforced entirely in omnibioai-model-registry, which remains the sole source of truth for model ownership.'',
      pd_legacy = False, pd_deprecated = False, pd_deprecated_reason = None\<rparr>]"

definition registry_tenant :: "permission_def list" where
  "registry_tenant =
    [\<lparr>pd_name = ''dataset.read'', pd_resource = ''dataset'', pd_action = ''read'',
      pd_scope = SCOPE_BOTH, pd_category = CAT_DATASET,
      pd_description = ''Reserved -- not yet enforced by any route.'',
      pd_legacy = False, pd_deprecated = False, pd_deprecated_reason = None\<rparr>,
     \<lparr>pd_name = ''dataset.write'', pd_resource = ''dataset'', pd_action = ''write'',
      pd_scope = SCOPE_BOTH, pd_category = CAT_DATASET,
      pd_description = ''Ingest/write access to RAG-managed datasets/studies. Enforced by omnibioai-rag's /v1/ingest and /v1/embed.'',
      pd_legacy = False, pd_deprecated = False, pd_deprecated_reason = None\<rparr>,
     \<lparr>pd_name = ''usage.read'', pd_resource = ''usage'', pd_action = ''read'',
      pd_scope = SCOPE_BOTH, pd_category = CAT_BILLING,
      pd_description = ''Reserved -- not yet enforced by any route.'',
      pd_legacy = False, pd_deprecated = False, pd_deprecated_reason = None\<rparr>,
     \<lparr>pd_name = ''provider_keys.manage'', pd_resource = ''provider_keys'', pd_action = ''manage'',
      pd_scope = SCOPE_BOTH, pd_category = CAT_ORGANIZATION,
      pd_description = ''Reserved -- not yet enforced by any route.'',
      pd_legacy = False, pd_deprecated = False, pd_deprecated_reason = None\<rparr>,
     \<lparr>pd_name = ''billing.read'', pd_resource = ''billing'', pd_action = ''read'',
      pd_scope = SCOPE_BOTH, pd_category = CAT_BILLING,
      pd_description = ''Reserved -- not yet enforced by any route.'',
      pd_legacy = False, pd_deprecated = False, pd_deprecated_reason = None\<rparr>,
     \<lparr>pd_name = ''billing.manage'', pd_resource = ''billing'', pd_action = ''manage'',
      pd_scope = SCOPE_BOTH, pd_category = CAT_BILLING,
      pd_description = ''Reserved -- not yet enforced by any route.'',
      pd_legacy = False, pd_deprecated = False, pd_deprecated_reason = None\<rparr>,
     \<lparr>pd_name = ''subscription.manage'', pd_resource = ''subscription'', pd_action = ''manage'',
      pd_scope = SCOPE_BOTH, pd_category = CAT_BILLING,
      pd_description = ''Reserved -- not yet enforced by any route.'',
      pd_legacy = False, pd_deprecated = False, pd_deprecated_reason = None\<rparr>,
     \<lparr>pd_name = ''marketplace.install'', pd_resource = ''marketplace'', pd_action = ''install'',
      pd_scope = SCOPE_BOTH, pd_category = CAT_MARKETPLACE,
      pd_description = ''Reserved -- not yet enforced by any route.'',
      pd_legacy = False, pd_deprecated = False, pd_deprecated_reason = None\<rparr>,
     \<lparr>pd_name = ''workspace.launch'', pd_resource = ''workspace'', pd_action = ''launch'',
      pd_scope = SCOPE_BOTH, pd_category = CAT_WORKSPACE,
      pd_description = ''Start/stop a personal IDE workspace (Jupyter/RStudio/VSCode) and create/launch a profile-based workspace (omnibioai-launcher's server.js). Deliberately separate from platform.manage_infra -- launching your own dev workspace is a routine operator action, not platform-infrastructure administration, the same operator-vs-admin distinction workflow.execute already draws relative to org_admin's permissions (see SCIENTIST_PERMISSIONS in omnibioai-auth's own org_service.py). platform.manage_infra continues to satisfy the same launcher checks for an admin account, unchanged.'',
      pd_legacy = False, pd_deprecated = False, pd_deprecated_reason = None\<rparr>]"

subsection \<open>The registry\<close>

type_synonym registry = "(string \<times> permission_def) list"

definition register :: "permission_def \<Rightarrow> registry \<Rightarrow> registry" where
  "register p reg = AList.update (pd_name p) p reg"

definition registered :: "permission_def list" where
  "registered = registry_services @ registry_platform @ registry_org @ registry_science @ registry_tenant"

definition REGISTRY :: registry where
  "REGISTRY = fold register registered []"

definition is_known_permission :: "string \<Rightarrow> bool" where
  "is_known_permission name = (map_of REGISTRY name \<noteq> None)"

text \<open>
  The pattern \<open>^[a-z][a-z0-9_]*\.[a-z][a-z0-9_]*$\<close> under \<open>re.match\<close>; \<open>$\<close> also
  matches before a final newline.
\<close>

definition is_az :: "char \<Rightarrow> bool" where
  "is_az c = (let n = of_char c :: nat in 97 \<le> n \<and> n \<le> 122)"

definition is_word :: "char \<Rightarrow> bool" where
  "is_word c = (let n = of_char c :: nat in is_az c \<or> (48 \<le> n \<and> n \<le> 57) \<or> n = 95)"

definition is_ident :: "string \<Rightarrow> bool" where
  "is_ident s = (case s of [] \<Rightarrow> False | c # cs \<Rightarrow> is_az c \<and> list_all is_word cs)"

definition drop_final_newline :: "string \<Rightarrow> string" where
  "drop_final_newline s = (if s \<noteq> [] \<and> last s = CHR 0x0A then butlast s else s)"

definition is_valid_permission_format :: "string \<Rightarrow> bool" where
  "is_valid_permission_format name =
     (let s = drop_final_newline name;
          left = takeWhile (\<lambda>c. c \<noteq> CHR ''.'') s;
          rest = dropWhile (\<lambda>c. c \<noteq> CHR ''.'') s
      in is_ident left \<and> (case rest of [] \<Rightarrow> False | c # right \<Rightarrow> is_ident right))"

definition list_registry :: "permission_def list" where
  "list_registry = sort_key pd_name (map snd REGISTRY)"

definition contains :: "string \<Rightarrow> string \<Rightarrow> bool" where
  "contains needle s = (\<exists>i \<in> {0..length s}. take (length needle) (drop i s) = needle)"

definition filter_registry ::
  "(string \<Rightarrow> string) \<Rightarrow> permission_category option \<Rightarrow> permission_scope option \<Rightarrow> bool option
    \<Rightarrow> bool option \<Rightarrow> string option
     \<Rightarrow> permission_def list" where
  "filter_registry lower category scope legacy deprecated search =
     (let r0 = list_registry;
          r1 = (case category of None \<Rightarrow> r0 | Some c \<Rightarrow> filter (\<lambda>p. pd_category p = c) r0);
          r2 = (case scope of None \<Rightarrow> r1 | Some c \<Rightarrow> filter (\<lambda>p. pd_scope p = c) r1);
          r3 = (case legacy of None \<Rightarrow> r2 | Some b \<Rightarrow> filter (\<lambda>p. pd_legacy p = b) r2);
          r4 = (case deprecated of None \<Rightarrow> r3 | Some b \<Rightarrow> filter (\<lambda>p. pd_deprecated p = b) r3)
      in if truthy search
         then let needle = lower (the search)
              in filter (\<lambda>p. contains needle (lower (pd_name p)) \<or> contains needle (lower (pd_description p))) r4
         else r4)"

definition import_check :: "registry \<Rightarrow> bool" where
  "import_check reg = list_all (\<lambda>(_, p). pd_legacy p \<or> is_valid_permission_format (pd_name p)) reg"

text \<open>\<open>role_service.GLOBAL_SCOPE_PERMISSIONS\<close>\<close>

definition GLOBAL_SCOPE_PERMISSIONS :: "string list" where
  "GLOBAL_SCOPE_PERMISSIONS = map pd_name (filter (\<lambda>p. pd_scope p = SCOPE_GLOBAL) (map snd REGISTRY))"

lemma fold_register_fst:
  "distinct (map pd_name ps) \<Longrightarrow> set (map pd_name ps) \<inter> fst ` set reg = {} \<Longrightarrow>
   fold register ps reg = reg @ map (\<lambda>p. (pd_name p, p)) ps"
proof (induction ps arbitrary: reg)
  case (Cons p ps)
  have "register p reg = reg @ [(pd_name p, p)]"
    unfolding register_def using Cons.prems(2) by (induction reg) auto
  moreover have "fold register ps (reg @ [(pd_name p, p)]) = (reg @ [(pd_name p, p)]) @ map (\<lambda>p. (pd_name p, p)) ps"
    by (rule Cons.IH) (use Cons.prems in auto)
  ultimately show ?case by simp
qed simp

lemmas registry_defs = registry_services_def registry_platform_def registry_org_def registry_science_def registry_tenant_def

lemma registered_names: "map pd_name registered =
   [''toolserver.delegate'', ''toolserver.register'', ''storage_ledger.write'',
    ''manage_roles'', ''manage_licenses'', ''manage_config'', ''override_sso_enforcement'', ''manage_all_orgs'', ''license.issue'',
    ''service_token.mint'', ''service_token.mint_privileged'', ''platform.manage_infra'', ''platform.manage_cron'', ''platform.manage_content'',
    ''manage_org'', ''manage_teams'', ''manage_api_keys'', ''manage_billing'', ''manage_oauth_clients'', ''manage_sso'', ''workflow.execute'',
    ''workflow.read'', ''workflow.publish'', ''workflow.manage'', ''runs.read'', ''model.use'', ''model.read'', ''model.resolve_ownership'',
    ''dataset.read'', ''dataset.write'', ''usage.read'', ''provider_keys.manage'', ''billing.read'', ''billing.manage'',
    ''subscription.manage'', ''marketplace.install'', ''workspace.launch'']"
  by (simp add: registered_def registry_defs)

lemma registered_scopes: "map pd_scope registered = [SCOPE_BOTH, SCOPE_BOTH, SCOPE_GLOBAL, SCOPE_GLOBAL, SCOPE_GLOBAL, SCOPE_GLOBAL,
    SCOPE_GLOBAL, SCOPE_GLOBAL, SCOPE_GLOBAL, SCOPE_GLOBAL, SCOPE_GLOBAL, SCOPE_GLOBAL, SCOPE_GLOBAL, SCOPE_GLOBAL, SCOPE_ORG, SCOPE_ORG,
    SCOPE_ORG, SCOPE_ORG, SCOPE_ORG, SCOPE_ORG, SCOPE_BOTH, SCOPE_BOTH, SCOPE_BOTH, SCOPE_BOTH, SCOPE_BOTH, SCOPE_BOTH, SCOPE_BOTH, SCOPE_BOTH,
    SCOPE_BOTH, SCOPE_BOTH, SCOPE_BOTH, SCOPE_BOTH, SCOPE_BOTH, SCOPE_BOTH, SCOPE_BOTH, SCOPE_BOTH, SCOPE_BOTH]"
  by (simp add: registered_def registry_defs)

lemma registered_distinct: "distinct (map pd_name registered)"
  unfolding registered_names by code_simp

lemma REGISTRY_entries: "REGISTRY = map (\<lambda>p. (pd_name p, p)) registered"
  unfolding REGISTRY_def using fold_register_fst [OF registered_distinct, of "[]"] by simp

lemma is_known_iff: "is_known_permission n \<longleftrightarrow> n \<in> set (map pd_name registered)"
  by (force simp: is_known_permission_def REGISTRY_entries map_of_eq_None_iff)

lemma global_known: "n \<in> set GLOBAL_SCOPE_PERMISSIONS \<Longrightarrow> is_known_permission n"
  by (auto simp: GLOBAL_SCOPE_PERMISSIONS_def is_known_iff REGISTRY_entries)

lemma global_names: "n \<in> set GLOBAL_SCOPE_PERMISSIONS \<longleftrightarrow>
   (\<exists>p \<in> set registered. pd_name p = n \<and> pd_scope p = SCOPE_GLOBAL)"
  by (auto simp: GLOBAL_SCOPE_PERMISSIONS_def REGISTRY_entries)

lemma list_all_map_pair:
  "list_all (\<lambda>(_, p). pd_legacy p \<or> is_valid_permission_format (pd_name p)) (map (\<lambda>p. (pd_name p, p)) ps)
   = list_all (\<lambda>(l, n). l \<or> is_valid_permission_format n) (zip (map pd_legacy ps) (map pd_name ps))"
  by (induction ps) auto

lemma registered_legacy: "map pd_legacy registered =
   [False, False, False, True, True, True, True, True, False, False, False, True, True, True, True, True, True, True, True, True,
    False, False, False, False, False, False, False, False, False, False, False, False, False, False, False, False, False]"
  by (simp add: registered_def registry_defs)

lemmas registered_checks = registered_legacy registered_names

subsection \<open>Properties\<close>

text \<open>
  Property. The registry loads: no registration overwrites an earlier one, the check at the end of
  the module accepts every entry, and every entry that is not a legacy name is called by its
  resource and its action.
\<close>

theorem registry_loads:
  "length REGISTRY = length registered \<and> import_check REGISTRY
   \<and> list_all (\<lambda>p. pd_legacy p \<or> pd_name p = pd_resource p @ ''.'' @ pd_action p) registered"
proof (intro conjI)
  show "length REGISTRY = length registered" by (simp add: REGISTRY_entries)
  show "import_check REGISTRY"
    unfolding import_check_def REGISTRY_entries list_all_map_pair registered_checks by code_simp
  show "list_all (\<lambda>p. pd_legacy p \<or> pd_name p = pd_resource p @ ''.'' @ pd_action p) registered"
    by (simp add: registered_def registry_defs)
qed

end
