(* ===== verification/Role_Service.thy ===== *)
theory Role_Service
  imports Audit_Log Permission_Registry
begin

text \<open>
  \<open>app/services/role_service.py\<close>: roles, their permissions and their assignment to
  users. An operation takes and returns the database; what it returns is the committed
  state. An operation that may refuse returns the state together with \<open>Inl\<close> of the
  exception, since a refusal is itself audited and committed before it is raised. The
  list of spelling suggestions in the message of an unknown permission is left out.

  The theory shows that organization-scoped roles never hold a platform-wide permission
  in any state the operations reach, and that permission rows never leave the registry.
\<close>

subsection \<open>Queries\<close>

definition list_roles_for_scope :: "db \<Rightarrow> int \<Rightarrow> role list" where
  "list_roles_for_scope s org = filter (\<lambda>r. r_organization_id r = None \<or> r_organization_id r = Some org) (roles s)"

definition get_role :: "db \<Rightarrow> int \<Rightarrow> role option" where
  "get_role s i = query_first (\<lambda>r. r_id r = i) (roles s)"

definition get_role_by_name :: "db \<Rightarrow> string \<Rightarrow> int option \<Rightarrow> role option" where
  "get_role_by_name s name org = query_first (\<lambda>r. r_name r = name \<and> r_organization_id r = org) (roles s)"

definition get_role_in_scope :: "db \<Rightarrow> string \<Rightarrow> int \<Rightarrow> role option" where
  "get_role_in_scope s name org =
     query_first (\<lambda>r. r_name r = name \<and> (r_organization_id r = None \<or> r_organization_id r = Some org)) (roles s)"

definition role_in_use :: "db \<Rightarrow> int \<Rightarrow> bool" where
  "role_in_use s i =
     (query_exists (\<lambda>(u, r). r = i) (user_roles s) \<or> query_exists (\<lambda>(m, r). r = i) (membership_roles s))"

definition permissions_for_roles :: "db \<Rightarrow> role list \<Rightarrow> string list" where
  "permissions_for_roles s rs = remdups (concat (map (role_perms s) rs))"

subsection \<open>Validation\<close>

fun validate_permission_names :: "string list \<Rightarrow> exn option" where
  "validate_permission_names [] = None"
| "validate_permission_names (n # ns) =
     (if is_known_permission n then validate_permission_names ns
      else Some (ValueError ''Unknown permission: {}'' [n]))"

definition offending :: "string list \<Rightarrow> string list" where
  "offending names = filter (\<lambda>n. n \<in> set names) GLOBAL_SCOPE_PERMISSIONS"

definition validate_org_scoped_permission_names ::
  "env \<Rightarrow> time \<Rightarrow> string list \<Rightarrow> int \<Rightarrow> int option \<Rightarrow> string \<Rightarrow> int option \<Rightarrow> db \<Rightarrow> db \<times> exn option" where
  "validate_org_scoped_permission_names E now names org actor role_name role_id s =
     (case validate_permission_names names of
        Some e \<Rightarrow> (s, Some e)
      | None \<Rightarrow>
          if offending names \<noteq> []
          then (log_event E now ((audit ''role_assignment_denied'')
                  \<lparr>a_actor := actor, a_org := Some org, a_rtype := Some ''role'', a_rid := map_option show_int role_id,
                   a_meta := JObj [(''reason'', JStr ''org_scoped_role_with_global_permission''), (''role'', JStr role_name),
                                   (''offending_permissions'', jstrs (sorted_set (offending names)))]\<rparr>) s,
                Some (ValueError ''Organization-scoped roles cannot hold platform-wide permissions: {}'' (sorted_set (offending names))))
          else (s, None))"

definition check_name_available :: "db \<Rightarrow> string \<Rightarrow> int option \<Rightarrow> int option \<Rightarrow> exn option" where
  "check_name_available s name org exclude =
     (if (case get_role_by_name s name None of None \<Rightarrow> False | Some r \<Rightarrow> Some (r_id r) \<noteq> exclude)
      then Some (ValueError ''Role name {!r} is already taken by a platform-wide role'' [name])
      else if org \<noteq> None \<and> (case get_role_by_name s name org of None \<Rightarrow> False | Some r \<Rightarrow> Some (r_id r) \<noteq> exclude)
      then Some (ValueError ''Role name {!r} is already taken by another role in this organization'' [name])
      else None)"

definition assert_no_unregistered_permissions :: "db \<Rightarrow> exn option" where
  "assert_no_unregistered_permissions s =
     (if filter (\<lambda>n. \<not> is_known_permission n) (map p_name (permissions s)) \<noteq> []
      then Some (RuntimeError ''Permission Registry drift detected'') else None)"

subsection \<open>Operations\<close>

fun get_or_create_permissions :: "string list \<Rightarrow> db \<Rightarrow> db \<times> permission list" where
  "get_or_create_permissions [] s = (s, [])"
| "get_or_create_permissions (n # ns) s =
     (let (s1, p) = (case query_first (\<lambda>p. p_name p = n) (permissions s) of
                       Some p \<Rightarrow> (s, p)
                     | None \<Rightarrow> let p = \<lparr>p_id = next_id p_id (permissions s), p_name = n\<rparr>
                               in (s\<lparr>permissions := permissions s @ [p]\<rparr>, p));
          (s2, ps) = get_or_create_permissions ns s1
      in (s2, p # ps))"

text \<open>\<open>Role(name=..., permissions=..., ...)\<close>, added and flushed.\<close>

definition add_role :: "string \<Rightarrow> string list \<Rightarrow> string option \<Rightarrow> int option \<Rightarrow> db \<Rightarrow> db \<times> role" where
  "add_role name names desc org s =
     (let (s1, ps) = get_or_create_permissions names s;
          r = \<lparr>r_id = next_id r_id (roles s1), r_name = name, r_description = desc, r_organization_id = org\<rparr>
      in (s1\<lparr>roles := roles s1 @ [r], role_permissions := role_permissions s1 @ map (\<lambda>p. (r_id r, p_id p)) ps\<rparr>, r))"

definition get_or_create_role :: "string \<Rightarrow> string list \<Rightarrow> db \<Rightarrow> db \<times> role" where
  "get_or_create_role name names s =
     (case get_role_by_name s name None of
        Some r \<Rightarrow> (s, r)
      | None \<Rightarrow> add_role name names None None s)"

definition assign_default_role :: "user \<Rightarrow> db \<Rightarrow> db" where
  "assign_default_role u s =
     (let (s1, r) = get_or_create_role ''user'' [] s
      in if (u_id u, r_id r) \<in> set (user_roles s1) then s1
         else s1\<lparr>user_roles := user_roles s1 @ [(u_id u, r_id r)]\<rparr>)"

definition create_role ::
  "env \<Rightarrow> time \<Rightarrow> string \<Rightarrow> string list \<Rightarrow> string option \<Rightarrow> int option \<Rightarrow> int option \<Rightarrow> db \<Rightarrow> db \<times> (exn + role)" where
  "create_role E now name names desc actor org s =
     (case check_name_available s name org None of
        Some e \<Rightarrow> (s, Inl e)
      | None \<Rightarrow>
          (case (case org of
                   Some oid \<Rightarrow> validate_org_scoped_permission_names E now names oid actor name None s
                 | None \<Rightarrow> (s, validate_permission_names names)) of
             (s1, Some e) \<Rightarrow> (s1, Inl e)
           | (s1, None) \<Rightarrow>
               let (s2, r) = add_role name names desc org s1
               in (log_event E now ((audit ''role_created'')
                     \<lparr>a_actor := actor, a_org := org, a_rtype := Some ''role'', a_rid := Some (show_int (r_id r)),
                      a_after := JObj [(''name'', JStr (r_name r)), (''description'', jstr_opt (r_description r)),
                                       (''permissions'', jstrs (sorted_strs names))]\<rparr>) s2,
                   Inr r)))"

definition set_role_permissions :: "role \<Rightarrow> string list \<Rightarrow> db \<Rightarrow> db" where
  "set_role_permissions r names s =
     (let (s1, ps) = get_or_create_permissions names s
      in s1\<lparr>role_permissions := delete_where (\<lambda>(i, p). i = r_id r) (role_permissions s1) @ map (\<lambda>p. (r_id r, p_id p)) ps\<rparr>)"

definition update_role_permissions ::
  "env \<Rightarrow> time \<Rightarrow> role \<Rightarrow> string list \<Rightarrow> string option \<Rightarrow> int option \<Rightarrow> db \<Rightarrow> db \<times> (exn + role)" where
  "update_role_permissions E now r names desc actor s =
     (case (case r_organization_id r of
              Some oid \<Rightarrow> validate_org_scoped_permission_names E now names oid actor (r_name r) (Some (r_id r)) s
            | None \<Rightarrow> (s, validate_permission_names names)) of
        (s1, Some e) \<Rightarrow> (s1, Inl e)
      | (s1, None) \<Rightarrow>
          let before = sorted_strs (role_perms s1 r);
              s2 = set_role_permissions r names s1;
              r' = (case desc of None \<Rightarrow> r | Some d \<Rightarrow> r\<lparr>r_description := Some d\<rparr>);
              s3 = s2\<lparr>roles := update_where (\<lambda>x. r_id x = r_id r)
                       (\<lambda>x. case desc of None \<Rightarrow> x | Some d \<Rightarrow> x\<lparr>r_description := Some d\<rparr>) (roles s2)\<rparr>;
              after = sorted_strs names;
              added = sorted_set (filter (\<lambda>n. n \<notin> set before) after);
              removed = sorted_set (filter (\<lambda>n. n \<notin> set after) before)
          in (if added \<noteq> [] \<or> removed \<noteq> []
              then log_event E now ((audit (if added \<noteq> [] then ''permission_granted'' else ''permission_revoked''))
                     \<lparr>a_actor := actor, a_org := r_organization_id r, a_rtype := Some ''role'', a_rid := Some (show_int (r_id r)),
                      a_before := JObj [(''permissions'', jstrs before)], a_after := JObj [(''permissions'', jstrs after)],
                      a_meta := JObj [(''added'', jstrs added), (''removed'', jstrs removed)]\<rparr>) s3
              else s3,
              Inr r'))"

definition add_user_role :: "env \<Rightarrow> time \<Rightarrow> user \<Rightarrow> role \<Rightarrow> int option \<Rightarrow> db \<Rightarrow> db" where
  "add_user_role E now u r actor s =
     (if (u_id u, r_id r) \<in> set (user_roles s) then s
      else log_event E now ((audit ''role_assigned'')
             \<lparr>a_actor := actor, a_target := Some (u_id u), a_rtype := Some ''role'', a_rid := Some (show_int (r_id r)),
              a_after := JObj [(''role'', JStr (r_name r))]\<rparr>)
             (s\<lparr>user_roles := user_roles s @ [(u_id u, r_id r)]\<rparr>))"

definition remove_user_role :: "env \<Rightarrow> time \<Rightarrow> user \<Rightarrow> role \<Rightarrow> int option \<Rightarrow> db \<Rightarrow> db" where
  "remove_user_role E now u r actor s =
     (if (u_id u, r_id r) \<in> set (user_roles s)
      then log_event E now ((audit ''role_removed'')
             \<lparr>a_actor := actor, a_target := Some (u_id u), a_rtype := Some ''role'', a_rid := Some (show_int (r_id r)),
              a_before := JObj [(''role'', JStr (r_name r))]\<rparr>)
             (s\<lparr>user_roles := delete_where (\<lambda>p. p = (u_id u, r_id r)) (user_roles s)\<rparr>)
      else s)"

text \<open>
  Deleting a \<open>Role\<close> removes the rows of the two association tables it has a relationship
  through; a row of \<open>membership_roles\<close> still referring to it violates the foreign key.
\<close>

definition delete_role :: "role \<Rightarrow> db \<Rightarrow> exn + db" where
  "delete_role r s =
     (if query_exists (\<lambda>(m, i). i = r_id r) (membership_roles s)
      then Inl (IntegrityError ''membership_roles.role_id'')
      else Inr (s\<lparr>roles := delete_where (\<lambda>x. r_id x = r_id r) (roles s),
                  role_permissions := delete_where (\<lambda>(i, p). i = r_id r) (role_permissions s),
                  user_roles := delete_where (\<lambda>(u, i). i = r_id r) (user_roles s)\<rparr>))"

fun resolve_roles :: "db \<Rightarrow> string list \<Rightarrow> exn + role list" where
  "resolve_roles s [] = Inr []"
| "resolve_roles s (n # ns) =
     (case get_role_by_name s n None of
        None \<Rightarrow> Inl (ValueError ''Unknown role: {}'' [n])
      | Some r \<Rightarrow> (case resolve_roles s ns of Inl e \<Rightarrow> Inl e | Inr rs \<Rightarrow> Inr (r # rs)))"

fun resolve_roles_for_org ::
  "env \<Rightarrow> time \<Rightarrow> string list \<Rightarrow> int \<Rightarrow> bool \<Rightarrow> int option \<Rightarrow> int option \<Rightarrow> db \<Rightarrow> db \<times> (exn + role list)" where
  "resolve_roles_for_org E now [] org admin actor target s = (s, Inr [])"
| "resolve_roles_for_org E now (n # ns) org admin actor target s =
     (case get_role_in_scope s n org of
        None \<Rightarrow> (s, Inl (ValueError ''Unknown role: {}'' [n]))
      | Some r \<Rightarrow>
          if \<not> admin \<and> offending (role_perms s r) \<noteq> []
          then (log_event E now ((audit ''role_assignment_denied'')
                  \<lparr>a_actor := actor, a_target := target, a_org := Some org, a_rtype := Some ''role'', a_rid := Some (show_int (r_id r)),
                   a_meta := JObj [(''reason'', JStr ''org_scoped_assignment_of_global_permission_role''), (''role'', JStr n),
                                   (''offending_permissions'', jstrs (sorted_set (offending (role_perms s r))))]\<rparr>) s,
                Inl (ValueError ''Role {!r} grants platform-wide permissions ({}) and can only be assigned by a Platform Admin''
                       (n # sorted_set (offending (role_perms s r)))))
          else (case resolve_roles_for_org E now ns org admin actor target s of
                  (s1, Inl e) \<Rightarrow> (s1, Inl e) | (s1, Inr rs) \<Rightarrow> (s1, Inr (r # rs))))"

definition set_user_roles :: "user \<Rightarrow> role list \<Rightarrow> db \<Rightarrow> db" where
  "set_user_roles u rs s = s\<lparr>user_roles := assign_links (u_id u) (map r_id rs) (user_roles s)\<rparr>"

subsection \<open>Permission rows\<close>

lemma in_role_perms:
  "n \<in> set (role_perms s r) \<longleftrightarrow> (\<exists>p \<in> set (permissions s). p_name p = n \<and> (r_id r, p_id p) \<in> set (role_permissions s))"
  by (auto simp: role_perms_def)

definition perms_ok :: "db \<Rightarrow> bool" where
  "perms_ok s \<longleftrightarrow> distinct (map r_id (roles s)) \<and> distinct (map p_id (permissions s)) \<and> distinct (map p_name (permissions s))
     \<and> (\<forall>(i, j) \<in> set (role_permissions s). i \<in> r_id ` set (roles s) \<and> j \<in> p_id ` set (permissions s))"

definition registered_ok :: "db \<Rightarrow> bool" where
  "registered_ok s \<longleftrightarrow> (\<forall>p \<in> set (permissions s). is_known_permission (p_name p))"

definition org_roles_ok :: "db \<Rightarrow> bool" where
  "org_roles_ok s \<longleftrightarrow>
     (\<forall>r \<in> set (roles s). r_organization_id r \<noteq> None \<longrightarrow> set (role_perms s r) \<inter> set GLOBAL_SCOPE_PERMISSIONS = {})"

definition roles_inv :: "db \<Rightarrow> bool" where
  "roles_inv s \<longleftrightarrow> perms_ok s \<and> registered_ok s \<and> org_roles_ok s"

lemma roles_inv_cong:
  assumes "roles s' = roles s" "permissions s' = permissions s" "role_permissions s' = role_permissions s"
  shows "roles_inv s' = roles_inv s"
  using assms by (simp add: roles_inv_def perms_ok_def registered_ok_def org_roles_ok_def role_perms_def)

lemma roles_inv_log_event [simp]: "roles_inv (log_event E now a s) = roles_inv s"
  by (rule roles_inv_cong) simp_all

lemma roles_inv_empty [simp]: "roles_inv empty_db"
  by (simp add: roles_inv_def perms_ok_def registered_ok_def org_roles_ok_def empty_db_def)

lemma goc_permissions:
  assumes "get_or_create_permissions names s = (s', ps)" and "distinct (map p_id (permissions s))" "distinct (map p_name (permissions s))"
  shows "map p_name ps = names \<and> set ps \<subseteq> set (permissions s')
       \<and> s' = s\<lparr>permissions := permissions s'\<rparr>
       \<and> (\<exists>new. permissions s' = permissions s @ new \<and> p_name ` set new \<subseteq> set names)
       \<and> distinct (map p_id (permissions s')) \<and> distinct (map p_name (permissions s'))"
  using assms
proof (induction names arbitrary: s s' ps)
  case (Cons n names)
  obtain s1 p where p: "(case query_first (\<lambda>p. p_name p = n) (permissions s) of Some p \<Rightarrow> (s, p)
      | None \<Rightarrow> let p = \<lparr>p_id = next_id p_id (permissions s), p_name = n\<rparr> in (s\<lparr>permissions := permissions s @ [p]\<rparr>, p)) = (s1, p)"
    by force
  have s1: "p_name p = n \<and> p \<in> set (permissions s1) \<and> s1 = s\<lparr>permissions := permissions s1\<rparr>
      \<and> (\<exists>new. permissions s1 = permissions s @ new \<and> p_name ` set new \<subseteq> {n})
      \<and> distinct (map p_id (permissions s1)) \<and> distinct (map p_name (permissions s1))"
    using p Cons.prems(2,3) next_id_notin [of p_id "permissions s"]
    by (auto simp: Let_def split: option.splits dest: query_first_Some)
  obtain s2 ps2 where rec: "get_or_create_permissions names s1 = (s2, ps2)" by force
  have s2: "map p_name ps2 = names \<and> set ps2 \<subseteq> set (permissions s2) \<and> s2 = s1\<lparr>permissions := permissions s2\<rparr>
       \<and> (\<exists>new. permissions s2 = permissions s1 @ new \<and> p_name ` set new \<subseteq> set names)
       \<and> distinct (map p_id (permissions s2)) \<and> distinct (map p_name (permissions s2))"
    using Cons.IH [OF rec] s1 by blast
  have eq: "s' = s2" "ps = p # ps2" using Cons.prems(1) p rec by (auto simp: Let_def)
  obtain P1 P2 where "s1 = s\<lparr>permissions := P1\<rparr>" "s2 = s1\<lparr>permissions := P2\<rparr>" using s1 s2 by blast
  then have "s2 = s\<lparr>permissions := permissions s2\<rparr>" by simp
  moreover obtain n1 n2 where "permissions s1 = permissions s @ n1" "p_name ` set n1 \<subseteq> {n}"
    "permissions s2 = permissions s1 @ n2" "p_name ` set n2 \<subseteq> set names" using s1 s2 by blast
  then have "\<exists>new. permissions s2 = permissions s @ new \<and> p_name ` set new \<subseteq> set (n # names)"
    by (intro exI [of _ "n1 @ n2"]) auto
  moreover have "p \<in> set (permissions s2)" using s1 s2 by auto
  ultimately show ?case using s1 s2 unfolding eq by simp
qed simp

text \<open>
  Linking a role to the permissions just found or created gives it exactly the requested
  names, and leaves every role with another id as it was.
\<close>

lemma linked_perms:
  assumes goc: "get_or_create_permissions names s = (s1, ps)" and ok: "perms_ok s"
    and keep: "set keep \<subseteq> set (role_permissions s)" "\<forall>j. (i, j) \<notin> set keep"
    and perms: "permissions s' = permissions s1" and links: "role_permissions s' = keep @ map (\<lambda>p. (i, p_id p)) ps"
  shows "r_id r = i \<Longrightarrow> set (role_perms s' r) = set names"
    and "(\<forall>j. (r_id x, j) \<in> set (role_permissions s) \<longrightarrow> (r_id x, j) \<in> set keep) \<Longrightarrow> r_id x \<noteq> i \<Longrightarrow>
         set (role_perms s' x) = set (role_perms s x)"
proof -
  have g: "map p_name ps = names" "set ps \<subseteq> set (permissions s1)" "\<exists>new. permissions s1 = permissions s @ new"
    "distinct (map p_id (permissions s1))"
    using goc_permissions [OF goc] ok by (auto simp: perms_ok_def)
  have names: "set names = p_name ` set ps" using g(1) by (metis set_map)
  { assume i: "r_id r = i"
    show "set (role_perms s' r) = set names"
    proof (rule set_eqI)
      fix n
      have "n \<in> set (role_perms s' r) \<longleftrightarrow> (\<exists>p \<in> set (permissions s1). p_name p = n \<and> p_id p \<in> p_id ` set ps)"
        using keep(2) i by (auto simp: in_role_perms perms links)
      also have "\<dots> \<longleftrightarrow> (\<exists>p \<in> set ps. p_name p = n)"
        using g(2) distinct_keyD [OF g(4)] by (auto simp: subset_iff)
      finally show "n \<in> set (role_perms s' r) \<longleftrightarrow> n \<in> set names" using names by auto
    qed }
  assume x: "\<forall>j. (r_id x, j) \<in> set (role_permissions s) \<longrightarrow> (r_id x, j) \<in> set keep" "r_id x \<noteq> i"
  obtain new where new: "permissions s1 = permissions s @ new" using g(3) by blast
  have old: "p_id p \<in> p_id ` set (permissions s)" if "(r_id x, p_id p) \<in> set (role_permissions s)" for p
    using ok that by (auto simp: perms_ok_def)
  have "p_id p \<noteq> p_id q" if "p \<in> set new" "q \<in> set (permissions s)" for p q
    using g(4) that unfolding new by auto
  then have "p \<in> set (permissions s)" if "(r_id x, p_id p) \<in> set (role_permissions s)" "p \<in> set (permissions s1)" for p
    using old [OF that(1)] that(2) new by auto
  moreover have "(r_id x, j) \<in> set (role_permissions s') \<longleftrightarrow> (r_id x, j) \<in> set (role_permissions s)" for j
    using x keep(1) by (auto simp: links)
  ultimately show "set (role_perms s' x) = set (role_perms s x)"
    using new by (auto simp: in_role_perms perms; blast)
qed

lemma linked_ok:
  assumes goc: "get_or_create_permissions names s = (s1, ps)" and ok: "perms_ok s"
    and keep: "set keep \<subseteq> set (role_permissions s)"
    and perms: "permissions s' = permissions s1" and links: "role_permissions s' = keep @ map (\<lambda>p. (i, p_id p)) ps"
    and rls: "distinct (map r_id (roles s'))" "i \<in> r_id ` set (roles s')" "r_id ` set (roles s) \<subseteq> r_id ` set (roles s')"
  shows "perms_ok s'" and "registered_ok s \<Longrightarrow> (\<forall>n \<in> set names. is_known_permission n) \<Longrightarrow> registered_ok s'"
proof -
  have g: "set ps \<subseteq> set (permissions s1)" "\<exists>new. permissions s1 = permissions s @ new \<and> p_name ` set new \<subseteq> set names"
    "distinct (map p_id (permissions s1))" "distinct (map p_name (permissions s1))"
    using goc_permissions [OF goc] ok by (auto simp: perms_ok_def)
  show "perms_ok s'"
    unfolding perms_ok_def
  proof (intro conjI)
    show "\<forall>(a, j) \<in> set (role_permissions s'). a \<in> r_id ` set (roles s') \<and> j \<in> p_id ` set (permissions s')"
    proof (clarify, intro conjI)
      fix a j assume "(a, j) \<in> set (role_permissions s')"
      then consider "(a, j) \<in> set (role_permissions s)" | p where "p \<in> set ps" "a = i" "j = p_id p"
        using keep by (auto simp: links)
      then have "a \<in> r_id ` set (roles s') \<and> j \<in> p_id ` set (permissions s')"
        using ok rls(2,3) g(1,2) by cases (auto simp: perms_ok_def perms)
      then show "a \<in> r_id ` set (roles s')" "j \<in> p_id ` set (permissions s')" by simp_all
    qed
  qed (use rls g(3,4) perms in simp_all)
  assume "registered_ok s" "\<forall>n \<in> set names. is_known_permission n"
  then show "registered_ok s'" using g(2) unfolding registered_ok_def perms by (auto simp: image_subset_iff)
qed

lemma add_role_spec:
  assumes add: "add_role name names desc org s = (s', r)" and ok: "perms_ok s"
  shows "roles s' = roles s @ [r]" "r_name r = name" "r_organization_id r = org" "r_description r = desc"
    "set (role_perms s' r) = set names" "x \<in> set (roles s) \<Longrightarrow> set (role_perms s' x) = set (role_perms s x)"
    "perms_ok s'" "registered_ok s \<Longrightarrow> (\<forall>n \<in> set names. is_known_permission n) \<Longrightarrow> registered_ok s'"
    "r_id r \<notin> r_id ` set (roles s)"
    "\<exists>P RP. s' = s\<lparr>roles := roles s @ [r], permissions := P, role_permissions := RP\<rparr>"
proof -
  obtain s1 ps where goc: "get_or_create_permissions names s = (s1, ps)" by force
  have s1: "s1 = s\<lparr>permissions := permissions s1\<rparr>" using goc_permissions [OF goc] ok by (simp add: perms_ok_def)
  then have fr: "roles s1 = roles s" "role_permissions s1 = role_permissions s" by (metis db.ext_inject db.surjective db.update_convs(3))+
  have s': "s' = s1\<lparr>roles := roles s @ [r], role_permissions := role_permissions s @ map (\<lambda>p. (r_id r, p_id p)) ps\<rparr>"
    and r: "r = \<lparr>r_id = next_id r_id (roles s), r_name = name, r_description = desc, r_organization_id = org\<rparr>"
    using add fr by (auto simp: add_role_def goc Let_def)
  show new: "r_id r \<notin> r_id ` set (roles s)" using next_id_notin [of r_id "roles s"] r by simp
  then have fresh: "\<forall>j. (r_id r, j) \<notin> set (role_permissions s)" using ok by (auto simp: perms_ok_def)
  have l: "permissions s' = permissions s1" "role_permissions s' = role_permissions s @ map (\<lambda>p. (r_id r, p_id p)) ps"
    using s' by simp_all
  note lp = linked_perms [OF goc ok subset_refl fresh l] and lo = linked_ok [OF goc ok subset_refl l]
  have d: "distinct (map r_id (roles s'))" using new ok s' by (simp add: perms_ok_def)
  show "roles s' = roles s @ [r]" "r_name r = name" "r_organization_id r = org" "r_description r = desc"
    using s' r by simp_all
  show "set (role_perms s' r) = set names" by (rule lp(1)) simp
  show "x \<in> set (roles s) \<Longrightarrow> set (role_perms s' x) = set (role_perms s x)"
    by (rule lp(2)) (use new in \<open>simp, metis imageI\<close>)
  show "perms_ok s'" by (rule lo(1)) (use d s' in auto)
  show "registered_ok s \<Longrightarrow> (\<forall>n \<in> set names. is_known_permission n) \<Longrightarrow> registered_ok s'"
    by (rule lo(2)) (use d s' in auto)
  show "\<exists>P RP. s' = s\<lparr>roles := roles s @ [r], permissions := P, role_permissions := RP\<rparr>"
    unfolding s' by (subst s1, intro exI [of _ "permissions s1"] exI [of _ "role_permissions s @ map (\<lambda>p. (r_id r, p_id p)) ps"]) simp
qed

lemma set_role_permissions_spec:
  assumes ok: "perms_ok s" and r: "r_id r \<in> r_id ` set (roles s)"
  shows "x \<in> set (roles s) \<Longrightarrow> set (role_perms (set_role_permissions r names s) x) = (if r_id x = r_id r then set names else set (role_perms s x))"
    and "perms_ok (set_role_permissions r names s)"
    and "registered_ok s \<Longrightarrow> (\<forall>n \<in> set names. is_known_permission n) \<Longrightarrow> registered_ok (set_role_permissions r names s)"
    and "\<exists>P RP. set_role_permissions r names s = s\<lparr>permissions := P, role_permissions := RP\<rparr>"
proof -
  obtain s1 ps where goc: "get_or_create_permissions names s = (s1, ps)" by force
  let ?keep = "delete_where (\<lambda>(i, p). i = r_id r) (role_permissions s)"
  have s1: "s1 = s\<lparr>permissions := permissions s1\<rparr>" using goc_permissions [OF goc] ok by (simp add: perms_ok_def)
  then have fr: "roles s1 = roles s" "role_permissions s1 = role_permissions s" by (metis db.ext_inject db.surjective db.update_convs(3))+
  define s' where "s' = set_role_permissions r names s"
  have s': "s' = s1\<lparr>role_permissions := ?keep @ map (\<lambda>p. (r_id r, p_id p)) ps\<rparr>"
    by (simp add: s'_def set_role_permissions_def goc Let_def fr)
  have k: "set ?keep \<subseteq> set (role_permissions s)" "\<forall>j. (r_id r, j) \<notin> set ?keep" by auto
  have l: "permissions s' = permissions s1" "role_permissions s' = ?keep @ map (\<lambda>p. (r_id r, p_id p)) ps"
    and rs: "roles s' = roles s" using s' fr by simp_all
  note lp = linked_perms [OF goc ok k l] and lo = linked_ok [OF goc ok k(1) l]
  show "x \<in> set (roles s) \<Longrightarrow> set (role_perms (set_role_permissions r names s) x) = (if r_id x = r_id r then set names else set (role_perms s x))"
    using lp(1) [of x] lp(2) [of x] by (auto simp: s'_def [symmetric])
  show "perms_ok (set_role_permissions r names s)"
    unfolding s'_def [symmetric] by (rule lo(1)) (use rs r ok in \<open>simp_all add: perms_ok_def\<close>)
  show "registered_ok s \<Longrightarrow> (\<forall>n \<in> set names. is_known_permission n) \<Longrightarrow> registered_ok (set_role_permissions r names s)"
    unfolding s'_def [symmetric] by (rule lo(2)) (use rs r ok in \<open>simp_all add: perms_ok_def\<close>)
  show "\<exists>P RP. set_role_permissions r names s = s\<lparr>permissions := P, role_permissions := RP\<rparr>"
    unfolding s'_def [symmetric] s' by (subst s1) auto
qed

subsection \<open>Every operation keeps the invariant\<close>

lemma validate_None: "validate_permission_names ns = None \<longleftrightarrow> (\<forall>n \<in> set ns. is_known_permission n)"
  by (induction ns) auto

lemma offending_Nil: "offending ns = [] \<longleftrightarrow> set ns \<inter> set GLOBAL_SCOPE_PERMISSIONS = {}"
  by (auto simp: offending_def filter_empty_conv)

lemma org_roles_okI:
  assumes "org_roles_ok s" and "roles s' = roles s @ [r]"
    and "\<And>x. x \<in> set (roles s) \<Longrightarrow> set (role_perms s' x) = set (role_perms s x)"
    and "r_organization_id r \<noteq> None \<Longrightarrow> set (role_perms s' r) \<inter> set GLOBAL_SCOPE_PERMISSIONS = {}"
  shows "org_roles_ok s'"
  using assms by (auto simp: org_roles_ok_def)

lemma roles_inv_add_role:
  assumes "roles_inv s" and "add_role name names desc org s = (s', r)" and "\<forall>n \<in> set names. is_known_permission n"
    and "org \<noteq> None \<Longrightarrow> set names \<inter> set GLOBAL_SCOPE_PERMISSIONS = {}"
  shows "roles_inv s'"
proof -
  have inv: "perms_ok s" "registered_ok s" "org_roles_ok s" using assms(1) by (simp_all add: roles_inv_def)
  note a = add_role_spec [OF assms(2) inv(1)]
  have "org_roles_ok s'"
    by (rule org_roles_okI [OF inv(3) a(1) a(6)]) (use a(3,5) assms(4) in auto)
  then show ?thesis using a(7) a(8) [OF inv(2) assms(3)] by (simp add: roles_inv_def)
qed

lemma validation_outcome:
  assumes "(case org of Some oid \<Rightarrow> validate_org_scoped_permission_names E now names oid actor rn ri s
                      | None \<Rightarrow> (s, validate_permission_names names)) = (s1, e)"
  shows "e = None \<Longrightarrow> s1 = s \<and> (\<forall>n \<in> set names. is_known_permission n) \<and> (org \<noteq> None \<longrightarrow> set names \<inter> set GLOBAL_SCOPE_PERMISSIONS = {})"
    and "s1 = s \<or> (\<exists>a. s1 = log_event E now a s)"
  using assms
  by (auto simp: validate_org_scoped_permission_names_def validate_None offending_Nil split: option.splits if_splits)

lemma roles_inv_create_role: "roles_inv s \<Longrightarrow> roles_inv (fst (create_role E now name names desc actor org s))"
proof -
  assume inv: "roles_inv s"
  obtain s1 e where v: "(case org of Some oid \<Rightarrow> validate_org_scoped_permission_names E now names oid actor name None s
      | None \<Rightarrow> (s, validate_permission_names names)) = (s1, e)" by force
  note vo = validation_outcome [OF v]
  obtain s2 r where a: "add_role name names desc org s1 = (s2, r)" by force
  have s1: "roles_inv s1" using vo(2) inv by auto
  show ?thesis
  proof (cases e)
    case None
    then have eq: "s1 = s" and inv2: "roles_inv s2" using vo(1) roles_inv_add_role [OF s1 a] by auto
    show ?thesis using None inv inv2 by (simp add: create_role_def v a [unfolded eq] eq Let_def split: option.splits)
  next
    case (Some x)
    then show ?thesis using s1 inv by (simp add: create_role_def v split: option.splits)
  qed
qed

lemma role_perms_upd_roles [simp]: "role_perms (s\<lparr>roles := R\<rparr>) x = role_perms s x"
  by (simp add: role_perms_def)

lemma roles_inv_set_role_permissions:
  assumes inv: "roles_inv s" and r: "r \<in> set (roles s)" and kn: "\<forall>n \<in> set names. is_known_permission n"
    and gl: "r_organization_id r \<noteq> None \<Longrightarrow> set names \<inter> set GLOBAL_SCOPE_PERMISSIONS = {}"
  shows "roles_inv (set_role_permissions r names s)"
proof -
  have ok: "perms_ok s" "registered_ok s" "org_roles_ok s" and d: "distinct (map r_id (roles s))"
    using inv by (simp_all add: roles_inv_def perms_ok_def)
  have rid: "r_id r \<in> r_id ` set (roles s)" using r by simp
  note sp = set_role_permissions_spec [OF ok(1) rid]
  have rs: "roles (set_role_permissions r names s) = roles s" using sp(4) [of names] by auto
  have "set (role_perms (set_role_permissions r names s) x) \<inter> set GLOBAL_SCOPE_PERMISSIONS = {}"
    if "x \<in> set (roles s)" "r_organization_id x \<noteq> None" for x
    using sp(1) [OF that(1)] distinct_keyD [OF d that(1) r] gl ok(3) that by (auto simp: org_roles_ok_def)
  then have "org_roles_ok (set_role_permissions r names s)" by (auto simp: org_roles_ok_def rs)
  then show ?thesis using sp(2) sp(3) [OF ok(2) kn] by (simp add: roles_inv_def)
qed

lemma roles_inv_describe:
  "roles_inv (s\<lparr>roles := update_where (\<lambda>x. r_id x = i) (\<lambda>x. case desc of None \<Rightarrow> x | Some d \<Rightarrow> x\<lparr>r_description := Some d\<rparr>) (roles s)\<rparr>)
   = roles_inv s"
proof -
  let ?f = "\<lambda>x. case desc of None \<Rightarrow> x | Some d \<Rightarrow> x\<lparr>r_description := Some d\<rparr>"
  let ?s = "s\<lparr>roles := update_where (\<lambda>x. r_id x = i) ?f (roles s)\<rparr>"
  have f: "r_id (?f x) = r_id x" "r_organization_id (?f x) = r_organization_id x" for x by (cases desc; simp)+
  have m: "map r_id (update_where (\<lambda>x. r_id x = i) ?f (roles s)) = map r_id (roles s)"
    by (rule map_update_where_same) (rule f)
  let ?g = "\<lambda>x. if r_id x = i then ?f x else x"
  have g: "r_organization_id (?g x) = r_organization_id x" "role_perms t (?g x) = role_perms t x" for t x
    by (cases "r_id x = i"; simp only: role_perms_def f if_True if_False)+
  have rs: "roles ?s = map ?g (roles s)" by (simp add: update_where_def)
  have "perms_ok ?s = perms_ok s" using m by (simp add: perms_ok_def flip: set_map)
  moreover have "org_roles_ok ?s = org_roles_ok s"
    by (simp only: org_roles_ok_def rs role_perms_upd_roles set_map ball_simps g)
  ultimately show ?thesis by (simp add: roles_inv_def registered_ok_def)
qed

lemma roles_inv_update_role_permissions:
  assumes inv: "roles_inv s" and r: "r \<in> set (roles s)"
  shows "roles_inv (fst (update_role_permissions E now r names desc actor s))"
proof -
  obtain s1 e where v: "(case r_organization_id r of
        Some oid \<Rightarrow> validate_org_scoped_permission_names E now names oid actor (r_name r) (Some (r_id r)) s
      | None \<Rightarrow> (s, validate_permission_names names)) = (s1, e)" by force
  note vo = validation_outcome [OF v]
  show ?thesis
  proof (cases e)
    case None
    then have "s1 = s" and "roles_inv (set_role_permissions r names s)"
      using vo(1) roles_inv_set_role_permissions [OF inv r] by auto
    then show ?thesis using None by (simp add: update_role_permissions_def v Let_def roles_inv_describe)
  next
    case (Some x)
    then show ?thesis using vo(2) inv by (auto simp: update_role_permissions_def v)
  qed
qed

lemma roles_inv_get_or_create_role:
  "roles_inv s \<Longrightarrow> \<forall>n \<in> set names. is_known_permission n \<Longrightarrow> roles_inv (fst (get_or_create_role name names s))"
  using roles_inv_add_role [of s name names None None "fst (add_role name names None None s)" "snd (add_role name names None None s)"]
  by (auto simp: get_or_create_role_def split: option.splits)

lemma roles_inv_user_roles [simp]: "roles_inv (s\<lparr>user_roles := L\<rparr>) = roles_inv s"
  by (rule roles_inv_cong) simp_all

lemma roles_inv_delete_role: "roles_inv s \<Longrightarrow> delete_role r s = Inr s' \<Longrightarrow> roles_inv s'"
  by (fastforce simp: delete_role_def roles_inv_def perms_ok_def registered_ok_def org_roles_ok_def in_role_perms
      distinct_map_delete_where disjoint_iff split: if_splits)

lemma resolve_for_org_state:
  "fst (resolve_roles_for_org E now ns org admin actor target s) = s
   \<or> (\<exists>a. fst (resolve_roles_for_org E now ns org admin actor target s) = log_event E now a s)"
  by (induction ns) (auto split: option.splits sum.splits prod.splits)

subsection \<open>Properties\<close>

text \<open>
  Property. What a successful \<open>create_role\<close> does: the new role has a fresh id, the requested name
  and scope and exactly the requested permissions, all of them registered and, for an
  organization's role, none of them platform-wide; every other role keeps its permissions,
  nothing but roles, permission rows and the ledger changes.
\<close>

theorem create_role_grants:
  assumes inv: "roles_inv s" and ok: "create_role E now name names desc actor org s = (s', Inr r)"
  shows "roles s' = roles s @ [r] \<and> r_id r \<notin> r_id ` set (roles s) \<and> r_name r = name \<and> r_organization_id r = org
    \<and> set (role_perms s' r) = set names \<and> (\<forall>n \<in> set names. is_known_permission n)
    \<and> (org = None \<or> set names \<inter> set GLOBAL_SCOPE_PERMISSIONS = {})
    \<and> (\<forall>x \<in> set (roles s). set (role_perms s' x) = set (role_perms s x))
    \<and> users s' = users s \<and> user_roles s' = user_roles s \<and> memberships s' = memberships s
    \<and> membership_roles s' = membership_roles s"
proof -
  have pok: "perms_ok s" using inv by (simp add: roles_inv_def)
  obtain s1 e where v: "(case org of Some oid \<Rightarrow> validate_org_scoped_permission_names E now names oid actor name None s
      | None \<Rightarrow> (s, validate_permission_names names)) = (s1, e)" by force
  have e: "e = None" using ok v by (cases e) (auto simp: create_role_def split: option.splits)
  note vo = validation_outcome(1) [OF v e]
  obtain s2 where a: "add_role name names desc org s = (s2, r)" and s': "\<exists>x. s' = log_event E now x s2"
    using ok vo e by (auto simp: create_role_def v Let_def split: option.splits prod.splits)
  note sp = add_role_spec [OF a pok]
  from s' obtain x where x: "s' = log_event E now x s2" by blast
  obtain P RP where s2: "s2 = s\<lparr>roles := roles s @ [r], permissions := P, role_permissions := RP\<rparr>" using sp(10) by blast
  have fr: "users s' = users s" "user_roles s' = user_roles s" "memberships s' = memberships s"
    "membership_roles s' = membership_roles s" "roles s' = roles s @ [r]" by (simp_all add: x s2)
  have rp: "role_perms s' y = role_perms s2 y" for y by (simp add: x)
  show ?thesis using fr vo sp(2,3,5,6,9) by (simp only: rp) auto
qed

definition role_db :: db where
  "role_db = empty_db\<lparr>roles := [\<lparr>r_id = 4, r_name = ''auditor'', r_description = None, r_organization_id = Some 9\<rparr>]\<rparr>"

lemma roles_inv_role_db: "roles_inv role_db"
  by (simp add: role_db_def roles_inv_def perms_ok_def registered_ok_def org_roles_ok_def empty_db_def role_perms_def)

lemma known_manage_org: "is_known_permission ''manage_org''"
  unfolding is_known_iff registered_names by simp

theorem create_role_grants_witness:
  "let E = sample_env Map.empty; s' = fst (create_role E 0 ''ops'' [''manage_org''] None None None role_db) in
   \<exists>r. roles s' = roles role_db @ [r] \<and> set (role_perms s' r) = {''manage_org''}"
proof -
  let ?res = "create_role (sample_env Map.empty) 0 ''ops'' [''manage_org''] None None None role_db"
  have "\<exists>r. snd ?res = Inr r"
    by (simp add: create_role_def check_name_available_def get_role_by_name_def role_db_def empty_db_def known_manage_org Let_def split_beta)
  then obtain r where "?res = (fst ?res, Inr r)" by (metis prod.collapse)
  from create_role_grants [OF roles_inv_role_db this] show ?thesis by (auto simp: Let_def)
qed

lemma check_name_None:
  "check_name_available s name org None = None \<longleftrightarrow>
   get_role_by_name s name None = None \<and> (org = None \<or> get_role_by_name s name org = None)"
  by (auto simp: check_name_available_def simp del: query_first_None split: option.splits)

lemma validation_refuses:
  assumes v: "(case org of Some oid \<Rightarrow> validate_org_scoped_permission_names E now names oid actor rn ri s
                      | None \<Rightarrow> (s, validate_permission_names names)) = (s1, e)"
  shows "e = None \<longleftrightarrow> list_all is_known_permission names \<and> (org = None \<or> set names \<inter> set GLOBAL_SCOPE_PERMISSIONS = {})"
    and "s1 = s \<or> (org \<noteq> None \<and> (\<exists>a. a_type a = ''role_assignment_denied'' \<and> s1 = log_event E now a s))"
proof -
  have k: "list_all is_known_permission names \<longleftrightarrow> validate_permission_names names = None"
    by (simp add: validate_None list_all_iff)
  have t: "a_type ((audit x)\<lparr>a_actor := a, a_org := o', a_rtype := rt, a_rid := i, a_meta := m\<rparr>) = x" for x a o' rt i m
    by (simp add: audit_def)
  show "e = None \<longleftrightarrow> list_all is_known_permission names \<and> (org = None \<or> set names \<inter> set GLOBAL_SCOPE_PERMISSIONS = {})"
    unfolding k using v
    by (cases "validate_permission_names names"; cases org)
       (auto simp: validate_org_scoped_permission_names_def simp flip: offending_Nil split: if_splits option.splits)
  show "s1 = s \<or> (org \<noteq> None \<and> (\<exists>a. a_type a = ''role_assignment_denied'' \<and> s1 = log_event E now a s))"
  proof (cases org)
    case (Some oid)
    show ?thesis
    proof (cases "s1 = s")
      case False
      then have "s1 = log_event E now ((audit ''role_assignment_denied'')\<lparr>a_actor := actor, a_org := Some oid, a_rtype := Some ''role'',
          a_rid := map_option show_int ri, a_meta := JObj [(''reason'', JStr ''org_scoped_role_with_global_permission''), (''role'', JStr rn),
                                   (''offending_permissions'', jstrs (sorted_set (offending names)))]\<rparr>) s"
        using v Some by (auto simp: validate_org_scoped_permission_names_def split: option.splits if_splits)
      then show ?thesis using Some t by blast
    qed simp
  qed (use v in simp)
qed

text \<open>
  Property. When \<open>create_role\<close> succeeds: exactly when neither a platform-wide role nor a role of the
  same organization has the name, every permission is in the registry, and an organization's
  role asks for no platform-wide permission; a refusal changes nothing but, in the last case,
  the ledger, which records the attempt.
\<close>

theorem create_role_refuses:
  "((\<exists>r. snd (create_role E now name names desc actor org s) = Inr r) \<longleftrightarrow>
      get_role_by_name s name None = None \<and> (org = None \<or> get_role_by_name s name org = None)
      \<and> list_all is_known_permission names
      \<and> (org = None \<or> set names \<inter> set GLOBAL_SCOPE_PERMISSIONS = {}))
   \<and> (case create_role E now name names desc actor org s of
        (s', Inr r) \<Rightarrow> True
      | (s', Inl e) \<Rightarrow> s' = s \<or> (org \<noteq> None \<and> (\<exists>a. a_type a = ''role_assignment_denied'' \<and> s' = log_event E now a s)))"
proof -
  obtain s1 e where v: "(case org of Some oid \<Rightarrow> validate_org_scoped_permission_names E now names oid actor name None s
      | None \<Rightarrow> (s, validate_permission_names names)) = (s1, e)" by force
  show ?thesis
  proof (cases "check_name_available s name org None")
    case None
    note taken = None [unfolded check_name_None]
    show ?thesis
    proof (cases e)
      case no_error: None
      have "\<exists>r. snd (create_role E now name names desc actor org s) = Inr r"
        using None no_error by (simp add: create_role_def v Let_def split_beta)
      then obtain s' r where "create_role E now name names desc actor org s = (s', Inr r)" by (metis prod.collapse)
      then show ?thesis using taken validation_refuses(1) [OF v] no_error by simp
    next
      case (Some x)
      then have "create_role E now name names desc actor org s = (s1, Inl x)"
        using None by (simp add: create_role_def v)
      then show ?thesis using validation_refuses [OF v] Some by simp
    qed
  next
    case (Some x)
    then have "\<not> (get_role_by_name s name None = None \<and> (org = None \<or> get_role_by_name s name org = None))"
      by (simp flip: check_name_None)
    then show ?thesis using Some by (auto simp: create_role_def)
  qed
qed

lemma resolve_for_org_props:
  "resolve_roles_for_org E now ns org False actor target s = (s', Inr rs) \<Longrightarrow>
   s' = s \<and> map r_name rs = ns \<and> (\<forall>r \<in> set rs. r \<in> set (list_roles_for_scope s org) \<and> offending (role_perms s r) = [])"
proof (induction ns arbitrary: s' rs)
  case (Cons n ns)
  then show ?case
    by (auto simp: get_role_in_scope_def list_roles_for_scope_def split: option.splits prod.splits sum.splits if_splits dest!: query_first_Some)
qed simp

text \<open>
  Property. An organization administrator cannot hand out platform-wide permissions. Whatever role
  names are resolved for an assignment inside an organization by a caller who is not a
  platform administrator, every resolved role is visible to that organization and their
  permissions contain no platform-wide one.
\<close>

theorem org_assignment_not_global:
  assumes "resolve_roles_for_org E now ns org False actor target s = (s', Inr rs)"
  shows "s' = s \<and> map r_name rs = ns \<and> set rs \<subseteq> set (list_roles_for_scope s org)
       \<and> set (permissions_for_roles s rs) \<inter> set GLOBAL_SCOPE_PERMISSIONS = {}"
  using resolve_for_org_props [OF assms] by (auto simp: permissions_for_roles_def offending_Nil)

theorem org_assignment_not_global_witness:
  "let rs = [hd (roles role_db)] in
   set rs \<subseteq> set (list_roles_for_scope role_db 9)
   \<and> set (permissions_for_roles role_db rs) \<inter> set GLOBAL_SCOPE_PERMISSIONS = {}"
proof -
  have "resolve_roles_for_org (sample_env Map.empty) 0 [''auditor''] 9 False None None role_db = (role_db, Inr [hd (roles role_db)])"
    by (simp add: get_role_in_scope_def role_db_def empty_db_def role_perms_def offending_def)
  from org_assignment_not_global [OF this] show ?thesis by (simp add: Let_def)
qed

text \<open>
  Property. Role names are not reserved in both directions: although no organization may take the
  name of an existing platform-wide role, a platform-wide role may be created under a name an
  organization already uses, and then that organization sees two roles of one name.
\<close>

theorem platform_role_can_shadow:
  "\<exists>E now name names s s' r.
     create_role E now name names None None None s = (s', Inr r)
   \<and> length (filter (\<lambda>x. r_name x = name) (list_roles_for_scope s' 9)) = 2"
proof -
  let ?res = "create_role (sample_env Map.empty) 0 ''auditor'' [] None None None role_db"
  have "\<exists>r. snd ?res = Inr r \<and> roles (fst ?res) = roles role_db @ [r] \<and> r_name r = ''auditor'' \<and> r_organization_id r = None"
    by (simp add: create_role_def check_name_available_def get_role_by_name_def role_db_def empty_db_def add_role_def Let_def)
  then obtain r where "?res = (fst ?res, Inr r)" "roles (fst ?res) = roles role_db @ [r]" "r_name r = ''auditor''"
    "r_organization_id r = None" by (metis prod.collapse)
  moreover from this have "length (filter (\<lambda>x. r_name x = ''auditor'') (list_roles_for_scope (fst ?res) 9)) = 2"
    by (simp add: list_roles_for_scope_def role_db_def)
  ultimately show ?thesis by blast
qed

end
