(* ===== verification/Org_Service.thy ===== *)
theory Org_Service
  imports Role_Service
begin

text \<open>
  \<open>app/services/org_service.py\<close>: organizations, their memberships and the roles a member
  holds inside one. \<open>datetime.utcnow()\<close> is read once per operation. A violated unique
  constraint is \<open>IntegrityError\<close> with the state unchanged, since the transaction is
  rolled back.

  \<open>org_step\<close> collects the operations of this module and of \<open>role_service\<close>;
  the invariants of both are shown for every state it reaches.
\<close>

definition ORG_ADMIN_PERMISSIONS :: "string list" where
  "ORG_ADMIN_PERMISSIONS =
     [''manage_org'', ''manage_teams'', ''manage_api_keys'', ''manage_billing'', ''manage_oauth_clients'', ''manage_sso'',
      ''workflow.read'', ''workflow.manage'', ''runs.read'', ''model.resolve_ownership'', ''model.read'']"

definition SCIENTIST_PERMISSIONS :: "string list" where
  "SCIENTIST_PERMISSIONS =
     [''workflow.execute'', ''dataset.read'', ''model.use'', ''model.read'', ''workspace.launch'', ''runs.read'']"

definition VIEWER_PERMISSIONS :: "string list" where
  "VIEWER_PERMISSIONS = [''dataset.read'', ''workflow.read'']"

subsection \<open>Queries\<close>

definition get_organization_by_slug :: "db \<Rightarrow> string \<Rightarrow> organization option" where
  "get_organization_by_slug s slug = query_first (\<lambda>x. o_slug x = slug) (organizations s)"

definition list_organizations_for_user :: "db \<Rightarrow> int \<Rightarrow> organization list" where
  "list_organizations_for_user s uid =
     concat (map (\<lambda>x. map (\<lambda>m. x) (filter (\<lambda>m. m_organization_id m = o_id x \<and> m_user_id m = uid \<and> m_status m = ''active'')
       (memberships s))) (organizations s))"

definition list_members :: "db \<Rightarrow> int \<Rightarrow> org_membership list" where
  "list_members s org = filter (\<lambda>m. m_organization_id m = org) (memberships s)"

definition get_membership :: "db \<Rightarrow> int \<Rightarrow> int \<Rightarrow> org_membership option" where
  "get_membership s org uid = query_first (\<lambda>m. m_organization_id m = org \<and> m_user_id m = uid) (memberships s)"

definition permissions_for_membership :: "db \<Rightarrow> org_membership \<Rightarrow> string list" where
  "permissions_for_membership s m = permissions_for_roles s (roles_of_membership s m)"

definition resolve_primary_membership :: "db \<Rightarrow> int \<Rightarrow> org_membership option" where
  "resolve_primary_membership s uid =
     (let ms = sort_key m_id (filter (\<lambda>m. m_user_id m = uid \<and> m_status m = ''active'') (memberships s))
      in case query_first (\<lambda>m. map_option o_slug (find_org s (m_organization_id m)) = Some ''default'') ms of
           Some m \<Rightarrow> Some m
         | None \<Rightarrow> (case ms of [] \<Rightarrow> None | m # _ \<Rightarrow> Some m))"

subsection \<open>Operations\<close>

text \<open>\<open>OrganizationMembership(...)\<close> with one role, added and flushed.\<close>

definition add_membership :: "int \<Rightarrow> int \<Rightarrow> string \<Rightarrow> int option \<Rightarrow> time \<Rightarrow> role \<Rightarrow> db \<Rightarrow> db \<times> org_membership" where
  "add_membership org uid status inviter now r s =
     (let m = \<lparr>m_id = next_id m_id (memberships s), m_organization_id = org, m_user_id = uid, m_status = status,
               m_invited_by_user_id = inviter, m_joined_at = now\<rparr>
      in (s\<lparr>memberships := memberships s @ [m], membership_roles := membership_roles s @ [(m_id m, r_id r)]\<rparr>, m))"

definition create_organization :: "time \<Rightarrow> string \<Rightarrow> string \<Rightarrow> user \<Rightarrow> db \<Rightarrow> exn + db \<times> organization" where
  "create_organization now name slug creator s =
     (if get_organization_by_slug s slug \<noteq> None then Inl (IntegrityError ''organizations.slug'')
      else let org = \<lparr>o_id = next_id o_id (organizations s), o_slug = slug, o_name = name, o_plan = ''beta'', o_status = ''active'',
                      o_created_at = now, o_created_by_user_id = Some (u_id creator), o_status_changed_at = None,
                      o_status_changed_reason = None, o_status_changed_by_user_id = None\<rparr>;
               (s1, admin_role) = get_or_create_role ''org_admin'' ORG_ADMIN_PERMISSIONS (s\<lparr>organizations := organizations s @ [org]\<rparr>);
               (s2, m) = add_membership (o_id org) (u_id creator) ''active'' None now admin_role s1
           in Inr (s2, org))"

definition ensure_org_admin_permissions :: "env \<Rightarrow> time \<Rightarrow> db \<Rightarrow> db \<times> exn option" where
  "ensure_org_admin_permissions E now s =
     (case get_role_by_name s ''org_admin'' None of
        None \<Rightarrow> (s, None)
      | Some r \<Rightarrow>
          let existing = role_perms s r
          in if set ORG_ADMIN_PERMISSIONS \<subseteq> set existing then (s, None)
             else case update_role_permissions E now r (sorted_set (existing @ ORG_ADMIN_PERMISSIONS)) None None s of
                    (s1, Inl e) \<Rightarrow> (s1, Some e) | (s1, Inr r') \<Rightarrow> (s1, None))"

definition ensure_default_org_role :: "env \<Rightarrow> time \<Rightarrow> string \<Rightarrow> string list \<Rightarrow> db \<Rightarrow> db \<times> exn option" where
  "ensure_default_org_role E now name perms s =
     (case get_role_by_name s name None of
        None \<Rightarrow> (case create_role E now name perms (Some (''Default '' @ name @ '' role'')) None None s of
                   (s1, Inl e) \<Rightarrow> (s1, Some e) | (s1, Inr r) \<Rightarrow> (s1, None))
      | Some r \<Rightarrow>
          let existing = role_perms s r
          in if set perms \<subseteq> set existing then (s, None)
             else case update_role_permissions E now r (sorted_set (existing @ perms)) None None s of
                    (s1, Inl e) \<Rightarrow> (s1, Some e) | (s1, Inr r') \<Rightarrow> (s1, None))"

definition ensure_default_org_roles :: "env \<Rightarrow> time \<Rightarrow> db \<Rightarrow> db \<times> exn option" where
  "ensure_default_org_roles E now s =
     (case ensure_default_org_role E now ''scientist'' SCIENTIST_PERMISSIONS s of
        (s1, Some e) \<Rightarrow> (s1, Some e)
      | (s1, None) \<Rightarrow> ensure_default_org_role E now ''viewer'' VIEWER_PERMISSIONS s1)"

definition update_organization ::
  "time \<Rightarrow> organization \<Rightarrow> string option \<Rightarrow> string option \<Rightarrow> string option \<Rightarrow> int option \<Rightarrow> db \<Rightarrow> exn + db \<times> organization" where
  "update_organization now org name status reason actor s =
     (let org1 = (case name of None \<Rightarrow> org | Some n \<Rightarrow> org\<lparr>o_name := n\<rparr>);
          result = (case status of
              None \<Rightarrow> Inr org1
            | Some st \<Rightarrow>
                if st = o_status org1 then Inr org1
                else if st \<notin> {''active'', ''suspended''}
                then Inl (ValueError ''Unknown status: {!r} (expected one of ['active', 'suspended'])'' [st])
                else Inr (org1\<lparr>o_status := st, o_status_changed_at := Some now, o_status_changed_reason := reason,
                               o_status_changed_by_user_id := actor\<rparr>))
      in case result of
           Inl e \<Rightarrow> Inl e
         | Inr org2 \<Rightarrow> Inr (s\<lparr>organizations := update_where (\<lambda>x. o_id x = o_id org) (\<lambda>x. org2) (organizations s)\<rparr>, org2))"

definition jit_provision_membership :: "env \<Rightarrow> time \<Rightarrow> int \<Rightarrow> int \<Rightarrow> db \<Rightarrow> db \<times> org_membership" where
  "jit_provision_membership E now org uid s =
     (case get_membership s org uid of
        Some m \<Rightarrow> (s, m)
      | None \<Rightarrow>
          let (s1, member_role) = get_or_create_role ''org_member'' [] s;
              (s2, m) = add_membership org uid ''active'' None now member_role s1
          in (log_event E now ((audit ''organization_membership_changed'')
                \<lparr>a_actor := Some uid, a_target := Some uid, a_org := Some org, a_rtype := Some ''organization_membership'',
                 a_rid := Some (show_int (m_id m)),
                 a_after := JObj [(''status'', JStr (m_status m)), (''roles'', jstrs [r_name member_role])],
                 a_meta := JObj [(''reason'', JStr ''sso_jit_provisioning'')]\<rparr>) s2, m))"

definition invite_member :: "env \<Rightarrow> time \<Rightarrow> organization \<Rightarrow> string \<Rightarrow> user \<Rightarrow> db \<Rightarrow> db \<times> org_membership option" where
  "invite_member E now org email invited_by s =
     (case find_user_by_email s email of
        None \<Rightarrow> (s, None)
      | Some invitee \<Rightarrow>
          (case get_membership s (o_id org) (u_id invitee) of
             Some m \<Rightarrow> (s, Some m)
           | None \<Rightarrow>
               let (s1, member_role) = get_or_create_role ''org_member'' [] s;
                   (s2, m) = add_membership (o_id org) (u_id invitee) ''invited'' (Some (u_id invited_by)) now member_role s1
               in (log_event E now ((audit ''organization_membership_changed'')
                     \<lparr>a_actor := Some (u_id invited_by), a_target := Some (u_id invitee), a_org := Some (o_id org),
                      a_rtype := Some ''organization_membership'', a_rid := Some (show_int (m_id m)),
                      a_after := JObj [(''status'', JStr (m_status m)), (''roles'', jstrs [r_name member_role])],
                      a_meta := JObj [(''reason'', JStr ''invited''), (''email'', JStr email)]\<rparr>) s2, Some m)))"

definition membership_event :: "string \<Rightarrow> org_membership \<Rightarrow> int option \<Rightarrow> json \<Rightarrow> json \<Rightarrow> audit_args" where
  "membership_event et m actor before after =
     (audit et)\<lparr>a_actor := actor, a_target := Some (m_user_id m), a_org := Some (m_organization_id m),
       a_rtype := Some ''organization_membership_roles'', a_rid := Some (show_int (m_id m)),
       a_before := before, a_after := after\<rparr>"

definition set_member_roles :: "env \<Rightarrow> time \<Rightarrow> org_membership \<Rightarrow> role list \<Rightarrow> int option \<Rightarrow> db \<Rightarrow> exn + db" where
  "set_member_roles E now m rs actor s =
     (let before = sorted_strs (map r_name (roles_of_membership s m));
          after = sorted_strs (map r_name rs);
          ids = map r_id rs
      in if \<not> distinct (filter (\<lambda>i. (m_id m, i) \<notin> set (membership_roles s)) ids)
         then Inl (IntegrityError ''membership_roles'')
         else let s1 = s\<lparr>membership_roles := assign_links (m_id m) ids (membership_roles s)\<rparr>
              in Inr (if before \<noteq> after
                      then log_event E now (membership_event ''role_assigned'' m actor
                             (JObj [(''roles'', jstrs before)]) (JObj [(''roles'', jstrs after)])) s1
                      else s1))"

definition add_member_role :: "env \<Rightarrow> time \<Rightarrow> org_membership \<Rightarrow> role \<Rightarrow> int option \<Rightarrow> db \<Rightarrow> db" where
  "add_member_role E now m r actor s =
     (if (m_id m, r_id r) \<in> set (membership_roles s) then s
      else log_event E now (membership_event ''role_assigned'' m actor JNull (JObj [(''role'', JStr (r_name r))]))
             (s\<lparr>membership_roles := membership_roles s @ [(m_id m, r_id r)]\<rparr>))"

definition remove_member_role :: "env \<Rightarrow> time \<Rightarrow> org_membership \<Rightarrow> role \<Rightarrow> int option \<Rightarrow> db \<Rightarrow> db" where
  "remove_member_role E now m r actor s =
     (if (m_id m, r_id r) \<in> set (membership_roles s)
      then log_event E now (membership_event ''role_removed'' m actor (JObj [(''role'', JStr (r_name r))]) JNull)
             (s\<lparr>membership_roles := delete_where (\<lambda>p. p = (m_id m, r_id r)) (membership_roles s)\<rparr>)
      else s)"

subsection \<open>Invariant\<close>

definition members_ok :: "db \<Rightarrow> bool" where
  "members_ok s \<longleftrightarrow> distinct (map m_id (memberships s)) \<and> distinct (map (\<lambda>m. (m_organization_id m, m_user_id m)) (memberships s))
     \<and> distinct (membership_roles s)
     \<and> (\<forall>m \<in> set (memberships s). m_organization_id m \<in> o_id ` set (organizations s))
     \<and> (\<forall>(i, j) \<in> set (membership_roles s). i \<in> m_id ` set (memberships s) \<and> j \<in> r_id ` set (roles s))
     \<and> distinct (map o_id (organizations s)) \<and> distinct (map o_slug (organizations s))"

definition org_inv :: "db \<Rightarrow> bool" where
  "org_inv s \<longleftrightarrow> roles_inv s \<and> members_ok s"

lemma members_ok_cong:
  assumes "memberships s' = memberships s" "membership_roles s' = membership_roles s" "organizations s' = organizations s"
    and "r_id ` set (roles s) \<subseteq> r_id ` set (roles s')"
  shows "members_ok s \<Longrightarrow> members_ok s'"
  using assms by (auto simp: members_ok_def)

lemma org_inv_log_event [simp]: "org_inv (log_event E now a s) = org_inv s"
  by (simp add: org_inv_def members_ok_def)

lemma org_inv_empty [simp]: "org_inv empty_db"
  using roles_inv_empty by (simp add: org_inv_def members_ok_def) (simp add: empty_db_def)

lemma org_inv_user_roles [simp]: "org_inv (s\<lparr>user_roles := L\<rparr>) = org_inv s"
  by (simp add: org_inv_def members_ok_def)

text \<open>The constant permission lists are registered and free of platform-wide names.\<close>

lemma builtin_known:
  "\<forall>n \<in> set ORG_ADMIN_PERMISSIONS. is_known_permission n" "\<forall>n \<in> set SCIENTIST_PERMISSIONS. is_known_permission n"
  "\<forall>n \<in> set VIEWER_PERMISSIONS. is_known_permission n"
  unfolding is_known_iff registered_names ORG_ADMIN_PERMISSIONS_def SCIENTIST_PERMISSIONS_def VIEWER_PERMISSIONS_def by simp_all

lemma get_or_create_role_spec:
  assumes "roles_inv s" "\<forall>n \<in> set names. is_known_permission n" and "get_or_create_role name names s = (s', r)"
  shows "roles_inv s'" "r \<in> set (roles s')" "set (roles s) \<subseteq> set (roles s')" "r_name r = name" "r_organization_id r = None"
    "memberships s' = memberships s" "membership_roles s' = membership_roles s" "organizations s' = organizations s"
    "users s' = users s" "audit_events s' = audit_events s"
proof -
  have pok: "perms_ok s" using assms(1) by (simp add: roles_inv_def)
  have inv: "roles_inv s'" using roles_inv_get_or_create_role [OF assms(1,2), of name] assms(3) by simp
  have "roles_inv s' \<and> r \<in> set (roles s') \<and> set (roles s) \<subseteq> set (roles s') \<and> r_name r = name \<and> r_organization_id r = None
    \<and> memberships s' = memberships s \<and> membership_roles s' = membership_roles s \<and> organizations s' = organizations s
    \<and> users s' = users s \<and> audit_events s' = audit_events s"
  proof (cases "get_role_by_name s name None")
    case None
    then have a: "add_role name names None None s = (s', r)" using assms(3) by (simp add: get_or_create_role_def)
    note sp = add_role_spec [OF a pok]
    obtain P RP where s': "s' = s\<lparr>roles := roles s @ [r], permissions := P, role_permissions := RP\<rparr>" using sp(10) by blast
    show ?thesis using inv sp(2,3) by (auto simp: s')
  next
    case (Some x)
    then have "s' = s" "r = x" using assms(3) by (simp_all add: get_or_create_role_def)
    then show ?thesis using assms(1) Some by (auto simp: get_role_by_name_def dest!: query_first_Some)
  qed
  then show "roles_inv s'" "r \<in> set (roles s')" "set (roles s) \<subseteq> set (roles s')" "r_name r = name" "r_organization_id r = None"
    "memberships s' = memberships s" "membership_roles s' = membership_roles s" "organizations s' = organizations s"
    "users s' = users s" "audit_events s' = audit_events s" by blast+
qed

lemma add_membership_ok:
  assumes "members_ok s" "get_membership s org uid = None" "r \<in> set (roles s)" "org \<in> o_id ` set (organizations s)"
  shows "members_ok (fst (add_membership org uid st by_id now r s))"
    "roles_inv (fst (add_membership org uid st by_id now r s)) = roles_inv s"
proof -
  let ?i = "next_id m_id (memberships s)"
  have i: "?i \<notin> m_id ` set (memberships s)" by (rule next_id_notin)
  then have "\<forall>j. (?i, j) \<notin> set (membership_roles s)" using assms(1) by (auto simp: members_ok_def)
  moreover have "(org, uid) \<notin> (\<lambda>m. (m_organization_id m, m_user_id m)) ` set (memberships s)"
    using assms(2) by (auto simp: get_membership_def)
  ultimately show "members_ok (fst (add_membership org uid st by_id now r s))"
    using assms(1,3,4) i by (auto simp: members_ok_def add_membership_def Let_def)
  show "roles_inv (fst (add_membership org uid st by_id now r s)) = roles_inv s"
    by (rule roles_inv_cong) (simp_all add: add_membership_def Let_def)
qed

lemma new_membership_inv:
  assumes inv: "org_inv s" and kn: "\<forall>n \<in> set names. is_known_permission n" and free: "get_membership s org uid = None"
    and org: "org \<in> o_id ` set (organizations s)"
  shows "org_inv (fst (add_membership org uid st by_id now (snd (get_or_create_role name names s)) (fst (get_or_create_role name names s))))"
proof -
  let ?s1 = "fst (get_or_create_role name names s)" and ?r = "snd (get_or_create_role name names s)"
  have ri: "roles_inv s" and mi: "members_ok s" using inv by (simp_all add: org_inv_def)
  note g = get_or_create_role_spec [OF ri kn surjective_pairing]
  have "members_ok ?s1" by (rule members_ok_cong [OF g(6-8) _ mi]) (use g(3) in auto)
  moreover have "get_membership ?s1 org uid = None" using free by (simp only: get_membership_def g(6))
  ultimately show ?thesis using add_membership_ok [of ?s1 org uid ?r] g(1,2,8) org by (simp add: org_inv_def)
qed

lemma update_org_inv: "org_inv s \<Longrightarrow> org \<in> set (organizations s) \<Longrightarrow> update_organization now org name st reason actor s = Inr (s', org') \<Longrightarrow> org_inv s'"
proof -
  assume inv: "org_inv s" and org: "org \<in> set (organizations s)" and u: "update_organization now org name st reason actor s = Inr (s', org')"
  have s': "s' = s\<lparr>organizations := update_where (\<lambda>x. o_id x = o_id org) (\<lambda>x. org') (organizations s)\<rparr>"
    and same: "o_id org' = o_id org" "o_slug org' = o_slug org"
    using u by (auto simp: update_organization_def Let_def split: option.splits sum.splits if_splits)
  have d: "distinct (map o_id (organizations s))" "distinct (map o_slug (organizations s))"
    using inv by (simp_all add: org_inv_def members_ok_def)
  have "map o_id (update_where (\<lambda>x. o_id x = o_id org) (\<lambda>x. org') (organizations s)) = map o_id (organizations s)"
    by (rule map_update_where_same) (simp add: same)
  moreover have "map o_slug (update_where (\<lambda>x. o_id x = o_id org) (\<lambda>x. org') (organizations s)) = map o_slug (organizations s)"
    using distinct_keyD [OF d(1) _ org] same by (auto simp: update_where_def)
  ultimately have "members_ok s'" using inv by (simp add: s' org_inv_def members_ok_def flip: set_map)
  moreover have "roles_inv s'" using inv roles_inv_cong [of s' s] by (simp add: s' org_inv_def)
  ultimately show ?thesis by (simp add: org_inv_def)
qed

subsection \<open>Reachable states\<close>

inductive org_step :: "env \<Rightarrow> db \<Rightarrow> db \<Rightarrow> bool" for E :: env where
  create_role: "org_step E s (fst (create_role E now name names desc actor org s))"
| update_role_permissions: "r \<in> set (roles s) \<Longrightarrow> org_step E s (fst (update_role_permissions E now r names desc actor s))"
| delete_role: "delete_role r s = Inr s' \<Longrightarrow> org_step E s s'"
| assign_default_role: "org_step E s (assign_default_role u s)"
| add_user_role: "org_step E s (add_user_role E now u r actor s)"
| remove_user_role: "org_step E s (remove_user_role E now u r actor s)"
| set_user_roles: "org_step E s (set_user_roles u rs s)"
| resolve_roles_for_org: "org_step E s (fst (resolve_roles_for_org E now ns org admin actor target s))"
| create_organization: "create_organization now name slug creator s = Inr (s', org') \<Longrightarrow> org_step E s s'"
| ensure_org_admin_permissions: "org_step E s (fst (ensure_org_admin_permissions E now s))"
| ensure_default_org_roles: "org_step E s (fst (ensure_default_org_roles E now s))"
| update_organization:
    "org' \<in> set (organizations s) \<Longrightarrow> update_organization now org' nm st reason actor s = Inr (s', org'') \<Longrightarrow> org_step E s s'"
| jit_provision_membership: "find_org s org = Some org' \<Longrightarrow> org_step E s (fst (jit_provision_membership E now org uid s))"
| invite_member: "org' \<in> set (organizations s) \<Longrightarrow> org_step E s (fst (invite_member E now org' email u s))"
| set_member_roles:
    "m \<in> set (memberships s) \<Longrightarrow> set rs \<subseteq> set (roles s) \<Longrightarrow> set_member_roles E now m rs actor s = Inr s' \<Longrightarrow> org_step E s s'"
| add_member_role: "m \<in> set (memberships s) \<Longrightarrow> r \<in> set (roles s) \<Longrightarrow> org_step E s (add_member_role E now m r actor s)"
| remove_member_role: "org_step E s (remove_member_role E now m r actor s)"

abbreviation org_reachable :: "env \<Rightarrow> db \<Rightarrow> db \<Rightarrow> bool" where
  "org_reachable E \<equiv> (org_step E)\<^sup>*\<^sup>*"

lemma create_role_frame:
  "memberships (fst (create_role E now name names desc actor org s)) = memberships s
   \<and> membership_roles (fst (create_role E now name names desc actor org s)) = membership_roles s
   \<and> organizations (fst (create_role E now name names desc actor org s)) = organizations s
   \<and> r_id ` set (roles s) \<subseteq> r_id ` set (roles (fst (create_role E now name names desc actor org s)))"
proof -
  have goc: "memberships t = memberships s \<and> membership_roles t = membership_roles s \<and> organizations t = organizations s \<and> roles t = roles s"
    if "get_or_create_permissions ns s = (t, ps)" for ns t ps and s :: db
    using that by (induction ns arbitrary: s t ps) (fastforce simp: Let_def split: prod.splits option.splits)+
  obtain s1 e where v: "(case org of Some oid \<Rightarrow> validate_org_scoped_permission_names E now names oid actor name None s
      | None \<Rightarrow> (s, validate_permission_names names)) = (s1, e)" by force
  obtain t ps where g: "get_or_create_permissions names s1 = (t, ps)" by force
  from validation_outcome(2) [OF v] show ?thesis
    by (auto simp: create_role_def v add_role_def g goc [OF g] Let_def split: option.splits)
qed

lemma update_role_frame:
  "memberships (fst (update_role_permissions E now r names desc actor s)) = memberships s
   \<and> membership_roles (fst (update_role_permissions E now r names desc actor s)) = membership_roles s
   \<and> organizations (fst (update_role_permissions E now r names desc actor s)) = organizations s
   \<and> map r_id (roles (fst (update_role_permissions E now r names desc actor s))) = map r_id (roles s)"
proof -
  have goc: "memberships t = memberships s \<and> membership_roles t = membership_roles s \<and> organizations t = organizations s \<and> roles t = roles s"
    if "get_or_create_permissions ns s = (t, ps)" for ns t ps and s :: db
    using that by (induction ns arbitrary: s t ps) (fastforce simp: Let_def split: prod.splits option.splits)+
  obtain s1 e where v: "(case r_organization_id r of
        Some oid \<Rightarrow> validate_org_scoped_permission_names E now names oid actor (r_name r) (Some (r_id r)) s
      | None \<Rightarrow> (s, validate_permission_names names)) = (s1, e)" by force
  obtain t ps where g: "get_or_create_permissions names s1 = (t, ps)" by force
  have m: "map r_id (update_where (\<lambda>x. r_id x = i) (\<lambda>x. case desc of None \<Rightarrow> x | Some d \<Rightarrow> x\<lparr>r_description := Some d\<rparr>) rs) = map r_id rs" for i rs
    by (rule map_update_where_same) (simp split: option.splits)
  from validation_outcome(2) [OF v] show ?thesis
    by (auto simp: update_role_permissions_def v set_role_permissions_def g goc [OF g] Let_def m split: option.splits)
qed

lemma org_inv_create_role: "org_inv s \<Longrightarrow> org_inv (fst (create_role E now name names desc actor org s))"
  using roles_inv_create_role create_role_frame [of E now name names desc actor org s]
    members_ok_cong [of "fst (create_role E now name names desc actor org s)" s] by (simp add: org_inv_def)

lemma org_inv_update_role: "org_inv s \<Longrightarrow> r \<in> set (roles s) \<Longrightarrow> org_inv (fst (update_role_permissions E now r names desc actor s))"
proof -
  assume inv: "org_inv s" and r: "r \<in> set (roles s)"
  have "r_id ` set (roles (fst (update_role_permissions E now r names desc actor s))) = r_id ` set (roles s)"
    using update_role_frame by (metis set_map)
  then show ?thesis
    using inv roles_inv_update_role_permissions [OF _ r] update_role_frame [of E now r names desc actor s]
      members_ok_cong [of "fst (update_role_permissions E now r names desc actor s)" s] by (simp add: org_inv_def)
qed

lemma get_role_by_name_in: "get_role_by_name s n org = Some r \<Longrightarrow> r \<in> set (roles s)"
  by (auto simp: get_role_by_name_def dest: query_first_Some)

lemma org_inv_ensure_default: "org_inv s \<Longrightarrow> org_inv (fst (ensure_default_org_role E now name perms s))"
  using org_inv_create_role [of s E now name perms "Some (''Default '' @ name @ '' role'')" None None]
    org_inv_update_role [of s _ E now _ None None]
  by (auto simp: ensure_default_org_role_def Let_def split: option.splits prod.splits sum.splits dest: get_role_by_name_in)
     (metis fst_conv get_role_by_name_in)+

lemma org_inv_create_organization:
  assumes inv: "org_inv s" and c: "create_organization now name slug creator s = Inr (s', org')"
  shows "org_inv s'"
proof -
  let ?org = "\<lparr>o_id = next_id o_id (organizations s), o_slug = slug, o_name = name, o_plan = ''beta'', o_status = ''active'',
                      o_created_at = now, o_created_by_user_id = Some (u_id creator), o_status_changed_at = None,
                      o_status_changed_reason = None, o_status_changed_by_user_id = None\<rparr>"
  let ?s0 = "s\<lparr>organizations := organizations s @ [?org]\<rparr>"
  let ?g = "get_or_create_role ''org_admin'' ORG_ADMIN_PERMISSIONS ?s0"
  have slug: "get_organization_by_slug s slug = None" using c by (auto simp: create_organization_def split: if_splits)
  have s': "s' = fst (add_membership (o_id ?org) (u_id creator) ''active'' None now (snd ?g) (fst ?g))"
    using c slug by (auto simp: create_organization_def Let_def split_beta)
  have "slug \<notin> o_slug ` set (organizations s)" using slug by (auto simp: get_organization_by_slug_def)
  then have "org_inv ?s0"
    using inv next_id_notin [of o_id "organizations s"] roles_inv_cong [of ?s0 s] by (auto simp: org_inv_def members_ok_def)
  moreover have "get_membership ?s0 (o_id ?org) (u_id creator) = None"
  proof -
    have "\<forall>m \<in> set (memberships s). m_organization_id m \<noteq> next_id o_id (organizations s)"
      using inv next_id_notin [of o_id "organizations s"] unfolding org_inv_def members_ok_def by metis
    then show ?thesis by (simp add: get_membership_def)
  qed
  ultimately show ?thesis
    unfolding s' by (intro new_membership_inv builtin_known) simp_all
qed

lemma org_inv_jit: "org_inv s \<Longrightarrow> org \<in> o_id ` set (organizations s) \<Longrightarrow> org_inv (fst (jit_provision_membership E now org uid s))"
  using new_membership_inv [of s "[]" org uid "''active''" None now "''org_member''"]
  by (simp add: jit_provision_membership_def Let_def split_beta split: option.splits)

lemma org_inv_invite: "org_inv s \<Longrightarrow> org \<in> set (organizations s) \<Longrightarrow> org_inv (fst (invite_member E now org email u s))"
proof -
  assume inv: "org_inv s" and org: "org \<in> set (organizations s)"
  have "get_membership s (o_id org) uid = None \<Longrightarrow>
     org_inv (fst (add_membership (o_id org) uid ''invited'' (Some (u_id u)) now (snd (get_or_create_role ''org_member'' [] s))
       (fst (get_or_create_role ''org_member'' [] s))))" for uid
    by (rule new_membership_inv [OF inv]) (use org in auto)
  then show ?thesis using inv by (simp add: invite_member_def Let_def split_beta split: option.splits)
qed

lemma roles_inv_membership_roles [simp]: "roles_inv (s\<lparr>membership_roles := L\<rparr>) = roles_inv s"
  by (rule roles_inv_cong) simp_all

lemma org_inv_membership_roles:
  assumes "org_inv s" "distinct L" "\<forall>(i, j) \<in> set L. i \<in> m_id ` set (memberships s) \<and> j \<in> r_id ` set (roles s)"
  shows "org_inv (s\<lparr>membership_roles := L\<rparr>)"
  using assms roles_inv_cong [of "s\<lparr>membership_roles := L\<rparr>" s] by (simp add: org_inv_def members_ok_def)

lemma org_inv_set_member_roles:
  assumes inv: "org_inv s" and m: "m \<in> set (memberships s)" "set rs \<subseteq> set (roles s)" and ok: "set_member_roles E now m rs actor s = Inr s'"
  shows "org_inv s'"
proof -
  let ?L = "assign_links (m_id m) (map r_id rs) (membership_roles s)"
  have d: "distinct (membership_roles s)"
    and refs: "\<forall>(i, j) \<in> set (membership_roles s). i \<in> m_id ` set (memberships s) \<and> j \<in> r_id ` set (roles s)"
    using inv by (simp_all add: org_inv_def members_ok_def)
  have nd: "distinct (filter (\<lambda>i. (m_id m, i) \<notin> set (membership_roles s)) (map r_id rs))"
    and s': "\<exists>a. s' = s\<lparr>membership_roles := ?L\<rparr> \<or> s' = log_event E now a (s\<lparr>membership_roles := ?L\<rparr>)"
    using ok by (auto simp: set_member_roles_def Let_def split: if_splits)
  have "org_inv (s\<lparr>membership_roles := ?L\<rparr>)"
  proof (rule org_inv_membership_roles [OF inv distinct_assign_links [OF d nd]], clarify)
    fix i j assume "(i, j) \<in> set ?L"
    then show "i \<in> m_id ` set (memberships s) \<and> j \<in> r_id ` set (roles s)"
      using refs m by (auto simp: set_assign_links split: if_splits)
  qed
  then show ?thesis using s' by auto
qed

lemma org_inv_member_role:
  assumes "org_inv s"
  shows "m \<in> set (memberships s) \<Longrightarrow> r \<in> set (roles s) \<Longrightarrow> org_inv (add_member_role E now m r actor s)"
    and "org_inv (remove_member_role E now m r actor s)"
  using assms by (auto simp: add_member_role_def remove_member_role_def delete_where_def org_inv_def members_ok_def
      intro!: org_inv_membership_roles)

lemma org_inv_delete_role: "org_inv s \<Longrightarrow> delete_role r s = Inr s' \<Longrightarrow> org_inv s'"
  using roles_inv_delete_role [of s r s']
  by (fastforce simp: org_inv_def members_ok_def delete_role_def query_exists_def split: if_splits)

lemma org_inv_step: "org_step E s s' \<Longrightarrow> org_inv s \<Longrightarrow> org_inv s'"
proof (induction rule: org_step.induct)
  case (assign_default_role s u)
  then have "org_inv (fst (get_or_create_role ''user'' [] s))"
    using get_or_create_role_spec [OF _ _ surjective_pairing, of s "[]" "''user''"]
      members_ok_cong [of "fst (get_or_create_role ''user'' [] s)" s] by (auto simp: org_inv_def)
  then show ?case by (simp add: assign_default_role_def Let_def split_beta)
next
  case (resolve_roles_for_org s now ns org admin actor target)
  then show ?case using resolve_for_org_state [of E now ns org admin actor target s] by auto
next
  case (ensure_org_admin_permissions s now)
  then show ?case
    using org_inv_update_role [of s _ E now _ None None] get_role_by_name_in [of s "''org_admin''" None]
    by (auto simp: ensure_org_admin_permissions_def Let_def split: option.splits prod.splits sum.splits) (metis fst_conv)+
next
  case (ensure_default_org_roles s now)
  then show ?case
    using org_inv_ensure_default [of s E now "''scientist''" SCIENTIST_PERMISSIONS]
      org_inv_ensure_default [of "fst (ensure_default_org_role E now ''scientist'' SCIENTIST_PERMISSIONS s)" E now "''viewer''" VIEWER_PERMISSIONS]
    by (auto simp: ensure_default_org_roles_def split: prod.splits option.splits)
next
  case (jit_provision_membership s org org' now uid)
  then show ?case by (auto intro!: org_inv_jit simp: find_org_def dest!: query_first_Some)
next
  case (add_user_role s now u r actor)
  then show ?case by (simp add: add_user_role_def)
next
  case (remove_user_role s now u r actor)
  then show ?case by (simp add: remove_user_role_def)
next
  case (set_user_roles s u rs)
  then show ?case by (simp add: set_user_roles_def)
next
  case (set_member_roles m s rs now actor s')
  then show ?case by (metis org_inv_set_member_roles)
next
  case (update_organization org' s now nm st reason actor s' org'')
  then show ?case by (metis update_org_inv)
next
  case (create_organization now name slug creator s s' org')
  then show ?case by (metis org_inv_create_organization)
qed (simp_all add: org_inv_create_role org_inv_update_role org_inv_invite org_inv_member_role org_inv_delete_role)

interpretation org: transition_invariant "org_step E" org_inv
  by unfold_locales (rule org_inv_step)

subsection \<open>Properties\<close>

text \<open>
  Property. Privilege containment. In every state the role and organization operations can reach
  from an empty database, in any order and with any arguments: no organization-scoped role
  holds a platform-wide permission, every permission row is in the registry (so the start-up
  check \<open>assert_no_unregistered_permissions\<close> passes), and a user has at most one membership
  per organization.
\<close>

theorem reachable_roles_contained:
  assumes "org_reachable E empty_db s"
  shows "(\<forall>r \<in> set (roles s). r_organization_id r \<noteq> None \<longrightarrow> set (role_perms s r) \<inter> set GLOBAL_SCOPE_PERMISSIONS = {})
    \<and> assert_no_unregistered_permissions s = None
    \<and> (\<forall>m \<in> set (memberships s). get_membership s (m_organization_id m) (m_user_id m) = Some m)"
proof -
  have inv: "roles_inv s" "members_ok s" using org.reachable [OF assms org_inv_empty] by (simp_all add: org_inv_def)
  have "get_membership s (m_organization_id m) (m_user_id m) = Some m" if m: "m \<in> set (memberships s)" for m
    using inv(2) query_first_unique [of "\<lambda>m. (m_organization_id m, m_user_id m)" "memberships s" m, OF _ m refl]
    by (simp add: members_ok_def get_membership_def)
  then show ?thesis
    using inv(1) by (auto simp: roles_inv_def org_roles_ok_def registered_ok_def assert_no_unregistered_permissions_def filter_empty_conv)
qed

theorem reachable_roles_contained_witness:
  "assert_no_unregistered_permissions (fst (create_role (sample_env Map.empty) 0 ''qa'' [''manage_org''] None None (Some 3) empty_db)) = None"
proof -
  have "org_reachable (sample_env Map.empty) empty_db
      (fst (create_role (sample_env Map.empty) 0 ''qa'' [''manage_org''] None None (Some 3) empty_db))"
    by (intro r_into_rtranclp org_step.create_role)
  from reachable_roles_contained [OF this] show ?thesis by blast
qed

lemma roles_of_membership_single:
  assumes "distinct (map r_id (roles s))" "r \<in> set (roles s)"
    and "\<And>j. (m_id m, j) \<in> set (membership_roles s) \<longleftrightarrow> j = r_id r"
  shows "roles_of_membership s m = [r]"
  using assms(3) filter_key_unique [OF assms(1,2)] by (simp add: roles_of_membership_def)

text \<open>
  Property. Founding an organization: unless the slug is taken, the creator ends up with an active
  membership of the new organization that carries the platform-wide \<open>org_admin\<close> role alone,
  every earlier membership and its roles are as before, and if no such role existed it is
  created with exactly \<open>ORG_ADMIN_PERMISSIONS\<close>.
\<close>

theorem create_organization_admin:
  assumes inv: "org_inv s" and c: "create_organization now name slug creator s = Inr (s', org)"
  shows "\<exists>m r. get_membership s' (o_id org) (u_id creator) = Some m \<and> m_status m = ''active''
      \<and> roles_of_membership s' m = [r] \<and> r_name r = ''org_admin'' \<and> r_organization_id r = None
      \<and> memberships s' = memberships s @ [m] \<and> membership_roles s' = membership_roles s @ [(m_id m, r_id r)]
      \<and> get_organization_by_slug s slug = None \<and> organizations s' = organizations s @ [org] \<and> o_slug org = slug
      \<and> (if get_role_by_name s ''org_admin'' None = None
         then set (permissions_for_membership s' m) = set ORG_ADMIN_PERMISSIONS else roles s' = roles s)"
proof -
  have inv': "org_inv s'" by (rule org_inv_create_organization [OF inv c])
  define org' where "org' = \<lparr>o_id = next_id o_id (organizations s), o_slug = slug, o_name = name, o_plan = ''beta'', o_status = ''active'',
                      o_created_at = now, o_created_by_user_id = Some (u_id creator), o_status_changed_at = None,
                      o_status_changed_reason = None, o_status_changed_by_user_id = None\<rparr>"
  let ?s0 = "s\<lparr>organizations := organizations s @ [org']\<rparr>"
  obtain s1 r where g: "get_or_create_role ''org_admin'' ORG_ADMIN_PERMISSIONS ?s0 = (s1, r)" by force
  have slug: "get_organization_by_slug s slug = None" using c by (auto simp: create_organization_def split: if_splits)
  have org: "org = org'" and s': "s' = fst (add_membership (o_id org') (u_id creator) ''active'' None now r s1)"
    using c slug g by (auto simp: create_organization_def Let_def split_beta org'_def)
  have ri: "roles_inv ?s0" "perms_ok ?s0" using inv roles_inv_cong [of ?s0 s] by (auto simp: org_inv_def roles_inv_def)
  note sp = get_or_create_role_spec [OF ri(1) builtin_known(1) g]
  define m where "m = \<lparr>m_id = next_id m_id (memberships s), m_organization_id = o_id org', m_user_id = u_id creator, m_status = ''active'',
               m_invited_by_user_id = None, m_joined_at = now\<rparr>"
  have s'_eq: "s' = s1\<lparr>memberships := memberships s @ [m], membership_roles := membership_roles s @ [(m_id m, r_id r)]\<rparr>"
    using sp(6,7) by (simp add: s' add_membership_def Let_def m_def)
  have mem: "memberships s' = memberships s @ [m]" "membership_roles s' = membership_roles s @ [(m_id m, r_id r)]" "roles s' = roles s1"
    by (simp_all add: s'_eq)
  have fresh: "(m_id m, j) \<notin> set (membership_roles s)" for j
    using inv next_id_notin [of m_id "memberships s"] by (auto simp: org_inv_def members_ok_def m_def)
  have rom: "roles_of_membership s' m = [r]"
    by (rule roles_of_membership_single) (use inv' sp(2) mem fresh in \<open>auto simp: org_inv_def roles_inv_def perms_ok_def\<close>)
  have "get_membership s' (m_organization_id m) (m_user_id m) = Some m"
    using inv' query_first_unique [of "\<lambda>m. (m_organization_id m, m_user_id m)" "memberships s'" m, OF _ _ refl] mem(1)
    by (simp add: org_inv_def members_ok_def get_membership_def)
  then have gm: "get_membership s' (o_id org) (u_id creator) = Some m" by (simp add: m_def org)
  have perms: "if get_role_by_name s ''org_admin'' None = None
      then set (permissions_for_membership s' m) = set ORG_ADMIN_PERMISSIONS else roles s' = roles s"
  proof (cases "get_role_by_name s ''org_admin'' None")
    case None
    then have "get_role_by_name ?s0 ''org_admin'' None = None" by (simp add: get_role_by_name_def)
    then have a: "add_role ''org_admin'' ORG_ADMIN_PERMISSIONS None None ?s0 = (s1, r)"
      using g by (simp add: get_or_create_role_def)
    have "role_perms s' r = role_perms s1 r" by (simp add: role_perms_def s'_eq)
    then show ?thesis using None add_role_spec(5) [OF a ri(2)]
      by (simp add: permissions_for_membership_def permissions_for_roles_def rom)
  next
    case (Some x)
    then have "roles s1 = roles s" using g by (auto simp: get_or_create_role_def get_role_by_name_def)
    then show ?thesis using Some mem(3) by simp
  qed
  have st: "m_status m = ''active''" and orgs: "organizations s' = organizations s @ [org]" "o_slug org = slug"
    using sp(8) by (simp_all add: m_def s'_eq org) (simp add: org'_def)
  show ?thesis
    by (rule exI [of _ m], rule exI [of _ r]) (intro conjI gm st rom sp(4,5) mem(1,2) slug orgs perms)
qed

definition sample_user :: "int \<Rightarrow> string \<Rightarrow> user" where
  "sample_user i email = \<lparr>u_id = i, u_email = email, u_hashed_password = Some ''pw'', u_status = ''active'', u_preferred_timezone = None,
     u_created_at = None, u_status_changed_at = None, u_status_changed_reason = None, u_status_changed_by_user_id = None,
     u_last_login_at = None, u_authentication_method = None, u_mfa_enabled = False, u_mfa_status = ''disabled'',
     u_mfa_primary_method = None, u_mfa_enabled_at = None, u_mfa_last_verified_at = None\<rparr>"

theorem create_organization_admin_witness:
  "\<exists>s' org m. create_organization 0 ''Lab'' ''lab'' (sample_user 1 ''a'') empty_db = Inr (s', org)
     \<and> get_membership s' (o_id org) 1 = Some m \<and> set (permissions_for_membership s' m) = set ORG_ADMIN_PERMISSIONS"
proof -
  have "\<exists>p. create_organization 0 ''Lab'' ''lab'' (sample_user 1 ''a'') empty_db = Inr p"
    by (simp add: create_organization_def get_organization_by_slug_def empty_db_def Let_def split_beta)
  then obtain s' org where c: "create_organization 0 ''Lab'' ''lab'' (sample_user 1 ''a'') empty_db = Inr (s', org)" by force
  from create_organization_admin [OF org_inv_empty c] have
    "\<exists>m. get_membership s' (o_id org) 1 = Some m \<and> set (permissions_for_membership s' m) = set ORG_ADMIN_PERMISSIONS"
    by (auto simp: sample_user_def get_role_by_name_def empty_db_def split: if_splits)
  with c show ?thesis by blast
qed

text \<open>
  Property. Just-in-time provisioning is idempotent: after it the user is a member, provisioning
  again changes nothing, and a membership that already existed (whatever its status and
  roles) is returned as it is.
\<close>

theorem jit_provision_idempotent:
  "(let (s', m) = jit_provision_membership E now org uid s in
      m_organization_id m = org \<and> m_user_id m = uid \<and> jit_provision_membership E' now' org uid s' = (s', m))
   \<and> (case get_membership s org uid of None \<Rightarrow> True | Some m0 \<Rightarrow> jit_provision_membership E now org uid s = (s, m0))"
proof (cases "get_membership s org uid")
  case None
  let ?g = "get_or_create_role ''org_member'' [] s"
  have fr: "memberships (fst ?g) = memberships s"
    by (auto simp: get_or_create_role_def add_role_def Let_def split: option.splits)
  have none: "query_first (\<lambda>m. m_organization_id m = org \<and> m_user_id m = uid) (memberships s) = None"
    using None unfolding get_membership_def .
  show ?thesis using None none
    by (simp add: jit_provision_membership_def Let_def split_beta add_membership_def fr)
       (simp add: get_membership_def fr query_first_append del: query_first_None)
next
  case (Some m)
  then have "m_organization_id m = org" "m_user_id m = uid"
    by (auto simp: get_membership_def dest!: query_first_Some)
  then show ?thesis using Some by (simp add: jit_provision_membership_def)
qed

text \<open>
  Property. The membership a login is bound to: \<open>resolve_primary_membership\<close> returns a membership
  exactly when the user has an active one, returns only active memberships of that user, and
  prefers one in the organization with slug \<open>default\<close>.
\<close>

theorem primary_membership_spec:
  "(case resolve_primary_membership s uid of
      None \<Rightarrow> filter (\<lambda>m. m_user_id m = uid \<and> m_status m = ''active'') (memberships s) = []
    | Some m \<Rightarrow> m \<in> set (memberships s) \<and> m_user_id m = uid \<and> m_status m = ''active''
        \<and> (map_option o_slug (find_org s (m_organization_id m)) = Some ''default''
           \<or> filter (\<lambda>x. m_user_id x = uid \<and> m_status x = ''active''
                 \<and> map_option o_slug (find_org s (m_organization_id x)) = Some ''default'') (memberships s) = []))"
proof -
  let ?P = "\<lambda>m. m_user_id m = uid \<and> m_status m = ''active''"
  let ?D = "\<lambda>m. map_option o_slug (find_org s (m_organization_id m)) = Some ''default''"
  define ms where "ms = sort_key m_id (filter ?P (memberships s))"
  have ms: "set ms = {m \<in> set (memberships s). ?P m}" by (auto simp: ms_def)
  have r: "resolve_primary_membership s uid = (case query_first ?D ms of Some m \<Rightarrow> Some m | None \<Rightarrow> (case ms of [] \<Rightarrow> None | m # _ \<Rightarrow> Some m))"
    unfolding resolve_primary_membership_def Let_def ms_def by (rule refl)
  show ?thesis
  proof (cases "query_first ?D ms")
    case None
    then have nd: "\<forall>m \<in> set ms. \<not> ?D m" unfolding query_first_None .
    show ?thesis
    proof (cases ms)
      case Nil
      then show ?thesis using r None ms by (simp add: filter_empty_conv)
    next
      case (Cons m rest)
      have "resolve_primary_membership s uid = Some m" unfolding r None by (simp add: Cons)
      moreover have "m \<in> set (memberships s) \<and> ?P m" using ms Cons by auto
      ultimately show ?thesis using ms nd by (simp add: filter_empty_conv) blast
    qed
  next
    case (Some m)
    then show ?thesis using r ms query_first_Some [OF Some] by simp
  qed
qed

end
