(* ===== verification/Team_Service.thy ===== *)
theory Team_Service
  imports Org_Service
begin

text \<open>
  \<open>app/services/team_service.py\<close>: teams, their members with a team role, and the team
  claim of a token. A \<open>TeamMember\<close> object stands for its row, found by its primary key;
  \<open>team.members = ...\<close> inserts rows with the column defaults of \<open>team_memberships\<close>.

  The theory shows that a team that has an administrator keeps one under every operation
  that goes through the last-administrator guard, that the bulk replacement
  \<open>set_team_members\<close> does not go through it, that team members always belong to the
  team's organization when they join, and what a team claim is worth.
\<close>

definition TEAM_ROLES :: "string list" where
  "TEAM_ROLES = [''admin'', ''member'', ''viewer'']"

subsection \<open>Teams\<close>

definition create_team :: "time \<Rightarrow> int \<Rightarrow> string \<Rightarrow> string option \<Rightarrow> user option \<Rightarrow> db \<Rightarrow> exn + db \<times> team" where
  "create_team now org name desc created_by s =
     (if query_exists (\<lambda>t. t_organization_id t = org \<and> t_name t = name) (teams s)
      then Inl (IntegrityError ''uq_teams_org_name'')
      else let t = \<lparr>t_id = next_id t_id (teams s), t_organization_id = org, t_name = name, t_description = desc,
                    t_created_at = now, t_created_by_user_id = map_option u_id created_by\<rparr>
           in Inr (s\<lparr>teams := teams s @ [t]\<rparr>, t))"

definition update_team :: "team \<Rightarrow> string option \<Rightarrow> string option \<Rightarrow> db \<Rightarrow> exn + db \<times> team" where
  "update_team t name desc s =
     (let t1 = (case name of None \<Rightarrow> t | Some n \<Rightarrow> t\<lparr>t_name := n\<rparr>);
          t2 = (case desc of None \<Rightarrow> t1 | Some d \<Rightarrow> t1\<lparr>t_description := Some d\<rparr>)
      in if query_exists (\<lambda>x. t_id x \<noteq> t_id t \<and> t_organization_id x = t_organization_id t2 \<and> t_name x = t_name t2) (teams s)
         then Inl (IntegrityError ''uq_teams_org_name'')
         else Inr (s\<lparr>teams := update_where (\<lambda>x. t_id x = t_id t) (\<lambda>x. t2) (teams s)\<rparr>, t2))"

definition list_teams :: "db \<Rightarrow> int \<Rightarrow> team list" where
  "list_teams s org = filter (\<lambda>t. t_organization_id t = org) (teams s)"

definition get_team :: "db \<Rightarrow> int \<Rightarrow> int \<Rightarrow> team option" where
  "get_team s org tid = query_first (\<lambda>t. t_id t = tid \<and> t_organization_id t = org) (teams s)"

definition delete_team :: "team \<Rightarrow> db \<Rightarrow> db" where
  "delete_team t s = s\<lparr>teams := delete_where (\<lambda>x. t_id x = t_id t) (teams s),
                       team_members := delete_where (\<lambda>m. tm_team_id m = t_id t) (team_members s)\<rparr>"

definition set_team_members :: "time \<Rightarrow> team \<Rightarrow> int \<Rightarrow> int list \<Rightarrow> db \<Rightarrow> exn + db" where
  "set_team_members now t org user_ids s =
     (let valid = remdups (map m_user_id (filter (\<lambda>m. m_organization_id m = org \<and> m_user_id m \<in> set user_ids) (memberships s)));
          invalid = sort (remdups (filter (\<lambda>u. u \<notin> set valid) user_ids))
      in if invalid \<noteq> [] then Inl (ValueError ''Users not members of this organization: {}'' (map show_int invalid))
         else let new = map u_id (filter (\<lambda>u. u_id u \<in> set valid) (users s));
                  kept = delete_where (\<lambda>m. tm_team_id m = t_id t \<and> tm_user_id m \<notin> set new) (team_members s);
                  old = map tm_user_id (filter (\<lambda>m. tm_team_id m = t_id t) (team_members s));
                  added = map (\<lambda>u. \<lparr>tm_team_id = t_id t, tm_user_id = u, tm_role = ''member'',
                                    tm_invited_by_user_id = None, tm_joined_at = Some now\<rparr>)
                              (filter (\<lambda>u. u \<notin> set old) new)
              in Inr (s\<lparr>team_members := kept @ added\<rparr>))"

subsection \<open>Members\<close>

definition list_team_members :: "db \<Rightarrow> int \<Rightarrow> team_member list" where
  "list_team_members s tid =
     sort_key tm_role (sort_key tm_user_id (filter (\<lambda>m. tm_team_id m = tid) (team_members s)))"

definition get_team_member :: "db \<Rightarrow> int \<Rightarrow> int \<Rightarrow> team_member option" where
  "get_team_member s tid uid = query_first (\<lambda>m. tm_team_id m = tid \<and> tm_user_id m = uid) (team_members s)"

definition admin_count :: "db \<Rightarrow> int \<Rightarrow> int" where
  "admin_count s tid = query_count (\<lambda>m. tm_team_id m = tid \<and> tm_role m = ''admin'') (team_members s)"

definition is_last_admin :: "db \<Rightarrow> team_member \<Rightarrow> bool" where
  "is_last_admin s m \<longleftrightarrow> tm_role m = ''admin'' \<and> admin_count s (tm_team_id m) \<le> 1"

definition is_row :: "team_member \<Rightarrow> team_member \<Rightarrow> bool" where
  "is_row m x \<longleftrightarrow> tm_team_id x = tm_team_id m \<and> tm_user_id x = tm_user_id m"

definition invite_to_team :: "time \<Rightarrow> team \<Rightarrow> int \<Rightarrow> string \<Rightarrow> user \<Rightarrow> string \<Rightarrow> db \<Rightarrow> exn + db \<times> team_member option" where
  "invite_to_team now t org email invited_by role s =
     (if role \<notin> set TEAM_ROLES then Inl (ValueError ''Invalid role: {!r} (expected one of ['admin', 'member', 'viewer'])'' [role])
      else case find_user_by_email s email of
             None \<Rightarrow> Inr (s, None)
           | Some invitee \<Rightarrow>
               if get_membership s org (u_id invitee) = None
               then Inl (ValueError ''User is not a member of this organization: {}'' [email])
               else case get_team_member s (t_id t) (u_id invitee) of
                      Some m \<Rightarrow> Inr (s, Some m)
                    | None \<Rightarrow>
                        let m = \<lparr>tm_team_id = t_id t, tm_user_id = u_id invitee, tm_role = role,
                                 tm_invited_by_user_id = Some (u_id invited_by), tm_joined_at = Some now\<rparr>
                        in Inr (s\<lparr>team_members := team_members s @ [m]\<rparr>, Some m))"

definition set_member_role :: "team_member \<Rightarrow> string \<Rightarrow> db \<Rightarrow> exn + db \<times> team_member" where
  "set_member_role m new_role s =
     (if new_role \<notin> set TEAM_ROLES then Inl (ValueError ''Invalid role: {!r} (expected one of ['admin', 'member', 'viewer'])'' [new_role])
      else if new_role \<noteq> ''admin'' \<and> is_last_admin s m then Inl (ValueError ''Cannot demote the last team admin'' [])
      else Inr (s\<lparr>team_members := update_where (is_row m) (\<lambda>x. x\<lparr>tm_role := new_role\<rparr>) (team_members s)\<rparr>, m\<lparr>tm_role := new_role\<rparr>))"

definition remove_member :: "team_member \<Rightarrow> db \<Rightarrow> exn + db" where
  "remove_member m s =
     (if is_last_admin s m then Inl (ValueError ''Cannot remove the last team admin'' [])
      else Inr (s\<lparr>team_members := delete_where (is_row m) (team_members s)\<rparr>))"

definition leave_team :: "team_member \<Rightarrow> db \<Rightarrow> exn + db" where
  "leave_team m s =
     (if is_last_admin s m
      then Inl (ValueError ''The last team admin cannot leave -- transfer ownership or delete the team instead'' [])
      else Inr (s\<lparr>team_members := delete_where (is_row m) (team_members s)\<rparr>))"

definition resolve_team_claim :: "db \<Rightarrow> int option \<Rightarrow> int option \<Rightarrow> int \<Rightarrow> int option \<times> string option" where
  "resolve_team_claim s organization_id team_id user_id =
     (case (team_id, organization_id) of
        (Some tid, Some org) \<Rightarrow>
          (case query_first (\<lambda>t. t_id t = tid) (teams s) of
             None \<Rightarrow> (None, None)
           | Some t \<Rightarrow>
               if t_organization_id t \<noteq> org then (None, None)
               else case get_team_member s tid user_id of
                      None \<Rightarrow> (None, None)
                    | Some m \<Rightarrow> (Some tid, Some (tm_role m)))
      | _ \<Rightarrow> (None, None))"

subsection \<open>The operations of a team\<close>

definition team_rows_ok :: "db \<Rightarrow> bool" where
  "team_rows_ok s \<longleftrightarrow> distinct (map (\<lambda>m. (tm_team_id m, tm_user_id m)) (team_members s))
     \<and> (\<forall>m \<in> set (team_members s). tm_role m \<in> set TEAM_ROLES)"

definition has_admin :: "db \<Rightarrow> int \<Rightarrow> bool" where
  "has_admin s tid \<longleftrightarrow> (\<exists>m \<in> set (team_members s). tm_team_id m = tid \<and> tm_role m = ''admin'')"

text \<open>The member operations, applied to rows of the table as the routes do.\<close>

inductive team_step :: "db \<Rightarrow> db \<Rightarrow> bool" where
  invite_to_team: "invite_to_team now t org email u role s = Inr (s', r) \<Longrightarrow> team_step s s'"
| set_member_role: "m \<in> set (team_members s) \<Longrightarrow> set_member_role m new_role s = Inr (s', m') \<Longrightarrow> team_step s s'"
| remove_member: "m \<in> set (team_members s) \<Longrightarrow> remove_member m s = Inr s' \<Longrightarrow> team_step s s'"
| leave_team: "m \<in> set (team_members s) \<Longrightarrow> leave_team m s = Inr s' \<Longrightarrow> team_step s s'"
| create_team: "create_team now org name desc u s = Inr (s', t) \<Longrightarrow> team_step s s'"
| update_team: "update_team t name desc s = Inr (s', t') \<Longrightarrow> team_step s s'"

inductive_cases team_stepE: "team_step s s'"

lemma is_row_unique:
  assumes "team_rows_ok s" "m \<in> set (team_members s)" "x \<in> set (team_members s)"
  shows "is_row m x \<longleftrightarrow> x = m"
  using assms distinct_keyD [of "\<lambda>m. (tm_team_id m, tm_user_id m)" "team_members s" x m]
  by (auto simp: is_row_def team_rows_ok_def)

lemma two_admins:
  assumes "team_rows_ok s" and "m \<in> set (team_members s)" and "tm_role m = ''admin''" and "\<not> admin_count s (tm_team_id m) \<le> 1"
  shows "\<exists>x \<in> set (team_members s). x \<noteq> m \<and> tm_team_id x = tm_team_id m \<and> tm_role x = ''admin''"
proof (rule ccontr)
  assume no: "\<not> ?thesis"
  let ?A = "filter (\<lambda>x. tm_team_id x = tm_team_id m \<and> tm_role x = ''admin'') (team_members s)"
  have "distinct (team_members s)" using assms(1) by (auto simp: team_rows_ok_def distinct_map)
  then have len: "length ?A = card (set ?A)" by (intro distinct_card [symmetric] distinct_filter)
  have "set ?A \<subseteq> {m}" using no by auto
  then have "card (set ?A) \<le> card {m}" by (rule card_mono [rotated]) simp
  then show False using assms(4) len by (simp only: admin_count_def query_count_def) simp
qed

lemma guarded_delete:
  assumes "team_rows_ok s" "m \<in> set (team_members s)" "\<not> is_last_admin s m" "has_admin s tid"
  shows "has_admin (s\<lparr>team_members := delete_where (is_row m) (team_members s)\<rparr>) tid"
proof -
  obtain a where a: "a \<in> set (team_members s)" "tm_team_id a = tid" "tm_role a = ''admin''" using assms(4) by (auto simp: has_admin_def)
  have "\<exists>x \<in> set (team_members s). x \<noteq> m \<and> tm_team_id x = tid \<and> tm_role x = ''admin''"
  proof (cases "a = m")
    case True
    then show ?thesis using two_admins [OF assms(1,2)] a assms(3) by (auto simp: is_last_admin_def)
  qed (use a in auto)
  then show ?thesis using is_row_unique [OF assms(1,2)] by (auto simp: has_admin_def)
qed

lemma guarded_demote:
  assumes "team_rows_ok s" "m \<in> set (team_members s)" "new_role = ''admin'' \<or> \<not> is_last_admin s m" "has_admin s tid"
  shows "has_admin (s\<lparr>team_members := update_where (is_row m) (\<lambda>x. x\<lparr>tm_role := new_role\<rparr>) (team_members s)\<rparr>) tid"
proof -
  let ?f = "\<lambda>x. if is_row m x then x\<lparr>tm_role := new_role\<rparr> else x"
  have "\<exists>x \<in> set (team_members s). tm_team_id x = tid \<and> tm_role (?f x) = ''admin''"
  proof (cases "new_role = ''admin''")
    case True
    then show ?thesis using assms(4) by (auto simp: has_admin_def)
  next
    case False
    then have "has_admin (s\<lparr>team_members := delete_where (is_row m) (team_members s)\<rparr>) tid"
      using guarded_delete [OF assms(1,2) _ assms(4)] assms(3) by blast
    then show ?thesis by (auto simp: has_admin_def)
  qed
  then obtain x where "x \<in> set (team_members s)" "tm_team_id x = tid" "tm_role (?f x) = ''admin''" by blast
  then have "?f x \<in> set (update_where (is_row m) (\<lambda>x. x\<lparr>tm_role := new_role\<rparr>) (team_members s))" "tm_team_id (?f x) = tid" "tm_role (?f x) = ''admin''"
    by (simp_all add: in_update_whereI)
  then show ?thesis unfolding has_admin_def by (intro bexI [of _ "?f x"] conjI) simp_all
qed

lemma team_rows_ok_step: "team_step s s' \<Longrightarrow> team_rows_ok s \<Longrightarrow> team_rows_ok s'"
proof (induction rule: team_step.induct)
  case (invite_to_team now t org email u role s s' r)
  then show ?case
    by (auto simp: invite_to_team_def get_team_member_def team_rows_ok_def Let_def image_iff split: if_splits option.splits; blast)
next
  case (set_member_role m s new_role s' m')
  have "map (\<lambda>m. (tm_team_id m, tm_user_id m)) (update_where (is_row m) (\<lambda>x. x\<lparr>tm_role := new_role\<rparr>) (team_members s))
      = map (\<lambda>m. (tm_team_id m, tm_user_id m)) (team_members s)"
    by (rule map_update_where_same) simp
  with set_member_role show ?case
    by (auto simp: set_member_role_def team_rows_ok_def set_update_where split: if_splits)
next
  case (remove_member m s s')
  then show ?case by (auto simp: remove_member_def team_rows_ok_def distinct_map_delete_where split: if_splits)
next
  case (leave_team m s s')
  then show ?case by (auto simp: leave_team_def team_rows_ok_def distinct_map_delete_where split: if_splits)
qed (auto simp: create_team_def update_team_def team_rows_ok_def Let_def split: if_splits)

lemma has_admin_step: "team_step s s' \<Longrightarrow> team_rows_ok s \<Longrightarrow> has_admin s tid \<Longrightarrow> has_admin s' tid"
proof (induction rule: team_step.induct)
  case (set_member_role m s new_role s' m')
  then show ?case using guarded_demote [of s m new_role tid] by (auto simp: set_member_role_def split: if_splits)
next
  case (remove_member m s s')
  then show ?case using guarded_delete [of s m tid] by (auto simp: remove_member_def split: if_splits)
next
  case (leave_team m s s')
  then show ?case using guarded_delete [of s m tid] by (auto simp: leave_team_def split: if_splits)
qed (auto simp: invite_to_team_def create_team_def update_team_def has_admin_def Let_def split: if_splits option.splits)

interpretation team: transition_invariant team_step team_rows_ok
  by unfold_locales (rule team_rows_ok_step)

lemma sort_remdups_Nil: "sort (remdups xs) = [] \<longleftrightarrow> xs = ([] :: int list)"
  by (metis remdups_eq_nil_iff set_empty set_sort)

subsection \<open>Properties\<close>

text \<open>
  C28. A team never loses its last administrator through the member operations: whatever
  sequence of invitations, role changes, removals, departures and team edits is performed, a
  team that has an administrator still has one.
\<close>

theorem team_keeps_admin:
  assumes "team_step\<^sup>*\<^sup>* s s'" and "team_rows_ok s" and "has_admin s tid"
  shows "has_admin s' tid \<and> team_rows_ok s'"
  using team.reachable [OF assms(1,2)] team.reachable_relative [OF assms(1,2), of "\<lambda>s. has_admin s tid"] assms(3) has_admin_step by blast

definition team_db :: db where
  "team_db = empty_db\<lparr>users := [sample_user 1 ''a'', sample_user 2 ''b''],
     organizations := [\<lparr>o_id = 5, o_slug = ''lab'', o_name = ''Lab'', o_plan = ''beta'', o_status = ''active'', o_created_at = 0,
       o_created_by_user_id = None, o_status_changed_at = None, o_status_changed_reason = None, o_status_changed_by_user_id = None\<rparr>],
     memberships := [\<lparr>m_id = 1, m_organization_id = 5, m_user_id = 1, m_status = ''active'', m_invited_by_user_id = None, m_joined_at = 0\<rparr>,
                     \<lparr>m_id = 2, m_organization_id = 5, m_user_id = 2, m_status = ''active'', m_invited_by_user_id = None, m_joined_at = 0\<rparr>],
     teams := [\<lparr>t_id = 7, t_organization_id = 5, t_name = ''core'', t_description = None, t_created_at = 0, t_created_by_user_id = None\<rparr>],
     team_members := [\<lparr>tm_team_id = 7, tm_user_id = 1, tm_role = ''admin'', tm_invited_by_user_id = None, tm_joined_at = None\<rparr>,
                      \<lparr>tm_team_id = 7, tm_user_id = 2, tm_role = ''admin'', tm_invited_by_user_id = None, tm_joined_at = None\<rparr>]\<rparr>"

theorem team_keeps_admin_witness:
  "\<exists>s'. remove_member (hd (team_members team_db)) team_db = Inr s' \<and> has_admin s' 7"
proof -
  obtain s' where r: "remove_member (hd (team_members team_db)) team_db = Inr s'"
    by (simp add: remove_member_def is_last_admin_def admin_count_def query_count_def team_db_def empty_db_def)
  have "team_step team_db s'" by (rule team_step.remove_member [OF _ r]) (simp add: team_db_def empty_db_def)
  then have "team_step\<^sup>*\<^sup>* team_db s'" by (rule r_into_rtranclp)
  from team_keeps_admin [OF this, of 7] r show ?thesis
    by (simp add: team_rows_ok_def has_admin_def team_db_def empty_db_def TEAM_ROLES_def)
qed

text \<open>
  Property. The bulk replacement is outside that guard: there is a well-formed state in which
  \<open>set_team_members\<close> succeeds and takes the last administrator away from a team.
\<close>

theorem set_team_members_drops_admin:
  "\<exists>s t org ids s'. team_rows_ok s \<and> has_admin s (t_id t) \<and> set_team_members 0 t org ids s = Inr s' \<and> \<not> has_admin s' (t_id t)"
proof -
  let ?s = "team_db\<lparr>team_members := take 1 (team_members team_db)\<rparr>"
  have "team_rows_ok ?s" "has_admin ?s 7"
    by (simp_all add: team_rows_ok_def has_admin_def team_db_def empty_db_def TEAM_ROLES_def)
  moreover have "\<exists>s'. set_team_members 0 (hd (teams team_db)) 5 [2] ?s = Inr s' \<and> \<not> has_admin s' 7"
    by (simp add: set_team_members_def team_db_def empty_db_def has_admin_def sample_user_def delete_where_def Let_def)
  moreover have "t_id (hd (teams team_db)) = 7" by (simp add: team_db_def empty_db_def)
  ultimately show ?thesis by metis
qed

text \<open>
  Property. Tenant isolation of teams. A user put into a team by an invitation or by the bulk
  replacement is a member of the organization named in the request, and with the bulk
  replacement the team afterwards consists of exactly the requested (existing) users.
\<close>

theorem team_members_in_org:
  assumes "set_team_members now t org user_ids s = Inr s'" and "\<forall>m \<in> set (memberships s). m_user_id m \<in> u_id ` set (users s)"
  shows "tm_user_id ` {m \<in> set (team_members s'). tm_team_id m = t_id t} = set user_ids
    \<and> (\<forall>u \<in> set user_ids. get_membership s org u \<noteq> None)
    \<and> {m \<in> set (team_members s'). tm_team_id m \<noteq> t_id t} = {m \<in> set (team_members s). tm_team_id m \<noteq> t_id t}"
proof -
  let ?valid = "remdups (map m_user_id (filter (\<lambda>m. m_organization_id m = org \<and> m_user_id m \<in> set user_ids) (memberships s)))"
  define n where "n = map u_id (filter (\<lambda>u. u_id u \<in> set ?valid) (users s))"
  define old where "old = map tm_user_id (filter (\<lambda>m. tm_team_id m = t_id t) (team_members s))"
  let ?tm = "delete_where (\<lambda>m. tm_team_id m = t_id t \<and> tm_user_id m \<notin> set n) (team_members s)
      @ map (\<lambda>u. \<lparr>tm_team_id = t_id t, tm_user_id = u, tm_role = ''member'', tm_invited_by_user_id = None, tm_joined_at = Some now\<rparr>)
          (filter (\<lambda>u. u \<notin> set old) n)"
  have eq: "set_team_members now t org user_ids s = (if sort (remdups (filter (\<lambda>u. u \<notin> set ?valid) user_ids)) \<noteq> []
      then Inl (ValueError ''Users not members of this organization: {}'' (map show_int (sort (remdups (filter (\<lambda>u. u \<notin> set ?valid) user_ids)))))
      else Inr (s\<lparr>team_members := ?tm\<rparr>))"
    unfolding set_team_members_def Let_def n_def old_def by (rule refl)
  have if_Inr: "b = False \<and> y = x" if "(if b then Inl e else Inr x) = Inr y" for b :: bool and e :: exn and x y :: db
    using that by (simp split: if_splits)
  have "sort (remdups (filter (\<lambda>u. u \<notin> set ?valid) user_ids)) = []" and s'': "s' = s\<lparr>team_members := ?tm\<rparr>"
    using if_Inr [OF assms(1) [unfolded eq]] by (simp_all only: simp_thms)
  then have none: "filter (\<lambda>u. u \<notin> set ?valid) user_ids = []" by (simp only: sort_remdups_Nil)
  then have sub: "set user_ids \<subseteq> set ?valid" by (auto simp: filter_empty_conv)
  have valid: "set ?valid = set user_ids" using sub by auto
  have mem: "\<forall>u \<in> set user_ids. \<exists>m \<in> set (memberships s). m_organization_id m = org \<and> m_user_id m = u"
    using sub by auto
  have new: "set (map u_id (filter (\<lambda>u. u_id u \<in> set ?valid) (users s))) = set user_ids"
    using assms(2) valid mem by (auto simp: image_iff; metis)
  have s': "team_members s' = ?tm" by (simp add: s'')
  have n: "set n = set user_ids" using new by (simp only: n_def)
  have "tm_user_id ` {m \<in> set (team_members s'). tm_team_id m = t_id t} = set n"
  proof (intro subset_antisym subsetI)
    fix u assume u: "u \<in> set n"
    show "u \<in> tm_user_id ` {m \<in> set (team_members s'). tm_team_id m = t_id t}"
    proof (cases "u \<in> set old")
      case True
      then obtain m where "m \<in> set (team_members s)" "tm_team_id m = t_id t" "u = tm_user_id m" by (auto simp: old_def)
      then show ?thesis using u by (intro image_eqI [of _ _ m]) (simp_all add: s')
    next
      case False
      then show ?thesis using u unfolding s'
        by (intro image_eqI [of _ _ "\<lparr>tm_team_id = t_id t, tm_user_id = u, tm_role = ''member'',
              tm_invited_by_user_id = None, tm_joined_at = Some now\<rparr>"]) simp_all
    qed
  qed (auto simp: s')
  moreover have "{m \<in> set (team_members s'). tm_team_id m \<noteq> t_id t} = {m \<in> set (team_members s). tm_team_id m \<noteq> t_id t}"
    by (auto simp: s')
  ultimately show ?thesis using n mem by (auto simp: get_membership_def)
qed

theorem team_members_in_org_witness:
  "\<exists>s'. set_team_members 0 (hd (teams team_db)) 5 [2] team_db = Inr s'
      \<and> tm_user_id ` {m \<in> set (team_members s'). tm_team_id m = 7} = {2}"
proof -
  have "\<exists>s'. set_team_members 0 (hd (teams team_db)) 5 [2] team_db = Inr s'"
    by (simp add: set_team_members_def team_db_def empty_db_def Let_def)
  then obtain s' where c: "set_team_members 0 (hd (teams team_db)) 5 [2] team_db = Inr s'" by blast
  moreover have "t_id (hd (teams team_db)) = 7" "\<forall>m \<in> set (memberships team_db). m_user_id m \<in> u_id ` set (users team_db)"
    by (simp_all add: team_db_def empty_db_def sample_user_def)
  ultimately show ?thesis using team_members_in_org [OF c] by auto
qed

text \<open>
  Property. What a team claim is worth. \<open>resolve_team_claim\<close> returns a team and a role exactly when
  the requested team exists in the token's organization and the user is a member of it, and
  then returns the requested team and the user's role in it; otherwise both are empty.
\<close>

theorem team_claim_valid:
  "resolve_team_claim s org team uid =
     (if \<exists>tid oid t m. team = Some tid \<and> org = Some oid \<and> query_first (\<lambda>t. t_id t = tid) (teams s) = Some t
            \<and> t_organization_id t = oid \<and> get_team_member s tid uid = Some m
      then (team, map_option tm_role (get_team_member s (the team) uid))
      else (None, None))"
  by (auto simp: resolve_team_claim_def simp del: query_first_None split: option.splits)

end
