(* ===== verification/Jwt_Tokens.thy ===== *)
theory Jwt_Tokens
  imports Role_Service
begin

text \<open>
  \<open>app/core/jwt.py\<close>: the claims of every kind of token the service signs, signing and
  decoding. The claims of a token are an association list in insertion order; a
  \<open>datetime\<close> claim is encoded by the \<open>jose\<close> package as whole seconds, which is how it
  is written here. \<open>uuid.uuid4()\<close> is the argument \<open>jti\<close>. The key id in the header
  of an RS256 token is left out. The state token of an organization's sign-on is in
  \<open>Sso_Routes\<close>.

  The theory shows which claims a token carries whatever the caller put into its payload,
  and that the kinds of tokens are told apart by their \<open>type\<close> claim.
\<close>

subsection \<open>Claims\<close>

text \<open>\<open>claims.get(k)\<close>, where a missing claim and a JSON null are both \<open>None\<close>.\<close>

definition get_claim :: "claims \<Rightarrow> string \<Rightarrow> json" where
  "get_claim c k = (case map_of c k of None \<Rightarrow> JNull | Some v \<Rightarrow> v)"

definition set_claim :: "string \<Rightarrow> json \<Rightarrow> claims \<Rightarrow> claims" where
  "set_claim k v c = AList.update k v c"

definition setdefault :: "string \<Rightarrow> json \<Rightarrow> claims \<Rightarrow> claims" where
  "setdefault k v c = (if map_of c k = None then c @ [(k, v)] else c)"

fun jtruthy :: "json \<Rightarrow> bool" where
  "jtruthy JNull = False"
| "jtruthy (JBool b) = b"
| "jtruthy (JInt i) = (i \<noteq> 0)"
| "jtruthy (JStr s) = (s \<noteq> [])"
| "jtruthy (JList xs) = (xs \<noteq> [])"
| "jtruthy (JObj xs) = (xs \<noteq> [])"

fun json_int :: "json \<Rightarrow> int option" where
  "json_int (JInt i) = Some i"
| "json_int _ = None"

fun json_str :: "json \<Rightarrow> string option" where
  "json_str (JStr s) = Some s"
| "json_str _ = None"

definition jdate :: "time \<Rightarrow> json" where
  "jdate t = JInt (whole_seconds t)"

lemma get_set_claim [simp]: "get_claim (set_claim k v c) j = (if j = k then v else get_claim c j)"
  by (simp add: get_claim_def set_claim_def update_conv')

lemma get_setdefault: "get_claim (setdefault k v c) j = (if j = k \<and> map_of c k = None then v else get_claim c j)"
  by (auto simp: get_claim_def setdefault_def map_add_def split: option.splits)

lemma get_claim_Nil [simp]: "get_claim [] k = JNull"
  by (simp add: get_claim_def)

lemma get_claim_Cons [simp]: "get_claim ((j, v) # c) k = (if k = j then v else get_claim c k)"
  by (simp add: get_claim_def)

subsection \<open>Signing\<close>

definition signed_claims :: "env \<Rightarrow> claims \<Rightarrow> claims" where
  "signed_claims E payload =
     setdefault ''aud'' (JStr (JWT_AUDIENCE (cfg E))) (setdefault ''iss'' (JStr (JWT_ISSUER (cfg E))) payload)"

definition sign :: "env \<Rightarrow> claims \<Rightarrow> string" where
  "sign E payload =
     (if JWT_ALGORITHM (cfg E) = ''RS256''
      then jwt_encode E (signed_claims E payload) (PRIVATE_KEY_PEM (cfg E)) ''RS256''
      else jwt_encode E (signed_claims E payload) (SECRET_KEY (cfg E)) (ALGORITHM (cfg E)))"

subsection \<open>The kinds of tokens\<close>

text \<open>\<open>to_encode = data.copy(); to_encode.update({...})\<close>\<close>

definition stamp :: "claims \<Rightarrow> time \<Rightarrow> string \<Rightarrow> string \<Rightarrow> claims" where
  "stamp data exp type jti = set_claim ''jti'' (JStr jti) (set_claim ''type'' (JStr type) (set_claim ''exp'' (jdate exp) data))"

definition access_claims :: "env \<Rightarrow> time \<Rightarrow> string \<Rightarrow> claims \<Rightarrow> int option \<Rightarrow> claims" where
  "access_claims E now jti data expires_seconds =
     stamp data (now + (case expires_seconds of Some n \<Rightarrow> seconds n | None \<Rightarrow> minutes (ACCESS_TOKEN_EXPIRE_MINUTES (cfg E)))) ''access'' jti"

definition create_access_token :: "env \<Rightarrow> time \<Rightarrow> string \<Rightarrow> claims \<Rightarrow> int option \<Rightarrow> string" where
  "create_access_token E now jti data expires_seconds = sign E (access_claims E now jti data expires_seconds)"

definition refresh_claims :: "time \<Rightarrow> string \<Rightarrow> claims \<Rightarrow> claims" where
  "refresh_claims now jti data = stamp data (now + days 7) ''refresh'' jti"

definition create_refresh_token :: "env \<Rightarrow> time \<Rightarrow> string \<Rightarrow> claims \<Rightarrow> string" where
  "create_refresh_token E now jti data = sign E (refresh_claims now jti data)"

definition service_access_claims :: "time \<Rightarrow> string \<Rightarrow> claims \<Rightarrow> int \<Rightarrow> claims" where
  "service_access_claims now jti data expires_minutes = stamp data (now + minutes expires_minutes) ''access'' jti"

definition create_service_access_token :: "env \<Rightarrow> time \<Rightarrow> string \<Rightarrow> claims \<Rightarrow> int \<Rightarrow> string" where
  "create_service_access_token E now jti data expires_minutes = sign E (service_access_claims now jti data expires_minutes)"

definition delegated_execution_claims :: "env \<Rightarrow> time \<Rightarrow> string \<Rightarrow> int \<Rightarrow> int \<Rightarrow> string list \<Rightarrow> string \<Rightarrow> claims" where
  "delegated_execution_claims E now client_id user_id org perms delegation_id =
     [(''sub'', JStr (show_int user_id)), (''client_id'', JStr client_id), (''org_id'', JInt org),
      (''permissions'', jstrs (sorted_set perms)), (''delegation_id'', JStr delegation_id),
      (''type'', JStr ''delegated_execution''), (''iat'', jdate now),
      (''exp'', jdate (now + minutes (DELEGATED_EXECUTION_TOKEN_EXPIRE_MINUTES (cfg E)))),
      (''jti'', JStr delegation_id), (''aud'', JStr ''omnibioai-toolserver'')]"

definition create_delegated_execution_token :: "env \<Rightarrow> time \<Rightarrow> string \<Rightarrow> int \<Rightarrow> int \<Rightarrow> string list \<Rightarrow> string \<Rightarrow> string" where
  "create_delegated_execution_token E now client_id user_id org perms delegation_id =
     sign E (delegated_execution_claims E now client_id user_id org perms delegation_id)"

definition toolserver_registration_claims :: "env \<Rightarrow> time \<Rightarrow> string \<Rightarrow> int \<Rightarrow> string \<Rightarrow> claims" where
  "toolserver_registration_claims E now client_id org registration_id =
     [(''client_id'', JStr client_id), (''org_id'', JInt org), (''scopes'', jstrs [''toolserver.register'']),
      (''type'', JStr ''toolserver_registration''), (''iat'', jdate now),
      (''exp'', jdate (now + minutes (TOOLSERVER_REGISTRATION_TOKEN_EXPIRE_MINUTES (cfg E)))),
      (''jti'', JStr registration_id), (''aud'', JStr ''omnibioai-toolserver'')]"

definition create_toolserver_registration_token :: "env \<Rightarrow> time \<Rightarrow> string \<Rightarrow> int \<Rightarrow> string \<Rightarrow> string" where
  "create_toolserver_registration_token E now client_id org registration_id =
     sign E (toolserver_registration_claims E now client_id org registration_id)"

definition oauth_state_claims :: "time \<Rightarrow> string \<Rightarrow> string \<Rightarrow> string option \<Rightarrow> claims" where
  "oauth_state_claims now jti provider code_verifier =
     [(''type'', JStr ''oauth_state''), (''provider'', JStr provider), (''exp'', jdate (now + minutes 10)), (''jti'', JStr jti)]
     @ (if truthy code_verifier then [(''code_verifier'', JStr (the code_verifier))] else [])"

definition create_oauth_state_token :: "env \<Rightarrow> time \<Rightarrow> string \<Rightarrow> string \<Rightarrow> string option \<Rightarrow> string" where
  "create_oauth_state_token E now jti provider code_verifier = sign E (oauth_state_claims now jti provider code_verifier)"

definition saml_relay_claims :: "string \<Rightarrow> time \<Rightarrow> string \<Rightarrow> int \<Rightarrow> int \<Rightarrow> string \<Rightarrow> claims" where
  "saml_relay_claims type now jti org config_id request_id =
     [(''type'', JStr type), (''organization_id'', JInt org), (''organization_saml_config_id'', JInt config_id),
      (''request_id'', JStr request_id), (''exp'', jdate (now + minutes 10)), (''jti'', JStr jti)]"

definition create_saml_relay_state_token :: "env \<Rightarrow> time \<Rightarrow> string \<Rightarrow> int \<Rightarrow> int \<Rightarrow> string \<Rightarrow> string" where
  "create_saml_relay_state_token E now jti org config_id request_id =
     sign E (saml_relay_claims ''saml_relay_state'' now jti org config_id request_id)"

definition create_saml_slo_relay_state_token :: "env \<Rightarrow> time \<Rightarrow> string \<Rightarrow> int \<Rightarrow> int \<Rightarrow> string \<Rightarrow> string" where
  "create_saml_slo_relay_state_token E now jti org config_id request_id =
     sign E (saml_relay_claims ''saml_slo_relay_state'' now jti org config_id request_id)"

text \<open>The SAML context a login carries from the identity provider's response.\<close>

record saml_context =
  sc_name_id :: "string option"
  sc_session_index :: "string option"
  sc_config_id :: "int option"

definition mfa_challenge_claims ::
  "time \<Rightarrow> string \<Rightarrow> int \<Rightarrow> string \<Rightarrow> int option \<Rightarrow> saml_context \<Rightarrow> string option \<Rightarrow> claims" where
  "mfa_challenge_claims now jti user_id auth_method idp_org_id sc required_stage =
     [(''type'', JStr ''mfa_challenge''), (''user_id'', JInt user_id), (''mfa_required'', JBool True),
      (''auth_method'', JStr auth_method), (''idp_org_id'', jint_opt idp_org_id), (''saml_name_id'', jstr_opt (sc_name_id sc)),
      (''saml_session_index'', jstr_opt (sc_session_index sc)), (''organization_saml_config_id'', jint_opt (sc_config_id sc)),
      (''required_stage'', jstr_opt required_stage), (''exp'', jdate (now + minutes 5)), (''jti'', JStr jti)]"

definition create_mfa_challenge_token ::
  "env \<Rightarrow> time \<Rightarrow> string \<Rightarrow> int \<Rightarrow> string \<Rightarrow> int option \<Rightarrow> saml_context \<Rightarrow> string option \<Rightarrow> string" where
  "create_mfa_challenge_token E now jti user_id auth_method idp_org_id sc required_stage =
     sign E (mfa_challenge_claims now jti user_id auth_method idp_org_id sc required_stage)"

definition mfa_enrollment_claims :: "time \<Rightarrow> int \<Rightarrow> string \<Rightarrow> time option \<Rightarrow> claims" where
  "mfa_enrollment_claims now user_id token_jti expires_at =
     [(''type'', JStr ''mfa_enrollment''), (''purpose'', JStr ''totp_enrollment''), (''user_id'', JInt user_id),
      (''iat'', jdate now), (''exp'', jdate (case expires_at of Some t \<Rightarrow> t | None \<Rightarrow> now + minutes 10)), (''jti'', JStr token_jti)]"

definition create_mfa_enrollment_token :: "env \<Rightarrow> time \<Rightarrow> int \<Rightarrow> string \<Rightarrow> time option \<Rightarrow> string" where
  "create_mfa_enrollment_token E now user_id token_jti expires_at = sign E (mfa_enrollment_claims now user_id token_jti expires_at)"

definition link_claims ::
  "time \<Rightarrow> string \<Rightarrow> int \<Rightarrow> string \<Rightarrow> string \<Rightarrow> string \<Rightarrow> int option \<Rightarrow> int option \<Rightarrow> int option \<Rightarrow> claims" where
  "link_claims now jti user_id provider provider_user_id email sso_config saml_config idp_org_id =
     [(''type'', JStr ''oauth_link''), (''user_id'', JInt user_id), (''provider'', JStr provider),
      (''provider_user_id'', JStr provider_user_id), (''email'', JStr email),
      (''organization_sso_config_id'', jint_opt sso_config), (''organization_saml_config_id'', jint_opt saml_config),
      (''idp_org_id'', jint_opt idp_org_id), (''exp'', jdate (now + minutes 10)), (''jti'', JStr jti)]"

definition create_link_token ::
  "env \<Rightarrow> time \<Rightarrow> string \<Rightarrow> int \<Rightarrow> string \<Rightarrow> string \<Rightarrow> string \<Rightarrow> int option \<Rightarrow> int option \<Rightarrow> int option \<Rightarrow> string" where
  "create_link_token E now jti user_id provider provider_user_id email sso_config saml_config idp_org_id =
     sign E (link_claims now jti user_id provider provider_user_id email sso_config saml_config idp_org_id)"

subsection \<open>Decoding\<close>

definition decode_token_for_audience :: "env \<Rightarrow> time \<Rightarrow> string \<Rightarrow> string \<Rightarrow> exn + claims" where
  "decode_token_for_audience E now token audience =
     (case (if jwt_header_alg E token = Some ''RS256''
            then jwt_decode E now token (PUBLIC_KEY_PEM (cfg E)) ''RS256'' audience
            else jwt_decode E now token (SECRET_KEY (cfg E)) ''HS256'' audience) of
        None \<Rightarrow> Inl JWTError
      | Some c \<Rightarrow>
          if get_claim c ''iss'' \<noteq> JNull \<and> get_claim c ''iss'' \<noteq> JStr (JWT_ISSUER (cfg E)) then Inl JWTClaimsError
          else Inr c)"

definition decode_token :: "env \<Rightarrow> time \<Rightarrow> string \<Rightarrow> exn + claims" where
  "decode_token E now token = decode_token_for_audience E now token (JWT_AUDIENCE (cfg E))"

lemma decode_issuer:
  "decode_token E now token = Inr c \<Longrightarrow> get_claim c ''iss'' \<in> {JNull, JStr (JWT_ISSUER (cfg E))}"
  by (auto simp: decode_token_def decode_token_for_audience_def split: option.splits if_splits)

subsection \<open>Properties\<close>

text \<open>
  Property. The caller's payload cannot forge what the service stamps on a token. Whatever claims
  are passed in, an access token says it is an access token with the given id and expires
  after the configured (or requested) time, a refresh token says it is a refresh token and
  expires after seven days, all other claims pass through; and a signed token without its own
  issuer and audience gets the service's.
\<close>

theorem stamped_claims:
  "get_claim (access_claims E now jti data n) k =
     (if k = ''type'' then JStr ''access'' else if k = ''jti'' then JStr jti
      else if k = ''exp'' then jdate (now + (case n of Some m \<Rightarrow> seconds m | None \<Rightarrow> minutes (ACCESS_TOKEN_EXPIRE_MINUTES (cfg E))))
      else get_claim data k)
   \<and> get_claim (refresh_claims now jti data) k =
     (if k = ''type'' then JStr ''refresh'' else if k = ''jti'' then JStr jti
      else if k = ''exp'' then jdate (now + days 7) else get_claim data k)
   \<and> get_claim (signed_claims E data) k =
     (if k = ''iss'' \<and> map_of data ''iss'' = None then JStr (JWT_ISSUER (cfg E))
      else if k = ''aud'' \<and> map_of data ''aud'' = None then JStr (JWT_AUDIENCE (cfg E))
      else get_claim data k)"
proof -
  have aud: "map_of (setdefault ''iss'' v data) ''aud'' = map_of data ''aud''" for v
    by (simp add: setdefault_def map_add_def split: option.splits)
  show ?thesis
    by (simp add: access_claims_def refresh_claims_def stamp_def signed_claims_def get_setdefault aud)
qed

text \<open>
  Property. The purpose of a token is unmistakable: the ten kinds of tokens carry pairwise different
  \<open>type\<close> claims (service tokens are access tokens), so a token issued for one step of a flow
  is never read as one for another.
\<close>

theorem token_purposes:
  "map (\<lambda>c. get_claim (signed_claims E c) ''type'')
     [access_claims E now jti data n, refresh_claims now jti data, delegated_execution_claims E now cid uid org perms did,
      toolserver_registration_claims E now cid org did, oauth_state_claims now jti prov cv,
      saml_relay_claims ''saml_relay_state'' now jti org cf rid, saml_relay_claims ''saml_slo_relay_state'' now jti org cf rid,
      mfa_challenge_claims now jti uid am idp sc st, mfa_enrollment_claims now uid jti ex,
      link_claims now jti uid prov puid em a b idp]
   = map JStr [''access'', ''refresh'', ''delegated_execution'', ''toolserver_registration'', ''oauth_state'', ''saml_relay_state'',
      ''saml_slo_relay_state'', ''mfa_challenge'', ''mfa_enrollment'', ''oauth_link'']
   \<and> get_claim (signed_claims E (service_access_claims now jti data m)) ''type'' = JStr ''access''"
  by (simp add: signed_claims_def get_setdefault access_claims_def refresh_claims_def service_access_claims_def stamp_def
      delegated_execution_claims_def toolserver_registration_claims_def oauth_state_claims_def saml_relay_claims_def
      mfa_challenge_claims_def mfa_enrollment_claims_def link_claims_def)

text \<open>
  Property. Tool-server tokens are useless against the service itself: a delegated-execution or
  registration token keeps the audience \<open>omnibioai-toolserver\<close> through signing, and its
  claims are decided by the service alone.
\<close>

theorem toolserver_audience:
  "get_claim (signed_claims E (delegated_execution_claims E now cid uid org perms did)) ''aud'' = JStr ''omnibioai-toolserver''
   \<and> get_claim (signed_claims E (toolserver_registration_claims E now cid org did)) ''aud'' = JStr ''omnibioai-toolserver''
   \<and> get_claim (signed_claims E (delegated_execution_claims E now cid uid org perms did)) ''sub'' = JStr (show_int uid)
   \<and> get_claim (signed_claims E (toolserver_registration_claims E now cid org did)) ''sub'' = JNull"
  by (simp add: signed_claims_def get_setdefault delegated_execution_claims_def toolserver_registration_claims_def setdefault_def)

end
