(* ===== verification/Rate_Limiting.thy ===== *)
theory Rate_Limiting
  imports Auth_Env
begin

text \<open>
  \<open>app/core/rate_limit.py\<close>: fixed-window attempt counters with a separate lock key, kept
  in Redis by an atomic Lua script, or, when Redis raises, in the process
  (\<open>_InProcessFallback\<close>).

  \<^item> Redis is a service outside the repository: its commands are the fields of the record
    \<open>redis\<close>, an argument of the definitions, and \<open>red_up\<close> says whether a call
    succeeds or raises. The Lua scripts themselves are translated
    (\<open>incr_and_lock_script\<close>, \<open>strike_script\<close>). The locale \<open>redis_store\<close> states
    the documented behaviour of the commands.
  \<^item> \<open>fallback\<close> is the state of \<open>_InProcessFallback\<close>; its dictionaries are
    association lists.
  \<^item> \<open>limiter\<close> is the module's state: the Redis store, the fallback and the
    degradation counter.
  \<^item> \<open>cell_step\<close> is the abstract specification of one counter with its lock. Both
    backends refine it (locale \<open>cell_backend\<close>), and the bound on attempts is proved once
    for it.
\<close>

subsection \<open>Redis commands\<close>

record 'r redis =
  red_up :: "'r \<Rightarrow> bool"
  red_exists :: "time \<Rightarrow> 'r \<Rightarrow> string \<Rightarrow> bool"
  red_get :: "time \<Rightarrow> 'r \<Rightarrow> string \<Rightarrow> int option"
  red_incr :: "time \<Rightarrow> 'r \<Rightarrow> string \<Rightarrow> 'r \<times> int"
  red_expire :: "time \<Rightarrow> 'r \<Rightarrow> string \<Rightarrow> int \<Rightarrow> 'r"
  red_set_ex :: "time \<Rightarrow> 'r \<Rightarrow> string \<Rightarrow> int \<Rightarrow> int \<Rightarrow> 'r"
  red_ttl :: "time \<Rightarrow> 'r \<Rightarrow> string \<Rightarrow> int"
  red_delete :: "time \<Rightarrow> 'r \<Rightarrow> string list \<Rightarrow> 'r"

record rate_limit_result =
  res_locked :: bool
  res_newly_locked :: bool
  res_count :: int

text \<open>The Lua script \<open>_INCR_AND_LOCK_SCRIPT\<close>; it returns \<open>{locked, newly_locked, count}\<close>.\<close>

definition incr_and_lock_script ::
  "'r redis \<Rightarrow> time \<Rightarrow> string \<Rightarrow> string \<Rightarrow> int \<Rightarrow> int \<Rightarrow> int \<Rightarrow> 'r \<Rightarrow> 'r \<times> int \<times> int \<times> int" where
  "incr_and_lock_script R now fail_key lock_key window max_attempts lockout r =
     (if red_exists R now r lock_key
      then (r, 1, 0, case red_get R now r fail_key of None \<Rightarrow> 0 | Some c \<Rightarrow> c)
      else let (r1, count) = red_incr R now r fail_key;
               r2 = (if count = 1 then red_expire R now r1 fail_key window else r1)
           in if max_attempts \<le> count
              then (red_set_ex R now r2 lock_key 1 lockout, 1, 1, count)
              else (r2, 0, 0, count))"

definition strike_script :: "'r redis \<Rightarrow> time \<Rightarrow> string \<Rightarrow> int \<Rightarrow> 'r \<Rightarrow> 'r \<times> int" where
  "strike_script R now strike_key ttl r =
     (let (r1, n) = red_incr R now r strike_key
      in (if n = 1 then red_expire R now r1 strike_key ttl else r1, n))"

subsection \<open>The in-process fallback\<close>

record fallback =
  fb_counters :: "(string \<times> (time \<times> int)) list"
  fb_locks :: "(string \<times> time) list"

definition fb_init :: fallback where
  "fb_init = \<lparr>fb_counters = [], fb_locks = []\<rparr>"

definition fb_evict_if_full :: "settings \<Rightarrow> fallback \<Rightarrow> fallback" where
  "fb_evict_if_full S f =
     (if RATE_LIMIT_FALLBACK_MAX_KEYS S < int (length (fb_counters f)) + int (length (fb_locks f))
      then \<lparr>fb_counters = [], fb_locks = []\<rparr> else f)"

definition fb_record_attempt ::
  "settings \<Rightarrow> time \<Rightarrow> string \<Rightarrow> string \<Rightarrow> int option \<Rightarrow> int option \<Rightarrow> fallback
     \<Rightarrow> fallback \<times> rate_limit_result" where
  "fb_record_attempt S now fail_key lock_key window_seconds max_attempts f =
     (let window = seconds (case window_seconds of Some w \<Rightarrow> w
                              | None \<Rightarrow> TS_FALLBACK_WINDOW_SECONDS (RATE_LIMIT S));
          maxa = (case max_attempts of Some m \<Rightarrow> m
                    | None \<Rightarrow> TS_FALLBACK_MAX_ATTEMPTS (RATE_LIMIT S));
          expires_at = map_of (fb_locks f) lock_key
      in if (case expires_at of None \<Rightarrow> False | Some x \<Rightarrow> now < x)
         then (f, \<lparr>res_locked = True, res_newly_locked = False,
                   res_count = (case map_of (fb_counters f) fail_key of None \<Rightarrow> 0 | Some (ws, c) \<Rightarrow> c)\<rparr>)
         else
           let f1 = (if expires_at \<noteq> None then f\<lparr>fb_locks := AList.delete lock_key (fb_locks f)\<rparr> else f);
               f2 = fb_evict_if_full S f1;
               (ws0, c0) = (case map_of (fb_counters f2) fail_key of None \<Rightarrow> (now, 0) | Some p \<Rightarrow> p);
               (ws, c) = (if window < now - ws0 then (now, 0) else (ws0, c0));
               count = c + 1;
               f3 = f2\<lparr>fb_counters := AList.update fail_key (ws, count) (fb_counters f2)\<rparr>
           in if maxa \<le> count
              then (f3\<lparr>fb_locks := AList.update lock_key (now + window) (fb_locks f3)\<rparr>,
                    \<lparr>res_locked = True, res_newly_locked = True, res_count = count\<rparr>)
              else (f3, \<lparr>res_locked = False, res_newly_locked = False, res_count = count\<rparr>))"

definition fb_is_locked :: "time \<Rightarrow> string \<Rightarrow> fallback \<Rightarrow> bool \<times> int" where
  "fb_is_locked now lock_key f =
     (case map_of (fb_locks f) lock_key of
        Some x \<Rightarrow> if now < x then (True, whole_seconds (x - now)) else (False, 0)
      | None \<Rightarrow> (False, 0))"

definition fb_clear :: "string list \<Rightarrow> fallback \<Rightarrow> fallback" where
  "fb_clear keys f = fold (\<lambda>k g. g\<lparr>fb_counters := AList.delete k (fb_counters g),
                                   fb_locks := AList.delete k (fb_locks g)\<rparr>) keys f"

lemma option_case_ex: "(case v of None \<Rightarrow> False | Some x \<Rightarrow> P x) \<longleftrightarrow> (\<exists>x. v = Some x \<and> P x)"
  by (cases v) auto

lemmas fb_record_attempt_alt = fb_record_attempt_def [unfolded option_case_ex]

subsection \<open>The module's operations\<close>

record 'r limiter =
  lim_redis :: 'r
  lim_fallback :: fallback
  lim_degraded :: nat

definition degrade :: "'r limiter \<Rightarrow> 'r limiter" where
  "degrade l = l\<lparr>lim_degraded := Suc (lim_degraded l)\<rparr>"

definition record_attempt ::
  "'r redis \<Rightarrow> settings \<Rightarrow> time \<Rightarrow> string \<Rightarrow> string \<Rightarrow> int \<Rightarrow> int \<Rightarrow> int \<Rightarrow> int option \<Rightarrow> int option
     \<Rightarrow> 'r limiter \<Rightarrow> 'r limiter \<times> rate_limit_result" where
  "record_attempt R S now fail_key lock_key window max_attempts lockout fb_window fb_max l =
     (if red_up R (lim_redis l)
      then let (r, locked, newly, count) =
                 incr_and_lock_script R now fail_key lock_key window max_attempts lockout (lim_redis l)
           in (l\<lparr>lim_redis := r\<rparr>,
               \<lparr>res_locked = (locked \<noteq> 0), res_newly_locked = (newly \<noteq> 0), res_count = count\<rparr>)
      else let (f, res) = fb_record_attempt S now fail_key lock_key fb_window fb_max (lim_fallback l)
           in ((degrade l)\<lparr>lim_fallback := f\<rparr>, res))"

definition is_locked :: "'r redis \<Rightarrow> time \<Rightarrow> string \<Rightarrow> 'r limiter \<Rightarrow> 'r limiter \<times> bool \<times> int" where
  "is_locked R now lock_key l =
     (if red_up R (lim_redis l)
      then let ttl = red_ttl R now (lim_redis l) lock_key
           in (l, if 0 < ttl then (True, ttl) else (False, 0))
      else (degrade l, fb_is_locked now lock_key (lim_fallback l)))"

definition clear :: "'r redis \<Rightarrow> time \<Rightarrow> string list \<Rightarrow> 'r limiter \<Rightarrow> 'r limiter" where
  "clear R now keys l =
     (let l1 = (if red_up R (lim_redis l) \<and> keys \<noteq> []
                then l\<lparr>lim_redis := red_delete R now (lim_redis l) keys\<rparr> else l)
      in l1\<lparr>lim_fallback := fb_clear keys (lim_fallback l1)\<rparr>)"

definition fb_bump_strikes :: "time \<Rightarrow> string \<Rightarrow> int \<Rightarrow> fallback \<Rightarrow> fallback \<times> int" where
  "fb_bump_strikes now strike_key ttl_seconds f =
     (let (ws0, c0) = (case map_of (fb_counters f) strike_key of None \<Rightarrow> (now, 0) | Some p \<Rightarrow> p);
          (ws, c) = (if seconds ttl_seconds < now - ws0 then (now, 0) else (ws0, c0))
      in (f\<lparr>fb_counters := AList.update strike_key (ws, c + 1) (fb_counters f)\<rparr>, c + 1))"

definition bump_strikes :: "'r redis \<Rightarrow> time \<Rightarrow> string \<Rightarrow> int \<Rightarrow> 'r limiter \<Rightarrow> 'r limiter \<times> int" where
  "bump_strikes R now strike_key ttl_seconds l =
     (if red_up R (lim_redis l)
      then let (r, n) = strike_script R now strike_key ttl_seconds (lim_redis l)
           in (l\<lparr>lim_redis := r\<rparr>, n)
      else let (f, n) = fb_bump_strikes now strike_key ttl_seconds (lim_fallback l)
           in ((degrade l)\<lparr>lim_fallback := f\<rparr>, n))"

definition set_lock_ttl :: "'r redis \<Rightarrow> time \<Rightarrow> string \<Rightarrow> int \<Rightarrow> 'r limiter \<Rightarrow> 'r limiter" where
  "set_lock_ttl R now lock_key ttl_seconds l =
     (if red_up R (lim_redis l)
      then l\<lparr>lim_redis := red_expire R now (lim_redis l) lock_key ttl_seconds\<rparr>
      else if map_of (fb_locks (lim_fallback l)) lock_key \<noteq> None
      then l\<lparr>lim_fallback := (lim_fallback l)\<lparr>fb_locks :=
              AList.update lock_key (now + seconds ttl_seconds) (fb_locks (lim_fallback l))\<rparr>\<rparr>
      else l)"

subsection \<open>The abstract counter cell\<close>

text \<open>
  A cell is a counter with the instant at which its window ends, and the instant at which
  its lock ends. \<open>fresh t d\<close> says that a window with deadline \<open>d\<close> still counts at
  \<open>t\<close>: Redis drops a key at its deadline, the fallback keeps the boundary instant.
\<close>

type_synonym cell = "(time \<times> int) option \<times> time option"

definition cell_norm :: "(time \<Rightarrow> time \<Rightarrow> bool) \<Rightarrow> time \<Rightarrow> cell \<Rightarrow> cell" where
  "cell_norm fresh t cl =
     (case fst cl of None \<Rightarrow> None | Some (d, n) \<Rightarrow> if fresh t d then Some (d, n) else None,
      case snd cl of None \<Rightarrow> None | Some x \<Rightarrow> if t < x then Some x else None)"

definition cell_step ::
  "(time \<Rightarrow> time \<Rightarrow> bool) \<Rightarrow> time \<Rightarrow> int \<Rightarrow> time \<Rightarrow> time \<Rightarrow> cell \<Rightarrow> cell \<times> rate_limit_result" where
  "cell_step fresh W M L t cl =
     (case cell_norm fresh t cl of
        (c, Some x) \<Rightarrow>
          ((c, Some x), \<lparr>res_locked = True, res_newly_locked = False,
                         res_count = (case c of None \<Rightarrow> 0 | Some (d, n) \<Rightarrow> n)\<rparr>)
      | (c, None) \<Rightarrow>
          let (d, n) = (case c of None \<Rightarrow> (t + W, 1) | Some (d, n) \<Rightarrow> (d, n + 1))
          in if M \<le> n
             then ((Some (d, n), Some (t + L)), \<lparr>res_locked = True, res_newly_locked = True, res_count = n\<rparr>)
             else ((Some (d, n), None), \<lparr>res_locked = False, res_newly_locked = False, res_count = n\<rparr>))"

text \<open>Two answers agree; the count of an answer "already locked" is not used by any caller.\<close>

definition same_verdict :: "rate_limit_result \<Rightarrow> rate_limit_result \<Rightarrow> bool" where
  "same_verdict a b \<longleftrightarrow>
     res_locked a = res_locked b \<and> res_newly_locked a = res_newly_locked b
   \<and> (res_newly_locked a \<or> \<not> res_locked a \<longrightarrow> res_count a = res_count b)"

fun run_attempts :: "(time \<Rightarrow> 's \<Rightarrow> 's \<times> rate_limit_result) \<Rightarrow> time list \<Rightarrow> 's \<Rightarrow> rate_limit_result list" where
  "run_attempts step [] s = []"
| "run_attempts step (t # ts) s = snd (step t s) # run_attempts step ts (fst (step t s))"

lemma same_verdict_refl [simp]: "same_verdict a a"
  by (simp add: same_verdict_def)

lemma cell_step_norm: "cell_step fresh W M L t cl = cell_step fresh W M L t cl'"
  if "cell_norm fresh t cl = cell_norm fresh t cl'"
  using that by (simp add: cell_step_def)

lemma cell_norm_idem:
  assumes "\<And>d. fresh t' d \<Longrightarrow> fresh t d" and "t \<le> t'"
  shows "cell_norm fresh t' (cell_norm fresh t cl) = cell_norm fresh t' cl"
  using assms by (auto simp: cell_norm_def split: option.splits)

text \<open>The i-th attempt of a window is refused exactly from the \<open>M\<close>-th on.\<close>

definition window_state :: "int \<Rightarrow> time \<Rightarrow> nat \<Rightarrow> cell \<Rightarrow> bool" where
  "window_state M d k cl \<longleftrightarrow>
     (\<exists>n. fst cl = Some (d, n) \<and> (if int k < M then n = int k \<and> snd cl = None else M \<le> n))"

lemma cell_step_window:
  assumes "window_state M d k cl" and "fresh t d"
  shows "window_state M d (Suc k) (fst (cell_step fresh W M L t cl))
       \<and> res_locked (snd (cell_step fresh W M L t cl)) = (M \<le> int (Suc k))"
  using assms
  by (auto simp: window_state_def cell_step_def cell_norm_def Let_def split: option.splits if_splits)

lemma cell_run_window:
  assumes "window_state M d k cl" and "\<forall>t \<in> set ts. fresh t d"
  shows "map res_locked (run_attempts (cell_step fresh W M L) ts cl)
       = map (\<lambda>i. M \<le> int i + 1) [k..<k + length ts]"
  using assms
proof (induction ts arbitrary: k cl)
  case (Cons t ts)
  have step: "window_state M d (Suc k) (fst (cell_step fresh W M L t cl))"
    "res_locked (snd (cell_step fresh W M L t cl)) = (M \<le> int k + 1)"
    using cell_step_window [of M d k cl fresh t W L] Cons.prems by auto
  have "map res_locked (run_attempts (cell_step fresh W M L) ts (fst (cell_step fresh W M L t cl)))
      = map (\<lambda>i. M \<le> int i + 1) [Suc k..<Suc k + length ts]"
    using Cons.IH [OF step(1)] Cons.prems(2) by simp
  then show ?case using step(2) by (simp add: upt_conv_Cons del: upt_Suc)
qed simp

lemma cell_run_fresh_start:
  assumes "cell_norm fresh t cl = (None, None)" and "\<forall>u \<in> set (t # ts). fresh u (t + W)"
  shows "map res_locked (run_attempts (cell_step fresh W M L) (t # ts) cl)
       = map (\<lambda>i. M \<le> int i + 1) [0..<Suc (length ts)]"
proof -
  have ws: "window_state M (t + W) (Suc 0) (fst (cell_step fresh W M L t cl))"
    and v: "res_locked (snd (cell_step fresh W M L t cl)) = (M \<le> 1)"
    using assms(1) by (auto simp: cell_step_def window_state_def)
  show ?thesis
    using cell_run_window [OF ws, of ts fresh W L] assms(2) v
    by (simp add: upt_conv_Cons del: upt_Suc)
qed

subsection \<open>Backends that refine the cell\<close>

locale cell_backend =
  fixes fresh :: "time \<Rightarrow> time \<Rightarrow> bool" and W :: time and M :: int and L :: time
    and inv :: "'s \<Rightarrow> bool" and cell :: "'s \<Rightarrow> cell"
    and attempt :: "time \<Rightarrow> 's \<Rightarrow> 's \<times> rate_limit_result"
  assumes fresh_mono: "t \<le> t' \<Longrightarrow> fresh t' d \<Longrightarrow> fresh t d"
    and inv_attempt: "inv s \<Longrightarrow> inv (fst (attempt t s))"
    and cell_attempt: "inv s \<Longrightarrow>
      cell_norm fresh t (cell (fst (attempt t s))) = cell_norm fresh t (fst (cell_step fresh W M L t (cell s)))"
    and attempt_verdict: "inv s \<Longrightarrow> same_verdict (snd (attempt t s)) (snd (cell_step fresh W M L t (cell s)))"
begin

lemma norm_later:
  "t \<le> t' \<Longrightarrow> cell_norm fresh t a = cell_norm fresh t b \<Longrightarrow> cell_norm fresh t' a = cell_norm fresh t' b"
  by (metis cell_norm_idem fresh_mono)

lemma run_refines:
  assumes "inv s" and "sorted (t # ts)" and "cell_norm fresh t (cell s) = cell_norm fresh t cl"
  shows "list_all2 same_verdict (run_attempts attempt ts s) (run_attempts (cell_step fresh W M L) ts cl)"
  using assms
proof (induction ts arbitrary: s cl t)
  case (Cons u ts)
  have eq: "cell_norm fresh u (cell s) = cell_norm fresh u cl"
    by (rule norm_later [of t u]) (use Cons.prems in auto)
  have st: "cell_step fresh W M L u (cell s) = cell_step fresh W M L u cl"
    by (rule cell_step_norm [OF eq])
  have "list_all2 same_verdict (run_attempts attempt ts (fst (attempt u s)))
          (run_attempts (cell_step fresh W M L) ts (fst (cell_step fresh W M L u cl)))"
    using Cons.IH [of "fst (attempt u s)" u] Cons.prems inv_attempt cell_attempt [of s u] st by simp
  then show ?case using attempt_verdict [of s u] Cons.prems(1) st by simp
qed simp

lemma verdicts_locked:
  "list_all2 same_verdict xs ys \<Longrightarrow> map res_locked xs = map res_locked ys"
  by (induction rule: list_all2_induct) (auto simp: same_verdict_def)

theorem window_verdicts:
  assumes "inv s" and "sorted (t # ts)" and "cell_norm fresh t (cell s) = (None, None)"
    and "\<forall>u \<in> set (t # ts). fresh u (t + W)"
  shows "map res_locked (run_attempts attempt (t # ts) s) = map (\<lambda>i. M \<le> int i + 1) [0..<Suc (length ts)]"
proof -
  have "sorted (t # t # ts)" using assms(2) by simp
  from run_refines [OF assms(1) this refl]
  have "map res_locked (run_attempts attempt (t # ts) s)
      = map res_locked (run_attempts (cell_step fresh W M L) (t # ts) (cell s))"
    by (rule verdicts_locked)
  also have "\<dots> = map (\<lambda>i. M \<le> int i + 1) [0..<Suc (length ts)]"
    by (rule cell_run_fresh_start [OF assms(3,4)])
  finally show ?thesis .
qed

end

subsection \<open>The fallback refines the cell\<close>

definition fb_window :: "settings \<Rightarrow> int option \<Rightarrow> time" where
  "fb_window S w = seconds (case w of Some w \<Rightarrow> w | None \<Rightarrow> TS_FALLBACK_WINDOW_SECONDS (RATE_LIMIT S))"

definition fb_max :: "settings \<Rightarrow> int option \<Rightarrow> int" where
  "fb_max S m = (case m of Some m \<Rightarrow> m | None \<Rightarrow> TS_FALLBACK_MAX_ATTEMPTS (RATE_LIMIT S))"

definition fb_cell :: "time \<Rightarrow> string \<Rightarrow> string \<Rightarrow> fallback \<Rightarrow> cell" where
  "fb_cell window fail_key lock_key f =
     (map_option (\<lambda>(ws, n). (ws + window, n)) (map_of (fb_counters f) fail_key),
      map_of (fb_locks f) lock_key)"

text \<open>
  Room for this pair of keys: the entries of all other keys leave two places below the
  bound, so that this pair never triggers the eviction that clears everything.
\<close>

definition others :: "string \<Rightarrow> (string \<times> 'v) list \<Rightarrow> nat" where
  "others k al = length (filter (\<lambda>p. fst p \<noteq> k) al)"

definition fb_room :: "settings \<Rightarrow> string \<Rightarrow> string \<Rightarrow> fallback \<Rightarrow> bool" where
  "fb_room S fail_key lock_key f \<longleftrightarrow>
     distinct (map fst (fb_counters f)) \<and> distinct (map fst (fb_locks f))
   \<and> int (others fail_key (fb_counters f)) + int (others lock_key (fb_locks f)) + 2
       \<le> RATE_LIMIT_FALLBACK_MAX_KEYS S"

lemma others_update [simp]: "others k (AList.update k v al) = others k al"
  by (induction al) (auto simp: others_def)

lemma others_delete [simp]: "others k (AList.delete k al) = others k al"
  by (induction al) (auto simp: others_def)

lemma length_le_others: "distinct (map fst al) \<Longrightarrow> length al \<le> Suc (others k al)"
proof (induction al)
  case (Cons p al)
  show ?case
  proof (cases "fst p = k")
    case True
    then have "\<forall>q \<in> set al. fst q \<noteq> k" using Cons.prems by (force simp: image_iff)
    then show ?thesis using True by (simp add: others_def)
  next
    case False
    then show ?thesis using Cons by (simp add: others_def)
  qed
qed (simp add: others_def)

lemma fb_room_no_eviction: "fb_room S fk lk f \<Longrightarrow> fb_evict_if_full S f = f"
  using length_le_others [of "fb_counters f" fk] length_le_others [of "fb_locks f" lk]
  by (auto simp: fb_room_def fb_evict_if_full_def)

lemma fb_room_delete_lock:
  "fb_room S fk lk f \<Longrightarrow> fb_room S fk lk (f\<lparr>fb_locks := AList.delete lk (fb_locks f)\<rparr>)"
  by (simp add: fb_room_def distinct_delete)

lemma fb_room_attempt: "fb_room S fk lk f \<Longrightarrow> fb_room S fk lk (fst (fb_record_attempt S t fk lk w m f))"
  using fb_room_no_eviction [OF fb_room_delete_lock, of S fk lk f] fb_room_no_eviction [of S fk lk f]
  by (auto simp: fb_record_attempt_alt fb_room_def Let_def distinct_update distinct_delete
      split: prod.splits option.splits)

lemmas map_of_update = update_conv'

lemma fb_attempt_locked:
  "map_of (fb_locks f) lk = Some x \<Longrightarrow> t < x \<Longrightarrow>
   fst (fb_record_attempt S t fk lk w m f) = f
   \<and> res_locked (snd (fb_record_attempt S t fk lk w m f)) \<and> \<not> res_newly_locked (snd (fb_record_attempt S t fk lk w m f))"
  by (simp add: fb_record_attempt_alt Let_def)

text \<open>The counter an attempt starts from, in the fallback and in the cell.\<close>

definition fb_start :: "time \<Rightarrow> time \<Rightarrow> string \<Rightarrow> fallback \<Rightarrow> time \<times> int" where
  "fb_start window t fk f =
     (case map_of (fb_counters f) fk of None \<Rightarrow> (t, 0)
      | Some (ws, c) \<Rightarrow> if window < t - ws then (t, 0) else (ws, c))"

lemma fb_attempt_open:
  assumes "fb_room S fk lk f" and "\<And>x. map_of (fb_locks f) lk = Some x \<Longrightarrow> \<not> t < x"
    and "fb_start (fb_window S w) t fk f = (ws, c)"
  shows "map_of (fb_counters (fst (fb_record_attempt S t fk lk w m f))) fk = Some (ws, c + 1)"
    and "map_of (fb_locks (fst (fb_record_attempt S t fk lk w m f))) lk
       = (if fb_max S m \<le> c + 1 then Some (t + fb_window S w) else None)"
    and "snd (fb_record_attempt S t fk lk w m f)
       = \<lparr>res_locked = fb_max S m \<le> c + 1, res_newly_locked = fb_max S m \<le> c + 1, res_count = c + 1\<rparr>"
proof -
  show "map_of (fb_counters (fst (fb_record_attempt S t fk lk w m f))) fk = Some (ws, c + 1)"
    using assms fb_room_no_eviction [OF fb_room_delete_lock [OF assms(1)]] fb_room_no_eviction [OF assms(1)]
    by (cases "map_of (fb_locks f) lk"; cases "map_of (fb_counters f) fk")
       (auto simp: fb_record_attempt_alt fb_start_def fb_window_def Let_def map_of_update split: if_splits)
  show "map_of (fb_locks (fst (fb_record_attempt S t fk lk w m f))) lk
       = (if fb_max S m \<le> c + 1 then Some (t + fb_window S w) else None)"
    using assms fb_room_no_eviction [OF fb_room_delete_lock [OF assms(1)]] fb_room_no_eviction [OF assms(1)]
    by (cases "map_of (fb_locks f) lk"; cases "map_of (fb_counters f) fk")
       (auto simp: fb_record_attempt_alt fb_start_def fb_window_def fb_max_def Let_def map_of_update
          delete_conv' split: if_splits)
  show "snd (fb_record_attempt S t fk lk w m f)
       = \<lparr>res_locked = fb_max S m \<le> c + 1, res_newly_locked = fb_max S m \<le> c + 1, res_count = c + 1\<rparr>"
    using assms fb_room_no_eviction [OF fb_room_delete_lock [OF assms(1)]] fb_room_no_eviction [OF assms(1)]
    by (cases "map_of (fb_locks f) lk"; cases "map_of (fb_counters f) fk")
       (auto simp: fb_record_attempt_alt fb_start_def fb_window_def fb_max_def Let_def split: if_splits)
qed

lemma cell_open:
  assumes "\<And>x. map_of (fb_locks f) lk = Some x \<Longrightarrow> \<not> t < x" and "fb_start W t fk f = (ws, c)"
  shows "cell_step (\<le>) W M L t (fb_cell W fk lk f)
       = (if M \<le> c + 1
          then ((Some (ws + W, c + 1), Some (t + L)), \<lparr>res_locked = True, res_newly_locked = True, res_count = c + 1\<rparr>)
          else ((Some (ws + W, c + 1), None), \<lparr>res_locked = False, res_newly_locked = False, res_count = c + 1\<rparr>))"
  using assms
  by (cases "map_of (fb_locks f) lk"; cases "map_of (fb_counters f) fk")
     (auto simp: cell_step_def cell_norm_def fb_cell_def fb_start_def split: if_splits)

lemma fb_attempt_refines:
  assumes room: "fb_room S fk lk f"
  shows "cell_norm (\<le>) t (fb_cell (fb_window S w) fk lk (fst (fb_record_attempt S t fk lk w m f)))
       = cell_norm (\<le>) t (fst (cell_step (\<le>) (fb_window S w) (fb_max S m) (fb_window S w) t (fb_cell (fb_window S w) fk lk f)))
     \<and> same_verdict (snd (fb_record_attempt S t fk lk w m f))
       (snd (cell_step (\<le>) (fb_window S w) (fb_max S m) (fb_window S w) t (fb_cell (fb_window S w) fk lk f)))"
proof (cases "\<exists>x. map_of (fb_locks f) lk = Some x \<and> t < x")
  case True
  then obtain x where x: "map_of (fb_locks f) lk = Some x" "t < x" by blast
  let ?n = "cell_norm (\<le>) t (fb_cell (fb_window S w) fk lk f)"
  have "snd ?n = Some x" using x by (simp add: cell_norm_def fb_cell_def)
  then have "cell_step (\<le>) (fb_window S w) (fb_max S m) (fb_window S w) t (fb_cell (fb_window S w) fk lk f)
     = (?n, \<lparr>res_locked = True, res_newly_locked = False,
             res_count = (case fst ?n of None \<Rightarrow> 0 | Some (d, n) \<Rightarrow> n)\<rparr>)"
    by (cases ?n) (simp add: cell_step_def)
  moreover have "cell_norm (\<le>) t ?n = ?n" by (rule cell_norm_idem) auto
  ultimately show ?thesis using fb_attempt_locked [OF x, of S fk w m] by (simp add: same_verdict_def)
next
  case False
  obtain ws c where st: "fb_start (fb_window S w) t fk f = (ws, c)" by force
  have nl: "\<And>x. map_of (fb_locks f) lk = Some x \<Longrightarrow> \<not> t < x" using False by auto
  show ?thesis
    using fb_attempt_open [OF room nl st, of m]
    by (simp add: cell_open [OF nl st]) (simp add: fb_cell_def)
qed

interpretation fb: cell_backend "(\<le>)" "fb_window S w" "fb_max S m" "fb_window S w"
    "fb_room S fk lk" "fb_cell (fb_window S w) fk lk" "\<lambda>t. fb_record_attempt S t fk lk w m"
  for S w m fk lk
  by unfold_locales (auto simp: fb_room_attempt fb_attempt_refines)

subsection \<open>Redis refines the cell\<close>

definition alive :: "time \<Rightarrow> time option \<Rightarrow> bool" where
  "alive t e = (case e of None \<Rightarrow> True | Some x \<Rightarrow> t < x)"

definition live_entry :: "('r \<Rightarrow> string \<Rightarrow> (int \<times> time option) option) \<Rightarrow> time \<Rightarrow> 'r \<Rightarrow> string \<Rightarrow> (int \<times> time option) option" where
  "live_entry entry t r k = (case entry r k of None \<Rightarrow> None | Some (v, e) \<Rightarrow> if alive t e then Some (v, e) else None)"

text \<open>
  The documented behaviour of the commands, over the stored entries (a number and the
  instant at which it expires): a key past its expiry is absent; INCR creates a key at 1
  without an expiry and keeps the expiry of an existing one; EXPIRE sets the expiry of an
  existing key; SET EX overwrites; DEL removes; TTL is the remaining time to within a
  second, and negative for an absent key.
\<close>

locale redis_store =
  fixes R :: "'r redis" and entry :: "'r \<Rightarrow> string \<Rightarrow> (int \<times> time option) option"
  assumes exists: "red_exists R t r k \<longleftrightarrow> live_entry entry t r k \<noteq> None"
    and get: "red_get R t r k = map_option fst (live_entry entry t r k)"
    and incr: "red_incr R t r k = (r', n) \<Longrightarrow>
      (case live_entry entry t r k of
         None \<Rightarrow> n = 1 \<and> entry r' = (entry r)(k \<mapsto> (1, None))
       | Some (v, e) \<Rightarrow> n = v + 1 \<and> entry r' = (entry r)(k \<mapsto> (v + 1, e)))"
    and expire: "0 < n \<Longrightarrow> entry (red_expire R t r k n) =
      (case live_entry entry t r k of
         None \<Rightarrow> entry r | Some (v, e) \<Rightarrow> (entry r)(k \<mapsto> (v, Some (t + seconds n))))"
    and set_ex: "0 < n \<Longrightarrow> entry (red_set_ex R t r k v n) = (entry r)(k \<mapsto> (v, Some (t + seconds n)))"
    and delete: "entry (red_delete R t r ks) = (\<lambda>k. if k \<in> set ks then None else entry r k)"
    and ttl: "live_entry entry t r k = Some (v, Some x) \<Longrightarrow> x - t < seconds (red_ttl R t r k + 1)"
    and ttl_absent: "live_entry entry t r k = None \<Longrightarrow> red_ttl R t r k < 0"
    and up_incr: "red_up R (fst (red_incr R t r k)) = red_up R r"
    and up_expire: "red_up R (red_expire R t r k n) = red_up R r"
    and up_set_ex: "red_up R (red_set_ex R t r k v n) = red_up R r"
    and up_delete: "red_up R (red_delete R t r ks) = red_up R r"
begin

lemma locked_for_a_second:
  assumes "live_entry entry t r k = Some (v, Some x)" and "t + seconds 1 \<le> x"
  shows "0 < red_ttl R t r k"
  using ttl [OF assms(1)] assms(2) by (simp add: seconds_def)

lemma locked_is_live: "0 < red_ttl R t r k \<Longrightarrow> live_entry entry t r k \<noteq> None"
  using ttl_absent by fastforce

end

locale redis_cell = redis_store R entry
  for R :: "'r redis" and entry :: "'r \<Rightarrow> string \<Rightarrow> (int \<times> time option) option" +
  fixes fk lk :: string and window maxa lockout :: int
  assumes keys: "fk \<noteq> lk" and pos: "0 < window" "0 < lockout"
begin

definition cell_of :: "'r \<Rightarrow> cell" where
  "cell_of r = (case entry r fk of Some (v, Some x) \<Rightarrow> Some (x, v) | _ \<Rightarrow> None,
                case entry r lk of Some (v, Some x) \<Rightarrow> Some x | _ \<Rightarrow> None)"

definition cell_inv :: "'r \<Rightarrow> bool" where
  "cell_inv r \<longleftrightarrow> (\<forall>v e. entry r fk = Some (v, e) \<longrightarrow> e \<noteq> None \<and> 1 \<le> v) \<and> (\<forall>v e. entry r lk = Some (v, e) \<longrightarrow> e \<noteq> None)"

definition script_attempt :: "time \<Rightarrow> 'r \<Rightarrow> 'r \<times> rate_limit_result" where
  "script_attempt t r =
     (let (r', l, nl, c) = incr_and_lock_script R t fk lk window maxa lockout r
      in (r', \<lparr>res_locked = (l \<noteq> 0), res_newly_locked = (nl \<noteq> 0), res_count = c\<rparr>))"

lemma script_locked:
  assumes "cell_inv r" and "live_entry entry t r lk \<noteq> None"
  shows "fst (script_attempt t r) = r \<and> res_locked (snd (script_attempt t r))
       \<and> \<not> res_newly_locked (snd (script_attempt t r))"
  using assms by (simp add: script_attempt_def incr_and_lock_script_def exists)

text \<open>The entry of the counter after an increment of an unlocked cell.\<close>

lemma script_open:
  assumes inv: "cell_inv r" and free: "live_entry entry t r lk = None"
    and st: "(case live_entry entry t r fk of Some (v, Some x) \<Rightarrow> (x, v) | _ \<Rightarrow> (t + seconds window, 0)) = (d, c)"
  shows "entry (fst (script_attempt t r)) fk = Some (c + 1, Some d)"
    and "entry (fst (script_attempt t r)) lk
       = (if maxa \<le> c + 1 then Some (1, Some (t + seconds lockout)) else entry r lk)"
    and "snd (script_attempt t r)
       = \<lparr>res_locked = maxa \<le> c + 1, res_newly_locked = maxa \<le> c + 1, res_count = c + 1\<rparr>"
proof -
  obtain r1 n where i: "red_incr R t r fk = (r1, n)" by force
  define r2 where "r2 = (if n = 1 then red_expire R t r1 fk window else r1)"
  have r2: "n = c + 1 \<and> entry r2 = (entry r)(fk \<mapsto> (c + 1, Some d))"
  proof (cases "live_entry entry t r fk")
    case None
    then have "n = 1" "entry r1 = (entry r)(fk \<mapsto> (1, None))" using incr [OF i] by simp_all
    then have "entry r2 = (entry r)(fk \<mapsto> (1, Some (t + seconds window)))"
      using pos by (simp add: r2_def expire live_entry_def alive_def)
    then show ?thesis using None st \<open>n = 1\<close> by simp
  next
    case (Some p)
    then obtain v x where p: "live_entry entry t r fk = Some (v, Some x)" "1 \<le> v"
      using inv by (auto simp: cell_inv_def live_entry_def split: option.splits prod.splits if_splits)
    then show ?thesis using incr [OF i] st by (auto simp: r2_def)
  qed
  have "script_attempt t r =
     (if maxa \<le> n
      then (red_set_ex R t r2 lk 1 lockout, \<lparr>res_locked = True, res_newly_locked = True, res_count = n\<rparr>)
      else (r2, \<lparr>res_locked = False, res_newly_locked = False, res_count = n\<rparr>))"
    using free by (simp add: script_attempt_def incr_and_lock_script_def exists i r2_def Let_def)
  then show "entry (fst (script_attempt t r)) fk = Some (c + 1, Some d)"
    "entry (fst (script_attempt t r)) lk
       = (if maxa \<le> c + 1 then Some (1, Some (t + seconds lockout)) else entry r lk)"
    "snd (script_attempt t r)
       = \<lparr>res_locked = maxa \<le> c + 1, res_newly_locked = maxa \<le> c + 1, res_count = c + 1\<rparr>"
    using r2 keys pos by (simp_all add: set_ex)
qed

lemma script_inv: "cell_inv r \<Longrightarrow> cell_inv (fst (script_attempt t r))"
proof (cases "live_entry entry t r lk")
  case None
  assume inv: "cell_inv r"
  obtain d c where st: "(case live_entry entry t r fk of Some (v, Some x) \<Rightarrow> (x, v) | _ \<Rightarrow> (t + seconds window, 0)) = (d, c)"
    by force
  then have "0 \<le> c" using inv
    by (force simp: cell_inv_def live_entry_def split: option.splits prod.splits if_splits)
  then show ?thesis using inv script_open [OF inv None st]
    by (auto simp: cell_inv_def split: if_splits)
next
  case Some
  assume "cell_inv r"
  then show ?thesis using script_locked [of r t] Some by simp
qed

lemma cell_norm_live:
  "cell_inv r \<Longrightarrow> cell_norm (<) t (cell_of r) =
     (case live_entry entry t r fk of Some (v, Some x) \<Rightarrow> Some (x, v) | _ \<Rightarrow> None,
      case live_entry entry t r lk of Some (v, Some x) \<Rightarrow> Some x | _ \<Rightarrow> None)"
  by (auto simp: cell_norm_def cell_of_def live_entry_def alive_def split: option.splits)

lemma script_refines:
  assumes inv: "cell_inv r"
  shows "cell_norm (<) t (cell_of (fst (script_attempt t r)))
       = cell_norm (<) t (fst (cell_step (<) (seconds window) maxa (seconds lockout) t (cell_of r)))
     \<and> same_verdict (snd (script_attempt t r))
         (snd (cell_step (<) (seconds window) maxa (seconds lockout) t (cell_of r)))"
proof (cases "live_entry entry t r lk")
  case (Some p)
  then obtain v x where p: "live_entry entry t r lk = Some (v, Some x)"
    using inv by (auto simp: cell_inv_def live_entry_def split: option.splits prod.splits if_splits)
  let ?n = "cell_norm (<) t (cell_of r)"
  have "snd ?n = Some x" using p by (simp add: cell_norm_live [OF inv])
  then have "cell_step (<) (seconds window) maxa (seconds lockout) t (cell_of r)
     = (?n, \<lparr>res_locked = True, res_newly_locked = False,
             res_count = (case fst ?n of None \<Rightarrow> 0 | Some (d, n) \<Rightarrow> n)\<rparr>)"
    by (cases ?n) (simp add: cell_step_def)
  moreover have "cell_norm (<) t ?n = ?n" by (rule cell_norm_idem) auto
  ultimately show ?thesis using script_locked [OF inv, of t] Some by (simp add: same_verdict_def)
next
  case None
  obtain d c where st: "(case live_entry entry t r fk of Some (v, Some x) \<Rightarrow> (x, v) | _ \<Rightarrow> (t + seconds window, 0)) = (d, c)"
    by force
  have step: "cell_step (<) (seconds window) maxa (seconds lockout) t (cell_of r)
    = (if maxa \<le> c + 1
       then ((Some (d, c + 1), Some (t + seconds lockout)), \<lparr>res_locked = True, res_newly_locked = True, res_count = c + 1\<rparr>)
       else ((Some (d, c + 1), None), \<lparr>res_locked = False, res_newly_locked = False, res_count = c + 1\<rparr>))"
    using None st by (auto simp: cell_step_def cell_norm_live [OF inv] Let_def split: option.splits prod.splits)
  have "snd (cell_norm (<) t (cell_of r)) = None" using None by (simp add: cell_norm_live [OF inv])
  then have dead: "cell_norm (<) t (x, snd (cell_of r)) = cell_norm (<) t (x, None)" for x
    by (simp add: cell_norm_def)
  have "cell_of (fst (script_attempt t r))
      = (Some (d, c + 1), if maxa \<le> c + 1 then Some (t + seconds lockout) else snd (cell_of r))"
    using script_open [OF inv None st] by (simp add: cell_of_def)
  then show ?thesis
    unfolding step script_open(3) [OF inv None st] by (simp add: dead)
qed

end

sublocale redis_cell \<subseteq> cell_backend "(<)" "seconds window" maxa "seconds lockout" cell_inv cell_of script_attempt
  by unfold_locales (auto simp: script_inv script_refines)

subsection \<open>A reference store\<close>

text \<open>
  An expiring key-value store with the documented behaviour, in which the hypotheses on
  Redis can be evaluated: a flag for reachability and the stored entries.
\<close>

type_synonym kv = "bool \<times> (string \<times> (int \<times> time option)) list"

definition kv_entry :: "kv \<Rightarrow> string \<Rightarrow> (int \<times> time option) option" where
  "kv_entry r = map_of (snd r)"

definition kv_put :: "string \<Rightarrow> int \<times> time option \<Rightarrow> kv \<Rightarrow> kv" where
  "kv_put k e r = (fst r, AList.update k e (snd r))"

definition kv_redis :: "kv redis" where
  "kv_redis = \<lparr>red_up = fst,
     red_exists = (\<lambda>t r k. live_entry kv_entry t r k \<noteq> None),
     red_get = (\<lambda>t r k. map_option fst (live_entry kv_entry t r k)),
     red_incr = (\<lambda>t r k. case live_entry kv_entry t r k of
        None \<Rightarrow> (kv_put k (1, None) r, 1) | Some (v, e) \<Rightarrow> (kv_put k (v + 1, e) r, v + 1)),
     red_expire = (\<lambda>t r k n. case live_entry kv_entry t r k of
        None \<Rightarrow> r | Some (v, e) \<Rightarrow> kv_put k (v, Some (t + seconds n)) r),
     red_set_ex = (\<lambda>t r k v n. kv_put k (v, Some (t + seconds n)) r),
     red_ttl = (\<lambda>t r k. case live_entry kv_entry t r k of
        None \<Rightarrow> -2 | Some (v, None) \<Rightarrow> -1 | Some (v, Some x) \<Rightarrow> whole_seconds (x - t)),
     red_delete = (\<lambda>t r ks. (fst r, filter (\<lambda>p. fst p \<notin> set ks) (snd r)))\<rparr>"

lemma kv_entry_put [simp]: "kv_entry (kv_put k e r) = (kv_entry r)(k \<mapsto> e)"
  by (simp add: kv_entry_def kv_put_def update_conv')

lemma map_of_filter_keys: "map_of (filter (\<lambda>p. fst p \<notin> K) al) = (\<lambda>k. if k \<in> K then None else map_of al k)"
  by (induction al) auto

interpretation kv: redis_store kv_redis kv_entry
proof unfold_locales
  fix t :: time and r k v x
  assume "live_entry kv_entry t r k = Some (v, Some x)"
  then show "x - t < seconds (red_ttl kv_redis t r k + 1)"
    by (simp add: kv_redis_def whole_seconds_def seconds_def)
qed (auto simp: kv_redis_def kv_put_def map_of_filter_keys kv_entry_def update_conv' split: option.splits prod.splits if_splits)

subsection \<open>Lifting to the module's operations\<close>

lemma run_attempts_proj:
  assumes "\<And>s t. P s \<Longrightarrow> P (fst (step t s)) \<and> proj (fst (step t s)) = fst (step' t (proj s)) \<and> snd (step t s) = snd (step' t (proj s))"
    and "P s"
  shows "run_attempts step ts s = run_attempts step' ts (proj s)"
  using assms(2)
proof (induction ts arbitrary: s)
  case (Cons t ts)
  then show ?case using assms(1) [of s t] by simp
qed simp

lemma record_attempt_down:
  assumes "\<not> red_up R (lim_redis l)"
  shows "lim_redis (fst (record_attempt R S t fk lk w m lo fw fm l)) = lim_redis l"
    and "lim_fallback (fst (record_attempt R S t fk lk w m lo fw fm l)) = fst (fb_record_attempt S t fk lk fw fm (lim_fallback l))"
    and "snd (record_attempt R S t fk lk w m lo fw fm l) = snd (fb_record_attempt S t fk lk fw fm (lim_fallback l))"
  using assms by (simp_all add: record_attempt_def degrade_def Let_def split: prod.splits)

lemma run_down:
  "\<not> red_up R (lim_redis l) \<Longrightarrow>
   run_attempts (\<lambda>t. record_attempt R S t fk lk w m lo fw fm) ts l
     = run_attempts (\<lambda>t. fb_record_attempt S t fk lk fw fm) ts (lim_fallback l)"
  by (rule run_attempts_proj [where P = "\<lambda>l. \<not> red_up R (lim_redis l)"]) (simp_all add: record_attempt_down)

context redis_cell
begin

lemma up_script: "red_up R (fst (script_attempt t r)) = red_up R r"
  using up_incr [of t r fk]
  by (auto simp: script_attempt_def incr_and_lock_script_def up_expire up_set_ex Let_def split: prod.splits)

lemma record_attempt_up:
  assumes "red_up R (lim_redis l)"
  shows "lim_redis (fst (record_attempt R S t fk lk window maxa lockout fw fm l)) = fst (script_attempt t (lim_redis l))"
    and "snd (record_attempt R S t fk lk window maxa lockout fw fm l) = snd (script_attempt t (lim_redis l))"
  using assms by (simp_all add: record_attempt_def script_attempt_def Let_def split: prod.splits)

lemmas script_window_verdicts = window_verdicts

lemma run_up:
  "red_up R (lim_redis l) \<Longrightarrow>
   run_attempts (\<lambda>t. record_attempt R S t fk lk window maxa lockout fw fm) ts l
     = run_attempts script_attempt ts (lim_redis l)"
  by (rule run_attempts_proj [where P = "\<lambda>l. red_up R (lim_redis l)"])
     (simp_all add: record_attempt_up up_script)

end

lemma redis_cellI:
  "redis_store R entry \<Longrightarrow> fk \<noteq> lk \<Longrightarrow> 0 < window \<Longrightarrow> 0 < lockout \<Longrightarrow> redis_cell R entry fk lk window lockout"
  by (simp add: redis_cell_def redis_cell_axioms_def)

subsection \<open>Properties\<close>

text \<open>
  C33. The Redis-backed limiter. Over any Redis store with the documented command behaviour,
  starting with neither the counter nor the lock stored, the i-th attempt of a window is
  reported locked exactly when i has reached \<open>max_attempts\<close>, whatever the moments of the
  attempts within the window and whether or not the lock runs out before the window does.
\<close>

theorem redis_window_verdicts:
  assumes "redis_store R entry" and "fail_key \<noteq> lock_key" and "0 < window" and "0 < lockout"
    and "red_up R (lim_redis l)" and "entry (lim_redis l) fail_key = None" and "entry (lim_redis l) lock_key = None"
    and "sorted (t # ts)" and "\<forall>u \<in> set (t # ts). u < t + seconds window"
  shows "map res_locked (run_attempts (\<lambda>t. record_attempt R S t fail_key lock_key window max_attempts lockout fw fm) (t # ts) l)
       = map (\<lambda>i. max_attempts \<le> int i + 1) [0..<Suc (length ts)]"
proof -
  note rc = redis_cellI [OF assms(1-4)]
  have "redis_cell.cell_inv entry fail_key lock_key (lim_redis l)"
    and "cell_norm (<) t (redis_cell.cell_of entry fail_key lock_key (lim_redis l)) = (None, None)"
    using assms(6,7) by (simp_all add: redis_cell.cell_inv_def [OF rc] redis_cell.cell_of_def [OF rc] cell_norm_def)
  from redis_cell.script_window_verdicts [OF rc this(1) assms(8) this(2) assms(9), of max_attempts]
  show ?thesis by (simp only: redis_cell.run_up [OF rc assms(5)])
qed

theorem redis_window_verdicts_witness:
  "map res_locked (run_attempts (\<lambda>t. record_attempt kv_redis default_settings t ''f'' ''k'' 900 2 60 None None)
      [0, 5, 7] \<lparr>lim_redis = (True, []), lim_fallback = fb_init, lim_degraded = 0\<rparr>)
   = map (\<lambda>i. 2 \<le> int i + 1) [0..<Suc (length [5 :: time, 7])]"
  by (rule redis_window_verdicts [OF kv.redis_store_axioms])
     (simp_all add: kv_redis_def kv_entry_def seconds_def)

text \<open>
  Property. The in-process fallback. While Redis is unreachable, and as long as the other entries
  leave room below \<open>RATE_LIMIT_FALLBACK_MAX_KEYS\<close>, the same holds for the fallback counter with
  the fallback's own window and threshold: the i-th attempt of a window is reported locked
  exactly when i has reached the threshold.
\<close>

theorem fallback_window_verdicts:
  assumes "\<not> red_up R (lim_redis l)" and "fb_room S fail_key lock_key (lim_fallback l)"
    and "map_of (fb_counters (lim_fallback l)) fail_key = None" and "map_of (fb_locks (lim_fallback l)) lock_key = None"
    and "sorted (t # ts)" and "\<forall>u \<in> set (t # ts). u \<le> t + fb_window S fw"
  shows "map res_locked (run_attempts (\<lambda>t. record_attempt R S t fail_key lock_key window max_attempts lockout fw fm) (t # ts) l)
       = map (\<lambda>i. fb_max S fm \<le> int i + 1) [0..<Suc (length ts)]"
proof -
  have "cell_norm (\<le>) t (fb_cell (fb_window S fw) fail_key lock_key (lim_fallback l)) = (None, None)"
    using assms(3,4) by (simp add: fb_cell_def cell_norm_def)
  from fb.window_verdicts [OF assms(2) assms(5) this assms(6)]
  show ?thesis by (simp only: run_down [OF assms(1)])
qed

theorem fallback_window_verdicts_witness:
  "map res_locked (run_attempts (\<lambda>t. record_attempt kv_redis default_settings t ''f'' ''k'' 900 10 900 None (Some 2))
      [0, 5, 7] \<lparr>lim_redis = (False, []), lim_fallback = fb_init, lim_degraded = 0\<rparr>)
   = map (\<lambda>i. fb_max default_settings (Some 2) \<le> int i + 1) [0..<Suc (length [5 :: time, 7])]"
  by (rule fallback_window_verdicts)
     (simp_all add: kv_redis_def fb_room_def fb_init_def others_def fb_window_def default_settings_def
        default_rate_limit_def seconds_def)

lemma is_locked_up: "red_up R (lim_redis l) \<Longrightarrow> fst (snd (is_locked R t k l)) = (0 < red_ttl R t (lim_redis l) k)"
  by (simp add: is_locked_def Let_def)

lemma is_locked_down:
  "\<not> red_up R (lim_redis l) \<Longrightarrow>
   fst (snd (is_locked R t k l)) = (\<exists>x. map_of (fb_locks (lim_fallback l)) k = Some x \<and> t < x)"
  by (simp add: is_locked_def fb_is_locked_def split: option.splits)

context redis_cell
begin

lemma newly_locked_entry:
  assumes "cell_inv r" and "res_newly_locked (snd (script_attempt t r))"
  shows "entry (fst (script_attempt t r)) lk = Some (1, Some (t + seconds lockout))"
proof -
  have free: "live_entry entry t r lk = None"
    using script_locked [OF assms(1), of t] assms(2) by blast
  obtain d c where st: "(case live_entry entry t r fk of Some (v, Some x) \<Rightarrow> (x, v) | _ \<Rightarrow> (t + seconds window, 0)) = (d, c)"
    by force
  show ?thesis using script_open [OF assms(1) free st] assms(2) by simp
qed

end

lemma fb_newly_locked:
  "res_newly_locked (snd (fb_record_attempt S t fk lk fw fm f)) \<Longrightarrow>
   map_of (fb_locks (fst (fb_record_attempt S t fk lk fw fm f))) lk = Some (t + fb_window S fw)"
  by (auto simp: fb_record_attempt_alt fb_window_def Let_def map_of_update split: prod.splits if_splits)

text \<open>
  Property. Lock-out lasts. An attempt that newly locks the key pair at time t leaves it locked, as
  \<open>is_locked\<close> reports it, at every later moment up to a second before the lock-out time has
  passed with Redis (whose TTL is in whole seconds), and at every moment before the window
  has passed with the fallback.
\<close>

theorem newly_locked_stays_locked:
  assumes "redis_store R entry" and "fail_key \<noteq> lock_key" and "0 < window" and "0 < lockout"
    and "\<forall>v e. entry (lim_redis l) fail_key = Some (v, e) \<longrightarrow> e \<noteq> None \<and> 1 \<le> v"
    and "\<forall>v e. entry (lim_redis l) lock_key = Some (v, e) \<longrightarrow> e \<noteq> None"
    and newly: "res_newly_locked (snd (record_attempt R S t fail_key lock_key window max_attempts lockout fw fm l))"
    and later: "t \<le> u" "if red_up R (lim_redis l) then u + seconds 1 \<le> t + seconds lockout else u < t + fb_window S fw"
  shows "fst (snd (is_locked R u lock_key (fst (record_attempt R S t fail_key lock_key window max_attempts lockout fw fm l))))"
proof (cases "red_up R (lim_redis l)")
  case True
  note rc = redis_cellI [OF assms(1-4)]
  let ?l = "fst (record_attempt R S t fail_key lock_key window max_attempts lockout fw fm l)"
  have inv: "redis_cell.cell_inv entry fail_key lock_key (lim_redis l)"
    using assms(5,6) by (simp add: redis_cell.cell_inv_def [OF rc])
  have e: "entry (lim_redis ?l) lock_key = Some (1, Some (t + seconds lockout))"
    using redis_cell.newly_locked_entry [OF rc inv] newly
    by (simp add: redis_cell.record_attempt_up [OF rc True])
  have "u < t + seconds lockout"
    using later(2) True by (simp add: seconds_def)
  then have "live_entry entry u (lim_redis ?l) lock_key = Some (1, Some (t + seconds lockout))"
    using e by (simp add: live_entry_def alive_def)
  moreover have "red_up R (lim_redis ?l)"
    using True by (simp add: redis_cell.record_attempt_up [OF rc True] redis_cell.up_script [OF rc])
  ultimately show ?thesis
    using later(2) True redis_store.locked_for_a_second [OF assms(1)] by (simp add: is_locked_up)
next
  case False
  then show ?thesis
    using newly later(2) by (simp add: is_locked_down record_attempt_down fb_newly_locked)
qed

theorem newly_locked_stays_locked_witness:
  "fst (snd (is_locked kv_redis 5000000 ''k'' (fst (record_attempt kv_redis default_settings 0 ''f'' ''k'' 900 1 900 None None
      \<lparr>lim_redis = (True, []), lim_fallback = fb_init, lim_degraded = 0\<rparr>))))"
  by (rule newly_locked_stays_locked [OF kv.redis_store_axioms])
     (simp_all add: kv_redis_def kv_entry_def kv_put_def seconds_def record_attempt_def incr_and_lock_script_def
        live_entry_def alive_def)

end
