(* ===== verification/Session_Service.thy ===== *)
theory Session_Service
  imports Jwt_Tokens Rate_Limiting
begin

text \<open>
  \<open>app/services/session_service.py\<close> (the rows of \<open>user_sessions\<close>) and
  \<open>app/core/token_revocation.py\<close> (the blacklist of access tokens in Redis and the check
  every authenticated request makes). \<open>session_id\<close> is unique, so the row an operation
  loads is the row of that id. The query \<open>User.id == sub\<close> compares the textual claim
  with the decimal form of the key.

  The theory shows that revocation of a session is final, how the status a session is
  reported with follows from its row and the timeouts, and when a revoked access token is
  refused.
\<close>

subsection \<open>Session rows\<close>

definition session_create ::
  "time \<Rightarrow> string \<Rightarrow> int \<Rightarrow> int option \<Rightarrow> json \<Rightarrow> string option \<Rightarrow> bool \<Rightarrow> time \<Rightarrow> string option \<Rightarrow> string option
     \<Rightarrow> saml_context \<Rightarrow> db \<Rightarrow> db" where
  "session_create now session_id user_id org org_role auth_method mfa_verified expires_at client_ip user_agent sc s =
     s\<lparr>user_sessions := user_sessions s @
       [\<lparr>us_id = next_id us_id (user_sessions s), us_session_id = session_id, us_user_id = user_id, us_organization_id = org,
         us_org_role = org_role, us_auth_method = auth_method, us_mfa_verified = mfa_verified, us_status = ''active'',
         us_created_at = now, us_last_activity_at = now, us_expires_at = expires_at, us_revoked_at = None, us_revoked_reason = None,
         us_client_ip = client_ip, us_user_agent = (if truthy user_agent then map_option (take 255) user_agent else None),
         us_saml_name_id = sc_name_id sc, us_saml_session_index = sc_session_index sc,
         us_organization_saml_config_id = sc_config_id sc\<rparr>]\<rparr>"

definition get_by_family_id :: "db \<Rightarrow> string option \<Rightarrow> user_session option" where
  "get_by_family_id s fid =
     (if truthy fid then query_first (\<lambda>x. us_session_id x = the fid) (user_sessions s) else None)"

definition find_active_by_saml_identity :: "db \<Rightarrow> int \<Rightarrow> string \<Rightarrow> string option \<Rightarrow> user_session list" where
  "find_active_by_saml_identity s config_id name_id session_index =
     filter (\<lambda>x. us_organization_saml_config_id x = Some config_id \<and> us_saml_name_id x = Some name_id \<and> us_status x = ''active''
       \<and> (session_index = None \<or> us_saml_session_index x = session_index)) (user_sessions s)"

definition is_usable :: "time \<Rightarrow> user_session option \<Rightarrow> bool" where
  "is_usable now session =
     (case session of
        None \<Rightarrow> True
      | Some x \<Rightarrow> if us_status x = ''revoked'' then False else \<not> us_expires_at x < now)"

definition check_timeout_policy :: "settings \<Rightarrow> time \<Rightarrow> user_session option \<Rightarrow> string option" where
  "check_timeout_policy S now session =
     (case session of
        None \<Rightarrow> None
      | Some x \<Rightarrow>
          if us_created_at x + seconds (SESSION_ABSOLUTE_TIMEOUT_SECONDS S) < now then Some ''absolute_timeout''
          else if us_last_activity_at x + seconds (SESSION_IDLE_TIMEOUT_SECONDS S) < now then Some ''idle_timeout''
          else None)"

definition set_session :: "string \<Rightarrow> (user_session \<Rightarrow> user_session) \<Rightarrow> db \<Rightarrow> db" where
  "set_session sid f s = s\<lparr>user_sessions := update_where (\<lambda>x. us_session_id x = sid) f (user_sessions s)\<rparr>"

definition touch :: "time \<Rightarrow> string option \<Rightarrow> time \<Rightarrow> db \<Rightarrow> db" where
  "touch now fid expires_at s =
     (case get_by_family_id s fid of
        None \<Rightarrow> s
      | Some x \<Rightarrow>
          if us_status x = ''revoked'' then s
          else set_session (us_session_id x)
                 (\<lambda>x. x\<lparr>us_last_activity_at := now, us_expires_at := expires_at, us_status := ''active''\<rparr>) s)"

definition session_revoke :: "time \<Rightarrow> string option \<Rightarrow> string \<Rightarrow> db \<Rightarrow> db" where
  "session_revoke now fid reason s =
     (case get_by_family_id s fid of
        None \<Rightarrow> s
      | Some x \<Rightarrow>
          if us_status x = ''revoked'' then s
          else set_session (us_session_id x)
                 (\<lambda>x. x\<lparr>us_status := ''revoked'', us_revoked_at := Some now, us_revoked_reason := Some reason\<rparr>) s)"

definition effective_status :: "settings \<Rightarrow> time \<Rightarrow> user_session \<Rightarrow> string" where
  "effective_status S now x =
     (if us_status x = ''revoked'' then ''revoked''
      else let reason = check_timeout_policy S now (Some x)
           in if reason = Some ''absolute_timeout'' then ''absolute_expired''
              else if reason = Some ''idle_timeout'' then ''idle_expired''
              else if us_expires_at x < now then ''expired''
              else ''active'')"

subsection \<open>Frames\<close>

lemma set_session_frame [simp, frame_simps]:
  "users (set_session i f s) = users s" "refresh_tokens (set_session i f s) = refresh_tokens s"
  "memberships (set_session i f s) = memberships s" "audit_events (set_session i f s) = audit_events s"
  "user_sessions (set_session i f s) = update_where (\<lambda>x. us_session_id x = i) f (user_sessions s)"
  by (simp_all add: set_session_def)

lemma session_ops_frame [simp, frame_simps]:
  "users (touch now fid e s) = users s" "refresh_tokens (touch now fid e s) = refresh_tokens s" "audit_events (touch now fid e s) = audit_events s"
  "users (session_revoke now fid r s) = users s" "refresh_tokens (session_revoke now fid r s) = refresh_tokens s"
  "audit_events (session_revoke now fid r s) = audit_events s"
  "users (session_create now i u o' rl am mv e ip ua sc s) = users s"
  "refresh_tokens (session_create now i u o' rl am mv e ip ua sc s) = refresh_tokens s"
  "audit_events (session_create now i u o' rl am mv e ip ua sc s) = audit_events s"
  by (simp_all add: touch_def session_revoke_def session_create_def split: option.splits)

text \<open>
  \<open>revoked_ids s\<close>: the ids of revoked sessions, the part of the state that must only grow.
\<close>

definition revoked_ids :: "db \<Rightarrow> string set" where
  "revoked_ids s = us_session_id ` {x \<in> set (user_sessions s). us_status x = ''revoked''}"

definition session_ids :: "db \<Rightarrow> string list" where
  "session_ids s = map us_session_id (user_sessions s)"

lemma session_ids_ops [simp]:
  "session_ids (touch now fid e s) = session_ids s" "session_ids (session_revoke now fid r s) = session_ids s"
  "session_ids (session_create now i u o' rl am mv e ip ua sc s) = session_ids s @ [i]"
  by (simp_all add: session_ids_def touch_def session_revoke_def session_create_def map_update_where_same split: option.splits)

lemma session_log_event [simp]:
  "session_ids (log_event E now a s) = session_ids s" "revoked_ids (log_event E now a s) = revoked_ids s"
  "get_by_family_id (log_event E now a s) fid = get_by_family_id s fid"
  by (simp_all add: session_ids_def revoked_ids_def get_by_family_id_def)

lemma get_by_family_Some: "get_by_family_id s fid = Some x \<Longrightarrow> x \<in> set (user_sessions s) \<and> fid = Some (us_session_id x)"
  by (auto simp: get_by_family_id_def elim!: truthyE split: if_splits dest: query_first_Some)

lemma get_by_family_id_in:
  "distinct (session_ids s) \<Longrightarrow> x \<in> set (user_sessions s) \<Longrightarrow> us_session_id x \<noteq> [] \<Longrightarrow> get_by_family_id s (Some (us_session_id x)) = Some x"
  by (simp add: get_by_family_id_def session_ids_def query_first_unique)

lemma revoked_ids_touch: "distinct (session_ids s) \<Longrightarrow> revoked_ids (touch now fid e s) = revoked_ids s"
proof -
  assume d: "distinct (session_ids s)"
  show ?thesis
  proof (cases "get_by_family_id s fid")
    case (Some x)
    have "us_status y \<noteq> ''revoked''" if "us_status x \<noteq> ''revoked''" "y \<in> set (user_sessions s)" "us_session_id y = us_session_id x" for y
      using d get_by_family_Some [OF Some] that distinct_keyD [of us_session_id "user_sessions s" y x] by (auto simp: session_ids_def)
    then show ?thesis using Some by (auto simp: touch_def revoked_ids_def set_update_where)
  qed (simp add: touch_def)
qed

lemma Collect_image_conj: "{y \<in> g ` A. Q y} = g ` {a \<in> A. Q (g a)}"
  by auto

lemma revoked_ids_revoke: "revoked_ids (session_revoke now fid r s) = revoked_ids s \<union> {i. fid = Some i \<and> get_by_family_id s fid \<noteq> None}"
proof (cases "get_by_family_id s fid")
  case (Some x)
  then have x: "x \<in> set (user_sessions s)" "fid = Some (us_session_id x)" using get_by_family_Some by blast+
  show ?thesis
  proof (cases "us_status x = ''revoked''")
    case True
    then show ?thesis using Some x by (auto simp: session_revoke_def revoked_ids_def)
  next
    case False
    let ?f = "\<lambda>x. x\<lparr>us_status := ''revoked'', us_revoked_at := Some now, us_revoked_reason := Some r\<rparr>"
    let ?g = "\<lambda>y. if us_session_id y = us_session_id x then ?f y else y"
    have g: "us_session_id (?g y) = us_session_id y" "us_status (?g y) = ''revoked'' \<longleftrightarrow> us_session_id y = us_session_id x \<or> us_status y = ''revoked''" for y
      by simp_all
    have "revoked_ids (session_revoke now fid r s) = us_session_id ` {y \<in> ?g ` set (user_sessions s). us_status y = ''revoked''}"
      using Some False by (simp add: session_revoke_def revoked_ids_def update_where_def)
    also have "\<dots> = (\<lambda>y. us_session_id (?g y)) ` {y \<in> set (user_sessions s). us_status (?g y) = ''revoked''}"
      unfolding Collect_image_conj image_image ..
    also have "\<dots> = revoked_ids s \<union> {us_session_id x}" unfolding g using x(1) by (auto simp: revoked_ids_def)
    finally show ?thesis using x(2) Some by auto
  qed
qed (simp add: session_revoke_def)

lemma revoked_ids_create [simp]: "revoked_ids (session_create now i u o' rl am mv e ip ua sc s) = revoked_ids s"
  by (auto simp: session_create_def revoked_ids_def)

subsection \<open>Revoking and checking access tokens\<close>

definition blacklist_key :: "string \<Rightarrow> string" where
  "blacklist_key jti = ''blacklist:jti:'' @ jti"

text \<open>\<open>int(datetime.utcnow().timestamp())\<close>: a naive datetime is taken to be local time.\<close>

definition utcnow_timestamp :: "env \<Rightarrow> time \<Rightarrow> int" where
  "utcnow_timestamp E now = whole_seconds now - tz_offset E"

definition claim_exp :: "claims \<Rightarrow> int" where
  "claim_exp c = (case json_int (get_claim c ''exp'') of None \<Rightarrow> 0 | Some n \<Rightarrow> n)"

definition blacklist_access_token :: "'r redis \<Rightarrow> env \<Rightarrow> time \<Rightarrow> string \<Rightarrow> 'r \<Rightarrow> 'r \<times> exn option" where
  "blacklist_access_token R E now access_token r =
     (case decode_token E now access_token of
        Inl e \<Rightarrow> (r, None)
      | Inr payload \<Rightarrow>
          let jti = json_str (get_claim payload ''jti'')
          in if \<not> truthy jti then (r, None)
             else let ttl = max (claim_exp payload - utcnow_timestamp E now) 1
                  in if red_up R r then (red_set_ex R now r (blacklist_key (the jti)) 1 ttl, None)
                     else (r, Some (HTTPException 503 ''Authentication state unavailable'')))"

definition sub_text :: "json \<Rightarrow> string option" where
  "sub_text v = (case v of JStr x \<Rightarrow> Some x | JInt i \<Rightarrow> Some (show_int i) | _ \<Rightarrow> None)"

definition find_subject :: "db \<Rightarrow> json \<Rightarrow> user option" where
  "find_subject s v = query_first (\<lambda>u. Some (show_int (u_id u)) = sub_text v) (users s)"

definition assert_token_usable :: "'r redis \<Rightarrow> time \<Rightarrow> claims \<Rightarrow> 'r \<Rightarrow> db \<Rightarrow> exn option" where
  "assert_token_usable R now payload r s =
     (let jti = json_str (get_claim payload ''jti'')
      in if truthy jti \<and> \<not> red_up R r then Some (HTTPException 503 ''Authentication state unavailable'')
         else if truthy jti \<and> red_exists R now r (blacklist_key (the jti)) then Some (HTTPException 401 ''Token revoked'')
         else if truthy jti \<and> query_exists (\<lambda>t. rv_token_jti t = the jti) (revoked_tokens s)
         then Some (HTTPException 401 ''Token revoked'')
         else if get_claim payload ''sub'' \<noteq> JNull
              \<and> (case find_subject s (get_claim payload ''sub'') of None \<Rightarrow> True | Some u \<Rightarrow> u_status u \<noteq> ''active'')
         then Some (HTTPException 401 ''User inactive'')
         else None)"

subsection \<open>Properties\<close>

text \<open>
  C35. The status a session is shown with. It is \<open>active\<close> exactly when the row is not revoked,
  neither the absolute nor the idle timeout has passed and the row has not expired, and
  exactly then a refresh with it passes both \<open>is_usable\<close> and \<open>check_timeout_policy\<close>: what the
  user sees and what the refresh endpoint enforces cannot disagree.
\<close>

theorem effective_status_agrees:
  "(effective_status S now x = ''active'') = (is_usable now (Some x) \<and> check_timeout_policy S now (Some x) = None)
   \<and> (effective_status S now x = ''active'') =
       (us_status x \<noteq> ''revoked'' \<and> now \<le> us_created_at x + seconds (SESSION_ABSOLUTE_TIMEOUT_SECONDS S)
        \<and> now \<le> us_last_activity_at x + seconds (SESSION_IDLE_TIMEOUT_SECONDS S) \<and> now \<le> us_expires_at x)
   \<and> effective_status S now x \<in> {''active'', ''revoked'', ''absolute_expired'', ''idle_expired'', ''expired''}"
  by (auto simp: effective_status_def is_usable_def check_timeout_policy_def Let_def)

text \<open>
  Property. A revoked access token stays refused until it expires. After \<open>blacklist_access_token\<close>
  has run on a token that decodes and has an id, the check of every request answers 401 for its
  payload at every later moment before the token's own expiry, as long as the process's local
  time is not behind UTC.
\<close>

theorem blacklisted_until_expiry:
  assumes R: "redis_store R entry" and up: "red_up R r" and tz: "0 \<le> tz_offset E"
    and dec: "decode_token E now token = Inr payload" and jti: "truthy (json_str (get_claim payload ''jti''))"
    and later: "now \<le> u" "u < seconds (claim_exp payload)"
  shows "snd (blacklist_access_token R E now token r) = None
       \<and> assert_token_usable R u payload (fst (blacklist_access_token R E now token r)) s = Some (HTTPException 401 ''Token revoked'')"
proof -
  obtain j where j: "json_str (get_claim payload ''jti'') = Some j" "j \<noteq> []" using jti by (auto elim: truthyE)
  let ?ttl = "max (claim_exp payload - utcnow_timestamp E now) 1"
  let ?r = "red_set_ex R now r (blacklist_key j) 1 ?ttl"
  have b: "blacklist_access_token R E now token r = (?r, None)"
    using dec j up by (simp add: blacklist_access_token_def Let_def)
  have e: "entry ?r (blacklist_key j) = Some (1, Some (now + seconds ?ttl))"
    by (simp add: redis_store.set_ex [OF R])
  have "claim_exp payload - whole_seconds now \<le> ?ttl" using tz by (simp add: utcnow_timestamp_def)
  then have "seconds (claim_exp payload) \<le> now + seconds ?ttl"
  proof -
    have "0 \<le> now mod 1000000" by simp
    then have "whole_seconds now * 1000000 \<le> now"
      unfolding whole_seconds_def using div_mult_mod_eq [of now 1000000] by linarith
    moreover have "c * 1000000 \<le> n + m * 1000000" if "c - w \<le> m" "w * 1000000 \<le> n" for c w m n :: int
      using that by linarith
    ultimately show ?thesis
      using \<open>claim_exp payload - whole_seconds now \<le> ?ttl\<close> unfolding seconds_def by blast
  qed
  then have "live_entry entry u ?r (blacklist_key j) \<noteq> None"
    using e later(2) by (simp add: live_entry_def alive_def)
  then have "red_exists R u ?r (blacklist_key j)" using redis_store.exists [OF R] by blast
  moreover have "red_up R ?r" using up redis_store.up_set_ex [OF R] by simp
  ultimately show ?thesis using b j by (simp add: assert_token_usable_def Let_def)
qed

definition sample_payload :: claims where
  "sample_payload = [(''sub'', JStr ''1''), (''type'', JStr ''access''), (''jti'', JStr ''a''), (''exp'', JInt 900)]"

theorem blacklisted_until_expiry_witness:
  "assert_token_usable kv_redis (seconds 800) sample_payload
     (fst (blacklist_access_token kv_redis (sample_env [''tok'' \<mapsto> sample_payload]) 0 ''tok'' (True, []))) empty_db
   = Some (HTTPException 401 ''Token revoked'')"
proof -
  have "decode_token (sample_env [''tok'' \<mapsto> sample_payload]) 0 ''tok'' = Inr sample_payload"
    by (simp add: decode_token_def decode_token_for_audience_def sample_env_def sample_payload_def)
  from blacklisted_until_expiry [OF kv.redis_store_axioms _ _ this, of "(True, [])" "seconds 800" empty_db]
  show ?thesis by (simp add: kv_redis_def sample_env_def sample_payload_def claim_exp_def seconds_def)
qed

lemma show_int_1: "show_int 1 = ''1''"
  by code_simp

text \<open>
  Property. Behind UTC the blacklist lapses early. \<open>utcnow().timestamp()\<close> reads UTC wall-clock time
  as local time, so with a process five hours behind UTC an access token revoked with 15
  minutes left is accepted again two seconds later.
\<close>

theorem blacklist_lapses_behind_utc:
  "\<exists>E s. tz_offset E = - 18000 \<and> decode_token E 0 ''tok'' = Inr sample_payload \<and> claim_exp sample_payload = 900
     \<and> snd (blacklist_access_token kv_redis E 0 ''tok'' (True, [])) = None
     \<and> assert_token_usable kv_redis (seconds 2) sample_payload (fst (blacklist_access_token kv_redis E 0 ''tok'' (True, []))) s = None"
proof -
  let ?E = "(sample_env [''tok'' \<mapsto> sample_payload])\<lparr>tz_offset := - 18000\<rparr>"
  let ?s = "empty_db\<lparr>users := [\<lparr>u_id = 1, u_email = ''a'', u_hashed_password = None, u_status = ''active'', u_preferred_timezone = None,
     u_created_at = None, u_status_changed_at = None, u_status_changed_reason = None, u_status_changed_by_user_id = None,
     u_last_login_at = None, u_authentication_method = None, u_mfa_enabled = False, u_mfa_status = ''disabled'',
     u_mfa_primary_method = None, u_mfa_enabled_at = None, u_mfa_last_verified_at = None\<rparr>]\<rparr>"
  have dec: "decode_token ?E 0 ''tok'' = Inr sample_payload"
    by (simp add: decode_token_def decode_token_for_audience_def sample_env_def sample_payload_def)
  have b: "blacklist_access_token kv_redis ?E 0 ''tok'' (True, []) = ((True, [(blacklist_key ''a'', 1, Some (seconds 1))]), None)"
    unfolding blacklist_access_token_def dec
    by (simp add: sample_payload_def claim_exp_def utcnow_timestamp_def whole_seconds_def kv_redis_def kv_put_def Let_def)
  have "assert_token_usable kv_redis (seconds 2) sample_payload (fst (blacklist_access_token kv_redis ?E 0 ''tok'' (True, []))) ?s = None"
    unfolding b
    by (simp add: assert_token_usable_def sample_payload_def kv_redis_def kv_entry_def live_entry_def alive_def seconds_def
        find_subject_def sub_text_def show_int_1 query_exists_def empty_db_def Let_def)
  then show ?thesis using dec b by (intro exI [of _ ?E] exI [of _ ?s]) (simp add: claim_exp_def sample_payload_def)
qed

end
