(* ===== verification/Email_Mfa.thy ===== *)
theory Email_Mfa
  imports Jwt_Tokens
begin

text \<open>
  \<open>app/services/email_mfa_service.py\<close>: one-time codes sent by e-mail for password logins.
  The random code is an argument of \<open>issue_code\<close>; delivery is the parameter
  \<open>email_delivered\<close>. An operation that raises leaves the database as it was, since
  nothing has been committed.

  The theory shows that at most one code of a user is live at a time, that a code is
  accepted at most once and never after the allowed number of wrong guesses, and how often
  codes are sent.
\<close>

definition is_enabled_for :: "env \<Rightarrow> user \<Rightarrow> bool" where
  "is_enabled_for E u \<longleftrightarrow> EMAIL_MFA_ENABLED (cfg E) \<and> u_status u = ''active'' \<and> u_email u \<noteq> []"

definition otp_digest :: "env \<Rightarrow> int \<Rightarrow> string \<Rightarrow> string \<Rightarrow> string option" where
  "otp_digest E user_id challenge_jti code =
     (if EMAIL_MFA_OTP_PEPPER (cfg E) = [] then None
      else Some (hmac_sha256_hex E (EMAIL_MFA_OTP_PEPPER (cfg E)) (show_int user_id @ '':'' @ challenge_jti @ '':'' @ code)))"

definition challenge_identity :: "env \<Rightarrow> time \<Rightarrow> string \<Rightarrow> exn + int \<times> string" where
  "challenge_identity E now challenge_token =
     (case decode_token E now challenge_token of
        Inl e \<Rightarrow> Inl EmailMFAChallengeError
      | Inr payload \<Rightarrow>
          (case (json_int (get_claim payload ''user_id''), json_str (get_claim payload ''jti'')) of
             (Some uid, Some jti) \<Rightarrow>
               if get_claim payload ''type'' \<noteq> JStr ''mfa_challenge'' \<or> get_claim payload ''auth_method'' \<noteq> JStr ''password'' \<or> jti = []
               then Inl EmailMFAChallengeError else Inr (uid, jti)
           | _ \<Rightarrow> Inl EmailMFAChallengeError))"

text \<open>A code that is neither consumed nor invalidated.\<close>

definition otp_live :: "mfa_email_otp \<Rightarrow> bool" where
  "otp_live r \<longleftrightarrow> eo_consumed_at r = None \<and> eo_invalidated_at r = None"

definition newest :: "mfa_email_otp list \<Rightarrow> mfa_email_otp option" where
  "newest rows = (case sort_key (\<lambda>r. (- eo_created_at r, - eo_id r)) rows of [] \<Rightarrow> None | r # _ \<Rightarrow> Some r)"

definition sends_since :: "db \<Rightarrow> int \<Rightarrow> time \<Rightarrow> mfa_email_otp list" where
  "sends_since s uid t = filter (\<lambda>r. eo_user_id r = uid \<and> t \<le> eo_created_at r) (mfa_email_otps s)"

text \<open>The second half of \<open>issue_code\<close>: the hourly limit, and sending.\<close>

definition send_code :: "env \<Rightarrow> time \<Rightarrow> string \<Rightarrow> user \<Rightarrow> string \<Rightarrow> bool \<Rightarrow> db \<Rightarrow> exn + db \<times> int" where
  "send_code E now code u challenge_jti resend s =
     (let recent = sends_since s (u_id u) (now - seconds 3600)
      in if EMAIL_MFA_MAX_SENDS_PER_HOUR (cfg E) \<le> int (length recent)
         then Inl (EmailMFAResendLimitedError
                (case sort_key eo_created_at recent of
                   [] \<Rightarrow> 3600
                 | oldest # _ \<Rightarrow> max 1 (trunc_seconds (eo_created_at oldest + seconds 3600 - now))))
         else case otp_digest E (u_id u) challenge_jti code of
                None \<Rightarrow> Inl EmailMFAUnavailableError
              | Some h \<Rightarrow>
                  if \<not> email_delivered E (u_email u) code then Inl EmailMFAUnavailableError
                  else let row = \<lparr>eo_id = next_id eo_id (mfa_email_otps s), eo_user_id = u_id u, eo_challenge_jti = challenge_jti,
                                  eo_code_hash = h, eo_attempts = 0, eo_created_at = now,
                                  eo_expires_at = now + seconds (EMAIL_MFA_TTL_SECONDS (cfg E)),
                                  eo_consumed_at = None, eo_invalidated_at = None\<rparr>;
                           s1 = s\<lparr>mfa_email_otps := update_where (\<lambda>r. eo_user_id r = u_id u \<and> otp_live r)
                                    (\<lambda>r. r\<lparr>eo_invalidated_at := Some now\<rparr>) (mfa_email_otps s) @ [row]\<rparr>
                       in Inr (log_event E now ((audit (if resend then ''mfa_email_code_resent'' else ''mfa_email_code_sent''))
                                 \<lparr>a_actor := Some (u_id u), a_target := Some (u_id u), a_rtype := Some ''mfa_email_otp'',
                                  a_rid := Some (show_int (eo_id row)), a_meta := JObj [(''delivery'', JStr ''email'')]\<rparr>) s1,
                               EMAIL_MFA_RESEND_COOLDOWN_SECONDS (cfg E)))"

definition issue_code :: "env \<Rightarrow> time \<Rightarrow> string \<Rightarrow> user \<Rightarrow> string \<Rightarrow> bool \<Rightarrow> db \<Rightarrow> exn + db \<times> int" where
  "issue_code E now code u challenge_token resend s =
     (if \<not> is_enabled_for E u then Inl EmailMFAUnavailableError
      else case challenge_identity E now challenge_token of
        Inl e \<Rightarrow> Inl e
      | Inr (uid, challenge_jti) \<Rightarrow>
          if uid \<noteq> u_id u \<or> u_status u \<noteq> ''active'' then Inl EmailMFAChallengeError
          else if query_exists (\<lambda>t. rv_token_jti t = challenge_jti) (revoked_tokens s) then Inl EmailMFAChallengeError
          else
            let latest = newest (filter (\<lambda>r. eo_user_id r = u_id u) (mfa_email_otps s));
                cooldown = EMAIL_MFA_RESEND_COOLDOWN_SECONDS (cfg E)
            in case (if resend then latest else None) of
                 None \<Rightarrow> send_code E now code u challenge_jti resend s
               | Some r \<Rightarrow>
                   if now - eo_created_at r < seconds cooldown
                   then Inl (EmailMFAResendLimitedError (max 1 (cooldown - trunc_seconds (now - eo_created_at r))))
                   else send_code E now code u challenge_jti resend s)"

definition resend_code :: "env \<Rightarrow> time \<Rightarrow> string \<Rightarrow> string \<Rightarrow> db \<Rightarrow> exn + db \<times> int" where
  "resend_code E now code challenge_token s =
     (case challenge_identity E now challenge_token of
        Inl e \<Rightarrow> Inl e
      | Inr (uid, _) \<Rightarrow>
          (case find_user s uid of
             None \<Rightarrow> Inl EmailMFAChallengeError
           | Some u \<Rightarrow> issue_code E now code u challenge_token True s))"

definition is_digit :: "char \<Rightarrow> bool" where
  "is_digit c = (let n = of_char c :: nat in 48 \<le> n \<and> n \<le> 57)"

definition six_digits :: "string \<Rightarrow> bool" where
  "six_digits code \<longleftrightarrow> length code = 6 \<and> list_all is_digit code"

definition current_otp :: "db \<Rightarrow> int \<Rightarrow> string option \<Rightarrow> mfa_email_otp option" where
  "current_otp s uid challenge_jti =
     newest (filter (\<lambda>r. eo_user_id r = uid \<and> Some (eo_challenge_jti r) = challenge_jti \<and> otp_live r) (mfa_email_otps s))"

definition verify_code :: "env \<Rightarrow> time \<Rightarrow> int \<Rightarrow> string option \<Rightarrow> string \<Rightarrow> db \<Rightarrow> db \<times> (exn + bool)" where
  "verify_code E now uid challenge_jti code s =
     (case current_otp s uid challenge_jti of
        None \<Rightarrow> (s, Inr False)
      | Some row \<Rightarrow>
          let maxa = EMAIL_MFA_MAX_ATTEMPTS (cfg E)
          in if eo_expires_at row \<le> now \<or> maxa \<le> eo_attempts row then (s, Inr False)
             else if \<not> six_digits code then (s, Inr False)
             else case otp_digest E uid (the challenge_jti) code of
                    None \<Rightarrow> (s, Inl EmailMFAUnavailableError)
                  | Some candidate \<Rightarrow>
                      if eo_code_hash row \<noteq> candidate
                      then (s\<lparr>mfa_email_otps := update_where (\<lambda>r. eo_id r = eo_id row \<and> otp_live r \<and> eo_attempts r < maxa)
                               (\<lambda>r. r\<lparr>eo_attempts := eo_attempts r + 1,
                                     eo_invalidated_at := (if maxa \<le> eo_attempts r + 1 then Some now else None)\<rparr>)
                               (mfa_email_otps s)\<rparr>, Inr False)
                      else (s\<lparr>mfa_email_otps := update_where (\<lambda>r. eo_id r = eo_id row \<and> eo_code_hash r = candidate
                                 \<and> otp_live r \<and> now < eo_expires_at r \<and> eo_attempts r < maxa)
                               (\<lambda>r. r\<lparr>eo_consumed_at := Some now\<rparr>) (mfa_email_otps s)\<rparr>, Inr True))"

subsection \<open>At most one live code\<close>

definition otp_ok :: "env \<Rightarrow> db \<Rightarrow> bool" where
  "otp_ok E s \<longleftrightarrow> distinct (map eo_id (mfa_email_otps s))
     \<and> (\<forall>r \<in> set (mfa_email_otps s). \<forall>r' \<in> set (mfa_email_otps s). otp_live r \<and> otp_live r' \<and> eo_user_id r = eo_user_id r' \<longrightarrow> r = r')
     \<and> (\<forall>r \<in> set (mfa_email_otps s). 0 \<le> eo_attempts r \<and> (otp_live r \<longrightarrow> eo_attempts r < max 1 (EMAIL_MFA_MAX_ATTEMPTS (cfg E))))"

lemma newest_in: "newest rows = Some r \<Longrightarrow> r \<in> set rows"
  by (auto simp: newest_def split: list.splits) (metis list.set_intros(1) set_sort)

lemma newest_None: "newest rows = None \<longleftrightarrow> rows = []"
  by (auto simp: newest_def split: list.splits) (metis set_empty set_sort)+

lemma current_otp_Some:
  "current_otp s uid j = Some r \<Longrightarrow> r \<in> set (mfa_email_otps s) \<and> eo_user_id r = uid \<and> j = Some (eo_challenge_jti r) \<and> otp_live r"
  by (auto simp: current_otp_def dest: newest_in)

lemma current_otp_None: "current_otp s uid j = None \<longleftrightarrow>
   (\<forall>r \<in> set (mfa_email_otps s). \<not> (eo_user_id r = uid \<and> Some (eo_challenge_jti r) = j \<and> otp_live r))"
  by (auto simp: current_otp_def newest_None filter_empty_conv)

lemma issue_code_Inr:
  assumes "issue_code E now code u tok resend s = Inr (s', n)"
  shows "\<exists>jti. send_code E now code u jti resend s = Inr (s', n)"
  using assms by (auto simp: issue_code_def Let_def split: if_splits sum.splits option.splits)

lemma send_code_otps:
  assumes "send_code E now code u jti resend s = Inr (s', n)"
  shows "\<exists>h. mfa_email_otps s' = update_where (\<lambda>r. eo_user_id r = u_id u \<and> otp_live r) (\<lambda>r. r\<lparr>eo_invalidated_at := Some now\<rparr>) (mfa_email_otps s)
     @ [\<lparr>eo_id = next_id eo_id (mfa_email_otps s), eo_user_id = u_id u, eo_challenge_jti = jti, eo_code_hash = h, eo_attempts = 0,
         eo_created_at = now, eo_expires_at = now + seconds (EMAIL_MFA_TTL_SECONDS (cfg E)), eo_consumed_at = None, eo_invalidated_at = None\<rparr>]"
    and "int (length (sends_since s (u_id u) (now - seconds 3600))) < EMAIL_MFA_MAX_SENDS_PER_HOUR (cfg E)"
  using assms by (auto simp: send_code_def Let_def split: if_splits option.splits)

lemma otp_ok_map:
  assumes ok: "otp_ok E s" and otps: "mfa_email_otps s' = map g (mfa_email_otps s)"
    and same: "\<And>r. r \<in> set (mfa_email_otps s) \<Longrightarrow> eo_id (g r) = eo_id r \<and> eo_user_id (g r) = eo_user_id r \<and> (otp_live (g r) \<longrightarrow> otp_live r)
       \<and> 0 \<le> eo_attempts (g r) \<and> (otp_live (g r) \<longrightarrow> eo_attempts (g r) < max 1 (EMAIL_MFA_MAX_ATTEMPTS (cfg E)))"
  shows "otp_ok E s'"
proof -
  have ids: "map eo_id (mfa_email_otps s') = map eo_id (mfa_email_otps s)" using same by (simp add: otps)
  have uniq: "g r = g r'" if "r \<in> set (mfa_email_otps s)" "r' \<in> set (mfa_email_otps s)" "otp_live (g r)" "otp_live (g r')"
      "eo_user_id (g r) = eo_user_id (g r')" for r r'
  proof -
    have "otp_live r \<and> otp_live r' \<and> eo_user_id r = eo_user_id r' \<longrightarrow> r = r'" using ok that(1,2) by (simp add: otp_ok_def)
    then show ?thesis using that same [OF that(1)] same [OF that(2)] by simp
  qed
  show ?thesis
    unfolding otp_ok_def
  proof (intro conjI)
    show "distinct (map eo_id (mfa_email_otps s'))" using ok ids by (simp add: otp_ok_def)
    show "\<forall>r \<in> set (mfa_email_otps s'). \<forall>r' \<in> set (mfa_email_otps s'). otp_live r \<and> otp_live r' \<and> eo_user_id r = eo_user_id r' \<longrightarrow> r = r'"
      using uniq by (simp add: otps)
    show "\<forall>r \<in> set (mfa_email_otps s'). 0 \<le> eo_attempts r \<and> (otp_live r \<longrightarrow> eo_attempts r < max 1 (EMAIL_MFA_MAX_ATTEMPTS (cfg E)))"
      using same by (simp add: otps)
  qed
qed

lemma otp_ok_append:
  assumes "otp_ok E s" and "\<forall>r \<in> set (mfa_email_otps s). eo_user_id r = eo_user_id row \<longrightarrow> \<not> otp_live r"
    and "eo_id row \<notin> eo_id ` set (mfa_email_otps s)" and "eo_attempts row = 0" and "mfa_email_otps s' = mfa_email_otps s @ [row]"
  shows "otp_ok E s'"
  using assms by (auto simp: otp_ok_def)

lemma otp_ok_issue:
  assumes ok: "otp_ok E s" and i: "issue_code E now code u tok resend s = Inr (s', n)"
  shows "otp_ok E s'"
proof -
  obtain jti where "send_code E now code u jti resend s = Inr (s', n)" using issue_code_Inr [OF i] by blast
  from send_code_otps(1) [OF this] obtain h where
    otps: "mfa_email_otps s' = update_where (\<lambda>r. eo_user_id r = u_id u \<and> otp_live r) (\<lambda>r. r\<lparr>eo_invalidated_at := Some now\<rparr>) (mfa_email_otps s)
     @ [\<lparr>eo_id = next_id eo_id (mfa_email_otps s), eo_user_id = u_id u, eo_challenge_jti = jti, eo_code_hash = h, eo_attempts = 0,
         eo_created_at = now, eo_expires_at = now + seconds (EMAIL_MFA_TTL_SECONDS (cfg E)), eo_consumed_at = None, eo_invalidated_at = None\<rparr>]"
    (is "_ = ?old @ [?row]") by blast
  let ?t = "s\<lparr>mfa_email_otps := ?old\<rparr>"
  have t: "otp_ok E ?t"
    by (rule otp_ok_map [OF ok, where g = "\<lambda>r. if eo_user_id r = u_id u \<and> otp_live r then r\<lparr>eo_invalidated_at := Some now\<rparr> else r"])
       (use ok in \<open>auto simp: update_where_def otp_live_def otp_ok_def\<close>)
  have dead: "\<not> otp_live r" if "r \<in> set ?old" "eo_user_id r = u_id u" for r
    using that by (auto simp: set_update_where otp_live_def)
  have ids: "eo_id ` set ?old = eo_id ` set (mfa_email_otps s)"
  proof -
    have "map eo_id ?old = map eo_id (mfa_email_otps s)" by (rule map_update_where_same) simp
    then show ?thesis by (simp only: set_map [symmetric])
  qed
  show ?thesis
    by (rule otp_ok_append [OF t, of ?row]) (use dead otps ids next_id_notin [of eo_id "mfa_email_otps s"] in simp_all)
qed

lemma verify_code_step:
  assumes ok: "otp_ok E s"
  shows "otp_ok E (fst (verify_code E now uid jti code s))"
proof (cases "current_otp s uid jti")
  case (Some row)
  note row = current_otp_Some [OF Some]
  let ?M = "EMAIL_MFA_MAX_ATTEMPTS (cfg E)"
  have wrong: "otp_ok E (s\<lparr>mfa_email_otps := update_where (\<lambda>r. eo_id r = eo_id row \<and> otp_live r \<and> eo_attempts r < ?M)
       (\<lambda>r. r\<lparr>eo_attempts := eo_attempts r + 1, eo_invalidated_at := (if ?M \<le> eo_attempts r + 1 then Some now else None)\<rparr>) (mfa_email_otps s)\<rparr>)"
    by (rule otp_ok_map [OF ok, where g = "\<lambda>r. if eo_id r = eo_id row \<and> otp_live r \<and> eo_attempts r < ?M
          then r\<lparr>eo_attempts := eo_attempts r + 1, eo_invalidated_at := (if ?M \<le> eo_attempts r + 1 then Some now else None)\<rparr> else r"])
       (use ok in \<open>auto simp: update_where_def otp_live_def otp_ok_def\<close>)
  have right: "otp_ok E (s\<lparr>mfa_email_otps := update_where (\<lambda>r. eo_id r = eo_id row \<and> eo_code_hash r = h \<and> otp_live r \<and> now < eo_expires_at r \<and> eo_attempts r < ?M)
       (\<lambda>r. r\<lparr>eo_consumed_at := Some now\<rparr>) (mfa_email_otps s)\<rparr>)" for h
    by (rule otp_ok_map [OF ok, where g = "\<lambda>r. if eo_id r = eo_id row \<and> eo_code_hash r = h \<and> otp_live r \<and> now < eo_expires_at r \<and> eo_attempts r < ?M
          then r\<lparr>eo_consumed_at := Some now\<rparr> else r"])
       (use ok in \<open>auto simp: update_where_def otp_live_def otp_ok_def\<close>)
  show ?thesis using ok wrong right by (simp add: verify_code_def Some Let_def split: option.splits)
qed (use ok in \<open>simp add: verify_code_def\<close>)

text \<open>Issuing and verifying codes, in any order.\<close>

inductive otp_step :: "env \<Rightarrow> db \<Rightarrow> db \<Rightarrow> bool" for E :: env where
  issue_code: "issue_code E now code u tok resend s = Inr (s', n) \<Longrightarrow> otp_step E s s'"
| resend_code: "resend_code E now code tok s = Inr (s', n) \<Longrightarrow> otp_step E s s'"
| verify_code: "otp_step E s (fst (verify_code E now uid jti code s))"

lemma otp_ok_step: "otp_step E s s' \<Longrightarrow> otp_ok E s \<Longrightarrow> otp_ok E s'"
  by (induction rule: otp_step.induct)
     (auto intro: otp_ok_issue verify_code_step simp: resend_code_def split: sum.splits option.splits)

lemma otp_ok_empty [simp]: "otp_ok E empty_db"
  by (simp add: otp_ok_def empty_db_def)

interpretation otp: transition_invariant "otp_step E" "otp_ok E"
  by unfold_locales (rule otp_ok_step)

lemma current_otp_unique:
  assumes "otp_ok E s" "r \<in> set (mfa_email_otps s)" "otp_live r"
  shows "current_otp s (eo_user_id r) (Some (eo_challenge_jti r)) = Some r"
proof (cases "current_otp s (eo_user_id r) (Some (eo_challenge_jti r))")
  case None
  then show ?thesis using assms by (auto simp: current_otp_None)
next
  case (Some x)
  from current_otp_Some [OF Some] have "x = r" using assms unfolding otp_ok_def by simp
  then show ?thesis using Some by simp
qed

lemma row_update_in:
  assumes "r \<in> set rows" "P r"
  shows "f r \<in> set (update_where P f rows)"
  using in_update_whereI [OF assms(1), of P f] assms(2) by simp

lemma wrong_guess:
  assumes ok: "otp_ok E s" and M: "1 \<le> EMAIL_MFA_MAX_ATTEMPTS (cfg E)" and cur: "current_otp s uid j = Some row"
    and v: "snd (verify_code E t uid j c s) = Inr False" and c: "six_digits c" and t: "t < eo_expires_at row"
  shows "if EMAIL_MFA_MAX_ATTEMPTS (cfg E) \<le> eo_attempts row + 1 then current_otp (fst (verify_code E t uid j c s)) uid j = None
         else \<exists>row'. current_otp (fst (verify_code E t uid j c s)) uid j = Some row' \<and> eo_attempts row' = eo_attempts row + 1
                \<and> eo_expires_at row' = eo_expires_at row"
proof -
  let ?M = "EMAIL_MFA_MAX_ATTEMPTS (cfg E)" and ?s' = "fst (verify_code E t uid j c s)"
  note row = current_otp_Some [OF cur]
  have lt: "eo_attempts row < ?M" using ok row M by (auto simp: otp_ok_def)
  define f where "f = (\<lambda>r :: mfa_email_otp. r\<lparr>eo_attempts := eo_attempts r + 1, eo_invalidated_at := (if ?M \<le> eo_attempts r + 1 then Some t else None)\<rparr>)"
  define P where "P = (\<lambda>r :: mfa_email_otp. eo_id r = eo_id row \<and> otp_live r \<and> eo_attempts r < ?M)"
  have otps: "mfa_email_otps ?s' = update_where P f (mfa_email_otps s)"
    using v cur c t lt by (auto simp: verify_code_def Let_def f_def P_def split: option.splits if_splits)
  have P: "P r \<longleftrightarrow> r = row" if "r \<in> set (mfa_email_otps s)" for r
    using that row lt ok distinct_keyD [of eo_id "mfa_email_otps s" r row] by (auto simp: P_def otp_ok_def)
  have ok': "otp_ok E ?s'" by (rule verify_code_step [OF ok])
  have frow: "f row \<in> set (mfa_email_otps ?s')" unfolding otps by (rule row_update_in) (use row P in auto)
  show ?thesis
  proof (cases "?M \<le> eo_attempts row + 1")
    case True
    have "\<not> otp_live r" if r: "r \<in> set (mfa_email_otps ?s')" "eo_user_id r = uid" for r
    proof -
      from r(1) obtain x where x: "x \<in> set (mfa_email_otps s)" "r = (if P x then f x else x)"
        unfolding otps update_where_def by auto
      show ?thesis
      proof (cases "x = row")
        case x_row: True
        then have "r = f row" using x P by simp
        then show ?thesis using True by (simp add: f_def otp_live_def)
      next
        case False
        then have "r = x" using x P by simp
        then show ?thesis using ok row x(1) False r(2) unfolding otp_ok_def by auto
      qed
    qed
    then show ?thesis using True by (auto simp: current_otp_None)
  next
    case False
    have fr: "eo_user_id (f row) = uid" "Some (eo_challenge_jti (f row)) = j" "otp_live (f row)"
      "eo_attempts (f row) = eo_attempts row + 1" "eo_expires_at (f row) = eo_expires_at row"
      using row False by (auto simp: f_def otp_live_def)
    from current_otp_unique [OF ok' frow fr(3)] have "current_otp ?s' uid j = Some (f row)" using fr(1,2) by simp
    then show ?thesis using False fr(4,5) by auto
  qed
qed

text \<open>A sequence of guesses for one challenge, each at its time.\<close>

definition guess_all :: "env \<Rightarrow> int \<Rightarrow> string option \<Rightarrow> (time \<times> string) list \<Rightarrow> db \<Rightarrow> db" where
  "guess_all E uid j gs s = fold (\<lambda>(t, c) s. fst (verify_code E t uid j c s)) gs s"

fun all_wrong :: "env \<Rightarrow> int \<Rightarrow> string option \<Rightarrow> (time \<times> string) list \<Rightarrow> db \<Rightarrow> bool" where
  "all_wrong E uid j [] s = True"
| "all_wrong E uid j ((t, c) # gs) s =
     (six_digits c \<and> snd (verify_code E t uid j c s) = Inr False \<and> all_wrong E uid j gs (fst (verify_code E t uid j c s)))"

lemma blocked_None: "current_otp s uid j = None \<Longrightarrow> verify_code E t uid j c s = (s, Inr False)"
  by (simp add: verify_code_def)

lemma blocked_expired: "current_otp s uid j = Some row \<Longrightarrow> eo_expires_at row \<le> t \<Longrightarrow> verify_code E t uid j c s = (s, Inr False)"
  by (simp add: verify_code_def)

lemma guess_all_None: "current_otp s uid j = None \<Longrightarrow> guess_all E uid j gs s = s"
  by (induction gs) (auto simp: guess_all_def blocked_None)

lemma guess_all_expired:
  "current_otp s uid j = Some row \<Longrightarrow> \<forall>(t, c) \<in> set gs. eo_expires_at row \<le> t \<Longrightarrow> guess_all E uid j gs s = s"
  by (induction gs) (auto simp: guess_all_def blocked_expired)

lemma guesses_exhausted:
  assumes "otp_ok E s" "1 \<le> EMAIL_MFA_MAX_ATTEMPTS (cfg E)" "all_wrong E uid j gs s" "sorted (map fst gs @ [t])"
    and "case current_otp s uid j of None \<Rightarrow> True | Some row \<Rightarrow> EMAIL_MFA_MAX_ATTEMPTS (cfg E) \<le> eo_attempts row + int (length gs)"
  shows "snd (verify_code E t uid j c (guess_all E uid j gs s)) = Inr False"
  using assms
proof (induction gs arbitrary: s)
  case Nil
  show ?case
  proof (cases "current_otp s uid j")
    case (Some row)
    then show ?thesis using Nil.prems(5) by (simp add: guess_all_def verify_code_def)
  qed (simp add: guess_all_def blocked_None)
next
  case (Cons g gs)
  obtain t0 c0 where g: "g = (t0, c0)" by force
  let ?s' = "fst (verify_code E t0 uid j c0 s)"
  have step: "guess_all E uid j (g # gs) s = guess_all E uid j gs ?s'" by (simp add: guess_all_def g)
  have pr: "six_digits c0" "snd (verify_code E t0 uid j c0 s) = Inr False" "all_wrong E uid j gs ?s'" "sorted (map fst gs @ [t])" "t0 \<le> t"
    using Cons.prems(3,4) g by (auto simp: sorted_append)
  have ok': "otp_ok E ?s'" by (rule verify_code_step [OF Cons.prems(1)])
  show ?case
  proof (cases "current_otp s uid j")
    case None
    then show ?thesis by (simp add: guess_all_None blocked_None)
  next
    case (Some row)
    show ?thesis
    proof (cases "t0 < eo_expires_at row")
      case True
      have "case current_otp ?s' uid j of None \<Rightarrow> True | Some row \<Rightarrow> EMAIL_MFA_MAX_ATTEMPTS (cfg E) \<le> eo_attempts row + int (length gs)"
        using wrong_guess [OF Cons.prems(1,2) Some pr(2,1) True] Cons.prems(5) Some by (auto split: if_splits)
      then show ?thesis unfolding step by (intro Cons.IH ok' Cons.prems(2) pr(3,4))
    next
      case False
      have "\<forall>(u, c) \<in> set (g # gs). eo_expires_at row \<le> u" using False Cons.prems(4) g by auto
      then show ?thesis using False pr(5) by (simp add: guess_all_expired [OF Some] blocked_expired [OF Some] del: set_simps)
    qed
  qed
qed

subsection \<open>Properties\<close>

text \<open>
  Property. One live code per user. In every state that issuing, resending and verifying codes can
  reach, a user has at most one code that is neither consumed nor invalidated, and its number
  of wrong guesses is below the limit.
\<close>

theorem email_single_live_code:
  assumes "(otp_step E)\<^sup>*\<^sup>* empty_db s" and "1 \<le> EMAIL_MFA_MAX_ATTEMPTS (cfg E)"
  shows "length (filter (\<lambda>r. eo_user_id r = uid \<and> otp_live r) (mfa_email_otps s)) \<le> 1
    \<and> list_all (\<lambda>r. \<not> otp_live r \<or> eo_attempts r < EMAIL_MFA_MAX_ATTEMPTS (cfg E)) (mfa_email_otps s)"
proof -
  have ok: "otp_ok E s" by (rule otp.reachable [OF assms(1) otp_ok_empty])
  let ?L = "filter (\<lambda>r. eo_user_id r = uid \<and> otp_live r) (mfa_email_otps s)"
  have d: "distinct ?L" using ok by (simp add: otp_ok_def distinct_map)
  have "r = r'" if "r \<in> set ?L" "r' \<in> set ?L" for r r' using ok that unfolding otp_ok_def by simp
  then have "card (set ?L) \<le> Suc 0" by (simp only: card_le_Suc0_iff_eq [OF finite_set]) blast
  then have "length ?L \<le> 1" using distinct_card [OF d] by simp
  then show ?thesis using ok assms(2) by (auto simp: otp_ok_def list_all_iff)
qed

text \<open>
  Property. A code works once. When \<open>verify_code\<close> accepts, the code was well formed, not expired and
  matched the digest of the user's live code for that challenge; afterwards every further
  attempt for the challenge is refused, whatever the code and the time, until a new code is
  sent.
\<close>

theorem email_code_single_use:
  assumes ok: "otp_ok E s" and v: "verify_code E now uid j code s = (s', Inr True)"
  shows "verify_code E' now' uid j code' s' = (s', Inr False)
    \<and> six_digits code \<and> (\<exists>row. current_otp s uid j = Some row \<and> now < eo_expires_at row
         \<and> otp_digest E uid (eo_challenge_jti row) code = Some (eo_code_hash row))"
proof -
  obtain row where cur: "current_otp s uid j = Some row" using v by (cases "current_otp s uid j") (auto simp: verify_code_def)
  note row = current_otp_Some [OF cur]
  have c: "now < eo_expires_at row" "six_digits code" "otp_digest E uid (eo_challenge_jti row) code = Some (eo_code_hash row)"
    "eo_attempts row < EMAIL_MFA_MAX_ATTEMPTS (cfg E)"
    and s': "mfa_email_otps s' = update_where (\<lambda>r. eo_id r = eo_id row \<and> eo_code_hash r = eo_code_hash row
        \<and> otp_live r \<and> now < eo_expires_at r \<and> eo_attempts r < EMAIL_MFA_MAX_ATTEMPTS (cfg E)) (\<lambda>r. r\<lparr>eo_consumed_at := Some now\<rparr>) (mfa_email_otps s)"
    using v cur row by (auto simp: verify_code_def Let_def split: if_splits option.splits)
  have "\<not> (eo_user_id r = uid \<and> otp_live r)" if r: "r \<in> set (mfa_email_otps s')" for r
  proof -
    from r obtain x where x: "x \<in> set (mfa_email_otps s)" and rx: "r = (if eo_id x = eo_id row \<and> eo_code_hash x = eo_code_hash row
        \<and> otp_live x \<and> now < eo_expires_at x \<and> eo_attempts x < EMAIL_MFA_MAX_ATTEMPTS (cfg E) then x\<lparr>eo_consumed_at := Some now\<rparr> else x)"
      unfolding s' update_where_def by auto
    show ?thesis
    proof (cases "x = row")
      case True
      then show ?thesis using rx row c by (simp add: otp_live_def)
    next
      case False
      have "x = row" if "eo_user_id x = uid" "otp_live x" using ok x row that unfolding otp_ok_def by simp
      moreover have "eo_user_id r = eo_user_id x" "otp_live r \<Longrightarrow> otp_live x" using rx by (auto simp: otp_live_def split: if_splits)
      ultimately show ?thesis using False by auto
    qed
  qed
  then have "current_otp s' uid j = None" by (auto simp: current_otp_None)
  then show ?thesis using cur c by (simp add: blocked_None)
qed

definition otp_env :: env where
  "otp_env = (sample_env Map.empty)\<lparr>cfg := default_settings\<lparr>EMAIL_MFA_ENABLED := True, EMAIL_MFA_OTP_PEPPER := ''p''\<rparr>,
     hmac_sha256_hex := (\<lambda>k m. m)\<rparr>"

definition otp_db :: db where
  "otp_db = empty_db\<lparr>mfa_email_otps := [\<lparr>eo_id = 1, eo_user_id = 1, eo_challenge_jti = ''c'', eo_code_hash = show_int 1 @ '':c:123456'', eo_attempts = 0,
     eo_created_at = 0, eo_expires_at = seconds 300, eo_consumed_at = None, eo_invalidated_at = None\<rparr>]\<rparr>"

lemma otp_ok_otp_db: "otp_ok E otp_db"
  by (simp add: otp_ok_def otp_db_def empty_db_def otp_live_def)

lemma current_otp_db: "current_otp otp_db 1 (Some ''c'') = Some (hd (mfa_email_otps otp_db))"
  using current_otp_unique [OF otp_ok_otp_db, of "hd (mfa_email_otps otp_db)"] by (simp add: otp_db_def empty_db_def otp_live_def)

lemma verify_otp_db:
  "verify_code otp_env 0 1 (Some ''c'') ''123456'' otp_db = (fst (verify_code otp_env 0 1 (Some ''c'') ''123456'' otp_db), Inr True)"
  unfolding verify_code_def current_otp_db
  by (simp add: otp_db_def empty_db_def otp_env_def otp_digest_def six_digits_def is_digit_def seconds_def default_settings_def Let_def)

theorem email_code_single_use_witness:
  "snd (verify_code otp_env 5 1 (Some ''c'') ''123456'' (fst (verify_code otp_env 0 1 (Some ''c'') ''123456'' otp_db))) = Inr False"
  using email_code_single_use [OF otp_ok_otp_db verify_otp_db, of otp_env 5 "''123456''"] by simp

theorem email_single_live_code_witness:
  "length (filter (\<lambda>r. eo_user_id r = 1 \<and> otp_live r) (mfa_email_otps (fst (verify_code otp_env 0 1 (Some ''c'') ''000000'' empty_db)))) \<le> 1"
proof -
  have "(otp_step otp_env)\<^sup>*\<^sup>* empty_db (fst (verify_code otp_env 0 1 (Some ''c'') ''000000'' empty_db))"
    by (intro r_into_rtranclp otp_step.verify_code)
  from email_single_live_code [OF this] show ?thesis by (simp add: otp_env_def default_settings_def)
qed

text \<open>
  Property. Guessing is bounded. After as many wrong six-digit guesses for a challenge as
  \<open>EMAIL_MFA_MAX_ATTEMPTS\<close>, in order of time, the next attempt is refused even if it is the
  right code.
\<close>

theorem email_guesses_bounded:
  assumes "otp_ok E s" and "1 \<le> EMAIL_MFA_MAX_ATTEMPTS (cfg E)" and "all_wrong E uid j guesses s"
    and "EMAIL_MFA_MAX_ATTEMPTS (cfg E) \<le> int (length guesses)" and "sorted (map fst guesses @ [t])"
  shows "snd (verify_code E t uid j code (guess_all E uid j guesses s)) = Inr False"
proof (rule guesses_exhausted [OF assms(1,2,3,5)])
  show "case current_otp s uid j of None \<Rightarrow> True | Some row \<Rightarrow> EMAIL_MFA_MAX_ATTEMPTS (cfg E) \<le> eo_attempts row + int (length guesses)"
    using assms(1,4) by (auto simp: otp_ok_def split: option.splits dest!: current_otp_Some)
qed

theorem email_guesses_bounded_witness:
  "let E = otp_env\<lparr>cfg := (cfg otp_env)\<lparr>EMAIL_MFA_MAX_ATTEMPTS := 1\<rparr>\<rparr> in
   snd (verify_code E 9 1 (Some ''c'') ''123456'' (guess_all E 1 (Some ''c'') [(3, ''000000'')] otp_db)) = Inr False"
proof -
  let ?E = "otp_env\<lparr>cfg := (cfg otp_env)\<lparr>EMAIL_MFA_MAX_ATTEMPTS := 1\<rparr>\<rparr>"
  have "snd (verify_code ?E 3 1 (Some ''c'') ''000000'' otp_db) = Inr False"
    unfolding verify_code_def current_otp_db
    by (simp add: otp_db_def empty_db_def otp_env_def otp_digest_def six_digits_def is_digit_def seconds_def default_settings_def Let_def)
  then have "all_wrong ?E 1 (Some ''c'') [(3, ''000000'')] otp_db" by (simp add: six_digits_def is_digit_def)
  from email_guesses_bounded [OF otp_ok_otp_db _ this, of 9 "''123456''"] show ?thesis by (simp add: Let_def)
qed

text \<open>
  Property. Mail is bounded. Whenever a code is sent, at most \<open>EMAIL_MFA_MAX_SENDS_PER_HOUR\<close> codes,
  the new one included, were created for that user within the last hour, and a resend comes
  no sooner than the cool-down after the newest code.
\<close>

theorem email_sends_bounded:
  assumes i: "issue_code E now code u tok resend s = Inr (s', n)"
  shows "int (length (sends_since s' (u_id u) (now - seconds 3600))) \<le> EMAIL_MFA_MAX_SENDS_PER_HOUR (cfg E)
    \<and> (case (if resend then newest (filter (\<lambda>r. eo_user_id r = u_id u) (mfa_email_otps s)) else None) of
         None \<Rightarrow> True | Some r \<Rightarrow> seconds (EMAIL_MFA_RESEND_COOLDOWN_SECONDS (cfg E)) \<le> now - eo_created_at r)"
proof -
  obtain jti where sc: "send_code E now code u jti resend s = Inr (s', n)" using issue_code_Inr [OF i] by blast
  let ?f = "\<lambda>r. if eo_user_id r = u_id u \<and> otp_live r then r\<lparr>eo_invalidated_at := Some now\<rparr> else r"
  have f: "eo_user_id (?f r) = eo_user_id r" "eo_created_at (?f r) = eo_created_at r" for r by simp_all
  have "length (filter (\<lambda>r. eo_user_id r = u_id u \<and> now - seconds 3600 \<le> eo_created_at r) (map ?f (mfa_email_otps s)))
      = length (filter (\<lambda>r. eo_user_id r = u_id u \<and> now - seconds 3600 \<le> eo_created_at r) (mfa_email_otps s))"
    by (simp only: filter_map o_def f length_map)
  then have "length (sends_since s' (u_id u) (now - seconds 3600)) \<le> Suc (length (sends_since s (u_id u) (now - seconds 3600)))"
    using send_code_otps(1) [OF sc] by (auto simp: sends_since_def update_where_def)
  then have "int (length (sends_since s' (u_id u) (now - seconds 3600))) \<le> EMAIL_MFA_MAX_SENDS_PER_HOUR (cfg E)"
    using send_code_otps(2) [OF sc] by linarith
  then show ?thesis using i by (auto simp: issue_code_def Let_def split: if_splits sum.splits option.splits)
qed

definition otp_user :: user where
  "otp_user = \<lparr>u_id = 1, u_email = ''a'', u_hashed_password = None, u_status = ''active'', u_preferred_timezone = None,
     u_created_at = None, u_status_changed_at = None, u_status_changed_reason = None, u_status_changed_by_user_id = None,
     u_last_login_at = None, u_authentication_method = None, u_mfa_enabled = False, u_mfa_status = ''disabled'',
     u_mfa_primary_method = None, u_mfa_enabled_at = None, u_mfa_last_verified_at = None\<rparr>"

theorem email_sends_bounded_witness:
  "\<exists>s' n. issue_code (otp_env\<lparr>jwt_decode := (\<lambda>now t k a aud. Some [(''type'', JStr ''mfa_challenge''), (''user_id'', JInt 1),
        (''auth_method'', JStr ''password''), (''jti'', JStr ''c'')])\<rparr>) 0 ''123456'' otp_user ''tok'' False empty_db = Inr (s', n)
     \<and> int (length (sends_since s' 1 (0 - seconds 3600))) \<le> 5"
proof -
  let ?E = "otp_env\<lparr>jwt_decode := (\<lambda>now t k a aud. Some [(''type'', JStr ''mfa_challenge''), (''user_id'', JInt 1),
        (''auth_method'', JStr ''password''), (''jti'', JStr ''c'')])\<rparr>"
  have "\<exists>p. issue_code ?E 0 ''123456'' otp_user ''tok'' False empty_db = Inr p"
    by (simp add: issue_code_def send_code_def is_enabled_for_def challenge_identity_def decode_token_def decode_token_for_audience_def
        otp_env_def sample_env_def default_settings_def otp_user_def otp_digest_def sends_since_def empty_db_def query_exists_def Let_def)
  then obtain s' n where i: "issue_code ?E 0 ''123456'' otp_user ''tok'' False empty_db = Inr (s', n)" by force
  have "EMAIL_MFA_MAX_SENDS_PER_HOUR (cfg ?E) = 5" "u_id otp_user = 1" by (simp_all add: otp_env_def default_settings_def otp_user_def)
  with email_sends_bounded [OF i] i show ?thesis by auto
qed

end
