(* ===== verification/Throttling.thy ===== *)
theory Throttling
  imports Audit_Log Rate_Limiting
begin

text \<open>
  \<open>app/services/login_throttle_service.py\<close> and \<open>app/services/mfa_throttle_service.py\<close>:
  the two policies on top of the rate limiter. Each keeps three dimensions (account,
  account and IP, IP) and escalates the lock-out of the account dimension on repeated
  offences.

  \<open>sys\<close> is the state a request handler works on: the database, the limiter, and the
  labels of the Prometheus counter \<open>*_DIMENSION_TRIGGERED\<close> in the order they were
  incremented. \<open>throttle_attempt\<close> is the pattern both modules repeat: record an attempt,
  and on a new lock escalate, count and audit it.
\<close>

record 'r sys =
  s_db :: db
  s_lim :: "'r limiter"
  s_triggered :: "string list"

record throttle_status =
  th_locked :: bool
  th_retry_after_seconds :: int

subsection \<open>Keys\<close>

definition lock_of :: "string \<Rightarrow> string" where
  "lock_of k = k @ '':lock''"

definition login_account_key :: "env \<Rightarrow> string \<Rightarrow> string" where
  "login_account_key E email = ''ratelimit:acct:'' @ take 16 (sha256_hex E (str_lower (str_strip email)))"

definition login_ip_key :: "string \<Rightarrow> string" where
  "login_ip_key ip = ''ratelimit:ip:'' @ ip"

definition login_pair_key :: "env \<Rightarrow> string \<Rightarrow> string \<Rightarrow> string" where
  "login_pair_key E email ip =
     ''ratelimit:pair:'' @ take 16 (sha256_hex E (ip @ '':'' @ str_lower (str_strip email)))"

definition login_strike_key :: "env \<Rightarrow> string \<Rightarrow> string" where
  "login_strike_key E email = ''ratelimit:strikes:'' @ take 16 (sha256_hex E (str_lower (str_strip email)))"

definition mfa_account_key :: "int \<Rightarrow> string" where
  "mfa_account_key user_id = ''mfaratelimit:acct:'' @ show_int user_id"

definition mfa_ip_key :: "string \<Rightarrow> string" where
  "mfa_ip_key ip = ''mfaratelimit:ip:'' @ ip"

definition mfa_pair_key :: "env \<Rightarrow> int \<Rightarrow> string \<Rightarrow> string" where
  "mfa_pair_key E user_id ip =
     ''mfaratelimit:pair:'' @ take 16 (sha256_hex E (ip @ '':'' @ show_int user_id))"

definition mfa_strike_key :: "int \<Rightarrow> string" where
  "mfa_strike_key user_id = ''mfaratelimit:strikes:'' @ show_int user_id"

text \<open>\<open>ip or ""\<close>\<close>

definition ip_or_empty :: "string option \<Rightarrow> string" where
  "ip_or_empty ip = (case ip of None \<Rightarrow> [] | Some i \<Rightarrow> i)"

subsection \<open>Checking\<close>

text \<open>The loop over the lock keys shared by both \<open>check_throttled\<close>.\<close>

fun check_keys :: "'r redis \<Rightarrow> time \<Rightarrow> string list \<Rightarrow> 'r limiter \<Rightarrow> throttle_status \<Rightarrow> 'r limiter \<times> throttle_status" where
  "check_keys R now [] l st = (l, st)"
| "check_keys R now (k # ks) l st =
     (case is_locked R now k l of (l1, locked, ttl) \<Rightarrow>
        check_keys R now ks l1
          (if locked then \<lparr>th_locked = True, th_retry_after_seconds = max (th_retry_after_seconds st) ttl\<rparr> else st))"

abbreviation not_throttled :: throttle_status where
  "not_throttled \<equiv> \<lparr>th_locked = False, th_retry_after_seconds = 0\<rparr>"

definition login_check_throttled ::
  "'r redis \<Rightarrow> env \<Rightarrow> time \<Rightarrow> string \<Rightarrow> string option \<Rightarrow> 'r sys \<Rightarrow> 'r sys \<times> throttle_status" where
  "login_check_throttled R E now email ip_opt s =
     (if \<not> TS_ENABLED (RATE_LIMIT (cfg E)) then (s, not_throttled)
      else let ip = ip_or_empty ip_opt;
               keys = [lock_of (login_account_key E email), lock_of (login_pair_key E email ip)]
                      @ (if ip \<noteq> [] then [lock_of (login_ip_key ip)] else []);
               (l, st) = check_keys R now keys (s_lim s) not_throttled
           in (s\<lparr>s_lim := l\<rparr>, st))"

definition mfa_check_throttled ::
  "'r redis \<Rightarrow> env \<Rightarrow> time \<Rightarrow> int \<Rightarrow> string option \<Rightarrow> 'r sys \<Rightarrow> 'r sys \<times> throttle_status" where
  "mfa_check_throttled R E now user_id ip_opt s =
     (if \<not> TS_ENABLED (MFA_RATE_LIMIT (cfg E)) then (s, not_throttled)
      else let ip = ip_or_empty ip_opt;
               keys = [lock_of (mfa_account_key user_id), lock_of (mfa_pair_key E user_id ip)]
                      @ (if ip \<noteq> [] then [lock_of (mfa_ip_key ip)] else []);
               (l, st) = check_keys R now keys (s_lim s) not_throttled
           in (s\<lparr>s_lim := l\<rparr>, st))"

subsection \<open>Recording failures\<close>

definition throttle_attempt ::
  "'r redis \<Rightarrow> env \<Rightarrow> time \<Rightarrow> string \<Rightarrow> int \<Rightarrow> int \<Rightarrow> int \<Rightarrow> int option \<Rightarrow> int option
     \<Rightarrow> ('r sys \<Rightarrow> 'r sys) \<Rightarrow> 'r sys \<Rightarrow> 'r sys" where
  "throttle_attempt R E now key window maxa lockout fb_win fb_maxa on_lock s =
     (let (l, res) = record_attempt R (cfg E) now key (lock_of key) window maxa lockout fb_win fb_maxa (s_lim s);
          s1 = s\<lparr>s_lim := l\<rparr>
      in if res_newly_locked res then on_lock s1 else s1)"

text \<open>The lock-out time of the n-th strike before it is compared with the base time.\<close>

definition escalated_seconds :: "throttle_settings \<Rightarrow> int \<Rightarrow> int" where
  "escalated_seconds T strikes =
     min (TS_ACCOUNT_LOCKOUT_SECONDS T * TS_PROGRESSIVE_MULTIPLIER T ^ nat (strikes - 1)) (TS_MAX_LOCKOUT_SECONDS T)"

definition apply_progressive_escalation ::
  "'r redis \<Rightarrow> throttle_settings \<Rightarrow> time \<Rightarrow> string \<Rightarrow> string \<Rightarrow> 'r sys \<Rightarrow> 'r sys" where
  "apply_progressive_escalation R T now strike_key account_key s =
     (let (l, strikes) = bump_strikes R now strike_key (TS_STRIKE_TTL_SECONDS T) (s_lim s);
          s1 = s\<lparr>s_lim := l\<rparr>
      in if strikes \<le> 1 then s1
         else let escalated = escalated_seconds T strikes
              in if TS_ACCOUNT_LOCKOUT_SECONDS T < escalated
                 then s1\<lparr>s_lim := set_lock_ttl R now (lock_of account_key) escalated (s_lim s1)\<rparr>
                 else s1)"

definition login_audit_triggered :: "env \<Rightarrow> time \<Rightarrow> string \<Rightarrow> string \<Rightarrow> string \<Rightarrow> int \<Rightarrow> 'r sys \<Rightarrow> 'r sys" where
  "login_audit_triggered E now email ip dimension lockout s =
     s\<lparr>s_triggered := s_triggered s @ [dimension],
       s_db := log_event E now ((audit ''auth_rate_limit_triggered'')
         \<lparr>a_meta := JObj [(''email'', JStr email), (''ip'', JStr ip), (''dimension'', JStr dimension),
                          (''lockout_seconds'', JInt lockout)]\<rparr>) (s_db s)\<rparr>"

definition login_record_failure ::
  "'r redis \<Rightarrow> env \<Rightarrow> time \<Rightarrow> string \<Rightarrow> string option \<Rightarrow> 'r sys \<Rightarrow> 'r sys" where
  "login_record_failure R E now email ip_opt s =
     (let T = RATE_LIMIT (cfg E); ip = ip_or_empty ip_opt in
      if \<not> TS_ENABLED T then s
      else
        let s1 = throttle_attempt R E now (login_account_key E email)
                   (TS_ACCOUNT_WINDOW_SECONDS T) (TS_ACCOUNT_MAX_ATTEMPTS T) (TS_ACCOUNT_LOCKOUT_SECONDS T) None None
                   (\<lambda>s. login_audit_triggered E now email ip ''account'' (TS_ACCOUNT_LOCKOUT_SECONDS T)
                          (apply_progressive_escalation R T now (login_strike_key E email) (login_account_key E email) s)) s;
            s2 = throttle_attempt R E now (login_pair_key E email ip)
                   (TS_PAIR_WINDOW_SECONDS T) (TS_PAIR_MAX_ATTEMPTS T) (TS_PAIR_LOCKOUT_SECONDS T) None None
                   (login_audit_triggered E now email ip ''pair'' (TS_PAIR_LOCKOUT_SECONDS T)) s1
        in if ip \<noteq> []
           then throttle_attempt R E now (login_ip_key ip)
                  (TS_IP_WINDOW_SECONDS T) (TS_IP_MAX_ATTEMPTS T) (TS_IP_LOCKOUT_SECONDS T) None None
                  (login_audit_triggered E now email ip ''ip'' (TS_IP_LOCKOUT_SECONDS T)) s2
           else s2)"

definition login_record_success :: "'r redis \<Rightarrow> env \<Rightarrow> time \<Rightarrow> string \<Rightarrow> string option \<Rightarrow> 'r sys \<Rightarrow> 'r sys" where
  "login_record_success R E now email ip_opt s =
     (if \<not> TS_ENABLED (RATE_LIMIT (cfg E)) then s
      else let ip = ip_or_empty ip_opt; acct = login_account_key E email; pair = login_pair_key E email ip
           in s\<lparr>s_lim := clear R now [acct, lock_of acct, login_strike_key E email, pair, lock_of pair] (s_lim s)\<rparr>)"

definition mfa_audit_triggered :: "env \<Rightarrow> time \<Rightarrow> int \<Rightarrow> string \<Rightarrow> int option \<Rightarrow> string \<Rightarrow> int \<Rightarrow> 'r sys \<Rightarrow> 'r sys" where
  "mfa_audit_triggered E now user_id ip organization_id dimension lockout s =
     s\<lparr>s_triggered := s_triggered s @ [dimension],
       s_db := log_event E now ((audit ''mfa_rate_limit_triggered'')
         \<lparr>a_actor := Some user_id, a_target := Some user_id, a_org := organization_id,
          a_rtype := Some ''user'', a_rid := Some (show_int user_id),
          a_meta := JObj [(''ip'', JStr ip), (''dimension'', JStr dimension),
                          (''lockout_seconds'', JInt lockout)]\<rparr>) (s_db s)\<rparr>"

definition mfa_record_failure ::
  "'r redis \<Rightarrow> env \<Rightarrow> time \<Rightarrow> int \<Rightarrow> string option \<Rightarrow> int option \<Rightarrow> 'r sys \<Rightarrow> 'r sys" where
  "mfa_record_failure R E now user_id ip_opt organization_id s =
     (let T = MFA_RATE_LIMIT (cfg E); ip = ip_or_empty ip_opt;
          fw = Some (TS_FALLBACK_WINDOW_SECONDS T); fm = Some (TS_FALLBACK_MAX_ATTEMPTS T) in
      if \<not> TS_ENABLED T then s
      else
        let s1 = throttle_attempt R E now (mfa_account_key user_id)
                   (TS_ACCOUNT_WINDOW_SECONDS T) (TS_ACCOUNT_MAX_ATTEMPTS T) (TS_ACCOUNT_LOCKOUT_SECONDS T) fw fm
                   (\<lambda>s. mfa_audit_triggered E now user_id ip organization_id ''account'' (TS_ACCOUNT_LOCKOUT_SECONDS T)
                          (apply_progressive_escalation R T now (mfa_strike_key user_id) (mfa_account_key user_id) s)) s;
            s2 = throttle_attempt R E now (mfa_pair_key E user_id ip)
                   (TS_PAIR_WINDOW_SECONDS T) (TS_PAIR_MAX_ATTEMPTS T) (TS_PAIR_LOCKOUT_SECONDS T) fw fm
                   (mfa_audit_triggered E now user_id ip organization_id ''pair'' (TS_PAIR_LOCKOUT_SECONDS T)) s1
        in if ip \<noteq> []
           then throttle_attempt R E now (mfa_ip_key ip)
                  (TS_IP_WINDOW_SECONDS T) (TS_IP_MAX_ATTEMPTS T) (TS_IP_LOCKOUT_SECONDS T) fw fm
                  (mfa_audit_triggered E now user_id ip organization_id ''ip'' (TS_IP_LOCKOUT_SECONDS T)) s2
           else s2)"

definition mfa_record_success :: "'r redis \<Rightarrow> env \<Rightarrow> time \<Rightarrow> int \<Rightarrow> string option \<Rightarrow> 'r sys \<Rightarrow> 'r sys" where
  "mfa_record_success R E now user_id ip_opt s =
     (if \<not> TS_ENABLED (MFA_RATE_LIMIT (cfg E)) then s
      else let ip = ip_or_empty ip_opt; acct = mfa_account_key user_id; pair = mfa_pair_key E user_id ip
           in s\<lparr>s_lim := clear R now [acct, lock_of acct, mfa_strike_key user_id, pair, lock_of pair] (s_lim s)\<rparr>)"

subsection \<open>Which keys an operation touches\<close>

abbreviation s_red :: "'r sys \<Rightarrow> 'r" where
  "s_red s \<equiv> lim_redis (s_lim s)"

definition throttle_ok :: "throttle_settings \<Rightarrow> bool" where
  "throttle_ok T \<longleftrightarrow> 0 < TS_ACCOUNT_WINDOW_SECONDS T \<and> 0 < TS_ACCOUNT_LOCKOUT_SECONDS T
     \<and> 0 < TS_PAIR_WINDOW_SECONDS T \<and> 0 < TS_PAIR_LOCKOUT_SECONDS T
     \<and> 0 < TS_IP_WINDOW_SECONDS T \<and> 0 < TS_IP_LOCKOUT_SECONDS T \<and> 0 < TS_STRIKE_TTL_SECONDS T"

lemma throttle_ok_default [simp]: "throttle_ok default_rate_limit" "throttle_ok default_mfa_rate_limit"
  by (simp_all add: throttle_ok_def default_rate_limit_def default_mfa_rate_limit_def)

lemma lock_of_neq [simp]: "k \<noteq> lock_of k" "lock_of k \<noteq> k" "lock_of j = lock_of k \<longleftrightarrow> j = k"
  by (auto simp: lock_of_def)

context redis_store
begin

lemma script_up: "red_up R (fst (incr_and_lock_script R t fk lk w m lo r)) = red_up R r"
  using up_incr [of t r fk]
  by (auto simp: incr_and_lock_script_def up_expire up_set_ex Let_def split: prod.splits)

lemma incr_other: "k \<noteq> fk \<Longrightarrow> entry (fst (red_incr R t r fk)) k = entry r k"
  using incr [of t r fk "fst (red_incr R t r fk)" "snd (red_incr R t r fk)"]
  by (auto split: option.splits prod.splits)

lemma expire_other: "0 < n \<Longrightarrow> k \<noteq> fk \<Longrightarrow> entry (red_expire R t r fk n) k = entry r k"
  by (auto simp: expire split: option.splits)

lemma script_other:
  "0 < w \<Longrightarrow> 0 < lo \<Longrightarrow> k \<notin> {fk, lk} \<Longrightarrow> entry (fst (incr_and_lock_script R t fk lk w m lo r)) k = entry r k"
  using incr_other [of k fk t r]
  by (auto simp: incr_and_lock_script_def set_ex expire_other Let_def split: prod.splits)

lemma attempt_redis:
  assumes "red_up R (lim_redis l)"
  shows "lim_redis (fst (record_attempt R S t fk lk w m lo fw fm l)) = fst (incr_and_lock_script R t fk lk w m lo (lim_redis l))"
  using assms by (simp add: record_attempt_def Let_def split: prod.splits)

text \<open>\<open>keeps K f\<close>: the handler \<open>f\<close> leaves Redis reachable and all keys outside \<open>K\<close> alone.\<close>

definition keeps :: "string set \<Rightarrow> ('r sys \<Rightarrow> 'r sys) \<Rightarrow> bool" where
  "keeps K f \<longleftrightarrow> (\<forall>s. red_up R (s_red s) \<longrightarrow> red_up R (s_red (f s)) \<and> (\<forall>k. k \<notin> K \<longrightarrow> entry (s_red (f s)) k = entry (s_red s) k))"

lemma keepsD: "keeps K f \<Longrightarrow> red_up R (s_red s) \<Longrightarrow> red_up R (s_red (f s))"
  "keeps K f \<Longrightarrow> red_up R (s_red s) \<Longrightarrow> k \<notin> K \<Longrightarrow> entry (s_red (f s)) k = entry (s_red s) k"
  by (simp_all add: keeps_def)

lemma keeps_audit: "keeps {} (login_audit_triggered E t em ip dim lo)" "keeps {} (mfa_audit_triggered E t u ip org dim lo)"
  by (simp_all add: keeps_def login_audit_triggered_def mfa_audit_triggered_def)

lemma keeps_throttle_attempt:
  assumes "0 < w" "0 < lo" "keeps K f"
  shows "keeps (insert key (insert (lock_of key) K)) (throttle_attempt R E t key w m lo fw fm f)"
  unfolding keeps_def
proof (intro allI impI conjI)
  fix s :: "'r sys" assume up: "red_up R (s_red s)"
  let ?l = "fst (record_attempt R (cfg E) t key (lock_of key) w m lo fw fm (s_lim s))"
  have up': "red_up R (s_red (s\<lparr>s_lim := ?l\<rparr>))" using up by (simp add: attempt_redis script_up)
  show "red_up R (s_red (throttle_attempt R E t key w m lo fw fm f s))"
    using up' keepsD(1) [OF assms(3) up'] by (simp add: throttle_attempt_def Let_def split_beta)
  fix k assume k: "k \<notin> insert key (insert (lock_of key) K)"
  have "entry (lim_redis ?l) k = entry (s_red s) k"
    using assms(1,2) k up by (simp add: attempt_redis script_other)
  then show "entry (s_red (throttle_attempt R E t key w m lo fw fm f s)) k = entry (s_red s) k"
    using keepsD(2) [OF assms(3) up'] k by (simp add: throttle_attempt_def Let_def split_beta)
qed

lemma bump_redis:
  assumes "red_up R (lim_redis l)"
  shows "lim_redis (fst (bump_strikes R t k ttl l)) = fst (strike_script R t k ttl (lim_redis l))"
    and "snd (bump_strikes R t k ttl l) = snd (strike_script R t k ttl (lim_redis l))"
  using assms by (simp_all add: bump_strikes_def Let_def split_beta)

lemma strike_up: "red_up R (fst (strike_script R t k ttl r)) = red_up R r"
  by (simp add: strike_script_def up_incr up_expire Let_def split_beta)

lemma strike_other: "0 < ttl \<Longrightarrow> k' \<noteq> k \<Longrightarrow> entry (fst (strike_script R t k ttl r)) k' = entry r k'"
  by (simp add: strike_script_def incr_other expire_other Let_def split_beta)

lemma set_lock_ttl_redis:
  "red_up R (lim_redis l) \<Longrightarrow> lim_redis (set_lock_ttl R t k n l) = red_expire R t (lim_redis l) k n"
  by (simp add: set_lock_ttl_def)

lemma keeps_escalation:
  assumes "throttle_ok T"
  shows "keeps {sk, lock_of ak} (apply_progressive_escalation R T t sk ak)"
  using assms
  by (auto simp: keeps_def apply_progressive_escalation_def throttle_ok_def bump_redis strike_up strike_other
      set_lock_ttl_redis up_expire expire_other Let_def split_beta)

text \<open>The lock-out time an offence ends up with, given the number of strikes.\<close>

lemma escalation_lock:
  assumes "throttle_ok T" and up: "red_up R (s_red s)" and ne: "sk \<noteq> lock_of ak"
    and e: "entry (s_red s) (lock_of ak) = Some (v, Some (t + seconds (TS_ACCOUNT_LOCKOUT_SECONDS T)))"
  shows "entry (s_red (apply_progressive_escalation R T t sk ak s)) (lock_of ak)
       = Some (v, Some (t + seconds (let n = snd (strike_script R t sk (TS_STRIKE_TTL_SECONDS T) (s_red s))
                in if n \<le> 1 then TS_ACCOUNT_LOCKOUT_SECONDS T
                   else max (TS_ACCOUNT_LOCKOUT_SECONDS T) (escalated_seconds T n))))"
proof -
  let ?L = "TS_ACCOUNT_LOCKOUT_SECONDS T"
  let ?b = "bump_strikes R t sk (TS_STRIKE_TTL_SECONDS T) (s_lim s)"
  let ?n = "snd (strike_script R t sk (TS_STRIKE_TTL_SECONDS T) (s_red s))"
  have pos: "0 < ?L" "0 < TS_STRIKE_TTL_SECONDS T" using assms(1) by (simp_all add: throttle_ok_def)
  have up': "red_up R (lim_redis (fst ?b))" and n: "snd ?b = ?n"
    using up by (simp_all add: bump_redis strike_up)
  have e': "entry (lim_redis (fst ?b)) (lock_of ak) = Some (v, Some (t + seconds ?L))"
    using up ne e pos by (simp add: bump_redis strike_other)
  show ?thesis
  proof (cases "?n \<le> 1 \<or> escalated_seconds T ?n \<le> ?L")
    case True
    then show ?thesis using e' n
      by (auto simp: apply_progressive_escalation_def Let_def split_beta max_def)
  next
    case False
    then have esc: "0 < escalated_seconds T ?n" using pos by linarith
    have "live_entry entry t (lim_redis (fst ?b)) (lock_of ak) = Some (v, Some (t + seconds ?L))"
      using e' pos by (simp add: live_entry_def alive_def)
    then show ?thesis using False up' esc n
      by (simp add: apply_progressive_escalation_def Let_def split_beta set_lock_ttl_redis expire)
  qed
qed

lemma account_attempt:
  assumes ok: "throttle_ok T" and up: "red_up R (s_red s)" and g: "keeps {} g"
    and sk: "sk \<notin> {ak, lock_of ak}"
    and free: "entry (s_red s) (lock_of ak) = None"
    and c: "entry (s_red s) ak = None \<and> c = 0 \<and> d = t + seconds W \<or> entry (s_red s) ak = Some (c, Some d) \<and> t < d \<and> 1 \<le> c"
    and W: "W = TS_ACCOUNT_WINDOW_SECONDS T" and L: "L = TS_ACCOUNT_LOCKOUT_SECONDS T"
  shows "let s' = throttle_attempt R E t ak W M L fw fm (\<lambda>s. g (apply_progressive_escalation R T t sk ak s)) s in
       red_up R (s_red s') \<and> entry (s_red s') ak = Some (c + 1, Some d)
     \<and> (if M \<le> c + 1 then \<exists>v x. entry (s_red s') (lock_of ak) = Some (v, Some x) \<and> t + seconds L \<le> x
        else entry (s_red s') (lock_of ak) = None)"
proof -
  have pos: "0 < W" "0 < L" using ok W L by (simp_all add: throttle_ok_def)
  have rc: "redis_cell R entry ak (lock_of ak) W L"
    by (rule redis_cellI [OF redis_store_axioms]) (use pos in auto)
  have inv: "redis_cell.cell_inv entry ak (lock_of ak) (s_red s)"
    using free c by (auto simp: redis_cell.cell_inv_def [OF rc])
  have nl: "live_entry entry t (s_red s) (lock_of ak) = None" using free by (simp add: live_entry_def)
  have st: "(case live_entry entry t (s_red s) ak of Some (v, Some x) \<Rightarrow> (x, v) | _ \<Rightarrow> (t + seconds W, 0)) = (d, c)"
    using c by (auto simp: live_entry_def alive_def)
  note so = redis_cell.script_open [OF rc inv nl st, of M]
  let ?a = "record_attempt R (cfg E) t ak (lock_of ak) W M L fw fm (s_lim s)"
  have l: "lim_redis (fst ?a) = fst (redis_cell.script_attempt R ak (lock_of ak) W M L t (s_red s))"
    and res: "snd ?a = snd (redis_cell.script_attempt R ak (lock_of ak) W M L t (s_red s))"
    using redis_cell.record_attempt_up [OF rc up] by simp_all
  define s1 where "s1 = s\<lparr>s_lim := fst ?a\<rparr>"
  have up1: "red_up R (s_red s1)" using up by (simp add: s1_def l redis_cell.up_script [OF rc])
  have s': "throttle_attempt R E t ak W M L fw fm (\<lambda>s. g (apply_progressive_escalation R T t sk ak s)) s
      = (if M \<le> c + 1 then g (apply_progressive_escalation R T t sk ak s1) else s1)"
    by (simp add: throttle_attempt_def Let_def split_beta s1_def res so(3))
  show ?thesis
  proof (cases "M \<le> c + 1")
    case True
    let ?e = "apply_progressive_escalation R T t sk ak s1"
    have k: "keeps {sk, lock_of ak} (apply_progressive_escalation R T t sk ak)" by (rule keeps_escalation [OF ok])
    have upe: "red_up R (s_red ?e)" by (rule keepsD(1) [OF k up1])
    have "entry (s_red s1) (lock_of ak) = Some (1, Some (t + seconds (TS_ACCOUNT_LOCKOUT_SECONDS T)))"
      using so(2) True by (simp add: s1_def l flip: L)
    from escalation_lock [OF ok up1 _ this, of sk] sk
    have "\<exists>x. entry (s_red ?e) (lock_of ak) = Some (1, Some x) \<and> t + seconds L \<le> x"
      by (simp add: L Let_def seconds_def)
    moreover have "entry (s_red ?e) ak = Some (c + 1, Some d)"
    proof -
      have "entry (s_red s1) ak = Some (c + 1, Some d)" using so(1) by (simp add: s1_def l)
      moreover have "ak \<notin> {sk, lock_of ak}" using sk by auto
      ultimately show ?thesis using keepsD(2) [OF k up1] by simp
    qed
    ultimately show ?thesis using True keepsD [OF g upe] by (simp add: s' Let_def) blast
  next
    case False
    then show ?thesis using so(1,2) free up1 by (simp add: s' Let_def) (simp add: s1_def l)
  qed
qed

end

text \<open>
  The contract of one throttled account: \<open>fail t a\<close> is a failed attempt at time \<open>t\<close> in
  circumstances \<open>a\<close> (the client address), and its only promise is how it moves the
  account's counter and lock. \<open>M\<close> failures within one window lock the account.
\<close>

locale throttled_account = redis_store R entry
  for R :: "'r redis" and entry :: "'r \<Rightarrow> string \<Rightarrow> (int \<times> time option) option" +
  fixes fail :: "time \<Rightarrow> 'a \<Rightarrow> 'r sys \<Rightarrow> 'r sys" and ak :: string and W M L :: int
  assumes M_pos: "1 \<le> M" and W_pos: "0 < W"
    and fail_step: "\<lbrakk>red_up R (s_red s); entry (s_red s) (lock_of ak) = None;
       entry (s_red s) ak = None \<and> c = 0 \<and> d = t + seconds W \<or> entry (s_red s) ak = Some (c, Some d) \<and> t < d \<and> 1 \<le> c\<rbrakk>
     \<Longrightarrow> red_up R (s_red (fail t a s)) \<and> entry (s_red (fail t a s)) ak = Some (c + 1, Some d)
       \<and> (if M \<le> c + 1 then \<exists>v x. entry (s_red (fail t a s)) (lock_of ak) = Some (v, Some x) \<and> t + seconds L \<le> x
          else entry (s_red (fail t a s)) (lock_of ak) = None)"
begin

lemma fails_below:
  assumes "red_up R (s_red s)" "entry (s_red s) (lock_of ak) = None"
    and "entry (s_red s) ak = Some (c, Some d)" "1 \<le> c"
    and "\<forall>(t, a) \<in> set tas. t < d" and "c + int (length tas) < M"
  shows "let s' = fold (\<lambda>(t, a). fail t a) tas s in
       red_up R (s_red s') \<and> entry (s_red s') (lock_of ak) = None
     \<and> entry (s_red s') ak = Some (c + int (length tas), Some d)"
  using assms
proof (induction tas arbitrary: s c)
  case (Cons ta tas)
  obtain t a where ta: "ta = (t, a)" by force
  have "red_up R (s_red (fail t a s)) \<and> entry (s_red (fail t a s)) ak = Some (c + 1, Some d)
      \<and> entry (s_red (fail t a s)) (lock_of ak) = None"
    using fail_step [of s c d t a] Cons.prems ta by auto
  with Cons.IH [of "fail t a s" "c + 1"] Cons.prems show ?case
    by (simp add: ta Let_def algebra_simps)
qed simp

theorem locks_after_max:
  assumes up: "red_up R (s_red s)" and fresh: "entry (s_red s) (lock_of ak) = None" "entry (s_red s) ak = None"
    and len: "int (length tas) = M"
    and win: "\<forall>(t, a) \<in> set tas. t < fst (hd tas) + seconds W"
  shows "\<exists>v x. entry (s_red (fold (\<lambda>(t, a). fail t a) tas s)) (lock_of ak) = Some (v, Some x)
             \<and> fst (last tas) + seconds L \<le> x"
    and "red_up R (s_red (fold (\<lambda>(t, a). fail t a) tas s))"
proof -
  from len M_pos obtain t0 a0 rest where tas: "tas = (t0, a0) # rest" by (cases tas) auto
  let ?s1 = "fail t0 a0 s" and ?d = "t0 + seconds W" and ?run = "\<lambda>tas. fold (\<lambda>(t, a). fail t a) tas"
  have s1: "red_up R (s_red ?s1) \<and> entry (s_red ?s1) ak = Some (1, Some ?d)
       \<and> (if M \<le> 1 then \<exists>v x. entry (s_red ?s1) (lock_of ak) = Some (v, Some x) \<and> t0 + seconds L \<le> x
          else entry (s_red ?s1) (lock_of ak) = None)"
    using fail_step [of s 0 ?d t0 a0] up fresh by simp
  have "(\<exists>v x. entry (s_red (?run tas s)) (lock_of ak) = Some (v, Some x) \<and> fst (last tas) + seconds L \<le> x)
      \<and> red_up R (s_red (?run tas s))"
  proof (cases rest rule: rev_cases)
    case Nil
    then show ?thesis using s1 len tas by simp
  next
    case (snoc mid ta)
    obtain t a where ta: "ta = (t, a)" by force
    have M: "int (length mid) + 2 = M" using len tas snoc by simp
    let ?s2 = "?run mid ?s1"
    have "red_up R (s_red ?s2) \<and> entry (s_red ?s2) (lock_of ak) = None
       \<and> entry (s_red ?s2) ak = Some (1 + int (length mid), Some ?d)"
      using fails_below [of ?s1 1 ?d mid] s1 M win tas snoc by (simp add: Let_def)
    with fail_step [of ?s2 "1 + int (length mid)" ?d t a] M win tas snoc ta show ?thesis by simp
  qed
  then show "\<exists>v x. entry (s_red (?run tas s)) (lock_of ak) = Some (v, Some x) \<and> fst (last tas) + seconds L \<le> x"
    and "red_up R (s_red (?run tas s))" by blast+
qed

end

subsection \<open>The two policies meet the contract\<close>

lemma acct_key_neq [simp]:
  "login_account_key E em \<noteq> login_pair_key E em' ip" "login_account_key E em \<noteq> lock_of (login_pair_key E em' ip)"
  "login_account_key E em \<noteq> login_ip_key ip" "login_account_key E em \<noteq> lock_of (login_ip_key ip)"
  "lock_of (login_account_key E em) \<noteq> login_pair_key E em' ip" "lock_of (login_account_key E em) \<noteq> login_ip_key ip"
  "login_strike_key E em \<noteq> login_account_key E em'" "login_strike_key E em \<noteq> lock_of (login_account_key E em')"
  "login_ip_key ip \<noteq> login_account_key E em" "login_ip_key ip \<noteq> lock_of (login_account_key E em)"
  "login_ip_key ip \<noteq> login_strike_key E em" "login_ip_key ip \<noteq> login_pair_key E em ip'" "login_ip_key ip \<noteq> lock_of (login_pair_key E em ip')"
  "lock_of (login_ip_key ip) \<noteq> login_account_key E em" "lock_of (login_ip_key ip) \<noteq> login_strike_key E em" "lock_of (login_ip_key ip) \<noteq> login_pair_key E em ip'"
  by (simp_all add: lock_of_def login_account_key_def login_pair_key_def login_ip_key_def login_strike_key_def)

lemma mfa_acct_key_neq [simp]:
  "mfa_account_key u \<noteq> mfa_pair_key E u' ip" "mfa_account_key u \<noteq> lock_of (mfa_pair_key E u' ip)"
  "mfa_account_key u \<noteq> mfa_ip_key ip" "mfa_account_key u \<noteq> lock_of (mfa_ip_key ip)"
  "lock_of (mfa_account_key u) \<noteq> mfa_pair_key E u' ip" "lock_of (mfa_account_key u) \<noteq> mfa_ip_key ip"
  "mfa_strike_key u \<noteq> mfa_account_key u'" "mfa_strike_key u \<noteq> lock_of (mfa_account_key u')"
  "mfa_ip_key ip \<noteq> mfa_account_key u" "mfa_ip_key ip \<noteq> lock_of (mfa_account_key u)"
  "mfa_ip_key ip \<noteq> mfa_strike_key u" "mfa_ip_key ip \<noteq> mfa_pair_key E u ip'" "mfa_ip_key ip \<noteq> lock_of (mfa_pair_key E u ip')"
  "lock_of (mfa_ip_key ip) \<noteq> mfa_account_key u" "lock_of (mfa_ip_key ip) \<noteq> mfa_strike_key u" "lock_of (mfa_ip_key ip) \<noteq> mfa_pair_key E u ip'"
  by (simp_all add: lock_of_def mfa_account_key_def mfa_pair_key_def mfa_ip_key_def mfa_strike_key_def)

context redis_store
begin

text \<open>
  The effect law of the contract for any handler that records the account's attempt first
  and then only touches other keys.
\<close>

lemma fail_stepI:
  assumes ok: "throttle_ok T" and g: "keeps {} g" and h: "keeps K h" and K: "ak \<notin> K" "lock_of ak \<notin> K"
    and sk: "sk \<noteq> ak" "sk \<noteq> lock_of ak"
    and f: "f = (\<lambda>s. h (throttle_attempt R E t ak (TS_ACCOUNT_WINDOW_SECONDS T) M (TS_ACCOUNT_LOCKOUT_SECONDS T) fw fm
                        (\<lambda>s. g (apply_progressive_escalation R T t sk ak s)) s))"
    and pre: "red_up R (s_red s)" "entry (s_red s) (lock_of ak) = None"
      "entry (s_red s) ak = None \<and> c = 0 \<and> d = t + seconds (TS_ACCOUNT_WINDOW_SECONDS T)
       \<or> entry (s_red s) ak = Some (c, Some d) \<and> t < d \<and> 1 \<le> c"
  shows "red_up R (s_red (f s)) \<and> entry (s_red (f s)) ak = Some (c + 1, Some d)
     \<and> (if M \<le> c + 1 then \<exists>v x. entry (s_red (f s)) (lock_of ak) = Some (v, Some x)
                            \<and> t + seconds (TS_ACCOUNT_LOCKOUT_SECONDS T) \<le> x
        else entry (s_red (f s)) (lock_of ak) = None)"
proof -
  have "sk \<notin> {ak, lock_of ak}" using sk by simp
  note a = account_attempt [OF ok pre(1) g this pre(2,3) refl refl, of E M fw fm, unfolded Let_def]
  show ?thesis using a keepsD(1) [OF h conjunct1 [OF a]]
      keepsD(2) [OF h conjunct1 [OF a] K(1)] keepsD(2) [OF h conjunct1 [OF a] K(2)]
    by (simp add: f)
qed

lemma keeps_if: "keeps K f \<Longrightarrow> keeps K (\<lambda>s. if b then f s else s)"
  by (simp add: keeps_def)

lemma keeps_comp: "keeps K f \<Longrightarrow> keeps K' g \<Longrightarrow> keeps (K \<union> K') (\<lambda>s. g (f s))"
  by (simp add: keeps_def)

lemma login_account:
  assumes ok: "throttle_ok (RATE_LIMIT (cfg E))" and en: "TS_ENABLED (RATE_LIMIT (cfg E))"
    and M: "1 \<le> TS_ACCOUNT_MAX_ATTEMPTS (RATE_LIMIT (cfg E))"
  shows "throttled_account R entry (\<lambda>t ip. login_record_failure R E t email ip) (login_account_key E email)
    (TS_ACCOUNT_WINDOW_SECONDS (RATE_LIMIT (cfg E))) (TS_ACCOUNT_MAX_ATTEMPTS (RATE_LIMIT (cfg E)))
    (TS_ACCOUNT_LOCKOUT_SECONDS (RATE_LIMIT (cfg E)))"
proof (unfold_locales, goal_cases)
  case 2 show ?case using ok by (simp add: throttle_ok_def)
next
  case (3 s c d t ip_opt)
  let ?T = "RATE_LIMIT (cfg E)" and ?ip = "ip_or_empty ip_opt"
  let ?pk = "login_pair_key E email ?ip" and ?ik = "login_ip_key ?ip"
  let ?att = "\<lambda>k w m lo. throttle_attempt R E t k w m lo None None"
  have p: "keeps {?pk, lock_of ?pk} (?att ?pk (TS_PAIR_WINDOW_SECONDS ?T) (TS_PAIR_MAX_ATTEMPTS ?T) (TS_PAIR_LOCKOUT_SECONDS ?T)
       (login_audit_triggered E t email ?ip ''pair'' (TS_PAIR_LOCKOUT_SECONDS ?T)))"
    by (rule keeps_throttle_attempt) (use ok in \<open>auto simp: throttle_ok_def keeps_audit\<close>)
  have i: "keeps {?ik, lock_of ?ik} (?att ?ik (TS_IP_WINDOW_SECONDS ?T) (TS_IP_MAX_ATTEMPTS ?T) (TS_IP_LOCKOUT_SECONDS ?T)
       (login_audit_triggered E t email ?ip ''ip'' (TS_IP_LOCKOUT_SECONDS ?T)))"
    by (rule keeps_throttle_attempt) (use ok in \<open>auto simp: throttle_ok_def keeps_audit\<close>)
  have g: "keeps {} (login_audit_triggered E t email ?ip ''account'' (TS_ACCOUNT_LOCKOUT_SECONDS ?T))" by (rule keeps_audit)
  show ?case
    by (rule fail_stepI [OF ok g keeps_comp [OF p keeps_if [OF i, of "?ip \<noteq> []"]] _ _ _ _ _ 3,
          where E = E and sk = "login_strike_key E email" and fw = None and fm = None])
      (use en in \<open>simp_all add: login_record_failure_def Let_def fun_eq_iff\<close>)
qed (rule M)

lemma mfa_account:
  assumes ok: "throttle_ok (MFA_RATE_LIMIT (cfg E))" and en: "TS_ENABLED (MFA_RATE_LIMIT (cfg E))"
    and M: "1 \<le> TS_ACCOUNT_MAX_ATTEMPTS (MFA_RATE_LIMIT (cfg E))"
  shows "throttled_account R entry (\<lambda>t (ip, org). mfa_record_failure R E t uid ip org) (mfa_account_key uid)
    (TS_ACCOUNT_WINDOW_SECONDS (MFA_RATE_LIMIT (cfg E))) (TS_ACCOUNT_MAX_ATTEMPTS (MFA_RATE_LIMIT (cfg E)))
    (TS_ACCOUNT_LOCKOUT_SECONDS (MFA_RATE_LIMIT (cfg E)))"
proof (unfold_locales, goal_cases)
  case 2 show ?case using ok by (simp add: throttle_ok_def)
next
  case (3 s c d t a)
  obtain ip_opt org where a: "a = (ip_opt, org)" by force
  let ?T = "MFA_RATE_LIMIT (cfg E)" and ?ip = "ip_or_empty ip_opt"
  let ?pk = "mfa_pair_key E uid ?ip" and ?ik = "mfa_ip_key ?ip"
  let ?att = "\<lambda>k w m lo. throttle_attempt R E t k w m lo (Some (TS_FALLBACK_WINDOW_SECONDS ?T)) (Some (TS_FALLBACK_MAX_ATTEMPTS ?T))"
  have p: "keeps {?pk, lock_of ?pk} (?att ?pk (TS_PAIR_WINDOW_SECONDS ?T) (TS_PAIR_MAX_ATTEMPTS ?T) (TS_PAIR_LOCKOUT_SECONDS ?T)
       (mfa_audit_triggered E t uid ?ip org ''pair'' (TS_PAIR_LOCKOUT_SECONDS ?T)))"
    by (rule keeps_throttle_attempt) (use ok in \<open>auto simp: throttle_ok_def keeps_audit\<close>)
  have i: "keeps {?ik, lock_of ?ik} (?att ?ik (TS_IP_WINDOW_SECONDS ?T) (TS_IP_MAX_ATTEMPTS ?T) (TS_IP_LOCKOUT_SECONDS ?T)
       (mfa_audit_triggered E t uid ?ip org ''ip'' (TS_IP_LOCKOUT_SECONDS ?T)))"
    by (rule keeps_throttle_attempt) (use ok in \<open>auto simp: throttle_ok_def keeps_audit\<close>)
  have g: "keeps {} (mfa_audit_triggered E t uid ?ip org ''account'' (TS_ACCOUNT_LOCKOUT_SECONDS ?T))" by (rule keeps_audit)
  show ?case
    by (rule fail_stepI [OF ok g keeps_comp [OF p keeps_if [OF i, of "?ip \<noteq> []"]] _ _ _ _ _ 3,
          where E = E and sk = "mfa_strike_key uid" and fw = "Some (TS_FALLBACK_WINDOW_SECONDS ?T)"
            and fm = "Some (TS_FALLBACK_MAX_ATTEMPTS ?T)"])
      (use en in \<open>simp_all add: a mfa_record_failure_def Let_def fun_eq_iff\<close>)
qed (rule M)

end

text \<open>Under the default settings both policies are instances over the concrete key-value store.\<close>

interpretation login_acct: throttled_account kv_redis kv_entry
  "\<lambda>t ip. login_record_failure kv_redis (E\<lparr>cfg := default_settings\<rparr>) t email ip"
  "login_account_key E email" 900 10 900
  using kv.login_account [of "E\<lparr>cfg := default_settings\<rparr>" email]
  by (simp add: default_settings_def default_rate_limit_def throttle_ok_def login_account_key_def)

interpretation mfa_acct: throttled_account kv_redis kv_entry
  "\<lambda>t (ip, org). mfa_record_failure kv_redis (E\<lparr>cfg := default_settings\<rparr>) t uid ip org"
  "mfa_account_key uid" 300 5 300
  using kv.mfa_account [of "E\<lparr>cfg := default_settings\<rparr>" uid]
  by (simp add: default_settings_def default_mfa_rate_limit_def throttle_ok_def)

subsection \<open>What checking reports\<close>

lemma is_locked_reads: "lim_redis l = lim_redis l' \<Longrightarrow> lim_fallback l = lim_fallback l' \<Longrightarrow>
   snd (is_locked R t k l) = snd (is_locked R t k l')"
  by (simp add: is_locked_def Let_def)

lemma is_locked_frame: "lim_redis (fst (is_locked R t k l)) = lim_redis l" "lim_fallback (fst (is_locked R t k l)) = lim_fallback l"
  by (simp_all add: is_locked_def degrade_def Let_def)

lemma check_keys_locked:
  "th_locked (snd (check_keys R t ks l st)) \<longleftrightarrow> th_locked st \<or> (\<exists>k \<in> set ks. fst (snd (is_locked R t k l)))"
proof (induction ks arbitrary: l st)
  case (Cons k ks)
  have "snd (is_locked R t k' (fst (is_locked R t k l))) = snd (is_locked R t k' l)" for k'
    by (rule is_locked_reads) (simp_all add: is_locked_frame)
  then show ?case by (simp add: Cons.IH split_beta)
qed simp

lemma locked_entry_reported:
  assumes "redis_store R entry" and "red_up R (lim_redis l)" and "entry (lim_redis l) k = Some (v, Some x)"
    and "u + seconds 1 \<le> x"
  shows "fst (snd (is_locked R u k l))"
proof -
  have "live_entry entry u (lim_redis l) k = Some (v, Some x)"
    using assms(3,4) by (simp add: live_entry_def alive_def seconds_def)
  then show ?thesis
    using redis_store.locked_for_a_second [OF assms(1) _ assms(4)] assms(2) by (simp add: is_locked_up)
qed

lemma absent_not_locked:
  assumes "red_up R (lim_redis l) \<Longrightarrow> redis_store R entry" and "red_up R (lim_redis l) \<Longrightarrow> entry (lim_redis l) k = None"
    and "map_of (fb_locks (lim_fallback l)) k = None"
  shows "\<not> fst (snd (is_locked R u k l))"
proof (cases "red_up R (lim_redis l)")
  case True
  then have a: "live_entry entry u (lim_redis l) k = None" using assms(2) by (simp add: live_entry_def)
  show ?thesis using redis_store.ttl_absent [OF assms(1) [OF True] a] True by (simp add: is_locked_up)
next
  case False
  then show ?thesis using assms(3) by (simp add: is_locked_down)
qed

lemma fb_clear_locks: "map_of (fb_locks (fb_clear ks f)) k = (if k \<in> set ks then None else map_of (fb_locks f) k)"
  unfolding fb_clear_def by (induction ks arbitrary: f) (auto simp: delete_conv')

lemma clear_effect:
  assumes "redis_store R entry" "ks \<noteq> []"
  shows "red_up R (lim_redis (clear R t ks l)) = red_up R (lim_redis l)"
    and "red_up R (lim_redis l) \<Longrightarrow> entry (lim_redis (clear R t ks l)) k = (if k \<in> set ks then None else entry (lim_redis l) k)"
    and "map_of (fb_locks (lim_fallback (clear R t ks l))) k = (if k \<in> set ks then None else map_of (fb_locks (lim_fallback l)) k)"
  using assms by (simp_all add: clear_def Let_def redis_store.up_delete redis_store.delete fb_clear_locks)

subsection \<open>Properties\<close>

text \<open>
  Brute force on one account is stopped. With Redis reachable and the account's keys
  fresh, as many failed logins within one account window as \<open>RATE_LIMIT_ACCOUNT_MAX_ATTEMPTS\<close>,
  from whatever addresses, make \<open>check_throttled\<close> refuse every login of that account, from
  every address, until (one second before) the lock-out time after the last failure has passed.
\<close>

lemma login_account_lockout:
  assumes R: "redis_store R entry" and ok: "throttle_ok (RATE_LIMIT (cfg E))" and en: "TS_ENABLED (RATE_LIMIT (cfg E))"
    and up: "red_up R (s_red s)"
    and fresh: "entry (s_red s) (login_account_key E email) = None" "entry (s_red s) (lock_of (login_account_key E email)) = None"
    and M: "1 \<le> TS_ACCOUNT_MAX_ATTEMPTS (RATE_LIMIT (cfg E))"
    and len: "int (length fails) = TS_ACCOUNT_MAX_ATTEMPTS (RATE_LIMIT (cfg E))"
    and win: "\<forall>(t, ip) \<in> set fails. t < fst (hd fails) + seconds (TS_ACCOUNT_WINDOW_SECONDS (RATE_LIMIT (cfg E)))"
    and u: "u + seconds 1 \<le> fst (last fails) + seconds (TS_ACCOUNT_LOCKOUT_SECONDS (RATE_LIMIT (cfg E)))"
  shows "th_locked (snd (login_check_throttled R E u email any_ip
           (fold (\<lambda>(t, ip). login_record_failure R E t email ip) fails s)))"
proof -
  let ?s = "fold (\<lambda>(t, ip). login_record_failure R E t email ip) fails s"
  note T = redis_store.login_account [OF R ok en M, of email]
  obtain v x where "entry (s_red ?s) (lock_of (login_account_key E email)) = Some (v, Some x)" "u + seconds 1 \<le> x"
    using throttled_account.locks_after_max(1) [OF T up fresh(2,1) len win] u by auto
  then have "fst (snd (is_locked R u (lock_of (login_account_key E email)) (s_lim ?s)))"
    using locked_entry_reported [OF R throttled_account.locks_after_max(2) [OF T up fresh(2,1) len win]] by blast
  then show ?thesis using en by (simp add: login_check_throttled_def Let_def split_beta check_keys_locked)
qed

definition kv_sys :: "kv sys" where
  "kv_sys = \<lparr>s_db = empty_db, s_lim = \<lparr>lim_redis = (True, []), lim_fallback = fb_init, lim_degraded = 0\<rparr>, s_triggered = []\<rparr>"

text \<open>
  Property. The same guarantee for second factors: as many failed MFA challenges of one user
  within one window as \<open>MFA_RATE_LIMIT_ACCOUNT_MAX_ATTEMPTS\<close>, from whatever addresses, make the
  MFA \<open>check_throttled\<close> refuse that user from every address for the lock-out time.
\<close>

theorem mfa_account_lockout:
  assumes R: "redis_store R entry" and ok: "throttle_ok (MFA_RATE_LIMIT (cfg E))" and en: "TS_ENABLED (MFA_RATE_LIMIT (cfg E))"
    and up: "red_up R (s_red s)"
    and fresh: "entry (s_red s) (mfa_account_key uid) = None" "entry (s_red s) (lock_of (mfa_account_key uid)) = None"
    and M: "1 \<le> TS_ACCOUNT_MAX_ATTEMPTS (MFA_RATE_LIMIT (cfg E))"
    and len: "int (length fails) = TS_ACCOUNT_MAX_ATTEMPTS (MFA_RATE_LIMIT (cfg E))"
    and win: "\<forall>(t, ip, org) \<in> set fails. t < fst (hd fails) + seconds (TS_ACCOUNT_WINDOW_SECONDS (MFA_RATE_LIMIT (cfg E)))"
    and u: "u + seconds 1 \<le> fst (last fails) + seconds (TS_ACCOUNT_LOCKOUT_SECONDS (MFA_RATE_LIMIT (cfg E)))"
  shows "th_locked (snd (mfa_check_throttled R E u uid any_ip
           (fold (\<lambda>(t, ip, org). mfa_record_failure R E t uid ip org) fails s)))"
proof -
  let ?s = "fold (\<lambda>(t, ip, org). mfa_record_failure R E t uid ip org) fails s"
  note T = redis_store.mfa_account [OF R ok en M, of uid]
  have win': "\<forall>(t, a) \<in> set fails. t < fst (hd fails) + seconds (TS_ACCOUNT_WINDOW_SECONDS (MFA_RATE_LIMIT (cfg E)))"
    using win by auto
  obtain v x where "entry (s_red ?s) (lock_of (mfa_account_key uid)) = Some (v, Some x)" "u + seconds 1 \<le> x"
    using throttled_account.locks_after_max(1) [OF T up fresh(2,1) len win'] u by auto
  then have "fst (snd (is_locked R u (lock_of (mfa_account_key uid)) (s_lim ?s)))"
    using locked_entry_reported [OF R throttled_account.locks_after_max(2) [OF T up fresh(2,1) len win']] by blast
  then show ?thesis using en by (simp add: mfa_check_throttled_def Let_def split_beta check_keys_locked)
qed

theorem mfa_account_lockout_witness:
  "th_locked (snd (mfa_check_throttled kv_redis (sample_env Map.empty) (seconds 100) 7 None
     (fold (\<lambda>(t, ip, org). mfa_record_failure kv_redis (sample_env Map.empty) t 7 ip org)
       (map (\<lambda>i. (seconds i, Some (show_int i), None)) [0..4]) kv_sys)))"
proof (rule mfa_account_lockout [OF kv.redis_store_axioms])
  show "\<forall>(t, ip, org) \<in> set (map (\<lambda>i. (seconds i, Some (show_int i), None)) [0..4]).
      t < fst (hd (map (\<lambda>i. (seconds i, Some (show_int i), None)) [0..4]))
        + seconds (TS_ACCOUNT_WINDOW_SECONDS (MFA_RATE_LIMIT (cfg (sample_env Map.empty))))"
    by (auto simp: sample_env_def default_settings_def default_mfa_rate_limit_def seconds_def hd_map upto_rec1)
qed (simp_all add: sample_env_def default_settings_def default_mfa_rate_limit_def throttle_ok_def kv_sys_def kv_redis_def
       kv_entry_def seconds_def upto_rec1 last_map)

text \<open>
  Property. A successful login forgives the account but not the address: afterwards no counter, lock
  or strike of the account and of the pair is left, so that a login of this account from this
  address can only be refused for the address's own lock, which is untouched.
\<close>

theorem login_success_forgives:
  assumes R: "redis_store R entry" and en: "TS_ENABLED (RATE_LIMIT (cfg E))" and up: "red_up R (s_red s)"
  shows "let s' = login_record_success R E t email ip s in
      (\<forall>k \<in> {login_account_key E email, login_strike_key E email, login_pair_key E email (ip_or_empty ip)}.
         entry (s_red s') k = None)
    \<and> (th_locked (snd (login_check_throttled R E u email ip s'))
         = (truthy ip \<and> fst (snd (is_locked R u (lock_of (login_ip_key (the ip))) (s_lim s')))))
    \<and> entry (s_red s') (login_ip_key ip') = entry (s_red s) (login_ip_key ip')
    \<and> entry (s_red s') (lock_of (login_ip_key ip')) = entry (s_red s) (lock_of (login_ip_key ip'))"
proof -
  let ?i = "ip_or_empty ip"
  let ?ks = "[login_account_key E email, lock_of (login_account_key E email), login_strike_key E email,
    login_pair_key E email ?i, lock_of (login_pair_key E email ?i)]"
  define s' where "s' = login_record_success R E t email ip s"
  have s': "s_lim s' = clear R t ?ks (s_lim s)" using en by (simp add: s'_def login_record_success_def Let_def)
  have ne: "?ks \<noteq> []" by simp
  note c = clear_effect [OF R ne, where t = t and l = "s_lim s", folded s']
  have gone: "\<not> fst (snd (is_locked R u k (s_lim s')))" if "k \<in> set ?ks" for k
    by (rule absent_not_locked [where entry = entry, OF R]) (simp_all only: c(2) [OF up] c(3) that if_True)
  have "th_locked (snd (login_check_throttled R E u email ip s'))
      = (?i \<noteq> [] \<and> fst (snd (is_locked R u (lock_of (login_ip_key ?i)) (s_lim s'))))"
    using en gone [of "lock_of (login_account_key E email)"] gone [of "lock_of (login_pair_key E email ?i)"]
    by (simp add: login_check_throttled_def Let_def split_beta check_keys_locked del: check_keys.simps)
  also have "\<dots> = (truthy ip \<and> fst (snd (is_locked R u (lock_of (login_ip_key (the ip))) (s_lim s'))))"
    by (cases ip) (simp_all add: ip_or_empty_def)
  finally show ?thesis using c(2) [OF up] unfolding Let_def s'_def [symmetric] by (simp add: s')
qed

theorem login_success_forgives_witness:
  "th_locked (snd (login_check_throttled kv_redis (sample_env Map.empty) (seconds 9) ''ann'' None
      (login_record_success kv_redis (sample_env Map.empty) (seconds 8) ''ann'' None
        (login_record_failure kv_redis (sample_env Map.empty) 0 ''ann'' None kv_sys)))) = False"
proof -
  have "red_up kv_redis (s_red (login_record_failure kv_redis (sample_env Map.empty) 0 ''ann'' None kv_sys))"
    by code_simp
  from login_success_forgives [OF kv.redis_store_axioms _ this, of "sample_env Map.empty" "seconds 8" "''ann''" None "seconds 9"]
  show ?thesis by (simp add: Let_def sample_env_def default_settings_def default_rate_limit_def)
qed

text \<open>
  Property. Progressive lock-out. When an account is locked after n earlier strikes, its lock lasts
  the base lock-out time multiplied by the n-th power of the multiplier, capped by the maximum,
  and never less than the base time.
\<close>

theorem progressive_lockout:
  assumes R: "redis_store R entry" and ok: "throttle_ok T" and up: "red_up R (s_red s)" and ne: "sk \<noteq> lock_of ak"
    and lock: "entry (s_red s) (lock_of ak) = Some (v, Some (t + seconds (TS_ACCOUNT_LOCKOUT_SECONDS T)))"
    and strikes: "live_entry entry t (s_red s) sk = (if n = 0 then None else Some (int n, x))"
  shows "entry (s_red (apply_progressive_escalation R T t sk ak s)) (lock_of ak)
       = Some (v, Some (t + seconds (max (TS_ACCOUNT_LOCKOUT_SECONDS T)
           (if n = 0 then TS_ACCOUNT_LOCKOUT_SECONDS T
            else min (TS_ACCOUNT_LOCKOUT_SECONDS T * TS_PROGRESSIVE_MULTIPLIER T ^ n) (TS_MAX_LOCKOUT_SECONDS T)))))"
proof -
  have "snd (strike_script R t sk (TS_STRIKE_TTL_SECONDS T) (s_red s)) = 1 + int n"
    using redis_store.incr [OF R, of t "s_red s" sk "fst (red_incr R t (s_red s) sk)" "snd (red_incr R t (s_red s) sk)"] strikes
    by (cases "n = 0") (simp_all add: strike_script_def Let_def split_beta)
  then show ?thesis
    using redis_store.escalation_lock [OF R ok up ne lock] by (simp add: Let_def escalated_seconds_def)
qed

theorem progressive_lockout_witness:
  "kv_entry (s_red (apply_progressive_escalation kv_redis default_rate_limit 0 ''s'' ''a''
     (kv_sys\<lparr>s_lim := (s_lim kv_sys)\<lparr>lim_redis :=
        (True, [(''a:lock'', 1, Some (seconds 900)), (''s'', 1, Some (seconds 5))])\<rparr>\<rparr>))) ''a:lock''
   = Some (1, Some (seconds 1800))"
  using progressive_lockout [OF kv.redis_store_axioms, of default_rate_limit
      "kv_sys\<lparr>s_lim := (s_lim kv_sys)\<lparr>lim_redis :=
        (True, [(''a:lock'', 1, Some (seconds 900)), (''s'', 1, Some (seconds 5))])\<rparr>\<rparr>" "''s''" "''a''" 1 0 1 "Some (seconds 5)"]
  by (simp add: kv_redis_def kv_entry_def default_rate_limit_def throttle_ok_def lock_of_def live_entry_def alive_def)

end
