(* ===== verification/Refresh_Security.thy ===== *)
theory Refresh_Security
  imports Auth_Service
begin

text \<open>
  What the refresh-token machinery of \<open>auth_service.py\<close> guarantees against theft: a token that
  was accepted is not accepted again, replaying a spent token ends its session for good, and
  so do logout, revoking a session and revoking all sessions of a user. The statements follow
  a token through every later sequence of operations, in any order and at any time.

  An operation of the model is a whole request: it reads and writes one state. The code takes
  no lock between reading the token's row and marking it rotated, so requests that overlap are
  not covered by these statements; the last section splits the rotation into its reads and its
  writes and shows what two overlapping presentations of one token do: both succeed.
\<close>

subsection \<open>Spent tokens\<close>

text \<open>The database knows the token and every row that carries its digest is revoked.\<close>

definition token_spent :: "env \<Rightarrow> string \<Rightarrow> db \<Rightarrow> bool" where
  "token_spent E tok s \<longleftrightarrow> hash_refresh_token E tok \<in> set (token_hashes s)
     \<and> (\<forall>t \<in> set (refresh_tokens s). rt_token_hash t = hash_refresh_token E tok \<longrightarrow> rt_revoked t)"

lemma spent_refused: "token_spent E tok s \<Longrightarrow> snd (rotate_refresh_token E now ja jr ff tok team s) = None"
  by (auto simp: token_spent_def rotate_refresh_token_def Let_def dest: token_of_Some split: option.split)

lemma spent_revoke:
  assumes "refresh_tokens s' = update_where P (\<lambda>t. t\<lparr>rt_revoked := True\<rparr>) (refresh_tokens s)" "token_spent E tok s"
  shows "token_spent E tok s'"
  using assms unfolding token_spent_def by (force simp: set_update_where image_iff)

lemma spent_end: "token_spent E tok s \<Longrightarrow> token_spent E tok (end_session E now u fid r a s)"
  by (rule spent_revoke [OF end_session_effect(1)])

lemma spent_fold_end: "token_spent E tok s \<Longrightarrow> token_spent E tok (fold (\<lambda>x. end_session E now u (Some (us_session_id x)) r a) xs s)"
  by (induction xs arbitrary: s) (simp_all add: spent_end)

lemma spent_append:
  assumes "refresh_tokens s' = ts @ [new_token E now u r f i]" "hash_refresh_token E r \<notin> set (map rt_token_hash ts)"
    "\<forall>t \<in> set ts. rt_token_hash t = hash_refresh_token E tok \<longrightarrow> rt_revoked t" "hash_refresh_token E tok \<in> set (map rt_token_hash ts)"
  shows "token_spent E tok s'"
  using assms by (auto simp: token_spent_def new_token_def)

lemma evict_is_fold:
  obtains xs :: "user_session list" where
    "evict_oldest_sessions_over_limit E now u s = fold (\<lambda>x. end_session E now u (Some (us_session_id x)) ''concurrent_session_limit'' None) xs s"
proof (cases "int (length (effectively_active E now u s)) - SESSION_MAX_CONCURRENT (cfg E) + 1 \<le> 0")
  case True
  then show ?thesis by (intro that [of "[]"]) (simp add: evict_oldest_sessions_over_limit_def Let_def)
next
  case False
  then show ?thesis
    by (intro that [of "take (nat (int (length (effectively_active E now u s)) - SESSION_MAX_CONCURRENT (cfg E) + 1)) (effectively_active E now u s)"])
       (simp add: evict_oldest_sessions_over_limit_def Let_def)
qed

lemma generate_adds_token:
  assumes "generate_tokens E now ja jr fid u am idp ip ua sc s = (s', a, r)"
  obtains xs :: "user_session list" and s1 s2 :: db where "s1 = fold (\<lambda>x. end_session E now (u_id u) (Some (us_session_id x)) ''concurrent_session_limit'' None) xs s2"
    "refresh_tokens s2 = refresh_tokens s @ [new_token E now (u_id u) r fid (next_id rt_id (refresh_tokens s))]"
    "refresh_tokens s' = refresh_tokens s1"
proof -
  let ?s2 = "add_token E now (u_id u) r fid (set_user (u_id u) (\<lambda>x. x\<lparr>u_last_login_at := Some now, u_authentication_method := Some (persisted_auth_method am)\<rparr>) s)"
  obtain xs :: "user_session list" where xs: "evict_oldest_sessions_over_limit E now (u_id u) ?s2
    = fold (\<lambda>x. end_session E now (u_id u) (Some (us_session_id x)) ''concurrent_session_limit'' None) xs ?s2" by (rule evict_is_fold)
  show ?thesis
  proof (rule that [OF refl])
    show "refresh_tokens ?s2 = refresh_tokens s @ [new_token E now (u_id u) r fid (next_id rt_id (refresh_tokens s))]"
      by (simp add: add_token_def set_user_def new_token_def)
    show "refresh_tokens s' = refresh_tokens (fold (\<lambda>x. end_session E now (u_id u) (Some (us_session_id x)) ''concurrent_session_limit'' None) xs ?s2)"
      using assms by (auto simp: generate_tokens_def Let_def xs [symmetric])
  qed
qed

lemma spent_cong: "refresh_tokens s' = refresh_tokens s \<Longrightarrow> token_spent E tok s' = token_spent E tok s"
  by (simp add: token_spent_def)

lemma rotate_spends:
  assumes ok: "tok_ok s" and rot: "rotate_refresh_token E now ja jr ff tok team s = (s', Some (a, r))"
    and h: "hash_refresh_token E r \<notin> set (token_hashes s)"
  shows "token_spent E tok s'" "token_spent E tok' s \<Longrightarrow> token_spent E tok' s'"
proof -
  from rot obtain t f and u :: user where t: "token_of E s tok = Some t"
    and ts: "refresh_tokens s' = update_where (\<lambda>x. rt_id x = rt_id t) (rotated now f) (refresh_tokens s)
       @ [new_token E now (u_id u) r f (next_id rt_id (update_where (\<lambda>x. rt_id x = rt_id t) (rotated now f) (refresh_tokens s)))]"
    by (rule rotate_Some) blast
  let ?ts = "update_where (\<lambda>x. rt_id x = rt_id t) (rotated now f) (refresh_tokens s)"
  have hs: "map rt_token_hash ?ts = token_hashes s" by (simp add: update_where_def rotated_def)
  note tt = token_of_Some [OF t]
  have "x = t" if "x \<in> set (refresh_tokens s)" "rt_token_hash x = hash_refresh_token E tok" for x
    using ok tt that by (auto simp: tok_ok_def dest: distinct_keyD)
  then have dead: "\<forall>x \<in> set ?ts. rt_token_hash x = hash_refresh_token E tok \<longrightarrow> rt_revoked x"
    by (auto simp: set_update_where rotated_def)
  show "token_spent E tok s'"
    by (rule spent_append [OF ts _ dead]) (use h tt hs in \<open>auto simp: image_iff intro!: bexI [of _ t]\<close>)
  assume sp: "token_spent E tok' s"
  have dead': "\<forall>x \<in> set ?ts. rt_token_hash x = hash_refresh_token E tok' \<longrightarrow> rt_revoked x"
    using sp by (auto simp: token_spent_def set_update_where rotated_def)
  show "token_spent E tok' s'"
    by (rule spent_append [OF ts _ dead']) (use h sp hs in \<open>auto simp: token_spent_def\<close>)
qed

lemma rotate_accepts:
  assumes "token_of E s tok = Some t" "rotate_guard E now s t u"
  obtains s' c where "rotate_refresh_token E now ja jr ff tok team s = (s', Some (create_access_token E now ja c None, create_refresh_token E now jr c))"
  using assms by (simp add: rotate_refresh_token_def rotate_guard_def Let_def not_less)

lemma spent_step: "auth_step E s s' \<Longrightarrow> tok_ok s \<Longrightarrow> token_spent E tok s \<Longrightarrow> token_spent E tok s'"
proof (induction rule: auth_step.induct)
  case (generate_tokens now ja jr fid u am idp ip ua sc s s' a r)
  from generate_tokens(1) obtain xs :: "user_session list" and s1 s2 :: db where s1: "s1 = fold (\<lambda>x. end_session E now (u_id u) (Some (us_session_id x)) ''concurrent_session_limit'' None) xs s2"
    and ts: "refresh_tokens s2 = refresh_tokens s @ [new_token E now (u_id u) r fid (next_id rt_id (refresh_tokens s))]"
    and s': "refresh_tokens s' = refresh_tokens s1" by (rule generate_adds_token)
  have "token_spent E tok s2"
    by (rule spent_append [OF ts]) (use generate_tokens in \<open>auto simp: token_spent_def\<close>)
  then show ?case unfolding spent_cong [OF s'] s1 by (rule spent_fold_end)
next
  case (rotate_accepted now ja jr ff tok' team s s' a r)
  then show ?case using rotate_spends(2) by blast
next
  case (rotate_refused now ja jr ff tok' team s s')
  then show ?case using rotate_None [OF rotate_refused(1)] spent_end by blast
next
  case (revoke_token s now tok')
  show ?case
  proof (cases "token_of E s tok'")
    case (Some t)
    show ?thesis by (rule spent_revoke [OF revoke_token_effect(1) [OF Some] revoke_token(2)])
  qed (use revoke_token in \<open>simp add: revoke_token_def\<close>)
next
  case (revoke_session s now sid)
  then show ?case by (simp add: revoke_session_def spent_end split: option.splits)
next
  case (revoke_all s now uid reason actor)
  then show ?case by (simp add: revoke_all_sessions_for_user_def Let_def spent_fold_end)
next
  case (elsewhere s' s)
  then show ?case using spent_cong by blast
qed

lemma spent_forever:
  assumes "(auth_step E)\<^sup>*\<^sup>* s s'" "tok_ok s" "token_spent E tok s"
  shows "snd (rotate_refresh_token E now ja jr ff tok team s') = None"
  using auth.reachable_relative [OF assms(1,2), of "token_spent E tok"] assms(3) spent_step spent_refused by blast

lemma fold_end_blocks:
  "x \<in> set xs \<Longrightarrow> us_session_id x \<noteq> [] \<Longrightarrow>
     family_blocked (fold (\<lambda>x. end_session E now u (Some (us_session_id x)) r a) xs s) (us_session_id x)"
  by (induction xs arbitrary: s) (auto simp: end_session_blocks fold_end_session(4))

lemma reachable_tok_ok: "(auth_step E)\<^sup>*\<^sup>* empty_db s \<Longrightarrow> tok_ok s"
  by (erule auth.reachable) (rule tok_ok_empty)

subsection \<open>Properties\<close>

text \<open>
  C2. A refresh token that has been accepted is refused from then on. In every reachable
  state, once a call of \<open>rotate_refresh_token\<close> that accepts a token has been committed, every
  call that begins afterwards with the same token is refused, whatever operations come in
  between and whatever the time. Calls are taken one after the other: of two calls that
  overlap both may succeed, which is \<open>overlapping_refreshes_both_succeed\<close> below.
\<close>

theorem refresh_token_accepted_once:
  assumes "(auth_step E)\<^sup>*\<^sup>* empty_db s" "rotate_refresh_token E now ja jr ff tok team s = (s1, Some (a, r))"
    "fresh_family s ff" "hash_refresh_token E r \<notin> set (token_hashes s)" "(auth_step E)\<^sup>*\<^sup>* s1 s2"
  shows "snd (rotate_refresh_token E now' ja' jr' ff' tok team' s2) = None"
proof -
  note ok = reachable_tok_ok [OF assms(1)]
  show ?thesis by (rule spent_forever [OF assms(5) rotate_accept(1) [OF ok assms(2-4)] rotate_spends(1) [OF ok assms(2,4)]])
qed

text \<open>
  C3. Replaying a spent token ends the session. When a token that was already rotated is
  presented again, it is refused, and from then on every token of its family, the newest one
  included, is refused in every later state.
\<close>

theorem reuse_ends_family:
  assumes "(auth_step E)\<^sup>*\<^sup>* empty_db s" "token_of E s tok = Some t" "rt_rotated_at t \<noteq> None" "rt_family_id t = Some f"
    "rotate_refresh_token E now ja jr ff tok team s = (s1, res)" "(auth_step E)\<^sup>*\<^sup>* s1 s2" "token_of E s2 tok' = Some t'" "rt_family_id t' = Some f"
  shows "res = None \<and> snd (rotate_refresh_token E now' ja' jr' ff' tok' team' s2) = None"
proof -
  have ok: "tok_ok s" by (rule reachable_tok_ok [OF assms(1)])
  have known: "f \<in> families s" using token_of_Some [OF assms(2)] assms(4) by (force simp: families_def)
  then have "f \<noteq> []" using ok by (auto simp: tok_ok_def)
  have r: "res = None" "s1 = end_session E now (rt_user_id t) (Some f) ''reuse_detected'' None s"
    using assms(2-5) by (simp_all add: rotate_refresh_token_def Let_def)
  show ?thesis
    using refused_forever [OF assms(6) _ _ _ assms(7,8)] end_session_keeps(1) [OF ok] end_session_blocks [OF \<open>f \<noteq> []\<close>]
      known by (simp add: r known_family_def end_session_keeps(4) )
qed

text \<open>
  C31. Ended sessions stay ended. After logging out with a token of a session, revoking
  the session, or revoking all sessions of its user, every token of the session is refused in
  every later state.
\<close>

theorem ended_session_final:
  assumes "(auth_step E)\<^sup>*\<^sup>* empty_db s" "f \<in> set (session_ids s)"
    "(s1 = revoke_token E now tok s \<and> map_option rt_family_id (token_of E s tok) = Some (Some f)) \<or> s1 = fst (revoke_session E now f s)
       \<or> (s1 = fst (revoke_all_sessions_for_user E now uid reason actor s) \<and> (f, uid) \<in> set (map (\<lambda>x. (us_session_id x, us_user_id x)) (user_sessions s)))"
    "(auth_step E)\<^sup>*\<^sup>* s1 s2" "token_of E s2 tok' = Some t'" "rt_family_id t' = Some f"
  shows "snd (rotate_refresh_token E now' ja' jr' ff' tok' team' s2) = None"
proof -
  have ok: "tok_ok s" by (rule reachable_tok_ok [OF assms(1)])
  then have f: "f \<noteq> []" using assms(2) by (auto simp: tok_ok_def)
  have k: "known_family s f" using assms(2) by (simp add: known_family_def)
  have step: "auth_step E s s1" using assms(3) by (auto intro: auth_step.intros)
  then have "tok_ok s1" "known_family s1 f" using tok_keeps_step [of E s s1 f] ok k by (auto simp: tok_keeps_def)
  moreover have "family_blocked s1 f" using assms(3)
  proof (elim disjE conjE)
    assume s1: "s1 = revoke_token E now tok s" and "map_option rt_family_id (token_of E s tok) = Some (Some f)"
    then obtain t where t: "token_of E s tok = Some t" "rt_family_id t = Some f" by auto
    then show ?thesis using assms(2) get_family_None [OF f, of s] by (simp add: family_blocked_def s1 revoke_token_effect(3) [OF t(1)])
  next
    assume s1: "s1 = fst (revoke_session E now f s)"
    have "get_by_family_id s (Some f) \<noteq> None" using assms(2) get_family_None [OF f] by simp
    then show ?thesis by (auto simp: s1 revoke_session_def end_session_blocks [OF f])
  next
    assume s1: "s1 = fst (revoke_all_sessions_for_user E now uid reason actor s)"
      and "(f, uid) \<in> set (map (\<lambda>x. (us_session_id x, us_user_id x)) (user_sessions s))"
    then obtain x where x: "x \<in> set (user_sessions s)" "us_session_id x = f" "us_user_id x = uid" by auto
    show ?thesis
    proof (cases "us_status x = ''revoked''")
      case True
      then have "f \<in> revoked_ids s" using x by (force simp: revoked_ids_def)
      then show ?thesis using fold_end_session(5) by (force simp: family_blocked_def s1 revoke_all_sessions_for_user_def Let_def)
    next
      case False
      then have "x \<in> set (filter (\<lambda>x. us_user_id x = uid \<and> us_status x \<noteq> ''revoked'') (user_sessions s))" using x by simp
      from fold_end_blocks [OF this] show ?thesis using f x by (simp add: s1 revoke_all_sessions_for_user_def Let_def)
    qed
  qed
  ultimately show ?thesis using refused_forever [OF assms(4) _ _ _ assms(5,6)] by blast
qed

subsection \<open>Two presentations that overlap\<close>

text \<open>
  The rotation in two halves: what it reads and decides (up to the check of the account), and
  what it writes for the row, the account and the session it read. In the model of a whole
  request the second half follows the first at once.
\<close>

definition rotate_read :: "env \<Rightarrow> time \<Rightarrow> string \<Rightarrow> db \<Rightarrow> (refresh_token \<times> user \<times> user_session option) option" where
  "rotate_read E now presented s =
     (case token_of E s presented of
        None \<Rightarrow> None
      | Some t \<Rightarrow>
          let session = get_by_family_id s (rt_family_id t)
          in if rt_rotated_at t \<noteq> None \<or> rt_revoked t \<or> rt_expires_at t < now \<or> \<not> is_usable now session
                \<or> check_timeout_policy (cfg E) now session \<noteq> None then None
             else case find_user s (rt_user_id t) of
                    None \<Rightarrow> None
                  | Some u \<Rightarrow> if u_status u \<noteq> ''active'' then None else Some (t, u, session))"

definition rotate_write ::
  "env \<Rightarrow> time \<Rightarrow> string \<Rightarrow> string \<Rightarrow> string \<Rightarrow> string \<Rightarrow> int option option \<Rightarrow> refresh_token \<times> user \<times> user_session option
     \<Rightarrow> db \<Rightarrow> db \<times> (string \<times> string)" where
  "rotate_write E now jti_a jti_r fresh_fid presented team_id rd s =
     (let (t, u, session) = rd;
          old = (case decode_token E now presented of Inl e \<Rightarrow> [] | Inr c \<Rightarrow> c);
          auth_method = (if jtruthy (get_claim old ''auth_method'') then get_claim old ''auth_method'' else JStr ''password'');
          claims = build_user_claims s u auth_method (get_claim old ''idp_org_id'')
                     (case team_id of None \<Rightarrow> json_int (get_claim old ''team_id'') | Some v \<Rightarrow> v) None;
          new_access = create_access_token E now jti_a claims None;
          new_refresh = create_refresh_token E now jti_r claims;
          family = (if truthy (rt_family_id t) then the (rt_family_id t) else fresh_fid);
          s1 = set_token (rt_id t) (rotated now family) s;
          s2 = add_token E now (u_id u) new_refresh family s1;
          s3 = (if session \<noteq> None then touch now (Some family) (now + days 7) s2
                else session_create now family (u_id u) (json_int (get_claim claims ''org_id'')) (get_claim claims ''org_role'')
                       (json_str auth_method) True (now + days 7) None None
                       \<lparr>sc_name_id = None, sc_session_index = None, sc_config_id = None\<rparr> s2)
      in (s3, new_access, new_refresh))"

lemma rotate_read_Some:
  "rotate_read E now tok s = Some (t, u, ses) \<longleftrightarrow>
     token_of E s tok = Some t \<and> rotate_guard E now s t u \<and> ses = get_by_family_id s (rt_family_id t)"
  by (cases "token_of E s tok"; cases "find_user s (rt_user_id t)") (auto simp: rotate_read_def rotate_guard_def Let_def not_less split: option.split)

lemma rotate_by_halves:
  "rotate_read E now tok s = Some (t, u, ses) \<Longrightarrow>
     rotate_refresh_token E now ja jr ff tok team s = map_prod id Some (rotate_write E now ja jr ff tok team (t, u, ses) s)"
  unfolding rotate_read_Some rotate_guard_def rotate_refresh_token_def rotate_write_def rotated_def [abs_def]
  by (simp add: Let_def not_less split del: if_split)

lemma rotate_read_refuses:
  assumes "rotate_read E now tok s = None"
  shows "snd (rotate_refresh_token E now ja jr ff tok team s) = None"
proof (rule ccontr)
  assume "snd (rotate_refresh_token E now ja jr ff tok team s) \<noteq> None"
  then obtain s' a r where "rotate_refresh_token E now ja jr ff tok team s = (s', Some (a, r))" by (metis option.exhaust prod.collapse)
  then show False using assms rotate_read_Some [of E now tok s] by (auto elim!: rotate_Some)
qed

lemma rotate_write_tokens:
  "refresh_tokens (fst (rotate_write E now ja jr ff tok team (t, u, ses) s))
     = update_where (\<lambda>x. rt_id x = rt_id t) (rotated now (if truthy (rt_family_id t) then the (rt_family_id t) else ff)) (refresh_tokens s)
       @ [new_token E now (u_id u) (snd (snd (rotate_write E now ja jr ff tok team (t, u, ses) s)))
            (if truthy (rt_family_id t) then the (rt_family_id t) else ff)
            (next_id rt_id (update_where (\<lambda>x. rt_id x = rt_id t) (rotated now (if truthy (rt_family_id t) then the (rt_family_id t) else ff)) (refresh_tokens s)))]"
proof -
  have touch: "refresh_tokens (touch n fa e d) = refresh_tokens d" for n fa e d by (simp add: touch_def split: option.split)
  have create: "refresh_tokens (session_create n i us o' rl am mv e ip ua sc d) = refresh_tokens d" for n i us o' rl am mv e ip ua sc d
    by (simp add: session_create_def)
  show ?thesis unfolding rotate_write_def Let_def prod.case fst_conv snd_conv
    by (cases ses) (simp_all add: touch create add_token_def set_token_def new_token_def split del: if_split)
qed

text \<open>
  Both presentations read the row before either writes. Both are answered with tokens, and
  both new tokens of the session are live in the end: the invariant that a family has one live
  token, which requests keep that follow one another, is broken.
\<close>

lemma overlapping_refreshes_both_succeed:
  assumes "tok_ok s" "rotate_read E n1 tok s = Some (t, u, ses)" "rotate_read E n2 tok s = Some rd2" "rt_family_id t = Some f"
    "rotate_write E n1 ja1 jr1 ff1 tok team1 (t, u, ses) s = (s1, a1, r1)" "rotate_write E n2 ja2 jr2 ff2 tok team2 rd2 s1 = (s2, a2, r2)"
    "hash_refresh_token E r1 \<noteq> hash_refresh_token E r2"
  shows "\<exists>t1 \<in> set (refresh_tokens s2). \<exists>t2 \<in> set (refresh_tokens s2).
           rt_token_hash t1 = hash_refresh_token E r1 \<and> rt_token_hash t2 = hash_refresh_token E r2
         \<and> \<not> rt_revoked t1 \<and> \<not> rt_revoked t2 \<and> rt_family_id t1 = Some f \<and> rt_family_id t2 = Some f"
    "\<not> live_unique (refresh_tokens s2)"
proof -
  obtain t' u' ses' where rd': "rd2 = (t', u', ses')" by (cases rd2)
  have rd2: "rd2 = (t, u, ses)" and t: "token_of E s tok = Some t"
    using assms(2,3) unfolding rd' rotate_read_Some by (simp_all add: rotate_guard_def)
  note tt = token_of_Some [OF t]
  have f: "truthy (Some f)" using assms(1,4) tt by (force simp: tok_ok_def families_def)
  have s1: "refresh_tokens s1 = update_where (\<lambda>x. rt_id x = rt_id t) (rotated n1 f) (refresh_tokens s)
      @ [new_token E n1 (u_id u) r1 f (next_id rt_id (update_where (\<lambda>x. rt_id x = rt_id t) (rotated n1 f) (refresh_tokens s)))]"
    using rotate_write_tokens [of E n1 ja1 jr1 ff1 tok team1 t u ses s] f by (simp add: assms(4,5))
  have s2: "refresh_tokens s2 = update_where (\<lambda>x. rt_id x = rt_id t) (rotated n2 f) (refresh_tokens s1)
      @ [new_token E n2 (u_id u) r2 f (next_id rt_id (update_where (\<lambda>x. rt_id x = rt_id t) (rotated n2 f) (refresh_tokens s1)))]"
    using rotate_write_tokens [of E n2 ja2 jr2 ff2 tok team2 t u ses s1] f assms(6) by (simp add: assms(4) rd2)
  let ?us = "update_where (\<lambda>x. rt_id x = rt_id t) (rotated n1 f) (refresh_tokens s)"
  let ?t1 = "new_token E n1 (u_id u) r1 f (next_id rt_id ?us)"
  let ?t2 = "new_token E n2 (u_id u) r2 f (next_id rt_id (update_where (\<lambda>x. rt_id x = rt_id t) (rotated n2 f) (refresh_tokens s1)))"
  have "rotated n1 f t \<in> set ?us" using tt by (auto simp: set_update_where)
  then have "rt_id t < next_id rt_id ?us" using next_id_fresh [of "rotated n1 f t" ?us rt_id] by (simp add: rotated_def)
  then have "rt_id ?t1 \<noteq> rt_id t" by (simp add: new_token_def)
  then have in1: "?t1 \<in> set (refresh_tokens s2)" and in2: "?t2 \<in> set (refresh_tokens s2)"
    unfolding s2 s1 by (auto simp: set_update_where image_iff)
  show "\<exists>t1 \<in> set (refresh_tokens s2). \<exists>t2 \<in> set (refresh_tokens s2).
           rt_token_hash t1 = hash_refresh_token E r1 \<and> rt_token_hash t2 = hash_refresh_token E r2
         \<and> \<not> rt_revoked t1 \<and> \<not> rt_revoked t2 \<and> rt_family_id t1 = Some f \<and> rt_family_id t2 = Some f"
    using in1 in2 by (intro bexI [of _ ?t1] bexI [of _ ?t2]) (simp_all add: new_token_def)
  show "\<not> live_unique (refresh_tokens s2)"
    using in1 in2 assms(7) unfolding live_unique_def by (force simp: new_token_def)
qed

subsection \<open>A concrete run\<close>

text \<open>
  A user signs in and refreshes once. The environment writes a token as its \<open>jti\<close>, so that the
  run has the access tokens \<open>a\<close>, \<open>b\<close> and the refresh tokens \<open>r\<close>, \<open>q\<close> of family \<open>f\<close>.
\<close>

definition demo_env :: env where
  "demo_env = (sample_env Map.empty)\<lparr>jwt_encode := (\<lambda>c k a. the (json_str (get_claim c ''jti'')))\<rparr>"

definition demo_db :: db where
  "demo_db = empty_db\<lparr>users := [sample_user 1 ''ada'']\<rparr>"

definition demo1 :: db where
  "demo1 = fst (generate_tokens demo_env 0 ''a'' ''r'' ''f'' (sample_user 1 ''ada'') ''password'' JNull None None
     \<lparr>sc_name_id = None, sc_session_index = None, sc_config_id = None\<rparr> demo_db)"

definition demo2 :: db where
  "demo2 = fst (rotate_refresh_token demo_env 1 ''b'' ''q'' ''g'' ''r'' None demo1)"

lemma demo_tokens [simp]:
  "create_access_token demo_env now j c n = j" "create_refresh_token demo_env now j c = j" "hash_refresh_token demo_env t = t"
  by (simp_all add: create_access_token_def create_refresh_token_def sign_def demo_env_def sample_env_def default_settings_def
      access_claims_def refresh_claims_def stamp_def signed_claims_def hash_refresh_token_def get_setdefault)

lemma demo_generate: "generate_tokens demo_env 0 ''a'' ''r'' ''f'' (sample_user 1 ''ada'') ''password'' JNull None None
     \<lparr>sc_name_id = None, sc_session_index = None, sc_config_id = None\<rparr> demo_db = (demo1, ''a'', ''r'')"
  by (simp add: demo1_def generate_tokens_def Let_def)

lemma demo1_eq:
  "\<exists>o' rl d. demo1 = session_create 0 ''f'' 1 o' rl (Some ''password'') True (days 7) None None
       \<lparr>sc_name_id = None, sc_session_index = None, sc_config_id = None\<rparr> d
     \<and> users d = [(sample_user 1 ''ada'')\<lparr>u_last_login_at := Some 0, u_authentication_method := Some ''password''\<rparr>] \<and> user_sessions d = []
     \<and> refresh_tokens d = [new_token demo_env 0 1 ''r'' ''f'' 1]"
proof -
  have u: "u_id (sample_user 1 ''ada'') = 1" by (simp add: sample_user_def)
  have "evict_oldest_sessions_over_limit demo_env 0 1 d = d" if "user_sessions d = []" for d
    using that by (simp add: evict_oldest_sessions_over_limit_def effectively_active_def demo_env_def sample_env_def default_settings_def Let_def)
  note ev = this
  let ?d = "add_token demo_env 0 1 ''r'' ''f'' (set_user 1 (\<lambda>x. x\<lparr>u_last_login_at := Some 0, u_authentication_method := Some ''password''\<rparr>) demo_db)"
  have d: "user_sessions ?d = []" "refresh_tokens ?d = [new_token demo_env 0 1 ''r'' ''f'' 1]"
    "users ?d = [(sample_user 1 ''ada'')\<lparr>u_last_login_at := Some 0, u_authentication_method := Some ''password''\<rparr>]"
    by (simp_all add: add_token_def set_user_def demo_db_def empty_db_def new_token_def update_where_def u next_id_def)
  have "\<exists>o' rl. demo1 = session_create 0 ''f'' 1 o' rl (Some ''password'') True (days 7) None None
       \<lparr>sc_name_id = None, sc_session_index = None, sc_config_id = None\<rparr> ?d"
    unfolding demo1_def generate_tokens_def Let_def demo_tokens u by (simp add: persisted_auth_method_def ev [OF d(1)]) blast
  then show ?thesis using d by blast
qed

lemma demo1_tables:
  "refresh_tokens demo1 = [new_token demo_env 0 1 ''r'' ''f'' 1]"
  "session_ids demo1 = [''f'']" "map us_user_id (user_sessions demo1) = [1]" "map us_status (user_sessions demo1) = [''active'']"
  "map us_created_at (user_sessions demo1) = [0]" "map us_last_activity_at (user_sessions demo1) = [0]" "map us_expires_at (user_sessions demo1) = [days 7]"
  "users demo1 = [(sample_user 1 ''ada'')\<lparr>u_last_login_at := Some 0, u_authentication_method := Some ''password''\<rparr>]"
proof -
  obtain o' rl d where d: "demo1 = session_create 0 ''f'' 1 o' rl (Some ''password'') True (days 7) None None
       \<lparr>sc_name_id = None, sc_session_index = None, sc_config_id = None\<rparr> d"
    "users d = [(sample_user 1 ''ada'')\<lparr>u_last_login_at := Some 0, u_authentication_method := Some ''password''\<rparr>]" "user_sessions d = []"
    "refresh_tokens d = [new_token demo_env 0 1 ''r'' ''f'' 1]" using demo1_eq by blast
  show "refresh_tokens demo1 = [new_token demo_env 0 1 ''r'' ''f'' 1]"
    "session_ids demo1 = [''f'']" "map us_user_id (user_sessions demo1) = [1]" "map us_status (user_sessions demo1) = [''active'']"
    "map us_created_at (user_sessions demo1) = [0]" "map us_last_activity_at (user_sessions demo1) = [0]" "map us_expires_at (user_sessions demo1) = [days 7]"
    "users demo1 = [(sample_user 1 ''ada'')\<lparr>u_last_login_at := Some 0, u_authentication_method := Some ''password''\<rparr>]"
    by (simp_all add: d session_create_def session_ids_def)
qed

lemma demo1_reachable: "(auth_step demo_env)\<^sup>*\<^sup>* empty_db demo1"
proof -
  have "auth_step demo_env empty_db demo_db" by (rule auth_step.elsewhere) (simp_all add: demo_db_def)
  moreover have "auth_step demo_env demo_db demo1"
    by (rule auth_step.generate_tokens [OF demo_generate])
       (simp_all add: fresh_family_def demo_db_def empty_db_def session_ids_def families_def)
  ultimately show ?thesis by (meson converse_rtranclp_into_rtranclp r_into_rtranclp)
qed

lemma demo1_guard: "\<exists>u. rotate_guard demo_env 1 demo1 (new_token demo_env 0 1 ''r'' ''f'' 1) u"
proof -
  obtain x where us: "user_sessions demo1 = [x]" using demo1_tables(3) by (auto simp: map_eq_Cons_conv)
  then have "get_by_family_id demo1 (Some ''f'') = Some x" using demo1_tables(2) by (simp add: get_by_family_id_def session_ids_def query_first_def)
  then show ?thesis using us demo1_tables
    by (simp add: rotate_guard_def new_token_def is_usable_def check_timeout_policy_def find_user_def query_first_def sample_user_def days_def seconds_def
        demo_env_def sample_env_def default_settings_def Let_def)
qed

lemma demo_token_of: "token_of demo_env demo1 ''r'' = Some (new_token demo_env 0 1 ''r'' ''f'' 1)"
  by (simp add: token_of_def demo1_tables new_token_def query_first_def)

lemma demo_rotate: "rotate_refresh_token demo_env 1 ''b'' ''q'' ''g'' ''r'' None demo1 = (demo2, Some (''b'', ''q''))"
proof -
  obtain u where "rotate_guard demo_env 1 demo1 (new_token demo_env 0 1 ''r'' ''f'' 1) u" using demo1_guard by blast
  with demo_token_of show ?thesis by (rule rotate_accepts [where ja = "''b''" and jr = "''q''" and ff = "''g''" and team = None]) (simp add: demo2_def)
qed

lemma demo_fresh: "fresh_family demo1 ''g''" "hash_refresh_token demo_env ''q'' \<notin> set (token_hashes demo1)"
  by (simp_all add: fresh_family_def families_def demo1_tables new_token_def)

lemma demo2_reachable: "(auth_step demo_env)\<^sup>*\<^sup>* empty_db demo2"
  using demo1_reachable auth_step.rotate_accepted [OF demo_rotate demo_fresh] by simp

lemma demo2_tokens:
  "token_of demo_env demo2 ''r'' = Some (rotated 1 ''f'' (new_token demo_env 0 1 ''r'' ''f'' 1))"
  "token_of demo_env demo2 ''q'' = Some (new_token demo_env 1 1 ''q'' ''f'' 2)"
proof -
  from demo_rotate obtain t f and u :: user where t: "token_of demo_env demo1 ''r'' = Some t" and g: "rotate_guard demo_env 1 demo1 t u"
    and f: "f = (if truthy (rt_family_id t) then the (rt_family_id t) else ''g'')"
    and ts: "refresh_tokens demo2 = update_where (\<lambda>x. rt_id x = rt_id t) (rotated 1 f) (refresh_tokens demo1)
       @ [new_token demo_env 1 (u_id u) ''q'' f (next_id rt_id (update_where (\<lambda>x. rt_id x = rt_id t) (rotated 1 f) (refresh_tokens demo1)))]"
    by (rule rotate_Some) blast
  have tt: "t = new_token demo_env 0 1 ''r'' ''f'' 1" using t demo_token_of by simp
  have "u_id u = 1" using g by (simp add: rotate_guard_def tt new_token_def find_user_def demo1_tables query_first_def sample_user_def) auto
  then have "refresh_tokens demo2 = [rotated 1 ''f'' (new_token demo_env 0 1 ''r'' ''f'' 1), new_token demo_env 1 1 ''q'' ''f'' 2]"
    using f by (simp add: ts tt demo1_tables new_token_def rotated_def update_where_def next_id_def)
  then show "token_of demo_env demo2 ''r'' = Some (rotated 1 ''f'' (new_token demo_env 0 1 ''r'' ''f'' 1))"
    "token_of demo_env demo2 ''q'' = Some (new_token demo_env 1 1 ''q'' ''f'' 2)"
    by (simp_all add: token_of_def query_first_def rotated_def new_token_def)
qed

text \<open>The run of the example satisfies the hypotheses of the three properties.\<close>

theorem refresh_token_accepted_once_witness:
  "snd (rotate_refresh_token demo_env 2 ''c'' ''p'' ''g'' ''r'' None demo2) = None"
  by (rule refresh_token_accepted_once [OF demo1_reachable demo_rotate demo_fresh rtranclp.rtrancl_refl])

theorem reuse_ends_family_witness:
  "snd (rotate_refresh_token demo_env 3 ''c'' ''p'' ''g'' ''q'' None (fst (rotate_refresh_token demo_env 2 ''c'' ''p'' ''g'' ''r'' None demo2))) = None"
proof -
  let ?s = "fst (rotate_refresh_token demo_env 2 ''c'' ''p'' ''g'' ''r'' None demo2)"
  have s: "?s = end_session demo_env 2 1 (Some ''f'') ''reuse_detected'' None demo2"
    by (simp add: rotate_refresh_token_def demo2_tokens) (simp add: rotated_def new_token_def)
  have "\<exists>t. token_of demo_env ?s ''q'' = Some t \<and> rt_family_id t = Some ''f''"
    using demo2_tokens(2) unfolding s token_of_def end_session_effect(1)
    by (simp add: query_first_update_where) (simp add: new_token_def)
  then obtain t where t: "token_of demo_env ?s ''q'' = Some t" "rt_family_id t = Some ''f''" by blast
  show ?thesis
    using reuse_ends_family [OF demo2_reachable demo2_tokens(1) _ _ prod.collapse [symmetric] rtranclp.rtrancl_refl t]
    by (simp add: rotated_def new_token_def)
qed

theorem ended_session_final_witness:
  "snd (rotate_refresh_token demo_env 3 ''c'' ''p'' ''g'' ''r'' None (revoke_token demo_env 2 ''r'' demo1)) = None"
proof -
  let ?s = "revoke_token demo_env 2 ''r'' demo1"
  have t: "token_of demo_env ?s ''r'' = Some ((new_token demo_env 0 1 ''r'' ''f'' 1)\<lparr>rt_revoked := True\<rparr>)"
    unfolding token_of_def revoke_token_effect(1) [OF demo_token_of] by (simp add: demo1_tables new_token_def query_first_def)
  show ?thesis
    by (rule ended_session_final [OF demo1_reachable _ _ rtranclp.rtrancl_refl t, of "''f''" 2 "''r''" 1 "''x''" None])
       (simp_all add: demo1_tables demo_token_of, simp_all add: new_token_def)
qed

end
