(* ===== verification/Login_Security.thy ===== *)
theory Login_Security
  imports Refresh_Security
begin

text \<open>
  What signing in guarantees: the limit on concurrent sessions, that a second factor cannot be
  skipped, what a password check accepts and how its failures look, and which permissions a
  token can carry.
\<close>

subsection \<open>Concurrent sessions\<close>

lemma filter_update_where_drop:
  "(\<And>x. P x \<Longrightarrow> \<not> Q (f x)) \<Longrightarrow> filter Q (update_where P f xs) = filter (\<lambda>x. Q x \<and> \<not> P x) xs"
  by (induction xs) auto

lemma filter_notin_take: "distinct (map f ys) \<Longrightarrow> filter (\<lambda>x. f x \<notin> f ` set (take n ys)) ys = drop n ys"
proof (induction ys arbitrary: n)
  case (Cons y ys)
  show ?case
  proof (cases n)
    case 0
    then show ?thesis by simp
  next
    case (Suc m)
    have "filter (\<lambda>x. f x \<notin> insert (f y) (f ` set (take m ys))) ys = filter (\<lambda>x. f x \<notin> f ` set (take m ys)) ys"
      using Cons.prems by (intro filter_cong) (auto simp: image_iff)
    then show ?thesis using Cons Suc by simp
  qed
qed simp

lemma active_end_session:
  assumes d: "distinct (session_ids s)" and i: "i \<noteq> []"
  shows "effectively_active E now u (end_session E now v (Some i) r a s) = filter (\<lambda>x. us_session_id x \<noteq> i) (effectively_active E now u s)"
proof -
  let ?Q = "\<lambda>x. us_user_id x = u \<and> us_status x = ''active''"
  let ?s = "revoke_family (Some i) s"
  have "filter ?Q (user_sessions (session_revoke now (Some i) r ?s)) = filter (\<lambda>x. ?Q x \<and> us_session_id x \<noteq> i) (user_sessions s)"
  proof (cases "get_by_family_id s (Some i)")
    case None
    then have "\<forall>x \<in> set (user_sessions s). us_session_id x \<noteq> i" using get_family_None [OF i, of s] by (force simp: session_ids_def)
    then show ?thesis using None by (auto simp: session_revoke_def intro!: filter_cong)
  next
    case (Some x)
    show ?thesis
    proof (cases "us_status x = ''revoked''")
      case True
      have "y = x" if "y \<in> set (user_sessions s)" "us_session_id y = i" for y
        using d that get_by_family_Some [OF Some] by (auto simp: session_ids_def dest: distinct_keyD)
      then show ?thesis using True Some by (auto simp: session_revoke_def intro!: filter_cong)
    next
      case False
      then show ?thesis using Some get_by_family_Some [OF Some]
        by (simp add: session_revoke_def filter_update_where_drop)
    qed
  qed
  then show ?thesis
    by (simp add: effectively_active_def end_session_def flip: filter_sort) (simp add: conj_commute conj_left_commute cong: conj_cong)
qed

lemma active_fold_end:
  assumes "distinct (session_ids s)" "\<forall>x \<in> set xs. us_session_id x \<noteq> []"
  shows "effectively_active E now u (fold (\<lambda>x. end_session E now v (Some (us_session_id x)) r a) xs s)
       = filter (\<lambda>x. us_session_id x \<notin> us_session_id ` set xs) (effectively_active E now u s)"
  using assms
proof (induction xs arbitrary: s)
  case (Cons x xs)
  then show ?case by (simp add: active_end_session end_session_effect(2))
qed simp

lemma active_subset: "x \<in> set (effectively_active E now u s) \<Longrightarrow> x \<in> set (user_sessions s)"
  by (auto simp: effectively_active_def)

lemma distinct_active: "distinct (session_ids s) \<Longrightarrow> distinct (map us_session_id (effectively_active E now u s))"
  by (auto simp: effectively_active_def session_ids_def distinct_map inj_on_def)

lemma active_evict:
  assumes ok: "tok_ok s"
  shows "effectively_active E now u (evict_oldest_sessions_over_limit E now u s)
       = drop (nat (int (length (effectively_active E now u s)) - SESSION_MAX_CONCURRENT (cfg E) + 1)) (effectively_active E now u s)"
proof -
  let ?A = "effectively_active E now u s"
  let ?n = "nat (int (length ?A) - SESSION_MAX_CONCURRENT (cfg E) + 1)"
  have d: "distinct (session_ids s)" using ok by (simp add: tok_ok_def)
  have ne: "\<forall>x \<in> set (take ?n ?A). us_session_id x \<noteq> []"
  proof
    fix x assume "x \<in> set (take ?n ?A)"
    then have "us_session_id x \<in> set (session_ids s)" using active_subset [OF in_set_takeD] by (auto simp: session_ids_def)
    then show "us_session_id x \<noteq> []" using ok by (auto simp: tok_ok_def)
  qed
  show ?thesis
  proof (cases "int (length ?A) - SESSION_MAX_CONCURRENT (cfg E) + 1 \<le> 0")
    case False
    then show ?thesis
      using active_fold_end [OF d ne] filter_notin_take [OF distinct_active [OF d]]
      by (simp add: evict_oldest_sessions_over_limit_def Let_def)
  qed (simp add: evict_oldest_sessions_over_limit_def Let_def)
qed

lemma effectively_active_alt:
  "effectively_active E now u s = sort_key us_created_at (filter (\<lambda>x. us_user_id x = u \<and> us_status x = ''active''
     \<and> effective_status (cfg E) now x = ''active'') (user_sessions s))"
  by (simp add: effectively_active_def filter_sort)

lemma active_append:
  assumes "user_sessions s' = user_sessions s @ [x]"
  shows "length (effectively_active E now u s') \<le> Suc (length (effectively_active E now u s))"
    "us_session_id x \<notin> set (session_ids s) \<Longrightarrow>
       filter (\<lambda>y. us_session_id y \<noteq> us_session_id x) (effectively_active E now u s') = effectively_active E now u s"
proof -
  show "length (effectively_active E now u s') \<le> Suc (length (effectively_active E now u s))"
    by (simp add: effectively_active_alt assms)
  assume "us_session_id x \<notin> set (session_ids s)"
  then have "\<forall>y \<in> set (user_sessions s). us_session_id y \<noteq> us_session_id x" unfolding session_ids_def by (metis imageI list.set_map)
  then show "filter (\<lambda>y. us_session_id y \<noteq> us_session_id x) (effectively_active E now u s') = effectively_active E now u s"
    by (auto simp: effectively_active_alt assms filter_sort intro!: arg_cong [where f = "sort_key us_created_at"] filter_cong)
qed

text \<open>
  C34. The limit on concurrent sessions, where it is at least 1. In every reachable state a new
  login, taken as one step, leaves the user with at most \<open>SESSION_MAX_CONCURRENT\<close> sessions that
  are still effectively active, and of the earlier ones exactly the newest survive, in the
  order of their creation.
\<close>

theorem concurrent_session_limit:
  assumes reach: "(auth_step E)\<^sup>*\<^sup>* empty_db s" and pos: "1 \<le> SESSION_MAX_CONCURRENT (cfg E)"
    and gen: "generate_tokens E now ja jr fid u am idp ip ua sc s = (s', a, r)"
    and ff: "fresh_family s fid" and h: "hash_refresh_token E r \<notin> set (token_hashes s)"
  shows "int (length (effectively_active E now (u_id u) s')) \<le> SESSION_MAX_CONCURRENT (cfg E)
     \<and> filter (\<lambda>x. us_session_id x \<noteq> fid) (effectively_active E now (u_id u) s')
       = drop (nat (int (length (effectively_active E now (u_id u) s)) - SESSION_MAX_CONCURRENT (cfg E) + 1)) (effectively_active E now (u_id u) s)"
proof -
  let ?s1 = "set_user (u_id u) (\<lambda>x. x\<lparr>u_last_login_at := Some now, u_authentication_method := Some (persisted_auth_method am)\<rparr>) s"
  let ?s2 = "add_token E now (u_id u) r fid ?s1"
  let ?s3 = "evict_oldest_sessions_over_limit E now (u_id u) ?s2"
  have ok: "tok_ok s" by (rule auth.reachable [OF reach tok_ok_empty])
  have us2: "user_sessions ?s2 = user_sessions s" "refresh_tokens ?s2 = refresh_tokens s @ [new_token E now (u_id u) r fid (next_id rt_id (refresh_tokens s))]"
    by (simp_all add: add_token_def set_user_def new_token_def)
  have ids: "session_ids ?s2 = session_ids s" using sessions_cong [OF us2(1)] by blast
  have dead: "\<forall>t \<in> set (refresh_tokens s). rt_family_id t = Some fid \<longrightarrow> rt_revoked t"
    using ff by (force simp: fresh_family_def families_def)
  have "tok_ok ?s2"
    by (rule add_token_ok(1) [OF ok us2(2) h _ dead]) (use ff ok ids in \<open>simp_all add: fresh_family_def tok_ok_def\<close>)
  note ev = active_evict [OF this, of E now "u_id u"]
  have A: "effectively_active E now (u_id u) ?s2 = effectively_active E now (u_id u) s"
    using us2(1) by (simp add: effectively_active_def)
  have "\<exists>o' rl. s' = session_create now fid (u_id u) o' rl (Some am) True (now + days 7) ip ua sc ?s3"
    using gen by (auto simp: generate_tokens_def Let_def)
  then obtain x where x: "user_sessions s' = user_sessions ?s3 @ [x]" "us_session_id x = fid" by (auto simp: session_create_def)
  have "fid \<notin> set (session_ids ?s3)" using ff ids by (simp add: evict_keeps(3) fresh_family_def)
  with active_append [OF x(1), of E now "u_id u"] ev A pos x(2) show ?thesis by auto
qed

theorem concurrent_session_limit_witness:
  "length (effectively_active demo_env 0 1 demo1) \<le> 5"
proof -
  have "(auth_step demo_env)\<^sup>*\<^sup>* empty_db demo_db" by (intro r_into_rtranclp auth_step.elsewhere) (simp_all add: demo_db_def)
  from concurrent_session_limit [OF this _ demo_generate] show ?thesis
    by (simp add: demo_env_def sample_env_def default_settings_def sample_user_def fresh_family_def demo_db_def empty_db_def session_ids_def families_def)
qed

subsection \<open>The second factor\<close>

text \<open>
  C6. A second factor cannot be skipped. \<open>generate_tokens_or_mfa_challenge\<close> hands out
  tokens exactly when the account has no authenticator, the e-mail factor does not apply, and
  the user's organization does not demand a second factor: it does so in this case, the tokens
  being those of \<open>generate_tokens\<close> for the account and the method, and in every other case,
  error cases included, no refresh token and no session is created.
\<close>

theorem mfa_not_skipped:
  "((\<exists>s' a r. generate_tokens_or_mfa_challenge E now ja jr fid code u am idp ip ua sc s = (s', Inr (Tokens a r)))
     \<longleftrightarrow> \<not> u_mfa_enabled u \<and> \<not> (am = ''password'' \<and> is_enabled_for E u)
        \<and> \<not> org_requires_mfa s (map_option m_organization_id (resolve_primary_membership s (u_id u))))
   \<and> (case generate_tokens_or_mfa_challenge E now ja jr fid code u am idp ip ua sc s of
     (s', Inr (Tokens a r)) \<Rightarrow> \<not> u_mfa_enabled u \<and> \<not> (am = ''password'' \<and> is_enabled_for E u)
        \<and> \<not> org_requires_mfa s (map_option m_organization_id (resolve_primary_membership s (u_id u)))
        \<and> generate_tokens E now ja jr fid u am (jint_opt idp) ip ua sc s = (s', a, r)
   | (s', Inr (Challenge c ms)) \<Rightarrow> refresh_tokens s' = refresh_tokens s \<and> user_sessions s' = user_sessions s
        \<and> c = create_mfa_challenge_token E now ja (u_id u) am idp sc (if am = ''password'' \<and> is_enabled_for E u then Some ''email'' else None)
        \<and> ms = (if am = ''password'' \<and> is_enabled_for E u then [''email''] else [''totp''])
   | (s', Inl e) \<Rightarrow> refresh_tokens s' = refresh_tokens s \<and> user_sessions s' = user_sessions s)"
proof -
  have frame: "refresh_tokens s' = refresh_tokens t \<and> user_sessions s' = user_sessions t" if i: "issue_code E now code u c False t = Inr (s', n)" for c t s' n
    using issue_code_Inr [OF i] by (auto simp: send_code_def Let_def split: if_splits option.splits)
  show ?thesis
    by (intro conjI; auto simp: generate_tokens_or_mfa_challenge_def Let_def split_beta dest: frame split: prod.splits sum.splits login_result.splits)
qed

subsection \<open>Passwords\<close>

text \<open>The limiter's next state does not depend on the database.\<close>

lemma record_failure_lim:
  assumes "s_lim s = s_lim s'"
  shows "s_lim (login_record_failure R E now email ip s) = s_lim (login_record_failure R E now email ip s')"
proof -
  have att: "s_lim (throttle_attempt R E now k w m lo fw fm f s1) = s_lim (throttle_attempt R E now k w m lo fw fm f s2)"
    if "s_lim s1 = s_lim s2" "\<And>t1 t2. s_lim t1 = s_lim t2 \<Longrightarrow> s_lim (f t1) = s_lim (f t2)" for k w m lo fw fm f and s1 s2 :: "'a sys"
    using that by (simp add: throttle_attempt_def Let_def split_beta)
  have esc: "s_lim (apply_progressive_escalation R T now sk ak s1) = s_lim (apply_progressive_escalation R T now sk ak s2)"
    if "s_lim s1 = s_lim s2" for T sk ak and s1 s2 :: "'a sys"
    using that by (simp add: apply_progressive_escalation_def Let_def split_beta)
  let ?T = "RATE_LIMIT (cfg E)" and ?ip = "ip_or_empty ip"
  let ?A = "throttle_attempt R E now (login_account_key E email)
     (TS_ACCOUNT_WINDOW_SECONDS ?T) (TS_ACCOUNT_MAX_ATTEMPTS ?T) (TS_ACCOUNT_LOCKOUT_SECONDS ?T) None None
     (\<lambda>s. login_audit_triggered E now email ?ip ''account'' (TS_ACCOUNT_LOCKOUT_SECONDS ?T)
        (apply_progressive_escalation R ?T now (login_strike_key E email) (login_account_key E email) s))"
  let ?B = "throttle_attempt R E now (login_pair_key E email ?ip)
     (TS_PAIR_WINDOW_SECONDS ?T) (TS_PAIR_MAX_ATTEMPTS ?T) (TS_PAIR_LOCKOUT_SECONDS ?T) None None
     (login_audit_triggered E now email ?ip ''pair'' (TS_PAIR_LOCKOUT_SECONDS ?T))"
  have A: "s_lim (?A s) = s_lim (?A s')" by (rule att [OF assms]) (simp add: login_audit_triggered_def, erule esc)
  have B: "s_lim (?B (?A s)) = s_lim (?B (?A s'))" by (rule att [OF A]) (simp add: login_audit_triggered_def)
  let ?C = "throttle_attempt R E now (login_ip_key ?ip)
     (TS_IP_WINDOW_SECONDS ?T) (TS_IP_MAX_ATTEMPTS ?T) (TS_IP_LOCKOUT_SECONDS ?T) None None
     (login_audit_triggered E now email ?ip ''ip'' (TS_IP_LOCKOUT_SECONDS ?T))"
  have C: "s_lim (?C (?B (?A s))) = s_lim (?C (?B (?A s')))" by (rule att [OF B]) (simp add: login_audit_triggered_def)
  show ?thesis
    unfolding login_record_failure_def Let_def using assms B C by (cases "TS_ENABLED ?T"; cases "?ip = []") simp_all
qed

lemma failure_lim: "s_lim (login_failed R E now email u reason ip s) = s_lim (login_record_failure R E now email ip s)"
  unfolding login_failed_def by (rule record_failure_lim) simp

text \<open>
  Property. What a password login accepts and how it fails. \<open>authenticate_user\<close> returns a user
  only if the row found for the address is active, has a password hash and the hash verifies,
  and it then rehashes the password if the hash is outdated. Every failure writes one
  \<open>login_failure\<close> event and counts one strike with the throttle; the limiter ends up the same
  whether the address is unknown, inactive, without a password or the password is wrong, so
  that throttling tells an attacker nothing about the account.
\<close>

theorem password_login_spec:
  "case authenticate_user R E now email pw ip s of
     (s', Inr (Some x)) \<Rightarrow>
       (case find_user_by_email (s_db s) email of
          None \<Rightarrow> False
        | Some y \<Rightarrow> u_status y = ''active'' \<and> truthy (u_hashed_password y) \<and> verify_password E pw (the (u_hashed_password y)) = Inr True
            \<and> x = (if needs_rehash E (the (u_hashed_password y)) then y\<lparr>u_hashed_password := Some (hash_password E pw)\<rparr> else y))
   | (s', Inr None) \<Rightarrow> (\<exists>reason. s' = login_record_failure R E now email ip
              (s\<lparr>s_db := log_login_failure E now email (find_user_by_email (s_db s) email) reason (s_db s)\<rparr>))
        \<and> s_lim s' = s_lim (login_record_failure R E now email ip s)
   | (s', Inl e) \<Rightarrow> s' = s"
  by (auto simp: authenticate_user_def Let_def failure_lim login_failed_def [symmetric]
      split: option.splits sum.splits bool.splits if_splits)

text \<open>A series of login attempts, each with its time, password and client address.\<close>

definition login_attempts :: "'r redis \<Rightarrow> env \<Rightarrow> string \<Rightarrow> (time \<times> string \<times> string option) list \<Rightarrow> 'r sys \<Rightarrow> 'r sys" where
  "login_attempts R E email = fold (\<lambda>(t, pw, ip) s. fst (authenticate_user R E t email pw ip s))"

fun all_fail :: "'r redis \<Rightarrow> env \<Rightarrow> string \<Rightarrow> (time \<times> string \<times> string option) list \<Rightarrow> 'r sys \<Rightarrow> bool" where
  "all_fail R E email [] s = True"
| "all_fail R E email ((t, pw, ip) # rest) s =
     (snd (authenticate_user R E t email pw ip s) = Inr None \<and> all_fail R E email rest (fst (authenticate_user R E t email pw ip s)))"

lemma failed_login_lim:
  "snd (authenticate_user R E now email pw ip s) = Inr None \<Longrightarrow>
     s_lim (fst (authenticate_user R E now email pw ip s)) = s_lim (login_record_failure R E now email ip s)"
  by (auto simp: authenticate_user_def Let_def failure_lim split: option.splits sum.splits bool.splits if_splits)

lemma login_attempts_lim:
  "all_fail R E email as s \<Longrightarrow> s_lim s = s_lim s' \<Longrightarrow>
     s_lim (login_attempts R E email as s) = s_lim (fold (\<lambda>(t, ip). login_record_failure R E t email ip) (map (\<lambda>(t, pw, ip). (t, ip)) as) s')"
proof (induction as arbitrary: s s')
  case (Cons a as)
  obtain t pw ip where a: "a = (t, pw, ip)" by (cases a) auto
  have "s_lim (fst (authenticate_user R E t email pw ip s)) = s_lim (login_record_failure R E t email ip s')"
    using failed_login_lim [of R E t email pw ip s] record_failure_lim [OF Cons.prems(2)] Cons.prems(1) a by simp
  from Cons.IH [OF _ this] Cons.prems(1) a show ?case by (simp add: login_attempts_def)
qed (simp add: login_attempts_def)

lemma check_throttled_lim: "s_lim s = s_lim s' \<Longrightarrow> snd (login_check_throttled R E u email ip s) = snd (login_check_throttled R E u email ip s')"
  by (simp add: login_check_throttled_def Let_def split_beta)

text \<open>
  C5. Guessing a password is stopped, end to end. With Redis reachable and the account's
  keys fresh, after as many failed calls of \<open>authenticate_user\<close> within one account window as
  \<open>RATE_LIMIT_ACCOUNT_MAX_ATTEMPTS\<close>, whatever passwords and client addresses they carry and
  whether or not the account exists, \<open>check_throttled\<close> refuses every login of that account,
  from every address, until (one second before) the lock-out time after the last failure.
\<close>

theorem brute_force_stopped:
  assumes R: "redis_store R entry" and ok: "throttle_ok (RATE_LIMIT (cfg E))" and en: "TS_ENABLED (RATE_LIMIT (cfg E))"
    and up: "red_up R (s_red s)"
    and fresh: "entry (s_red s) (login_account_key E email) = None" "entry (s_red s) (lock_of (login_account_key E email)) = None"
    and M: "1 \<le> TS_ACCOUNT_MAX_ATTEMPTS (RATE_LIMIT (cfg E))"
    and fails: "all_fail R E email as s" and len: "int (length as) = TS_ACCOUNT_MAX_ATTEMPTS (RATE_LIMIT (cfg E))"
    and win: "\<forall>(t, pw, ip) \<in> set as. t < fst (hd as) + seconds (TS_ACCOUNT_WINDOW_SECONDS (RATE_LIMIT (cfg E)))"
    and u: "u + seconds 1 \<le> fst (last as) + seconds (TS_ACCOUNT_LOCKOUT_SECONDS (RATE_LIMIT (cfg E)))"
  shows "th_locked (snd (login_check_throttled R E u email any_ip (login_attempts R E email as s)))"
proof -
  let ?fs = "map (\<lambda>(t, pw, ip). (t, ip)) as"
  have ne: "as \<noteq> []" using len M by auto
  then have hl: "fst (hd ?fs) = fst (hd as)" "fst (last ?fs) = fst (last as)" by (simp_all add: hd_map last_map split_beta)
  have "th_locked (snd (login_check_throttled R E u email any_ip (fold (\<lambda>(t, ip). login_record_failure R E t email ip) ?fs s)))"
    by (rule login_account_lockout [OF R ok en up fresh M]) (use len win u in \<open>auto simp only: hl length_map set_map split: prod.splits\<close>)
  then show ?thesis using check_throttled_lim [OF login_attempts_lim [OF fails refl]] by metis
qed

definition strict_env :: env where
  "strict_env = (sample_env Map.empty)\<lparr>cfg := default_settings\<lparr>RATE_LIMIT := default_rate_limit\<lparr>TS_ACCOUNT_MAX_ATTEMPTS := 1\<rparr>\<rparr>\<rparr>"

theorem brute_force_stopped_witness:
  "th_locked (snd (login_check_throttled kv_redis strict_env (seconds 100) ''ann'' None (login_attempts kv_redis strict_env ''ann'' [(0, ''guess'', Some ''ip'')] kv_sys)))"
proof (rule brute_force_stopped [OF kv.redis_store_axioms])
  show "all_fail kv_redis strict_env ''ann'' [(0, ''guess'', Some ''ip'')] kv_sys"
    by (simp add: authenticate_user_def find_user_by_email_def kv_sys_def empty_db_def verify_password_def strict_env_def sample_env_def)
qed (simp_all add: strict_env_def sample_env_def default_settings_def default_rate_limit_def throttle_ok_def kv_sys_def kv_redis_def
       kv_entry_def seconds_def)

subsection \<open>Claims\<close>

abbreviation bound_membership :: "db \<Rightarrow> user \<Rightarrow> org_membership option \<Rightarrow> org_membership option" where
  "bound_membership s u m \<equiv> (case m of Some x \<Rightarrow> Some x | None \<Rightarrow> resolve_primary_membership s (u_id u))"

lemma inj_JStr: "inj JStr"
  by (simp add: inj_def)

lemma claimed_permissions:
  assumes "get_claim (build_user_claims s u am idp team m) ''permissions'' = jstrs ps"
  shows "ps = sorted_set (concat (map (role_perms s) (roles_of_user s u @ (case bound_membership s u m of None \<Rightarrow> [] | Some x \<Rightarrow> roles_of_membership s x))))"
proof -
  have "ps = sorted_set (concat (map (role_perms s) (roles_of_user s u))
      @ (case bound_membership s u m of None \<Rightarrow> [] | Some x \<Rightarrow> permissions_for_membership s x))"
    using assms by (auto simp: build_user_claims_def Let_def split_beta simp flip: inj_map_eq_map [OF inj_JStr] split: option.splits)
  then show ?thesis
    by (auto simp: permissions_for_membership_def permissions_for_roles_def intro!: sorted_set_cong split: option.splits)
qed

text \<open>
  C37. A token carries exactly the permissions of its holder's roles. In every state the
  role and organization operations can reach, the \<open>permissions\<close> claim lists, sorted and
  without repetition, the permissions of the user's platform roles and of the roles of the
  membership the token is bound to; all of them are registered, and a platform-wide permission
  in the claim stems from a role that is platform-wide itself.
\<close>

theorem claims_match_roles:
  assumes reach: "org_reachable E empty_db s" and ps: "get_claim (build_user_claims s u am idp team m) ''permissions'' = jstrs ps"
  shows "sorted ps \<and> distinct ps
     \<and> (p \<in> set ps \<longleftrightarrow> (\<exists>r. (r \<in> set (roles_of_user s u) \<or> (\<exists>x. bound_membership s u m = Some x \<and> r \<in> set (roles_of_membership s x))) \<and> p \<in> set (role_perms s r)))
     \<and> (p \<in> set ps \<longrightarrow> is_known_permission p)
     \<and> (p \<in> set ps \<inter> set GLOBAL_SCOPE_PERMISSIONS \<longrightarrow> (\<exists>r \<in> set (roles s). r_organization_id r = None \<and> p \<in> set (role_perms s r)
           \<and> (r \<in> set (roles_of_user s u) \<or> (\<exists>x. bound_membership s u m = Some x \<and> r \<in> set (roles_of_membership s x)))))"
proof -
  have inv: "registered_ok s" "org_roles_ok s" using org.reachable [OF reach org_inv_empty] by (simp_all add: org_inv_def roles_inv_def)
  have mem: "p \<in> set ps \<longleftrightarrow> (\<exists>r. (r \<in> set (roles_of_user s u) \<or> (\<exists>x. bound_membership s u m = Some x \<and> r \<in> set (roles_of_membership s x))) \<and> p \<in> set (role_perms s r))"
    unfolding claimed_permissions [OF ps]
    by (cases m; cases "resolve_primary_membership s (u_id u)") auto
  have known: "is_known_permission p" if "p \<in> set (role_perms s r)" for r
    using that inv(1) by (auto simp: role_perms_def registered_ok_def)
  have role: "r \<in> set (roles s)" if "r \<in> set (roles_of_user s u) \<or> (\<exists>x. bound_membership s u m = Some x \<and> r \<in> set (roles_of_membership s x))" for r
    using that by (auto simp: roles_of_user_def roles_of_membership_def)
  have wide: "r_organization_id r = None" if "r \<in> set (roles s)" "p \<in> set (role_perms s r)" "p \<in> set GLOBAL_SCOPE_PERMISSIONS" for r
    using that inv(2) by (auto simp: org_roles_ok_def)
  have "sorted ps \<and> distinct ps" by (simp add: claimed_permissions [OF ps])
  then show ?thesis using mem known role wide by (intro conjI) blast+
qed

theorem claims_match_roles_witness:
  "\<exists>ps. get_claim (build_user_claims (fst (create_role (sample_env Map.empty) 0 ''qa'' [''manage_org''] None None (Some 3) empty_db))
            (sample_user 1 ''ada'') (JStr ''password'') JNull None None) ''permissions'' = jstrs ps \<and> sorted ps \<and> distinct ps"
proof -
  let ?s = "fst (create_role (sample_env Map.empty) 0 ''qa'' [''manage_org''] None None (Some 3) empty_db)"
  have "org_reachable (sample_env Map.empty) empty_db ?s" by (intro r_into_rtranclp org_step.create_role)
  moreover obtain ps where "get_claim (build_user_claims ?s (sample_user 1 ''ada'') (JStr ''password'') JNull None None) ''permissions'' = jstrs ps"
    by (simp add: build_user_claims_def Let_def split_beta)
  ultimately show ?thesis using claims_match_roles [of "sample_env Map.empty" ?s] by blast
qed

end
