(* ===== verification/Totp.thy ===== *)
theory Totp
  imports Login_Security
begin

unbundle bit_operations_syntax

text \<open>
  The first half of \<open>app/services/mfa_service.py\<close>: time-based one-time passwords (RFC 6238),
  the devices that produce them, their enrolment, and the table of used time steps that makes
  a code work once. \<open>totp_digest\<close> gives the HMAC-SHA-1 of a counter; the truncation, the
  window and every check around it are modelled here. Secrets drawn by
  \<open>generate_totp_secret\<close> are arguments.
\<close>

subsection \<open>Codes\<close>

text \<open>
  \<open>str.isdigit\<close> on the characters 0 to 255, which also accepts the three superscripts of
  Latin-1, and \<open>hmac.compare_digest\<close> on strings, which refuses characters beyond ASCII.
\<close>

definition py_isdigit :: "char \<Rightarrow> bool" where
  "py_isdigit c \<longleftrightarrow> is_digit c \<or> of_char c \<in> {178, 179, 185 :: nat}"

definition compare_digest :: "string \<Rightarrow> string \<Rightarrow> exn + bool" where
  "compare_digest a b = (if list_all (\<lambda>c. of_char c < (128 :: nat)) (a @ b) then Inr (a = b) else Inl TypeError)"

definition code_shape :: "string \<Rightarrow> bool" where
  "code_shape code \<longleftrightarrow> code \<noteq> [] \<and> list_all py_isdigit code \<and> length code = 6"

definition zfill :: "nat \<Rightarrow> string \<Rightarrow> string" where
  "zfill n s = replicate (n - length s) (CHR ''0'') @ s"

definition totp_code_at :: "env \<Rightarrow> string \<Rightarrow> int \<Rightarrow> exn + string" where
  "totp_code_at E secret for_time =
     (case totp_digest E secret (for_time div 30) of
        None \<Rightarrow> Inl BinasciiError
      | Some digest \<Rightarrow>
          let offset = last digest AND 15;
              truncated = take 4 (drop offset digest);
              code_int = foldl (\<lambda>n b. n * 256 + b) 0 truncated AND 2147483647
          in Inr (zfill 6 (show_nat (code_int mod 10 ^ 6))))"

text \<open>The loop over the steps of the window, with the time step of the first match.\<close>

fun totp_search :: "env \<Rightarrow> string \<Rightarrow> string \<Rightarrow> int \<Rightarrow> int list \<Rightarrow> exn + int option" where
  "totp_search E secret code for_time [] = Inr None"
| "totp_search E secret code for_time (step # steps) =
     (case totp_code_at E secret (for_time + step * 30) of
        Inl e \<Rightarrow> Inl e
      | Inr candidate \<Rightarrow>
          (case compare_digest candidate code of
             Inl e \<Rightarrow> Inl e
           | Inr True \<Rightarrow> Inr (Some ((for_time + step * 30) div 30))
           | Inr False \<Rightarrow> totp_search E secret code for_time steps))"

definition totp_matched_step :: "env \<Rightarrow> string \<Rightarrow> string \<Rightarrow> int \<Rightarrow> exn + int option" where
  "totp_matched_step E secret code for_time =
     (if \<not> code_shape code then Inr None else totp_search E secret code for_time [- 1, 0, 1])"

definition verify_totp_code :: "env \<Rightarrow> string \<Rightarrow> string \<Rightarrow> int \<Rightarrow> exn + bool" where
  "verify_totp_code E secret code for_time =
     (if \<not> code_shape code then Inr False
      else map_sum id (\<lambda>m. m \<noteq> None) (totp_search E secret code for_time [- 1, 0, 1]))"

subsection \<open>The provisioning URI\<close>

definition utf8_char :: "char \<Rightarrow> nat list" where
  "utf8_char c = (let n = of_char c :: nat in if n < 128 then [n] else [192 + n div 64, 128 + n mod 64])"

definition hex_digit :: "nat \<Rightarrow> char" where
  "hex_digit n = (if n < 10 then char_of (48 + n) else char_of (55 + n))"

definition always_safe :: "nat \<Rightarrow> bool" where
  "always_safe n \<longleftrightarrow> (48 \<le> n \<and> n \<le> 57) \<or> (65 \<le> n \<and> n \<le> 90) \<or> (97 \<le> n \<and> n \<le> 122) \<or> n \<in> {95, 46, 45, 126}"

definition quote_byte :: "nat set \<Rightarrow> nat \<Rightarrow> string" where
  "quote_byte safe n = (if always_safe n \<or> n \<in> safe then [char_of n] else [CHR ''%'', hex_digit (n div 16), hex_digit (n mod 16)])"

text \<open>\<open>urllib.parse.quote\<close>, and \<open>quote_plus\<close> as \<open>urlencode\<close> uses it.\<close>

definition quote :: "string \<Rightarrow> string" where
  "quote s = concat (map (quote_byte {47}) (concat (map utf8_char s)))"

definition quote_plus :: "string \<Rightarrow> string" where
  "quote_plus s = concat (map (\<lambda>n. if n = 32 then ''+'' else quote_byte {} n) (concat (map utf8_char s)))"

definition generate_provisioning_uri :: "string \<Rightarrow> string \<Rightarrow> string" where
  "generate_provisioning_uri secret account_email =
     ''otpauth://totp/'' @ quote (''OmniBioAI:'' @ account_email) @ ''?secret='' @ quote_plus secret
       @ ''&issuer=OmniBioAI&algorithm=SHA1&digits=6&period=30''"

subsection \<open>Devices\<close>

definition device_live :: "mfa_device \<Rightarrow> bool" where
  "device_live d \<longleftrightarrow> d_verified_at d \<noteq> None \<and> d_disabled_at d = None"

definition set_device :: "int \<Rightarrow> (mfa_device \<Rightarrow> mfa_device) \<Rightarrow> db \<Rightarrow> db" where
  "set_device i f s = s\<lparr>mfa_devices := update_where (\<lambda>d. d_id d = i) f (mfa_devices s)\<rparr>"

definition disable_pending_totp_devices :: "time \<Rightarrow> int \<Rightarrow> db \<Rightarrow> db" where
  "disable_pending_totp_devices now uid s =
     s\<lparr>mfa_devices := update_where (\<lambda>d. d_user_id d = uid \<and> d_device_type d = ''totp'' \<and> d_verified_at d = None \<and> d_disabled_at d = None)
         (\<lambda>d. d\<lparr>d_disabled_at := Some now\<rparr>) (mfa_devices s)\<rparr>"

definition start_totp_enrollment :: "env \<Rightarrow> time \<Rightarrow> string \<Rightarrow> int \<Rightarrow> string \<Rightarrow> db \<Rightarrow> db \<times> (exn + mfa_device \<times> string)" where
  "start_totp_enrollment E now secret uid account_email s =
     (let s1 = disable_pending_totp_devices now uid s in
      if \<not> crypto_configured E then (s1, Inl (RuntimeError ''CONFIG_ENCRYPTION_KEY is not set''))
      else let d = \<lparr>d_id = next_id d_id (mfa_devices s1), d_user_id = uid, d_device_type = ''totp'', d_label = None,
                    d_encrypted_secret = crypto_encrypt E secret, d_created_at = now, d_verified_at = None,
                    d_last_used_at = None, d_disabled_at = None\<rparr>;
               s2 = s1\<lparr>mfa_devices := mfa_devices s1 @ [d]\<rparr>
           in (log_event E now ((audit ''mfa_device_enrollment_started'')
                 \<lparr>a_actor := Some uid, a_target := Some uid, a_rtype := Some ''mfa_device'', a_rid := Some (show_int (d_id d)),
                  a_meta := JObj [(''device_type'', JStr ''totp'')]\<rparr>) s2,
               Inr (d, generate_provisioning_uri secret account_email)))"

definition enable_user_mfa :: "time \<Rightarrow> user \<Rightarrow> user" where
  "enable_user_mfa now u = u\<lparr>u_mfa_enabled := True, u_mfa_status := ''enabled'', u_mfa_primary_method := Some ''totp'',
     u_mfa_enabled_at := Some now, u_mfa_last_verified_at := Some now\<rparr>"

definition verify_totp_enrollment :: "env \<Rightarrow> time \<Rightarrow> int \<Rightarrow> int \<Rightarrow> string \<Rightarrow> db \<Rightarrow> exn + db \<times> mfa_device" where
  "verify_totp_enrollment E now uid device_id code s =
     (case query_first (\<lambda>d. d_id d = device_id \<and> d_user_id d = uid) (mfa_devices s) of
        None \<Rightarrow> Inl (LookupError ''MFA device not found'')
      | Some d \<Rightarrow>
          if d_disabled_at d \<noteq> None then Inl (ValueError ''This enrollment is no longer active -- start a new one'' [])
          else if d_verified_at d \<noteq> None then Inl (ValueError ''This device is already verified'' [])
          else case crypto_decrypt E (d_encrypted_secret d) of
            None \<Rightarrow> Inl CryptoError
          | Some secret \<Rightarrow>
              (case verify_totp_code E secret code (whole_seconds now) of
                 Inl e \<Rightarrow> Inl e
               | Inr False \<Rightarrow> Inl (ValueError ''Invalid verification code'' [])
               | Inr True \<Rightarrow>
                   let s1 = log_event E now ((audit ''mfa_device_added'')
                              \<lparr>a_actor := Some uid, a_target := Some uid, a_rtype := Some ''mfa_device'', a_rid := Some (show_int (d_id d)),
                               a_after := JObj [(''device_type'', JStr (d_device_type d)), (''verified'', JBool True)],
                               a_meta := JObj [(''device_type'', JStr (d_device_type d))]\<rparr>)
                              (set_device (d_id d) (\<lambda>d. d\<lparr>d_verified_at := Some now\<rparr>) s)
                   in case find_user s1 uid of
                        None \<Rightarrow> Inl AttributeError
                      | Some u \<Rightarrow>
                          let s2 = set_user uid (enable_user_mfa now) s1;
                              s3 = (if u_mfa_enabled u then s2
                                    else log_event E now ((audit ''mfa_enabled'')
                                      \<lparr>a_actor := Some uid, a_target := Some uid, a_rtype := Some ''user'', a_rid := Some (show_int uid),
                                       a_after := JObj [(''mfa_enabled'', JBool True), (''mfa_primary_method'', JStr ''totp'')]\<rparr>) s2)
                          in Inr (s3, d\<lparr>d_verified_at := Some now\<rparr>)))"

definition list_devices :: "db \<Rightarrow> int \<Rightarrow> mfa_device list" where
  "list_devices s uid = sort_key (\<lambda>d. - d_created_at d) (filter (\<lambda>d. d_user_id d = uid \<and> d_disabled_at d = None) (mfa_devices s))"

definition remove_device :: "env \<Rightarrow> time \<Rightarrow> int \<Rightarrow> int \<Rightarrow> db \<Rightarrow> exn + db" where
  "remove_device E now uid device_id s =
     (case query_first (\<lambda>d. d_id d = device_id \<and> d_user_id d = uid \<and> d_disabled_at d = None) (mfa_devices s) of
        None \<Rightarrow> Inl (LookupError ''MFA device not found'')
      | Some d \<Rightarrow>
          let s1 = log_event E now ((audit ''mfa_device_removed'')
                     \<lparr>a_actor := Some uid, a_target := Some uid, a_rtype := Some ''mfa_device'', a_rid := Some (show_int (d_id d)),
                      a_before := JObj [(''device_type'', JStr (d_device_type d)), (''verified'', JBool (d_verified_at d \<noteq> None))],
                      a_meta := JObj [(''device_type'', JStr (d_device_type d))]\<rparr>)
                     (set_device (d_id d) (\<lambda>d. d\<lparr>d_disabled_at := Some now\<rparr>) s)
          in if query_count (\<lambda>d. d_user_id d = uid \<and> device_live d) (mfa_devices s1) = 0
             then case find_user s1 uid of
                    None \<Rightarrow> Inl AttributeError
                  | Some u \<Rightarrow>
                      if u_mfa_enabled u
                      then Inr (log_event E now ((audit ''mfa_disabled'')
                             \<lparr>a_actor := Some uid, a_target := Some uid, a_rtype := Some ''user'', a_rid := Some (show_int uid),
                              a_after := JObj [(''mfa_enabled'', JBool False)]\<rparr>)
                             (set_user uid (\<lambda>u. u\<lparr>u_mfa_enabled := False, u_mfa_status := ''disabled''\<rparr>) s1))
                      else Inr s1
             else Inr s1)"

subsection \<open>Used time steps\<close>

definition try_claim_totp_step :: "time \<Rightarrow> int \<Rightarrow> int \<Rightarrow> db \<Rightarrow> db \<times> bool" where
  "try_claim_totp_step now device_id time_step s =
     (if query_exists (\<lambda>t. ts_device_id t = device_id \<and> ts_time_step t = time_step) (mfa_used_totp_steps s) then (s, False)
      else (s\<lparr>mfa_used_totp_steps := mfa_used_totp_steps s @
               [\<lparr>ts_id = next_id ts_id (mfa_used_totp_steps s), ts_device_id = device_id, ts_time_step = time_step, ts_consumed_at = now\<rparr>]\<rparr>, True))"

text \<open>The loop over a user's devices: the first one whose secret yields the code at an unused step.\<close>

fun claim_device :: "env \<Rightarrow> time \<Rightarrow> string \<Rightarrow> mfa_device list \<Rightarrow> db \<Rightarrow> db \<times> (mfa_device \<times> int) option" where
  "claim_device E now code [] s = (s, None)"
| "claim_device E now code (d # ds) s =
     (case crypto_decrypt E (d_encrypted_secret d) of
        None \<Rightarrow> claim_device E now code ds s
      | Some secret \<Rightarrow>
          (case totp_matched_step E secret code (whole_seconds now) of
             Inr (Some step) \<Rightarrow>
               (case try_claim_totp_step now (d_id d) step s of
                  (s', True) \<Rightarrow> (s', Some (d, step))
                | (s', False) \<Rightarrow> claim_device E now code ds s')
           | _ \<Rightarrow> claim_device E now code ds s))"

definition step_up_devices :: "db \<Rightarrow> int \<Rightarrow> mfa_device list" where
  "step_up_devices s uid = filter (\<lambda>d. d_user_id d = uid \<and> d_device_type d = ''totp'' \<and> device_live d) (mfa_devices s)"

definition verify_user_totp_step_up :: "env \<Rightarrow> time \<Rightarrow> int \<Rightarrow> string \<Rightarrow> db \<Rightarrow> db \<times> bool" where
  "verify_user_totp_step_up E now uid code s =
     (if \<not> code_shape code then (s, False)
      else let (s', r) = claim_device E now code (step_up_devices s uid) s in (s', r \<noteq> None))"

subsection \<open>Codes are six digits\<close>

lemma is_digit_char_of [simp]: "n < 10 \<Longrightarrow> is_digit (char_of (48 + n :: nat))"
  by (simp add: is_digit_def Let_def)

lemma show_nat_digits: "list_all is_digit (show_nat n)"
proof (induction n rule: show_nat.induct)
  case (1 n)
  then show ?case by (cases "n < 10") (simp_all add: show_nat.simps [of n])
qed

lemma length_show_nat: "n < 10 ^ k \<Longrightarrow> 0 < k \<Longrightarrow> length (show_nat n) \<le> k"
proof (induction n arbitrary: k rule: show_nat.induct)
  case (1 n)
  show ?case
  proof (cases "n < 10")
    case False
    then obtain j where k: "k = Suc j" "0 < j" using 1(2,3) by (cases k; cases "k - 1") auto
    have "n div 10 < 10 ^ j" using 1(2) k by (simp add: less_mult_imp_div_less mult.commute)
    from 1(1) [OF False this k(2)] show ?thesis using False k by (simp add: show_nat.simps [of n])
  qed (use 1(3) in \<open>simp add: show_nat.simps [of n]\<close>)
qed

lemma zfill_digits: "n < 10 ^ k \<Longrightarrow> 0 < k \<Longrightarrow> length (zfill k (show_nat n)) = k \<and> list_all is_digit (zfill k (show_nat n))"
  using length_show_nat [of n k] show_nat_digits [of n] by (auto simp: zfill_def list_all_length nth_append list_all_append is_digit_def Let_def)

lemma and_15: "(n :: nat) AND 15 = n mod 16"
  using take_bit_eq_mask [of 4 n] by (simp add: take_bit_eq_mod mask_eq_exp_minus_1)

lemma code_shape_digits: "length c = 6 \<Longrightarrow> list_all is_digit c \<Longrightarrow> code_shape c"
  by (auto simp: code_shape_def py_isdigit_def list_all_iff)

lemma digits_ascii: "list_all is_digit c \<Longrightarrow> list_all (\<lambda>c. of_char c < (128 :: nat)) c"
  by (auto simp: list_all_iff is_digit_def Let_def)

lemma totp_code_digits: "totp_code_at E secret t = Inr c \<Longrightarrow> length c = 6 \<and> list_all is_digit c"
  using zfill_digits [of _ 6] by (auto simp: totp_code_at_def Let_def split: option.splits)

text \<open>
  Property. Codes are well formed. For every digest of twenty bytes the four bytes that are
  truncated lie inside the digest, and the code is six decimal digits, leading zeros included.
\<close>

theorem totp_code_well_formed:
  assumes "totp_digest E secret (t div 30) = Some digest" "length digest = 20"
  shows "\<exists>c. totp_code_at E secret t = Inr c \<and> length c = 6 \<and> list_all is_digit c
     \<and> length (take 4 (drop (last digest AND 15) digest)) = 4"
proof -
  have "last digest AND 15 \<le> 15" by (simp add: and_15)
  then have "length (take 4 (drop (last digest AND 15) digest)) = 4" using assms(2) by simp
  moreover obtain c where "totp_code_at E secret t = Inr c" using assms(1) by (simp add: totp_code_at_def Let_def)
  ultimately show ?thesis using totp_code_digits [of E secret t] by auto
qed

theorem totp_code_well_formed_witness:
  "\<exists>c. totp_code_at (sample_env Map.empty) ''s'' 90 = Inr c \<and> length c = 6"
proof -
  have "totp_digest (sample_env Map.empty) ''s'' (90 div 30) = Some (replicate 19 0 @ [3])" by (simp add: sample_env_def)
  from totp_code_well_formed [OF this] show ?thesis by auto
qed

subsection \<open>The window\<close>

lemma compare_digits: "list_all is_digit c \<Longrightarrow> list_all is_digit c' \<Longrightarrow> compare_digest c c' = Inr (c = c')"
  by (simp add: compare_digest_def digits_ascii)

lemma totp_search_sound:
  "totp_search E secret code t steps = Inr (Some k) \<Longrightarrow>
     \<exists>x \<in> set steps. k = (t + x * 30) div 30 \<and> totp_code_at E secret (t + x * 30) = Inr code"
  by (induction steps) (auto simp: compare_digest_def split: sum.splits bool.splits if_splits)

lemma matched_step_sound:
  assumes "totp_matched_step E secret code t = Inr (Some k)"
  shows "totp_code_at E secret (k * 30) = Inr code \<and> \<bar>k - t div 30\<bar> \<le> 1"
proof -
  obtain x where x: "x \<in> {- 1, 0, 1}" "k = (t + x * 30) div 30" "totp_code_at E secret (t + x * 30) = Inr code"
    using assms totp_search_sound [of E secret code t "[- 1, 0, 1]" k] by (auto simp: totp_matched_step_def split: if_splits)
  have k: "k = t div 30 + x" using x(2) by simp
  have "totp_code_at E secret (k * 30) = totp_code_at E secret (t + x * 30)" using x(2) by (simp add: totp_code_at_def)
  moreover have "\<bar>k - t div 30\<bar> \<le> 1" using x(1) k by auto
  ultimately show ?thesis using x(3) by simp
qed

lemma totp_search_complete:
  assumes ok: "\<And>i. \<exists>c. totp_code_at E secret i = Inr c" and "x \<in> set steps" "totp_code_at E secret (t + x * 30) = Inr code"
  shows "\<exists>k. totp_search E secret code t steps = Inr (Some k)"
  using assms(2,3)
proof (induction steps)
  case (Cons y ys)
  obtain c where c: "totp_code_at E secret (t + y * 30) = Inr c" using ok by blast
  have cmp: "compare_digest c code = Inr (c = code)"
    using totp_code_digits [OF c] totp_code_digits [OF Cons.prems(2)] by (simp add: compare_digits)
  show ?case
  proof (cases "c = code")
    case False
    then have "x \<in> set ys" using Cons.prems c by auto
    then show ?thesis using Cons c cmp False by simp
  qed (use c cmp in simp)
qed simp

text \<open>
  Property. Round trip of the authenticator. As long as the secret is usable, the code an
  authenticator shows at some moment is accepted by a server whose clock is at most one step
  of thirty seconds away, and \<open>_totp_matched_step\<close> reports a step in the same window whose code
  is the one presented.
\<close>

theorem totp_round_trip:
  assumes ok: "\<forall>i. totp_digest E secret i \<noteq> None" and c: "totp_code_at E secret shown = Inr code"
    and drift: "\<bar>shown div 30 - t div 30\<bar> \<le> 1"
  shows "verify_totp_code E secret code t = Inr True
     \<and> (\<exists>k. totp_matched_step E secret code t = Inr (Some k) \<and> \<bar>k - t div 30\<bar> \<le> 1 \<and> totp_code_at E secret (k * 30) = Inr code)"
proof -
  have all: "\<exists>c. totp_code_at E secret i = Inr c" for i
    using ok by (auto simp: totp_code_at_def Let_def split: option.splits)
  let ?x = "shown div 30 - t div 30"
  have x: "?x \<in> set [- 1, 0, 1]" using drift by auto
  have "(t + ?x * 30) div 30 = shown div 30" by simp
  then have "totp_code_at E secret (t + ?x * 30) = Inr code" using c by (simp add: totp_code_at_def)
  from totp_search_complete [OF all x this] obtain k where k: "totp_search E secret code t [- 1, 0, 1] = Inr (Some k)" by blast
  have shape: "code_shape code" using totp_code_digits [OF c] code_shape_digits by blast
  have m: "totp_matched_step E secret code t = Inr (Some k)" using k shape by (simp only: totp_matched_step_def) simp
  have v: "verify_totp_code E secret code t = Inr True" using k shape by (simp only: verify_totp_code_def) simp
  show ?thesis using m v matched_step_sound [OF m] by blast
qed

theorem totp_round_trip_witness:
  "\<exists>code. totp_code_at (sample_env Map.empty) ''s'' 95 = Inr code \<and> verify_totp_code (sample_env Map.empty) ''s'' code 125 = Inr True"
proof -
  obtain code where c: "totp_code_at (sample_env Map.empty) ''s'' 95 = Inr code" by (simp add: totp_code_at_def sample_env_def Let_def)
  from totp_round_trip [OF _ this, of 125] c show ?thesis by (simp add: sample_env_def)
qed

subsection \<open>Single use\<close>

definition used_steps :: "db \<Rightarrow> (int \<times> int) set" where
  "used_steps s = (\<lambda>t. (ts_device_id t, ts_time_step t)) ` set (mfa_used_totp_steps s)"

lemma try_claim_spec:
  "try_claim_totp_step now i k s = (s', b) \<Longrightarrow> b = ((i, k) \<notin> used_steps s) \<and> used_steps s' = insert (i, k) (used_steps s)
     \<and> s' = s\<lparr>mfa_used_totp_steps := mfa_used_totp_steps s'\<rparr> \<and> (\<not> b \<longrightarrow> s' = s)"
  by (auto simp: try_claim_totp_step_def used_steps_def query_exists_def image_iff split: if_splits)

lemma claim_device_None: "claim_device E now code ds s = (s', None) \<Longrightarrow> s' = s"
  by (induction ds arbitrary: s)
     (auto split: option.splits sum.splits prod.splits bool.splits dest!: try_claim_spec)

lemma claim_device_Some:
  "claim_device E now code ds s = (s', Some (d, k)) \<Longrightarrow>
     d \<in> set ds \<and> (\<exists>secret. crypto_decrypt E (d_encrypted_secret d) = Some secret
        \<and> totp_matched_step E secret code (whole_seconds now) = Inr (Some k))
     \<and> try_claim_totp_step now (d_id d) k s = (s', True)"
proof (induction ds arbitrary: s)
  case (Cons x ds)
  show ?case
  proof (cases "\<exists>secret j. crypto_decrypt E (d_encrypted_secret x) = Some secret \<and> totp_matched_step E secret code (whole_seconds now) = Inr (Some j)")
    case True
    then obtain secret j where sj: "crypto_decrypt E (d_encrypted_secret x) = Some secret" "totp_matched_step E secret code (whole_seconds now) = Inr (Some j)" by blast
    obtain s1 b where b: "try_claim_totp_step now (d_id x) j s = (s1, b)" by force
    show ?thesis
    proof (cases b)
      case True
      then show ?thesis using Cons.prems sj b by auto
    next
      case False
      then have "s1 = s" using try_claim_spec [OF b] by simp
      then show ?thesis using Cons.IH [of s] Cons.prems sj b False by auto
    qed
  next
    case False
    then have "claim_device E now code (x # ds) s = claim_device E now code ds s"
      by (auto split: option.splits sum.splits)
    then show ?thesis using Cons by auto
  qed
qed simp

lemma step_up_accepts:
  assumes "verify_user_totp_step_up E now uid code s = (s', True)"
  obtains d k secret where "d \<in> set (step_up_devices s uid)" "crypto_decrypt E (d_encrypted_secret d) = Some secret"
    "totp_matched_step E secret code (whole_seconds now) = Inr (Some k)" "(d_id d, k) \<notin> used_steps s" "used_steps s' = insert (d_id d, k) (used_steps s)"
proof -
  from assms obtain d k where c: "claim_device E now code (step_up_devices s uid) s = (s', Some (d, k))"
    by (auto simp: verify_user_totp_step_up_def split: if_splits prod.splits)
  show ?thesis using claim_device_Some [OF c] try_claim_spec [of now "d_id d" k s s' True] that by blast
qed

text \<open>
  C14. A code cannot be replayed. When a step-up with a one-time password succeeds, the
  password was the one of a live device of the user for a time step at most one away from the
  present; and if the same password is presented again for the same step while the user has
  that one device, it is refused, in every later state (used steps are never deleted).
\<close>

theorem totp_replay_refused:
  assumes acc: "verify_user_totp_step_up E now uid code s = (s', True)" and later: "used_steps s' \<subseteq> used_steps s2"
    and one: "step_up_devices s uid = [d]" "step_up_devices s2 uid = [d]" "crypto_decrypt E (d_encrypted_secret d) = Some secret"
    and step: "totp_matched_step E secret code (whole_seconds now2) = totp_matched_step E secret code (whole_seconds now)"
  shows "(\<exists>k. totp_code_at E secret (k * 30) = Inr code \<and> \<bar>k - whole_seconds now div 30\<bar> \<le> 1 \<and> (d_id d, k) \<notin> used_steps s)
     \<and> snd (verify_user_totp_step_up E now2 uid code s2) = False"
proof -
  from acc obtain d' k secret' where a: "d' \<in> set (step_up_devices s uid)" "crypto_decrypt E (d_encrypted_secret d') = Some secret'"
    "totp_matched_step E secret' code (whole_seconds now) = Inr (Some k)" "(d_id d', k) \<notin> used_steps s" "used_steps s' = insert (d_id d', k) (used_steps s)"
    by (rule step_up_accepts)
  have d': "d' = d" "secret' = secret" using a(1,2) one by auto
  have "\<not> snd (verify_user_totp_step_up E now2 uid code s2)"
  proof
    assume "snd (verify_user_totp_step_up E now2 uid code s2)"
    then have "verify_user_totp_step_up E now2 uid code s2 = (fst (verify_user_totp_step_up E now2 uid code s2), True)" by (metis prod.collapse)
    then show False by (rule step_up_accepts) (use one step a(3,5) d' later in auto)
  qed
  then show ?thesis using matched_step_sound [OF a(3)] a(4) d' by auto
qed

definition totp_db :: db where
  "totp_db = empty_db\<lparr>mfa_devices := [\<lparr>d_id = 1, d_user_id = 7, d_device_type = ''totp'', d_label = None, d_encrypted_secret = ''s'',
     d_created_at = 0, d_verified_at = Some 0, d_last_used_at = None, d_disabled_at = None\<rparr>]\<rparr>"

lemma sample_code: "totp_code_at (sample_env Map.empty) ''s'' (- 30) = Inr ''000000''"
proof -
  have r: "replicate 4 (0 :: nat) = [0, 0, 0, 0]" "replicate 5 c = [c, c, c, c, c]" for c :: char by (simp_all add: eval_nat_numeral)
  have "char_of (48 :: nat) = CHR ''0''" by code_simp
  then show ?thesis by (simp add: totp_code_at_def sample_env_def zfill_def and_15 show_nat.simps [of 0] r Let_def)
qed

lemma sample_step: "t \<in> {0..29} \<Longrightarrow> totp_matched_step (sample_env Map.empty) ''s'' ''000000'' t = Inr (Some (- 1))"
proof -
  assume t: "t \<in> {0..29}"
  have "(t - 30) div 30 = - 1" using t by (simp add: div_pos_neg_trivial) presburger
  then have "totp_code_at (sample_env Map.empty) ''s'' (t - 30) = Inr ''000000''" using sample_code by (simp add: totp_code_at_def)
  then show ?thesis using \<open>(t - 30) div 30 = - 1\<close>
    by (simp add: totp_matched_step_def code_shape_def py_isdigit_def is_digit_def compare_digest_def Let_def)
qed

theorem totp_replay_refused_witness:
  "verify_user_totp_step_up (sample_env Map.empty) 0 7 ''000000'' totp_db = (fst (verify_user_totp_step_up (sample_env Map.empty) 0 7 ''000000'' totp_db), True)
   \<and> snd (verify_user_totp_step_up (sample_env Map.empty) 5 7 ''000000'' (fst (verify_user_totp_step_up (sample_env Map.empty) 0 7 ''000000'' totp_db))) = False"
proof -
  let ?E = "sample_env Map.empty"
  have st: "step_up_devices totp_db 7 = mfa_devices totp_db" by (simp add: step_up_devices_def totp_db_def device_live_def)
  have dec: "crypto_decrypt ?E (d_encrypted_secret (hd (mfa_devices totp_db))) = Some ''s''" by (simp add: totp_db_def sample_env_def)
  have one: "mfa_devices totp_db = [hd (mfa_devices totp_db)]" by (simp add: totp_db_def)
  have shape: "code_shape ''000000''" by (simp add: code_shape_def py_isdigit_def is_digit_def Let_def)
  have none: "mfa_used_totp_steps totp_db = []" by (simp add: totp_db_def empty_db_def)
  have step: "totp_matched_step ?E ''s'' ''000000'' (whole_seconds n) = Inr (Some (- 1))" if "n \<in> {0, 5}" for n
    using that by (intro sample_step) (auto simp: whole_seconds_def)
  let ?r = "claim_device ?E 0 ''000000'' [hd (mfa_devices totp_db)] totp_db"
  have c: "\<exists>x. snd ?r = Some x" "mfa_devices (fst ?r) = mfa_devices totp_db"
    using step [of 0] none by (simp_all add: dec try_claim_totp_step_def query_exists_def)
  have acc: "verify_user_totp_step_up ?E 0 7 ''000000'' totp_db = (fst ?r, True)"
    using c(1) by (auto simp: verify_user_totp_step_up_def shape st one [symmetric] split: prod.split)
  have st2: "step_up_devices (fst ?r) 7 = [hd (mfa_devices totp_db)]" using c(2) st one by (simp add: step_up_devices_def)
  show ?thesis
    using totp_replay_refused [OF acc order_refl _ st2 dec, of 5] acc st one step by simp
qed

end
