(* ===== verification/Mfa_Service.thy ===== *)
theory Mfa_Service
  imports Totp
begin

text \<open>
  The second half of \<open>app/services/mfa_service.py\<close> and \<open>app/services/mfa_enrollment_service.py\<close>:
  recovery codes, the challenge that turns a first factor into a session, an administrator's
  reset, the MFA policies of organizations, and enrolment sessions. The letters of recovery
  codes, the identifiers of tokens and the family of a new session are drawn at random and are
  arguments.
\<close>

subsection \<open>Recovery codes\<close>

definition RECOVERY_CODE_ALPHABET :: string where
  "RECOVERY_CODE_ALPHABET = ''ABCDEFGHJKLMNPQRSTUVWXYZ''"

text \<open>Three groups of four letters, given by the twelve indices \<open>secrets.choice\<close> draws.\<close>

definition generate_one_recovery_code :: "nat list \<Rightarrow> string" where
  "generate_one_recovery_code draw =
     (let l = map (\<lambda>i. RECOVERY_CODE_ALPHABET ! i) draw
      in take 4 l @ ''-'' @ take 4 (drop 4 l) @ ''-'' @ take 4 (drop 8 l))"

definition hash_recovery_code :: "env \<Rightarrow> string \<Rightarrow> string" where
  "hash_recovery_code E code = sha256_hex E (str_upper (str_strip code))"

definition invalidate_recovery_codes :: "time \<Rightarrow> int \<Rightarrow> db \<Rightarrow> db \<times> nat" where
  "invalidate_recovery_codes now uid s =
     (s\<lparr>mfa_recovery_codes := update_where (\<lambda>r. rc_user_id r = uid \<and> rc_used_at r = None) (\<lambda>r. r\<lparr>rc_used_at := Some now\<rparr>) (mfa_recovery_codes s)\<rparr>,
      length (filter (\<lambda>r. rc_user_id r = uid \<and> rc_used_at r = None) (mfa_recovery_codes s)))"

definition add_recovery_code :: "env \<Rightarrow> time \<Rightarrow> int \<Rightarrow> string \<Rightarrow> db \<Rightarrow> db" where
  "add_recovery_code E now uid code s =
     s\<lparr>mfa_recovery_codes := mfa_recovery_codes s @
        [\<lparr>rc_id = next_id rc_id (mfa_recovery_codes s), rc_user_id = uid, rc_code_hash = hash_recovery_code E code, rc_created_at = now, rc_used_at = None\<rparr>]\<rparr>"

text \<open>\<open>draws\<close>: one draw per code; the code draws ten.\<close>

definition issue_recovery_codes :: "env \<Rightarrow> time \<Rightarrow> nat list list \<Rightarrow> int \<Rightarrow> string \<Rightarrow> db \<Rightarrow> db \<times> string list" where
  "issue_recovery_codes E now draws uid event_type s =
     (let (s1, invalidated) = invalidate_recovery_codes now uid s;
          codes = map generate_one_recovery_code draws;
          s2 = fold (add_recovery_code E now uid) codes s1
      in (log_event E now ((audit event_type)
            \<lparr>a_actor := Some uid, a_target := Some uid, a_rtype := Some ''user'', a_rid := Some (show_int uid),
             a_meta := JObj [(''codes_issued'', JInt (int (length codes))), (''codes_invalidated'', JInt (int invalidated))]\<rparr>) s2,
          codes))"

definition generate_recovery_codes :: "env \<Rightarrow> time \<Rightarrow> nat list list \<Rightarrow> int \<Rightarrow> db \<Rightarrow> db \<times> string list" where
  "generate_recovery_codes E now draws uid s = issue_recovery_codes E now draws uid ''mfa_recovery_codes_generated'' s"

definition regenerate_recovery_codes :: "env \<Rightarrow> time \<Rightarrow> nat list list \<Rightarrow> int \<Rightarrow> db \<Rightarrow> db \<times> string list" where
  "regenerate_recovery_codes E now draws uid s = issue_recovery_codes E now draws uid ''mfa_recovery_codes_regenerated'' s"

definition recovery_codes_remaining :: "db \<Rightarrow> int \<Rightarrow> int" where
  "recovery_codes_remaining s uid = query_count (\<lambda>r. rc_user_id r = uid \<and> rc_used_at r = None) (mfa_recovery_codes s)"

definition verify_recovery_code :: "env \<Rightarrow> db \<Rightarrow> int \<Rightarrow> string \<Rightarrow> mfa_recovery_code option" where
  "verify_recovery_code E s uid code =
     (if code = [] then None
      else query_first (\<lambda>r. rc_user_id r = uid \<and> rc_code_hash r = hash_recovery_code E code \<and> rc_used_at r = None) (mfa_recovery_codes s))"

definition try_consume_recovery_code :: "time \<Rightarrow> int \<Rightarrow> db \<Rightarrow> db \<times> bool" where
  "try_consume_recovery_code now code_id s =
     (s\<lparr>mfa_recovery_codes := update_where (\<lambda>r. rc_id r = code_id \<and> rc_used_at r = None) (\<lambda>r. r\<lparr>rc_used_at := Some now\<rparr>) (mfa_recovery_codes s)\<rparr>,
      length (filter (\<lambda>r. rc_id r = code_id \<and> rc_used_at r = None) (mfa_recovery_codes s)) = 1)"

subsection \<open>The challenge\<close>

definition consume_challenge_jti :: "time \<Rightarrow> string option \<Rightarrow> db \<Rightarrow> exn + db" where
  "consume_challenge_jti now jti s =
     (if \<not> truthy jti then Inr s
      else if query_exists (\<lambda>t. rv_token_jti t = the jti) (revoked_tokens s) then Inl MFAChallengeError
      else Inr (s\<lparr>revoked_tokens := revoked_tokens s @
             [\<lparr>rv_id = next_id rv_id (revoked_tokens s), rv_token_jti = the jti, rv_revoked_at = now\<rparr>]\<rparr>))"

text \<open>
  What every accepted factor does: touch the rows (\<open>upd\<close>), consume the challenge, forgive the
  throttle, and write the event. If the challenge was consumed meanwhile, the rows are rolled
  back and the error is raised.
\<close>

definition complete_challenge ::
  "'r redis \<Rightarrow> env \<Rightarrow> time \<Rightarrow> int \<Rightarrow> string option \<Rightarrow> string option \<Rightarrow> (db \<Rightarrow> db) \<Rightarrow> audit_args \<Rightarrow> 'r sys \<Rightarrow> 'r sys \<times> exn option" where
  "complete_challenge R E now uid client_ip jti upd event s =
     (case consume_challenge_jti now jti (upd (s_db s)) of
        Inl e \<Rightarrow> (s, Some e)
      | Inr d \<Rightarrow>
          let s1 = mfa_record_success R E now uid client_ip (s\<lparr>s_db := d\<rparr>)
          in (s1\<lparr>s_db := log_event E now event (s_db s1)\<rparr>, None))"

definition challenge_saml :: "claims \<Rightarrow> saml_context" where
  "challenge_saml payload = \<lparr>sc_name_id = json_str (get_claim payload ''saml_name_id''), sc_session_index = json_str (get_claim payload ''saml_session_index''),
     sc_config_id = json_int (get_claim payload ''organization_saml_config_id'')\<rparr>"

definition challenge_method :: "claims \<Rightarrow> string" where
  "challenge_method payload =
     (if jtruthy (get_claim payload ''auth_method'') then the (json_str (get_claim payload ''auth_method'')) else ''password'')"

text \<open>The tokens a completed challenge hands out.\<close>

definition challenge_tokens ::
  "env \<Rightarrow> time \<Rightarrow> string \<Rightarrow> string \<Rightarrow> string \<Rightarrow> user \<Rightarrow> claims \<Rightarrow> 'r sys \<times> exn option \<Rightarrow> 'r sys \<times> (exn + login_result)" where
  "challenge_tokens E now ja jr fid u payload r =
     (case r of
        (s, Some e) \<Rightarrow> (s, Inl e)
      | (s, None) \<Rightarrow>
          let (d, access, refresh) = generate_tokens E now ja jr fid u (challenge_method payload) (get_claim payload ''idp_org_id'') None None
                                       (challenge_saml payload) (s_db s)
          in (s\<lparr>s_db := d\<rparr>, Inr (Tokens access refresh)))"

definition challenge_devices :: "db \<Rightarrow> int \<Rightarrow> mfa_device list" where
  "challenge_devices s uid = filter (\<lambda>d. d_user_id d = uid \<and> device_live d) (mfa_devices s)"

definition touch_verified :: "time \<Rightarrow> int \<Rightarrow> db \<Rightarrow> db" where
  "touch_verified now uid = set_user uid (\<lambda>u. u\<lparr>u_mfa_last_verified_at := Some now\<rparr>)"

text \<open>The third factor tried: a code sent by e-mail, which for a user with an authenticator only leads to the next stage.\<close>

definition verify_email_stage ::
  "'r redis \<Rightarrow> env \<Rightarrow> time \<Rightarrow> string \<Rightarrow> string \<Rightarrow> string \<Rightarrow> user \<Rightarrow> claims \<Rightarrow> string \<Rightarrow> string option \<Rightarrow> bool \<Rightarrow> 'r sys \<Rightarrow> 'r sys \<times> (exn + login_result)" where
  "verify_email_stage R E now ja jr fid u payload code client_ip try_email s =
     (let jti = json_str (get_claim payload ''jti'');
          org = map_option m_organization_id (resolve_primary_membership (s_db s) (u_id u));
          am = challenge_method payload;
          (d, email_matched) = (if try_email \<and> is_enabled_for E u
                                then (case verify_code E now (u_id u) jti code (s_db s) of (d, Inr b) \<Rightarrow> (d, b) | (d, Inl e) \<Rightarrow> (d, False))
                                else (s_db s, False));
          s1 = s\<lparr>s_db := d\<rparr>
      in if email_matched
         then let event = (audit ''mfa_verified'')\<lparr>a_actor := Some (u_id u), a_target := Some (u_id u), a_org := org, a_rtype := Some ''mfa_email_otp'',
                            a_meta := JObj [(''authentication_method'', JStr am), (''factor'', JStr ''email'')]\<rparr>;
                  r = complete_challenge R E now (u_id u) client_ip jti (touch_verified now (u_id u)) event s1
              in if u_mfa_enabled u
                 then (case r of
                         (s2, Some e) \<Rightarrow> (s2, Inl e)
                       | (s2, None) \<Rightarrow>
                           (s2, Inr (Challenge (create_mfa_challenge_token E now ja (u_id u) am (json_int (get_claim payload ''idp_org_id''))
                                                  (challenge_saml payload) (Some ''totp'')) [''totp'', ''recovery_code''])))
                 else challenge_tokens E now ja jr fid u payload r
         else let s2 = mfa_record_failure R E now (u_id u) client_ip org s1
              in (s2\<lparr>s_db := log_event E now ((audit ''mfa_verification_failed'')
                       \<lparr>a_actor := Some (u_id u), a_target := Some (u_id u), a_org := org, a_rtype := Some ''user'', a_rid := Some (show_int (u_id u)),
                        a_meta := JObj [(''authentication_method'', JStr am)]\<rparr>) (s_db s2)\<rparr>,
                  Inl (ValueError ''Invalid verification code'' [])))"

text \<open>The factors in the order they are tried.\<close>

definition verify_factors ::
  "'r redis \<Rightarrow> env \<Rightarrow> time \<Rightarrow> string \<Rightarrow> string \<Rightarrow> string \<Rightarrow> user \<Rightarrow> claims \<Rightarrow> string \<Rightarrow> string option \<Rightarrow> string option \<Rightarrow> 'r sys \<Rightarrow> 'r sys \<times> (exn + login_result)" where
  "verify_factors R E now ja jr fid u payload code client_ip method s =
     (let stage = get_claim payload ''required_stage''; jti = json_str (get_claim payload ''jti'');
          org = map_option m_organization_id (resolve_primary_membership (s_db s) (u_id u));
          meta = JObj [(''authentication_method'', JStr (challenge_method payload))];
          (d, matched) = (if stage \<noteq> JStr ''email'' \<and> method \<in> {None, Some ''totp''}
                          then claim_device E now code (challenge_devices (s_db s) (u_id u)) (s_db s) else (s_db s, None));
          s1 = s\<lparr>s_db := d\<rparr>
      in case matched of
           Some (dev, _) \<Rightarrow>
             challenge_tokens E now ja jr fid u payload
               (complete_challenge R E now (u_id u) client_ip jti
                  (\<lambda>d. touch_verified now (u_id u) (set_device (d_id dev) (\<lambda>x. x\<lparr>d_last_used_at := Some now\<rparr>) d))
                  ((audit ''mfa_verified'')\<lparr>a_actor := Some (u_id u), a_target := Some (u_id u), a_org := org, a_rtype := Some ''mfa_device'',
                     a_rid := Some (show_int (d_id dev)), a_meta := meta\<rparr>) s1)
         | None \<Rightarrow>
             let recovery = (if stage \<noteq> JStr ''email'' \<and> method \<in> {None, Some ''recovery_code''}
                             then verify_recovery_code E (s_db s1) (u_id u) code else None);
                 (d2, consumed) = (case recovery of None \<Rightarrow> (s_db s1, False) | Some r \<Rightarrow> try_consume_recovery_code now (rc_id r) (s_db s1));
                 s2 = s1\<lparr>s_db := d2\<rparr>
             in if consumed
                then challenge_tokens E now ja jr fid u payload
                  (complete_challenge R E now (u_id u) client_ip jti (touch_verified now (u_id u))
                    ((audit ''mfa_recovery_code_used'')\<lparr>a_actor := Some (u_id u), a_target := Some (u_id u), a_org := org, a_rtype := Some ''user'',
                       a_rid := Some (show_int (u_id u)), a_meta := meta\<rparr>) s2)
                else verify_email_stage R E now ja jr fid u payload code client_ip
                       (stage \<noteq> JStr ''totp'' \<and> method \<in> {None, Some ''email''}) s2)"

definition verify_mfa_challenge ::
  "'r redis \<Rightarrow> env \<Rightarrow> time \<Rightarrow> string \<Rightarrow> string \<Rightarrow> string \<Rightarrow> string \<Rightarrow> string \<Rightarrow> string option \<Rightarrow> string option \<Rightarrow> 'r sys \<Rightarrow> 'r sys \<times> (exn + login_result)" where
  "verify_mfa_challenge R E now ja jr fid challenge_token code client_ip method s =
     (case decode_token E now challenge_token of
        Inl e \<Rightarrow> (s, Inl MFAChallengeError)
      | Inr payload \<Rightarrow>
          let jti = json_str (get_claim payload ''jti''); uid = json_int (get_claim payload ''user_id''); stage = get_claim payload ''required_stage''
          in if get_claim payload ''type'' \<noteq> JStr ''mfa_challenge'' then (s, Inl MFAChallengeError)
             else if stage \<notin> {JNull, JStr ''email'', JStr ''totp''} then (s, Inl MFAChallengeError)
             else let (s1, throttle) = (case uid of None \<Rightarrow> (s, not_throttled) | Some i \<Rightarrow> mfa_check_throttled R E now i client_ip s)
                  in if th_locked throttle then (s1, Inl (MFAThrottledError (th_retry_after_seconds throttle)))
                     else if truthy jti \<and> query_exists (\<lambda>t. rv_token_jti t = the jti) (revoked_tokens (s_db s1)) then (s1, Inl MFAChallengeError)
                     else case (case uid of None \<Rightarrow> None | Some i \<Rightarrow> find_user (s_db s1) i) of
                            None \<Rightarrow> (s1, Inl MFAChallengeError)
                          | Some u \<Rightarrow>
                              if u_status u \<noteq> ''active'' then (s1, Inl MFAChallengeError)
                              else if \<not> u_mfa_enabled u \<and> \<not> is_enabled_for E u then (s1, Inl MFAChallengeError)
                              else if stage = JStr ''totp'' \<and> \<not> u_mfa_enabled u then (s1, Inl MFAChallengeError)
                              else verify_factors R E now ja jr fid u payload code client_ip method s1)"

subsection \<open>Reset by an administrator\<close>

definition reset_user_mfa :: "env \<Rightarrow> time \<Rightarrow> int \<Rightarrow> int \<Rightarrow> db \<Rightarrow> exn + db" where
  "reset_user_mfa E now target actor s =
     (case find_user s target of
        None \<Rightarrow> Inl (LookupError ''User not found'')
      | Some u \<Rightarrow>
          let devices = filter (\<lambda>d. d_user_id d = target \<and> d_disabled_at d = None) (mfa_devices s);
              s1 = s\<lparr>mfa_devices := update_where (\<lambda>d. d_user_id d = target \<and> d_disabled_at d = None) (\<lambda>d. d\<lparr>d_disabled_at := Some now\<rparr>) (mfa_devices s)\<rparr>;
              (s2, invalidated) = invalidate_recovery_codes now target s1;
              s3 = set_user target (\<lambda>u. u\<lparr>u_mfa_enabled := False, u_mfa_status := ''disabled'', u_mfa_primary_method := None,
                     u_mfa_enabled_at := None, u_mfa_last_verified_at := None\<rparr>) s2
          in Inr (log_event E now ((audit ''mfa_reset_by_admin'')
               \<lparr>a_actor := Some actor, a_target := Some target, a_rtype := Some ''user'', a_rid := Some (show_int target),
                a_after := JObj [(''mfa_enabled'', JBool False), (''mfa_status'', JStr ''disabled'')],
                a_meta := JObj [(''devices_disabled'', JInt (int (length devices))), (''recovery_codes_invalidated'', JInt (int invalidated))]\<rparr>) s3))"

subsection \<open>Policies of organizations\<close>

definition get_org_mfa_policy :: "db \<Rightarrow> int \<Rightarrow> org_mfa_policy option" where
  "get_org_mfa_policy s org = query_first (\<lambda>p. mp_organization_id p = org) (mfa_policies s)"

definition set_policy :: "int \<Rightarrow> (org_mfa_policy \<Rightarrow> org_mfa_policy) \<Rightarrow> db \<Rightarrow> db" where
  "set_policy i f s = s\<lparr>mfa_policies := update_where (\<lambda>p. mp_id p = i) f (mfa_policies s)\<rparr>"

definition policy_event :: "string \<Rightarrow> int \<Rightarrow> org_mfa_policy \<Rightarrow> json \<Rightarrow> json \<Rightarrow> json \<Rightarrow> audit_args" where
  "policy_event event_type actor p before after reason = (audit event_type)
     \<lparr>a_actor := Some actor, a_org := Some (mp_organization_id p), a_rtype := Some ''organization_mfa_policy'', a_rid := Some (show_int (mp_id p)),
      a_before := before, a_after := after, a_meta := JObj [(''reason'', reason)]\<rparr>"

definition create_org_mfa_policy :: "env \<Rightarrow> time \<Rightarrow> int \<Rightarrow> bool \<Rightarrow> int \<Rightarrow> db \<Rightarrow> exn + db \<times> org_mfa_policy" where
  "create_org_mfa_policy E now org required actor s =
     (if get_org_mfa_policy s org \<noteq> None then Inl (ValueError ''this organization already has an MFA policy'' [])
      else let p = \<lparr>mp_id = next_id mp_id (mfa_policies s), mp_organization_id = org, mp_required = required, mp_created_at = now, mp_updated_at = None,
                    mp_enabled_at = (if required then Some now else None), mp_enabled_by_user_id = (if required then Some actor else None),
                    mp_override_active = False, mp_override_reason = None, mp_override_at = None, mp_override_by_user_id = None\<rparr>;
               s1 = s\<lparr>mfa_policies := mfa_policies s @ [p]\<rparr>
           in Inr (if required
                   then log_event E now (policy_event ''mfa_policy_enabled'' actor p (JObj [(''required'', JBool False)]) (JObj [(''required'', JBool True)]) JNull) s1
                   else s1, p))"

definition set_org_mfa_required :: "env \<Rightarrow> time \<Rightarrow> org_mfa_policy \<Rightarrow> bool \<Rightarrow> int \<Rightarrow> string option \<Rightarrow> db \<Rightarrow> db" where
  "set_org_mfa_required E now p required actor reason s =
     (let s1 = set_policy (mp_id p) (\<lambda>x. if required \<and> \<not> mp_required p
                  then x\<lparr>mp_required := required, mp_updated_at := Some now, mp_enabled_at := Some now, mp_enabled_by_user_id := Some actor\<rparr>
                  else x\<lparr>mp_required := required, mp_updated_at := Some now\<rparr>) s
      in if mp_required p \<noteq> required
         then log_event E now (policy_event (if required then ''mfa_policy_enabled'' else ''mfa_policy_disabled'') actor p
                (JObj [(''required'', JBool (mp_required p))]) (JObj [(''required'', JBool required)]) (jstr_opt reason)) s1
         else s1)"

definition set_org_mfa_override :: "env \<Rightarrow> time \<Rightarrow> org_mfa_policy \<Rightarrow> string \<Rightarrow> int \<Rightarrow> db \<Rightarrow> db" where
  "set_org_mfa_override E now p reason actor s =
     log_event E now (policy_event ''mfa_policy_override_created'' actor p
         (JObj [(''override_active'', JBool (mp_override_active p)), (''required'', JBool (mp_required p))])
         (JObj [(''override_active'', JBool True), (''required'', JBool (mp_required p))]) (JStr reason))
       (set_policy (mp_id p) (\<lambda>x. x\<lparr>mp_override_active := True, mp_override_reason := Some reason, mp_override_at := Some now,
          mp_override_by_user_id := Some actor\<rparr>) s)"

definition clear_org_mfa_override :: "env \<Rightarrow> time \<Rightarrow> org_mfa_policy \<Rightarrow> int \<Rightarrow> db \<Rightarrow> db" where
  "clear_org_mfa_override E now p actor s =
     (let s1 = set_policy (mp_id p) (\<lambda>x. x\<lparr>mp_override_active := False, mp_override_reason := None, mp_override_at := None,
                 mp_override_by_user_id := None\<rparr>) s
      in if mp_override_active p
         then log_event E now (policy_event ''mfa_policy_override_removed'' actor p
                (JObj [(''override_active'', JBool True), (''override_reason'', jstr_opt (mp_override_reason p)), (''override_by_user_id'', jint_opt (mp_override_by_user_id p))])
                (JObj [(''override_active'', JBool False)]) (jstr_opt (mp_override_reason p))) s1
         else s1)"

subsection \<open>Enrolment sessions\<close>

definition create_enrollment_token :: "env \<Rightarrow> time \<Rightarrow> string \<Rightarrow> int \<Rightarrow> db \<Rightarrow> db \<times> string" where
  "create_enrollment_token E now jti uid s =
     (s\<lparr>mfa_enrollment_sessions := mfa_enrollment_sessions s @
         [\<lparr>es_id = next_id es_id (mfa_enrollment_sessions s), es_user_id = uid, es_token_jti = jti, es_device_id = None, es_created_at = now,
           es_expires_at = now + minutes 10, es_consumed_at = None\<rparr>]\<rparr>,
      create_mfa_enrollment_token E now uid jti (Some (now + minutes 10)))"

definition get_active_session :: "time \<Rightarrow> db \<Rightarrow> int \<Rightarrow> string \<Rightarrow> mfa_enrollment_session option" where
  "get_active_session now s uid jti =
     query_first (\<lambda>x. es_user_id x = uid \<and> es_token_jti x = jti \<and> now < es_expires_at x \<and> es_consumed_at x = None) (mfa_enrollment_sessions s)"

definition consume_session :: "time \<Rightarrow> int \<Rightarrow> db \<Rightarrow> db \<times> bool" where
  "consume_session now session_id s =
     (let sel = (\<lambda>x. es_id x = session_id \<and> now < es_expires_at x \<and> es_consumed_at x = None);
          changed = length (filter sel (mfa_enrollment_sessions s))
      in (s\<lparr>mfa_enrollment_sessions := update_where sel (\<lambda>x. x\<lparr>es_consumed_at := Some now\<rparr>) (mfa_enrollment_sessions s)\<rparr>, changed = 1))"

subsection \<open>What the challenge leaves alone\<close>

text \<open>The throttle writes nothing but events.\<close>

definition only_audit :: "db \<Rightarrow> db \<Rightarrow> bool" where
  "only_audit s s' \<longleftrightarrow> s'\<lparr>audit_events := []\<rparr> = s\<lparr>audit_events := []\<rparr>"

lemma only_audit_refl: "only_audit s s"
  by (simp add: only_audit_def)

lemma only_audit_trans: "only_audit s s' \<Longrightarrow> only_audit s' s'' \<Longrightarrow> only_audit s s''"
  by (simp add: only_audit_def)

lemma only_audit_log: "only_audit s (log_event E now a s') \<longleftrightarrow> only_audit s s'"
  by (simp add: only_audit_def log_event_def)

lemma only_audit_fields:
  assumes "only_audit s s'"
  shows "users s' = users s" "refresh_tokens s' = refresh_tokens s" "revoked_tokens s' = revoked_tokens s" "user_sessions s' = user_sessions s"
    "mfa_devices s' = mfa_devices s" "mfa_recovery_codes s' = mfa_recovery_codes s" "mfa_used_totp_steps s' = mfa_used_totp_steps s"
    "mfa_email_otps s' = mfa_email_otps s"
  using assms [unfolded only_audit_def] arg_cong [of "s'\<lparr>audit_events := []\<rparr>" "s\<lparr>audit_events := []\<rparr>"] by (metis db.select_convs db.surjective db.update_convs)+

lemma only_audit_attempt:
  assumes "\<And>t. only_audit (s_db t) (s_db (f t))"
  shows "only_audit (s_db s) (s_db (throttle_attempt R E now k w m lo fw fm f s))"
  using assms [of "s\<lparr>s_lim := fst (record_attempt R (cfg E) now k (lock_of k) w m lo fw fm (s_lim s))\<rparr>"]
  by (simp add: throttle_attempt_def Let_def split_beta only_audit_refl)

lemma escalation_db [simp]: "s_db (apply_progressive_escalation R T now sk ak s) = s_db s"
  by (simp add: apply_progressive_escalation_def Let_def split_beta)

lemma only_audit_mfa_triggered: "only_audit (s_db s) (s_db (mfa_audit_triggered E now u ip org dim lo s))"
  by (simp add: mfa_audit_triggered_def only_audit_log only_audit_refl)

lemma mfa_record_failure_db: "only_audit (s_db s) (s_db (mfa_record_failure R E now u ip org s))"
proof -
  have a: "only_audit (s_db t) (s_db (mfa_audit_triggered E now u i org dim lo (apply_progressive_escalation R T now sk ak t)))" for t i dim lo T sk ak
    using only_audit_mfa_triggered [of "apply_progressive_escalation R T now sk ak t"] by simp
  let ?T = "MFA_RATE_LIMIT (cfg E)" and ?ip = "ip_or_empty ip"
  have "only_audit (s_db s) (s_db (throttle_attempt R E now k3 w3 m3 lo3 fw fm (mfa_audit_triggered E now u i org d3 l3)
      (throttle_attempt R E now k2 w2 m2 lo2 fw fm (mfa_audit_triggered E now u i org d2 l2)
        (throttle_attempt R E now k1 w1 m1 lo1 fw fm (\<lambda>s. mfa_audit_triggered E now u i org d1 l1 (apply_progressive_escalation R T now sk ak s)) s))))
     \<and> only_audit (s_db s) (s_db (throttle_attempt R E now k2 w2 m2 lo2 fw fm (mfa_audit_triggered E now u i org d2 l2)
        (throttle_attempt R E now k1 w1 m1 lo1 fw fm (\<lambda>s. mfa_audit_triggered E now u i org d1 l1 (apply_progressive_escalation R T now sk ak s)) s)))"
    for k1 w1 m1 lo1 k2 w2 m2 lo2 k3 w3 m3 lo3 fw fm i d1 l1 d2 l2 d3 l3 T sk ak
    by (intro conjI) (rule only_audit_trans [OF only_audit_trans [OF only_audit_attempt only_audit_attempt] only_audit_attempt]
        only_audit_trans [OF only_audit_attempt only_audit_attempt]; rule a only_audit_mfa_triggered)+
  then show ?thesis by (simp add: mfa_record_failure_def Let_def only_audit_refl)
qed

lemma mfa_record_success_db [simp]: "s_db (mfa_record_success R E now u ip s) = s_db s"
  by (simp add: mfa_record_success_def Let_def)

lemma mfa_check_throttled_db [simp]: "s_db (fst (mfa_check_throttled R E now u ip s)) = s_db s"
  by (simp add: mfa_check_throttled_def Let_def split_beta)

text \<open>Issuing tokens touches none of the tables of this component, and no flag of a user it reads.\<close>

definition mfa_view :: "db \<Rightarrow> (int \<times> bool) list \<times> mfa_device list \<times> mfa_recovery_code list \<times> mfa_used_totp_step list \<times> mfa_email_otp list \<times> revoked_token list" where
  "mfa_view s = (map (\<lambda>u. (u_id u, u_mfa_enabled u)) (users s), mfa_devices s, mfa_recovery_codes s, mfa_used_totp_steps s, mfa_email_otps s, revoked_tokens s)"

lemma mfa_view_log [simp]: "mfa_view (log_event E now a s) = mfa_view s"
  by (simp add: mfa_view_def)

lemma mfa_view_set_user: "(\<And>u. u_id (f u) = u_id u \<and> u_mfa_enabled (f u) = u_mfa_enabled u) \<Longrightarrow> mfa_view (set_user i f s) = mfa_view s"
  by (simp add: mfa_view_def set_user_def map_update_where_same)

lemma mfa_view_end_session [simp]: "mfa_view (end_session E now u fid r a s) = mfa_view s"
  by (simp add: end_session_def log_session_revoked_def session_revoke_def revoke_family_def set_session_def mfa_view_def split: option.splits)

lemma mfa_view_fold_end [simp]: "mfa_view (fold (\<lambda>x. end_session E now u (Some (us_session_id x)) r a) xs s) = mfa_view s"
  by (induction xs arbitrary: s) simp_all

lemma mfa_view_generate: "generate_tokens E now ja jr fid u am idp ip ua sc s = (s', a, r) \<Longrightarrow> mfa_view s' = mfa_view s"
proof -
  assume g: "generate_tokens E now ja jr fid u am idp ip ua sc s = (s', a, r)"
  let ?s1 = "set_user (u_id u) (\<lambda>x. x\<lparr>u_last_login_at := Some now, u_authentication_method := Some (persisted_auth_method am)\<rparr>) s"
  have ev: "mfa_view (evict_oldest_sessions_over_limit E now v d) = mfa_view d" for v d
    by (simp add: evict_oldest_sessions_over_limit_def Let_def)
  have cr: "mfa_view (session_create n i v o' rl am' mv e ip' ua' sc' d) = mfa_view d" for n i v o' rl am' mv e ip' ua' sc' d
    by (simp add: session_create_def mfa_view_def)
  have ad: "mfa_view (add_token E now v t f d) = mfa_view d" for v t f d by (simp add: add_token_def mfa_view_def)
  have "mfa_view s' = mfa_view ?s1" using g by (auto simp: generate_tokens_def Let_def ev cr ad)
  then show ?thesis by (simp add: mfa_view_set_user)
qed

lemma mfa_view_touch [simp]: "mfa_view (touch_verified now u s) = mfa_view s"
  unfolding touch_verified_def by (rule mfa_view_set_user) simp

lemma only_audit_view: "only_audit s s' \<Longrightarrow> mfa_view s' = mfa_view s"
  by (simp add: mfa_view_def only_audit_fields)

subsubsection \<open>Completing a challenge\<close>

lemma consume_jti_Inr:
  assumes "consume_challenge_jti now jti s = Inr s'"
  shows "s' = s\<lparr>revoked_tokens := revoked_tokens s'\<rparr>" "rv_token_jti ` set (revoked_tokens s') = rv_token_jti ` set (revoked_tokens s) \<union> (if truthy jti then {the jti} else {})"
    "truthy jti \<Longrightarrow> the jti \<notin> rv_token_jti ` set (revoked_tokens s)" "set (revoked_tokens s) \<subseteq> set (revoked_tokens s')"
  using assms by (auto simp: consume_challenge_jti_def query_exists_def split: if_splits)

lemma complete_ok:
  assumes "complete_challenge R E now uid ip jti upd ev s = (s', None)"
  obtains d where "consume_challenge_jti now jti (upd (s_db s)) = Inr d" "s_db s' = log_event E now ev d"
  using assms by (auto simp: complete_challenge_def Let_def split: sum.splits)

lemma complete_error: "complete_challenge R E now uid ip jti upd ev s = (s', Some e) \<Longrightarrow> s' = s"
  by (auto simp: complete_challenge_def Let_def split: sum.splits)

lemma challenge_tokens_cases:
  assumes "challenge_tokens E now ja jr fid u payload r = (s', res)"
  obtains (error) e where "r = (s', Some e)" "res = Inl e"
  | (tokens) s a t where "r = (s, None)" "res = Inr (Tokens a t)" "mfa_view (s_db s') = mfa_view (s_db s)"
      "generate_tokens E now ja jr fid u (challenge_method payload) (get_claim payload ''idp_org_id'') None None (challenge_saml payload) (s_db s) = (s_db s', a, t)"
proof -
  obtain s x where r: "r = (s, x)" by force
  show ?thesis
  proof (cases x)
    case None
    obtain d a t where g: "generate_tokens E now ja jr fid u (challenge_method payload) (get_claim payload ''idp_org_id'') None None (challenge_saml payload) (s_db s) = (d, a, t)"
      by (metis prod_cases3)
    then have "s' = s\<lparr>s_db := d\<rparr>" "res = Inr (Tokens a t)" using assms r None by (simp_all add: challenge_tokens_def)
    then show ?thesis using tokens [of s a t] r None g mfa_view_generate [OF g] by simp
  next
    case (Some e)
    then show ?thesis using error [of e] assms r by (simp add: challenge_tokens_def)
  qed
qed

subsubsection \<open>What an accepted challenge proves\<close>

definition totp_proof :: "env \<Rightarrow> time \<Rightarrow> string \<Rightarrow> int \<Rightarrow> db \<Rightarrow> bool" where
  "totp_proof E now code uid s \<longleftrightarrow> (\<exists>d secret k. d \<in> set (challenge_devices s uid) \<and> crypto_decrypt E (d_encrypted_secret d) = Some secret
     \<and> totp_matched_step E secret code (whole_seconds now) = Inr (Some k) \<and> (d_id d, k) \<notin> used_steps s)"

definition recovery_proof :: "env \<Rightarrow> string \<Rightarrow> int \<Rightarrow> db \<Rightarrow> bool" where
  "recovery_proof E code uid s \<longleftrightarrow> verify_recovery_code E s uid code \<noteq> None"

definition email_proof :: "env \<Rightarrow> time \<Rightarrow> string option \<Rightarrow> string \<Rightarrow> user \<Rightarrow> db \<Rightarrow> bool" where
  "email_proof E now jti code u s \<longleftrightarrow> is_enabled_for E u \<and> snd (verify_code E now (u_id u) jti code s) = Inr True"

text \<open>The challenge with identifier \<open>jti\<close> was open in \<open>s\<close> and is consumed in \<open>s'\<close>.\<close>

definition consumes :: "string option \<Rightarrow> db \<Rightarrow> db \<Rightarrow> bool" where
  "consumes jti s s' \<longleftrightarrow> set (revoked_tokens s) \<subseteq> set (revoked_tokens s')
     \<and> (truthy jti \<longrightarrow> the jti \<notin> rv_token_jti ` set (revoked_tokens s) \<and> the jti \<in> rv_token_jti ` set (revoked_tokens s'))"

lemma revoked_view: "mfa_view s' = mfa_view s \<Longrightarrow> revoked_tokens s' = revoked_tokens s"
  by (simp add: mfa_view_def)

lemma complete_consumes:
  assumes c: "complete_challenge R E now uid ip jti upd ev s = (s', None)" and upd: "\<And>d. revoked_tokens (upd d) = revoked_tokens d"
  shows "consumes jti (s_db s) (s_db s')"
proof -
  from c obtain d where d: "consume_challenge_jti now jti (upd (s_db s)) = Inr d" "s_db s' = log_event E now ev d" by (rule complete_ok)
  show ?thesis using consume_jti_Inr(2-4) [OF d(1)] d(2) by (auto simp: consumes_def upd)
qed

lemma touch_revoked [simp]: "revoked_tokens (touch_verified now u s) = revoked_tokens s" "revoked_tokens (set_device i f s) = revoked_tokens s"
  by (simp_all add: touch_verified_def set_user_def set_device_def)

lemma try_claim_revoked: "revoked_tokens (fst (try_claim_totp_step now i k s)) = revoked_tokens s"
  by (simp add: try_claim_totp_step_def)

lemma verify_code_revoked: "revoked_tokens (fst (verify_code E now u j c s)) = revoked_tokens s"
  by (simp add: verify_code_def Let_def split: option.split)

lemma verify_code_reads: "mfa_email_otps s = mfa_email_otps s' \<Longrightarrow> snd (verify_code E now u j c s) = snd (verify_code E now u j c s')"
  by (simp add: verify_code_def current_otp_def Let_def split: option.split)

lemma email_stage_ok:
  assumes "verify_email_stage R E now ja jr fid u payload code ip try s = (s', Inr res)"
  shows "try \<and> email_proof E now (json_str (get_claim payload ''jti'')) code u (s_db s) \<and> consumes (json_str (get_claim payload ''jti'')) (s_db s) (s_db s')
     \<and> (case res of Tokens a t \<Rightarrow> \<not> u_mfa_enabled u | Challenge c ms \<Rightarrow> u_mfa_enabled u)"
proof -
  let ?jti = "json_str (get_claim payload ''jti'')"
  define org where "org = map_option m_organization_id (resolve_primary_membership (s_db s) (u_id u))"
  define r where "r = (if try \<and> is_enabled_for E u
      then (case verify_code E now (u_id u) ?jti code (s_db s) of (d, Inr b) \<Rightarrow> (d, b) | (d, Inl e) \<Rightarrow> (d, False)) else (s_db s, False))"
  define ev where "ev = (audit ''mfa_verified'')\<lparr>a_actor := Some (u_id u), a_target := Some (u_id u), a_org := org, a_rtype := Some ''mfa_email_otp'',
     a_meta := JObj [(''authentication_method'', JStr (challenge_method payload)), (''factor'', JStr ''email'')]\<rparr>"
  define q where "q = complete_challenge R E now (u_id u) ip ?jti (touch_verified now (u_id u)) ev (s\<lparr>s_db := fst r\<rparr>)"
  have m: "snd r" using assms
    by (auto simp: verify_email_stage_def Let_def r_def [symmetric] split_beta split: if_splits)
  then have pr: "try" "is_enabled_for E u" "snd (verify_code E now (u_id u) ?jti code (s_db s)) = Inr True" "fst r = fst (verify_code E now (u_id u) ?jti code (s_db s))"
    unfolding r_def by (auto split: if_splits prod.splits sum.splits)
  have eq: "verify_email_stage R E now ja jr fid u payload code ip try s =
      (if u_mfa_enabled u then (case q of (s2, Some e) \<Rightarrow> (s2, Inl e) | (s2, None) \<Rightarrow>
          (s2, Inr (Challenge (create_mfa_challenge_token E now ja (u_id u) (challenge_method payload) (json_int (get_claim payload ''idp_org_id''))
             (challenge_saml payload) (Some ''totp'')) [''totp'', ''recovery_code''])))
       else challenge_tokens E now ja jr fid u payload q)"
    using m unfolding verify_email_stage_def q_def ev_def org_def r_def Let_def split_beta by auto
  have cons: "consumes ?jti (s_db s) (s_db s2)" if "q = (s2, None)" for s2
    using complete_consumes [OF that [unfolded q_def]] pr(4) by (simp add: consumes_def verify_code_revoked)
  show ?thesis
  proof (cases "u_mfa_enabled u")
    case True
    then show ?thesis using assms eq pr cons by (auto simp: email_proof_def split: option.splits prod.splits)
  next
    case False
    then have "challenge_tokens E now ja jr fid u payload q = (s', Inr res)" using assms eq by simp
    then show ?thesis
    proof (cases rule: challenge_tokens_cases)
      case (tokens s2 a t)
      then show ?thesis using False pr cons [OF tokens(1)] revoked_view [OF tokens(3)] by (auto simp: email_proof_def consumes_def)
    qed simp
  qed
qed

lemma factors_ok:
  assumes f: "verify_factors R E now ja jr fid u payload code ip method s = (s', Inr res)"
  shows "consumes (json_str (get_claim payload ''jti'')) (s_db s) (s_db s')
     \<and> (case res of
          Tokens a t \<Rightarrow> (get_claim payload ''required_stage'' \<noteq> JStr ''email'' \<and> (totp_proof E now code (u_id u) (s_db s) \<or> recovery_proof E code (u_id u) (s_db s)))
             \<or> (\<not> u_mfa_enabled u \<and> get_claim payload ''required_stage'' \<noteq> JStr ''totp'' \<and> email_proof E now (json_str (get_claim payload ''jti'')) code u (s_db s))
        | Challenge c ms \<Rightarrow> u_mfa_enabled u \<and> get_claim payload ''required_stage'' \<noteq> JStr ''totp''
             \<and> email_proof E now (json_str (get_claim payload ''jti'')) code u (s_db s))"
proof -
  let ?jti = "json_str (get_claim payload ''jti'')" and ?st = "get_claim payload ''required_stage''"
  define org where "org = map_option m_organization_id (resolve_primary_membership (s_db s) (u_id u))"
  define meta where "meta = JObj [(''authentication_method'', JStr (challenge_method payload))]"
  define r where "r = (if ?st \<noteq> JStr ''email'' \<and> method \<in> {None, Some ''totp''}
     then claim_device E now code (challenge_devices (s_db s) (u_id u)) (s_db s) else (s_db s, None))"
  define rec where "rec = (if ?st \<noteq> JStr ''email'' \<and> method \<in> {None, Some ''recovery_code''} then verify_recovery_code E (s_db s) (u_id u) code else None)"
  define q where "q = (case rec of None \<Rightarrow> (s_db s, False) | Some x \<Rightarrow> try_consume_recovery_code now (rc_id x) (s_db s))"
  have finish: ?thesis if c: "challenge_tokens E now ja jr fid u payload (complete_challenge R E now (u_id u) ip ?jti upd ev (s\<lparr>s_db := d\<rparr>)) = (s', Inr res)"
    and upd: "\<And>d. revoked_tokens (upd d) = revoked_tokens d" and d: "revoked_tokens d = revoked_tokens (s_db s)"
    and pr: "?st \<noteq> JStr ''email''" "totp_proof E now code (u_id u) (s_db s) \<or> recovery_proof E code (u_id u) (s_db s)" for upd ev d
    using c
  proof (cases rule: challenge_tokens_cases)
    case (tokens s2 a t)
    have "consumes ?jti d (s_db s2)" using complete_consumes [OF tokens(1) upd] by simp
    then show ?thesis using tokens(2) pr revoked_view [OF tokens(3)] d by (simp add: consumes_def)
  qed simp
  show ?thesis
  proof (cases "snd r")
    case (Some x)
    then obtain d k where x: "snd r = Some (d, k)" by (cases x) auto
    then have st: "?st \<noteq> JStr ''email''" and cl: "claim_device E now code (challenge_devices (s_db s) (u_id u)) (s_db s) = (fst r, Some (d, k))"
      unfolding r_def by (auto split: if_splits prod.splits simp: prod_eq_iff)
    note cs = claim_device_Some [OF cl]
    have tc: "try_claim_totp_step now (d_id d) k (s_db s) = (fst r, True)" using cs by blast
    have "totp_proof E now code (u_id u) (s_db s)" using cs try_claim_spec [OF tc] unfolding totp_proof_def by blast
    moreover have rv: "revoked_tokens (fst r) = revoked_tokens (s_db s)" using arg_cong [OF tc, of fst] by (metis fst_conv try_claim_revoked)
    moreover have "challenge_tokens E now ja jr fid u payload (complete_challenge R E now (u_id u) ip ?jti
        (\<lambda>y. touch_verified now (u_id u) (set_device (d_id d) (\<lambda>x. x\<lparr>d_last_used_at := Some now\<rparr>) y))
        ((audit ''mfa_verified'')\<lparr>a_actor := Some (u_id u), a_target := Some (u_id u), a_org := org, a_rtype := Some ''mfa_device'',
           a_rid := Some (show_int (d_id d)), a_meta := meta\<rparr>) (s\<lparr>s_db := fst r\<rparr>)) = (s', Inr res)"
      using f x unfolding verify_factors_def Let_def split_beta r_def [symmetric] org_def [symmetric] meta_def [symmetric] by simp
    ultimately show ?thesis using finish [OF _ _ rv st] by (simp del: not_None_eq)
  next
    case None
    have fr: "fst r = s_db s"
    proof (cases "?st \<noteq> JStr ''email'' \<and> method \<in> {None, Some ''totp''}")
      case True
      then have "r = claim_device E now code (challenge_devices (s_db s) (u_id u)) (s_db s)" by (simp add: r_def)
      then show ?thesis using None claim_device_None [of E now code "challenge_devices (s_db s) (u_id u)" "s_db s" "fst r"] by (metis prod.collapse)
    qed (auto simp: r_def)
    have eq: "verify_factors R E now ja jr fid u payload code ip method s =
       (if snd q then challenge_tokens E now ja jr fid u payload (complete_challenge R E now (u_id u) ip ?jti (touch_verified now (u_id u))
           ((audit ''mfa_recovery_code_used'')\<lparr>a_actor := Some (u_id u), a_target := Some (u_id u), a_org := org, a_rtype := Some ''user'',
              a_rid := Some (show_int (u_id u)), a_meta := meta\<rparr>) (s\<lparr>s_db := fst q\<rparr>))
        else verify_email_stage R E now ja jr fid u payload code ip (?st \<noteq> JStr ''totp'' \<and> method \<in> {None, Some ''email''}) (s\<lparr>s_db := fst q\<rparr>))"
    proof -
      have up: "s\<lparr>s_db := fst r\<rparr> = s" using fr by simp
      show ?thesis unfolding verify_factors_def Let_def split_beta r_def [symmetric] org_def [symmetric] meta_def [symmetric]
        by (simp only: None option.case up rec_def [symmetric] q_def [symmetric])
    qed
    have rq: "revoked_tokens (fst q) = revoked_tokens (s_db s)" "mfa_email_otps (fst q) = mfa_email_otps (s_db s)"
      by (auto simp: q_def try_consume_recovery_code_def split: option.split)
    show ?thesis
    proof (cases "snd q")
      case True
      then have "rec \<noteq> None" by (auto simp: q_def split: option.splits)
      then have "?st \<noteq> JStr ''email''" "recovery_proof E code (u_id u) (s_db s)" by (auto simp: rec_def recovery_proof_def split: if_splits)
      then show ?thesis using finish [OF _ _ rq(1)] f eq True by simp
    next
      case False
      then have "verify_email_stage R E now ja jr fid u payload code ip (?st \<noteq> JStr ''totp'' \<and> method \<in> {None, Some ''email''}) (s\<lparr>s_db := fst q\<rparr>) = (s', Inr res)"
        using f eq by simp
      from email_stage_ok [OF this] verify_code_reads [OF rq(2)] rq(1) show ?thesis
        by (auto simp: email_proof_def consumes_def split: login_result.splits)
    qed
  qed
qed

lemma challenge_ok:
  assumes v: "verify_mfa_challenge R E now ja jr fid tok code ip method s = (s', Inr res)"
  obtains payload i u s1 where "decode_token E now tok = Inr payload" "get_claim payload ''type'' = JStr ''mfa_challenge''"
    "json_int (get_claim payload ''user_id'') = Some i" "find_user (s_db s) i = Some u" "u_status u = ''active''" "s_db s1 = s_db s"
    "verify_factors R E now ja jr fid u payload code ip method s1 = (s', Inr res)"
proof -
  from v obtain payload where p: "decode_token E now tok = Inr payload" "get_claim payload ''type'' = JStr ''mfa_challenge''"
    by (auto simp: verify_mfa_challenge_def Let_def split: sum.splits if_splits)
  from v p obtain i where i: "json_int (get_claim payload ''user_id'') = Some i"
    by (cases "json_int (get_claim payload ''user_id'')") (auto simp: verify_mfa_challenge_def Let_def split: if_splits)
  let ?c = "mfa_check_throttled R E now i ip s"
  from v p i obtain u where u: "find_user (s_db s) i = Some u"
    by (cases "find_user (s_db s) i") (auto simp: verify_mfa_challenge_def Let_def split_beta split: if_splits)
  have "u_status u = ''active''" "verify_factors R E now ja jr fid u payload code ip method (fst ?c) = (s', Inr res)"
    using v p i u by (auto simp: verify_mfa_challenge_def Let_def split_beta split: if_splits)
  then show ?thesis using that [OF p i u] by (metis mfa_check_throttled_db)
qed

text \<open>
  C7. A challenge is only passed with a factor. When \<open>verify_mfa_challenge\<close> hands out
  tokens, the challenge token was genuine, its user is active, and the code was a one-time
  password of a live device at an unused time step, or an unused recovery code, or, for a user
  without an authenticator only, the code sent by e-mail. An e-mail code presented by a user
  who has an authenticator leads to a second challenge, never to tokens; and a challenge of
  the TOTP stage cannot be passed by e-mail.
\<close>

theorem challenge_needs_factor:
  assumes "verify_mfa_challenge R E now ja jr fid tok code ip method s = (s', Inr res)"
  shows "\<exists>payload i u. decode_token E now tok = Inr payload \<and> get_claim payload ''type'' = JStr ''mfa_challenge''
     \<and> json_int (get_claim payload ''user_id'') = Some i \<and> find_user (s_db s) i = Some u \<and> u_status u = ''active''
     \<and> (case res of
          Tokens a t \<Rightarrow> (get_claim payload ''required_stage'' \<noteq> JStr ''email'' \<and> (totp_proof E now code (u_id u) (s_db s) \<or> recovery_proof E code (u_id u) (s_db s)))
             \<or> (\<not> u_mfa_enabled u \<and> get_claim payload ''required_stage'' \<noteq> JStr ''totp'' \<and> email_proof E now (json_str (get_claim payload ''jti'')) code u (s_db s))
        | Challenge c ms \<Rightarrow> u_mfa_enabled u \<and> get_claim payload ''required_stage'' \<noteq> JStr ''totp''
             \<and> email_proof E now (json_str (get_claim payload ''jti'')) code u (s_db s))"
proof -
  from assms obtain payload i u s1 where c: "decode_token E now tok = Inr payload" "get_claim payload ''type'' = JStr ''mfa_challenge''"
    "json_int (get_claim payload ''user_id'') = Some i" "find_user (s_db s) i = Some u" "u_status u = ''active''" "s_db s1 = s_db s"
    "verify_factors R E now ja jr fid u payload code ip method s1 = (s', Inr res)" by (rule challenge_ok)
  show ?thesis using c(1-5) conjunct2 [OF factors_ok [OF c(7), unfolded c(6)]] by blast
qed

text \<open>
  C8. A challenge is passed at most once. After \<open>verify_mfa_challenge\<close> has succeeded for
  a token with an identifier, presenting a token with that identifier again fails in every
  later state, whatever the code, the method, the address and the time.
\<close>

theorem challenge_single_use:
  assumes v: "verify_mfa_challenge R E now ja jr fid tok code ip method s = (s', Inr res)"
    and p: "decode_token E now tok = Inr payload" "truthy (json_str (get_claim payload ''jti''))"
    and later: "set (revoked_tokens (s_db s')) \<subseteq> set (revoked_tokens (s_db s2))"
    and same: "decode_token E now2 tok2 = Inr payload2" "get_claim payload2 ''jti'' = get_claim payload ''jti''"
  shows "\<exists>e. snd (verify_mfa_challenge R E now2 ja2 jr2 fid2 tok2 code2 ip2 method2 s2) = Inl e"
proof (rule ccontr)
  assume "\<not> ?thesis"
  then obtain s3 res3 where v2: "verify_mfa_challenge R E now2 ja2 jr2 fid2 tok2 code2 ip2 method2 s2 = (s3, Inr res3)"
    by (metis prod.collapse sum.exhaust)
  let ?j = "json_str (get_claim payload ''jti'')"
  from v obtain u s1 where f: "s_db s1 = s_db s" "verify_factors R E now ja jr fid u payload code ip method s1 = (s', Inr res)"
    by (rule challenge_ok) (use p in auto)
  from v2 obtain u2 s4 where f2: "s_db s4 = s_db s2" "verify_factors R E now2 ja2 jr2 fid2 u2 payload2 code2 ip2 method2 s4 = (s3, Inr res3)"
    by (rule challenge_ok) (use same in auto)
  have "the ?j \<in> rv_token_jti ` set (revoked_tokens (s_db s'))" using factors_ok [OF f(2)] p(2) by (simp add: consumes_def)
  moreover have "the ?j \<notin> rv_token_jti ` set (revoked_tokens (s_db s2))" using factors_ok [OF f2(2)] p(2) f2(1) same(2) by (simp add: consumes_def)
  ultimately show False using later by blast
qed

text \<open>A user with an authenticator who signs in with a recovery code.\<close>

definition challenge_payload :: claims where
  "challenge_payload = mfa_challenge_claims 0 ''j'' 1 ''password'' None \<lparr>sc_name_id = None, sc_session_index = None, sc_config_id = None\<rparr> None"

definition challenge_env :: env where
  "challenge_env = (sample_env [''ch'' \<mapsto> challenge_payload])\<lparr>cfg := default_settings\<lparr>MFA_RATE_LIMIT := default_mfa_rate_limit\<lparr>TS_ENABLED := False\<rparr>\<rparr>\<rparr>"

definition challenge_sys :: "kv sys" where
  "challenge_sys = kv_sys\<lparr>s_db := empty_db\<lparr>users := [(sample_user 1 ''ada'')\<lparr>u_mfa_enabled := True\<rparr>],
     mfa_recovery_codes := [\<lparr>rc_id = 1, rc_user_id = 1, rc_code_hash = hash_recovery_code challenge_env ''ABCD-EFGH-JKLM'', rc_created_at = 0, rc_used_at = None\<rparr>]\<rparr>\<rparr>"

lemma challenge_decode: "decode_token challenge_env now ''ch'' = Inr challenge_payload"
  by (simp add: decode_token_def decode_token_for_audience_def challenge_env_def sample_env_def challenge_payload_def mfa_challenge_claims_def)

lemma challenge_claims: "get_claim challenge_payload ''type'' = JStr ''mfa_challenge''" "get_claim challenge_payload ''jti'' = JStr ''j''"
  "get_claim challenge_payload ''user_id'' = JInt 1" "get_claim challenge_payload ''required_stage'' = JNull"
  by (simp_all add: challenge_payload_def mfa_challenge_claims_def jstr_opt_def)

lemma challenge_run:
  obtains s' a t where "verify_mfa_challenge kv_redis challenge_env 0 ''a'' ''r'' ''f'' ''ch'' ''ABCD-EFGH-JKLM'' None (Some ''recovery_code'') challenge_sys = (s', Inr (Tokens a t))"
proof -
  let ?u = "(sample_user 1 ''ada'')\<lparr>u_mfa_enabled := True\<rparr>"
  let ?r = "\<lparr>rc_id = 1, rc_user_id = 1, rc_code_hash = hash_recovery_code challenge_env ''ABCD-EFGH-JKLM'', rc_created_at = 0, rc_used_at = None\<rparr>"
  have en: "TS_ENABLED (MFA_RATE_LIMIT (cfg challenge_env)) = False" by (simp add: challenge_env_def)
  have thr: "mfa_check_throttled kv_redis challenge_env 0 1 None challenge_sys = (challenge_sys, not_throttled)"
    by (simp add: mfa_check_throttled_def en)
  have u: "find_user (s_db challenge_sys) 1 = Some ?u" "revoked_tokens (s_db challenge_sys) = []"
    by (simp_all add: challenge_sys_def find_user_def query_first_def sample_user_def empty_db_def)
  have rc: "verify_recovery_code challenge_env (s_db challenge_sys) 1 ''ABCD-EFGH-JKLM'' = Some ?r"
    by (simp add: verify_recovery_code_def challenge_sys_def query_first_def)
  have tc: "snd (try_consume_recovery_code 0 1 (s_db challenge_sys))" "revoked_tokens (fst (try_consume_recovery_code 0 1 (s_db challenge_sys))) = []"
    using u(2) by (simp_all add: try_consume_recovery_code_def challenge_sys_def)
  have comp: "\<exists>s2. complete_challenge kv_redis challenge_env 0 1 None (Some ''j'') (touch_verified 0 1) ev
      (challenge_sys\<lparr>s_db := fst (try_consume_recovery_code 0 1 (s_db challenge_sys))\<rparr>) = (s2, None)" for ev
    using tc(2) by (simp add: complete_challenge_def consume_challenge_jti_def query_exists_def Let_def)
  have tok: "\<exists>s3 a t. challenge_tokens challenge_env 0 ''a'' ''r'' ''f'' ?u challenge_payload (s2, None) = (s3, Inr (Tokens a t))" for s2 :: "kv sys"
    by (simp add: challenge_tokens_def split_beta)
  have uid: "u_id ?u = 1" "u_status ?u = ''active''" "u_mfa_enabled ?u" by (simp_all add: sample_user_def)
  have "\<exists>s3 a t. verify_factors kv_redis challenge_env 0 ''a'' ''r'' ''f'' ?u challenge_payload ''ABCD-EFGH-JKLM'' None (Some ''recovery_code'') challenge_sys = (s3, Inr (Tokens a t))"
    unfolding verify_factors_def Let_def split_beta uid(1) challenge_claims using rc tc(1) comp tok
    by (simp add: split_beta) (metis fst_conv snd_conv prod.collapse)
  then show ?thesis using that thr u uid
    by (auto simp: verify_mfa_challenge_def challenge_decode challenge_claims query_exists_def Let_def)
qed

theorem challenge_needs_factor_witness:
  "\<exists>i u. find_user (s_db challenge_sys) i = Some u \<and> u_status u = ''active''"
  by (rule challenge_run) (drule challenge_needs_factor, blast)

theorem challenge_single_use_witness:
  "\<exists>s' e. fst (verify_mfa_challenge kv_redis challenge_env 0 ''a'' ''r'' ''f'' ''ch'' ''ABCD-EFGH-JKLM'' None (Some ''recovery_code'') challenge_sys) = s'
     \<and> snd (verify_mfa_challenge kv_redis challenge_env 9 ''b'' ''q'' ''g'' ''ch'' ''000000'' None None s') = Inl e"
proof (rule challenge_run)
  fix s' a t
  assume r: "verify_mfa_challenge kv_redis challenge_env 0 ''a'' ''r'' ''f'' ''ch'' ''ABCD-EFGH-JKLM'' None (Some ''recovery_code'') challenge_sys = (s', Inr (Tokens a t))"
  from challenge_single_use [OF r challenge_decode _ order_refl challenge_decode refl] r show ?thesis by (simp add: challenge_claims)
qed

end
