(* ===== verification/Mfa_Invariant.thy ===== *)
theory Mfa_Invariant
  imports Mfa_Service
begin

text \<open>
  The state of second factors over time: \<open>User.mfa_enabled\<close> always agrees with the devices, so
  that a user who is asked for a one-time password has a device to produce it; recovery codes
  work once and are replaced as a whole; an administrator's reset clears everything; and an
  organization's policy is what logins are held to.
\<close>

subsection \<open>Flags and devices\<close>

definition flags_view :: "db \<Rightarrow> (int \<times> bool) list \<times> (int \<times> int \<times> bool) list" where
  "flags_view s = (map (\<lambda>u. (u_id u, u_mfa_enabled u)) (users s), map (\<lambda>d. (d_id d, d_user_id d, device_live d)) (mfa_devices s))"

definition has_live :: "db \<Rightarrow> int \<Rightarrow> bool" where
  "has_live s i \<longleftrightarrow> (\<exists>d \<in> set (mfa_devices s). d_user_id d = i \<and> device_live d)"

definition mfa_ok :: "db \<Rightarrow> bool" where
  "mfa_ok s \<longleftrightarrow> distinct (map u_id (users s)) \<and> distinct (map d_id (mfa_devices s)) \<and> (\<forall>u \<in> set (users s). u_mfa_enabled u \<longleftrightarrow> has_live s (u_id u))"

lemma has_live_flags: "has_live s i \<longleftrightarrow> (\<exists>x. (x, i, True) \<in> set (snd (flags_view s)))"
  by (auto simp: has_live_def flags_view_def)

lemma mfa_ok_flags: "mfa_ok s \<longleftrightarrow> distinct (map fst (fst (flags_view s))) \<and> distinct (map fst (snd (flags_view s)))
   \<and> (\<forall>(i, e) \<in> set (fst (flags_view s)). e \<longleftrightarrow> (\<exists>x. (x, i, True) \<in> set (snd (flags_view s))))"
  unfolding mfa_ok_def has_live_flags by (simp add: flags_view_def o_def)

lemma mfa_ok_cong: "flags_view s' = flags_view s \<Longrightarrow> mfa_ok s' = mfa_ok s"
  by (simp add: mfa_ok_flags)

lemma flags_of_view: "mfa_view s' = mfa_view s \<Longrightarrow> flags_view s' = flags_view s"
  by (simp add: mfa_view_def flags_view_def)

lemma flags_cong: "users s' = users s \<Longrightarrow> mfa_devices s' = mfa_devices s \<Longrightarrow> flags_view s' = flags_view s"
  by (simp add: flags_view_def)

lemma flags_log [simp]: "flags_view (log_event E now a s) = flags_view s"
  by (simp add: flags_view_def)

lemma flags_claim: "claim_device E now code ds s = (s', r) \<Longrightarrow> flags_view s' = flags_view s"
proof (cases r)
  case (Some x)
  assume "claim_device E now code ds s = (s', r)"
  then obtain d k where "claim_device E now code ds s = (s', Some (d, k))" using Some by (cases x) auto
  then have "try_claim_totp_step now (d_id d) k s = (s', True)" using claim_device_Some by blast
  then show ?thesis by (auto simp: try_claim_totp_step_def flags_view_def split: if_splits)
qed (use claim_device_None in blast)

lemma flags_verify_code: "flags_view (fst (verify_code E now u j c s)) = flags_view s"
  by (rule flags_cong) (simp_all add: verify_code_def Let_def split: option.split)

lemma flags_consume: "flags_view (fst (try_consume_recovery_code now i s)) = flags_view s"
  by (simp add: flags_view_def try_consume_recovery_code_def)

lemma flags_touch: "flags_view (touch_verified now u s) = flags_view s" "flags_view (set_device i (\<lambda>x. x\<lparr>d_last_used_at := t\<rparr>) s) = flags_view s"
  by (simp_all add: flags_view_def touch_verified_def set_user_def set_device_def map_update_where_same device_live_def)

lemma flags_complete:
  assumes "\<And>d. flags_view (upd d) = flags_view d"
  shows "flags_view (s_db (fst (complete_challenge R E now uid ip jti upd ev s))) = flags_view (s_db s)"
proof (cases "complete_challenge R E now uid ip jti upd ev s")
  case (Pair s' x)
  show ?thesis
  proof (cases x)
    case None
    then obtain d where d: "consume_challenge_jti now jti (upd (s_db s)) = Inr d" "s_db s' = log_event E now ev d"
      using Pair complete_ok [of R E now uid ip jti upd ev s s'] by blast
    have "flags_view d = flags_view (upd (s_db s))"
      by (rule flags_cong) (use d(1) in \<open>auto simp: consume_challenge_jti_def split: if_splits\<close>)
    then show ?thesis using Pair d(2) assms by simp
  next
    case (Some e)
    then show ?thesis using Pair complete_error [of R E now uid ip jti upd ev s s' e] by simp
  qed
qed

lemma flags_tokens: "flags_view (s_db (fst (challenge_tokens E now ja jr fid u payload r))) = flags_view (s_db (fst r))"
proof (cases "challenge_tokens E now ja jr fid u payload r")
  case (Pair s' res)
  then show ?thesis
  proof (cases rule: challenge_tokens_cases)
    case (tokens s a t)
    then show ?thesis using Pair flags_of_view [OF tokens(3)] by simp
  qed (use Pair in simp)
qed

lemma flags_email: "flags_view (s_db (fst (verify_email_stage R E now ja jr fid u payload code ip try s))) = flags_view (s_db s)"
proof -
  have f: "flags_view (s_db (mfa_record_failure R E now i ip' org s1)) = flags_view (s_db s1)" for i ip' org s1
    by (rule flags_of_view [OF only_audit_view [OF mfa_record_failure_db]])
  let ?V = "verify_code E now (u_id u) (json_str (get_claim payload ''jti'')) code (s_db s)"
  have r: "flags_view (fst (case snd ?V of Inl e \<Rightarrow> (fst ?V, False) | Inr b \<Rightarrow> (fst ?V, b))) = flags_view (s_db s)"
    using flags_verify_code by (simp split: sum.split)
  note ok = flags_complete [OF flags_touch(1)]
  show ?thesis
    unfolding verify_email_stage_def Let_def split_beta by (simp add: f flags_tokens ok r split_beta split: option.split)
qed

lemma flags_factors: "flags_view (s_db (fst (verify_factors R E now ja jr fid u payload code ip meth s))) = flags_view (s_db s)"
proof -
  let ?C = "claim_device E now code (challenge_devices (s_db s) (u_id u)) (s_db s)"
  define r where "r = (if get_claim payload ''required_stage'' \<noteq> JStr ''email'' \<and> meth \<in> {None, Some ''totp''} then ?C else (s_db s, None))"
  have r: "flags_view (fst r) = flags_view (s_db s)" using flags_claim [of E now code _ "s_db s" "fst ?C" "snd ?C"] by (simp add: r_def)
  have q: "flags_view (fst (case x of None \<Rightarrow> (d, False) | Some y \<Rightarrow> try_consume_recovery_code now (rc_id y) d)) = flags_view d" for x d
    using flags_consume by (simp split: option.split)
  have upd: "flags_view (touch_verified now i (set_device j (\<lambda>x. x\<lparr>d_last_used_at := t\<rparr>) d)) = flags_view d" for i j t d
    by (simp add: flags_touch)
  show ?thesis
    unfolding verify_factors_def Let_def split_beta r_def [symmetric]
    by (simp add: flags_tokens flags_email flags_complete [OF flags_touch(1)] flags_complete [OF upd] r q flags_consume split: option.split)
qed

lemma flags_challenge: "flags_view (s_db (fst (verify_mfa_challenge R E now ja jr fid tok code ip meth s))) = flags_view (s_db s)"
  by (simp add: verify_mfa_challenge_def flags_factors split_beta Let_def split: sum.split option.split)

text \<open>A change of the device rows that keeps ids and owners, and of the users' flags.\<close>

lemma mfa_okI:
  assumes ok: "mfa_ok s" and ids: "map u_id (users s') = map u_id (users s)" "map d_id (mfa_devices s') = map d_id (mfa_devices s)"
    and flags: "\<And>u'. u' \<in> set (users s') \<Longrightarrow> u_mfa_enabled u' \<longleftrightarrow> has_live s' (u_id u')"
  shows "mfa_ok s'"
  using ok flags by (simp add: mfa_ok_def ids)

lemma start_keeps:
  assumes ok: "mfa_ok s"
  shows "mfa_ok (fst (start_totp_enrollment E now secret uid em s))"
proof -
  let ?s1 = "disable_pending_totp_devices now uid s"
  have f1: "flags_view ?s1 = flags_view s"
    by (auto simp: flags_view_def disable_pending_totp_devices_def device_live_def intro!: map_update_where_same)
  then have ok1: "mfa_ok ?s1" using ok mfa_ok_cong by blast
  have ap: "mfa_ok (t\<lparr>mfa_devices := mfa_devices t @ [d]\<rparr>)" if "mfa_ok t" "d_id d = next_id d_id (mfa_devices t)" "\<not> device_live d" for t d
    using that next_id_notin [of d_id "mfa_devices t"] by (auto simp: mfa_ok_def has_live_def)
  show ?thesis
    using ok1 ap [OF ok1] by (auto simp: start_totp_enrollment_def Let_def mfa_ok_cong [OF flags_log] device_live_def)
qed

lemma device_update:
  assumes "mfa_ok s" "d \<in> set (mfa_devices s)" and f: "\<And>x. d_id (f x) = d_id x \<and> d_user_id (f x) = d_user_id x"
  shows "has_live (set_device (d_id d) f s) i \<longleftrightarrow> (i = d_user_id d \<and> device_live (f d)) \<or> (\<exists>x \<in> set (mfa_devices s). x \<noteq> d \<and> d_user_id x = i \<and> device_live x)"
    "map d_id (mfa_devices (set_device (d_id d) f s)) = map d_id (mfa_devices s)"
proof -
  have "x = d" if "x \<in> set (mfa_devices s)" "d_id x = d_id d" for x
    using assms(1,2) that by (auto simp: mfa_ok_def dest: distinct_keyD)
  then show "has_live (set_device (d_id d) f s) i \<longleftrightarrow> (i = d_user_id d \<and> device_live (f d)) \<or> (\<exists>x \<in> set (mfa_devices s). x \<noteq> d \<and> d_user_id x = i \<and> device_live x)"
    using assms(2) f by (auto simp: has_live_def set_device_def set_update_where)
  show "map d_id (mfa_devices (set_device (d_id d) f s)) = map d_id (mfa_devices s)"
    using f by (simp add: set_device_def map_update_where_same)
qed

lemma in_set_userE:
  assumes "u' \<in> set (users (set_user i f s))"
  obtains u where "u \<in> set (users s)" "u_id u = i" "u' = f u" | "u' \<in> set (users s)" "u_id u' \<noteq> i"
  using assms by (auto simp: set_user_def elim: in_update_whereE)

lemma users_set_device [simp]: "users (set_device i f s) = users s"
  by (simp add: set_device_def)

lemma has_live_cong: "mfa_devices s' = mfa_devices s \<Longrightarrow> has_live s' i = has_live s i"
  by (simp add: has_live_def)

lemma verify_keeps:
  assumes ok: "mfa_ok s" and v: "verify_totp_enrollment E now uid i code s = Inr (s', d')"
  shows "mfa_ok s'"
proof -
  from v obtain d where q: "query_first (\<lambda>d. d_id d = i \<and> d_user_id d = uid) (mfa_devices s) = Some d" and dis: "d_disabled_at d = None"
    by (auto simp: verify_totp_enrollment_def split: option.splits if_splits)
  have d: "d \<in> set (mfa_devices s)" "d_user_id d = uid" using query_first_Some [OF q] by auto
  let ?f = "\<lambda>d. d\<lparr>d_verified_at := Some now\<rparr>"
  let ?s = "set_user uid (enable_user_mfa now) (set_device (d_id d) ?f s)"
  have "flags_view s' = flags_view ?s"
    using v q dis by (auto simp: verify_totp_enrollment_def Let_def flags_view_def set_user_def set_device_def split: option.splits if_splits sum.splits bool.splits)
  moreover have "mfa_ok ?s"
  proof (rule mfa_okI [OF ok])
    show "map u_id (users ?s) = map u_id (users s)" by (simp add: set_user_def set_device_def map_update_where_same enable_user_mfa_def)
    have dev: "mfa_devices ?s = mfa_devices (set_device (d_id d) ?f s)" by (simp add: set_user_def)
    show "map d_id (mfa_devices ?s) = map d_id (mfa_devices s)" unfolding dev by (rule device_update(2) [OF ok d(1)]) simp
    have hl: "has_live ?s j \<longleftrightarrow> j = uid \<or> has_live s j" for j
      using has_live_cong [OF dev, of j] device_update(1) [OF ok d(1), of ?f j] dis d(2) by (auto simp: device_live_def has_live_def)
    fix u' assume "u' \<in> set (users ?s)"
    then show "u_mfa_enabled u' \<longleftrightarrow> has_live ?s (u_id u')"
    proof (cases rule: in_set_userE)
      case (1 u)
      then show ?thesis by (simp add: hl enable_user_mfa_def)
    next
      case 2
      then show ?thesis using ok by (simp add: hl mfa_ok_def)
    qed
  qed
  ultimately show ?thesis using mfa_ok_cong by blast
qed

lemma remove_keeps:
  assumes ok: "mfa_ok s" and v: "remove_device E now uid i s = Inr s'"
  shows "mfa_ok s'"
proof -
  from v obtain d where q: "query_first (\<lambda>d. d_id d = i \<and> d_user_id d = uid \<and> d_disabled_at d = None) (mfa_devices s) = Some d"
    by (auto simp: remove_device_def split: option.splits)
  have d: "d \<in> set (mfa_devices s)" "d_user_id d = uid" using query_first_Some [OF q] by auto
  let ?f = "\<lambda>d. d\<lparr>d_disabled_at := Some now\<rparr>"
  let ?s = "set_device (d_id d) ?f s"
  let ?t = "set_user uid (\<lambda>u. u\<lparr>u_mfa_enabled := False, u_mfa_status := ''disabled''\<rparr>) ?s"
  have hl: "has_live ?s j \<longleftrightarrow> (\<exists>x \<in> set (mfa_devices s). x \<noteq> d \<and> d_user_id x = j \<and> device_live x)" for j
    using device_update(1) [OF ok d(1), of ?f j] by (auto simp: device_live_def)
  have other: "j \<noteq> uid \<Longrightarrow> has_live ?s j = has_live s j" for j using d by (auto simp: hl) (auto simp: has_live_def)
  have ids: "map d_id (mfa_devices ?s) = map d_id (mfa_devices s)" by (rule device_update(2) [OF ok d(1)]) simp
  have keep: "mfa_ok ?s" if k: "has_live ?s uid = has_live s uid"
  proof (rule mfa_okI [OF ok _ ids])
    fix u assume "u \<in> set (users ?s)"
    then show "u_mfa_enabled u \<longleftrightarrow> has_live ?s (u_id u)" using ok k other by (cases "u_id u = uid") (auto simp: mfa_ok_def)
  qed simp
  have c: "query_count (\<lambda>d. d_user_id d = uid \<and> device_live d) (mfa_devices ?s) = 0 \<longleftrightarrow> \<not> has_live ?s uid"
    by (auto simp: query_count_0 has_live_def)
  have mono: "has_live ?s uid \<Longrightarrow> has_live s uid" by (auto simp: hl) (auto simp: has_live_def)
  show ?thesis
  proof (cases "has_live ?s uid")
    case True
    then have "s' = log_event E now ((audit ''mfa_device_removed'')
        \<lparr>a_actor := Some uid, a_target := Some uid, a_rtype := Some ''mfa_device'', a_rid := Some (show_int (d_id d)),
         a_before := JObj [(''device_type'', JStr (d_device_type d)), (''verified'', JBool (d_verified_at d \<noteq> None))],
         a_meta := JObj [(''device_type'', JStr (d_device_type d))]\<rparr>) ?s"
      using v q c by (simp add: remove_device_def Let_def)
    then show ?thesis using keep mono True mfa_ok_cong [OF flags_log] by auto
  next
    case False
    from v q c False obtain u where u: "find_user ?s uid = Some u" and fl: "flags_view s' = flags_view (if u_mfa_enabled u then ?t else ?s)"
      by (auto simp: remove_device_def Let_def flags_view_def set_user_def split: option.splits if_splits)
    have uin: "u \<in> set (users s)" "u_id u = uid" using find_user_Some [OF u] by auto
    have "mfa_ok (if u_mfa_enabled u then ?t else ?s)"
    proof (cases "u_mfa_enabled u")
      case True
      have "mfa_ok ?t"
      proof (rule mfa_okI [OF ok])
        show "map u_id (users ?t) = map u_id (users s)" by (simp add: set_user_def map_update_where_same)
        show "map d_id (mfa_devices ?t) = map d_id (mfa_devices s)" using ids by (simp add: set_user_def)
        have dev: "mfa_devices ?t = mfa_devices ?s" by (simp add: set_user_def)
        fix u' assume "u' \<in> set (users ?t)"
        then show "u_mfa_enabled u' \<longleftrightarrow> has_live ?t (u_id u')"
          by (cases rule: in_set_userE) (use False ok other has_live_cong [OF dev] in \<open>auto simp: mfa_ok_def\<close>)
      qed
      then show ?thesis using True by simp
    next
      case nf: False
      then have "\<not> has_live s uid" using ok uin by (auto simp: mfa_ok_def)
      then show ?thesis using keep False nf by simp
    qed
    then show ?thesis using fl mfa_ok_cong by blast
  qed
qed

lemma invalidate_none: "recovery_codes_remaining (fst (invalidate_recovery_codes now t s)) t = 0"
  unfolding recovery_codes_remaining_def query_count_0
proof
  fix r assume "r \<in> set (mfa_recovery_codes (fst (invalidate_recovery_codes now t s)))"
  then have "r \<in> set (update_where (\<lambda>r. rc_user_id r = t \<and> rc_used_at r = None) (\<lambda>r. r\<lparr>rc_used_at := Some now\<rparr>) (mfa_recovery_codes s))"
    by (simp add: invalidate_recovery_codes_def)
  then show "\<not> (rc_user_id r = t \<and> rc_used_at r = None)" by (rule in_update_whereE) auto
qed

lemma reset_keeps:
  assumes ok: "mfa_ok s" and v: "reset_user_mfa E now t a s = Inr s'"
  shows "mfa_ok s' \<and> \<not> has_live s' t \<and> recovery_codes_remaining s' t = 0
     \<and> (\<forall>u \<in> set (users s'). u_id u = t \<longrightarrow> \<not> u_mfa_enabled u)"
proof -
  let ?P = "\<lambda>d. d_user_id d = t \<and> d_disabled_at d = None"
  let ?g = "\<lambda>u. u\<lparr>u_mfa_enabled := False, u_mfa_status := ''disabled'', u_mfa_primary_method := None, u_mfa_enabled_at := None, u_mfa_last_verified_at := None\<rparr>"
  have tabs: "mfa_devices s' = update_where ?P (\<lambda>d. d\<lparr>d_disabled_at := Some now\<rparr>) (mfa_devices s)" "users s' = users (set_user t ?g s)"
    "mfa_recovery_codes s' = mfa_recovery_codes (fst (invalidate_recovery_codes now t s))"
    using v by (auto simp: reset_user_mfa_def Let_def invalidate_recovery_codes_def set_user_def split: option.splits)
  have live: "has_live s' j \<longleftrightarrow> j \<noteq> t \<and> has_live s j" for j
    by (auto simp: has_live_def tabs set_update_where device_live_def)
  have "mfa_ok s'"
  proof (rule mfa_okI [OF ok])
    show "map u_id (users s') = map u_id (users s)" by (simp add: tabs set_user_def map_update_where_same)
    show "map d_id (mfa_devices s') = map d_id (mfa_devices s)" by (simp add: tabs map_update_where_same)
    fix u' assume "u' \<in> set (users s')"
    then have "u' \<in> set (users (set_user t ?g s))" by (simp add: tabs)
    then show "u_mfa_enabled u' \<longleftrightarrow> has_live s' (u_id u')"
      by (cases rule: in_set_userE) (use ok live in \<open>auto simp: mfa_ok_def\<close>)
  qed
  note ok' = this
  have rem: "recovery_codes_remaining s' t = 0"
    using invalidate_none [of now t s] by (simp only: recovery_codes_remaining_def tabs(3))
  have "\<not> u_mfa_enabled u" if "u \<in> set (users s')" "u_id u = t" for u
  proof -
    have "u_mfa_enabled u = has_live s' (u_id u)" using ok' that(1) by (simp add: mfa_ok_def)
    then show ?thesis using that(2) by (simp add: live)
  qed
  then show ?thesis using ok' rem live by blast
qed

subsection \<open>Reachable states\<close>

text \<open>
  The operations of the component, a new user (who starts without a second factor), and any
  operation of another component, which leaves the flags and the devices alone.
\<close>

inductive mfa_step :: "'r redis \<Rightarrow> env \<Rightarrow> db \<Rightarrow> db \<Rightarrow> bool" for R :: "'r redis" and E :: env where
  start: "mfa_step R E s (fst (start_totp_enrollment E now secret uid em s))"
| verify: "verify_totp_enrollment E now uid i code s = Inr (s', d) \<Longrightarrow> mfa_step R E s s'"
| remove: "remove_device E now uid i s = Inr s' \<Longrightarrow> mfa_step R E s s'"
| step_up: "mfa_step R E s (fst (verify_user_totp_step_up E now uid code s))"
| issue_codes: "mfa_step R E s (fst (issue_recovery_codes E now draws uid ev s))"
| challenge: "mfa_step R E (s_db s) (s_db (fst (verify_mfa_challenge R E now ja jr fid tok code ip meth s)))"
| reset: "reset_user_mfa E now t a s = Inr s' \<Longrightarrow> mfa_step R E s s'"
| register: "users s' = users s @ [u] \<Longrightarrow> mfa_devices s' = mfa_devices s \<Longrightarrow> u_id u \<notin> u_id ` set (users s) \<Longrightarrow> \<not> u_mfa_enabled u
     \<Longrightarrow> u_id u \<notin> d_user_id ` set (mfa_devices s) \<Longrightarrow> mfa_step R E s s'"
| elsewhere: "flags_view s' = flags_view s \<Longrightarrow> mfa_step R E s s'"

lemma issue_tables:
  "users (fst (issue_recovery_codes E now draws uid ev s)) = users s" "mfa_devices (fst (issue_recovery_codes E now draws uid ev s)) = mfa_devices s"
proof -
  have "users (fold (add_recovery_code E now uid) cs t) = users t \<and> mfa_devices (fold (add_recovery_code E now uid) cs t) = mfa_devices t" for cs t
    by (induction cs arbitrary: t) (simp_all add: add_recovery_code_def)
  then show "users (fst (issue_recovery_codes E now draws uid ev s)) = users s" "mfa_devices (fst (issue_recovery_codes E now draws uid ev s)) = mfa_devices s"
    by (simp_all add: issue_recovery_codes_def invalidate_recovery_codes_def Let_def)
qed

lemma mfa_ok_step: "mfa_step R E s s' \<Longrightarrow> mfa_ok s \<Longrightarrow> mfa_ok s'"
proof (induction rule: mfa_step.induct)
  case (step_up s now uid code)
  have "flags_view (fst (verify_user_totp_step_up E now uid code s)) = flags_view s"
    using flags_claim [of E now code "step_up_devices s uid" s] by (auto simp: verify_user_totp_step_up_def split: prod.split)
  then show ?case using step_up mfa_ok_cong by blast
next
  case (issue_codes s now draws uid ev)
  then show ?case using mfa_ok_cong [OF flags_cong [OF issue_tables]] by blast
next
  case (challenge s now ja jr fid tok code ip meth)
  then show ?case using mfa_ok_cong [OF flags_challenge] by blast
next
  case (register s' s u)
  have "has_live s' = has_live s" using register(2) by (auto simp: has_live_def fun_eq_iff)
  moreover have "\<not> has_live s (u_id u)" using register(5) by (auto simp: has_live_def image_iff)
  ultimately show ?case using register by (auto simp: mfa_ok_def)
next
  case (elsewhere s' s)
  then show ?case using mfa_ok_cong by blast
next
  case (start s now secret uid em)
  then show ?case by (rule start_keeps)
next
  case (verify now uid i code s s' d)
  then show ?case using verify_keeps by blast
next
  case (remove now uid i s s')
  then show ?case using remove_keeps by blast
next
  case (reset now t a s s')
  then show ?case using reset_keeps by blast
qed

interpretation mfa: transition_invariant "mfa_step R E" mfa_ok
  by unfold_locales (rule mfa_ok_step)

lemma mfa_ok_empty: "mfa_ok empty_db"
  by (simp add: mfa_ok_def empty_db_def)

text \<open>
  C13. The flag and the devices agree. In every state that enrolling, verifying, removing,
  resetting, using second factors and registering users can reach, in any order,
  \<open>User.mfa_enabled\<close> is set exactly when the user has a verified device that is not disabled:
  whoever is asked for a one-time password can produce one, and whoever has a live device is
  asked.
\<close>

theorem mfa_enabled_iff_device:
  assumes "(mfa_step R E)\<^sup>*\<^sup>* empty_db s" "u \<in> set (users s)"
  shows "u_mfa_enabled u \<longleftrightarrow> challenge_devices s (u_id u) \<noteq> []"
proof -
  have "mfa_ok s" by (rule mfa.reachable [OF assms(1) mfa_ok_empty])
  then show ?thesis using assms(2) by (auto simp: mfa_ok_def has_live_def challenge_devices_def filter_empty_conv)
qed

theorem mfa_enabled_iff_device_witness:
  "\<not> u_mfa_enabled (sample_user 1 ''ada'') \<and> challenge_devices (empty_db\<lparr>users := [sample_user 1 ''ada'']\<rparr>) 1 = []"
proof -
  have "(mfa_step kv_redis (sample_env Map.empty))\<^sup>*\<^sup>* empty_db (empty_db\<lparr>users := [sample_user 1 ''ada'']\<rparr>)"
    by (intro r_into_rtranclp mfa_step.register [of _ _ "sample_user 1 ''ada''"]) (simp_all add: empty_db_def sample_user_def)
  from mfa_enabled_iff_device [OF this, of "sample_user 1 ''ada''"] show ?thesis by (simp add: sample_user_def)
qed

subsection \<open>Recovery codes\<close>

lemma fold_add_codes:
  assumes "distinct (map rc_id (mfa_recovery_codes s))"
  obtains rows where "mfa_recovery_codes (fold (add_recovery_code E now uid) cs s) = mfa_recovery_codes s @ rows"
    "map rc_code_hash rows = map (hash_recovery_code E) cs" "\<forall>r \<in> set rows. rc_user_id r = uid \<and> rc_used_at r = None"
    "distinct (map rc_id (mfa_recovery_codes s @ rows))"
  using assms
proof (induction cs arbitrary: s thesis)
  case Nil
  then show ?case by simp
next
  case (Cons c cs)
  let ?r = "\<lparr>rc_id = next_id rc_id (mfa_recovery_codes s), rc_user_id = uid, rc_code_hash = hash_recovery_code E c, rc_created_at = now, rc_used_at = None\<rparr>"
  let ?s = "add_recovery_code E now uid c s"
  have s: "mfa_recovery_codes ?s = mfa_recovery_codes s @ [?r]" by (simp add: add_recovery_code_def)
  then have "distinct (map rc_id (mfa_recovery_codes ?s))" using Cons.prems(2) next_id_notin [of rc_id "mfa_recovery_codes s"] by simp
  then obtain rows where "mfa_recovery_codes (fold (add_recovery_code E now uid) cs ?s) = mfa_recovery_codes ?s @ rows"
    "map rc_code_hash rows = map (hash_recovery_code E) cs" "\<forall>r \<in> set rows. rc_user_id r = uid \<and> rc_used_at r = None"
    "distinct (map rc_id (mfa_recovery_codes ?s @ rows))" using Cons.IH [of ?s] by blast
  then show ?case using Cons.prems(1) [of "?r # rows"] by (simp add: s)
qed

text \<open>The codes of a user after issuing: the old ones are used up, the new ones are open.\<close>

lemma issued_codes:
  assumes d: "distinct (map rc_id (mfa_recovery_codes s))" and i: "issue_recovery_codes E now draws uid ev s = (s', codes)"
  obtains old rows where "mfa_recovery_codes s' = old @ rows" "\<forall>r \<in> set old. \<not> (rc_user_id r = uid \<and> rc_used_at r = None)"
    "map rc_code_hash rows = map (hash_recovery_code E) codes" "\<forall>r \<in> set rows. rc_user_id r = uid \<and> rc_used_at r = None"
    "distinct (map rc_id (old @ rows))" "codes = map generate_one_recovery_code draws"
proof -
  let ?s1 = "fst (invalidate_recovery_codes now uid s)"
  have codes: "codes = map generate_one_recovery_code draws" and s': "mfa_recovery_codes s' = mfa_recovery_codes (fold (add_recovery_code E now uid) codes ?s1)"
    using i by (auto simp: issue_recovery_codes_def Let_def split_beta)
  have "map rc_id (mfa_recovery_codes ?s1) = map rc_id (mfa_recovery_codes s)" by (simp add: invalidate_recovery_codes_def map_update_where_same)
  then have "distinct (map rc_id (mfa_recovery_codes ?s1))" using d by simp
  from fold_add_codes [OF this] obtain rows where "mfa_recovery_codes s' = mfa_recovery_codes ?s1 @ rows"
    "map rc_code_hash rows = map (hash_recovery_code E) codes" "\<forall>r \<in> set rows. rc_user_id r = uid \<and> rc_used_at r = None"
    "distinct (map rc_id (mfa_recovery_codes ?s1 @ rows))" unfolding s' by metis
  moreover have "\<forall>r \<in> set (mfa_recovery_codes ?s1). \<not> (rc_user_id r = uid \<and> rc_used_at r = None)"
    using invalidate_none [of now uid s] by (simp only: recovery_codes_remaining_def query_count_0)
  ultimately show ?thesis using that codes by blast
qed

text \<open>The rows of a user whose open codes are exactly \<open>rows\<close>, and what consuming one of them does.\<close>

definition open_codes :: "env \<Rightarrow> int \<Rightarrow> string list \<Rightarrow> db \<Rightarrow> mfa_recovery_code list \<Rightarrow> bool" where
  "open_codes E uid codes s rows \<longleftrightarrow>
     filter (\<lambda>r. rc_user_id r = uid \<and> rc_used_at r = None) (mfa_recovery_codes s) = rows
   \<and> map rc_code_hash rows = map (hash_recovery_code E) codes
   \<and> distinct (map rc_code_hash rows) \<and> distinct (map rc_id (mfa_recovery_codes s))"

lemma open_codes_in: "open_codes E uid codes s rows \<Longrightarrow> r \<in> set rows \<longleftrightarrow> r \<in> set (mfa_recovery_codes s) \<and> rc_user_id r = uid \<and> rc_used_at r = None"
  by (auto simp: open_codes_def)

lemma open_codes_row: "open_codes E uid codes s rows \<Longrightarrow> x \<in> set codes \<Longrightarrow> \<exists>r \<in> set rows. rc_code_hash r = hash_recovery_code E x"
proof -
  assume o: "open_codes E uid codes s rows" and "x \<in> set codes"
  then have "hash_recovery_code E x \<in> set (map (hash_recovery_code E) codes)" by simp
  also have "map (hash_recovery_code E) codes = map rc_code_hash rows" using o by (simp add: open_codes_def)
  finally show "\<exists>r \<in> set rows. rc_code_hash r = hash_recovery_code E x" by auto
qed

lemma open_codes_issued:
  assumes d: "distinct (map rc_id (mfa_recovery_codes s))" and i: "issue_recovery_codes E now draws uid ev s = (s', codes)"
    and h: "distinct (map (hash_recovery_code E) codes)"
  obtains rows where "open_codes E uid codes s' rows" "length rows = length draws"
proof -
  from issued_codes [OF d i] obtain old rows where s': "mfa_recovery_codes s' = old @ rows" "\<forall>r \<in> set old. \<not> (rc_user_id r = uid \<and> rc_used_at r = None)"
    "map rc_code_hash rows = map (hash_recovery_code E) codes" "\<forall>r \<in> set rows. rc_user_id r = uid \<and> rc_used_at r = None"
    "distinct (map rc_id (old @ rows))" "codes = map generate_one_recovery_code draws" by blast
  have "filter (\<lambda>r. rc_user_id r = uid \<and> rc_used_at r = None) (old @ rows) = rows"
    using s'(2,4) by (simp add: filter_empty_conv filter_id_conv)
  moreover have "length rows = length draws" using arg_cong [OF s'(3), of length] s'(6) by simp
  ultimately show ?thesis using that [of rows] s' h by (simp add: open_codes_def)
qed

lemma open_codes_verify:
  assumes o: "open_codes E uid codes s rows" and r: "r \<in> set rows" "rc_code_hash r = hash_recovery_code E c" "c \<noteq> []"
  shows "verify_recovery_code E s uid c = Some r"
proof -
  let ?P = "\<lambda>r. rc_user_id r = uid \<and> rc_code_hash r = hash_recovery_code E c \<and> rc_used_at r = None"
  have "query_first ?P (mfa_recovery_codes s) \<noteq> None" using r open_codes_in [OF o] by (auto simp: image_iff)
  then obtain r' where r': "query_first ?P (mfa_recovery_codes s) = Some r'" by blast
  have "r' = r" using query_first_Some [OF r'] r open_codes_in [OF o, of r'] o distinct_keyD [of rc_code_hash rows r' r]
    by (auto simp: open_codes_def)
  then show ?thesis using r' r(3) by (simp add: verify_recovery_code_def)
qed

lemma open_codes_consume:
  assumes o: "open_codes E uid codes s rows" and r: "r \<in> set rows"
  obtains s' where "try_consume_recovery_code now (rc_id r) s = (s', True)"
    "filter (\<lambda>x. rc_user_id x = uid \<and> rc_used_at x = None) (mfa_recovery_codes s') = filter (\<lambda>x. x \<noteq> r) rows"
proof -
  let ?xs = "mfa_recovery_codes s" and ?sel = "\<lambda>x. rc_id x = rc_id r \<and> rc_used_at x = None" and ?f = "\<lambda>x. x\<lparr>rc_used_at := Some now\<rparr>"
  have dist: "distinct (map rc_id ?xs)" using o by (simp add: open_codes_def)
  have rin: "r \<in> set ?xs" "rc_used_at r = None" using r open_codes_in [OF o] by auto
  have one: "filter (\<lambda>x. rc_id x = rc_id r) ?xs = [r]" by (rule filter_key_unique [OF dist rin(1)])
  have sel: "filter ?sel ?xs = filter (\<lambda>x. rc_used_at x = None) (filter (\<lambda>x. rc_id x = rc_id r) ?xs)" by (simp add: conj_commute)
  have "try_consume_recovery_code now (rc_id r) s = (s\<lparr>mfa_recovery_codes := update_where ?sel ?f ?xs\<rparr>, True)"
    using sel one rin(2) by (simp add: try_consume_recovery_code_def)
  moreover have "filter (\<lambda>x. rc_user_id x = uid \<and> rc_used_at x = None) (update_where ?sel ?f ?xs) = filter (\<lambda>x. x \<noteq> r) rows"
  proof -
    have "filter (\<lambda>x. rc_user_id x = uid \<and> rc_used_at x = None) (update_where ?sel ?f ?xs)
      = filter (\<lambda>x. (rc_user_id x = uid \<and> rc_used_at x = None) \<and> \<not> ?sel x) ?xs" by (rule filter_update_where_drop) simp
    also have "\<dots> = filter (\<lambda>x. x \<noteq> r) (filter (\<lambda>x. rc_user_id x = uid \<and> rc_used_at x = None) ?xs)"
    unfolding filter_filter by (rule filter_cong [OF refl]) (use distinct_keyD [OF dist _ rin(1)] rin(2) in auto)
    also have "filter (\<lambda>x. rc_user_id x = uid \<and> rc_used_at x = None) ?xs = rows" using o by (simp add: open_codes_def)
    finally show ?thesis .
  qed
  ultimately show ?thesis using that [of "s\<lparr>mfa_recovery_codes := update_where ?sel ?f ?xs\<rparr>"] by simp
qed

lemma verify_recovery_filter:
  "verify_recovery_code E s uid c = (if c = [] then None else query_first (\<lambda>r. rc_code_hash r = hash_recovery_code E c)
     (filter (\<lambda>r. rc_user_id r = uid \<and> rc_used_at r = None) (mfa_recovery_codes s)))"
  by (simp add: verify_recovery_code_def query_first_filter conj_ac)

text \<open>
  C30. Recovery codes are replaced as a whole and work once. After issuing codes with
  pairwise different digests, exactly the new codes are open; each of them is accepted, and
  once it is consumed it is refused while every other new code is still accepted.
\<close>

theorem recovery_codes_work_once:
  assumes d: "distinct (map rc_id (mfa_recovery_codes s))" and i: "issue_recovery_codes E now draws uid ev s = (s', codes)"
    and h: "distinct (map (hash_recovery_code E) codes)" and c: "c \<in> set codes" "c \<noteq> []"
  shows "recovery_codes_remaining s' uid = int (length draws)
     \<and> (\<exists>r. verify_recovery_code E s' uid c = Some r
        \<and> (\<exists>s''. try_consume_recovery_code now' (rc_id r) s' = (s'', True) \<and> verify_recovery_code E s'' uid c = None
             \<and> recovery_codes_remaining s'' uid = int (length draws) - 1
             \<and> list_all (\<lambda>c'. c' = c \<or> c' = [] \<or> verify_recovery_code E s'' uid c' \<noteq> None) codes))"
proof -
  from open_codes_issued [OF d i h] obtain rows where o: "open_codes E uid codes s' rows" and len: "length rows = length draws" .
  from open_codes_row [OF o c(1)] obtain r where r: "r \<in> set rows" "rc_code_hash r = hash_recovery_code E c" by blast
  from open_codes_consume [OF o r(1)] obtain s'' where s'': "try_consume_recovery_code now' (rc_id r) s' = (s'', True)"
    "filter (\<lambda>x. rc_user_id x = uid \<and> rc_used_at x = None) (mfa_recovery_codes s'') = filter (\<lambda>x. x \<noteq> r) rows" by blast
  have hr: "distinct (map rc_code_hash rows)" using o unfolding open_codes_def by blast
  have "length (filter (\<lambda>x. x = r) rows) + length (filter (\<lambda>x. x \<noteq> r) rows) = length rows" by (rule sum_length_filter_compl)
  moreover have "filter (\<lambda>x. x = r) rows = [r]" using filter_key_unique [of id rows r] r(1) hr by (simp add: distinct_map)
  ultimately have "int (length (filter (\<lambda>x. x \<noteq> r) rows)) = int (length draws) - 1" using len by simp
  moreover have "verify_recovery_code E s'' uid c = None"
    using r hr by (auto simp: verify_recovery_filter s''(2) dest: distinct_keyD)
  moreover have "verify_recovery_code E s'' uid x \<noteq> None" if x: "x \<in> set codes" "x \<noteq> c" "x \<noteq> []" for x
  proof -
    obtain y where y: "y \<in> set rows" "rc_code_hash y = hash_recovery_code E x" using open_codes_row [OF o x(1)] by blast
    have "hash_recovery_code E x \<noteq> hash_recovery_code E c" using h x c(1) by (auto simp: distinct_map inj_on_def)
    then show ?thesis using x(3) y r(2) by (auto simp: verify_recovery_filter s''(2))
  qed
  ultimately show ?thesis using open_codes_verify [OF o r c(2)] s'' o len
    by (auto simp: list_all_iff recovery_codes_remaining_def query_count_def open_codes_def)
qed

theorem recovery_codes_work_once_witness:
  "\<exists>r s''. verify_recovery_code (sample_env Map.empty) (fst (issue_recovery_codes (sample_env Map.empty) 0 [replicate 12 3] 1 ''e'' empty_db)) 1 ''DDDD-DDDD-DDDD'' = Some r
     \<and> verify_recovery_code (sample_env Map.empty) s'' 1 ''DDDD-DDDD-DDDD'' = None"
proof -
  have c: "generate_one_recovery_code (replicate 12 3) = ''DDDD-DDDD-DDDD''"
    by (simp add: generate_one_recovery_code_def RECOVERY_CODE_ALPHABET_def eval_nat_numeral)
  obtain s' where i: "issue_recovery_codes (sample_env Map.empty) 0 [replicate 12 3] 1 ''e'' empty_db = (s', [''DDDD-DDDD-DDDD''])"
    using c by (auto simp: issue_recovery_codes_def Let_def split_beta)
  from recovery_codes_work_once [OF _ i, of "''DDDD-DDDD-DDDD''" 5] i show ?thesis by (auto simp: empty_db_def)
qed

subsection \<open>Policies\<close>

lemma policy_update:
  assumes "distinct (map mp_id (mfa_policies s))" "distinct (map mp_organization_id (mfa_policies s))" "p \<in> set (mfa_policies s)"
    and f: "\<And>x. mp_organization_id (f x) = mp_organization_id x"
  shows "query_first (\<lambda>x. mp_organization_id x = mp_organization_id p) (mfa_policies (set_policy (mp_id p) f s)) = Some (f p)"
proof -
  have "query_first (\<lambda>x. mp_organization_id x = mp_organization_id p) (mfa_policies s) = Some p"
    by (rule query_first_unique [OF assms(2,3) refl])
  then show ?thesis using f by (simp add: set_policy_def query_first_update_where)
qed

text \<open>
  Property. Policies are what logins are held to. A policy created for an organization demands
  a second factor from its members exactly if it was created as required; switching it,
  overriding it and clearing the override have the effect they name, and none of them touches
  the other attributes that decide.
\<close>

theorem policy_operations:
  assumes "distinct (map mp_id (mfa_policies s))" "distinct (map mp_organization_id (mfa_policies s))" "p \<in> set (mfa_policies s)"
  shows "org_requires_mfa (set_org_mfa_required E now p req actor reason s) (Some (mp_organization_id p)) = (req \<and> \<not> mp_override_active p)
     \<and> org_requires_mfa (set_org_mfa_override E now p why actor s) (Some (mp_organization_id p)) = False
     \<and> org_requires_mfa (clear_org_mfa_override E now p actor s) (Some (mp_organization_id p)) = mp_required p
     \<and> (\<forall>org s' p'. create_org_mfa_policy E now org req actor s = Inr (s', p') \<longrightarrow> org_requires_mfa s' (Some org) = req)"
proof -
  have r: "org_requires_mfa t (Some (mp_organization_id p)) = (mp_required q \<and> \<not> mp_override_active q)"
    if "query_first (\<lambda>x. mp_organization_id x = mp_organization_id p) (mfa_policies t) = Some q" for t q using that by (simp add: org_requires_mfa_def)
  note u = policy_update [OF assms]
  have c: "org_requires_mfa s' (Some org) = req" if "create_org_mfa_policy E now org req actor s = Inr (s', p')" for org s' p'
  proof -
    have n: "query_first (\<lambda>p. mp_organization_id p = org) (mfa_policies s) = None" using that by (auto simp: create_org_mfa_policy_def get_org_mfa_policy_def split: if_splits)
    show ?thesis using that n
      by (auto simp: create_org_mfa_policy_def get_org_mfa_policy_def org_requires_mfa_def query_first_append Let_def simp del: query_first_None split: if_splits)
  qed
  have a: "org_requires_mfa (set_org_mfa_required E now p req actor reason s) (Some (mp_organization_id p)) = (req \<and> \<not> mp_override_active p)"
    by (subst r [where q = "if req \<and> \<not> mp_required p then p\<lparr>mp_required := req, mp_updated_at := Some now, mp_enabled_at := Some now, mp_enabled_by_user_id := Some actor\<rparr>
          else p\<lparr>mp_required := req, mp_updated_at := Some now\<rparr>"]) (auto simp: set_org_mfa_required_def Let_def u)
  have b: "org_requires_mfa (set_org_mfa_override E now p why actor s) (Some (mp_organization_id p)) = False"
    by (subst r [OF]) (auto simp: set_org_mfa_override_def u)
  have d: "org_requires_mfa (clear_org_mfa_override E now p actor s) (Some (mp_organization_id p)) = mp_required p"
    by (subst r) (auto simp: clear_org_mfa_override_def Let_def u)
  show ?thesis using a b c d by blast
qed

definition sample_policy :: org_mfa_policy where
  "sample_policy = \<lparr>mp_id = 1, mp_organization_id = 9, mp_required = True, mp_created_at = 0, mp_updated_at = None, mp_enabled_at = Some 0,
     mp_enabled_by_user_id = Some 1, mp_override_active = True, mp_override_reason = Some ''drill'', mp_override_at = Some 0, mp_override_by_user_id = Some 2\<rparr>"

theorem policy_operations_witness:
  "org_requires_mfa (clear_org_mfa_override (sample_env Map.empty) 5 sample_policy 1 (empty_db\<lparr>mfa_policies := [sample_policy]\<rparr>)) (Some 9) = True"
  using policy_operations [of "empty_db\<lparr>mfa_policies := [sample_policy]\<rparr>" sample_policy] by (simp add: sample_policy_def)

end
