(* ===== verification/Rbac.thy ===== *)
theory Rbac
  imports Mfa_Invariant
begin

text \<open>
  \<open>app/rbac.py\<close> and \<open>app/api/deps.py\<close>: the dependencies that guard every route, which turn a
  bearer token into an identity and decide whether it may act. A dependency is a function of the
  token, the Redis state and the database; \<open>Depends\<close> is function application and an
  \<open>HTTPException\<close> is the left value.

  A membership a guard hands on is either a row of the table or the unsaved object built for a
  platform administrator, so it is a record of its own with the roles it carries.

  The theory shows exactly which tokens satisfy which guard: user guards need a token of an
  active account that was not revoked, service guards take service tokens only and the two
  never overlap; permissions inside an organization come from the current database and not from
  the token, except for the platform administrators' own.
\<close>

subsection \<open>Claims as Python values\<close>

text \<open>
  \<open>x in claims.get(k, [])\<close> and \<open>x in (claims.get(k) or [])\<close>: membership in a list, a key of a
  dict or a substring; anything else is a \<open>TypeError\<close>.
\<close>

fun py_in :: "string \<Rightarrow> json \<Rightarrow> exn + bool" where
  "py_in x (JList vs) = Inr (JStr x \<in> set vs)"
| "py_in x (JObj kvs) = Inr (x \<in> fst ` set kvs)"
| "py_in x (JStr s) = Inr (contains_text x s)"
| "py_in x _ = Inl TypeError"

definition claim_in :: "string \<Rightarrow> claims \<Rightarrow> string \<Rightarrow> exn + bool" where
  "claim_in x c k = (case map_of c k of None \<Rightarrow> Inr False | Some v \<Rightarrow> py_in x v)"

definition claim_in_or_empty :: "string \<Rightarrow> claims \<Rightarrow> string \<Rightarrow> exn + bool" where
  "claim_in_or_empty x c k = (let v = get_claim c k in if jtruthy v then py_in x v else Inr False)"

text \<open>\<open>int(claims["sub"])\<close>, on the decimal texts that \<open>str\<close> of an integer produces.\<close>

definition parse_int :: "string \<Rightarrow> int option" where
  "parse_int s =
     (case s of
        [] \<Rightarrow> None
      | c # ds \<Rightarrow>
          if c = CHR ''-'' then (let n = read_nat ds in if show_int (- int n) = s then Some (- int n) else None)
          else (let n = read_nat s in if show_int (int n) = s then Some (int n) else None))"

definition int_sub :: "claims \<Rightarrow> exn + int" where
  "int_sub c =
     (case map_of c ''sub'' of
        None \<Rightarrow> Inl (KeyError ''sub'')
      | Some (JInt i) \<Rightarrow> Inr i
      | Some (JStr s) \<Rightarrow> (case parse_int s of None \<Rightarrow> Inl (ValueError ''invalid literal for int() with base 10: {}'' [s]) | Some i \<Rightarrow> Inr i)
      | Some _ \<Rightarrow> Inl TypeError)"

lemma parse_show_int [simp]: "parse_int (show_int i) = Some i"
proof (cases "i < 0")
  case True
  then show ?thesis by (simp add: parse_int_def show_int_def Let_def)
next
  case False
  obtain c ds where s: "show_int i = c # ds" using False by (cases "show_int i") (auto simp: show_int_def)
  have "c \<noteq> CHR ''-''" using show_nat_no_minus [of ds "nat i"] s False by (auto simp: show_int_def)
  moreover have "read_nat (show_int i) = nat i" using False by (simp add: show_int_def)
  ultimately show ?thesis using False s by (simp add: parse_int_def Let_def)
qed

subsection \<open>User identities\<close>

text \<open>\<open>get_current_user\<close> of \<open>app/rbac.py\<close>.\<close>

definition get_current_user :: "'r redis \<Rightarrow> env \<Rightarrow> time \<Rightarrow> string \<Rightarrow> 'r \<Rightarrow> db \<Rightarrow> exn + claims" where
  "get_current_user R E now token r s =
     (case decode_token E now token of
        Inl _ \<Rightarrow> Inl (HTTPException 401 ''Invalid token'')
      | Inr payload \<Rightarrow>
          (case assert_token_usable R now payload r s of
             Some e \<Rightarrow> Inl e
           | None \<Rightarrow>
               if get_claim payload ''auth_method'' = JStr ''client_credentials''
                  \<or> get_claim payload ''type'' = JStr ''delegated_execution''
               then Inl (HTTPException 401 ''Invalid token'')
               else if get_claim payload ''type'' \<in> {JStr ''mfa_challenge'', JStr ''mfa_enrollment''}
               then Inl (HTTPException 401 ''Invalid token'')
               else Inr payload))"

text \<open>\<open>get_current_user\<close> of \<open>app/api/deps.py\<close>, which does not look at revocations.\<close>

definition deps_get_current_user :: "env \<Rightarrow> time \<Rightarrow> string \<Rightarrow> exn + claims" where
  "deps_get_current_user E now token =
     (case decode_token E now token of
        Inl _ \<Rightarrow> Inl (HTTPException 401 ''Invalid token'')
      | Inr payload \<Rightarrow>
          if get_claim payload ''type'' \<in> {JStr ''mfa_challenge'', JStr ''mfa_enrollment''}
          then Inl (HTTPException 401 ''Invalid token'')
          else Inr payload)"

definition require_claim :: "string \<Rightarrow> string \<Rightarrow> claims \<Rightarrow> exn + claims" where
  "require_claim x k user =
     (case claim_in x user k of
        Inl e \<Rightarrow> Inl e
      | Inr b \<Rightarrow> if b then Inr user else Inl (HTTPException 403 ''Forbidden''))"

definition require_role :: "'r redis \<Rightarrow> env \<Rightarrow> time \<Rightarrow> string \<Rightarrow> string \<Rightarrow> 'r \<Rightarrow> db \<Rightarrow> exn + claims" where
  "require_role R E now role token r s =
     (case get_current_user R E now token r s of Inl e \<Rightarrow> Inl e | Inr user \<Rightarrow> require_claim role ''roles'' user)"

definition require_permission :: "'r redis \<Rightarrow> env \<Rightarrow> time \<Rightarrow> string \<Rightarrow> string \<Rightarrow> 'r \<Rightarrow> db \<Rightarrow> exn + claims" where
  "require_permission R E now permission token r s =
     (case get_current_user R E now token r s of Inl e \<Rightarrow> Inl e | Inr user \<Rightarrow> require_claim permission ''permissions'' user)"

definition deps_require_permission :: "env \<Rightarrow> time \<Rightarrow> string \<Rightarrow> string \<Rightarrow> exn + claims" where
  "deps_require_permission E now permission token =
     (case deps_get_current_user E now token of Inl e \<Rightarrow> Inl e | Inr user \<Rightarrow> require_claim permission ''permissions'' user)"

text \<open>The enrollment guard: a user token, or an enrollment token with an open session.\<close>

definition get_mfa_enrollment_user :: "'r redis \<Rightarrow> env \<Rightarrow> time \<Rightarrow> string \<Rightarrow> 'r \<Rightarrow> db \<Rightarrow> exn + claims" where
  "get_mfa_enrollment_user R E now token r s =
     (case decode_token E now token of
        Inl _ \<Rightarrow> Inl (HTTPException 401 ''Invalid token'')
      | Inr payload \<Rightarrow>
          if get_claim payload ''type'' \<noteq> JStr ''mfa_enrollment'' then get_current_user R E now token r s
          else if get_claim payload ''purpose'' \<noteq> JStr ''totp_enrollment'' \<or> \<not> jtruthy (get_claim payload ''user_id'')
                  \<or> \<not> jtruthy (get_claim payload ''jti'')
          then Inl (HTTPException 401 ''Invalid token'')
          else (case (json_int (get_claim payload ''user_id''), json_str (get_claim payload ''jti'')) of
                  (Some uid, Some jti) \<Rightarrow>
                    (case (query_first (\<lambda>u. u_id u = uid \<and> u_status u = ''active'') (users s), get_active_session now s uid jti) of
                       (Some u, Some x) \<Rightarrow>
                         if u_mfa_enabled u then Inl (HTTPException 401 ''Invalid or expired enrollment token'')
                         else Inr [(''sub'', JStr (show_int (u_id u))), (''email'', JStr (u_email u)), (''mfa_enrollment_only'', JBool True),
                                   (''mfa_enrollment_jti'', JStr jti), (''mfa_enrollment_session_id'', JInt (es_id x))]
                     | _ \<Rightarrow> Inl (HTTPException 401 ''Invalid or expired enrollment token''))
                | _ \<Rightarrow> Inl (HTTPException 401 ''Invalid or expired enrollment token'')))"

subsection \<open>Permissions inside an organization\<close>

record acting_membership =
  am_row :: "int option"
  am_organization_id :: int
  am_user_id :: int
  am_status :: string
  am_roles :: "role list"

definition acting_row :: "db \<Rightarrow> org_membership \<Rightarrow> acting_membership" where
  "acting_row s m = \<lparr>am_row = Some (m_id m), am_organization_id = m_organization_id m, am_user_id = m_user_id m,
     am_status = m_status m, am_roles = roles_of_membership s m\<rparr>"

definition acting_permissions :: "db \<Rightarrow> acting_membership \<Rightarrow> string list" where
  "acting_permissions s a = permissions_for_roles s (am_roles a)"

definition get_org_membership :: "db \<Rightarrow> int \<Rightarrow> claims \<Rightarrow> exn + acting_membership" where
  "get_org_membership s org user =
     (case int_sub user of
        Inl e \<Rightarrow> Inl e
      | Inr uid \<Rightarrow>
          (case query_first (\<lambda>m. m_organization_id m = org \<and> m_user_id m = uid \<and> m_status m = ''active'') (memberships s) of
             None \<Rightarrow> Inl (HTTPException 404 ''Organization not found'')
           | Some m \<Rightarrow> Inr (acting_row s m)))"

definition MANAGE_ALL_ORGS :: string where
  "MANAGE_ALL_ORGS = ''manage_all_orgs''"

definition platform_admin_membership :: "db \<Rightarrow> int \<Rightarrow> claims \<Rightarrow> exn + acting_membership option" where
  "platform_admin_membership s org user =
     (if find_org s org = None then Inr None
      else case get_role_by_name s ''org_admin'' None of
        None \<Rightarrow> Inr None
      | Some admin_role \<Rightarrow>
          (case int_sub user of
             Inl e \<Rightarrow> Inl e
           | Inr uid \<Rightarrow> Inr (Some \<lparr>am_row = None, am_organization_id = org, am_user_id = uid, am_status = ''active'', am_roles = [admin_role]\<rparr>)))"

text \<open>\<open>except Exception: pass\<close>: an error of the administrator branch falls back to the membership.\<close>

definition get_org_membership_or_platform_admin :: "db \<Rightarrow> int \<Rightarrow> claims \<Rightarrow> exn + acting_membership" where
  "get_org_membership_or_platform_admin s org user =
     (let admin = (if get_claim user ''auth_method'' = JStr ''client_credentials'' then Inr None
                   else case claim_in_or_empty MANAGE_ALL_ORGS user ''permissions'' of
                     Inl e \<Rightarrow> Inl e
                   | Inr b \<Rightarrow> if b then platform_admin_membership s org user else Inr None)
      in case admin of Inr (Some a) \<Rightarrow> Inr a | _ \<Rightarrow> get_org_membership s org user)"

definition check_membership :: "db \<Rightarrow> string \<Rightarrow> exn + acting_membership \<Rightarrow> exn + acting_membership" where
  "check_membership s permission x =
     (case x of
        Inl e \<Rightarrow> Inl e
      | Inr m \<Rightarrow> if permission \<in> set (acting_permissions s m) then Inr m else Inl (HTTPException 403 ''Forbidden''))"

definition require_org_permission ::
  "'r redis \<Rightarrow> env \<Rightarrow> time \<Rightarrow> string \<Rightarrow> string \<Rightarrow> int \<Rightarrow> 'r \<Rightarrow> db \<Rightarrow> exn + acting_membership" where
  "require_org_permission R E now permission token org r s =
     (case get_current_user R E now token r s of
        Inl e \<Rightarrow> Inl e
      | Inr user \<Rightarrow> check_membership s permission (get_org_membership s org user))"

definition require_org_permission_or_platform_admin ::
  "'r redis \<Rightarrow> env \<Rightarrow> time \<Rightarrow> string \<Rightarrow> string \<Rightarrow> int \<Rightarrow> 'r \<Rightarrow> db \<Rightarrow> exn + acting_membership" where
  "require_org_permission_or_platform_admin R E now permission token org r s =
     (case get_current_user R E now token r s of
        Inl e \<Rightarrow> Inl e
      | Inr user \<Rightarrow> check_membership s permission (get_org_membership_or_platform_admin s org user))"

definition require_team_manage_permission ::
  "'r redis \<Rightarrow> env \<Rightarrow> time \<Rightarrow> string \<Rightarrow> string \<Rightarrow> int \<Rightarrow> int \<Rightarrow> 'r \<Rightarrow> db \<Rightarrow> exn + team" where
  "require_team_manage_permission R E now permission token org team_id r s =
     (case get_current_user R E now token r s of
        Inl e \<Rightarrow> Inl e
      | Inr user \<Rightarrow>
          (case get_org_membership_or_platform_admin s org user of
             Inl e \<Rightarrow> Inl e
           | Inr m \<Rightarrow>
               (case get_team s org team_id of
                  None \<Rightarrow> Inl (HTTPException 404 ''Team not found'')
                | Some t \<Rightarrow>
                    if permission \<in> set (acting_permissions s m) then Inr t
                    else (case int_sub user of
                            Inl e \<Rightarrow> Inl e
                          | Inr uid \<Rightarrow>
                              (case get_team_member s team_id uid of
                                 None \<Rightarrow> Inl (HTTPException 403 ''Forbidden'')
                               | Some tm \<Rightarrow> if tm_role tm \<noteq> ''admin'' then Inl (HTTPException 403 ''Forbidden'') else Inr t)))))"

subsection \<open>Service identities\<close>

definition require_service_scope :: "env \<Rightarrow> time \<Rightarrow> string \<Rightarrow> string \<Rightarrow> exn + claims" where
  "require_service_scope E now scope token =
     (case decode_token E now token of
        Inl _ \<Rightarrow> Inl (HTTPException 401 ''Invalid token'')
      | Inr payload \<Rightarrow>
          if get_claim payload ''auth_method'' \<noteq> JStr ''client_credentials''
          then Inl (HTTPException 403 ''Forbidden -- service token required'')
          else require_claim scope ''scopes'' payload)"

definition require_service_identity :: "env \<Rightarrow> time \<Rightarrow> string \<Rightarrow> exn + claims" where
  "require_service_identity E now token =
     (case decode_token E now token of
        Inl _ \<Rightarrow> Inl (HTTPException 401 ''Invalid token'')
      | Inr payload \<Rightarrow>
          if get_claim payload ''auth_method'' \<noteq> JStr ''client_credentials''
          then Inl (HTTPException 403 ''Forbidden -- service token required'')
          else Inr payload)"

text \<open>\<open>client.status == "active" and not (client.expires_at and client.expires_at < now)\<close>\<close>

definition client_live :: "time \<Rightarrow> oauth_client \<Rightarrow> bool" where
  "client_live now c \<longleftrightarrow> oc_status c = ''active'' \<and> (case oc_expires_at c of None \<Rightarrow> True | Some t \<Rightarrow> now \<le> t)"

definition find_client :: "db \<Rightarrow> json \<Rightarrow> oauth_client option" where
  "find_client s v = query_first (\<lambda>c. JStr (oc_client_id c) = v) (oauth_clients s)"

definition require_permission_or_service_scope ::
  "'r redis \<Rightarrow> env \<Rightarrow> time \<Rightarrow> string \<Rightarrow> string \<Rightarrow> string \<Rightarrow> 'r \<Rightarrow> db \<Rightarrow> exn + claims" where
  "require_permission_or_service_scope R E now permission scope token r s =
     (case decode_token E now token of
        Inl _ \<Rightarrow> Inl (HTTPException 401 ''Invalid token'')
      | Inr payload \<Rightarrow>
          if get_claim payload ''auth_method'' \<noteq> JStr ''client_credentials''
          then require_permission R E now permission token r s
          else (case assert_token_usable R now payload r s of
                  Some e \<Rightarrow> Inl e
                | None \<Rightarrow>
                    (case find_client s (get_claim payload ''client_id'') of
                       None \<Rightarrow> Inl (HTTPException 401 ''Invalid token'')
                     | Some c \<Rightarrow>
                         if \<not> client_live now c then Inl (HTTPException 401 ''Invalid token'')
                         else (case claim_in scope payload ''scopes'' of
                                 Inl e \<Rightarrow> Inl e
                               | Inr b \<Rightarrow> if \<not> b \<or> scope \<notin> set (oc_scopes c) then Inl (HTTPException 403 ''Forbidden'') else Inr payload))))"

subsection \<open>What the guards accept\<close>

lemma get_current_user_Inr:
  "get_current_user R E now token r s = Inr c \<longleftrightarrow>
     decode_token E now token = Inr c \<and> assert_token_usable R now c r s = None
     \<and> get_claim c ''auth_method'' \<noteq> JStr ''client_credentials''
     \<and> get_claim c ''type'' \<notin> {JStr ''delegated_execution'', JStr ''mfa_challenge'', JStr ''mfa_enrollment''}"
  by (auto simp: get_current_user_def split: sum.splits option.splits if_splits)

lemma usable_subject:
  assumes "assert_token_usable R now c r s = None" "get_claim c ''sub'' \<noteq> JNull"
  obtains u where "find_subject s (get_claim c ''sub'') = Some u" "u_status u = ''active''"
  using assms by (auto simp: assert_token_usable_def Let_def split: option.splits if_splits)

lemma subject_int:
  assumes "find_subject s (get_claim c ''sub'') = Some u"
  shows "u \<in> set (users s) \<and> int_sub c = Inr (u_id u)"
  using query_first_Some [OF assms [unfolded find_subject_def]]
  by (auto simp: sub_text_def int_sub_def get_claim_def split: option.splits json.splits)

lemma int_sub_present: "int_sub c = Inr uid \<Longrightarrow> get_claim c ''sub'' \<noteq> JNull"
  by (auto simp: int_sub_def get_claim_def split: option.splits json.splits)

definition active_account :: "db \<Rightarrow> int \<Rightarrow> bool" where
  "active_account s uid \<longleftrightarrow> (\<exists>u \<in> set (users s). u_id u = uid \<and> u_status u = ''active'')"

lemma int_sub_cases:
  assumes "get_current_user R E now token r s = Inr c"
  shows "(\<exists>uid. int_sub c = Inr uid \<and> active_account s uid) \<or> (\<exists>e. int_sub c = Inl e) \<and> get_claim c ''sub'' = JNull"
proof (cases "get_claim c ''sub'' = JNull")
  case True
  then show ?thesis by (auto simp: int_sub_def get_claim_def split: option.splits json.splits)
next
  case False
  with assms obtain u where "find_subject s (get_claim c ''sub'') = Some u" "u_status u = ''active''"
    by (auto simp: get_current_user_Inr elim: usable_subject)
  then show ?thesis using subject_int [of s c u] by (auto simp: active_account_def)
qed

text \<open>The platform administrator's branch, as a condition on the token and the database.\<close>

definition acts_as_platform_admin :: "db \<Rightarrow> int \<Rightarrow> claims \<Rightarrow> bool" where
  "acts_as_platform_admin s org c \<longleftrightarrow>
     claim_in_or_empty MANAGE_ALL_ORGS c ''permissions'' = Inr True \<and> org \<in> o_id ` set (organizations s)
     \<and> get_role_by_name s ''org_admin'' None \<noteq> None"

lemma find_org_None: "find_org s org = None \<longleftrightarrow> org \<notin> o_id ` set (organizations s)"
  by (auto simp: find_org_def)

lemma membership_or_admin:
  assumes "get_claim c ''auth_method'' \<noteq> JStr ''client_credentials''"
  shows "get_org_membership_or_platform_admin s org c =
     (case (acts_as_platform_admin s org c, int_sub c) of
        (True, Inr uid) \<Rightarrow> Inr \<lparr>am_row = None, am_organization_id = org, am_user_id = uid, am_status = ''active'',
                              am_roles = [the (get_role_by_name s ''org_admin'' None)]\<rparr>
      | _ \<Rightarrow> get_org_membership s org c)"
  using assms
  by (auto simp: get_org_membership_or_platform_admin_def acts_as_platform_admin_def platform_admin_membership_def find_org_None
      split: sum.splits option.splits if_splits bool.splits)

lemma get_org_membership_Inr:
  assumes "db_ok s"
  shows "get_org_membership s org c = Inr a \<longleftrightarrow>
     (\<exists>m \<in> set (memberships s). m_organization_id m = org \<and> int_sub c = Inr (m_user_id m) \<and> m_status m = ''active'' \<and> a = acting_row s m)"
    (is "?L = ?R")
proof
  assume ?L
  then show ?R by (auto simp: get_org_membership_def split: sum.splits option.splits dest!: query_first_Some)
next
  assume ?R
  then obtain m where m: "m \<in> set (memberships s)" "m_organization_id m = org" "int_sub c = Inr (m_user_id m)" "m_status m = ''active''"
    and a: "a = acting_row s m" by blast
  have d: "distinct (map (\<lambda>m. (m_organization_id m, m_user_id m)) (memberships s))" using assms by (simp add: db_ok_def)
  let ?P = "\<lambda>x. m_organization_id x = org \<and> m_user_id x = m_user_id m \<and> m_status x = ''active''"
  have "query_first ?P (memberships s) \<noteq> None" using m by (auto simp: image_iff)
  then obtain x where x: "query_first ?P (memberships s) = Some x" by blast
  then have "x = m" using query_first_Some [OF x] m distinct_keyD [OF d, of x m] by auto
  then show ?L using x m(3) a by (simp add: get_org_membership_def)
qed

lemma check_membership_Inr: "check_membership s p x = Inr a \<longleftrightarrow> x = Inr a \<and> p \<in> set (acting_permissions s a)"
  by (auto simp: check_membership_def split: sum.splits if_splits)

lemma acting_row_permissions [simp]: "acting_permissions s (acting_row s m) = permissions_for_membership s m"
  by (simp add: acting_permissions_def acting_row_def permissions_for_membership_def)

subsection \<open>Properties\<close>

text \<open>What the guard of the two enrolment routes makes of an enrolment token.\<close>

definition enrolment_identity :: "time \<Rightarrow> db \<Rightarrow> claims \<Rightarrow> claims \<Rightarrow> bool" where
  "enrolment_identity now s c user \<longleftrightarrow>
     (\<exists>u x jti. u \<in> set (users s) \<and> u_status u = ''active'' \<and> \<not> u_mfa_enabled u
        \<and> get_claim c ''user_id'' = JInt (u_id u) \<and> get_claim c ''jti'' = JStr jti \<and> get_claim c ''purpose'' = JStr ''totp_enrollment''
        \<and> get_active_session now s (u_id u) jti = Some x
        \<and> user = [(''sub'', JStr (show_int (u_id u))), (''email'', JStr (u_email u)), (''mfa_enrollment_only'', JBool True),
                  (''mfa_enrollment_jti'', JStr jti), (''mfa_enrollment_session_id'', JInt (es_id x))])"

lemma json_views:
  "json_int v = Some i \<longleftrightarrow> v = JInt i" "json_str v = Some t \<longleftrightarrow> v = JStr t"
  by (cases v; simp)+

lemma enrolment_guard_Inr:
  assumes "get_mfa_enrollment_user R E now token r s = Inr user" "decode_token E now token = Inr c"
  shows "if get_claim c ''type'' = JStr ''mfa_enrollment'' then enrolment_identity now s c user
    else get_current_user R E now token r s = Inr user"
proof (cases "get_claim c ''type'' = JStr ''mfa_enrollment''")
  case True
  then obtain uid jti u x where k: "json_int (get_claim c ''user_id'') = Some uid" "json_str (get_claim c ''jti'') = Some jti"
    "query_first (\<lambda>u. u_id u = uid \<and> u_status u = ''active'') (users s) = Some u" "get_active_session now s uid jti = Some x"
    "\<not> u_mfa_enabled u" "get_claim c ''purpose'' = JStr ''totp_enrollment''"
    "user = [(''sub'', JStr (show_int (u_id u))), (''email'', JStr (u_email u)), (''mfa_enrollment_only'', JBool True),
             (''mfa_enrollment_jti'', JStr jti), (''mfa_enrollment_session_id'', JInt (es_id x))]"
    using assms by (auto simp: get_mfa_enrollment_user_def split: option.splits if_splits)
  moreover have "u \<in> set (users s) \<and> u_id u = uid \<and> u_status u = ''active''" using query_first_Some [OF k(3)] by simp
  ultimately have "enrolment_identity now s c user" unfolding enrolment_identity_def json_views by blast
  then show ?thesis using True by simp
qed (use assms in \<open>simp add: get_mfa_enrollment_user_def\<close>)

text \<open>
  C10. Who may act in an organization. The guard of the organization routes lets a request
  through exactly if its token is a usable user token of an account that is active now, and one
  of two checks succeeds, the token deciding which. If the token carries the platform
  administrators' permission, the organization exists and the platform has its
  organization-administrator role, then this role has to carry the permission, and the caller
  acts with it; a membership of the caller's own is not looked at, so that a platform
  administrator is refused what only that membership would allow. In every other case the
  account has an active membership of this organization whose roles carry the permission in
  the database. The permissions of the token play no other part.
\<close>

theorem org_guard_spec:
  assumes ok: "db_ok s"
  shows "require_org_permission_or_platform_admin R E now p token org r s = Inr a \<longleftrightarrow>
     (\<exists>c. get_current_user R E now token r s = Inr c
        \<and> (\<exists>uid. int_sub c = Inr uid \<and> active_account s uid
           \<and> (if acts_as_platform_admin s org c
              then (\<exists>ar. get_role_by_name s ''org_admin'' None = Some ar \<and> p \<in> set (role_perms s ar)
                   \<and> a = \<lparr>am_row = None, am_organization_id = org, am_user_id = uid, am_status = ''active'', am_roles = [ar]\<rparr>)
              else (\<exists>m \<in> set (memberships s). m_organization_id m = org \<and> m_user_id m = uid \<and> m_status m = ''active''
                   \<and> p \<in> set (permissions_for_membership s m) \<and> a = acting_row s m))))"
proof (cases "get_current_user R E now token r s")
  case (Inl e)
  then show ?thesis by (simp add: require_org_permission_or_platform_admin_def)
next
  case (Inr c)
  have nc: "get_claim c ''auth_method'' \<noteq> JStr ''client_credentials''" using Inr by (simp add: get_current_user_Inr)
  have "require_org_permission_or_platform_admin R E now p token org r s = Inr a \<longleftrightarrow>
      get_org_membership_or_platform_admin s org c = Inr a \<and> p \<in> set (acting_permissions s a)"
    using Inr by (simp add: require_org_permission_or_platform_admin_def check_membership_Inr)
  also have "\<dots> \<longleftrightarrow> (\<exists>uid. int_sub c = Inr uid \<and> active_account s uid
           \<and> (if acts_as_platform_admin s org c
              then (\<exists>ar. get_role_by_name s ''org_admin'' None = Some ar \<and> p \<in> set (role_perms s ar)
                   \<and> a = \<lparr>am_row = None, am_organization_id = org, am_user_id = uid, am_status = ''active'', am_roles = [ar]\<rparr>)
              else (\<exists>m \<in> set (memberships s). m_organization_id m = org \<and> m_user_id m = uid \<and> m_status m = ''active''
                   \<and> p \<in> set (permissions_for_membership s m) \<and> a = acting_row s m)))"
  proof (rule disjE [OF int_sub_cases [OF Inr]])
    assume "\<exists>uid. int_sub c = Inr uid \<and> active_account s uid"
    then obtain uid where u: "int_sub c = Inr uid" "active_account s uid" by blast
    show ?thesis
    proof (cases "acts_as_platform_admin s org c")
      case True
      then obtain ar where ar: "get_role_by_name s ''org_admin'' None = Some ar" by (auto simp: acts_as_platform_admin_def)
      show ?thesis using True u ar
        by (auto simp: membership_or_admin [OF nc] acting_permissions_def permissions_for_roles_def)
    next
      case False
      then show ?thesis using u
        by (auto simp: membership_or_admin [OF nc] get_org_membership_Inr [OF ok] acting_row_permissions)
    qed
  next
    assume "(\<exists>e. int_sub c = Inl e) \<and> get_claim c ''sub'' = JNull"
    then show ?thesis
      by (auto simp: membership_or_admin [OF nc] get_org_membership_Inr [OF ok] split: bool.splits)
  qed
  finally show ?thesis using Inr by simp
qed

text \<open>A member with one role, the token of a session, and Redis without entries.\<close>

definition guard_db :: db where
  "guard_db = empty_db\<lparr>users := [sample_user 1 ''ada''],
     organizations := [\<lparr>o_id = 7, o_slug = ''lab'', o_name = ''Lab'', o_plan = ''beta'', o_status = ''active'', o_created_at = 0,
       o_created_by_user_id = Some 1, o_status_changed_at = None, o_status_changed_reason = None, o_status_changed_by_user_id = None\<rparr>],
     roles := [\<lparr>r_id = 3, r_name = ''scientist'', r_description = None, r_organization_id = None\<rparr>],
     permissions := [\<lparr>p_id = 2, p_name = ''runs.read''\<rparr>], role_permissions := [(3, 2)],
     memberships := [\<lparr>m_id = 5, m_organization_id = 7, m_user_id = 1, m_status = ''active'', m_invited_by_user_id = None, m_joined_at = 0\<rparr>],
     membership_roles := [(5, 3)]\<rparr>"

definition guard_claims :: claims where
  "guard_claims = [(''sub'', JStr ''1''), (''auth_method'', JStr ''password''), (''type'', JStr ''access''), (''jti'', JStr ''j'')]"

definition guard_env :: env where
  "guard_env = sample_env [''tok'' \<mapsto> guard_claims]"

lemma guard_user: "get_current_user kv_redis guard_env 0 ''tok'' (True, []) guard_db = Inr guard_claims"
  unfolding get_current_user_Inr
  by (simp add: decode_token_def decode_token_for_audience_def guard_env_def sample_env_def guard_claims_def assert_token_usable_def
      Let_def kv_redis_def live_entry_def kv_entry_def guard_db_def empty_db_def query_exists_def find_subject_def sub_text_def sample_user_def show_int_1)

lemma guard_sub: "int_sub guard_claims = Inr 1"
  using parse_show_int [of 1] by (simp add: int_sub_def guard_claims_def show_int_1)

theorem org_guard_spec_witness:
  "\<exists>a. require_org_permission_or_platform_admin kv_redis guard_env 0 ''runs.read'' ''tok'' 7 (True, []) guard_db = Inr a \<and> am_user_id a = 1"
proof -
  have "db_ok guard_db" by (simp add: db_ok_def guard_db_def empty_db_def)
  note spec = org_guard_spec [OF this, of kv_redis guard_env 0 "''runs.read''" "''tok''" 7 "(True, [])"]
  let ?m = "hd (memberships guard_db)"
  have "require_org_permission_or_platform_admin kv_redis guard_env 0 ''runs.read'' ''tok'' 7 (True, []) guard_db = Inr (acting_row guard_db ?m)"
  proof -
    have "\<not> acts_as_platform_admin guard_db 7 guard_claims"
      by (simp add: acts_as_platform_admin_def claim_in_or_empty_def guard_claims_def)
    moreover have "active_account guard_db 1" by (simp add: active_account_def guard_db_def sample_user_def)
    moreover have "?m \<in> set (memberships guard_db) \<and> m_organization_id ?m = 7 \<and> m_user_id ?m = 1 \<and> m_status ?m = ''active''
        \<and> ''runs.read'' \<in> set (permissions_for_membership guard_db ?m)"
      by (simp add: guard_db_def empty_db_def permissions_for_membership_def permissions_for_roles_def roles_of_membership_def role_perms_def)
    ultimately show ?thesis unfolding spec guard_user using guard_sub by auto
  qed
  then show ?thesis by (auto simp: acting_row_def guard_db_def)
qed

text \<open>
  C24. Users and services are told apart. A token of a service client never satisfies
  \<open>rbac.get_current_user\<close>, the guard of the user routes, and a user's token never satisfies the
  guard of a service route; the tokens of the unfinished login steps and of delegated executions
  do not satisfy \<open>rbac.get_current_user\<close> either, nor does any token of an account that is not
  active, whatever it claims. One guard, that of the two routes which set up an authenticator,
  takes an enrolment token as well: only with an open enrolment session of its account, which is
  active and has no authenticator yet, and the identity it yields carries the account and no
  roles or permissions; of any other token it admits what \<open>rbac.get_current_user\<close> does. The
  guard of the same name in \<open>deps.py\<close>, which no route uses, is weaker: it admits every genuine
  token but the two of the login steps, service and delegated tokens included.
\<close>

theorem identities_disjoint:
  assumes d: "decode_token E now token = Inr c"
  shows "(get_claim c ''auth_method'' = JStr ''client_credentials'' \<longrightarrow>
            (\<exists>e. get_current_user R E now token r s = Inl e) \<and> require_service_identity E now token = Inr c)
       \<and> (get_claim c ''auth_method'' \<noteq> JStr ''client_credentials'' \<longrightarrow>
            require_service_identity E now token = Inl (HTTPException 403 ''Forbidden -- service token required'')
            \<and> require_service_scope E now scope token = Inl (HTTPException 403 ''Forbidden -- service token required''))
       \<and> (get_claim c ''type'' \<in> {JStr ''delegated_execution'', JStr ''mfa_challenge'', JStr ''mfa_enrollment''} \<longrightarrow>
            (\<exists>e. get_current_user R E now token r s = Inl e))
       \<and> (get_claim c ''sub'' = JStr (show_int uid) \<and> \<not> active_account s uid \<longrightarrow>
            (\<exists>e. get_current_user R E now token r s = Inl e))
       \<and> (\<forall>user. get_mfa_enrollment_user R E now token r s = Inr user \<longrightarrow>
            (if get_claim c ''type'' = JStr ''mfa_enrollment''
             then enrolment_identity now s c user \<and> get_claim user ''permissions'' = JNull \<and> get_claim user ''roles'' = JNull
             else get_current_user R E now token r s = Inr user))
       \<and> (deps_get_current_user E now token = Inr c \<longleftrightarrow> get_claim c ''type'' \<notin> {JStr ''mfa_challenge'', JStr ''mfa_enrollment''})"
proof -
  have "\<exists>e. get_current_user R E now token r s = Inl e" if n: "get_claim c ''sub'' = JStr (show_int uid)" "\<not> active_account s uid"
  proof (cases "get_current_user R E now token r s")
    case (Inr c')
    then have "c' = c" "assert_token_usable R now c r s = None" using d by (auto simp: get_current_user_Inr)
    then obtain u where "find_subject s (get_claim c ''sub'') = Some u" "u_status u = ''active''" using n(1) by (auto elim: usable_subject)
    then have "active_account s uid"
      using query_first_Some [of _ "users s" u] n(1) by (auto simp: find_subject_def sub_text_def active_account_def)
    then show ?thesis using n(2) by simp
  qed simp
  moreover have "\<exists>e. get_current_user R E now token r s = Inl e"
    if "get_claim c ''auth_method'' = JStr ''client_credentials''
        \<or> get_claim c ''type'' \<in> {JStr ''delegated_execution'', JStr ''mfa_challenge'', JStr ''mfa_enrollment''}"
  proof (cases "get_current_user R E now token r s")
    case (Inr c')
    then have "c' = c" using d by (simp add: get_current_user_Inr)
    then show ?thesis using that Inr unfolding get_current_user_Inr by blast
  qed simp
  moreover have "get_claim user ''permissions'' = JNull \<and> get_claim user ''roles'' = JNull" if "enrolment_identity now s c user" for user
    using that by (auto simp: enrolment_identity_def)
  moreover note enrolment_guard_Inr [OF _ d, of R r s]
  ultimately show ?thesis using d
    by (auto simp: require_service_identity_def require_service_scope_def deps_get_current_user_def)
qed

theorem identities_disjoint_witness:
  "require_service_scope guard_env 0 ''identity.verify'' ''tok'' = Inl (HTTPException 403 ''Forbidden -- service token required'')
   \<and> (\<exists>e. get_current_user kv_redis guard_env 0 ''tok'' (True, []) empty_db = Inl e)"
proof -
  have "decode_token guard_env 0 ''tok'' = Inr guard_claims" using guard_user by (simp add: get_current_user_Inr)
  from identities_disjoint [OF this, of kv_redis "(True, [])" empty_db "''identity.verify''" 1] show ?thesis
    by (simp add: guard_claims_def active_account_def empty_db_def show_int_1)
qed

text \<open>
  Property. The guard that admits both kinds of identities. For a service token it is satisfied
  exactly if the token has not been revoked, its client exists, is active and has not expired,
  and the scope is among those of the token and still among those of the client; for any other
  token it is the user guard.
\<close>

theorem service_scope_spec:
  "require_permission_or_service_scope R E now permission scope token r s = Inr c \<longleftrightarrow>
     (if get_claim c ''auth_method'' = JStr ''client_credentials''
      then decode_token E now token = Inr c \<and> assert_token_usable R now c r s = None
         \<and> (\<exists>x. find_client s (get_claim c ''client_id'') = Some x \<and> client_live now x \<and> scope \<in> set (oc_scopes x))
         \<and> claim_in scope c ''scopes'' = Inr True
      else get_current_user R E now token r s = Inr c \<and> claim_in permission c ''permissions'' = Inr True)"
proof (cases "decode_token E now token")
  case (Inl e)
  then show ?thesis by (simp add: require_permission_or_service_scope_def get_current_user_Inr)
next
  case (Inr d)
  show ?thesis
  proof (cases "get_claim d ''auth_method'' = JStr ''client_credentials''")
    case True
    then show ?thesis using Inr
      by (auto simp: require_permission_or_service_scope_def get_current_user_Inr split: sum.splits option.splits if_splits)
  next
    case False
    then have "require_permission_or_service_scope R E now permission scope token r s = require_permission R E now permission token r s"
      using Inr by (simp add: require_permission_or_service_scope_def)
    moreover have "require_permission R E now permission token r s = Inr c
        \<longleftrightarrow> get_current_user R E now token r s = Inr c \<and> claim_in permission c ''permissions'' = Inr True"
      by (cases "get_current_user R E now token r s") (auto simp: require_permission_def require_claim_def split: sum.splits if_splits)
    ultimately show ?thesis using False Inr by (auto simp: get_current_user_Inr)
  qed
qed

lemma usable_cong:
  "users s' = users s \<Longrightarrow> revoked_tokens s' = revoked_tokens s \<Longrightarrow> assert_token_usable R now c r s' = assert_token_usable R now c r s"
  by (simp add: assert_token_usable_def find_subject_def Let_def)

lemma user_guard_cong:
  "users s' = users s \<Longrightarrow> revoked_tokens s' = revoked_tokens s \<Longrightarrow> get_current_user R E now token r s' = get_current_user R E now token r s"
  by (simp add: get_current_user_def usable_cong [of s' s] split: sum.split)

lemma revoked_tokens_end:
  "revoked_tokens (log_session_revoked E now u f x a s) = revoked_tokens s" "revoked_tokens (session_revoke now f x s) = revoked_tokens s"
  "revoked_tokens (end_session E now u f x a s) = revoked_tokens s" "users (end_session E now u f x a s) = users s"
  "revoked_tokens (set_token i g s) = revoked_tokens s" "users (set_token i g s) = users s"
  by (auto simp: end_session_def log_session_revoked_def log_event_def session_revoke_def revoke_family_def set_token_def set_session_def
      split: option.splits)

lemma revoked_tokens_fold_end:
  "revoked_tokens (fold (\<lambda>x. end_session E now u (f x) rs a) xs s) = revoked_tokens s \<and> users (fold (\<lambda>x. end_session E now u (f x) rs a) xs s) = users s"
  by (induction xs arbitrary: s) (simp_all add: revoked_tokens_end)

text \<open>
  C40. A refresh token is a bearer token that survives logging out. The claims a refresh
  token carries pass the guard of the user routes for as long as it has not expired (seven
  days), and neither logging out with it nor ending all sessions of its user changes the
  answer: both mark rows the guard does not look at.
\<close>

theorem refresh_token_is_bearer:
  assumes "decode_token E now token = Inr (signed_claims E (refresh_claims issued jti (build_user_claims s0 u (JStr auth_method) idp team m)))"
    and "auth_method \<noteq> ''client_credentials''" and "active_account s (u_id u)" and "distinct (map u_id (users s))"
    and "red_up R r" and "\<not> red_exists R now r (blacklist_key jti)" and "jti \<notin> rv_token_jti ` set (revoked_tokens s)"
  shows "\<exists>c. get_claim c ''type'' = JStr ''refresh''
     \<and> get_current_user R E now token r s = Inr c
     \<and> get_current_user R E now token r (revoke_token E t token s) = Inr c
     \<and> get_current_user R E now token r (fst (revoke_all_sessions_for_user E t (u_id u) reason actor s)) = Inr c"
proof -
  let ?b = "build_user_claims s0 u (JStr auth_method) idp team m"
  let ?c = "signed_claims E (refresh_claims issued jti ?b)"
  have b: "get_claim ?b ''sub'' = JStr (show_int (u_id u))" "get_claim ?b ''auth_method'' = JStr auth_method"
    by (simp_all add: build_user_claims_def Let_def split: prod.split)
  have c: "get_claim ?c ''sub'' = JStr (show_int (u_id u))" "get_claim ?c ''auth_method'' = JStr auth_method"
    "get_claim ?c ''type'' = JStr ''refresh''" "get_claim ?c ''jti'' = JStr jti"
    using b by (simp_all add: signed_claims_def get_setdefault refresh_claims_def stamp_def)
  obtain x where x: "x \<in> set (users s)" "u_id x = u_id u" "u_status x = ''active''" using assms(3) by (auto simp: active_account_def)
  have "find_subject s (JStr (show_int (u_id u))) = Some x"
    using query_first_unique [OF assms(4) x(1,2)] by (simp add: find_subject_def sub_text_def)
  then have "assert_token_usable R now ?c r s = None"
    using c x assms(5-7) by (auto simp: assert_token_usable_def Let_def query_exists_def)
  then have g: "get_current_user R E now token r s = Inr ?c" using c assms(1,2) by (simp add: get_current_user_Inr)
  have "users (revoke_token E t token s) = users s" "revoked_tokens (revoke_token E t token s) = revoked_tokens s"
    by (simp_all add: revoke_token_def revoked_tokens_end split: option.splits)
  moreover have "users (fst (revoke_all_sessions_for_user E t (u_id u) reason actor s)) = users s"
    "revoked_tokens (fst (revoke_all_sessions_for_user E t (u_id u) reason actor s)) = revoked_tokens s"
    by (simp_all add: revoke_all_sessions_for_user_def Let_def revoked_tokens_fold_end)
  ultimately have "get_current_user R E now token r (revoke_token E t token s) = Inr ?c"
    "get_current_user R E now token r (fst (revoke_all_sessions_for_user E t (u_id u) reason actor s)) = Inr ?c"
    using g user_guard_cong by metis+
  then show ?thesis using g c(3) by blast
qed

text \<open>An environment in which the text \<open>tok\<close> is a token of the service with the given claims.\<close>

definition token_env :: "claims \<Rightarrow> env" where
  "token_env c = sample_env [''tok'' \<mapsto> signed_claims (sample_env Map.empty) c]"

lemma token_env_decode:
  assumes "map_of c ''iss'' = None"
  shows "decode_token (token_env c) now ''tok'' = Inr (signed_claims (token_env c) c)"
proof -
  have s: "signed_claims (token_env c) c = signed_claims (sample_env Map.empty) c" by (simp add: signed_claims_def token_env_def sample_env_def)
  have "get_claim (signed_claims (sample_env Map.empty) c) ''iss'' = JStr (JWT_ISSUER default_settings)"
    using assms by (simp add: signed_claims_def get_setdefault sample_env_def)
  then show ?thesis unfolding s by (simp add: token_env_def decode_token_def decode_token_for_audience_def sample_env_def)
qed

theorem refresh_token_is_bearer_witness:
  "\<exists>E c. get_claim c ''type'' = JStr ''refresh'' \<and> get_current_user kv_redis E 0 ''tok'' (True, []) (revoke_token E 0 ''tok'' guard_db) = Inr c"
proof -
  let ?p = "refresh_claims 0 ''j'' (build_user_claims guard_db (sample_user 1 ''ada'') (JStr ''password'') JNull None None)"
  have "map_of ?p ''iss'' = None"
    by (simp add: refresh_claims_def stamp_def set_claim_def build_user_claims_def Let_def split: prod.split)
  note d = token_env_decode [OF this, of 0]
  have "active_account guard_db 1" "distinct (map u_id (users guard_db))" by (simp_all add: active_account_def guard_db_def sample_user_def)
  with refresh_token_is_bearer [OF d, of guard_db kv_redis "(True, [])" 0] show ?thesis
    by (force simp: sample_user_def kv_redis_def live_entry_def kv_entry_def guard_db_def empty_db_def)
qed

text \<open>
  Property. A state token is accepted as a user. The \<open>state\<close> parameter of the public OAuth login
  redirect is a signed token without subject; the user guard accepts it, since it rejects four
  kinds of tokens by name and skips the account check when there is no subject.
\<close>

theorem state_token_is_user:
  assumes "decode_token E now token = Inr (signed_claims E (oauth_state_claims issued jti provider verifier))"
    and "red_up R r" and "\<not> red_exists R now r (blacklist_key jti)" and "jti \<notin> rv_token_jti ` set (revoked_tokens s)"
  shows "get_current_user R E now token r s = Inr (signed_claims E (oauth_state_claims issued jti provider verifier))
     \<and> get_claim (signed_claims E (oauth_state_claims issued jti provider verifier)) ''sub'' = JNull"
proof -
  let ?c = "signed_claims E (oauth_state_claims issued jti provider verifier)"
  have c: "get_claim ?c ''sub'' = JNull" "get_claim ?c ''auth_method'' = JNull" "get_claim ?c ''type'' = JStr ''oauth_state''"
    by (simp_all add: signed_claims_def get_setdefault oauth_state_claims_def split: option.splits)
  have j: "json_str (get_claim ?c ''jti'') \<in> {None, Some jti}"
    by (simp add: signed_claims_def get_setdefault oauth_state_claims_def split: option.splits)
  then have "assert_token_usable R now ?c r s = None"
    using c(1) assms(2-4) by (auto simp: assert_token_usable_def Let_def query_exists_def)
  then show ?thesis using c assms(1) by (simp add: get_current_user_Inr)
qed

theorem state_token_is_user_witness:
  "\<exists>E c. get_current_user kv_redis E 0 ''tok'' (True, []) empty_db = Inr c \<and> get_claim c ''sub'' = JNull"
proof -
  let ?p = "oauth_state_claims 0 ''j'' ''google'' None"
  have "map_of ?p ''iss'' = None" by (simp add: oauth_state_claims_def)
  from state_token_is_user [OF token_env_decode [OF this, of 0], of kv_redis "(True, [])" empty_db] show ?thesis
    by (force simp: kv_redis_def live_entry_def kv_entry_def empty_db_def)
qed

end
