(* ===== verification/Credentials.thy ===== *)
theory Credentials
  imports Rbac
begin

text \<open>
  What API keys and service clients have in common: a table of credentials looked up by a key
  that only their holder can produce. An operation of the program may add credentials, revoke
  them or change what is shown of them, but it removes none, gives none a key that is taken,
  revives none and leaves alone what a credential stands for. The contract is a locale,
  interpreted on the two components; its lemmas say what a lookup finds after any operations.
\<close>

locale credential_store =
  fixes rows :: "db \<Rightarrow> 'c list" and key :: "'c \<Rightarrow> 'k" and identity :: "'c \<Rightarrow> 'i" and revoked :: "'c \<Rightarrow> bool"
    and step :: "db \<Rightarrow> db \<Rightarrow> bool"
  assumes kept: "step s s' \<Longrightarrow> c \<in> set (rows s) \<Longrightarrow>
      \<exists>c' \<in> set (rows s'). key c' = key c \<and> identity c' = identity c \<and> (revoked c \<longrightarrow> revoked c')"
    and unique: "step s s' \<Longrightarrow> distinct (map key (rows s)) \<Longrightarrow> distinct (map key (rows s'))"
begin

lemma kept_forever:
  assumes "step\<^sup>*\<^sup>* s s'" "c \<in> set (rows s)"
  shows "\<exists>c' \<in> set (rows s'). key c' = key c \<and> identity c' = identity c \<and> (revoked c \<longrightarrow> revoked c')"
  using assms(1)
proof (induction rule: rtranclp_induct)
  case base
  then show ?case using assms(2) by blast
next
  case (step t u)
  then show ?case using kept [OF step.hyps(2)] by metis
qed

lemma unique_forever: "step\<^sup>*\<^sup>* s s' \<Longrightarrow> distinct (map key (rows s)) \<Longrightarrow> distinct (map key (rows s'))"
  by (induction rule: rtranclp_induct) (auto intro: unique)

lemma lookup_later:
  assumes st: "step\<^sup>*\<^sup>* s s'" and d: "distinct (map key (rows s))" and c: "c \<in> set (rows s)" "key c = k"
  obtains c' where "query_first (\<lambda>c. key c = k) (rows s') = Some c'" "identity c' = identity c" "revoked c \<Longrightarrow> revoked c'"
proof -
  from kept_forever [OF st c(1)] obtain c' where c': "c' \<in> set (rows s')" "key c' = k" "identity c' = identity c" "revoked c \<longrightarrow> revoked c'"
    using c(2) by auto
  have "query_first (\<lambda>c. key c = k) (rows s') = Some c'" using query_first_unique [OF unique_forever [OF st d] c'(1,2)] .
  then show ?thesis using that c' by blast
qed

end

text \<open>
  The two shapes an operation has in practice: it appends one credential with an unused key, or
  rewrites some rows without touching what they stand for and without reviving one.
\<close>

locale credential_table =
  fixes rows :: "db \<Rightarrow> 'c list" and key :: "'c \<Rightarrow> 'k" and identity :: "'c \<Rightarrow> 'i" and revoked :: "'c \<Rightarrow> bool"
    and step :: "db \<Rightarrow> db \<Rightarrow> bool"
  assumes shape: "step s s' \<Longrightarrow>
      (\<exists>c. rows s' = rows s @ [c] \<and> key c \<notin> key ` set (rows s))
    \<or> (\<exists>P f. rows s' = update_where P f (rows s)
         \<and> (\<forall>c. key (f c) = key c \<and> identity (f c) = identity c \<and> (revoked c \<longrightarrow> revoked (f c))))"

sublocale credential_table \<subseteq> credential_store
proof unfold_locales
  fix s s' :: db and c assume st: "step s s'" and c: "c \<in> set (rows s)"
  from shape [OF st] show "\<exists>c' \<in> set (rows s'). key c' = key c \<and> identity c' = identity c \<and> (revoked c \<longrightarrow> revoked c')"
  proof (elim disjE exE conjE)
    fix P f assume "rows s' = update_where P f (rows s)"
      and "\<forall>c. key (f c) = key c \<and> identity (f c) = identity c \<and> (revoked c \<longrightarrow> revoked (f c))"
    then show ?thesis using in_update_whereI [OF c, of P f] by (intro bexI [of _ "if P c then f c else c"]) simp_all
  qed (use c in auto)
next
  fix s s' :: db assume st: "step s s'" and d: "distinct (map key (rows s))"
  from shape [OF st] show "distinct (map key (rows s'))"
    using d by (auto simp: map_update_where_same)
qed

end
