(* ===== verification/Api_Keys.thy ===== *)
theory Api_Keys
  imports Credentials
begin

text \<open>
  API keys: \<open>app/services/apikey_service.py\<close> and the routes of \<open>app/api/routes_apikeys.py\<close>.

  The forty characters \<open>secrets.choice\<close> draws for a key are given as indices into the
  alphabet. Whether an organization has an active billing plan is the answer of another service
  and an argument. An \<open>HTTPException\<close> made from a \<open>ValueError\<close> carries its message
  without the values put into it. The message published after a revocation and the response
  models are left out.

  The theory shows that a key can never do more than its creator could when it was created, and
  its token no more than the creator can when it is exchanged; that revoked and expired keys are
  refused for good; and that self-service keys are bounded in number and in scope.
\<close>

subsection \<open>Keys\<close>

definition ALPHABET :: string where
  "ALPHABET = ''abcdefghijklmnopqrstuvwxyzABCDEFGHIJKLMNOPQRSTUVWXYZ0123456789''"

definition LIVE_PREFIX :: string where
  "LIVE_PREFIX = ''omni_sk_live_''"

definition TEST_PREFIX :: string where
  "TEST_PREFIX = ''omni_sk_test_''"

definition key_prefix_of :: "bool \<Rightarrow> string" where
  "key_prefix_of test = (if test then TEST_PREFIX else LIVE_PREFIX)"

definition generate_key :: "bool \<Rightarrow> nat list \<Rightarrow> string" where
  "generate_key test draws = key_prefix_of test @ map (\<lambda>i. ALPHABET ! i) draws"

definition is_test_key :: "api_key \<Rightarrow> bool" where
  "is_test_key k \<longleftrightarrow> truthy (ak_key_prefix k) \<and> starts_with TEST_PREFIX (the (ak_key_prefix k))"

definition hash_key :: "env \<Rightarrow> string \<Rightarrow> string" where
  "hash_key E full_key = sha256_hex E full_key"

text \<open>A Python \<open>datetime\<close>: its clock reading and, when it is aware, its offset from UTC.\<close>

type_synonym py_datetime = "time \<times> time option"

definition normalize_expiry :: "py_datetime option \<Rightarrow> time option" where
  "normalize_expiry e = (case e of None \<Rightarrow> None | Some (t, None) \<Rightarrow> Some t | Some (t, Some offset) \<Rightarrow> Some (t - offset))"

definition list_api_keys :: "db \<Rightarrow> int \<Rightarrow> api_key list" where
  "list_api_keys s org = filter (\<lambda>k. ak_organization_id k = org) (api_keys s)"

definition get_api_key :: "db \<Rightarrow> int \<Rightarrow> int \<Rightarrow> api_key option" where
  "get_api_key s org key_id = query_first (\<lambda>k. ak_id k = key_id \<and> ak_organization_id k = org) (api_keys s)"

definition set_key :: "int \<Rightarrow> (api_key \<Rightarrow> api_key) \<Rightarrow> db \<Rightarrow> db" where
  "set_key i f s = s\<lparr>api_keys := update_where (\<lambda>k. ak_id k = i) f (api_keys s)\<rparr>"

definition jname :: "string option \<Rightarrow> json" where
  "jname n = jstr_opt n"

definition key_event :: "string \<Rightarrow> int option \<Rightarrow> api_key \<Rightarrow> audit_args" where
  "key_event et actor k = (audit et)\<lparr>a_actor := actor, a_org := Some (ak_organization_id k), a_rtype := Some ''api_key'',
     a_rid := Some (show_int (ak_id k))\<rparr>"

definition create_api_key ::
  "env \<Rightarrow> time \<Rightarrow> nat list \<Rightarrow> int \<Rightarrow> int \<Rightarrow> string \<Rightarrow> string list \<Rightarrow> string list \<Rightarrow> py_datetime option \<Rightarrow> bool \<Rightarrow> db \<Rightarrow> exn + db \<times> api_key \<times> string" where
  "create_api_key E now draws org creator name scopes caller_permissions expires_at test s =
     (let invalid_scopes = filter (\<lambda>x. x \<notin> set caller_permissions) scopes;
          expires = normalize_expiry expires_at;
          full_key = generate_key test draws;
          k = \<lparr>ak_id = next_id ak_id (api_keys s), ak_organization_id = org, ak_created_by_user_id = creator, ak_name = Some name,
               ak_key_prefix = Some (take (length (key_prefix_of test) + 4) full_key), ak_key_hash = Some (hash_key E full_key),
               ak_scopes = scopes, ak_status = ''active'', ak_expires_at = expires, ak_last_used_at = None, ak_created_at = now,
               ak_revoked_at = None, ak_revoked_reason = None\<rparr>
      in if invalid_scopes \<noteq> [] then Inl (ValueError ''Cannot grant scopes you don't hold: {}'' (sorted_set invalid_scopes))
         else if (case expires of None \<Rightarrow> False | Some t \<Rightarrow> t \<le> now) then Inl (ValueError ''expires_at must be in the future'' [])
         else if query_exists (\<lambda>x. ak_key_hash x = ak_key_hash k) (api_keys s) then Inl (IntegrityError ''api_keys.key_hash'')
         else Inr (log_event E now ((key_event ''api_key_created'' (Some creator) k)
                     \<lparr>a_after := JObj [(''name'', JStr name), (''scopes'', jstrs scopes), (''status'', JStr ''active'')],
                      a_meta := JObj [(''api_key_name'', JStr name), (''scopes'', jstrs scopes)]\<rparr>)
                     (s\<lparr>api_keys := api_keys s @ [k]\<rparr>), k, full_key))"

definition revoke_api_key :: "env \<Rightarrow> time \<Rightarrow> api_key \<Rightarrow> string option \<Rightarrow> int option \<Rightarrow> db \<Rightarrow> db" where
  "revoke_api_key E now k reason actor s =
     log_event E now ((key_event ''api_key_revoked'' actor k)
       \<lparr>a_before := JObj [(''status'', JStr ''active'')], a_after := JObj [(''status'', JStr ''revoked'')],
        a_meta := JObj [(''api_key_name'', jname (ak_name k)), (''scopes'', jstrs (ak_scopes k)), (''reason'', jstr_opt reason)]\<rparr>)
       (set_key (ak_id k) (\<lambda>x. x\<lparr>ak_status := ''revoked'', ak_revoked_at := Some now, ak_revoked_reason := reason\<rparr>) s)"

definition rename_api_key :: "env \<Rightarrow> time \<Rightarrow> api_key \<Rightarrow> string \<Rightarrow> int option \<Rightarrow> db \<Rightarrow> exn + db" where
  "rename_api_key E now k new_name actor s =
     (if new_name = [] \<or> str_strip new_name = [] then Inl (ValueError ''name must not be empty'' [])
      else Inr (log_event E now ((key_event ''api_key_renamed'' actor k)
             \<lparr>a_before := JObj [(''name'', jname (ak_name k))], a_after := JObj [(''name'', JStr new_name)],
              a_meta := JObj [(''old_name'', jname (ak_name k)), (''new_name'', JStr new_name)]\<rparr>)
             (set_key (ak_id k) (\<lambda>x. x\<lparr>ak_name := Some new_name\<rparr>) s)))"

definition key_expired :: "time \<Rightarrow> api_key \<Rightarrow> bool" where
  "key_expired now k = (case ak_expires_at k of None \<Rightarrow> False | Some t \<Rightarrow> t < now)"

definition verify_api_key :: "env \<Rightarrow> time \<Rightarrow> db \<Rightarrow> string \<Rightarrow> api_key option" where
  "verify_api_key E now s full_key =
     (case query_first (\<lambda>k. ak_key_hash k = Some (hash_key E full_key)) (api_keys s) of
        None \<Rightarrow> None
      | Some k \<Rightarrow> if ak_status k \<noteq> ''active'' \<or> key_expired now k then None else Some k)"

subsection \<open>Exchanging a key for a token\<close>

definition LAST_USED_WRITE_INTERVAL :: time where
  "LAST_USED_WRITE_INTERVAL = seconds 60"

definition key_claims :: "env \<Rightarrow> time \<Rightarrow> string \<Rightarrow> user \<Rightarrow> api_key \<Rightarrow> string list \<Rightarrow> claims" where
  "key_claims E now jti u k perms =
     [(''sub'', JStr (show_int (u_id u))), (''email'', JStr (u_email u)), (''roles'', JList []), (''permissions'', jstrs perms),
      (''org_id'', JInt (ak_organization_id k)), (''org_role'', JList []), (''team_id'', JNull), (''team_role'', JNull),
      (''auth_method'', JStr ''api_key''), (''api_key_id'', JInt (ak_id k)), (''idp_org_id'', JNull), (''token_version'', JInt 2),
      (''mfa_verified'', JBool False), (''exp'', jdate (now + seconds (API_KEY_TOKEN_EXPIRE_MINUTES (cfg E) * 60))),
      (''type'', JStr ''access''), (''jti'', JStr jti)]"

record key_exchange =
  kx_access_token :: string
  kx_expires_in :: int
  kx_api_key_id :: int
  kx_organization_id :: int
  kx_user_id :: int
  kx_permissions :: "string list"
  kx_test_mode :: bool

text \<open>\<open>(x.status or "active") == "active"\<close>\<close>

definition status_active :: "string \<Rightarrow> bool" where
  "status_active st \<longleftrightarrow> st = [] \<or> st = ''active''"

definition exchange_api_key :: "env \<Rightarrow> time \<Rightarrow> string \<Rightarrow> string \<Rightarrow> db \<Rightarrow> db \<times> key_exchange option" where
  "exchange_api_key E now jti full_key s =
     (if full_key = [] \<or> \<not> starts_with ''omni_sk_'' full_key then (s, None)
      else case verify_api_key E now s full_key of
        None \<Rightarrow> (s, None)
      | Some k \<Rightarrow>
          (case find_user s (ak_created_by_user_id k) of
             None \<Rightarrow> (s, None)
           | Some u \<Rightarrow>
               if \<not> status_active (u_status u) then (s, None)
               else case get_membership s (ak_organization_id k) (u_id u) of
                 None \<Rightarrow> (s, None)
               | Some m \<Rightarrow>
                   if \<not> status_active (m_status m) then (s, None)
                   else let perms = sorted_set (filter (\<lambda>x. x \<in> set (permissions_for_membership s m)) (ak_scopes k));
                            expires_in = API_KEY_TOKEN_EXPIRE_MINUTES (cfg E) * 60;
                            token = sign E (key_claims E now jti u k perms);
                            stale = (case ak_last_used_at k of None \<Rightarrow> True | Some t \<Rightarrow> LAST_USED_WRITE_INTERVAL \<le> now - t);
                            s' = (if stale then set_key (ak_id k) (\<lambda>x. x\<lparr>ak_last_used_at := Some now\<rparr>) s else s)
                        in (s', Some \<lparr>kx_access_token = token, kx_expires_in = expires_in, kx_api_key_id = ak_id k,
                              kx_organization_id = ak_organization_id k, kx_user_id = u_id u, kx_permissions = perms,
                              kx_test_mode = is_test_key k\<rparr>)))"

subsection \<open>The routes of an organization's administrators\<close>

definition MANAGE_API_KEYS :: string where
  "MANAGE_API_KEYS = ''manage_api_keys''"

text \<open>\<open>except ValueError as e: raise HTTPException(400, str(e))\<close>\<close>

definition as_400 :: "exn \<Rightarrow> exn" where
  "as_400 e = (case e of ValueError text _ \<Rightarrow> HTTPException 400 text | _ \<Rightarrow> e)"

record api_key_create =
  kc_name :: string
  kc_scopes :: "string list"
  kc_expires_at :: "py_datetime option"
  kc_test :: bool

definition org_create_api_key ::
  "'r redis \<Rightarrow> env \<Rightarrow> time \<Rightarrow> nat list \<Rightarrow> string \<Rightarrow> int \<Rightarrow> api_key_create \<Rightarrow> 'r \<Rightarrow> db \<Rightarrow> exn + db \<times> api_key \<times> string" where
  "org_create_api_key R E now draws token org body r s =
     (case require_org_permission_or_platform_admin R E now MANAGE_API_KEYS token org r s of
        Inl e \<Rightarrow> Inl e
      | Inr m \<Rightarrow>
          (case create_api_key E now draws org (am_user_id m) (kc_name body) (kc_scopes body) (acting_permissions s m)
                  (kc_expires_at body) (kc_test body) s of
             Inl e \<Rightarrow> Inl (as_400 e)
           | Inr x \<Rightarrow> Inr x))"

definition org_list_api_keys :: "'r redis \<Rightarrow> env \<Rightarrow> time \<Rightarrow> string \<Rightarrow> int \<Rightarrow> 'r \<Rightarrow> db \<Rightarrow> exn + api_key list" where
  "org_list_api_keys R E now token org r s =
     (case require_org_permission_or_platform_admin R E now MANAGE_API_KEYS token org r s of
        Inl e \<Rightarrow> Inl e | Inr m \<Rightarrow> Inr (list_api_keys s org))"

definition org_rename_api_key :: "'r redis \<Rightarrow> env \<Rightarrow> time \<Rightarrow> string \<Rightarrow> int \<Rightarrow> int \<Rightarrow> string \<Rightarrow> 'r \<Rightarrow> db \<Rightarrow> exn + db" where
  "org_rename_api_key R E now token org key_id name r s =
     (case require_org_permission_or_platform_admin R E now MANAGE_API_KEYS token org r s of
        Inl e \<Rightarrow> Inl e
      | Inr m \<Rightarrow>
          (case get_api_key s org key_id of
             None \<Rightarrow> Inl (HTTPException 404 ''API key not found'')
           | Some k \<Rightarrow> (case rename_api_key E now k name (Some (am_user_id m)) s of Inl e \<Rightarrow> Inl (as_400 e) | Inr s' \<Rightarrow> Inr s')))"

definition org_revoke_api_key :: "'r redis \<Rightarrow> env \<Rightarrow> time \<Rightarrow> string \<Rightarrow> int \<Rightarrow> int \<Rightarrow> 'r \<Rightarrow> db \<Rightarrow> exn + db" where
  "org_revoke_api_key R E now token org key_id r s =
     (case require_org_permission_or_platform_admin R E now MANAGE_API_KEYS token org r s of
        Inl e \<Rightarrow> Inl e
      | Inr m \<Rightarrow>
          (case get_api_key s org key_id of
             None \<Rightarrow> Inl (HTTPException 404 ''API key not found'')
           | Some k \<Rightarrow> Inr (revoke_api_key E now k None (Some (am_user_id m)) s)))"

definition exchange_route :: "env \<Rightarrow> time \<Rightarrow> string \<Rightarrow> string \<Rightarrow> string \<Rightarrow> db \<Rightarrow> db \<times> (exn + key_exchange)" where
  "exchange_route E now jti secret api_key s =
     (if API_KEY_EXCHANGE_SECRET (cfg E) = [] then (s, Inl (HTTPException 503 ''API key exchange is not configured''))
      else if secret \<noteq> API_KEY_EXCHANGE_SECRET (cfg E) then (s, Inl (HTTPException 403 ''Forbidden''))
      else case exchange_api_key E now jti api_key s of
        (s', None) \<Rightarrow> (s', Inl (HTTPException 401 ''Invalid API key''))
      | (s', Some x) \<Rightarrow> (s', Inr x))"

subsection \<open>Self-service\<close>

definition MAX_ACTIVE_KEYS_PER_USER :: int where
  "MAX_ACTIVE_KEYS_PER_USER = 10"

definition PUBLIC_SCOPE_TO_PERMISSION :: "(string \<times> string) list" where
  "PUBLIC_SCOPE_TO_PERMISSION = [(''literature:read'', ''dataset.read''), (''usage:read'', ''usage.read'')]"

definition to_public_scopes :: "string list \<Rightarrow> string list" where
  "to_public_scopes xs =
     map (\<lambda>x. case map_of (map prod.swap PUBLIC_SCOPE_TO_PERMISSION) x of None \<Rightarrow> x | Some y \<Rightarrow> y) xs"

definition self_service_membership :: "db \<Rightarrow> claims \<Rightarrow> exn + org_membership" where
  "self_service_membership s user =
     (if get_claim user ''auth_method'' = JStr ''api_key'' then Inl (HTTPException 403 ''API keys cannot manage API keys'')
      else if get_claim user ''org_id'' = JNull then Inl (HTTPException 400 ''Your session is not in an organization'')
      else case int_sub user of
        Inl e \<Rightarrow> Inl e
      | Inr uid \<Rightarrow>
          (case query_first (\<lambda>m. JInt (m_organization_id m) = get_claim user ''org_id'' \<and> m_user_id m = uid) (memberships s) of
             None \<Rightarrow> Inl (HTTPException 403 ''Not an active member of this organization'')
           | Some m \<Rightarrow> if status_active (m_status m) then Inr m else Inl (HTTPException 403 ''Not an active member of this organization'')))"

definition own_key :: "org_membership \<Rightarrow> api_key \<Rightarrow> bool" where
  "own_key m k \<longleftrightarrow> ak_organization_id k = m_organization_id m \<and> ak_created_by_user_id k = m_user_id m"

definition own_keys :: "db \<Rightarrow> org_membership \<Rightarrow> api_key list" where
  "own_keys s m = rev (sort_key ak_id (filter (own_key m) (api_keys s)))"

definition with_membership :: "'r redis \<Rightarrow> env \<Rightarrow> time \<Rightarrow> string \<Rightarrow> 'r \<Rightarrow> db \<Rightarrow> exn + org_membership" where
  "with_membership R E now token r s =
     (case get_current_user R E now token r s of Inl e \<Rightarrow> Inl e | Inr user \<Rightarrow> self_service_membership s user)"

definition list_my_api_keys :: "'r redis \<Rightarrow> env \<Rightarrow> time \<Rightarrow> string \<Rightarrow> 'r \<Rightarrow> db \<Rightarrow> exn + api_key list" where
  "list_my_api_keys R E now token r s =
     (case with_membership R E now token r s of Inl e \<Rightarrow> Inl e | Inr m \<Rightarrow> Inr (own_keys s m))"

definition active_keys :: "db \<Rightarrow> org_membership \<Rightarrow> int" where
  "active_keys s m = query_count (\<lambda>k. ak_status k = ''active'') (own_keys s m)"

definition create_my_api_key ::
  "'r redis \<Rightarrow> env \<Rightarrow> time \<Rightarrow> nat list \<Rightarrow> (int \<Rightarrow> bool) \<Rightarrow> string \<Rightarrow> api_key_create \<Rightarrow> 'r \<Rightarrow> db \<Rightarrow> exn + db \<times> api_key \<times> string" where
  "create_my_api_key R E now draws has_active_plan token body r s =
     (case with_membership R E now token r s of
        Inl e \<Rightarrow> Inl e
      | Inr m \<Rightarrow>
          if MAX_ACTIVE_KEYS_PER_USER \<le> active_keys s m then Inl (HTTPException 409 ''At most 10 active keys; revoke one first'')
          else if \<not> has_active_plan (m_organization_id m) then Inl (HTTPException 402 ''Your organization has no active billing plan.'')
          else let public_scopes = (if kc_scopes body = [] then [''literature:read''] else kc_scopes body)
               in if \<exists>x \<in> set public_scopes. map_of PUBLIC_SCOPE_TO_PERMISSION x = None then Inl (HTTPException 400 ''Unknown scope(s): {}'')
                  else (case create_api_key E now draws (m_organization_id m) (m_user_id m) (kc_name body)
                               (map (\<lambda>x. the (map_of PUBLIC_SCOPE_TO_PERMISSION x)) public_scopes)
                               (permissions_for_membership s m) (kc_expires_at body) (kc_test body) s of
                          Inl e \<Rightarrow> Inl (as_400 e)
                        | Inr x \<Rightarrow> Inr x))"

definition rename_my_api_key :: "'r redis \<Rightarrow> env \<Rightarrow> time \<Rightarrow> string \<Rightarrow> int \<Rightarrow> string \<Rightarrow> 'r \<Rightarrow> db \<Rightarrow> exn + db" where
  "rename_my_api_key R E now token key_id name r s =
     (case with_membership R E now token r s of
        Inl e \<Rightarrow> Inl e
      | Inr m \<Rightarrow>
          (case query_first (\<lambda>k. ak_id k = key_id) (own_keys s m) of
             None \<Rightarrow> Inl (HTTPException 404 ''API key not found'')
           | Some k \<Rightarrow> (case rename_api_key E now k name (Some (m_user_id m)) s of Inl e \<Rightarrow> Inl (as_400 e) | Inr s' \<Rightarrow> Inr s')))"

definition revoke_my_api_key :: "'r redis \<Rightarrow> env \<Rightarrow> time \<Rightarrow> string \<Rightarrow> int \<Rightarrow> 'r \<Rightarrow> db \<Rightarrow> exn + db" where
  "revoke_my_api_key R E now token key_id r s =
     (case with_membership R E now token r s of
        Inl e \<Rightarrow> Inl e
      | Inr m \<Rightarrow>
          (case query_first (\<lambda>k. ak_id k = key_id) (own_keys s m) of
             None \<Rightarrow> Inl (HTTPException 404 ''API key not found'')
           | Some k \<Rightarrow> Inr (if ak_status k \<noteq> ''revoked'' then revoke_api_key E now k None (Some (m_user_id m)) s else s)))"

subsection \<open>What the operations do to the table\<close>

inductive key_step :: "env \<Rightarrow> db \<Rightarrow> db \<Rightarrow> bool" for E :: env where
  create: "create_api_key E now draws org creator name scopes perms e test s = Inr (s', k, full) \<Longrightarrow> key_step E s s'"
| revoke: "key_step E s (revoke_api_key E now k reason actor s)"
| rename: "rename_api_key E now k name actor s = Inr s' \<Longrightarrow> key_step E s s'"
| exchange: "key_step E s (fst (exchange_api_key E now jti full s))"
| elsewhere: "api_keys s' = api_keys s \<Longrightarrow> key_step E s s'"

lemma set_key_keys [simp]: "api_keys (set_key i f s) = update_where (\<lambda>k. ak_id k = i) f (api_keys s)"
  by (simp add: set_key_def)

lemma log_keys [simp]: "api_keys (log_event E now a s) = api_keys s"
  by (simp add: log_event_def)

lemma create_api_key_Inr:
  assumes "create_api_key E now draws org creator name scopes perms e test s = Inr (s', k, full)"
  shows "api_keys s' = api_keys s @ [k]" "set scopes \<subseteq> set perms" "ak_key_hash k = Some (hash_key E full)"
    "ak_key_hash k \<notin> ak_key_hash ` set (api_keys s)" "ak_id k \<notin> ak_id ` set (api_keys s)" "ak_scopes k = scopes" "ak_status k = ''active''"
    "ak_organization_id k = org" "ak_created_by_user_id k = creator" "full = generate_key test draws"
    "memberships s' = memberships s" "users s' = users s" "\<not> key_expired now k"
  using assms next_id_notin [of ak_id "api_keys s"]
  by (auto simp: create_api_key_def Let_def log_event_def query_exists_def filter_empty_conv key_expired_def split: if_splits option.splits)

lemma created_key_found:
  assumes "create_api_key E now draws org creator name scopes perms e test s = Inr (s', k, full)"
  shows "query_first (\<lambda>x. ak_key_hash x = Some (hash_key E full)) (api_keys s') = Some k"
  using query_first_None [of "\<lambda>x. ak_key_hash x = Some (hash_key E full)" "api_keys s"] create_api_key_Inr(1,3,4) [OF assms]
  by (force simp: query_first_append simp del: query_first_None)

lemma exchange_state:
  "fst (exchange_api_key E now jti full s) = s \<or> (\<exists>i. fst (exchange_api_key E now jti full s) = set_key i (\<lambda>x. x\<lparr>ak_last_used_at := Some now\<rparr>) s)"
proof (cases "\<exists>k u m. full \<noteq> [] \<and> starts_with ''omni_sk_'' full \<and> verify_api_key E now s full = Some k \<and> find_user s (ak_created_by_user_id k) = Some u
    \<and> status_active (u_status u) \<and> get_membership s (ak_organization_id k) (u_id u) = Some m \<and> status_active (m_status m)")
  case True
  then obtain k u m where g: "full \<noteq> []" "starts_with ''omni_sk_'' full" "verify_api_key E now s full = Some k" "find_user s (ak_created_by_user_id k) = Some u"
    "status_active (u_status u)" "get_membership s (ak_organization_id k) (u_id u) = Some m" "status_active (m_status m)" by blast
  have "fst (exchange_api_key E now jti full s) =
      (if (case ak_last_used_at k of None \<Rightarrow> True | Some t \<Rightarrow> LAST_USED_WRITE_INTERVAL \<le> now - t)
       then set_key (ak_id k) (\<lambda>x. x\<lparr>ak_last_used_at := Some now\<rparr>) s else s)"
    using g by (simp add: exchange_api_key_def Let_def)
  then have "fst (exchange_api_key E now jti full s) = s \<or> fst (exchange_api_key E now jti full s) = set_key (ak_id k) (\<lambda>x. x\<lparr>ak_last_used_at := Some now\<rparr>) s"
    by (simp only: split: if_split) simp
  then show ?thesis by blast
next
  case False
  then have "fst (exchange_api_key E now jti full s) = s" by (auto simp: exchange_api_key_def split: option.split)
  then show ?thesis ..
qed

lemma exchange_keys:
  "\<exists>i f. api_keys (fst (exchange_api_key E now jti full s)) = update_where (\<lambda>k. ak_id k = i) f (api_keys s)
     \<and> (\<forall>k. ak_key_hash (f k) = ak_key_hash k \<and> ak_scopes (f k) = ak_scopes k \<and> ak_organization_id (f k) = ak_organization_id k
          \<and> ak_created_by_user_id (f k) = ak_created_by_user_id k \<and> ak_status (f k) = ak_status k \<and> ak_id (f k) = ak_id k)"
proof (cases "fst (exchange_api_key E now jti full s) = s")
  case True
  have "update_where (\<lambda>k. ak_id k = 0) (\<lambda>k. k) (api_keys s) = api_keys s" by (simp add: update_where_def)
  then show ?thesis using True by (intro exI [of _ 0] exI [of _ "\<lambda>k. k"]) simp
next
  case False
  then obtain i where "fst (exchange_api_key E now jti full s) = set_key i (\<lambda>x. x\<lparr>ak_last_used_at := Some now\<rparr>) s"
    using exchange_state [of E now jti full s] by blast
  then have "api_keys (fst (exchange_api_key E now jti full s)) = update_where (\<lambda>x. ak_id x = i) (\<lambda>x. x\<lparr>ak_last_used_at := Some now\<rparr>) (api_keys s)"
    by simp
  then show ?thesis by (intro exI [of _ i] exI [of _ "\<lambda>x. x\<lparr>ak_last_used_at := Some now\<rparr>"]) simp
qed

text \<open>What a key stands for: where it acts, for whom and with which scopes.\<close>

definition stands_for :: "api_key \<Rightarrow> int \<times> int \<times> int \<times> string list" where
  "stands_for k = (ak_id k, ak_organization_id k, ak_created_by_user_id k, ak_scopes k)"

interpretation keys: credential_table api_keys ak_key_hash stands_for "\<lambda>k. ak_status k = ''revoked''" "key_step E" for E
proof unfold_locales
  fix s s' :: db assume "key_step E s s'"
  then show "(\<exists>k. api_keys s' = api_keys s @ [k] \<and> ak_key_hash k \<notin> ak_key_hash ` set (api_keys s))
     \<or> (\<exists>P f. api_keys s' = update_where P f (api_keys s)
          \<and> (\<forall>k. ak_key_hash (f k) = ak_key_hash k \<and> stands_for (f k) = stands_for k \<and> (ak_status k = ''revoked'' \<longrightarrow> ak_status (f k) = ''revoked'')))"
  proof (cases rule: key_step.cases)
    case (create now draws org creator name scopes perms e test k full)
    then show ?thesis using create_api_key_Inr(1) [OF create] create_api_key_Inr(4) [OF create] by blast
  next
    case (revoke now k reason actor)
    then show ?thesis
      by (intro disjI2 exI [of _ "\<lambda>x. ak_id x = ak_id k"] exI [of _ "\<lambda>x. x\<lparr>ak_status := ''revoked'', ak_revoked_at := Some now, ak_revoked_reason := reason\<rparr>"])
        (simp add: revoke_api_key_def stands_for_def)
  next
    case (rename now k name actor)
    then show ?thesis
      by (intro disjI2 exI [of _ "\<lambda>x. ak_id x = ak_id k"] exI [of _ "\<lambda>x. x\<lparr>ak_name := Some name\<rparr>"])
        (auto simp: rename_api_key_def stands_for_def split: if_splits)
  next
    case (exchange now jti full)
    obtain i f where "api_keys s' = update_where (\<lambda>k. ak_id k = i) f (api_keys s)"
      "\<forall>k. ak_key_hash (f k) = ak_key_hash k \<and> ak_scopes (f k) = ak_scopes k \<and> ak_organization_id (f k) = ak_organization_id k
         \<and> ak_created_by_user_id (f k) = ak_created_by_user_id k \<and> ak_status (f k) = ak_status k \<and> ak_id (f k) = ak_id k"
      using exchange_keys [of E now jti full s] exchange by blast
    then show ?thesis by (intro disjI2 exI [of _ "\<lambda>k. ak_id k = i"] exI [of _ f]) (simp add: stands_for_def)
  next
    case elsewhere
    then show ?thesis by (intro disjI2 exI [of _ "\<lambda>x. False"] exI [of _ "\<lambda>x. x"]) (simp add: update_where_def)
  qed
qed

lemma verify_Some: "verify_api_key E now s full = Some k \<longleftrightarrow>
   query_first (\<lambda>k. ak_key_hash k = Some (hash_key E full)) (api_keys s) = Some k \<and> ak_status k = ''active'' \<and> \<not> key_expired now k"
  by (auto simp: verify_api_key_def split: option.splits dest: query_first_Some)

lemma exchange_Some:
  assumes "exchange_api_key E now jti full s = (s', Some x)"
  obtains k u m where "verify_api_key E now s full = Some k" "find_user s (ak_created_by_user_id k) = Some u" "status_active (u_status u)"
    "get_membership s (ak_organization_id k) (u_id u) = Some m" "status_active (m_status m)"
    "kx_permissions x = sorted_set (filter (\<lambda>x. x \<in> set (permissions_for_membership s m)) (ak_scopes k))"
    "kx_access_token x = sign E (key_claims E now jti u k (kx_permissions x))" "kx_user_id x = u_id u" "kx_organization_id x = ak_organization_id k"
    "kx_api_key_id x = ak_id k"
  using assms by (auto simp: exchange_api_key_def Let_def split: if_splits option.splits)

text \<open>
  An administrator of the platform may create a key for an organization it is not a member of,
  but the exchange looks for a membership of the key's creator, so the key opens nothing.
\<close>

lemma platform_admin_key_unusable:
  assumes c: "org_create_api_key R E now draws token org body r s = Inr (s', k, full)"
    and m: "get_membership s org (ak_created_by_user_id k) = None"
  shows "exchange_api_key E later jti full s' = (s', None)"
proof -
  from c obtain a where "create_api_key E now draws org (am_user_id a) (kc_name body) (kc_scopes body) (acting_permissions s a)
      (kc_expires_at body) (kc_test body) s = Inr (s', k, full)" by (auto simp: org_create_api_key_def split: sum.splits)
  note cr = create_api_key_Inr [OF this] and created_key_found [OF this]
  then have k: "verify_api_key E later s' full \<in> {None, Some k}" by (simp add: verify_api_key_def)
  have "get_membership s' (ak_organization_id k) (u_id u) = None" if "find_user s' (ak_created_by_user_id k) = Some u" for u
    using m cr(8,9,11) find_user_Some [OF that] by (simp add: get_membership_def)
  then show ?thesis using k by (auto simp: exchange_api_key_def split: option.split)
qed

subsection \<open>Properties\<close>

text \<open>
  C19. A key never exceeds its creator. Whatever happens to the table after a key was
  created, a token obtained with it acts for its creator in its organization, and carries only
  permissions that the caller held at the creation and that the creator's membership of the
  organization carries at the moment of the exchange; the creator's account and membership are
  active at that moment. The signed claims say the same: their subject is the creator, their
  organization the key's and their permissions these; they carry no roles.
\<close>

theorem key_never_exceeds_creator:
  assumes d: "distinct (map ak_key_hash (api_keys s))"
    and c: "create_api_key E now draws org creator name scopes caller_permissions e test s = Inr (s1, k, full)"
    and st: "(key_step E)\<^sup>*\<^sup>* s1 s2" and x: "exchange_api_key E later jti full s2 = (s3, Some x)"
  shows "kx_user_id x = creator \<and> kx_organization_id x = org
     \<and> (\<exists>u m k'. find_user s2 creator = Some u \<and> status_active (u_status u)
          \<and> get_membership s2 org creator = Some m \<and> status_active (m_status m)
          \<and> set (kx_permissions x) \<subseteq> set caller_permissions \<inter> set (permissions_for_membership s2 m)
          \<and> k' \<in> set (api_keys s2) \<and> ak_id k' = ak_id k \<and> ak_organization_id k' = org \<and> ak_created_by_user_id k' = creator
          \<and> kx_api_key_id x = ak_id k
          \<and> (let signed = key_claims E later jti u k' (kx_permissions x)
              in kx_access_token x = sign E signed \<and> get_claim signed ''sub'' = JStr (show_int creator)
               \<and> get_claim signed ''org_id'' = JInt org \<and> get_claim signed ''permissions'' = jstrs (kx_permissions x)
               \<and> get_claim signed ''roles'' = JList [] \<and> get_claim signed ''org_role'' = JList []))"
proof -
  note cr = create_api_key_Inr [OF c]
  have "distinct (map ak_key_hash (api_keys s1))" using d cr(1,4) by simp
  from keys.lookup_later [OF st this _ cr(3)] cr(1) obtain k' where
    k': "query_first (\<lambda>c. ak_key_hash c = Some (hash_key E full)) (api_keys s2) = Some k'" "stands_for k' = stands_for k" by auto
  from x obtain k2 u m where v: "verify_api_key E later s2 full = Some k2" "find_user s2 (ak_created_by_user_id k2) = Some u" "status_active (u_status u)"
    "get_membership s2 (ak_organization_id k2) (u_id u) = Some m" "status_active (m_status m)"
    "kx_permissions x = sorted_set (filter (\<lambda>x. x \<in> set (permissions_for_membership s2 m)) (ak_scopes k2))"
    "kx_access_token x = sign E (key_claims E later jti u k2 (kx_permissions x))" "kx_user_id x = u_id u" "kx_organization_id x = ak_organization_id k2"
    "kx_api_key_id x = ak_id k2"
    by (rule exchange_Some)
  have "k2 = k'" using v(1) k'(1) by (simp add: verify_Some)
  then have k2: "ak_organization_id k2 = org" "ak_created_by_user_id k2 = creator" "ak_scopes k2 = scopes" "ak_id k2 = ak_id k"
    using k'(2) cr(6,8,9) by (auto simp: stands_for_def)
  have "u_id u = creator" using find_user_Some [OF v(2)] k2 by simp
  moreover have "k2 \<in> set (api_keys s2)" using v(1) by (auto simp: verify_Some dest: query_first_Some)
  ultimately show ?thesis using v k2 cr(2)
    by (intro conjI exI [of _ u] exI [of _ m] exI [of _ k2]) (auto simp: Let_def key_claims_def)
qed

text \<open>The member of \<open>guard_db\<close> with a key for one of the two permissions it asks for.\<close>

lemma sample_key:
  obtains s1 k full where "create_api_key guard_env 0 [] 7 1 ''ci'' [''runs.read''] [''runs.read'', ''runs.write''] None False guard_db = Inr (s1, k, full)"
    "full = ''omni_sk_live_''" "exchange_api_key guard_env 0 ''x'' full s1 \<noteq> (fst (exchange_api_key guard_env 0 ''x'' full s1), None)"
proof -
  let ?c = "create_api_key guard_env 0 [] 7 1 ''ci'' [''runs.read''] [''runs.read'', ''runs.write''] None False guard_db"
  obtain s1 k full where c: "?c = Inr (s1, k, full)"
    by (simp add: create_api_key_def Let_def normalize_expiry_def query_exists_def guard_db_def empty_db_def)
  note cr = create_api_key_Inr [OF c]
  have full: "full = ''omni_sk_live_''" using cr(10) by (simp add: generate_key_def key_prefix_of_def LIVE_PREFIX_def)
  have v: "verify_api_key guard_env 0 s1 full = Some k"
    using cr(1,3,7,13) by (simp add: verify_Some guard_db_def empty_db_def)
  have "find_user s1 (ak_created_by_user_id k) = Some (sample_user 1 ''ada'')" using cr(9,12) by (simp add: find_user_def guard_db_def sample_user_def)
  moreover have "get_membership s1 (ak_organization_id k) 1 = Some (hd (memberships guard_db))" using cr(8,11) by (simp add: get_membership_def guard_db_def)
  ultimately have "snd (exchange_api_key guard_env 0 ''x'' full s1) \<noteq> None"
    using v full by (simp add: exchange_api_key_def starts_with_def status_active_def Let_def sample_user_def) (simp add: guard_db_def)
  then have "exchange_api_key guard_env 0 ''x'' full s1 \<noteq> (fst (exchange_api_key guard_env 0 ''x'' full s1), None)" by (metis snd_conv)
  then show ?thesis using that [OF c full] by simp
qed

theorem key_never_exceeds_creator_witness:
  "\<exists>s1 s3 x. exchange_api_key guard_env 0 ''x'' ''omni_sk_live_'' s1 = (s3, Some x) \<and> kx_user_id x = 1 \<and> kx_organization_id x = 7
     \<and> set (kx_permissions x) \<subseteq> {''runs.read'', ''runs.write''}"
proof -
  obtain s1 k full where c: "create_api_key guard_env 0 [] 7 1 ''ci'' [''runs.read''] [''runs.read'', ''runs.write''] None False guard_db = Inr (s1, k, full)"
    and full: "full = ''omni_sk_live_''" and x: "exchange_api_key guard_env 0 ''x'' full s1 \<noteq> (fst (exchange_api_key guard_env 0 ''x'' full s1), None)"
    by (rule sample_key)
  then obtain s3 x where x: "exchange_api_key guard_env 0 ''x'' full s1 = (s3, Some x)"
    by (cases "exchange_api_key guard_env 0 ''x'' full s1"; cases "snd (exchange_api_key guard_env 0 ''x'' full s1)") auto
  have "distinct (map ak_key_hash (api_keys guard_db))" by (simp add: guard_db_def empty_db_def)
  from key_never_exceeds_creator [OF this c rtranclp.rtrancl_refl x] show ?thesis using x full by auto
qed

text \<open>
  C20. A revoked key is dead. Once a key has been revoked, no sequence of operations makes
  it verify again or exchanges it for a token, at any later time.
\<close>

theorem revoked_key_refused:
  assumes d: "distinct (map ak_key_hash (api_keys s))" and k: "k \<in> set (api_keys s)" "ak_key_hash k = Some (hash_key E full)"
    and st: "(key_step E)\<^sup>*\<^sup>* (revoke_api_key E now k reason actor s) s'"
  shows "verify_api_key E later s' full = None \<and> exchange_api_key E later jti full s' = (s', None)"
proof -
  let ?s = "revoke_api_key E now k reason actor s" and ?k = "k\<lparr>ak_status := ''revoked'', ak_revoked_at := Some now, ak_revoked_reason := reason\<rparr>"
  have "key_step E s ?s" by (rule key_step.revoke)
  then have "distinct (map ak_key_hash (api_keys ?s))" using d by (rule keys.unique)
  moreover have "?k \<in> set (api_keys ?s)" using in_update_whereI [OF k(1), of "\<lambda>x. ak_id x = ak_id k"] by (simp add: revoke_api_key_def)
  ultimately obtain c where "query_first (\<lambda>c. ak_key_hash c = Some (hash_key E full)) (api_keys s') = Some c" "ak_status c = ''revoked''"
    using keys.lookup_later [OF st, of ?k "Some (hash_key E full)"] k(2) by auto
  then have "verify_api_key E later s' full = None" by (simp add: verify_api_key_def)
  then show ?thesis by (simp add: exchange_api_key_def)
qed

theorem revoked_key_refused_witness:
  "\<exists>s1 k. exchange_api_key guard_env 5 ''y'' ''omni_sk_live_'' (revoke_api_key guard_env 1 k None (Some 1) s1)
     = (revoke_api_key guard_env 1 k None (Some 1) s1, None)"
proof -
  obtain s1 k full where c: "create_api_key guard_env 0 [] 7 1 ''ci'' [''runs.read''] [''runs.read'', ''runs.write''] None False guard_db = Inr (s1, k, full)"
    and full: "full = ''omni_sk_live_''" by (rule sample_key)
  note cr = create_api_key_Inr [OF c]
  have "distinct (map ak_key_hash (api_keys s1))" "k \<in> set (api_keys s1)" using cr(1) by (simp_all add: guard_db_def empty_db_def)
  from revoked_key_refused [OF this cr(3) rtranclp.rtrancl_refl, where now = 1 and reason = None and actor = "Some 1" and later = 5 and jti = "''y''"] show ?thesis using full by blast
qed

text \<open>
  Property. Creating a key and using it. A key that was created is found again by its text and
  verifies, with the same row, until its expiry and no longer; its scopes are permissions the
  caller holds; and its text is forty characters behind the prefix of its kind.
\<close>

theorem api_key_round_trip:
  assumes c: "create_api_key E now draws org creator name scopes caller_permissions e test s = Inr (s', k, full)"
  shows "verify_api_key E later s' full = (if key_expired later k then None else Some k)
     \<and> verify_api_key E now s' full = Some k \<and> set (ak_scopes k) \<subseteq> set caller_permissions
     \<and> length full = 13 + length draws \<and> is_test_key k = test"
proof -
  note cr = create_api_key_Inr [OF c]
  note q = created_key_found [OF c]
  have "ak_key_prefix k = Some (take (length (key_prefix_of test) + 4) full)"
    using c by (auto simp: create_api_key_def Let_def split: if_splits)
  then have "is_test_key k = test" using cr(10)
    by (cases test) (auto simp: is_test_key_def generate_key_def key_prefix_of_def TEST_PREFIX_def LIVE_PREFIX_def starts_with_def)
  then show ?thesis using q cr(2,6,7,10,13)
    by (auto simp: verify_api_key_def generate_key_def key_prefix_of_def TEST_PREFIX_def LIVE_PREFIX_def)
qed

theorem api_key_round_trip_witness:
  "\<exists>s1 k. verify_api_key guard_env 0 s1 ''omni_sk_live_'' = Some k \<and> \<not> is_test_key k"
proof -
  obtain s1 k full where c: "create_api_key guard_env 0 [] 7 1 ''ci'' [''runs.read''] [''runs.read'', ''runs.write''] None False guard_db = Inr (s1, k, full)"
    and full: "full = ''omni_sk_live_''" by (rule sample_key)
  from api_key_round_trip [OF c, of 0] show ?thesis using full by auto
qed

lemma own_keys_count: "active_keys s m = query_count (\<lambda>k. own_key m k \<and> ak_status k = ''active'') (api_keys s)"
  by (simp add: active_keys_def query_count_def own_keys_def filter_sort conj_commute flip: rev_filter)

text \<open>
  Property. Self-service keys are bounded. A member creates a key for itself only with a token
  that is not itself from an API key, only with an active billing plan, and only as long as it
  then has at most ten active keys in the organization; the key belongs to the member and
  carries at most the two public scopes, and it is shown with the scopes that were asked for.
\<close>

theorem self_service_bounded:
  assumes c: "create_my_api_key R E now draws has_active_plan token body r s = Inr (s', k, full)"
  shows "\<exists>user m. get_current_user R E now token r s = Inr user \<and> get_claim user ''auth_method'' \<noteq> JStr ''api_key''
     \<and> self_service_membership s user = Inr m \<and> own_key m k \<and> has_active_plan (m_organization_id m)
     \<and> active_keys s' m = active_keys s m + 1 \<and> active_keys s' m \<le> 10
     \<and> set (ak_scopes k) \<subseteq> {''dataset.read'', ''usage.read''} \<inter> set (permissions_for_membership s m)
     \<and> to_public_scopes (ak_scopes k) = (if kc_scopes body = [] then [''literature:read''] else kc_scopes body)"
proof -
  let ?ps = "if kc_scopes body = [] then [''literature:read''] else kc_scopes body"
  let ?xs = "map (\<lambda>x. the (map_of PUBLIC_SCOPE_TO_PERMISSION x)) ?ps"
  obtain user m where u: "get_current_user R E now token r s = Inr user" and m: "self_service_membership s user = Inr m"
    and lim: "active_keys s m < 10" and plan: "has_active_plan (m_organization_id m)"
    and known: "\<forall>x \<in> set ?ps. map_of PUBLIC_SCOPE_TO_PERMISSION x \<noteq> None"
    and cr: "create_api_key E now draws (m_organization_id m) (m_user_id m) (kc_name body) ?xs (permissions_for_membership s m)
        (kc_expires_at body) (kc_test body) s = Inr (s', k, full)"
  proof -
    obtain m where m: "with_membership R E now token r s = Inr m" using c by (auto simp: create_my_api_key_def split: sum.splits)
    then obtain user where "get_current_user R E now token r s = Inr user" "self_service_membership s user = Inr m"
      by (auto simp: with_membership_def split: sum.splits)
    moreover have "active_keys s m < 10" "has_active_plan (m_organization_id m)" "\<forall>x \<in> set ?ps. map_of PUBLIC_SCOPE_TO_PERMISSION x \<noteq> None"
      "create_api_key E now draws (m_organization_id m) (m_user_id m) (kc_name body) ?xs (permissions_for_membership s m)
        (kc_expires_at body) (kc_test body) s = Inr (s', k, full)"
      using c m unfolding create_my_api_key_def Let_def MAX_ACTIVE_KEYS_PER_USER_def by (simp_all split: if_split_asm sum.split_asm)
    ultimately show ?thesis using that by blast
  qed
  note k = create_api_key_Inr [OF cr]
  have "get_claim user ''auth_method'' \<noteq> JStr ''api_key''" using m by (auto simp: self_service_membership_def)
  moreover have own: "own_key m k" using k(8,9) by (simp add: own_key_def)
  moreover have "active_keys s' m = active_keys s m + 1" using own k(1,7) by (simp add: own_keys_count query_count_def)
  moreover have two: "x = ''literature:read'' \<or> x = ''usage:read''" if "x \<in> set ?ps" for x
    using known that by (auto simp: PUBLIC_SCOPE_TO_PERMISSION_def split: if_split_asm)
  have "the (map_of PUBLIC_SCOPE_TO_PERMISSION x) \<in> {''dataset.read'', ''usage.read''}" if "x \<in> set ?ps" for x
    using two [OF that] by (auto simp: PUBLIC_SCOPE_TO_PERMISSION_def)
  then have "set (ak_scopes k) \<subseteq> {''dataset.read'', ''usage.read''}" unfolding k(6) set_map by blast
  moreover have "to_public_scopes ?xs = ?ps"
    unfolding to_public_scopes_def map_map by (rule map_idI) (use two in \<open>auto simp: PUBLIC_SCOPE_TO_PERMISSION_def split: if_split_asm\<close>)
  ultimately show ?thesis using u m lim plan k(2,6) by auto
qed

text \<open>A member whose role allows reading datasets.\<close>

definition reader_db :: db where
  "reader_db = guard_db\<lparr>permissions := [\<lparr>p_id = 2, p_name = ''dataset.read''\<rparr>]\<rparr>"

definition reader_env :: env where
  "reader_env = sample_env [''tok'' \<mapsto> (''org_id'', JInt 7) # guard_claims]"

lemma reader_user: "get_current_user kv_redis reader_env 0 ''tok'' (True, []) reader_db = Inr ((''org_id'', JInt 7) # guard_claims)"
  unfolding get_current_user_Inr
  by (simp add: decode_token_def decode_token_for_audience_def reader_env_def sample_env_def guard_claims_def assert_token_usable_def
      Let_def kv_redis_def live_entry_def kv_entry_def reader_db_def guard_db_def empty_db_def query_exists_def find_subject_def sub_text_def
      sample_user_def show_int_1)

theorem self_service_bounded_witness:
  "\<exists>s' k full m. create_my_api_key kv_redis reader_env 0 [] (\<lambda>i. True) ''tok''
      \<lparr>kc_name = ''mine'', kc_scopes = [], kc_expires_at = None, kc_test = True\<rparr> (True, []) reader_db = Inr (s', k, full)
     \<and> own_key m k \<and> active_keys s' m \<le> 10"
proof -
  let ?m = "hd (memberships guard_db)" and ?b = "\<lparr>kc_name = ''mine'', kc_scopes = [], kc_expires_at = None, kc_test = True\<rparr>"
  have "int_sub ((''org_id'', JInt 7) # guard_claims) = Inr 1" using guard_sub by (simp add: int_sub_def)
  then have m: "with_membership kv_redis reader_env 0 ''tok'' (True, []) reader_db = Inr ?m"
    by (simp add: with_membership_def reader_user self_service_membership_def guard_claims_def) (simp add: reader_db_def guard_db_def status_active_def)
  have "''dataset.read'' \<in> set (permissions_for_membership reader_db ?m)"
    by (simp add: reader_db_def guard_db_def empty_db_def permissions_for_membership_def permissions_for_roles_def roles_of_membership_def role_perms_def)
  then obtain s' k full where c: "create_my_api_key kv_redis reader_env 0 [] (\<lambda>i. True) ''tok'' ?b (True, []) reader_db = Inr (s', k, full)"
    using m by (auto simp: create_my_api_key_def own_keys_count query_count_def MAX_ACTIVE_KEYS_PER_USER_def Let_def PUBLIC_SCOPE_TO_PERMISSION_def
        create_api_key_def normalize_expiry_def query_exists_def reader_db_def guard_db_def empty_db_def split: sum.splits)
  from self_service_bounded [OF c] show ?thesis using c by blast
qed

end
