(* ===== verification/Service_Clients.thy ===== *)
theory Service_Clients
  imports Api_Keys
begin

text \<open>
  Service identities: \<open>app/services/oauth_client_service.py\<close>, the client-credentials part of
  \<open>app/api/routes_oauth_token.py\<close>, \<open>app/api/routes_oauth_clients.py\<close> and
  \<open>app/services/service_identity.py\<close>.

  The loop that draws client ids until it finds an unused one is a partial function over the
  stream of drawn ids; \<open>None\<close> is the loop that never ends. The suggestions in the message for
  an unknown scope are left out, and so is the authorization-code flow of the first-party portal.

  The theory shows that a service token never carries more than the person who registered the
  client could grant, that revoking a client cuts off new tokens for good and, at the guard that
  looks at the client, the tokens that are already out, and that the loop ends.
\<close>

subsection \<open>Registering a client\<close>

definition generate_client_id :: "nat list \<Rightarrow> string" where
  "generate_client_id draws = ''omni_client_'' @ map (\<lambda>i. ALPHABET ! i) draws"

definition generate_client_secret :: "nat list \<Rightarrow> string" where
  "generate_client_secret draws = map (\<lambda>i. ALPHABET ! i) draws"

definition hash_secret :: "env \<Rightarrow> string \<Rightarrow> string" where
  "hash_secret E secret = sha256_hex E secret"

partial_function (option) fresh_client_id :: "(nat \<Rightarrow> nat list) \<Rightarrow> db \<Rightarrow> nat \<Rightarrow> string option" where
  "fresh_client_id draws s i =
     (if query_exists (\<lambda>c. oc_client_id c = generate_client_id (draws i)) (oauth_clients s)
      then fresh_client_id draws s (i + 1) else Some (generate_client_id (draws i)))"

definition client_event :: "string \<Rightarrow> int option \<Rightarrow> oauth_client \<Rightarrow> audit_args" where
  "client_event et actor c = (audit et)\<lparr>a_actor := actor, a_org := Some (oc_organization_id c), a_rtype := Some ''oauth_client'',
     a_rid := Some (show_int (oc_id c))\<rparr>"

definition create_oauth_client ::
  "env \<Rightarrow> time \<Rightarrow> (nat \<Rightarrow> nat list) \<Rightarrow> nat list \<Rightarrow> int \<Rightarrow> int \<Rightarrow> string \<Rightarrow> string list \<Rightarrow> string list \<Rightarrow> db
     \<Rightarrow> (exn + db \<times> oauth_client \<times> string) option" where
  "create_oauth_client E now id_draws secret_draws org creator name scopes caller_permissions s =
     (case query_first (\<lambda>x. \<not> is_known_permission x) scopes of
        Some x \<Rightarrow> Some (Inl (ValueError ''Unknown service permission: {}'' [x]))
      | None \<Rightarrow>
          let invalid_scopes = filter (\<lambda>x. x \<notin> set caller_permissions) scopes
          in if invalid_scopes \<noteq> [] then Some (Inl (ValueError ''Cannot grant scopes you don't hold: {}'' (sorted_set invalid_scopes)))
             else (case fresh_client_id id_draws s 0 of
                     None \<Rightarrow> None
                   | Some client_id \<Rightarrow>
                       let secret = generate_client_secret secret_draws;
                           c = \<lparr>oc_id = next_id oc_id (oauth_clients s), oc_organization_id = org, oc_created_by_user_id = creator,
                                oc_client_id = client_id, oc_client_secret_hash = hash_secret E secret, oc_name = Some name,
                                oc_scopes = scopes, oc_status = ''active'', oc_created_at = now, oc_expires_at = None,
                                oc_last_used_at = None, oc_revoked_at = None, oc_revoked_reason = None\<rparr>
                       in Some (Inr (log_event E now ((client_event ''oauth_client_created'' (Some creator) c)
                                      \<lparr>a_after := JObj [(''name'', JStr name), (''scopes'', jstrs scopes), (''status'', JStr ''active'')],
                                       a_meta := JObj [(''client_id'', JStr client_id), (''client_name'', JStr name), (''scopes'', jstrs scopes)]\<rparr>)
                                      (s\<lparr>oauth_clients := oauth_clients s @ [c]\<rparr>), c, secret))))"

definition list_oauth_clients :: "db \<Rightarrow> int \<Rightarrow> oauth_client list" where
  "list_oauth_clients s org = filter (\<lambda>c. oc_organization_id c = org) (oauth_clients s)"

definition get_oauth_client :: "db \<Rightarrow> int \<Rightarrow> int \<Rightarrow> oauth_client option" where
  "get_oauth_client s org i = query_first (\<lambda>c. oc_id c = i \<and> oc_organization_id c = org) (oauth_clients s)"

definition set_client :: "int \<Rightarrow> (oauth_client \<Rightarrow> oauth_client) \<Rightarrow> db \<Rightarrow> db" where
  "set_client i f s = s\<lparr>oauth_clients := update_where (\<lambda>c. oc_id c = i) f (oauth_clients s)\<rparr>"

definition revoke_oauth_client :: "env \<Rightarrow> time \<Rightarrow> oauth_client \<Rightarrow> string option \<Rightarrow> int option \<Rightarrow> db \<Rightarrow> db" where
  "revoke_oauth_client E now c reason actor s =
     log_event E now ((client_event ''oauth_client_revoked'' actor c)
       \<lparr>a_before := JObj [(''status'', JStr ''active'')], a_after := JObj [(''status'', JStr ''revoked'')],
        a_meta := JObj [(''client_id'', JStr (oc_client_id c)), (''client_name'', jstr_opt (oc_name c)), (''scopes'', jstrs (oc_scopes c)),
                        (''reason'', jstr_opt reason)]\<rparr>)
       (set_client (oc_id c) (\<lambda>x. x\<lparr>oc_status := ''revoked'', oc_revoked_at := Some now, oc_revoked_reason := reason\<rparr>) s)"

definition verify_client_credentials :: "env \<Rightarrow> time \<Rightarrow> db \<Rightarrow> string \<Rightarrow> string \<Rightarrow> oauth_client option" where
  "verify_client_credentials E now s client_id secret =
     (case query_first (\<lambda>c. oc_client_id c = client_id) (oauth_clients s) of
        None \<Rightarrow> None
      | Some c \<Rightarrow> if \<not> client_live now c then None
                  else if oc_client_secret_hash c \<noteq> hash_secret E secret then None else Some c)"

definition mark_used :: "time \<Rightarrow> oauth_client \<Rightarrow> db \<Rightarrow> db" where
  "mark_used now c s = set_client (oc_id c) (\<lambda>x. x\<lparr>oc_last_used_at := Some now\<rparr>) s"

subsection \<open>The token endpoint\<close>

lemma str_split_shorter: "dropWhile P s \<noteq> [] \<Longrightarrow> length (dropWhile (\<lambda>c. \<not> P c) (dropWhile P s)) < length s"
proof -
  assume ne: "dropWhile P s \<noteq> []"
  have "\<not> P (hd (dropWhile P s))" using hd_dropWhile [OF ne] .
  then have "length (dropWhile (\<lambda>c. \<not> P c) (dropWhile P s)) < length (dropWhile P s)"
    using ne length_dropWhile_le [of "\<lambda>c. \<not> P c" "tl (dropWhile P s)"] by (cases "dropWhile P s") auto
  then show ?thesis using length_dropWhile_le [of P s] by linarith
qed

text \<open>\<open>str.split()\<close>: the maximal runs of characters that are not white space.\<close>

function str_split :: "string \<Rightarrow> string list" where
  "str_split s =
     (let t = dropWhile is_space s
      in if t = [] then [] else takeWhile (\<lambda>c. \<not> is_space c) t # str_split (dropWhile (\<lambda>c. \<not> is_space c) t))"
  by pat_completeness auto

termination
  by (relation "measure length") (auto simp: str_split_shorter)

declare str_split.simps [simp del]

definition str_join :: "string \<Rightarrow> string list \<Rightarrow> string" where
  "str_join sep xs = (case xs of [] \<Rightarrow> [] | x # ys \<Rightarrow> x @ concat (map (\<lambda>y. sep @ y) ys))"

definition client_claims :: "oauth_client \<Rightarrow> string list \<Rightarrow> claims" where
  "client_claims c scopes = [(''org_id'', JInt (oc_organization_id c)), (''client_id'', JStr (oc_client_id c)),
     (''scopes'', jstrs scopes), (''auth_method'', JStr ''client_credentials'')]"

record token_response =
  tr_access_token :: string
  tr_expires_in :: int
  tr_scope :: string

definition client_token :: "env \<Rightarrow> time \<Rightarrow> string \<Rightarrow> oauth_client \<Rightarrow> string list \<Rightarrow> token_response" where
  "client_token E now jti c scopes =
     \<lparr>tr_access_token = create_service_access_token E now jti (client_claims c scopes) (CLIENT_CREDENTIALS_TOKEN_EXPIRE_MINUTES (cfg E)),
      tr_expires_in = CLIENT_CREDENTIALS_TOKEN_EXPIRE_MINUTES (cfg E) * 60, tr_scope = str_join '' '' scopes\<rparr>"

text \<open>The scopes of a token: those asked for, or all of the client's. \<open>None\<close> is \<open>invalid_scope\<close>.\<close>

definition token_scopes :: "oauth_client \<Rightarrow> string option \<Rightarrow> string list option" where
  "token_scopes c scope =
     (if truthy scope
      then let requested = str_split (the scope)
           in if set requested \<subseteq> set (oc_scopes c) then Some (sorted_set requested) else None
      else Some (sorted_set (oc_scopes c)))"

definition issue_client_credentials_token ::
  "env \<Rightarrow> time \<Rightarrow> string \<Rightarrow> string \<Rightarrow> string option \<Rightarrow> string option \<Rightarrow> string option \<Rightarrow> (string \<times> string) option \<Rightarrow> db
     \<Rightarrow> db \<times> (exn + token_response)" where
  "issue_client_credentials_token E now jti grant_type client_id client_secret scope basic s =
     (if grant_type \<noteq> ''client_credentials'' then (s, Inl (HTTPException 400 ''unsupported_grant_type''))
      else let (cid, secret) = (case basic of None \<Rightarrow> (client_id, client_secret) | Some (u, p) \<Rightarrow> (Some u, Some p))
           in if \<not> truthy cid \<or> \<not> truthy secret
              then (s, Inl (HTTPException 400 ''invalid_request -- client_id and client_secret are required''))
              else (case verify_client_credentials E now s (the cid) (the secret) of
                      None \<Rightarrow> (s, Inl (HTTPException 401 ''invalid_client''))
                    | Some c \<Rightarrow>
                        (case token_scopes c scope of
                           None \<Rightarrow> (s, Inl (HTTPException 400 ''invalid_scope''))
                         | Some scopes \<Rightarrow> (mark_used now c s, Inr (client_token E now jti c scopes)))))"

subsection \<open>The routes of an organization's clients\<close>

definition org_create_oauth_client ::
  "'r redis \<Rightarrow> env \<Rightarrow> time \<Rightarrow> (nat \<Rightarrow> nat list) \<Rightarrow> nat list \<Rightarrow> string \<Rightarrow> int \<Rightarrow> string \<Rightarrow> string list \<Rightarrow> 'r \<Rightarrow> db
     \<Rightarrow> (exn + db \<times> oauth_client \<times> string) option" where
  "org_create_oauth_client R E now id_draws secret_draws token org name scopes r s =
     (case require_org_permission_or_platform_admin R E now ''manage_oauth_clients'' token org r s of
        Inl e \<Rightarrow> Some (Inl e)
      | Inr m \<Rightarrow>
          (case get_current_user R E now token r s of
             Inl e \<Rightarrow> Some (Inl e)
           | Inr user \<Rightarrow>
               (case claim_in_or_empty ''manage_licenses'' user ''permissions'' of
                  Inl e \<Rightarrow> Some (Inl e)
                | Inr b \<Rightarrow>
                    map_option (map_sum as_400 id)
                      (create_oauth_client E now id_draws secret_draws org (am_user_id m) name scopes
                         (acting_permissions s m @ (if b then [''license.issue''] else [])) s))))"

definition org_list_oauth_clients :: "'r redis \<Rightarrow> env \<Rightarrow> time \<Rightarrow> string \<Rightarrow> int \<Rightarrow> 'r \<Rightarrow> db \<Rightarrow> exn + oauth_client list" where
  "org_list_oauth_clients R E now token org r s =
     (case require_org_permission_or_platform_admin R E now ''manage_oauth_clients'' token org r s of
        Inl e \<Rightarrow> Inl e | Inr m \<Rightarrow> Inr (list_oauth_clients s org))"

definition org_revoke_oauth_client :: "'r redis \<Rightarrow> env \<Rightarrow> time \<Rightarrow> string \<Rightarrow> int \<Rightarrow> int \<Rightarrow> 'r \<Rightarrow> db \<Rightarrow> exn + db" where
  "org_revoke_oauth_client R E now token org i r s =
     (case require_org_permission_or_platform_admin R E now ''manage_oauth_clients'' token org r s of
        Inl e \<Rightarrow> Inl e
      | Inr m \<Rightarrow>
          (case get_oauth_client s org i of
             None \<Rightarrow> Inl (HTTPException 404 ''OAuth client not found'')
           | Some c \<Rightarrow> Inr (revoke_oauth_client E now c None (Some (am_user_id m)) s)))"

subsection \<open>Who a service is\<close>

record service_identity =
  si_client_id :: string
  si_name :: "string option"
  si_organization_id :: int
  si_permissions :: "string list"
  si_created_at :: time
  si_active :: bool

definition service_identity_dict :: "oauth_client \<Rightarrow> string list \<Rightarrow> service_identity" where
  "service_identity_dict c perms = \<lparr>si_client_id = oc_client_id c, si_name = oc_name c, si_organization_id = oc_organization_id c,
     si_permissions = sorted_strs perms, si_created_at = oc_created_at c, si_active = (oc_status c = ''active'')\<rparr>"

text \<open>\<open>payload.get("scopes", [])\<close> as a list of strings; anything else cannot be sorted.\<close>

definition claim_scopes :: "claims \<Rightarrow> exn + string list" where
  "claim_scopes c =
     (case map_of c ''scopes'' of
        None \<Rightarrow> Inr []
      | Some (JList vs) \<Rightarrow> if list_all (\<lambda>v. json_str v \<noteq> None) vs then Inr (map (\<lambda>v. the (json_str v)) vs) else Inl TypeError
      | Some _ \<Rightarrow> Inl TypeError)"

definition identity_from_token_payload :: "db \<Rightarrow> claims \<Rightarrow> exn + service_identity option" where
  "identity_from_token_payload s payload =
     (case find_client s (get_claim payload ''client_id'') of
        None \<Rightarrow> Inr None
      | Some c \<Rightarrow> if oc_status c \<noteq> ''active'' then Inr None
                  else map_sum id (\<lambda>xs. Some (service_identity_dict c xs)) (claim_scopes payload))"

definition identity_for_client_id :: "db \<Rightarrow> string \<Rightarrow> service_identity option" where
  "identity_for_client_id s client_id =
     map_option (\<lambda>c. service_identity_dict c (oc_scopes c)) (find_client s (JStr client_id))"

definition get_my_service_identity :: "env \<Rightarrow> time \<Rightarrow> string \<Rightarrow> db \<Rightarrow> exn + service_identity" where
  "get_my_service_identity E now token s =
     (case require_service_identity E now token of
        Inl e \<Rightarrow> Inl e
      | Inr payload \<Rightarrow>
          (case identity_from_token_payload s payload of
             Inl e \<Rightarrow> Inl e
           | Inr None \<Rightarrow> Inl (HTTPException 403 ''Forbidden -- service identity is inactive or no longer exists'')
           | Inr (Some i) \<Rightarrow> Inr i))"

definition get_platform_service_identity :: "'r redis \<Rightarrow> env \<Rightarrow> time \<Rightarrow> string \<Rightarrow> string \<Rightarrow> 'r \<Rightarrow> db \<Rightarrow> exn + service_identity" where
  "get_platform_service_identity R E now token client_id r s =
     (case require_permission R E now MANAGE_ALL_ORGS token r s of
        Inl e \<Rightarrow> Inl e
      | Inr caller \<Rightarrow>
          (case identity_for_client_id s client_id of
             None \<Rightarrow> Inl (HTTPException 404 ''Service identity not found'') | Some i \<Rightarrow> Inr i))"

subsection \<open>What the operations do to the table\<close>

inductive client_step :: "env \<Rightarrow> db \<Rightarrow> db \<Rightarrow> bool" for E :: env where
  create: "create_oauth_client E now ids ds org creator name scopes perms s = Some (Inr (s', c, secret)) \<Longrightarrow> client_step E s s'"
| revoke: "client_step E s (revoke_oauth_client E now c reason actor s)"
| issue: "client_step E s (fst (issue_client_credentials_token E now jti gt cid secret scope basic s))"
| elsewhere: "oauth_clients s' = oauth_clients s \<Longrightarrow> client_step E s s'"

lemma set_client_table [simp]: "oauth_clients (set_client i f s) = update_where (\<lambda>c. oc_id c = i) f (oauth_clients s)"
  by (simp add: set_client_def)

lemma log_clients [simp]: "oauth_clients (log_event E now a s) = oauth_clients s"
  by (simp add: log_event_def)

text \<open>What a client stands for: its organization, its secret and its scopes.\<close>

definition client_stands_for :: "oauth_client \<Rightarrow> int \<times> string \<times> string list" where
  "client_stands_for c = (oc_organization_id c, oc_client_secret_hash c, oc_scopes c)"

lemma fresh_client_id_unused:
  assumes "fresh_client_id draws s i = Some cid"
  shows "cid \<notin> oc_client_id ` set (oauth_clients s)"
proof (rule fresh_client_id.raw_induct [OF _ assms, of "\<lambda>draws s i cid. cid \<notin> oc_client_id ` set (oauth_clients s)"])
  fix f :: "(nat \<Rightarrow> nat list) \<Rightarrow> db \<Rightarrow> nat \<Rightarrow> string option" and draws s i cid
  assume "\<And>draws s i cid. f draws s i = Some cid \<Longrightarrow> cid \<notin> oc_client_id ` set (oauth_clients s)"
    and "(if query_exists (\<lambda>c. oc_client_id c = generate_client_id (draws i)) (oauth_clients s)
          then f draws s (i + 1) else Some (generate_client_id (draws i))) = Some cid"
  then show "cid \<notin> oc_client_id ` set (oauth_clients s)"
    by (cases "query_exists (\<lambda>c. oc_client_id c = generate_client_id (draws i)) (oauth_clients s)") (auto simp: query_exists_def)
qed

lemma create_oauth_client_Inr:
  assumes "create_oauth_client E now ids ds org creator name scopes perms s = Some (Inr (s', c, secret))"
  shows "oauth_clients s' = oauth_clients s @ [c]" "oc_client_id c \<notin> oc_client_id ` set (oauth_clients s)"
    "set scopes \<subseteq> set perms" "oc_scopes c = scopes" "oc_client_secret_hash c = hash_secret E secret" "oc_organization_id c = org"
    "oc_status c = ''active''" "oc_expires_at c = None" "list_all is_known_permission scopes"
  using assms fresh_client_id_unused [of ids s 0]
    query_first_None [of "\<lambda>x. \<not> is_known_permission x" scopes]
  by (auto simp: create_oauth_client_def Let_def filter_empty_conv list_all_iff simp del: query_first_None split: option.splits if_splits)

lemma issue_state:
  "\<exists>i f. oauth_clients (fst (issue_client_credentials_token E now jti gt cid secret scope basic s)) = update_where (\<lambda>c. oc_id c = i) f (oauth_clients s)
     \<and> (\<forall>c. oc_client_id (f c) = oc_client_id c \<and> client_stands_for (f c) = client_stands_for c \<and> oc_status (f c) = oc_status c)"
proof -
  let ?s = "fst (issue_client_credentials_token E now jti gt cid secret scope basic s)"
  have "?s = s \<or> (\<exists>c. ?s = mark_used now c s)"
    by (auto simp: issue_client_credentials_token_def Let_def split: prod.split option.split)
  moreover have "update_where (\<lambda>c. oc_id c = 0) (\<lambda>c. c) (oauth_clients s) = oauth_clients s" by (simp add: update_where_def)
  ultimately show ?thesis
    by (elim disjE exE)
      (rule exI [of _ 0], rule exI [of _ "\<lambda>c. c"], simp,
       rule exI, rule exI [of _ "\<lambda>x. x\<lparr>oc_last_used_at := Some now\<rparr>"], simp add: mark_used_def client_stands_for_def)
qed

interpretation clients: credential_table oauth_clients oc_client_id client_stands_for "\<lambda>c. oc_status c = ''revoked''" "client_step E" for E
proof unfold_locales
  fix s s' :: db assume "client_step E s s'"
  then show "(\<exists>c. oauth_clients s' = oauth_clients s @ [c] \<and> oc_client_id c \<notin> oc_client_id ` set (oauth_clients s))
     \<or> (\<exists>P f. oauth_clients s' = update_where P f (oauth_clients s)
          \<and> (\<forall>c. oc_client_id (f c) = oc_client_id c \<and> client_stands_for (f c) = client_stands_for c
               \<and> (oc_status c = ''revoked'' \<longrightarrow> oc_status (f c) = ''revoked'')))"
  proof (cases rule: client_step.cases)
    case (create now ids ds org creator name scopes perms c secret)
    then show ?thesis using create_oauth_client_Inr(1,2) [OF create] by blast
  next
    case (revoke now c reason actor)
    then show ?thesis
      by (intro disjI2 exI [of _ "\<lambda>x. oc_id x = oc_id c"] exI [of _ "\<lambda>x. x\<lparr>oc_status := ''revoked'', oc_revoked_at := Some now, oc_revoked_reason := reason\<rparr>"])
        (simp add: revoke_oauth_client_def client_stands_for_def)
  next
    case (issue now jti gt cid secret scope basic)
    then obtain i f where "oauth_clients s' = update_where (\<lambda>c. oc_id c = i) f (oauth_clients s)"
      "\<forall>c. oc_client_id (f c) = oc_client_id c \<and> client_stands_for (f c) = client_stands_for c \<and> oc_status (f c) = oc_status c"
      using issue_state by blast
    then show ?thesis by (intro disjI2 exI [of _ "\<lambda>c. oc_id c = i"] exI [of _ f]) simp
  next
    case elsewhere
    then show ?thesis by (intro disjI2 exI [of _ "\<lambda>x. False"] exI [of _ "\<lambda>x. x"]) (simp add: update_where_def)
  qed
qed

subsection \<open>Properties\<close>

lemma fresh_client_id_first:
  assumes "generate_client_id (draws (i + k)) \<notin> oc_client_id ` set (oauth_clients s)"
  shows "\<exists>j \<le> k. fresh_client_id draws s i = Some (generate_client_id (draws (i + j)))"
  using assms
proof (induction k arbitrary: i)
  case 0
  then show ?case by (subst fresh_client_id.simps) (auto simp: query_exists_def image_iff)
next
  case (Suc k)
  show ?case
  proof (cases "query_exists (\<lambda>c. oc_client_id c = generate_client_id (draws i)) (oauth_clients s)")
    case True
    obtain j where "j \<le> k" "fresh_client_id draws s (i + 1) = Some (generate_client_id (draws (i + 1 + j)))"
      using Suc.IH [of "i + 1"] Suc.prems by auto
    then show ?thesis using True by (subst fresh_client_id.simps) (auto intro!: exI [of _ "Suc j"])
  next
    case False
    then show ?thesis by (subst fresh_client_id.simps) (auto intro!: exI [of _ 0])
  qed
qed

text \<open>
  C36. The loop that looks for a client id ends. If the ids drawn in the first \<open>n + 1\<close> rounds
  are pairwise different, where \<open>n\<close> is the number of clients, the loop stops within these rounds,
  and the id it returns belongs to no client.
\<close>

theorem client_id_loop_ends:
  assumes d: "distinct (map (\<lambda>i. generate_client_id (draws i)) [0..<Suc (length (oauth_clients s))])"
  shows "\<exists>j \<le> length (oauth_clients s). fresh_client_id draws s 0 = Some (generate_client_id (draws j))
     \<and> generate_client_id (draws j) \<notin> oc_client_id ` set (oauth_clients s)"
proof -
  let ?ids = "map (\<lambda>i. generate_client_id (draws i)) [0..<Suc (length (oauth_clients s))]"
  have "card (set ?ids) = Suc (length (oauth_clients s))" using distinct_card [OF d] by simp
  moreover have "card (oc_client_id ` set (oauth_clients s)) \<le> length (oauth_clients s)"
    by (meson card_image_le card_length le_trans List.finite_set)
  ultimately have "\<not> set ?ids \<subseteq> oc_client_id ` set (oauth_clients s)"
    using card_mono [of "oc_client_id ` set (oauth_clients s)" "set ?ids"] by auto
  then obtain x where x: "x \<in> set ?ids" "x \<notin> oc_client_id ` set (oauth_clients s)" by blast
  then obtain k where k: "k < Suc (length (oauth_clients s))" "x = generate_client_id (draws k)" by (auto simp del: upt_Suc)
  then obtain j where "j \<le> k" "fresh_client_id draws s 0 = Some (generate_client_id (draws j))"
    using fresh_client_id_first [of draws 0 k s] x(2) by auto
  then show ?thesis using k(1) fresh_client_id_unused [of draws s 0] by (intro exI [of _ j]) auto
qed

theorem client_id_loop_ends_witness:
  "\<exists>cid. fresh_client_id (\<lambda>i. replicate i 0) empty_db 0 = Some cid"
proof -
  have "distinct (map (\<lambda>i. generate_client_id (replicate i 0)) [0..<Suc (length (oauth_clients empty_db))])" by (simp add: empty_db_def)
  from client_id_loop_ends [OF this] show ?thesis by blast
qed

lemma verify_client_Some:
  "verify_client_credentials E now s cid secret = Some c \<longleftrightarrow>
     query_first (\<lambda>c. oc_client_id c = cid) (oauth_clients s) = Some c \<and> client_live now c \<and> oc_client_secret_hash c = hash_secret E secret"
  by (auto simp: verify_client_credentials_def split: option.splits dest: query_first_Some)

lemma token_scopes_subset: "token_scopes c scope = Some xs \<Longrightarrow> set xs \<subseteq> set (oc_scopes c)"
  by (auto simp: token_scopes_def Let_def split: if_splits)

text \<open>The credentials of a request: those of the HTTP Basic header, or without one the form's.\<close>

definition presented_credentials :: "string option \<Rightarrow> string option \<Rightarrow> (string \<times> string) option \<Rightarrow> string option \<times> string option" where
  "presented_credentials client_id client_secret basic =
     (case basic of None \<Rightarrow> (client_id, client_secret) | Some (u, p) \<Rightarrow> (Some u, Some p))"

lemma issue_Inr:
  assumes "issue_client_credentials_token E now jti gt client_id client_secret scope basic s = (s', Inr t)"
  obtains cid secret c xs where "presented_credentials client_id client_secret basic = (Some cid, Some secret)"
    "verify_client_credentials E now s cid secret = Some c" "token_scopes c scope = Some xs"
    "t = client_token E now jti c xs" "s' = mark_used now c s"
proof -
  obtain i p where ip: "presented_credentials client_id client_secret basic = (i, p)" by force
  have gt: "gt = ''client_credentials''" and tr: "truthy i" "truthy p"
    using assms ip by (auto simp: issue_client_credentials_token_def presented_credentials_def split: if_splits option.splits)
  then obtain cid secret where cs: "i = Some cid" "p = Some secret" by (cases i; cases p) auto
  note a = assms [unfolded issue_client_credentials_token_def presented_credentials_def [symmetric] ip]
  obtain c where c: "verify_client_credentials E now s cid secret = Some c" using a gt tr cs by (auto split: option.splits)
  then obtain xs where xs: "token_scopes c scope = Some xs" using a gt tr cs by (auto split: option.splits)
  show ?thesis by (rule that [OF _ c xs]) (use a gt tr cs c xs ip in auto)
qed

lemma register_Inr:
  assumes "org_create_oauth_client R E now ids ds token org name scopes r s = Some (Inr (s1, c, secret))"
  obtains m user b where "require_org_permission_or_platform_admin R E now ''manage_oauth_clients'' token org r s = Inr m"
    "get_current_user R E now token r s = Inr user" "claim_in_or_empty ''manage_licenses'' user ''permissions'' = Inr b"
    "create_oauth_client E now ids ds org (am_user_id m) name scopes (acting_permissions s m @ (if b then [''license.issue''] else [])) s
       = Some (Inr (s1, c, secret))"
proof -
  obtain m where m: "require_org_permission_or_platform_admin R E now ''manage_oauth_clients'' token org r s = Inr m"
    using assms by (auto simp: org_create_oauth_client_def split: sum.splits)
  obtain user where u: "get_current_user R E now token r s = Inr user" using assms m by (auto simp: org_create_oauth_client_def split: sum.splits)
  obtain b where b: "claim_in_or_empty ''manage_licenses'' user ''permissions'' = Inr b" using assms m u by (auto simp: org_create_oauth_client_def split: sum.splits)
  obtain v where v: "create_oauth_client E now ids ds org (am_user_id m) name scopes (acting_permissions s m @ (if b then [''license.issue''] else [])) s = Some v"
    "map_sum as_400 id v = Inr (s1, c, secret)" using assms m u b by (auto simp: org_create_oauth_client_def)
  then have "v = Inr (s1, c, secret)" by (cases v) auto
  then show ?thesis using that [OF m u b] v(1) by simp
qed

text \<open>
  C21. A service token stays within what was granted. Whatever happens to the table after a
  client was registered on its organization's route, a token is issued for its id, in the form
  or by HTTP Basic authentication, only against the secret that was handed out (up to the
  digest); the token names the client and the organization it was registered in; and its scopes
  are known permissions out of those the registering caller acted with there at that moment (its
  membership's, or the organization-administrator role's for a platform administrator), to which
  the route adds the permission to issue licenses if the caller's token holds the one to manage
  them.
\<close>

theorem service_token_bounded:
  assumes d: "distinct (map oc_client_id (oauth_clients s))"
    and c: "org_create_oauth_client R E now ids ds token org name scopes r s = Some (Inr (s1, c, secret))"
    and st: "(client_step E)\<^sup>*\<^sup>* s1 s2"
    and t: "issue_client_credentials_token E later jti gt client_id client_secret scope basic s2 = (s3, Inr t)"
    and p: "fst (presented_credentials client_id client_secret basic) = Some (oc_client_id c)"
  shows "(\<exists>given. snd (presented_credentials client_id client_secret basic) = Some given \<and> hash_secret E given = hash_secret E secret)
     \<and> (\<exists>m user c' xs. require_org_permission_or_platform_admin R E now ''manage_oauth_clients'' token org r s = Inr m
          \<and> get_current_user R E now token r s = Inr user
          \<and> tr_access_token t = create_service_access_token E later jti (client_claims c' xs) (CLIENT_CREDENTIALS_TOKEN_EXPIRE_MINUTES (cfg E))
          \<and> oc_client_id c' = oc_client_id c \<and> oc_organization_id c' = org \<and> client_live later c'
          \<and> set xs \<subseteq> set (acting_permissions s m)
              \<union> (if claim_in_or_empty ''manage_licenses'' user ''permissions'' = Inr True then {''license.issue''} else {})
          \<and> list_all is_known_permission xs)"
proof -
  obtain m user b where mu: "require_org_permission_or_platform_admin R E now ''manage_oauth_clients'' token org r s = Inr m"
    "get_current_user R E now token r s = Inr user" "claim_in_or_empty ''manage_licenses'' user ''permissions'' = Inr b"
    "create_oauth_client E now ids ds org (am_user_id m) name scopes (acting_permissions s m @ (if b then [''license.issue''] else [])) s
       = Some (Inr (s1, c, secret))" by (rule register_Inr [OF c])
  note cr = create_oauth_client_Inr [OF mu(4)]
  have "distinct (map oc_client_id (oauth_clients s1))" using d cr(1,2) by simp
  from clients.lookup_later [OF st this, of c] cr(1) obtain c' where
    c': "query_first (\<lambda>x. oc_client_id x = oc_client_id c) (oauth_clients s2) = Some c'" "client_stands_for c' = client_stands_for c" by auto
  from t obtain cid given c2 xs where v: "presented_credentials client_id client_secret basic = (Some cid, Some given)"
    "verify_client_credentials E later s2 cid given = Some c2" "token_scopes c2 scope = Some xs" "t = client_token E later jti c2 xs" by (rule issue_Inr)
  then have "cid = oc_client_id c" using p by simp
  then have same: "c2 = c'" using c'(1) v(2) by (simp add: verify_client_Some)
  then have k: "oc_organization_id c2 = org" "oc_scopes c2 = scopes" "oc_client_secret_hash c2 = hash_secret E secret"
    using c'(2) cr(4-6) by (auto simp: client_stands_for_def)
  have xs: "set xs \<subseteq> set scopes" using token_scopes_subset [OF v(3)] k(2) by simp
  have g: "hash_secret E given = hash_secret E secret" "client_live later c2" "oc_client_id c2 = oc_client_id c"
    using v(2) k(3) query_first_Some [OF c'(1)] same by (auto simp: verify_client_Some)
  have b: "set xs \<subseteq> set (acting_permissions s m)
      \<union> (if claim_in_or_empty ''manage_licenses'' user ''permissions'' = Inr True then {''license.issue''} else {})"
    using xs cr(3) mu(3) by (cases b) auto
  have "list_all is_known_permission xs" using xs cr(9) by (auto simp: list_all_iff)
  then show ?thesis using mu(1,2) g k(1) b v(4) unfolding v(1) client_token_def
    by (intro conjI exI [of _ given] exI [of _ m] exI [of _ user] exI [of _ c2] exI [of _ xs]) simp_all
qed

text \<open>
  Property. Revoking a client cuts it off. After a client was revoked, no sequence of operations
  lets the token endpoint issue a token for its id, whatever the secret; and the guard that
  knows the client refuses the tokens that were issued before.
\<close>

theorem revoked_client_cut_off:
  assumes d: "distinct (map oc_client_id (oauth_clients s))" and c: "c \<in> set (oauth_clients s)"
    and st: "(client_step E)\<^sup>*\<^sup>* (revoke_oauth_client E now c reason actor s) s'"
  shows "(\<exists>e. issue_client_credentials_token E later jti gt (Some (oc_client_id c)) given scope None s' = (s', Inl e))
     \<and> (get_claim payload ''auth_method'' = JStr ''client_credentials'' \<and> get_claim payload ''client_id'' = JStr (oc_client_id c)
        \<and> decode_token E later token = Inr payload
        \<longrightarrow> (\<exists>e. require_permission_or_service_scope R E later permission scope' token r s' = Inl e))"
proof -
  let ?s = "revoke_oauth_client E now c reason actor s"
  let ?c = "c\<lparr>oc_status := ''revoked'', oc_revoked_at := Some now, oc_revoked_reason := reason\<rparr>"
  have "client_step E s ?s" by (rule client_step.revoke)
  then have "distinct (map oc_client_id (oauth_clients ?s))" using d by (rule clients.unique)
  moreover have "?c \<in> set (oauth_clients ?s)" using in_update_whereI [OF c, of "\<lambda>x. oc_id x = oc_id c"] by (simp add: revoke_oauth_client_def)
  ultimately obtain c' where c': "query_first (\<lambda>x. oc_client_id x = oc_client_id c) (oauth_clients s') = Some c'" "oc_status c' = ''revoked''"
    using clients.lookup_later [OF st, of ?c "oc_client_id c"] by auto
  then have dead: "\<not> client_live later c'" by (simp add: client_live_def)
  then have "verify_client_credentials E later s' (oc_client_id c) x = None" for x using c' by (simp add: verify_client_credentials_def)
  then have "\<exists>e. issue_client_credentials_token E later jti gt (Some (oc_client_id c)) given scope None s' = (s', Inl e)"
    by (simp add: issue_client_credentials_token_def)
  moreover have "find_client s' (JStr (oc_client_id c)) = Some c'" using c'(1) by (simp add: find_client_def)
  ultimately show ?thesis using dead
    by (auto simp: require_permission_or_service_scope_def split: option.split)
qed

text \<open>The member of \<open>guard_db\<close> registers a client for one of the permissions it holds.\<close>

lemma sample_client:
  obtains s1 c secret where "create_oauth_client guard_env 0 (\<lambda>i. []) [0] 7 1 ''runner'' [''runs.read''] [''runs.read'', ''runs.write''] guard_db
      = Some (Inr (s1, c, secret))" "secret = ''a''" "oc_client_id c = ''omni_client_''" "oc_id c = next_id oc_id (oauth_clients guard_db)"
proof -
  have "is_known_permission ''runs.read''" unfolding is_known_iff registered_names by simp
  moreover have "fresh_client_id (\<lambda>i. []) guard_db 0 = Some ''omni_client_''"
    by (subst fresh_client_id.simps) (simp add: query_exists_def guard_db_def empty_db_def generate_client_id_def)
  ultimately obtain s1 c secret where c: "create_oauth_client guard_env 0 (\<lambda>i. []) [0] 7 1 ''runner'' [''runs.read''] [''runs.read'', ''runs.write''] guard_db
      = Some (Inr (s1, c, secret))" "secret = ''a''" "oc_client_id c = ''omni_client_''" "oc_id c = next_id oc_id (oauth_clients guard_db)"
    by (auto simp: create_oauth_client_def Let_def generate_client_secret_def ALPHABET_def)
  then show ?thesis by (rule that)
qed

text \<open>The member of \<open>guard_db\<close> with a role that may register clients registers one.\<close>

definition registrar_db :: db where
  "registrar_db = guard_db\<lparr>permissions := [\<lparr>p_id = 2, p_name = ''runs.read''\<rparr>, \<lparr>p_id = 4, p_name = ''manage_oauth_clients''\<rparr>],
     role_permissions := [(3, 2), (3, 4)]\<rparr>"

lemma registrar:
  "get_current_user kv_redis guard_env 0 ''tok'' (True, []) registrar_db = Inr guard_claims"
  "\<exists>m. require_org_permission_or_platform_admin kv_redis guard_env 0 ''manage_oauth_clients'' ''tok'' 7 (True, []) registrar_db = Inr m
     \<and> set (acting_permissions registrar_db m) = {''runs.read'', ''manage_oauth_clients''}"
proof -
  show u: "get_current_user kv_redis guard_env 0 ''tok'' (True, []) registrar_db = Inr guard_claims"
    by (rule trans [OF user_guard_cong guard_user]) (simp_all add: registrar_db_def)
  let ?m = "hd (memberships guard_db)"
  have m: "get_org_membership_or_platform_admin registrar_db 7 guard_claims = Inr (acting_row registrar_db ?m)"
    using guard_sub by (simp add: get_org_membership_or_platform_admin_def get_org_membership_def claim_in_or_empty_def guard_claims_def
        registrar_db_def guard_db_def Let_def)
  have "set (permissions_for_membership registrar_db ?m) = {''runs.read'', ''manage_oauth_clients''}"
    by (simp add: permissions_for_membership_def permissions_for_roles_def roles_of_membership_def role_perms_def registrar_db_def guard_db_def)
  then show "\<exists>m. require_org_permission_or_platform_admin kv_redis guard_env 0 ''manage_oauth_clients'' ''tok'' 7 (True, []) registrar_db = Inr m
     \<and> set (acting_permissions registrar_db m) = {''runs.read'', ''manage_oauth_clients''}"
    using u m by (intro exI [of _ "acting_row registrar_db ?m"]) (simp add: require_org_permission_or_platform_admin_def check_membership_Inr)
qed

lemma registered_client:
  obtains s1 c secret where "org_create_oauth_client kv_redis guard_env 0 (\<lambda>i. []) [0] ''tok'' 7 ''runner'' [''runs.read''] (True, []) registrar_db
      = Some (Inr (s1, c, secret))" "secret = ''a''" "oc_client_id c = ''omni_client_''"
proof -
  obtain m where m: "require_org_permission_or_platform_admin kv_redis guard_env 0 ''manage_oauth_clients'' ''tok'' 7 (True, []) registrar_db = Inr m"
    "set (acting_permissions registrar_db m) = {''runs.read'', ''manage_oauth_clients''}" using registrar(2) by blast
  have "claim_in_or_empty ''manage_licenses'' guard_claims ''permissions'' = Inr False" by (simp add: claim_in_or_empty_def guard_claims_def)
  moreover have "is_known_permission ''runs.read''" unfolding is_known_iff registered_names by simp
  moreover have "fresh_client_id (\<lambda>i. []) registrar_db 0 = Some ''omni_client_''"
    by (subst fresh_client_id.simps) (simp add: query_exists_def registrar_db_def guard_db_def empty_db_def generate_client_id_def)
  ultimately obtain s1 c secret where c: "org_create_oauth_client kv_redis guard_env 0 (\<lambda>i. []) [0] ''tok'' 7 ''runner'' [''runs.read''] (True, []) registrar_db
      = Some (Inr (s1, c, secret))" "secret = ''a''" "oc_client_id c = ''omni_client_''"
    using m registrar(1) by (auto simp: org_create_oauth_client_def create_oauth_client_def Let_def generate_client_secret_def ALPHABET_def)
  then show ?thesis by (rule that)
qed

theorem service_token_bounded_witness:
  "\<exists>s1 s3 t c' xs. issue_client_credentials_token guard_env 9 ''j'' ''client_credentials'' None None None (Some (''omni_client_'', ''a'')) s1 = (s3, Inr t)
     \<and> tr_access_token t = create_service_access_token guard_env 9 ''j'' (client_claims c' xs) 10 \<and> set xs \<subseteq> {''runs.read'', ''manage_oauth_clients''}"
proof -
  obtain s1 c secret where c: "org_create_oauth_client kv_redis guard_env 0 (\<lambda>i. []) [0] ''tok'' 7 ''runner'' [''runs.read''] (True, []) registrar_db
      = Some (Inr (s1, c, secret))" and n: "secret = ''a''" "oc_client_id c = ''omni_client_''" by (rule registered_client)
  obtain m b where m: "create_oauth_client guard_env 0 (\<lambda>i. []) [0] 7 (am_user_id m) ''runner'' [''runs.read'']
      (acting_permissions registrar_db m @ (if b then [''license.issue''] else [])) registrar_db = Some (Inr (s1, c, secret))"
    by (rule register_Inr [OF c]) (rule that)
  note cr = create_oauth_client_Inr [OF m]
  have d: "distinct (map oc_client_id (oauth_clients registrar_db))" by (simp add: registrar_db_def guard_db_def empty_db_def)
  have "verify_client_credentials guard_env 9 s1 ''omni_client_'' ''a'' = Some c"
    using cr(1,5,7,8) n by (simp add: verify_client_Some client_live_def registrar_db_def guard_db_def empty_db_def)
  then obtain s3 t where t: "issue_client_credentials_token guard_env 9 ''j'' ''client_credentials'' None None None (Some (''omni_client_'', ''a'')) s1 = (s3, Inr t)"
    by (simp add: issue_client_credentials_token_def token_scopes_def)
  have e: "CLIENT_CREDENTIALS_TOKEN_EXPIRE_MINUTES (cfg guard_env) = 10" by (simp add: guard_env_def sample_env_def default_settings_def)
  have p: "fst (presented_credentials None None (Some (''omni_client_'', ''a''))) = Some (oc_client_id c)"
    by (simp add: presented_credentials_def n)
  have "claim_in_or_empty ''manage_licenses'' guard_claims ''permissions'' = Inr False" by (simp add: claim_in_or_empty_def guard_claims_def)
  then show ?thesis
    using service_token_bounded [OF d c rtranclp.rtrancl_refl t p] registrar t e by fastforce
qed

theorem revoked_client_cut_off_witness:
  "\<exists>s1 c e. issue_client_credentials_token guard_env 9 ''j'' ''client_credentials'' (Some ''omni_client_'') (Some ''a'') None None (revoke_oauth_client guard_env 5 c None None s1)
     = (revoke_oauth_client guard_env 5 c None None s1, Inl e)"
proof -
  obtain s1 c secret where c: "create_oauth_client guard_env 0 (\<lambda>i. []) [0] 7 1 ''runner'' [''runs.read''] [''runs.read'', ''runs.write''] guard_db
      = Some (Inr (s1, c, secret))" and n: "secret = ''a''" "oc_client_id c = ''omni_client_''" by (rule sample_client)
  note cr = create_oauth_client_Inr [OF c]
  have "distinct (map oc_client_id (oauth_clients s1))" "c \<in> set (oauth_clients s1)" using cr(1) by (simp_all add: guard_db_def empty_db_def)
  from revoked_client_cut_off [OF this rtranclp.rtrancl_refl, where now = 5 and reason = None and actor = None] show ?thesis
    using n(2) by metis
qed

end
