(* ===== verification/Delegated_Execution.thy ===== *)
theory Delegated_Execution
  imports Service_Clients
begin

text \<open>
  \<open>app/services/delegated_execution_service.py\<close>, \<open>app/services/toolserver_registration_service.py\<close>
  and the routes of \<open>app/api/routes_delegated_execution.py\<close>: a service acts for a user on the tool
  server with a short token behind which a revocable row stands, and a service registers itself
  there.

  \<open>except Exception\<close> in the two \<open>introspect\<close> functions makes every error the answer "not valid",
  which is \<open>None\<close> here.

  The theory shows that a delegation carries only what the user and the service may both do, at
  the moment it is issued and again at every check, so that taking anything back from either side
  ends it; and that a fresh delegation is valid until it expires.
\<close>

definition TOOLSERVER_AUDIENCE :: string where
  "TOOLSERVER_AUDIENCE = ''omnibioai-toolserver''"

definition DELEGATION_SCOPE :: string where
  "DELEGATION_SCOPE = ''toolserver.delegate''"

definition ACCEPTED_PERMISSIONS :: "string list" where
  "ACCEPTED_PERMISSIONS = [''workflow.execute'', ''runs.read'']"

subsection \<open>Claims as Python values\<close>

text \<open>\<open>str(claim) == str(number)\<close>\<close>

definition same_text :: "json \<Rightarrow> int \<Rightarrow> bool" where
  "same_text v i \<longleftrightarrow> (case v of JInt j \<Rightarrow> j = i | JStr x \<Rightarrow> x = show_int i | _ \<Rightarrow> False)"

text \<open>The strings of \<open>set(claims.get(k) or [])\<close>.\<close>

definition claim_set :: "claims \<Rightarrow> string \<Rightarrow> exn + string list" where
  "claim_set c k =
     (let v = get_claim c k
      in if \<not> jtruthy v then Inr []
         else case v of
           JList vs \<Rightarrow> if list_ex (\<lambda>x. (case x of JList _ \<Rightarrow> True | JObj _ \<Rightarrow> True | _ \<Rightarrow> False)) vs then Inl TypeError
                      else Inr (map (\<lambda>x. the (json_str x)) (filter (\<lambda>x. json_str x \<noteq> None) vs))
         | JStr t \<Rightarrow> Inr (map (\<lambda>ch. [ch]) t)
         | JObj kvs \<Rightarrow> Inr (map fst kvs)
         | _ \<Rightarrow> Inl TypeError)"

subsection \<open>Delegations\<close>

definition active_service :: "env \<Rightarrow> time \<Rightarrow> string \<Rightarrow> db \<Rightarrow> exn + claims \<times> oauth_client" where
  "active_service E now service_token s =
     (case decode_token E now service_token of
        Inl _ \<Rightarrow> Inl (HTTPException 401 ''Invalid service token'')
      | Inr payload \<Rightarrow>
          if get_claim payload ''auth_method'' \<noteq> JStr ''client_credentials'' then Inl (HTTPException 403 ''Service token required'')
          else (case find_client s (get_claim payload ''client_id'') of
                  None \<Rightarrow> Inl (HTTPException 403 ''Service identity is inactive'')
                | Some c \<Rightarrow>
                    if \<not> client_live now c then Inl (HTTPException 403 ''Service identity is inactive'')
                    else if \<not> same_text (get_claim payload ''org_id'') (oc_organization_id c)
                    then Inl (HTTPException 403 ''Service identity mismatch'')
                    else (case claim_set payload ''scopes'' of
                            Inl e \<Rightarrow> Inl e
                          | Inr xs \<Rightarrow>
                              if DELEGATION_SCOPE \<notin> set xs \<or> DELEGATION_SCOPE \<notin> set (oc_scopes c)
                              then Inl (HTTPException 403 ''Service delegation not authorized'') else Inr (payload, c))))"

definition initiating_user :: "'r redis \<Rightarrow> env \<Rightarrow> time \<Rightarrow> string \<Rightarrow> 'r \<Rightarrow> db \<Rightarrow> int option" where
  "initiating_user R E now token r s =
     (case decode_token E now token of
        Inl _ \<Rightarrow> None
      | Inr payload \<Rightarrow>
          if get_claim payload ''type'' \<noteq> JStr ''access'' \<or> get_claim payload ''auth_method'' = JStr ''client_credentials''
             \<or> assert_token_usable R now payload r s \<noteq> None
          then None
          else (case int_sub payload of Inl _ \<Rightarrow> None | Inr uid \<Rightarrow> Some uid))"

definition active_user :: "db \<Rightarrow> int \<Rightarrow> user option" where
  "active_user s uid = query_first (\<lambda>u. u_id u = uid \<and> u_status u = ''active'') (users s)"

definition active_membership :: "db \<Rightarrow> int \<Rightarrow> int \<Rightarrow> org_membership option" where
  "active_membership s uid org =
     query_first (\<lambda>m. m_user_id m = uid \<and> m_organization_id m = org \<and> m_status m = ''active'') (memberships s)"

definition user_membership :: "'r redis \<Rightarrow> env \<Rightarrow> time \<Rightarrow> string \<Rightarrow> int \<Rightarrow> 'r \<Rightarrow> db \<Rightarrow> exn + user \<times> org_membership" where
  "user_membership R E now token org r s =
     (case initiating_user R E now token r s of
        None \<Rightarrow> Inl (HTTPException 403 ''Invalid initiating identity'')
      | Some uid \<Rightarrow>
          (case (active_user s uid, find_org s org, active_membership s uid org) of
             (Some u, Some _, Some m) \<Rightarrow> Inr (u, m)
           | _ \<Rightarrow> Inl (HTTPException 403 ''Delegation context unavailable'')))"

definition user_permissions :: "db \<Rightarrow> user \<Rightarrow> org_membership \<Rightarrow> string list" where
  "user_permissions s u m = permissions_for_roles s (roles_of_user s u) @ permissions_for_membership s m"

definition issue_delegation ::
  "'r redis \<Rightarrow> env \<Rightarrow> time \<Rightarrow> string \<Rightarrow> string \<Rightarrow> string \<Rightarrow> int \<Rightarrow> string list \<Rightarrow> string \<Rightarrow> 'r \<Rightarrow> db \<Rightarrow> exn + db \<times> string \<times> delegated_grant" where
  "issue_delegation R E now delegation_id service_token initiating_token org perms audience r s =
     (case active_service E now service_token s of
        Inl e \<Rightarrow> Inl e
      | Inr (payload, c) \<Rightarrow>
          if audience \<noteq> TOOLSERVER_AUDIENCE then Inl (HTTPException 400 ''Unsupported delegation audience'')
          else if perms = [] \<or> \<not> set perms \<subseteq> set ACCEPTED_PERMISSIONS \<or> \<not> list_all is_known_permission perms
          then Inl (HTTPException 400 ''Unsupported delegated permission'')
          else (case user_membership R E now initiating_token org r s of
                  Inl e \<Rightarrow> Inl e
                | Inr (u, m) \<Rightarrow>
                    (case claim_set payload ''scopes'' of
                       Inl e \<Rightarrow> Inl e
                     | Inr xs \<Rightarrow>
                         if \<not> set perms \<subseteq> set (user_permissions s u m) \<or> \<not> set perms \<subseteq> set xs \<inter> set (oc_scopes c)
                         then Inl (HTTPException 403 ''Delegated permission denied'')
                         else if query_exists (\<lambda>g. dg_delegation_id g = delegation_id) (delegated_grants s)
                         then Inl (IntegrityError ''delegated_execution_grants.delegation_id'')
                         else let g = \<lparr>dg_delegation_id = delegation_id, dg_client_id = oc_client_id c, dg_user_id = u_id u,
                                       dg_organization_id = org, dg_permissions = sorted_set perms, dg_audience = audience,
                                       dg_expires_at = now + minutes (DELEGATED_EXECUTION_TOKEN_EXPIRE_MINUTES (cfg E)),
                                       dg_created_at = now, dg_revoked_at = None, dg_revoked_reason = None\<rparr>
                              in Inr (s\<lparr>delegated_grants := delegated_grants s @ [g]\<rparr>,
                                   create_delegated_execution_token E now (oc_client_id c) (u_id u) org (sorted_set perms) delegation_id, g))))"

record delegation_identity =
  di_client_id :: string
  di_user_id :: string
  di_organization_id :: string
  di_permissions :: "string list"
  di_delegation_id :: string

text \<open>The payload of the token agrees with the row it names.\<close>

definition grant_matches :: "delegated_grant \<Rightarrow> claims \<Rightarrow> bool" where
  "grant_matches g c \<longleftrightarrow>
     get_claim c ''client_id'' = JStr (dg_client_id g) \<and> same_text (get_claim c ''sub'') (dg_user_id g)
     \<and> same_text (get_claim c ''org_id'') (dg_organization_id g) \<and> get_claim c ''aud'' = JStr (dg_audience g)
     \<and> (case get_claim c ''permissions'' of
          JList vs \<Rightarrow> list_all (\<lambda>v. json_str v \<noteq> None) vs \<and> sorted_strs (map (\<lambda>v. the (json_str v)) vs) = sorted_strs (dg_permissions g)
        | v \<Rightarrow> \<not> jtruthy v \<and> dg_permissions g = [])"

definition introspect_delegation :: "'r redis \<Rightarrow> env \<Rightarrow> time \<Rightarrow> string \<Rightarrow> 'r \<Rightarrow> db \<Rightarrow> delegation_identity option" where
  "introspect_delegation R E now token r s =
     (case decode_token_for_audience E now token TOOLSERVER_AUDIENCE of
        Inl _ \<Rightarrow> None
      | Inr payload \<Rightarrow>
          if get_claim payload ''type'' \<noteq> JStr ''delegated_execution'' then None
          else (case sub_text (get_claim payload ''delegation_id'') of
                  None \<Rightarrow> None
                | Some delegation_id \<Rightarrow>
                    if get_claim payload ''jti'' \<noteq> JStr delegation_id then None
                    else if assert_token_usable R now payload r s \<noteq> None then None
                    else (case query_first (\<lambda>g. dg_delegation_id g = delegation_id \<and> dg_revoked_at g = None) (delegated_grants s) of
                            None \<Rightarrow> None
                          | Some g \<Rightarrow>
                              if dg_expires_at g < now \<or> \<not> grant_matches g payload then None
                              else (case (find_client s (JStr (dg_client_id g)), active_user s (dg_user_id g),
                                          active_membership s (dg_user_id g) (dg_organization_id g)) of
                                      (Some c, Some u, Some m) \<Rightarrow>
                                        if \<not> client_live now c \<or> DELEGATION_SCOPE \<notin> set (oc_scopes c)
                                           \<or> \<not> set (dg_permissions g) \<subseteq> set (oc_scopes c)
                                           \<or> \<not> set (dg_permissions g) \<subseteq> set (user_permissions s u m)
                                        then None
                                        else Some \<lparr>di_client_id = dg_client_id g, di_user_id = show_int (dg_user_id g),
                                               di_organization_id = show_int (dg_organization_id g), di_permissions = dg_permissions g,
                                               di_delegation_id = delegation_id\<rparr>
                                    | _ \<Rightarrow> None))))"

subsection \<open>Registration of a tool server\<close>

definition REGISTRATION_SCOPE :: string where
  "REGISTRATION_SCOPE = ''toolserver.register''"

definition TOKEN_TYPE :: string where
  "TOKEN_TYPE = ''toolserver_registration''"

definition issue_registration :: "'r redis \<Rightarrow> env \<Rightarrow> time \<Rightarrow> string \<Rightarrow> string \<Rightarrow> 'r \<Rightarrow> db \<Rightarrow> exn + string \<times> oauth_client \<times> string" where
  "issue_registration R E now registration_id service_token r s =
     (case decode_token E now service_token of
        Inl _ \<Rightarrow> Inl (HTTPException 401 ''Invalid service token'')
      | Inr payload \<Rightarrow>
          if assert_token_usable R now payload r s \<noteq> None then Inl (HTTPException 401 ''Invalid service token'')
          else if get_claim payload ''auth_method'' \<noteq> JStr ''client_credentials'' \<or> get_claim payload ''sub'' \<noteq> JNull
          then Inl (HTTPException 403 ''Service token required'')
          else (case find_client s (get_claim payload ''client_id'') of
                  None \<Rightarrow> Inl (HTTPException 403 ''Service identity is inactive'')
                | Some c \<Rightarrow>
                    if \<not> client_live now c then Inl (HTTPException 403 ''Service identity is inactive'')
                    else if \<not> same_text (get_claim payload ''org_id'') (oc_organization_id c)
                    then Inl (HTTPException 403 ''Service identity mismatch'')
                    else (case claim_set payload ''scopes'' of
                            Inl e \<Rightarrow> Inl e
                          | Inr xs \<Rightarrow>
                              if REGISTRATION_SCOPE \<notin> set xs \<or> REGISTRATION_SCOPE \<notin> set (oc_scopes c)
                              then Inl (HTTPException 403 ''Service registration not authorized'')
                              else Inr (create_toolserver_registration_token E now (oc_client_id c) (oc_organization_id c) registration_id,
                                        c, registration_id))))"

record registration_identity =
  ri_client_id :: string
  ri_organization_id :: string
  ri_scopes :: "string list"
  ri_registration_id :: string

definition introspect_registration :: "'r redis \<Rightarrow> env \<Rightarrow> time \<Rightarrow> string \<Rightarrow> 'r \<Rightarrow> db \<Rightarrow> registration_identity option" where
  "introspect_registration R E now token r s =
     (case decode_token_for_audience E now token TOOLSERVER_AUDIENCE of
        Inl _ \<Rightarrow> None
      | Inr payload \<Rightarrow>
          if get_claim payload ''aud'' \<noteq> JStr TOOLSERVER_AUDIENCE \<or> get_claim payload ''type'' \<noteq> JStr TOKEN_TYPE then None
          else if get_claim payload ''sub'' \<noteq> JNull \<or> get_claim payload ''email'' \<noteq> JNull then None
          else if get_claim payload ''scopes'' \<noteq> jstrs [REGISTRATION_SCOPE] \<or> \<not> jtruthy (get_claim payload ''jti'') then None
          else if assert_token_usable R now payload r s \<noteq> None then None
          else (case (find_client s (get_claim payload ''client_id''), sub_text (get_claim payload ''jti'')) of
                  (Some c, Some jti) \<Rightarrow>
                    if \<not> client_live now c \<or> \<not> same_text (get_claim payload ''org_id'') (oc_organization_id c)
                       \<or> REGISTRATION_SCOPE \<notin> set (oc_scopes c)
                    then None
                    else Some \<lparr>ri_client_id = oc_client_id c, ri_organization_id = show_int (oc_organization_id c),
                           ri_scopes = [REGISTRATION_SCOPE], ri_registration_id = jti\<rparr>
                | _ \<Rightarrow> None))"

subsection \<open>The routes\<close>

text \<open>Both routes record a denial or the issuing; the trace id is a request header.\<close>

definition http_detail :: "exn \<Rightarrow> string" where
  "http_detail e = (case e of HTTPException _ d \<Rightarrow> d | _ \<Rightarrow> [])"

definition is_http :: "exn \<Rightarrow> bool" where
  "is_http e = (case e of HTTPException _ _ \<Rightarrow> True | _ \<Rightarrow> False)"

definition issue_toolserver_delegation ::
  "'r redis \<Rightarrow> env \<Rightarrow> time \<Rightarrow> string \<Rightarrow> json \<Rightarrow> string \<Rightarrow> string \<Rightarrow> int \<Rightarrow> string list \<Rightarrow> string \<Rightarrow> 'r \<Rightarrow> db \<Rightarrow> db \<times> (exn + string \<times> int)" where
  "issue_toolserver_delegation R E now delegation_id trace_id service_token initiating_token org perms audience r s =
     (case issue_delegation R E now delegation_id service_token initiating_token org perms audience r s of
        Inl e \<Rightarrow>
          (if is_http e
           then log_event E now ((audit ''delegated_execution_token_denied'')
             \<lparr>a_org := Some org, a_meta := JObj [(''audience'', JStr audience), (''permissions'', jstrs (sorted_set perms)),
                 (''reason'', JStr (http_detail e)), (''trace_id'', trace_id)]\<rparr>) s
           else s, Inl e)
      | Inr (s1, token, g) \<Rightarrow>
          (log_event E now ((audit ''delegated_execution_token_issued'')
             \<lparr>a_actor := Some (dg_user_id g), a_target := Some (dg_user_id g), a_org := Some (dg_organization_id g),
              a_rtype := Some ''delegated_execution'', a_rid := Some (dg_delegation_id g),
              a_meta := JObj [(''client_id'', JStr (dg_client_id g)), (''audience'', JStr (dg_audience g)),
                 (''permissions'', jstrs (dg_permissions g)), (''delegation_id'', JStr (dg_delegation_id g)), (''trace_id'', trace_id)]\<rparr>) s1,
           Inr (token, DELEGATED_EXECUTION_TOKEN_EXPIRE_MINUTES (cfg E) * 60)))"

definition issue_toolserver_registration ::
  "'r redis \<Rightarrow> env \<Rightarrow> time \<Rightarrow> string \<Rightarrow> json \<Rightarrow> string \<Rightarrow> 'r \<Rightarrow> db \<Rightarrow> db \<times> (exn + string \<times> int)" where
  "issue_toolserver_registration R E now registration_id trace_id service_token r s =
     (case issue_registration R E now registration_id service_token r s of
        Inl e \<Rightarrow>
          (if is_http e
           then log_event E now ((audit ''toolserver_registration_token_denied'')
             \<lparr>a_meta := JObj [(''audience'', JStr TOOLSERVER_AUDIENCE), (''reason'', JStr (http_detail e)), (''trace_id'', trace_id)]\<rparr>) s
           else s, Inl e)
      | Inr (token, c, i) \<Rightarrow>
          (log_event E now ((audit ''toolserver_registration_token_issued'')
             \<lparr>a_org := Some (oc_organization_id c), a_rtype := Some ''toolserver_registration'', a_rid := Some i,
              a_meta := JObj [(''client_id'', JStr (oc_client_id c)), (''audience'', JStr TOOLSERVER_AUDIENCE),
                 (''scopes'', jstrs [REGISTRATION_SCOPE]), (''registration_id'', JStr i), (''trace_id'', trace_id)]\<rparr>) s,
           Inr (token, TOOLSERVER_REGISTRATION_TOKEN_EXPIRE_MINUTES (cfg E) * 60)))"

subsection \<open>Properties\<close>

lemma active_service_Inr:
  assumes "active_service E now token s = Inr (payload, c)"
  shows "decode_token E now token = Inr payload" "get_claim payload ''auth_method'' = JStr ''client_credentials''"
    "find_client s (get_claim payload ''client_id'') = Some c" "client_live now c" "DELEGATION_SCOPE \<in> set (oc_scopes c)"
  using assms by (auto simp: active_service_def split: sum.splits option.splits if_splits)

lemma user_membership_Inr:
  assumes "user_membership R E now token org r s = Inr (u, m)"
  shows "active_user s (u_id u) = Some u" "active_membership s (u_id u) org = Some m" "u_status u = ''active''" "m_status m = ''active''"
    "m_user_id m = u_id u" "m_organization_id m = org" "org \<in> o_id ` set (organizations s)"
proof -
  obtain uid where u: "active_user s uid = Some u" and m: "active_membership s uid org = Some m" and o: "find_org s org \<noteq> None"
    using assms by (auto simp: user_membership_def split: option.splits)
  have "u_id u = uid \<and> u_status u = ''active''" using query_first_Some [OF u [unfolded active_user_def]] by simp
  moreover have "m_user_id m = uid \<and> m_organization_id m = org \<and> m_status m = ''active''"
    using query_first_Some [OF m [unfolded active_membership_def]] by simp
  ultimately show "active_user s (u_id u) = Some u" "active_membership s (u_id u) org = Some m" "u_status u = ''active''" "m_status m = ''active''"
    "m_user_id m = u_id u" "m_organization_id m = org" "org \<in> o_id ` set (organizations s)" using u m o by (auto simp: find_org_None)
qed

lemma issue_delegation_Inr:
  assumes "issue_delegation R E now did st it org perms aud r s = Inr (s', token, g)"
  obtains payload c u m where "active_service E now st s = Inr (payload, c)" "user_membership R E now it org r s = Inr (u, m)"
    "perms \<noteq> []" "set perms \<subseteq> set ACCEPTED_PERMISSIONS" "set perms \<subseteq> set (user_permissions s u m)" "set perms \<subseteq> set (oc_scopes c)"
    "s' = s\<lparr>delegated_grants := delegated_grants s @ [g]\<rparr>" "did \<notin> dg_delegation_id ` set (delegated_grants s)"
    "token = create_delegated_execution_token E now (oc_client_id c) (u_id u) org (sorted_set perms) did"
    "g = \<lparr>dg_delegation_id = did, dg_client_id = oc_client_id c, dg_user_id = u_id u, dg_organization_id = org,
          dg_permissions = sorted_set perms, dg_audience = TOOLSERVER_AUDIENCE,
          dg_expires_at = now + minutes (DELEGATED_EXECUTION_TOKEN_EXPIRE_MINUTES (cfg E)), dg_created_at = now, dg_revoked_at = None, dg_revoked_reason = None\<rparr>"
proof -
  obtain payload c where a: "active_service E now st s = Inr (payload, c)" using assms by (auto simp: issue_delegation_def split: sum.splits)
  obtain u m where um: "user_membership R E now it org r s = Inr (u, m)"
    using assms a by (auto simp: issue_delegation_def split: sum.splits if_splits)
  obtain xs where xs: "claim_set payload ''scopes'' = Inr xs" using assms a um by (auto simp: issue_delegation_def split: sum.splits if_splits)
  note body = assms [unfolded issue_delegation_def a um xs sum.case prod.case Let_def]
  have aud: "aud = TOOLSERVER_AUDIENCE" using body by (simp split: if_split_asm)
  have g1: "perms \<noteq> []" "set perms \<subseteq> set ACCEPTED_PERMISSIONS" using body by (simp_all split: if_split_asm)
  have g2: "set perms \<subseteq> set (user_permissions s u m)" "set perms \<subseteq> set (oc_scopes c)" using body by (simp_all split: if_split_asm)
  have g3: "did \<notin> dg_delegation_id ` set (delegated_grants s)" using body by (auto simp: query_exists_def split: if_split_asm)
  have g4: "s' = s\<lparr>delegated_grants := delegated_grants s @ [g]\<rparr>"
    "token = create_delegated_execution_token E now (oc_client_id c) (u_id u) org (sorted_set perms) did"
    "g = \<lparr>dg_delegation_id = did, dg_client_id = oc_client_id c, dg_user_id = u_id u, dg_organization_id = org,
          dg_permissions = sorted_set perms, dg_audience = TOOLSERVER_AUDIENCE,
          dg_expires_at = now + minutes (DELEGATED_EXECUTION_TOKEN_EXPIRE_MINUTES (cfg E)), dg_created_at = now, dg_revoked_at = None, dg_revoked_reason = None\<rparr>"
    using body by (auto simp: aud split: if_split_asm)
  show ?thesis by (rule that [OF a um g1 g2 g4(1) g3 g4(2,3)])
qed

lemma issued_delegation_valid:
  assumes i: "issue_delegation R E now did st it org perms aud r s = Inr (s', token, g)"
    and ok: "distinct (map oc_client_id (oauth_clients s))" "distinct (map u_id (users s))" and did: "did \<noteq> []"
    and dec: "decode_token_for_audience E later token TOOLSERVER_AUDIENCE
        = Inr (signed_claims E (delegated_execution_claims E now (dg_client_id g) (dg_user_id g) org (sorted_set perms) did))"
    and up: "red_up R r'" "\<not> red_exists R later r' (blacklist_key did)" "did \<notin> rv_token_jti ` set (revoked_tokens s)"
    and time: "later \<le> dg_expires_at g" "list_all (\<lambda>c. oc_client_id c \<noteq> dg_client_id g \<or> client_live later c) (oauth_clients s)"
  shows "introspect_delegation R E later token r' s' = Some \<lparr>di_client_id = dg_client_id g, di_user_id = show_int (dg_user_id g),
          di_organization_id = show_int org, di_permissions = sorted_set perms, di_delegation_id = did\<rparr>"
proof -
  from i obtain payload c u m where a: "active_service E now st s = Inr (payload, c)" and um: "user_membership R E now it org r s = Inr (u, m)"
    and p: "perms \<noteq> []" "set perms \<subseteq> set ACCEPTED_PERMISSIONS" "set perms \<subseteq> set (user_permissions s u m)" "set perms \<subseteq> set (oc_scopes c)"
    and s': "s' = s\<lparr>delegated_grants := delegated_grants s @ [g]\<rparr>" and fresh: "did \<notin> dg_delegation_id ` set (delegated_grants s)"
    and "token = create_delegated_execution_token E now (oc_client_id c) (u_id u) org (sorted_set perms) did"
    and g: "g = \<lparr>dg_delegation_id = did, dg_client_id = oc_client_id c, dg_user_id = u_id u, dg_organization_id = org,
          dg_permissions = sorted_set perms, dg_audience = TOOLSERVER_AUDIENCE,
          dg_expires_at = now + minutes (DELEGATED_EXECUTION_TOKEN_EXPIRE_MINUTES (cfg E)), dg_created_at = now, dg_revoked_at = None, dg_revoked_reason = None\<rparr>"
    by (rule issue_delegation_Inr)
  note av = active_service_Inr [OF a] and mem = user_membership_Inr [OF um]
  let ?c = "signed_claims E (delegated_execution_claims E now (oc_client_id c) (u_id u) org (sorted_set perms) did)"
  have cl: "get_claim ?c ''type'' = JStr ''delegated_execution''" "get_claim ?c ''delegation_id'' = JStr did" "get_claim ?c ''jti'' = JStr did"
    "get_claim ?c ''sub'' = JStr (show_int (u_id u))" "get_claim ?c ''client_id'' = JStr (oc_client_id c)" "get_claim ?c ''org_id'' = JInt org"
    "get_claim ?c ''aud'' = JStr TOOLSERVER_AUDIENCE" "get_claim ?c ''permissions'' = jstrs (sorted_set (sorted_set perms))"
    by (simp_all add: signed_claims_def get_setdefault setdefault_def delegated_execution_claims_def TOOLSERVER_AUDIENCE_def)
  have cin: "c \<in> set (oauth_clients s)" using query_first_Some [OF av(3) [unfolded find_client_def]] by simp
  have fc: "find_client s' (JStr (oc_client_id c)) = Some c"
    using query_first_unique [OF ok(1) cin refl] by (simp add: find_client_def s')
  have live: "client_live later c" using time(2) cin by (auto simp: list_all_iff g)
  have uin: "u \<in> set (users s)" using query_first_Some [OF mem(1) [unfolded active_user_def]] by simp
  have "find_subject s' (JStr (show_int (u_id u))) = Some u"
    using query_first_unique [OF ok(2) uin refl] by (simp add: find_subject_def sub_text_def s')
  then have use: "assert_token_usable R later ?c r' s' = None"
    using cl up mem(3) did by (auto simp: assert_token_usable_def Let_def query_exists_def s')
  have q: "query_first (\<lambda>g. dg_delegation_id g = did \<and> dg_revoked_at g = None) (delegated_grants s') = Some g"
    using query_first_None [of "\<lambda>g. dg_delegation_id g = did \<and> dg_revoked_at g = None" "delegated_grants s"] fresh
    by (force simp: s' g query_first_append simp del: query_first_None)
  have gm: "grant_matches g ?c"
    unfolding grant_matches_def cl g
    by (simp add: same_text_def list_all_iff o_def sorted_set_cong [OF set_sorted_set])
  have au: "active_user s' (u_id u) = Some u" "active_membership s' (u_id u) org = Some m"
    using mem(1,2) by (simp_all add: active_user_def active_membership_def s')
  have ps: "set (sorted_set perms) \<subseteq> set (user_permissions s' u m)"
    using p(3) by (simp add: user_permissions_def permissions_for_roles_def roles_of_user_def permissions_for_membership_def roles_of_membership_def role_perms_def s')
  show ?thesis
    using dec time(1) q gm use cl(1,2,3) au ps fc live av(5) p(4)
    by (simp add: introspect_delegation_def g sub_text_def)
qed

text \<open>
  C23. A delegation is checked against both authorities every time. It is reported valid only
  if the row behind it is neither revoked nor expired, the client it was issued to is live and may
  still delegate, the user's account and membership are active, and what it permits is covered
  by the client's scopes and by the permissions the user's roles carry at that moment. Taking
  any of these back ends the delegation.
\<close>

theorem delegation_checked_now:
  assumes "introspect_delegation R E now token r s = Some d"
  shows "\<exists>g \<in> set (delegated_grants s). dg_delegation_id g = di_delegation_id d \<and> dg_permissions g = di_permissions d
       \<and> dg_client_id g = di_client_id d
       \<and> dg_revoked_at g = None \<and> now \<le> dg_expires_at g
       \<and> (\<exists>c u m. find_client s (JStr (di_client_id d)) = Some c \<and> client_live now c \<and> DELEGATION_SCOPE \<in> set (oc_scopes c)
            \<and> active_user s (dg_user_id g) = Some u \<and> active_membership s (dg_user_id g) (dg_organization_id g) = Some m
            \<and> set (di_permissions d) \<subseteq> set (oc_scopes c) \<inter> set (user_permissions s u m))"
proof -
  obtain payload where "decode_token_for_audience E now token TOOLSERVER_AUDIENCE = Inr payload"
    using assms by (auto simp: introspect_delegation_def split: sum.splits)
  note body = assms [unfolded introspect_delegation_def this sum.case]
  obtain i where i: "sub_text (get_claim payload ''delegation_id'') = Some i" using body by (auto split: option.splits if_splits)
  obtain g where g: "query_first (\<lambda>g. dg_delegation_id g = i \<and> dg_revoked_at g = None) (delegated_grants s) = Some g"
    using body by (auto simp: i split: option.splits if_splits)
  have live: "now \<le> dg_expires_at g" using body by (auto simp: i g split: if_split_asm)
  obtain c u m where cum: "find_client s (JStr (dg_client_id g)) = Some c" "active_user s (dg_user_id g) = Some u"
    "active_membership s (dg_user_id g) (dg_organization_id g) = Some m"
    using body by (auto simp: i g split: if_split_asm option.splits)
  have "client_live now c \<and> DELEGATION_SCOPE \<in> set (oc_scopes c) \<and> set (dg_permissions g) \<subseteq> set (oc_scopes c) \<inter> set (user_permissions s u m)
      \<and> dg_client_id g = di_client_id d \<and> dg_permissions g = di_permissions d \<and> i = di_delegation_id d"
    using body by (auto simp: i g cum split: if_split_asm)
  then show ?thesis using query_first_Some [OF g] live cum by (intro bexI [of _ g]) auto
qed

text \<open>
  Property. A delegation that was issued works. It is issued only for permissions the tool server
  accepts and that the user and the service both have; and from then on its token, decoded to
  what was signed, is reported valid with exactly the requested permissions at every moment up to
  its expiry at which the token has not been revoked and the client has not expired, as long as
  the database stays as it is.
\<close>

theorem delegation_round_trip:
  assumes i: "issue_delegation R E now did st it org perms aud r s = Inr (s', token, g)"
    and ok: "distinct (map oc_client_id (oauth_clients s))" "distinct (map u_id (users s))" and did: "did \<noteq> []"
    and dec: "decode_token_for_audience E later token TOOLSERVER_AUDIENCE
        = Inr (signed_claims E (delegated_execution_claims E now (dg_client_id g) (dg_user_id g) org (sorted_set perms) did))"
    and up: "red_up R r'" "\<not> red_exists R later r' (blacklist_key did)" "did \<notin> rv_token_jti ` set (revoked_tokens s)"
    and time: "later \<le> dg_expires_at g" "list_all (\<lambda>c. oc_client_id c \<noteq> dg_client_id g \<or> client_live later c) (oauth_clients s)"
  shows "set perms \<subseteq> {''workflow.execute'', ''runs.read''} \<and> perms \<noteq> []
     \<and> introspect_delegation R E later token r' s' = Some \<lparr>di_client_id = dg_client_id g, di_user_id = show_int (dg_user_id g),
          di_organization_id = show_int org, di_permissions = sorted_set perms, di_delegation_id = did\<rparr>"
proof -
  have "set perms \<subseteq> {''workflow.execute'', ''runs.read''} \<and> perms \<noteq> []" using i by (rule issue_delegation_Inr) (simp add: ACCEPTED_PERMISSIONS_def)
  then show ?thesis using issued_delegation_valid [OF assms] by blast
qed

text \<open>A client of the organization of \<open>guard_db\<close> acts for its member.\<close>

definition runner :: oauth_client where
  "runner = \<lparr>oc_id = 1, oc_organization_id = 7, oc_created_by_user_id = 1, oc_client_id = ''svc'', oc_client_secret_hash = ''h'',
     oc_name = None, oc_scopes = [''toolserver.delegate'', ''runs.read''], oc_status = ''active'', oc_created_at = 0, oc_expires_at = None,
     oc_last_used_at = None, oc_revoked_at = None, oc_revoked_reason = None\<rparr>"

definition runner_db :: db where
  "runner_db = guard_db\<lparr>oauth_clients := [runner]\<rparr>"

definition runner_token :: string where
  "runner_token = create_delegated_execution_token (sample_env Map.empty) 0 ''svc'' 1 7 [''runs.read''] ''d''"

definition runner_env :: env where
  "runner_env = sample_env [''svc'' \<mapsto> client_claims runner (oc_scopes runner), ''tok'' \<mapsto> guard_claims,
     runner_token \<mapsto> signed_claims (sample_env Map.empty) (delegated_execution_claims (sample_env Map.empty) 0 ''svc'' 1 7 [''runs.read''] ''d'')]"

lemma runner_token_neq: "runner_token \<noteq> ''svc''" "runner_token \<noteq> ''tok''"
  by (simp_all add: runner_token_def create_delegated_execution_token_def sign_def signed_claims_def setdefault_def delegated_execution_claims_def sample_env_def
      default_settings_def)

lemma runner_env_eqs:
  "create_delegated_execution_token runner_env 0 ''svc'' 1 7 [''runs.read''] ''d'' = runner_token"
  "delegated_execution_claims runner_env 0 cid uid org ps ''d'' = delegated_execution_claims (sample_env Map.empty) 0 cid uid org ps ''d''"
  "signed_claims runner_env = signed_claims (sample_env Map.empty)"
  by (simp_all add: runner_token_def runner_env_def create_delegated_execution_token_def sign_def signed_claims_def fun_eq_iff
      delegated_execution_claims_def sample_env_def)

lemma runner_issued:
  obtains s' g where "issue_delegation kv_redis runner_env 0 ''d'' ''svc'' ''tok'' 7 [''runs.read''] ''omnibioai-toolserver'' (True, []) runner_db
      = Inr (s', runner_token, g)" "dg_client_id g = ''svc''" "dg_user_id g = 1" "dg_expires_at g = minutes 5"
proof -
  have svc: "decode_token runner_env 0 ''svc'' = Inr (client_claims runner (oc_scopes runner))"
    using runner_token_neq by (simp add: decode_token_def decode_token_for_audience_def runner_env_def sample_env_def client_claims_def)
  have tok: "decode_token runner_env 0 ''tok'' = Inr guard_claims"
    using runner_token_neq by (simp add: decode_token_def decode_token_for_audience_def runner_env_def sample_env_def guard_claims_def)
  have a: "active_service runner_env 0 ''svc'' runner_db = Inr (client_claims runner (oc_scopes runner), runner)"
    by (simp add: active_service_def svc) (simp add: client_claims_def find_client_def runner_db_def runner_def client_live_def same_text_def claim_set_def
        DELEGATION_SCOPE_def)
  have "assert_token_usable kv_redis 0 guard_claims (True, []) runner_db = None"
    by (simp add: guard_claims_def assert_token_usable_def Let_def kv_redis_def live_entry_def kv_entry_def runner_db_def guard_db_def empty_db_def
        query_exists_def find_subject_def sub_text_def sample_user_def show_int_1)
  then have iu: "initiating_user kv_redis runner_env 0 ''tok'' (True, []) runner_db = Some 1"
    by (simp add: initiating_user_def tok guard_sub) (simp add: guard_claims_def)
  then have um: "user_membership kv_redis runner_env 0 ''tok'' 7 (True, []) runner_db = Inr (sample_user 1 ''ada'', hd (memberships guard_db))"
    by (simp add: user_membership_def active_user_def active_membership_def find_org_def) (simp add: runner_db_def guard_db_def sample_user_def)
  have "is_known_permission ''runs.read''" unfolding is_known_iff registered_names by simp
  moreover have "''runs.read'' \<in> set (user_permissions runner_db (sample_user 1 ''ada'') (hd (memberships guard_db)))"
    by (simp add: user_permissions_def runner_db_def guard_db_def empty_db_def permissions_for_membership_def permissions_for_roles_def
        roles_of_membership_def role_perms_def)
  moreover have "claim_set (client_claims runner (oc_scopes runner)) ''scopes'' = Inr [''toolserver.delegate'', ''runs.read'']"
    by (simp add: client_claims_def runner_def claim_set_def)
  moreover have "sorted_set [''runs.read''] = [''runs.read'']" by (simp add: sorted_set_def)
  moreover have "DELEGATED_EXECUTION_TOKEN_EXPIRE_MINUTES (cfg runner_env) = 5" by (simp add: runner_env_def sample_env_def default_settings_def)
  ultimately have "\<exists>s' g. issue_delegation kv_redis runner_env 0 ''d'' ''svc'' ''tok'' 7 [''runs.read''] ''omnibioai-toolserver'' (True, []) runner_db
      = Inr (s', runner_token, g) \<and> dg_client_id g = ''svc'' \<and> dg_user_id g = 1 \<and> dg_expires_at g = minutes 5"
    by (simp add: issue_delegation_def a um TOOLSERVER_AUDIENCE_def ACCEPTED_PERMISSIONS_def query_exists_def Let_def)
      (simp add: runner_def runner_db_def guard_db_def empty_db_def sample_user_def runner_env_eqs)
  then show ?thesis using that by blast
qed

lemma runner_checks:
  "decode_token_for_audience runner_env 0 runner_token TOOLSERVER_AUDIENCE
     = Inr (signed_claims runner_env (delegated_execution_claims runner_env 0 ''svc'' 1 7 (sorted_set [''runs.read'']) ''d''))"
  "distinct (map oc_client_id (oauth_clients runner_db))" "distinct (map u_id (users runner_db))" "''d'' \<noteq> []"
  "red_up kv_redis (True, [])" "\<not> red_exists kv_redis 0 (True, []) (blacklist_key ''d'')" "''d'' \<notin> rv_token_jti ` set (revoked_tokens runner_db)"
  "(0::time) \<le> minutes 5" "list_all (\<lambda>c. oc_client_id c \<noteq> ''svc'' \<or> client_live 0 c) (oauth_clients runner_db)"
proof -
  have "sorted_set [''runs.read''] = [''runs.read'']" by (simp add: sorted_set_def)
  then show "decode_token_for_audience runner_env 0 runner_token TOOLSERVER_AUDIENCE
     = Inr (signed_claims runner_env (delegated_execution_claims runner_env 0 ''svc'' 1 7 (sorted_set [''runs.read'']) ''d''))"
    unfolding runner_env_eqs
    by (simp add: decode_token_for_audience_def runner_env_def sample_env_def) (simp add: signed_claims_def get_setdefault delegated_execution_claims_def)
qed (simp_all add: runner_db_def guard_db_def empty_db_def kv_redis_def live_entry_def kv_entry_def minutes_def seconds_def client_live_def runner_def)

theorem delegation_round_trip_witness:
  "\<exists>s' d. introspect_delegation kv_redis runner_env 0 runner_token (True, []) s' = Some d \<and> di_permissions d = [''runs.read'']"
proof -
  obtain s' g where i: "issue_delegation kv_redis runner_env 0 ''d'' ''svc'' ''tok'' 7 [''runs.read''] ''omnibioai-toolserver'' (True, []) runner_db
      = Inr (s', runner_token, g)" and g: "dg_client_id g = ''svc''" "dg_user_id g = 1" "dg_expires_at g = minutes 5" by (rule runner_issued)
  show ?thesis using delegation_round_trip [OF i runner_checks(2-4), unfolded g, OF runner_checks(1,5-9)]
    by (intro exI conjI) (erule conjunct2 [OF conjunct2], simp add: sorted_set_def)
qed

theorem delegation_checked_now_witness:
  "\<exists>s' d g c. introspect_delegation kv_redis runner_env 0 runner_token (True, []) s' = Some d \<and> g \<in> set (delegated_grants s')
     \<and> di_permissions d = dg_permissions g \<and> set (dg_permissions g) \<subseteq> set (oc_scopes c) \<and> find_client s' (JStr (di_client_id d)) = Some c"
proof -
  obtain s' g where i: "issue_delegation kv_redis runner_env 0 ''d'' ''svc'' ''tok'' 7 [''runs.read''] ''omnibioai-toolserver'' (True, []) runner_db
      = Inr (s', runner_token, g)" and g: "dg_client_id g = ''svc''" "dg_user_id g = 1" "dg_expires_at g = minutes 5" by (rule runner_issued)
  note d = issued_delegation_valid [OF i runner_checks(2-4), unfolded g, OF runner_checks(1,5-9)]
  from delegation_checked_now [OF d] d show ?thesis by fastforce
qed

end
