(* ===== verification/Password_Policy.thy ===== *)
theory Password_Policy
  imports Email_Mfa Rbac
begin

text \<open>
  The rules a new local password has to meet: \<open>app/core/password_policy.py\<close>, the list of
  \<open>app/core/common_passwords.py\<close> and the lookup of \<open>app/core/compromised_password.py\<close>. The
  answer of the Pwned Passwords service is \<open>pwned_range\<close> of the environment; its parsing is
  translated. The Prometheus counters are left out.

  \<open>password_accepted_iff\<close> says exactly which passwords pass; it rests on \<open>compromised_iff\<close>, the
  meaning of the loop over the service's answer.
\<close>

subsection \<open>Python's text functions\<close>

text \<open>\<open>s.split(c)\<close> for a separator of one character.\<close>

fun split_char :: "char \<Rightarrow> string \<Rightarrow> string list" where
  "split_char c [] = [[]]"
| "split_char c (x # xs) = (if x = c then [] # split_char c xs else (x # hd (split_char c xs)) # tl (split_char c xs))"

text \<open>\<open>int(text)\<close>: a sign, then digits with single underscores between them.\<close>

fun digit_groups :: "string \<Rightarrow> bool" where
  "digit_groups [] = False"
| "digit_groups [c] = is_digit c"
| "digit_groups (c # d # s) = (is_digit c \<and> (if d = CHR ''_'' then digit_groups s else digit_groups (d # s)))"

definition py_int :: "string \<Rightarrow> int option" where
  "py_int text =
     (let s = str_strip text;
          (neg, ds) = (case s of [] \<Rightarrow> (False, [])
                        | c # r \<Rightarrow> if c = CHR ''-'' then (True, r) else if c = CHR ''+'' then (False, r) else (False, s))
      in if \<not> digit_groups ds then None
         else let n = int (read_nat (filter (\<lambda>c. c \<noteq> CHR ''_'') ds)) in Some (if neg then - n else n))"

subsection \<open>Common passwords\<close>

definition COMMON_PASSWORDS :: "string list" where
  "COMMON_PASSWORDS = [
    ''password'', ''password1'', ''password12'', ''password123'', ''password1234'', ''123456'', ''12345678'', ''123456789'',
    ''1234567890'', ''12345'', ''qwerty'', ''qwerty123'', ''qwertyuiop'', ''1q2w3e4r'', ''1q2w3e4r5t'', ''letmein'',
    ''letmein123'', ''welcome'', ''welcome1'', ''welcome123'', ''admin'', ''administrator'', ''admin123'', ''root'', ''toor'',
    ''iloveyou'', ''iloveyou1'', ''iloveyou123'', ''monkey'', ''monkey123'', ''dragon'', ''dragon123'', ''master'',
    ''master123'', ''superman'', ''trustno1'', ''sunshine'', ''sunshine1'', ''princess'', ''princess1'', ''football'',
    ''football1'', ''baseball'', ''baseball1'', ''basketball'', ''shadow'', ''shadow1'', ''michael'', ''michael1'', ''jennifer'',
    ''computer'', ''internet'', ''changeme'', ''changeme123'', ''default'', ''abc123'', ''abcd1234'', ''a1b2c3d4'', ''1234abcd'',
    ''qazwsx'', ''1qaz2wsx'', ''zxcvbnm'', ''asdfghjkl'', ''asdf1234'', ''starwars'', ''batman'', ''pokemon'', ''hunter2'',
    ''whatever'', ''whatever1'', ''letme1n'', ''passw0rd'', ''p@ssword'', ''p@ssw0rd'', ''pass1234'', ''test1234'', ''testtest'',
    ''temp1234'', ''temppass'', ''guest'', ''guest123'', ''user1234'', ''login123'', ''access123'', ''secret123'', ''freedom'',
    ''freedom1'', ''matrix'', ''matrix1'', ''ninja'', ''ninja123'', ''flower'', ''flower1'', ''loveme'', ''hello123'',
    ''hello1234'', ''welcome2023'', ''welcome2024'', ''spring2023'', ''spring2024'', ''summer2023'', ''summer2024'',
    ''autumn2023'', ''winter2023'', ''january2024'', ''chocolate'', ''cookie123'', ''banana123'', ''orange123'', ''purple123'',
    ''michelle'', ''jessica1'', ''jordan23'', ''george1'', ''charlie1'', ''1111111111'', ''0000000000'', ''9999999999'',
    ''aaaaaaaaaa'', ''zzzzzzzzzz'', ''qqqqqqqqqq'', ''121212121212'', ''123123123123'', ''654321654321'', ''111111000000''
  ]"

subsection \<open>Compromised passwords\<close>

record compromise_check_result =
  cc_performed :: bool
  cc_compromised :: bool
  cc_breach_count :: "int option"

definition sha1_prefix_suffix :: "env \<Rightarrow> string \<Rightarrow> string \<times> string" where
  "sha1_prefix_suffix E password = (let digest = str_upper (sha1_hex E password) in (take 5 digest, drop 5 digest))"

text \<open>The loop over the lines of the answer; padding lines have the count 0 and are passed over.\<close>

fun scan_range :: "string \<Rightarrow> string list \<Rightarrow> compromise_check_result" where
  "scan_range suffix [] = \<lparr>cc_performed = True, cc_compromised = False, cc_breach_count = None\<rparr>"
| "scan_range suffix (line # rest) =
     (case split_char (CHR '':'') (str_strip line) of
        [line_suffix, count_str] \<Rightarrow>
          if str_upper (str_strip line_suffix) = suffix
          then (let count = py_int (str_strip count_str)
                in if count = Some 0 then scan_range suffix rest
                   else \<lparr>cc_performed = True, cc_compromised = True, cc_breach_count = count\<rparr>)
          else scan_range suffix rest
      | _ \<Rightarrow> scan_range suffix rest)"

definition check_compromised :: "env \<Rightarrow> string \<Rightarrow> compromise_check_result" where
  "check_compromised E password =
     (let (prefix, suffix) = sha1_prefix_suffix E password
      in case pwned_range E prefix of
           None \<Rightarrow> \<lparr>cc_performed = False, cc_compromised = False, cc_breach_count = None\<rparr>
         | Some lines \<Rightarrow> scan_range suffix lines)"

subsection \<open>The policy\<close>

definition validate_new_password :: "env \<Rightarrow> string \<Rightarrow> string option \<Rightarrow> exn option" where
  "validate_new_password E password email =
     (if int (length password) < PASSWORD_MIN_LENGTH (cfg E) then Some (PasswordPolicyError ''too_short'')
      else if int (length password) > PASSWORD_MAX_LENGTH (cfg E) then Some (PasswordPolicyError ''too_long'')
      else if truthy email \<and> str_lower (str_strip password) = str_lower (str_strip (the email))
      then Some (PasswordPolicyError ''matches_email'')
      else if str_lower password \<in> set COMMON_PASSWORDS then Some (PasswordPolicyError ''common_password'')
      else if PASSWORD_COMPROMISE_CHECK_ENABLED (cfg E)
      then (let result = check_compromised E password
            in if \<not> cc_performed result
               then if PASSWORD_COMPROMISE_CHECK_FAIL_CLOSED (cfg E) then Some (PasswordPolicyError ''check_unavailable'') else None
               else if cc_compromised result then Some (PasswordPolicyError ''compromised'') else None)
      else None)"

subsection \<open>What passes\<close>

text \<open>A line of the answer that reports a breach of the suffix.\<close>

definition reports :: "string \<Rightarrow> string \<Rightarrow> bool" where
  "reports suffix line \<longleftrightarrow>
     (\<exists>a b. split_char (CHR '':'') (str_strip line) = [a, b] \<and> str_upper (str_strip a) = suffix \<and> py_int (str_strip b) \<noteq> Some 0)"

lemma scan_range_iff:
  "cc_performed (scan_range suffix lines) \<and> (cc_compromised (scan_range suffix lines) \<longleftrightarrow> list_ex (reports suffix) lines)"
proof (induction lines)
  case (Cons line rest)
  then show ?case
    by (auto simp: reports_def Let_def split: list.splits)
qed simp

lemma compromised_iff:
  "cc_performed (check_compromised E p) \<longleftrightarrow> pwned_range E (take 5 (str_upper (sha1_hex E p))) \<noteq> None"
  "cc_compromised (check_compromised E p) \<longleftrightarrow>
     (case pwned_range E (take 5 (str_upper (sha1_hex E p))) of None \<Rightarrow> False
      | Some lines \<Rightarrow> list_ex (reports (drop 5 (str_upper (sha1_hex E p)))) lines)"
  using scan_range_iff by (auto simp: check_compromised_def sha1_prefix_suffix_def Let_def split: option.split)

text \<open>
  An answer of the service that has no line of the form \<open>suffix:count\<close> counts as a check that was
  performed and found nothing. The documentation calls a malformed answer an outage, but the
  setting \<open>PASSWORD_COMPROMISE_CHECK_FAIL_CLOSED\<close> does not see it.
\<close>

lemma malformed_answer_passes:
  assumes "pwned_range E (take 5 (str_upper (sha1_hex E p))) = Some lines"
    and "\<forall>line \<in> set lines. length (split_char (CHR '':'') (str_strip line)) \<noteq> 2"
  shows "cc_performed (check_compromised E p)" "\<not> cc_compromised (check_compromised E p)"
    "(if PASSWORD_COMPROMISE_CHECK_ENABLED (cfg E) then validate_new_password E p email \<noteq> Some (PasswordPolicyError ''check_unavailable'') else True)"
proof -
  show c: "cc_performed (check_compromised E p)" using assms(1) by (simp add: compromised_iff)
  have "\<not> reports suffix line" if "line \<in> set lines" for suffix line using assms(2) that by (auto simp: reports_def)
  then show "\<not> cc_compromised (check_compromised E p)" using assms(1) by (auto simp: compromised_iff list_ex_iff)
  show "if PASSWORD_COMPROMISE_CHECK_ENABLED (cfg E) then validate_new_password E p email \<noteq> Some (PasswordPolicyError ''check_unavailable'') else True"
    using c by (simp add: validate_new_password_def Let_def)
qed

text \<open>
  C38. Exactly which new passwords are accepted: those of an allowed length that are not the
  e-mail address in another case or with other spaces around it, are not on the list of common
  passwords in any case, and that the lookup of breached passwords does not stop. With
  \<open>PASSWORD_COMPROMISE_CHECK_ENABLED\<close> off the lookup stops none, whatever the other setting. With
  it on, it stops a password whose digest some line of the service's answer reports with a count
  other than 0 (a padding line, count 0, rejects none); and if there is no answer, because the
  service cannot be reached or reports an error, it stops every password if
  \<open>PASSWORD_COMPROMISE_CHECK_FAIL_CLOSED\<close> is on and none otherwise. Lines of an answer that are
  not of the expected form are passed over, so a malformed answer is no missing one.
\<close>

theorem password_accepted_iff:
  "validate_new_password E p email = None \<longleftrightarrow>
     PASSWORD_MIN_LENGTH (cfg E) \<le> int (length p) \<and> int (length p) \<le> PASSWORD_MAX_LENGTH (cfg E)
   \<and> \<not> (truthy email \<and> str_lower (str_strip p) = str_lower (str_strip (the email)))
   \<and> str_lower p \<notin> set COMMON_PASSWORDS
   \<and> \<not> (PASSWORD_COMPROMISE_CHECK_ENABLED (cfg E)
        \<and> (case pwned_range E (take 5 (str_upper (sha1_hex E p))) of
             None \<Rightarrow> PASSWORD_COMPROMISE_CHECK_FAIL_CLOSED (cfg E)
           | Some lines \<Rightarrow> list_ex (reports (drop 5 (str_upper (sha1_hex E p)))) lines))"
  by (auto simp: validate_new_password_def Let_def compromised_iff split: option.splits if_splits)

lemma policy_checks:
  "split_char (CHR '':'') ''00AB:12'' = [''00AB'', ''12'']" "py_int '' 1_000'' = Some 1000" "py_int ''1__0'' = None"
  "py_int ''+'' = None" "reports ''00AB'' ''00ab:3''" "\<not> reports ''00AB'' ''00AB:0''"
  by (simp_all add: py_int_def str_strip_def rstrip_by_def is_space_def is_digit_def read_nat_def digit_val_def reports_def
      str_upper_def upper_char_def Let_def char_of_def bit_0 bit_Suc)

end
