(* ===== verification/Write_Frames.thy ===== *)
theory Write_Frames
  imports Password_Policy Mfa_Service
begin

text \<open>
  Which tables the operations on roles, second factors and the ledger write: each is stated once
  as an equation that writes the new contents of those tables back into the old state, and the
  frames of all other tables follow from it.
\<close>

lemma goc_permissions_writes:
  "fst (get_or_create_permissions ns s) = s\<lparr>permissions := permissions (fst (get_or_create_permissions ns s))\<rparr>"
proof (induction ns arbitrary: s)
  case (Cons n ns)
  show ?case
  proof (cases "query_first (\<lambda>p. p_name p = n) (permissions s)")
    case None
    let ?s1 = "s\<lparr>permissions := permissions s @ [\<lparr>p_id = next_id p_id (permissions s), p_name = n\<rparr>]\<rparr>"
    have st: "fst (get_or_create_permissions (n # ns) s) = fst (get_or_create_permissions ns ?s1)"
      using None by (simp add: Let_def split: prod.split del: query_first_None)
    show ?thesis unfolding st by (subst Cons.IH) simp
  next
    case (Some p)
    have st: "fst (get_or_create_permissions (n # ns) s) = fst (get_or_create_permissions ns s)"
      using Some by (simp add: Let_def split: prod.split)
    show ?thesis unfolding st by (rule Cons.IH)
  qed
qed simp

lemma get_or_create_role_writes:
  "fst (get_or_create_role n ps s) = s\<lparr>permissions := permissions (fst (get_or_create_role n ps s)),
     roles := roles (fst (get_or_create_role n ps s)), role_permissions := role_permissions (fst (get_or_create_role n ps s))\<rparr>"
proof (cases "get_role_by_name s n None")
  case None
  obtain s1 xs where g: "get_or_create_permissions ps s = (s1, xs)" by fastforce
  have s1: "s1 = s\<lparr>permissions := permissions s1\<rparr>" using goc_permissions_writes [of ps s] g by simp
  show ?thesis using None g by (simp add: get_or_create_role_def add_role_def Let_def) (subst s1, simp)
next
  case (Some r)
  then show ?thesis by (simp add: get_or_create_role_def)
qed

lemma assign_default_role_writes:
  "assign_default_role u s = s\<lparr>permissions := permissions (assign_default_role u s), roles := roles (assign_default_role u s),
     role_permissions := role_permissions (assign_default_role u s), user_roles := user_roles (assign_default_role u s)\<rparr>"
proof -
  obtain s1 r where g: "get_or_create_role ''user'' [] s = (s1, r)" by fastforce
  have s1: "s1 = s\<lparr>permissions := permissions s1, roles := roles s1, role_permissions := role_permissions s1\<rparr>"
    using get_or_create_role_writes [of "''user''" "[]" s] g by simp
  have "user_roles s1 = user_roles s" by (subst s1) simp
  then show ?thesis using g by (simp add: assign_default_role_def) (intro conjI impI; subst s1, simp)
qed

lemma resolve_roles_writes:
  "fst (resolve_roles_for_org E now ns org admin actor target s)
     = s\<lparr>audit_events := audit_events (fst (resolve_roles_for_org E now ns org admin actor target s))\<rparr>"
  using resolve_for_org_state [of E now ns org admin actor target s] by (elim disjE exE) (simp_all add: log_event_def)

lemma claim_device_writes:
  "fst (claim_device E now code ds s) = s\<lparr>mfa_used_totp_steps := mfa_used_totp_steps (fst (claim_device E now code ds s))\<rparr>"
proof (induction ds arbitrary: s)
  case (Cons d ds)
  have claim: "fst (try_claim_totp_step now i k s) = s\<lparr>mfa_used_totp_steps := mfa_used_totp_steps (fst (try_claim_totp_step now i k s))\<rparr>" for i k s
    by (simp add: try_claim_totp_step_def)
  show ?case
  proof (cases "\<exists>secret k. crypto_decrypt E (d_encrypted_secret d) = Some secret \<and> totp_matched_step E secret code (whole_seconds now) = Inr (Some k)")
    case True
    then obtain secret k where sk: "crypto_decrypt E (d_encrypted_secret d) = Some secret"
      "totp_matched_step E secret code (whole_seconds now) = Inr (Some k)" by blast
    obtain s' b where c: "try_claim_totp_step now (d_id d) k s = (s', b)" by fastforce
    have s': "s' = s\<lparr>mfa_used_totp_steps := mfa_used_totp_steps s'\<rparr>" using claim [of "d_id d" k s] c by simp
    show ?thesis
    proof (cases b)
      case True
      then show ?thesis using sk c s' by simp
    next
      case False
      have st: "fst (claim_device E now code (d # ds) s) = fst (claim_device E now code ds s')" using sk c False by simp
      show ?thesis unfolding st by (subst Cons.IH, subst s') simp
    qed
  next
    case False
    then have st: "fst (claim_device E now code (d # ds) s) = fst (claim_device E now code ds s)"
      by (auto split: option.split sum.split)
    show ?thesis unfolding st by (rule Cons.IH)
  qed
qed simp

lemma step_up_writes:
  "fst (verify_user_totp_step_up E now uid code s)
     = s\<lparr>mfa_used_totp_steps := mfa_used_totp_steps (fst (verify_user_totp_step_up E now uid code s))\<rparr>"
  using claim_device_writes [of E now code "step_up_devices s uid" s]
  by (cases "claim_device E now code (step_up_devices s uid) s") (simp add: verify_user_totp_step_up_def)

text \<open>A frame: a field of the state that survives every listed write.\<close>

lemma frame_by: "s' = g s \<Longrightarrow> (\<And>s. field (g s) = field s) \<Longrightarrow> field s' = field s"
  by simp

end
