(* ===== verification/Licenses.thy ===== *)
theory Licenses
  imports Service_Clients Write_Frames
begin

text \<open>
  \<open>app/services/license_service.py\<close> and \<open>app/services/manual_license_service.py\<close>: license keys, their
  validation and use, and the privileged issuance with its idempotency record. Drawn keys are a
  stream; the loops that look for an unused one are partial functions over it, and \<open>None\<close> is a
  loop that never ends. A \<open>ManualLicenseError\<close> keeps its code and its HTTP status, not its text;
  a row that \<open>.one()\<close> does not find is \<open>LookupError ''NoResultFound''\<close>. The bullets of a
  masked key lie outside of Latin-1 and are an argument.

  The theory shows that a revoked license stays revoked and validates nobody, that a key belongs
  to the first account that used it, that an issuance is carried out once however often its
  request is repeated, and that it leaves its owner one active license.
\<close>

subsection \<open>Keys\<close>

definition LICENSE_ALPHABET :: string where
  "LICENSE_ALPHABET = ''ABCDEFGHJKMNPQRSTUVWXYZ23456789''"

text \<open>Four groups of four letters, given by the sixteen indices \<open>secrets.choice\<close> draws.\<close>

definition generate_key :: "nat list \<Rightarrow> string" where
  "generate_key draw =
     (let l = map (\<lambda>i. LICENSE_ALPHABET ! i) draw
      in ''OMNI-'' @ str_join ''-'' (map (\<lambda>g. take 4 (drop (4 * g) l)) [0..<4]))"

definition normalize_key :: "string \<Rightarrow> string" where
  "normalize_key key = str_upper (str_strip key)"

definition digest_key :: "env \<Rightarrow> string \<Rightarrow> exn + string" where
  "digest_key E key =
     (if LICENSE_KEY_PEPPER (cfg E) = [] then Inl (RuntimeError ''LICENSE_KEY_PEPPER is required for new license issuance'')
      else Inr (hmac_sha256_hex E (LICENSE_KEY_PEPPER (cfg E)) (normalize_key key)))"

definition lookup_license :: "env \<Rightarrow> db \<Rightarrow> string \<Rightarrow> license_key option" where
  "lookup_license E s key =
     (let normalized = normalize_key key;
          found = (case digest_key E normalized of Inl _ \<Rightarrow> None | Inr d \<Rightarrow> query_first (\<lambda>l. lk_key_digest l = Some d) (license_keys s))
      in case found of
           Some l \<Rightarrow> Some l
         | None \<Rightarrow> query_first (\<lambda>l. lk_key l = Some normalized \<and> lk_key_digest l = None) (license_keys s))"

text \<open>\<open>license_key.key_prefix or ((license_key.key or "")[:9])\<close>\<close>

definition shown_prefix :: "license_key \<Rightarrow> string" where
  "shown_prefix l = (if truthy (lk_key_prefix l) then the (lk_key_prefix l) else take 9 (case lk_key l of None \<Rightarrow> '''' | Some k \<Rightarrow> k))"

definition masked_key :: "string \<Rightarrow> license_key \<Rightarrow> string" where
  "masked_key bullets l = (if shown_prefix l = [] then ''OMNI'' else shown_prefix l) @ bullets"

definition masked_text :: "string \<Rightarrow> string \<Rightarrow> string" where
  "masked_text bullets key = take 9 key @ bullets"

text \<open>The first value of a stream that is not taken.\<close>

partial_function (option) first_free :: "(nat \<Rightarrow> 'a) \<Rightarrow> ('a \<Rightarrow> bool) \<Rightarrow> nat \<Rightarrow> 'a option" where
  "first_free xs taken i = (if taken (xs i) then first_free xs taken (i + 1) else Some (xs i))"

subsection \<open>Plain licenses\<close>

definition create_license ::
  "time \<Rightarrow> (nat \<Rightarrow> nat list) \<Rightarrow> string \<Rightarrow> string \<Rightarrow> string \<Rightarrow> int option \<Rightarrow> int \<Rightarrow> db \<Rightarrow> (db \<times> license_key) option" where
  "create_license now draws email plan platform expires_days max_uses s =
     map_option (\<lambda>key.
       let l = \<lparr>lk_id = next_id lk_id (license_keys s), lk_key = Some key, lk_key_digest = None, lk_key_prefix = None, lk_user_id = None,
                lk_email = email, lk_recipient_name = None, lk_plan = plan, lk_platform = platform, lk_max_uses = max_uses, lk_usage_count = 0,
                lk_created_at = now, lk_expires_at = map_option (\<lambda>d. now + days d) expires_days, lk_last_used_at = None, lk_revoked_at = None,
                lk_revoked_reason = None, lk_renewed_at = None, lk_organization_id = None, lk_machine_id = None\<rparr>
       in (s\<lparr>license_keys := license_keys s @ [l]\<rparr>, l))
     (first_free (\<lambda>i. generate_key (draws i)) (\<lambda>k. query_exists (\<lambda>l. lk_key l = Some k) (license_keys s)) 0)"

text \<open>With the digest of the key, which the caller has made sure exists.\<close>

definition create_manual_license ::
  "env \<Rightarrow> time \<Rightarrow> (nat \<Rightarrow> nat list) \<Rightarrow> string \<Rightarrow> int \<Rightarrow> int \<Rightarrow> string \<Rightarrow> string \<Rightarrow> int \<Rightarrow> int \<Rightarrow> string option \<Rightarrow> db
     \<Rightarrow> (exn + db \<times> license_key \<times> string) option" where
  "create_manual_license E now draws email user_id organization_id plan platform expires_days max_uses recipient s =
     (case digest_key E (generate_key (draws 0)) of
        Inl e \<Rightarrow> Some (Inl e)
      | Inr _ \<Rightarrow>
          map_option (\<lambda>(key, digest).
            let l = \<lparr>lk_id = next_id lk_id (license_keys s), lk_key = None, lk_key_digest = Some digest, lk_key_prefix = Some (take 9 key),
                     lk_user_id = Some user_id, lk_email = email, lk_recipient_name = recipient, lk_plan = plan, lk_platform = platform,
                     lk_max_uses = max_uses, lk_usage_count = 0, lk_created_at = now, lk_expires_at = Some (now + days expires_days),
                     lk_last_used_at = None, lk_revoked_at = None, lk_revoked_reason = None, lk_renewed_at = None,
                     lk_organization_id = Some organization_id, lk_machine_id = None\<rparr>
            in Inr (s\<lparr>license_keys := license_keys s @ [l]\<rparr>, l, key))
          (first_free (\<lambda>i. (generate_key (draws i), hmac_sha256_hex E (LICENSE_KEY_PEPPER (cfg E)) (normalize_key (generate_key (draws i)))))
             (\<lambda>(k, d). query_exists (\<lambda>l. lk_key_digest l = Some d) (license_keys s)) 0))"

definition license_live :: "time \<Rightarrow> license_key \<Rightarrow> bool" where
  "license_live now l \<longleftrightarrow> lk_revoked_at l = None \<and> (case lk_expires_at l of None \<Rightarrow> True | Some x \<Rightarrow> now < x)"

definition is_email_approved :: "time \<Rightarrow> db \<Rightarrow> string \<Rightarrow> bool" where
  "is_email_approved now s email = query_exists (\<lambda>l. str_lower (lk_email l) = str_lower email \<and> license_live now l) (license_keys s)"

definition licensed_user :: "time \<Rightarrow> string \<Rightarrow> db \<Rightarrow> user" where
  "licensed_user now email s =
     \<lparr>u_id = next_id u_id (users s), u_email = email, u_hashed_password = None,
      u_status = ''active'', u_preferred_timezone = None, u_created_at = Some now, u_status_changed_at = None,
      u_status_changed_reason = None, u_status_changed_by_user_id = None, u_last_login_at = None, u_authentication_method = None,
      u_mfa_enabled = False, u_mfa_status = ''disabled'', u_mfa_primary_method = None, u_mfa_enabled_at = None,
      u_mfa_last_verified_at = None\<rparr>"

definition get_or_create_user_for_email :: "time \<Rightarrow> string \<Rightarrow> db \<Rightarrow> db \<times> user" where
  "get_or_create_user_for_email now email s =
     (case find_user_by_email s email of
        Some u \<Rightarrow> (s, u)
      | None \<Rightarrow> let u = licensed_user now email s in (assign_default_role u (s\<lparr>users := users s @ [u]\<rparr>), u))"

text \<open>The license, or the reason against it.\<close>

definition validate_and_consume :: "env \<Rightarrow> time \<Rightarrow> db \<Rightarrow> string \<Rightarrow> string option \<Rightarrow> string \<Rightarrow> string + license_key" where
  "validate_and_consume E now s key email platform =
     (case lookup_license E s key of
        None \<Rightarrow> Inl ''invalid_key''
      | Some l \<Rightarrow>
          if lk_revoked_at l \<noteq> None then Inl ''revoked''
          else if (case lk_expires_at l of None \<Rightarrow> False | Some x \<Rightarrow> x \<le> now) then Inl ''expired''
          else if lk_user_id l = None \<and> lk_max_uses l \<le> lk_usage_count l then Inl ''usage_exhausted''
          else if lk_platform l \<noteq> ''both'' \<and> lk_platform l \<noteq> platform then Inl ''platform_mismatch''
          else if email \<noteq> None \<and> Some (lk_email l) \<noteq> email then Inl ''email_mismatch''
          else Inr l)"

definition set_license :: "int \<Rightarrow> (license_key \<Rightarrow> license_key) \<Rightarrow> db \<Rightarrow> db" where
  "set_license i f s = s\<lparr>license_keys := update_where (\<lambda>l. lk_id l = i) f (license_keys s)\<rparr>"

definition bind_machine_id :: "license_key \<Rightarrow> string \<Rightarrow> db \<Rightarrow> db" where
  "bind_machine_id l machine s = (if lk_machine_id l = None then set_license (lk_id l) (\<lambda>x. x\<lparr>lk_machine_id := Some machine\<rparr>) s else s)"

definition mark_license_used :: "time \<Rightarrow> license_key \<Rightarrow> user \<Rightarrow> db \<Rightarrow> db" where
  "mark_license_used now l u s =
     set_license (lk_id l) (\<lambda>x.
       let x = (if lk_user_id x = None then x\<lparr>lk_usage_count := lk_usage_count x + 1, lk_user_id := Some (u_id u)\<rparr> else x)
       in x\<lparr>lk_last_used_at := Some now\<rparr>) s"

text \<open>The newest license of an account, of equals the first.\<close>

definition get_status_for_user :: "db \<Rightarrow> int \<Rightarrow> license_key option" where
  "get_status_for_user s uid =
     (case sort_key (\<lambda>l. - lk_created_at l) (filter (\<lambda>l. lk_user_id l = Some uid) (license_keys s)) of [] \<Rightarrow> None | l # _ \<Rightarrow> Some l)"

definition revoke_license_key :: "time \<Rightarrow> string \<Rightarrow> string option \<Rightarrow> db \<Rightarrow> db \<times> bool" where
  "revoke_license_key now key reason s =
     (case query_first (\<lambda>l. lk_key l = Some key) (license_keys s) of
        None \<Rightarrow> (s, False)
      | Some l \<Rightarrow> (set_license (lk_id l) (\<lambda>x. x\<lparr>lk_revoked_at := Some now, lk_revoked_reason := reason\<rparr>) s, True))"

subsection \<open>Privileged issuance\<close>

definition PERSONA_ROLES :: "string \<rightharpoonup> string" where
  "PERSONA_ROLES = [''developer'' \<mapsto> ''scientist'', ''application_user'' \<mapsto> ''org_member'']"

definition require_validity :: "env \<Rightarrow> int \<Rightarrow> exn option" where
  "require_validity E n =
     (if LICENSE_ALLOWED_VALIDITY_DAYS (cfg E) = [] then Some (ManualLicenseError ''validity_policy_unconfigured'' 503)
      else if n \<notin> set (LICENSE_ALLOWED_VALIDITY_DAYS (cfg E)) then Some (ManualLicenseError ''unsupported_validity'' 422)
      else None)"

definition status_for :: "time \<Rightarrow> license_key \<Rightarrow> string" where
  "status_for now l =
     (if lk_revoked_at l \<noteq> None then ''revoked''
      else if (case lk_expires_at l of None \<Rightarrow> False | Some x \<Rightarrow> x \<le> now) then ''expired'' else ''active'')"

text \<open>The row with what \<open>metadata_for\<close> adds to it.\<close>

record license_metadata =
  lm_license :: license_key
  lm_key_prefix :: string
  lm_masked_key :: string
  lm_persona :: "string option"
  lm_iam_role :: "string option"
  lm_status :: string

definition metadata_for :: "string \<Rightarrow> time \<Rightarrow> db \<Rightarrow> license_key \<Rightarrow> license_metadata" where
  "metadata_for bullets now s l =
     (let membership = (case (lk_user_id l, lk_organization_id l) of (Some u, Some org) \<Rightarrow> get_membership s org u | _ \<Rightarrow> None);
          names = (case membership of None \<Rightarrow> [] | Some m \<Rightarrow> map r_name (roles_of_membership s m));
          persona = (if ''scientist'' \<in> set names then Some ''developer'' else if ''org_member'' \<in> set names then Some ''application_user'' else None)
      in \<lparr>lm_license = l, lm_key_prefix = shown_prefix l, lm_masked_key = masked_key bullets l, lm_persona = persona,
          lm_iam_role = (case persona of None \<Rightarrow> None | Some p \<Rightarrow> PERSONA_ROLES p), lm_status = status_for now l\<rparr>)"

text \<open>\<open>json.dumps\<close> escapes every character outside of printable ASCII.\<close>

definition ascii_char :: "char \<Rightarrow> string" where
  "ascii_char c = (let n = of_char c :: nat in
     if n < 127 then [c] else [CHR 0x5C, CHR ''u'', CHR ''0'', CHR ''0'', Canonical_Json.hex_digit (n div 16), Canonical_Json.hex_digit (n mod 16)])"

definition fingerprint :: "env \<Rightarrow> json \<Rightarrow> string" where
  "fingerprint E payload = sha256_hex E (concat (map ascii_char (json_dumps payload)))"

definition idempotency_hash :: "env \<Rightarrow> string \<Rightarrow> string" where
  "idempotency_hash E v = sha256_hex E v"

record license_order =
  or_full_name :: string
  or_email :: string
  or_persona :: string
  or_validity_days :: int
  or_organization_id :: int
  or_confirm_role_change :: bool
  or_confirm_replace_existing :: bool

definition order_email :: "license_order \<Rightarrow> string" where
  "order_email q = str_lower (str_strip (or_email q))"

definition order_name :: "license_order \<Rightarrow> string" where
  "order_name q = str_join '' '' (str_split (or_full_name q))"

definition order_fingerprint :: "env \<Rightarrow> license_order \<Rightarrow> string" where
  "order_fingerprint E q = fingerprint E (JObj [(''full_name'', JStr (order_name q)), (''email'', JStr (order_email q)),
     (''persona'', JStr (or_persona q)), (''validity_days'', JInt (or_validity_days q)), (''organization_id'', JInt (or_organization_id q)),
     (''confirm_role_change'', JBool (or_confirm_role_change q)), (''confirm_replace_existing'', JBool (or_confirm_replace_existing q))])"

text \<open>The refusals before the idempotency record is looked at.\<close>

definition order_refused :: "env \<Rightarrow> string \<Rightarrow> license_order \<Rightarrow> exn option" where
  "order_refused E idem q =
     (case require_validity E (or_validity_days q) of
        Some e \<Rightarrow> Some e
      | None \<Rightarrow>
          if LICENSE_KEY_PEPPER (cfg E) = [] then Some (ManualLicenseError ''key_verifier_unconfigured'' 503)
          else if length (str_strip idem) < 16 \<or> 200 < length idem then Some (ManualLicenseError ''invalid_idempotency_key'' 422)
          else None)"

definition find_issuance :: "db \<Rightarrow> int \<Rightarrow> string \<Rightarrow> license_issuance_request option" where
  "find_issuance s actor key_hash = query_first (\<lambda>x. li_actor_user_id x = actor \<and> li_idempotency_key_hash x = key_hash) (license_requests s)"

definition replayed :: "db \<Rightarrow> string \<Rightarrow> license_issuance_request \<Rightarrow> exn + license_key" where
  "replayed s finger x =
     (if li_request_fingerprint x \<noteq> finger then Inl (ManualLicenseError ''idempotency_conflict'' 409)
      else case li_license_id x of
        None \<Rightarrow> Inl (ManualLicenseError ''issuance_in_progress'' 409)
      | Some i \<Rightarrow> (case query_first (\<lambda>l. lk_id l = i) (license_keys s) of None \<Rightarrow> Inl (LookupError ''NoResultFound'') | Some l \<Rightarrow> Inr l))"

definition license_owner :: "db \<Rightarrow> string \<Rightarrow> int \<Rightarrow> exn + user \<times> org_membership" where
  "license_owner s email org =
     (case query_first (\<lambda>u. str_lower (u_email u) = email) (users s) of
        None \<Rightarrow> Inl (ManualLicenseError ''provisioning_required'' 409)
      | Some u \<Rightarrow>
          if u_status u \<noteq> ''active'' then Inl (ManualLicenseError ''identity_inactive'' 409)
          else (case query_first (\<lambda>m. m_user_id m = u_id u \<and> m_organization_id m = org \<and> m_status m = ''active'') (memberships s) of
                  None \<Rightarrow> Inl (ManualLicenseError ''organization_membership_required'' 404)
                | Some m \<Rightarrow> Inr (u, m)))"

text \<open>The roles a persona stands for; the missing ones are created.\<close>

definition persona_roles :: "string \<Rightarrow> db \<Rightarrow> exn + db \<times> role \<times> role" where
  "persona_roles persona s =
     (case (if PERSONA_ROLES persona = Some ''org_member'' then Some (get_or_create_role ''org_member'' [] s)
            else if PERSONA_ROLES persona = Some ''scientist'' then Some (get_or_create_role ''scientist'' SCIENTIST_PERMISSIONS s)
            else None) of
        None \<Rightarrow> Inl (ManualLicenseError ''iam_role_unavailable'' 503)
      | Some (s1, persona_role) \<Rightarrow> let (s2, user_role) = get_or_create_role ''user'' [] s1 in Inr (s2, persona_role, user_role))"

definition opposite_role :: "db \<Rightarrow> string \<Rightarrow> int \<Rightarrow> org_membership \<Rightarrow> role option" where
  "opposite_role s persona org m =
     (case get_role_in_scope s (if PERSONA_ROLES persona = Some ''scientist'' then ''org_member'' else ''scientist'') org of
        None \<Rightarrow> None
      | Some r \<Rightarrow> if (m_id m, r_id r) \<in> set (membership_roles s) then Some r else None)"

definition needs_role_change :: "db \<Rightarrow> user \<Rightarrow> org_membership \<Rightarrow> role \<Rightarrow> role \<Rightarrow> role option \<Rightarrow> bool" where
  "needs_role_change s u m persona_role user_role opposite \<longleftrightarrow>
     (m_id m, r_id persona_role) \<notin> set (membership_roles s) \<or> (u_id u, r_id user_role) \<notin> set (user_roles s) \<or> opposite \<noteq> None"

definition change_roles :: "env \<Rightarrow> time \<Rightarrow> int \<Rightarrow> user \<Rightarrow> org_membership \<Rightarrow> role \<Rightarrow> role \<Rightarrow> role option \<Rightarrow> db \<Rightarrow> db" where
  "change_roles E now actor u m persona_role user_role opposite s =
     (let s1 = add_user_role E now u user_role (Some actor) s;
          s2 = (case opposite of None \<Rightarrow> s1 | Some r \<Rightarrow> remove_member_role E now m r (Some actor) s1)
      in add_member_role E now m persona_role (Some actor) s2)"

definition license_event :: "string \<Rightarrow> int \<Rightarrow> license_key \<Rightarrow> audit_args" where
  "license_event et actor l = (audit et)\<lparr>a_actor := Some actor, a_target := lk_user_id l, a_org := lk_organization_id l, a_rtype := Some ''license'',
     a_rid := Some (show_int (lk_id l))\<rparr>"

definition replace_license :: "env \<Rightarrow> time \<Rightarrow> int \<Rightarrow> license_key \<Rightarrow> db \<Rightarrow> db" where
  "replace_license E now actor l s =
     log_event E now ((license_event ''license_revoked'' actor l)\<lparr>a_before := JObj [(''status'', JStr ''active'')],
         a_after := JObj [(''status'', JStr ''revoked'')], a_meta := JObj [(''reason'', JStr ''replaced_by_manual_issuance'')]\<rparr>)
       (set_license (lk_id l) (\<lambda>x. x\<lparr>lk_revoked_at := Some now, lk_revoked_reason := Some ''replaced_by_manual_issuance''\<rparr>) s)"

definition active_licenses :: "time \<Rightarrow> db \<Rightarrow> int \<Rightarrow> int \<Rightarrow> license_key list" where
  "active_licenses now s uid org = filter (\<lambda>l. lk_user_id l = Some uid \<and> lk_organization_id l = Some org \<and> license_live now l) (license_keys s)"

text \<open>The writes, once nothing speaks against them.\<close>

definition carry_out ::
  "env \<Rightarrow> time \<Rightarrow> (nat \<Rightarrow> nat list) \<Rightarrow> int \<Rightarrow> int \<Rightarrow> license_order \<Rightarrow> user \<Rightarrow> license_key list \<Rightarrow> db \<Rightarrow> (exn + db \<times> license_key \<times> string) option" where
  "carry_out E now draws actor issuance q u active s =
     map_option (\<lambda>r. case r of
         Inl e \<Rightarrow> Inl e
       | Inr (s1, l, key) \<Rightarrow>
           let s2 = s1\<lparr>license_requests := update_where (\<lambda>x. li_id x = issuance) (\<lambda>x. x\<lparr>li_license_id := Some (lk_id l)\<rparr>) (license_requests s1)\<rparr>
           in Inr (log_event E now ((license_event ''license_issued'' actor l)\<lparr>
                  a_after := JObj [(''status'', JStr ''active''), (''persona'', JStr (or_persona q)),
                    (''iam_role'', jstr_opt (PERSONA_ROLES (or_persona q))), (''validity_days'', JInt (or_validity_days q)),
                    (''plan'', JStr (lk_plan l)), (''platform'', JStr (lk_platform l))],
                  a_meta := JObj [(''key_prefix'', jstr_opt (lk_key_prefix l))]\<rparr>) s2, l, key))
       (create_manual_license E now draws (u_email u) (u_id u) (or_organization_id q) ''beta'' ''both'' (or_validity_days q) 1
          (Some (order_name q)) (fold (replace_license E now actor) active s))"

definition issue_new ::
  "env \<Rightarrow> time \<Rightarrow> (nat \<Rightarrow> nat list) \<Rightarrow> int \<Rightarrow> string \<Rightarrow> license_order \<Rightarrow> db \<Rightarrow> (exn + db \<times> license_key \<times> string) option" where
  "issue_new E now draws actor key_hash q s =
     (let x = \<lparr>li_id = next_id li_id (license_requests s), li_actor_user_id = actor, li_idempotency_key_hash = key_hash,
               li_request_fingerprint = order_fingerprint E q, li_license_id = None, li_created_at = now\<rparr>;
          s1 = s\<lparr>license_requests := license_requests s @ [x]\<rparr>
      in case license_owner s1 (order_email q) (or_organization_id q) of
           Inl e \<Rightarrow> Some (Inl e)
         | Inr (u, m) \<Rightarrow>
             (case persona_roles (or_persona q) s1 of
                Inl e \<Rightarrow> Some (Inl e)
              | Inr (s2, persona_role, user_role) \<Rightarrow>
                  let opposite = opposite_role s2 (or_persona q) (or_organization_id q) m;
                      change = needs_role_change s2 u m persona_role user_role opposite;
                      active = active_licenses now s2 (u_id u) (or_organization_id q)
                  in if change \<and> \<not> or_confirm_role_change q then Some (Inl (ManualLicenseError ''role_change_confirmation_required'' 409))
                     else if active \<noteq> [] \<and> \<not> or_confirm_replace_existing q
                     then Some (Inl (ManualLicenseError ''active_license_confirmation_required'' 409))
                     else carry_out E now draws actor (li_id x) q u active
                            (if change then change_roles E now actor u m persona_role user_role opposite s2 else s2)))"

text \<open>The answer: the license, its key when it is new, and whether the request was a repetition.\<close>

definition issue ::
  "env \<Rightarrow> time \<Rightarrow> (nat \<Rightarrow> nat list) \<Rightarrow> int \<Rightarrow> string \<Rightarrow> license_order \<Rightarrow> db \<Rightarrow> (exn + db \<times> license_key \<times> string option \<times> bool) option" where
  "issue E now draws actor idem q s =
     (case order_refused E idem q of
        Some e \<Rightarrow> Some (Inl e)
      | None \<Rightarrow>
          let key_hash = idempotency_hash E (str_strip idem)
          in case find_issuance s actor key_hash of
               Some x \<Rightarrow> Some (map_sum id (\<lambda>l. (s, l, None, True)) (replayed s (order_fingerprint E q) x))
             | None \<Rightarrow> map_option (map_sum id (\<lambda>(s', l, key). (s', l, Some key, False))) (issue_new E now draws actor key_hash q s))"

definition list_licenses :: "db \<Rightarrow> int option \<Rightarrow> license_key list" where
  "list_licenses s org =
     sort_key (\<lambda>l. - lk_created_at l) (filter (\<lambda>l. org = None \<or> lk_organization_id l = org) (license_keys s))"

definition get_license :: "db \<Rightarrow> int \<Rightarrow> license_key option" where
  "get_license s i = query_first (\<lambda>l. lk_id l = i) (license_keys s)"

definition revoke_manual_license :: "env \<Rightarrow> time \<Rightarrow> license_key \<Rightarrow> int \<Rightarrow> string \<Rightarrow> db \<Rightarrow> db" where
  "revoke_manual_license E now l actor reason s =
     (if lk_revoked_at l \<noteq> None then s
      else log_event E now ((license_event ''license_revoked'' actor l)\<lparr>a_before := JObj [(''status'', JStr (status_for now l))],
               a_after := JObj [(''status'', JStr ''revoked'')], a_meta := JObj [(''reason'', JStr reason)]\<rparr>)
             (set_license (lk_id l) (\<lambda>x. x\<lparr>lk_revoked_at := Some now, lk_revoked_reason := Some reason\<rparr>) s))"

definition renewed_until :: "time \<Rightarrow> license_key \<Rightarrow> int \<Rightarrow> time" where
  "renewed_until now l n = max (case lk_expires_at l of None \<Rightarrow> now | Some x \<Rightarrow> x) now + days n"

definition renew :: "env \<Rightarrow> time \<Rightarrow> license_key \<Rightarrow> int \<Rightarrow> int \<Rightarrow> db \<Rightarrow> exn + db" where
  "renew E now l actor n s =
     (case require_validity E n of
        Some e \<Rightarrow> Inl e
      | None \<Rightarrow>
          if lk_revoked_at l \<noteq> None then Inl (ManualLicenseError ''revoked_license'' 409)
          else Inr (log_event E now ((license_event ''license_renewed'' actor l)\<lparr>
                 a_before := JObj [(''expires_at'', (case lk_expires_at l of None \<Rightarrow> JNull | Some x \<Rightarrow> JStr (isoformat_auto E x)))],
                 a_after := JObj [(''expires_at'', JStr (isoformat_auto E (renewed_until now l n)))],
                 a_meta := JObj [(''validity_days'', JInt n)]\<rparr>)
               (set_license (lk_id l) (\<lambda>x. x\<lparr>lk_expires_at := Some (renewed_until now l n), lk_renewed_at := Some now\<rparr>) s)))"

definition history :: "db \<Rightarrow> int \<Rightarrow> audit_event list" where
  "history s i =
     sort_key (\<lambda>e. - ae_created_at e) (filter (\<lambda>e. ae_resource_type e = Some ''license'' \<and> ae_resource_id e = Some (show_int i)) (audit_events s))"

subsection \<open>What the operations do to the two tables\<close>

abbreviation license_tables :: "db \<Rightarrow> license_key list \<times> license_issuance_request list" where
  "license_tables s \<equiv> (license_keys s, license_requests s)"

lemma get_or_create_role_licenses: "license_tables (fst (get_or_create_role n ps s)) = license_tables s"
  by (subst (1 2) get_or_create_role_writes) simp

lemma persona_roles_licenses: "persona_roles p s = Inr (s', a, b) \<Longrightarrow> license_tables s' = license_tables s"
  using get_or_create_role_licenses [of "''org_member''" "[]" s] get_or_create_role_licenses [of "''scientist''" SCIENTIST_PERMISSIONS s]
    get_or_create_role_licenses [of "''user''" "[]"]
  by (auto simp: persona_roles_def Let_def split: if_splits prod.splits) (metis fst_conv)+

lemma change_roles_licenses: "license_tables (change_roles E now actor u m r1 r2 opp s) = license_tables s"
  by (simp add: change_roles_def Let_def add_user_role_def remove_member_role_def add_member_role_def split: option.split)

definition replaced :: "time \<Rightarrow> license_key \<Rightarrow> license_key" where
  "replaced now x = x\<lparr>lk_revoked_at := Some now, lk_revoked_reason := Some ''replaced_by_manual_issuance''\<rparr>"

lemma replaced_id [simp]: "lk_id (replaced now x) = lk_id x"
  by (simp add: replaced_def)

lemma replace_licenses:
  "license_keys (fold (replace_license E now actor) ls s) = map (\<lambda>x. if lk_id x \<in> lk_id ` set ls then replaced now x else x) (license_keys s)"
  "license_requests (fold (replace_license E now actor) ls s) = license_requests s"
proof (induction ls arbitrary: s)
  case (Cons l ls)
  have r: "license_keys (replace_license E now actor l s) = map (\<lambda>x. if lk_id x = lk_id l then replaced now x else x) (license_keys s)" for s
    by (simp add: replace_license_def set_license_def update_where_def replaced_def)
  {
    case 1
    show ?case by (simp add: Cons.IH(1) r) (simp add: replaced_def)
  next
    case 2
    show ?case by (simp add: Cons.IH(2)) (simp add: replace_license_def set_license_def)
  }
qed simp_all

lemma create_manual_licenseD:
  assumes "create_manual_license E now draws email uid org plan platform n uses name s = Some (Inr (s', l, key))"
  shows "license_keys s' = license_keys s @ [l] \<and> license_requests s' = license_requests s \<and> lk_id l = next_id lk_id (license_keys s)
    \<and> lk_user_id l = Some uid \<and> lk_organization_id l = Some org \<and> lk_revoked_at l = None"
  using assms by (auto simp: create_manual_license_def Let_def split: sum.splits prod.splits)

text \<open>What a new issuance writes.\<close>

lemma issue_new_writes:
  assumes "issue_new E now draws actor kh q s = Some (Inr (s', l, key))"
  obtains u m where "license_owner s (order_email q) (or_organization_id q) = Inr (u, m)"
    "lk_user_id l = Some (u_id u)" "lk_organization_id l = Some (or_organization_id q)" "lk_revoked_at l = None"
    "lk_id l = next_id lk_id (map (\<lambda>x. if lk_id x \<in> lk_id ` set (active_licenses now s (u_id u) (or_organization_id q)) then replaced now x else x) (license_keys s))"
    "license_keys s' = map (\<lambda>x. if lk_id x \<in> lk_id ` set (active_licenses now s (u_id u) (or_organization_id q)) then replaced now x else x) (license_keys s) @ [l]"
    "license_requests s' = license_requests s @ [\<lparr>li_id = next_id li_id (license_requests s), li_actor_user_id = actor, li_idempotency_key_hash = kh,
        li_request_fingerprint = order_fingerprint E q, li_license_id = Some (lk_id l), li_created_at = now\<rparr>]"
proof -
  let ?x = "\<lparr>li_id = next_id li_id (license_requests s), li_actor_user_id = actor, li_idempotency_key_hash = kh,
               li_request_fingerprint = order_fingerprint E q, li_license_id = None, li_created_at = now\<rparr>"
  let ?s1 = "s\<lparr>license_requests := license_requests s @ [?x]\<rparr>" and ?org = "or_organization_id q"
  obtain u m where o: "license_owner ?s1 (order_email q) ?org = Inr (u, m)"
    using assms by (auto simp: issue_new_def Let_def split: sum.splits)
  obtain s2 r1 r2 where p: "persona_roles (or_persona q) ?s1 = Inr (s2, r1, r2)"
    using assms o by (auto simp: issue_new_def Let_def split: sum.splits)
  have t2: "license_keys s2 = license_keys s" "license_requests s2 = license_requests s @ [?x]" using persona_roles_licenses [OF p] by simp_all
  let ?act = "active_licenses now s2 (u_id u) ?org"
  obtain s3 where c: "carry_out E now draws actor (li_id ?x) q u ?act s3 = Some (Inr (s', l, key))" and t3: "license_tables s3 = license_tables s2"
    using assms o p change_roles_licenses by (auto simp: issue_new_def Let_def split: if_splits)
  have act: "?act = active_licenses now s (u_id u) ?org" by (simp add: active_licenses_def t2)
  obtain s4 where c4: "create_manual_license E now draws (u_email u) (u_id u) ?org ''beta'' ''both'' (or_validity_days q) 1 (Some (order_name q))
      (fold (replace_license E now actor) ?act s3) = Some (Inr (s4, l, key))"
    and s': "license_keys s' = license_keys s4" "license_requests s' = update_where (\<lambda>x. li_id x = li_id ?x) (\<lambda>x. x\<lparr>li_license_id := Some (lk_id l)\<rparr>) (license_requests s4)"
  proof -
    obtain z where z: "create_manual_license E now draws (u_email u) (u_id u) ?org ''beta'' ''both'' (or_validity_days q) 1 (Some (order_name q))
      (fold (replace_license E now actor) ?act s3) = Some z" using c by (auto simp: carry_out_def)
    then obtain s4 l' k where z': "z = Inr (s4, l', k)" using c by (cases z) (auto simp: carry_out_def)
    show thesis by (rule that [of s4]) (use c z z' in \<open>auto simp: carry_out_def Let_def\<close>)
  qed
  note d = create_manual_licenseD [OF c4]
  have "license_requests s4 = license_requests s @ [?x]" using d t2 t3 by (simp add: replace_licenses(2))
  moreover have "update_where (\<lambda>x. li_id x = li_id ?x) f (license_requests s) = license_requests s" for f
    using next_id_notin [of li_id "license_requests s"] by (auto simp: update_where_def image_iff intro!: map_idI)
  ultimately have "license_requests s' = license_requests s @ [?x\<lparr>li_license_id := Some (lk_id l)\<rparr>]" by (simp add: s'(2) update_where_append)
  moreover have "license_owner s (order_email q) ?org = Inr (u, m)" using o by (simp add: license_owner_def cong: option.case_cong if_cong)
  ultimately show ?thesis using d t2 t3 act s'(1) by (intro that [of u m]) (simp_all add: replace_licenses(1))
qed

lemma issuance_Inr:
  assumes "issue E now draws actor idem q s = Some (Inr (s', l, k, b))"
  shows "order_refused E idem q = None"
    and "find_issuance s actor (idempotency_hash E (str_strip idem)) = None \<Longrightarrow>
           \<exists>key. issue_new E now draws actor (idempotency_hash E (str_strip idem)) q s = Some (Inr (s', l, key)) \<and> k = Some key \<and> \<not> b"
    and "find_issuance s actor (idempotency_hash E (str_strip idem)) = Some x \<Longrightarrow>
           s' = s \<and> k = None \<and> b \<and> replayed s (order_fingerprint E q) x = Inr l"
proof -
  show r: "order_refused E idem q = None" using assms by (auto simp: issue_def split: option.splits)
  show "\<exists>key. issue_new E now draws actor (idempotency_hash E (str_strip idem)) q s = Some (Inr (s', l, key)) \<and> k = Some key \<and> \<not> b"
    if "find_issuance s actor (idempotency_hash E (str_strip idem)) = None"
  proof -
    note fresh = that
    obtain z where z: "issue_new E now draws actor (idempotency_hash E (str_strip idem)) q s = Some z"
      using assms r fresh by (auto simp: issue_def Let_def)
    then show ?thesis using assms r fresh by (cases z) (auto simp: issue_def Let_def)
  qed
  show "s' = s \<and> k = None \<and> b \<and> replayed s (order_fingerprint E q) x = Inr l"
    if "find_issuance s actor (idempotency_hash E (str_strip idem)) = Some x"
    using assms r that by (cases "replayed s (order_fingerprint E q) x") (auto simp: issue_def Let_def)
qed

subsection \<open>Histories\<close>

inductive license_step :: "env \<Rightarrow> db \<Rightarrow> db \<Rightarrow> bool" for E where
  create: "create_license now draws email plan platform n uses s = Some (s', l) \<Longrightarrow> license_step E s s'"
| use: "validate_and_consume E now s key email platform = Inr l \<Longrightarrow> license_step E s (mark_license_used now l u s)"
| bind: "validate_and_consume E now s key email platform = Inr l \<Longrightarrow> license_step E s (bind_machine_id l machine s)"
| revoke_key: "license_step E s (fst (revoke_license_key now key reason s))"
| issue: "issue E now draws actor idem q s = Some (Inr (s', l, k, b)) \<Longrightarrow> license_step E s s'"
| revoke: "license_step E s (revoke_manual_license E now l actor why s)"
| renew: "renew E now l actor n s = Inr s' \<Longrightarrow> license_step E s s'"
| elsewhere: "license_tables s' = license_tables s \<Longrightarrow> license_step E s s'"

text \<open>A license keeps its key and, once it has them, its owner and its revocation.\<close>

definition row_keeps :: "license_key \<Rightarrow> license_key \<Rightarrow> bool" where
  "row_keeps l l' \<longleftrightarrow> lk_id l' = lk_id l \<and> lk_key l' = lk_key l \<and> lk_key_digest l' = lk_key_digest l
     \<and> (lk_user_id l \<noteq> None \<longrightarrow> lk_user_id l' = lk_user_id l) \<and> (lk_revoked_at l \<noteq> None \<longrightarrow> lk_revoked_at l' \<noteq> None)"

text \<open>Rows are rewritten in place or added with a new identifier; so are requests, which nothing rewrites.\<close>

definition licenses_grow :: "db \<Rightarrow> db \<Rightarrow> bool" where
  "licenses_grow s s' \<longleftrightarrow>
     (\<exists>f new. license_keys s' = map f (license_keys s) @ new \<and> (\<forall>l. row_keeps l (f l))
        \<and> distinct (map lk_id new) \<and> lk_id ` set new \<inter> lk_id ` set (license_keys s) = {})
   \<and> (\<exists>new. license_requests s' = license_requests s @ new)"

lemma grow_set: "(\<And>l. row_keeps l (f l)) \<Longrightarrow> licenses_grow s (set_license i f s)"
  unfolding licenses_grow_def set_license_def update_where_def
  by (intro conjI exI [of _ "\<lambda>l. if lk_id l = i then f l else l"] exI [of _ "[]"]) (simp_all add: row_keeps_def)

lemma grow_same: "license_tables s' = license_tables s \<Longrightarrow> licenses_grow s s'"
  unfolding licenses_grow_def by (intro conjI exI [of _ id] exI [of _ "[]"]) (simp_all add: row_keeps_def)

lemma grow_refl: "licenses_grow s s"
  by (simp add: grow_same)

lemma grow_cong: "license_tables t = license_tables s' \<Longrightarrow> licenses_grow s s' \<Longrightarrow> licenses_grow s t"
  by (simp add: licenses_grow_def)

lemma license_step_grows:
  assumes "license_step E s s'"
  shows "licenses_grow s s'"
  using assms
proof cases
  case (create now draws email plan platform n uses l)
  then obtain l where "license_keys s' = license_keys s @ [l]" "lk_id l = next_id lk_id (license_keys s)" "license_requests s' = license_requests s"
    by (auto simp: create_license_def Let_def)
  then show ?thesis unfolding licenses_grow_def
    by (intro conjI exI [of _ id] exI [of _ "[l]"] exI [of _ "[]"]) (auto simp: row_keeps_def next_id_notin)
next
  case (use now key email platform l u)
  then show ?thesis by (auto simp: mark_license_used_def Let_def row_keeps_def intro!: grow_set)
next
  case (bind now key email platform l machine)
  then show ?thesis by (auto simp: bind_machine_id_def row_keeps_def intro!: grow_set grow_refl)
next
  case (revoke_key now key reason)
  then show ?thesis by (auto simp: revoke_license_key_def row_keeps_def intro!: grow_set grow_refl split: option.split)
next
  case (issue now draws actor idem q l k b)
  show ?thesis
  proof (cases "find_issuance s actor (idempotency_hash E (str_strip idem))")
    case None
    then obtain key where n: "issue_new E now draws actor (idempotency_hash E (str_strip idem)) q s = Some (Inr (s', l, key))"
      using issuance_Inr(2) [OF issue] by blast
    obtain u :: user where w: "lk_id l = next_id lk_id (map (\<lambda>x. if lk_id x \<in> lk_id ` set (active_licenses now s (u_id u) (or_organization_id q)) then replaced now x else x) (license_keys s))"
      "license_keys s' = map (\<lambda>x. if lk_id x \<in> lk_id ` set (active_licenses now s (u_id u) (or_organization_id q)) then replaced now x else x) (license_keys s) @ [l]"
      "license_requests s' = license_requests s @ [\<lparr>li_id = next_id li_id (license_requests s), li_actor_user_id = actor, li_idempotency_key_hash = idempotency_hash E (str_strip idem),
          li_request_fingerprint = order_fingerprint E q, li_license_id = Some (lk_id l), li_created_at = now\<rparr>]"
      by (rule issue_new_writes [OF n]) (rule that, assumption+)
    let ?f = "\<lambda>x. if lk_id x \<in> lk_id ` set (active_licenses now s (u_id u) (or_organization_id q)) then replaced now x else x"
    have "lk_id l \<notin> lk_id ` set (map ?f (license_keys s))" by (subst w(1)) (rule next_id_notin)
    moreover have "lk_id ` set (map ?f (license_keys s)) = lk_id ` set (license_keys s)"
      by (simp only: set_map image_image) (rule image_cong, simp_all)
    ultimately have "lk_id l \<notin> lk_id ` set (license_keys s)" by blast
    then show ?thesis unfolding licenses_grow_def using w(2,3)
      by (intro conjI exI [of _ ?f] exI [of _ "[l]"]) (auto simp: row_keeps_def replaced_def)
  next
    case (Some x)
    then have "s' = s" using issuance_Inr(3) [OF issue] by blast
    then show ?thesis by (simp add: grow_same)
  qed
next
  case (revoke now l actor why)
  then show ?thesis
    by (auto simp: revoke_manual_license_def row_keeps_def intro!: grow_refl grow_cong [OF _ grow_set] split: if_splits)
next
  case (renew now l actor n)
  then show ?thesis
    by (auto simp: renew_def row_keeps_def intro!: grow_cong [OF _ grow_set] split: option.splits if_splits)
qed (rule grow_same)

definition licenses_ok :: "db \<Rightarrow> bool" where
  "licenses_ok s \<longleftrightarrow> distinct (map lk_id (license_keys s))"

lemma grow_ids: "licenses_grow s s' \<Longrightarrow> licenses_ok s \<Longrightarrow> licenses_ok s'"
proof -
  assume g: "licenses_grow s s'" and ok: "licenses_ok s"
  obtain f new where w: "license_keys s' = map f (license_keys s) @ new" "\<forall>l. row_keeps l (f l)" "distinct (map lk_id new)"
    "lk_id ` set new \<inter> lk_id ` set (license_keys s) = {}" using g by (auto simp: licenses_grow_def)
  have "map lk_id (license_keys s') = map lk_id (license_keys s) @ map lk_id new" using w(1,2) by (simp add: row_keeps_def)
  then show ?thesis using ok w(3,4) by (simp only: licenses_ok_def distinct_append set_map) blast
qed

interpretation license: transition_invariant "license_step E" licenses_ok
  by unfold_locales (rule grow_ids [OF license_step_grows])

lemma row_keeps_trans: "row_keeps a b \<Longrightarrow> row_keeps b c \<Longrightarrow> row_keeps a c"
  by (simp add: row_keeps_def)

lemma row_survives:
  assumes "(license_step E)\<^sup>*\<^sup>* s s'" "l \<in> set (license_keys s)"
  shows "\<exists>l' \<in> set (license_keys s'). row_keeps l l'"
  using assms(1)
proof (induction rule: rtranclp_induct)
  case base
  then show ?case using assms(2) by (intro bexI [of _ l]) (simp_all add: row_keeps_def)
next
  case (step t u)
  then obtain l' where l': "l' \<in> set (license_keys t)" "row_keeps l l'" by blast
  obtain f new where "license_keys u = map f (license_keys t) @ new" "\<forall>l. row_keeps l (f l)"
    using license_step_grows [OF step.hyps(2)] by (auto simp: licenses_grow_def)
  then show ?case using l' row_keeps_trans by (intro bexI [of _ "f l'"]) auto
qed

lemma requests_survive:
  assumes "(license_step E)\<^sup>*\<^sup>* s s'"
  shows "\<exists>new. license_requests s' = license_requests s @ new"
  using assms
proof (induction rule: rtranclp_induct)
  case (step t u)
  then show ?case using license_step_grows [OF step.hyps(2)] by (auto simp: licenses_grow_def)
qed simp

lemma lookup_license_Some: "lookup_license E s key = Some l \<Longrightarrow> l \<in> set (license_keys s)"
  by (auto simp: lookup_license_def Let_def split: option.splits sum.splits dest!: query_first_Some)

text \<open>
  C15. A revoked license is dead, and a used one belongs to its account. Whatever is done
  with licenses afterwards, uses, renewals, issuances and revocations included, a license that has
  been revoked validates nobody under any key, address, platform or time, and a license keeps the
  account that used it first, and its key.
\<close>

theorem revoked_license_dead:
  assumes s: "licenses_ok s" "l \<in> set (license_keys s)" and h: "(license_step E)\<^sup>*\<^sup>* s s'"
  shows "(\<exists>l' \<in> set (license_keys s'). row_keeps l l')
    \<and> (\<forall>now key email platform l'. lk_revoked_at l \<noteq> None \<and> validate_and_consume E now s' key email platform = Inr l' \<longrightarrow> lk_id l' \<noteq> lk_id l)"
proof (intro conjI allI impI notI)
  show "\<exists>l' \<in> set (license_keys s'). row_keeps l l'" by (rule row_survives [OF h s(2)])
  then obtain k where k: "k \<in> set (license_keys s')" "row_keeps l k" by blast
  fix now key email platform l'
  assume v: "lk_revoked_at l \<noteq> None \<and> validate_and_consume E now s' key email platform = Inr l'" and i: "lk_id l' = lk_id l"
  have d: "distinct (map lk_id (license_keys s'))" using license.reachable [OF h s(1)] by (simp add: licenses_ok_def)
  have l': "lookup_license E s' key = Some l'" "lk_revoked_at l' = None" using v by (auto simp: validate_and_consume_def split: option.splits if_splits)
  then have "l' = k" using distinct_keyD [OF d, of l' k] lookup_license_Some k i by (auto simp: row_keeps_def)
  then show False using k v l' by (simp add: row_keeps_def)
qed

text \<open>
  C16. An issuance is carried out once. After a request has been answered with a new license,
  every repetition of it under the same idempotency key, whenever it comes and whatever happened to
  the licenses in between, changes nothing, is answered with the same license, and never shows the
  key again; the same idempotency key with other data (a request of another fingerprint) is refused.
\<close>

theorem issued_once:
  assumes i: "issue E now draws actor idem q s = Some (Inr (s1, l, Some key, b))" and ok: "licenses_ok s" and h: "(license_step E)\<^sup>*\<^sup>* s1 s2"
  shows "(\<exists>l'. issue E t draws' actor idem q s2 = Some (Inr (s2, l', None, True)) \<and> row_keeps l l')
    \<and> (order_refused E idem q' = None \<and> order_fingerprint E q' \<noteq> order_fingerprint E q \<longrightarrow>
        issue E t draws' actor idem q' s2 = Some (Inl (ManualLicenseError ''idempotency_conflict'' 409)))"
proof -
  let ?kh = "idempotency_hash E (str_strip idem)"
  have r: "order_refused E idem q = None" and n: "find_issuance s actor ?kh = None"
    using issuance_Inr(1,3) [OF i] by (auto, cases "find_issuance s actor ?kh", auto)
  then obtain k where new: "issue_new E now draws actor ?kh q s = Some (Inr (s1, l, k))" using issuance_Inr(2) [OF i] by blast
  obtain ls where w: "license_keys s1 = ls @ [l]"
    "license_requests s1 = license_requests s @ [\<lparr>li_id = next_id li_id (license_requests s), li_actor_user_id = actor, li_idempotency_key_hash = ?kh,
        li_request_fingerprint = order_fingerprint E q, li_license_id = Some (lk_id l), li_created_at = now\<rparr>]"
    by (rule issue_new_writes [OF new]) (rule that, assumption+)
  have "licenses_ok s1" using ok by (rule license.preserved [OF license_step.issue [OF i]])
  then have ok2: "licenses_ok s2" by (rule license.reachable [OF h])
  have "l \<in> set (license_keys s1)" using w(1) by simp
  then obtain l' where l': "l' \<in> set (license_keys s2)" "row_keeps l l'" using row_survives [OF h] by blast
  obtain more where m: "license_requests s2 = license_requests s1 @ more" using requests_survive [OF h] by blast
  have f: "find_issuance s2 actor ?kh = Some \<lparr>li_id = next_id li_id (license_requests s), li_actor_user_id = actor, li_idempotency_key_hash = ?kh,
        li_request_fingerprint = order_fingerprint E q, li_license_id = Some (lk_id l), li_created_at = now\<rparr>"
    using n by (simp add: find_issuance_def m w(2) query_first_append del: query_first_None)
  have "query_first (\<lambda>x. lk_id x = lk_id l) (license_keys s2) = Some l'"
    using ok2 l' by (intro query_first_unique) (auto simp: licenses_ok_def row_keeps_def distinct_keyD)
  then have "replayed s2 (order_fingerprint E q) \<lparr>li_id = next_id li_id (license_requests s), li_actor_user_id = actor, li_idempotency_key_hash = ?kh,
        li_request_fingerprint = order_fingerprint E q, li_license_id = Some (lk_id l), li_created_at = now\<rparr> = Inr l'" by (simp add: replayed_def)
  then show ?thesis using r f l'(2) by (auto simp: issue_def Let_def replayed_def)
qed

text \<open>
  Steps that give an account no further license of an organization and leave the expiry dates
  of those it has: every operation but an issuance to the account there and a renewal of one of
  its licenses there.
\<close>

definition quiet_step :: "env \<Rightarrow> int \<Rightarrow> int \<Rightarrow> db \<Rightarrow> db \<Rightarrow> bool" where
  "quiet_step E uid org s s' \<longleftrightarrow> license_step E s s' \<and>
     (\<forall>x' \<in> set (license_keys s'). lk_user_id x' = Some uid \<and> lk_organization_id x' = Some org \<longrightarrow>
        (\<exists>x \<in> set (license_keys s). lk_id x = lk_id x' \<and> lk_user_id x = Some uid \<and> lk_organization_id x = Some org
           \<and> lk_expires_at x = lk_expires_at x'))"

lemma quiet_set:
  assumes "license_step E s (set_license i f s)" "\<And>x. x \<in> set (license_keys s) \<Longrightarrow> lk_id x = i \<Longrightarrow>
      lk_id (f x) = lk_id x \<and> lk_expires_at (f x) = lk_expires_at x \<and> lk_organization_id (f x) = lk_organization_id x
      \<and> (lk_user_id (f x) = lk_user_id x \<or> lk_organization_id x = None)"
  shows "quiet_step E uid org s (set_license i f s)"
  unfolding quiet_step_def by (intro conjI assms(1)) (use assms(2) in \<open>fastforce simp: set_license_def set_update_where\<close>)

lemma quiet_cong: "license_step E s s' \<Longrightarrow> license_keys s' = license_keys t \<Longrightarrow> quiet_step E uid org s t \<Longrightarrow> quiet_step E uid org s s'"
  by (simp add: quiet_step_def)

text \<open>
  The operations that are quiet for every account and organization: the uses of a license (one
  without an owner is a plain license, which has no organization), the bindings to a machine,
  both revocations and the creation of plain licenses.
\<close>

lemma quiet_operations:
  assumes ok: "\<forall>x \<in> set (license_keys s). lk_organization_id x \<noteq> None \<longrightarrow> lk_user_id x \<noteq> None"
  shows "validate_and_consume E now s key email platform = Inr l \<Longrightarrow> quiet_step E uid org s (mark_license_used now l u s)"
    "validate_and_consume E now s key email platform = Inr l \<Longrightarrow> quiet_step E uid org s (bind_machine_id l machine s)"
    "quiet_step E uid org s (fst (revoke_license_key now key why s))"
    "quiet_step E uid org s (revoke_manual_license E now l actor reason s)"
    "create_license now draws email2 plan plat n uses s = Some (s', l') \<Longrightarrow> quiet_step E uid org s s'"
proof -
  have same: "quiet_step E uid org s s" for s by (auto simp: quiet_step_def intro: license_step.elsewhere)
  show "quiet_step E uid org s (mark_license_used now l u s)" if v: "validate_and_consume E now s key email platform = Inr l"
    unfolding mark_license_used_def
    by (rule quiet_set [OF license_step.use [OF v, of u, unfolded mark_license_used_def]]) (use ok in \<open>auto simp: Let_def\<close>)
  show "quiet_step E uid org s (bind_machine_id l machine s)" if v: "validate_and_consume E now s key email platform = Inr l"
  proof (cases "lk_machine_id l = None")
    case True
    then have b: "bind_machine_id l machine s = set_license (lk_id l) (\<lambda>x. x\<lparr>lk_machine_id := Some machine\<rparr>) s" by (simp add: bind_machine_id_def)
    show ?thesis unfolding b by (rule quiet_set [OF license_step.bind [OF v, of machine, unfolded b]]) simp_all
  qed (auto simp: bind_machine_id_def same)
  show "quiet_step E uid org s (fst (revoke_license_key now key why s))"
  proof (cases "query_first (\<lambda>l. lk_key l = Some key) (license_keys s)")
    case (Some x)
    then have r: "fst (revoke_license_key now key why s) = set_license (lk_id x) (\<lambda>x. x\<lparr>lk_revoked_at := Some now, lk_revoked_reason := why\<rparr>) s"
      by (simp add: revoke_license_key_def)
    show ?thesis unfolding r by (rule quiet_set [OF license_step.revoke_key [of E s now key why, unfolded r]]) simp_all
  qed (simp add: revoke_license_key_def same del: query_first_None)
  show "quiet_step E uid org s (revoke_manual_license E now l actor reason s)"
  proof (cases "lk_revoked_at l = None")
    case True
    let ?t = "set_license (lk_id l) (\<lambda>x. x\<lparr>lk_revoked_at := Some now, lk_revoked_reason := Some reason\<rparr>) s"
    have "license_keys (revoke_manual_license E now l actor reason s) = license_keys ?t" using True by (simp add: revoke_manual_license_def)
    then have t: "\<forall>x' \<in> set (license_keys (revoke_manual_license E now l actor reason s)). \<exists>x \<in> set (license_keys s).
        lk_id x = lk_id x' \<and> lk_user_id x = lk_user_id x' \<and> lk_organization_id x = lk_organization_id x' \<and> lk_expires_at x = lk_expires_at x'"
      by (auto simp: set_license_def set_update_where)
    show ?thesis unfolding quiet_step_def by (intro conjI license_step.revoke) (use t in metis)
  qed (auto simp: revoke_manual_license_def same)
  assume c: "create_license now draws email2 plan plat n uses s = Some (s', l')"
  then have "license_keys s' = license_keys s @ [l'] \<and> lk_organization_id l' = None" by (auto simp: create_license_def Let_def)
  then show "quiet_step E uid org s s'" using license_step.create [OF c] by (auto simp: quiet_step_def)
qed

lemma quiet_history:
  assumes h: "(quiet_step E uid org)\<^sup>*\<^sup>* s s'" and ok: "licenses_ok s"
    and x': "x' \<in> set (active_licenses t s' uid org)"
  shows "\<exists>x \<in> set (active_licenses t s uid org). lk_id x = lk_id x'"
proof -
  have "(license_step E)\<^sup>*\<^sup>* s s' \<and> (x' \<in> set (license_keys s') \<and> lk_user_id x' = Some uid \<and> lk_organization_id x' = Some org \<longrightarrow>
      (\<exists>x \<in> set (license_keys s). lk_id x = lk_id x' \<and> lk_user_id x = Some uid \<and> lk_organization_id x = Some org \<and> lk_expires_at x = lk_expires_at x'))" for x'
    using h
  proof (induction arbitrary: x' rule: rtranclp_induct)
    case (step y z)
    have l: "(license_step E)\<^sup>*\<^sup>* s z" using step.IH step.hyps(2) by (meson quiet_step_def rtranclp.rtrancl_into_rtrancl)
    show ?case
    proof (intro conjI l impI)
      assume "x' \<in> set (license_keys z) \<and> lk_user_id x' = Some uid \<and> lk_organization_id x' = Some org"
      then obtain w where w: "w \<in> set (license_keys y)" "lk_id w = lk_id x'" "lk_user_id w = Some uid" "lk_organization_id w = Some org"
        "lk_expires_at w = lk_expires_at x'" using step.hyps(2) unfolding quiet_step_def by blast
      then show "\<exists>x \<in> set (license_keys s). lk_id x = lk_id x' \<and> lk_user_id x = Some uid \<and> lk_organization_id x = Some org \<and> lk_expires_at x = lk_expires_at x'"
        using step.IH [of w] by metis
    qed
  qed auto
  then obtain x where hl: "(license_step E)\<^sup>*\<^sup>* s s'" and x: "x \<in> set (license_keys s)" "lk_id x = lk_id x'" "lk_user_id x = Some uid"
    "lk_organization_id x = Some org" "lk_expires_at x = lk_expires_at x'" using x' by (force simp: active_licenses_def)
  obtain k where k: "k \<in> set (license_keys s')" "row_keeps x k" using row_survives [OF hl x(1)] by blast
  have d: "distinct (map lk_id (license_keys s'))" using license.reachable [OF hl ok] by (simp add: licenses_ok_def)
  have "k = x'" using distinct_keyD [OF d k(1), of x'] k(2) x(2) x' by (auto simp: row_keeps_def active_licenses_def)
  then show ?thesis using k(2) x x' by (intro bexI [of _ x]) (auto simp: row_keeps_def active_licenses_def license_live_def)
qed

text \<open>
  C17. A new license is its owner's only one, until the owner is given another or an older one
  is renewed. After an issuance with a new license, the license is in the table under its
  account and organization and is the only one of them that is active, at that moment and
  later; and it stays so through every sequence of operations on licenses that neither issues
  the account another license of the organization nor renews one of its licenses there (the
  numbers of licenses being unique, as they are in every reachable state).
\<close>

theorem single_active_license:
  assumes i: "issue E now draws actor idem q s = Some (Inr (s1, l, Some key, b))" and t: "now \<le> t"
  shows "\<exists>u. lk_user_id l = Some u \<and> set (active_licenses t s1 u (or_organization_id q)) \<subseteq> {l}
    \<and> l \<in> set (license_keys s1) \<and> lk_organization_id l = Some (or_organization_id q) \<and> lk_revoked_at l = None
    \<and> (\<forall>s2. licenses_ok s1 \<and> (quiet_step E u (or_organization_id q))\<^sup>*\<^sup>* s1 s2 \<longrightarrow>
          lk_id ` set (active_licenses t s2 u (or_organization_id q)) \<subseteq> {lk_id l})"
proof -
  let ?kh = "idempotency_hash E (str_strip idem)" and ?org = "or_organization_id q"
  have n: "find_issuance s actor ?kh = None" using issuance_Inr(3) [OF i] by (cases "find_issuance s actor ?kh") auto
  then obtain k where new: "issue_new E now draws actor ?kh q s = Some (Inr (s1, l, k))" using issuance_Inr(2) [OF i] by blast
  obtain u :: user where w: "lk_user_id l = Some (u_id u)"
    "license_keys s1 = map (\<lambda>x. if lk_id x \<in> lk_id ` set (active_licenses now s (u_id u) ?org) then replaced now x else x) (license_keys s) @ [l]"
    "lk_organization_id l = Some ?org" "lk_revoked_at l = None"
    by (rule issue_new_writes [OF new]) (rule that, assumption+)
  have only: "set (active_licenses t s1 (u_id u) ?org) \<subseteq> {l}"
  proof (intro subsetI, rule ccontr)
    fix x assume x: "x \<in> set (active_licenses t s1 (u_id u) ?org)" and "x \<notin> {l}"
    moreover have "x \<in> set (license_keys s1)" using x by (simp add: active_licenses_def)
    ultimately obtain y where y: "y \<in> set (license_keys s)" "x = (if lk_id y \<in> lk_id ` set (active_licenses now s (u_id u) ?org) then replaced now y else y)"
      unfolding w(2) by auto
    have live: "lk_user_id x = Some (u_id u)" "lk_organization_id x = Some ?org" "license_live t x" using x by (auto simp: active_licenses_def)
    then have "lk_id y \<notin> lk_id ` set (active_licenses now s (u_id u) ?org)" using y(2) by (auto simp: replaced_def license_live_def)
    moreover have "license_live now x" using live(3) t by (auto simp: license_live_def split: option.splits)
    ultimately show False using y live(1,2) by (auto simp: active_licenses_def)
  qed
  have "lk_id ` set (active_licenses t s2 (u_id u) ?org) \<subseteq> {lk_id l}" if "licenses_ok s1 \<and> (quiet_step E (u_id u) ?org)\<^sup>*\<^sup>* s1 s2" for s2
    using quiet_history [of E "u_id u" ?org s1 s2 _ t] that only by fastforce
  then show ?thesis using w only by (intro exI [of _ "u_id u"]) (simp add: w(2))
qed

text \<open>
  A renewal is no such operation: renewing a license that had expired before the issuance, and
  was therefore not revoked by it, gives the account two active licenses of the organization.
\<close>

lemma renewal_makes_two:
  assumes ok: "licenses_ok s" and x: "x \<in> set (license_keys s)" "lk_user_id x = Some u" "lk_organization_id x = Some org" "lk_revoked_at x = None"
    and l: "l \<in> set (active_licenses now s u org)" "lk_id l \<noteq> lk_id x" and n: "require_validity E n = None" "0 < n"
  shows "\<exists>s'. renew E now x actor n s = Inr s' \<and> {lk_id x, lk_id l} \<subseteq> lk_id ` set (active_licenses now s' u org)"
proof -
  let ?f = "\<lambda>y. y\<lparr>lk_expires_at := Some (renewed_until now x n), lk_renewed_at := Some now\<rparr>"
  obtain s' where s': "renew E now x actor n s = Inr s'" "license_keys s' = update_where (\<lambda>y. lk_id y = lk_id x) ?f (license_keys s)"
    using n(1) x(4) by (auto simp: renew_def set_license_def)
  have "now < renewed_until now x n" using n(2) by (auto simp: renewed_until_def days_def seconds_def max_def split: option.splits)
  then have "?f x \<in> set (active_licenses now s' u org)" using x
    by (auto simp: active_licenses_def license_live_def s'(2) set_update_where)
  moreover have "l \<in> set (active_licenses now s' u org)" using l by (auto simp: active_licenses_def s'(2) set_update_where)
  moreover have "lk_id (?f x) = lk_id x" by simp
  ultimately show ?thesis using s'(1) by (metis (no_types, lifting) empty_subsetI image_eqI insert_subset)
qed

subsection \<open>A concrete issuance\<close>

lemma first_free_at: "\<not> taken (xs i) \<Longrightarrow> first_free xs taken i = Some (xs i)"
  by (subst first_free.simps) simp

lemma first_issue_succeeds:
  assumes o: "license_owner s (order_email q) (or_organization_id q) = Inr (u, m)" and p: "PERSONA_ROLES (or_persona q) \<in> {Some ''scientist'', Some ''org_member''}"
    and c: "or_confirm_role_change q" and k: "license_keys s = []" "LICENSE_KEY_PEPPER (cfg E) \<noteq> []"
  shows "\<exists>s' l key. issue_new E now draws actor kh q s = Some (Inr (s', l, key))"
proof -
  let ?x = "\<lparr>li_id = next_id li_id (license_requests s), li_actor_user_id = actor, li_idempotency_key_hash = kh,
               li_request_fingerprint = order_fingerprint E q, li_license_id = None, li_created_at = now\<rparr>"
  let ?s1 = "s\<lparr>license_requests := license_requests s @ [?x]\<rparr>"
  have o1: "license_owner ?s1 (order_email q) (or_organization_id q) = Inr (u, m)"
    using o by (simp add: license_owner_def cong: option.case_cong if_cong)
  have "\<exists>s2 r1 r2. persona_roles (or_persona q) ?s1 = Inr (s2, r1, r2)"
    using p by (auto simp: persona_roles_def Let_def split_beta)
  then obtain s2 r1 r2 where pr: "persona_roles (or_persona q) ?s1 = Inr (s2, r1, r2)" by blast
  have e: "license_keys s2 = []" using persona_roles_licenses [OF pr] k(1) by simp
  have carry: "\<exists>s' l key. carry_out E now draws actor i q u [] t = Some (Inr (s', l, key))" if "license_keys t = []" for t i
    using that k(2) by (simp add: carry_out_def create_manual_license_def digest_key_def first_free_at query_exists_def Let_def)
  have "license_keys (change_roles E now actor u m r1 r2 opp s2) = []" for opp using change_roles_licenses [of E now actor u m r1 r2 opp s2] e by simp
  then show ?thesis using o1 pr c carry e by (simp add: issue_new_def active_licenses_def Let_def)
qed

definition license_env :: env where
  "license_env = (sample_env Map.empty)\<lparr>cfg := default_settings\<lparr>LICENSE_KEY_PEPPER := ''pepper'', LICENSE_ALLOWED_VALIDITY_DAYS := [30]\<rparr>\<rparr>"

definition license_request :: license_order where
  "license_request = \<lparr>or_full_name = ''Ada'', or_email = ''ada'', or_persona = ''developer'', or_validity_days = 30, or_organization_id = 7,
     or_confirm_role_change = True, or_confirm_replace_existing = True\<rparr>"

lemma sample_issue:
  "\<exists>s1 l key. issue license_env 0 (\<lambda>_. []) 1 ''0123456789abcdef'' license_request guard_db = Some (Inr (s1, l, Some key, False))"
proof -
  have r: "order_refused license_env ''0123456789abcdef'' license_request = None"
    by (simp add: order_refused_def require_validity_def license_env_def license_request_def str_strip_def rstrip_by_def is_space_def)
  have "license_owner guard_db (order_email license_request) 7 = Inr (sample_user 1 ''ada'', hd (memberships guard_db))"
    by (simp add: license_owner_def order_email_def license_request_def str_strip_def rstrip_by_def is_space_def str_lower_def lower_char_def
        guard_db_def sample_user_def)
  moreover have "or_organization_id license_request = 7" "PERSONA_ROLES (or_persona license_request) = Some ''scientist''"
    "or_confirm_role_change license_request" "license_keys guard_db = []" "LICENSE_KEY_PEPPER (cfg license_env) \<noteq> []"
    by (simp_all add: license_request_def PERSONA_ROLES_def guard_db_def empty_db_def license_env_def)
  ultimately obtain s' l key where "issue_new license_env 0 (\<lambda>_. []) 1 (idempotency_hash license_env (str_strip ''0123456789abcdef'')) license_request guard_db
      = Some (Inr (s', l, key))"
    using first_issue_succeeds [of guard_db license_request "sample_user 1 ''ada''" "hd (memberships guard_db)" license_env 0 "\<lambda>_. []" 1] by fastforce
  moreover have "find_issuance guard_db 1 (idempotency_hash license_env (str_strip ''0123456789abcdef'')) = None"
    by (simp add: find_issuance_def guard_db_def empty_db_def)
  ultimately show ?thesis using r by (simp add: issue_def Let_def del: query_first_None)
qed

lemma sample_ok: "licenses_ok guard_db"
  by (simp add: licenses_ok_def guard_db_def empty_db_def)

theorem issued_once_witness:
  "\<exists>s1 l key. issue license_env 0 (\<lambda>_. []) 1 ''0123456789abcdef'' license_request guard_db = Some (Inr (s1, l, Some key, False))
     \<and> (\<exists>l'. issue license_env 9 (\<lambda>_. []) 1 ''0123456789abcdef'' license_request s1 = Some (Inr (s1, l', None, True)) \<and> row_keeps l l')"
proof -
  obtain s1 l key where i: "issue license_env 0 (\<lambda>_. []) 1 ''0123456789abcdef'' license_request guard_db = Some (Inr (s1, l, Some key, False))"
    using sample_issue by blast
  show ?thesis using issued_once [OF i sample_ok rtranclp.rtrancl_refl, of 9 "\<lambda>_. []"] i by blast
qed

theorem single_active_license_witness:
  "\<exists>s1 l key. issue license_env 0 (\<lambda>_. []) 1 ''0123456789abcdef'' license_request guard_db = Some (Inr (s1, l, Some key, False))
     \<and> (\<exists>u. lk_user_id l = Some u \<and> set (active_licenses 5 s1 u 7) \<subseteq> {l})"
proof -
  obtain s1 l key where i: "issue license_env 0 (\<lambda>_. []) 1 ''0123456789abcdef'' license_request guard_db = Some (Inr (s1, l, Some key, False))"
    using sample_issue by blast
  have "or_organization_id license_request = 7" by (simp add: license_request_def)
  then show ?thesis using single_active_license [OF i, of 5] i by auto
qed

definition revoked_license :: license_key where
  "revoked_license = \<lparr>lk_id = 1, lk_key = Some ''OMNI'', lk_key_digest = None, lk_key_prefix = None, lk_user_id = Some 1, lk_email = ''ada'',
     lk_recipient_name = None, lk_plan = ''beta'', lk_platform = ''both'', lk_max_uses = 1, lk_usage_count = 1, lk_created_at = 0, lk_expires_at = None,
     lk_last_used_at = None, lk_revoked_at = Some 3, lk_revoked_reason = None, lk_renewed_at = None, lk_organization_id = None, lk_machine_id = None\<rparr>"

theorem revoked_license_dead_witness:
  "\<exists>s'. license_step license_env (guard_db\<lparr>license_keys := [revoked_license]\<rparr>) s'
     \<and> (\<forall>l'. validate_and_consume license_env 9 s' ''OMNI'' None ''web'' = Inr l' \<longrightarrow> lk_id l' \<noteq> 1)"
proof -
  let ?s = "guard_db\<lparr>license_keys := [revoked_license]\<rparr>"
  have st: "license_step license_env ?s (fst (revoke_license_key 5 ''OMNI'' None ?s))" by (rule license_step.revoke_key)
  have i: "lk_id revoked_license = 1" "lk_revoked_at revoked_license \<noteq> None" by (simp_all add: revoked_license_def)
  have "licenses_ok ?s" "revoked_license \<in> set (license_keys ?s)" by (simp_all add: licenses_ok_def)
  note d = conjunct2 [OF revoked_license_dead [OF this r_into_rtranclp [of "license_step license_env", OF st]]]
  show ?thesis using d i by (intro exI [of _ "fst (revoke_license_key 5 ''OMNI'' None ?s)"] conjI st) auto
qed

end
