(* ===== verification/Org_Invitations.thy ===== *)
theory Org_Invitations
  imports Write_Frames
begin

text \<open>
  Invitations to an organization: \<open>app/services/org_invitation_service.py\<close>. The token of a new
  invitation and the secret of a second factor that is being set up are drawn at random and are
  arguments; whether the mail service took the message is \<open>invitation_delivered\<close> of the
  environment.

  The state returned with an error is the committed one: what an operation had only flushed when
  it gave up is rolled back when its database session closes. The one event that commits on its
  own, the denial logged by \<open>resolve_roles_for_org\<close>, commits everything flushed before it.

  \<open>inv_step\<close> collects the operations, together with any step of the rest of the program, which
  does not touch the table. \<open>inv_ok\<close> is its invariant.
\<close>

subsection \<open>Helpers\<close>

definition invitation_error :: "string \<Rightarrow> int \<Rightarrow> exn" where
  "invitation_error code status = OrganizationInvitationError code status"

definition is_invitation_error :: "exn \<Rightarrow> bool" where
  "is_invitation_error e = (case e of OrganizationInvitationError _ _ \<Rightarrow> True | _ \<Rightarrow> False)"

text \<open>\<open>except OrganizationInvitationError as exc: if exc.status_code == 410\<close>.\<close>

definition is_gone :: "exn \<Rightarrow> bool" where
  "is_gone e = (case e of OrganizationInvitationError _ code \<Rightarrow> code = 410 | _ \<Rightarrow> False)"

definition token_hash :: "env \<Rightarrow> string \<Rightarrow> string" where
  "token_hash E token = sha256_hex E token"

definition active_key_for :: "env \<Rightarrow> int \<Rightarrow> string \<Rightarrow> string" where
  "active_key_for E org email = sha256_hex E (show_int org @ '':'' @ email)"

definition valid_accept_url :: "env \<Rightarrow> string \<Rightarrow> bool" where
  "valid_accept_url E value =
     (case urlsplit E value of
        None \<Rightarrow> False
      | Some parsed \<Rightarrow>
          let host = str_lower (rstrip_by (\<lambda>c. c = CHR ''.'') (case url_hostname parsed of None \<Rightarrow> '''' | Some h \<Rightarrow> h))
          in if str_lower (url_scheme parsed) \<noteq> ''https'' \<or> host = [] \<or> truthy (url_username parsed) \<or> truthy (url_password parsed)
             then False
             else if url_port parsed \<noteq> None \<and> url_port parsed \<noteq> Some 443 then False
             else case ip_is_global E host of
               Some g \<Rightarrow> g
             | None \<Rightarrow> CHR ''.'' \<in> set host
                 \<and> \<not> list_ex (\<lambda>suffix. ends_with suffix host) [''.localhost'', ''.local'', ''.internal'', ''.test'', ''.invalid''])"

definition policy_requires_mfa :: "db \<Rightarrow> int \<Rightarrow> bool" where
  "policy_requires_mfa s org =
     (case query_first (\<lambda>p. mp_organization_id p = org) (mfa_policies s) of
        None \<Rightarrow> False | Some p \<Rightarrow> mp_required p \<and> \<not> mp_override_active p)"

definition invitation_event :: "string \<Rightarrow> org_invitation \<Rightarrow> audit_args" where
  "invitation_event event i =
     (audit event)\<lparr>a_org := Some (oi_organization_id i), a_rtype := Some ''organization_invitation'', a_rid := Some (show_int (oi_id i))\<rparr>"

definition set_invitation :: "int \<Rightarrow> (org_invitation \<Rightarrow> org_invitation) \<Rightarrow> db \<Rightarrow> db" where
  "set_invitation i f s = s\<lparr>org_invitations := update_where (\<lambda>x. oi_id x = i) f (org_invitations s)\<rparr>"

definition set_expired :: "env \<Rightarrow> time \<Rightarrow> int option \<Rightarrow> org_invitation \<Rightarrow> db \<Rightarrow> db" where
  "set_expired E now actor i s =
     (if oi_status i \<noteq> ''pending'' then s
      else log_event E now ((invitation_event ''organization_invitation_expired'' i)
             \<lparr>a_actor := actor, a_before := JObj [(''status'', JStr ''pending'')], a_after := JObj [(''status'', JStr ''expired'')]\<rparr>)
             (set_invitation (oi_id i) (\<lambda>x. x\<lparr>oi_status := ''expired'', oi_active_key := None\<rparr>) s))"

definition pending_invitation :: "env \<Rightarrow> time \<Rightarrow> string \<Rightarrow> db \<Rightarrow> db \<times> (exn + org_invitation)" where
  "pending_invitation E now token s =
     (if token = [] \<or> 256 < length token then (s, Inl (invitation_error ''invitation_invalid'' 404))
      else case query_first (\<lambda>x. oi_token_hash x = token_hash E token) (org_invitations s) of
        None \<Rightarrow> (s, Inl (invitation_error ''invitation_invalid'' 404))
      | Some i \<Rightarrow>
          if oi_status i \<noteq> ''pending'' then (s, Inl (invitation_error ''invitation_unavailable'' 410))
          else if oi_expires_at i \<le> now then (set_expired E now None i s, Inl (invitation_error ''invitation_expired'' 410))
          else case find_org s (oi_organization_id i) of
            None \<Rightarrow> (s, Inl AttributeError)
          | Some org \<Rightarrow> if o_status org \<noteq> ''active'' then (s, Inl (invitation_error ''organization_unavailable'' 409))
                      else (s, Inr i))"

record invitation_view =
  iv_id :: int
  iv_organization_id :: int
  iv_organization_name :: string
  iv_email :: string
  iv_roles :: "string list"
  iv_status :: string
  iv_created_at :: time
  iv_expires_at :: time
  iv_accepted_at :: "time option"

definition safe_view :: "db \<Rightarrow> org_invitation \<Rightarrow> invitation_view option" where
  "safe_view s i =
     map_option (\<lambda>org. \<lparr>iv_id = oi_id i, iv_organization_id = oi_organization_id i, iv_organization_name = o_name org,
       iv_email = oi_invited_email i, iv_roles = oi_role_names i, iv_status = oi_status i, iv_created_at = oi_created_at i,
       iv_expires_at = oi_expires_at i, iv_accepted_at = oi_accepted_at i\<rparr>) (find_org s (oi_organization_id i))"

subsection \<open>Creating, listing and revoking\<close>

definition invitation_email_ok :: "string \<Rightarrow> bool" where
  "invitation_email_ok email \<longleftrightarrow> CHR ''@'' \<in> set email \<and> length email \<le> 255 \<and> CHR 0x0A \<notin> set email \<and> CHR 0x0D \<notin> set email"

text \<open>The checks before any role is looked up, in their order.\<close>

definition invitation_refused :: "env \<Rightarrow> organization \<Rightarrow> string \<Rightarrow> db \<Rightarrow> exn option" where
  "invitation_refused E org normalized_email s =
     (if \<not> ORG_INVITATIONS_ENABLED (cfg E) \<or> ORG_INVITATION_ACCEPT_URL (cfg E) = []
      then Some (invitation_error ''invitations_disabled'' 503)
      else if \<not> valid_accept_url E (ORG_INVITATION_ACCEPT_URL (cfg E))
      then Some (invitation_error ''invitation_configuration'' 503)
      else if \<not> invitation_email_ok normalized_email then Some (invitation_error ''invalid_email'' 422)
      else if \<not> (60 \<le> ORG_INVITATION_TTL_SECONDS (cfg E) \<and> ORG_INVITATION_TTL_SECONDS (cfg E) \<le> 2592000)
      then Some (invitation_error ''invitation_configuration'' 503)
      else if (case find_user_by_email s normalized_email of
                 None \<Rightarrow> False
               | Some u \<Rightarrow> query_exists (\<lambda>m. m_organization_id m = o_id org \<and> m_user_id m = u_id u \<and> m_status m = ''active'') (memberships s))
      then Some (invitation_error ''already_member'' 409)
      else None)"

definition new_invitation :: "env \<Rightarrow> time \<Rightarrow> string \<Rightarrow> organization \<Rightarrow> user \<Rightarrow> string \<Rightarrow> role list \<Rightarrow> bool \<Rightarrow> db \<Rightarrow> org_invitation" where
  "new_invitation E now token org actor normalized_email rs caller_is_platform_admin s =
     \<lparr>oi_id = next_id oi_id (org_invitations s), oi_organization_id = o_id org,
      oi_invited_by_user_id = u_id actor, oi_inviter_is_platform_admin = caller_is_platform_admin,
      oi_invited_email = normalized_email, oi_role_names = map r_name rs, oi_token_hash = token_hash E token,
      oi_active_key = Some (active_key_for E (o_id org) normalized_email), oi_status = ''pending'', oi_created_at = now,
      oi_expires_at = now + seconds (ORG_INVITATION_TTL_SECONDS (cfg E)), oi_accepted_at = None,
      oi_accepted_user_id = None, oi_revoked_at = None, oi_revoked_by_user_id = None,
      oi_mfa_secret_encrypted = None, oi_mfa_setup_at = None, oi_mfa_attempts = 0\<rparr>"

text \<open>
  Inserting the invitation, sending it, committing. The unique constraints and the mail service
  can refuse; then everything back to \<open>base\<close> is rolled back.
\<close>

definition send_invitation :: "env \<Rightarrow> time \<Rightarrow> string \<Rightarrow> user \<Rightarrow> org_invitation \<Rightarrow> db \<Rightarrow> db \<Rightarrow> db \<times> (exn + org_invitation)" where
  "send_invitation E now token actor i base s =
     (let accept_url = takeWhile (\<lambda>c. c \<noteq> CHR ''#'') (ORG_INVITATION_ACCEPT_URL (cfg E)) @ ''#token='' @ token
      in if query_exists (\<lambda>x. oi_token_hash x = oi_token_hash i \<or> oi_active_key x = oi_active_key i) (org_invitations s)
         then (base, Inl (invitation_error ''invitation_exists'' 409))
         else if \<not> invitation_delivered E (oi_invited_email i) accept_url
         then (base, Inl (invitation_error ''invitation_delivery_failed'' 503))
         else (log_event E now ((invitation_event ''organization_invitation_created'' i)
                 \<lparr>a_actor := Some (u_id actor),
                  a_after := JObj [(''status'', JStr ''pending''), (''roles'', jstrs (oi_role_names i)),
                                   (''expires_at'', JStr (isoformat_auto E (oi_expires_at i)))]\<rparr>)
                 (s\<lparr>org_invitations := org_invitations s @ [i]\<rparr>), Inr i))"

definition create_invitation ::
  "env \<Rightarrow> time \<Rightarrow> string \<Rightarrow> organization \<Rightarrow> user \<Rightarrow> string \<Rightarrow> string list \<Rightarrow> bool \<Rightarrow> db \<Rightarrow> db \<times> (exn + org_invitation)" where
  "create_invitation E now token org actor email role_names caller_is_platform_admin s =
     (let normalized_email = str_lower (str_strip email);
          names = (if role_names = [] then [''org_member''] else role_names);
          key = active_key_for E (o_id org) normalized_email;
          s1 = fst (get_or_create_role ''org_member'' [] s)
      in case invitation_refused E org normalized_email s of
        Some e \<Rightarrow> (s, Inl e)
      | None \<Rightarrow>
        if 8 < length names \<or> \<not> distinct names then (s, Inl (invitation_error ''invalid_roles'' 422))
        else case resolve_roles_for_org E now names (o_id org) caller_is_platform_admin (Some (u_id actor)) None s1 of
          (s2, Inl e) \<Rightarrow> (if audit_events s2 = audit_events s1 then s else s2, Inl (invitation_error ''invalid_roles'' 403))
        | (s2, Inr rs) \<Rightarrow>
            (case query_first (\<lambda>x. oi_active_key x = Some key \<and> oi_status x = ''pending'') (org_invitations s2) of
               None \<Rightarrow> send_invitation E now token actor (new_invitation E now token org actor normalized_email rs caller_is_platform_admin s2) s s2
             | Some existing \<Rightarrow>
                 if now < oi_expires_at existing then (s, Inl (invitation_error ''invitation_exists'' 409))
                 else let s3 = set_expired E now (Some (u_id actor)) existing s2
                      in send_invitation E now token actor (new_invitation E now token org actor normalized_email rs caller_is_platform_admin s3) s s3))"

definition list_invitations :: "env \<Rightarrow> time \<Rightarrow> int \<Rightarrow> int \<Rightarrow> db \<Rightarrow> db \<times> invitation_view option list" where
  "list_invitations E now org actor s =
     (let rows = filter (\<lambda>x. oi_organization_id x = org \<and> oi_status x = ''pending'') (org_invitations s);
          s1 = fold (\<lambda>x s. if oi_expires_at x \<le> now then set_expired E now (Some actor) x s else s) rows s
      in (s1, map (safe_view s1)
                (take 100 (sort_key (\<lambda>x. - oi_created_at x) (filter (\<lambda>x. oi_organization_id x = org) (org_invitations s1))))))"

definition revoke_invitation :: "env \<Rightarrow> time \<Rightarrow> org_invitation \<Rightarrow> user \<Rightarrow> db \<Rightarrow> exn + db" where
  "revoke_invitation E now i actor s =
     (if oi_status i \<noteq> ''pending'' then Inl (invitation_error ''invitation_unavailable'' 409)
      else Inr (log_event E now ((invitation_event ''organization_invitation_revoked'' i)
                  \<lparr>a_actor := Some (u_id actor), a_before := JObj [(''status'', JStr ''pending'')],
                   a_after := JObj [(''status'', JStr ''revoked'')]\<rparr>)
             (set_invitation (oi_id i) (\<lambda>x. x\<lparr>oi_status := ''revoked'', oi_active_key := None, oi_revoked_at := Some now,
                oi_revoked_by_user_id := Some (u_id actor)\<rparr>) s)))"

text \<open>The answer of \<open>preview_invitation\<close>: the view, whether an account exists, whether a second factor is needed.\<close>

definition preview_invitation :: "env \<Rightarrow> time \<Rightarrow> string \<Rightarrow> db \<Rightarrow> db \<times> (exn + invitation_view option \<times> bool \<times> bool)" where
  "preview_invitation E now token s =
     (case pending_invitation E now token s of
        (s1, Inl e) \<Rightarrow> (s1, Inl e)
      | (s1, Inr i) \<Rightarrow>
          (s1, Inr (safe_view s1 i,
                    query_exists (\<lambda>u. u_email u = oi_invited_email i \<and> u_status u = ''active'') (users s1),
                    policy_requires_mfa s1 (oi_organization_id i))))"

definition start_invitation_mfa :: "env \<Rightarrow> time \<Rightarrow> string \<Rightarrow> string \<Rightarrow> db \<Rightarrow> db \<times> (exn + string \<times> string)" where
  "start_invitation_mfa E now fresh_secret token s =
     (case pending_invitation E now token s of
        (s1, Inl e) \<Rightarrow> (s1, Inl e)
      | (s1, Inr i) \<Rightarrow>
          if \<not> policy_requires_mfa s1 (oi_organization_id i) then (s1, Inl (invitation_error ''mfa_not_required'' 409))
          else if \<not> crypto_configured E then (s1, Inl (invitation_error ''mfa_unavailable'' 503))
          else if \<not> truthy (oi_mfa_secret_encrypted i)
          then (set_invitation (oi_id i) (\<lambda>x. x\<lparr>oi_mfa_secret_encrypted := Some (crypto_encrypt E fresh_secret), oi_mfa_setup_at := Some now\<rparr>) s1,
                Inr (fresh_secret, generate_provisioning_uri fresh_secret (oi_invited_email i)))
          else case crypto_decrypt E (the (oi_mfa_secret_encrypted i)) of
            None \<Rightarrow> (s1, Inl CryptoError)
          | Some secret \<Rightarrow> (s1, Inr (secret, generate_provisioning_uri secret (oi_invited_email i))))"

subsection \<open>Accepting\<close>

definition activate_membership :: "env \<Rightarrow> time \<Rightarrow> org_invitation \<Rightarrow> user \<Rightarrow> db \<Rightarrow> db \<times> (exn + org_membership)" where
  "activate_membership E now i u s =
     (let org = oi_organization_id i; existing = get_membership s org (u_id u)
      in if map_option m_status existing = Some ''active'' then (s, Inl (invitation_error ''membership_exists'' 409))
         else case resolve_roles_for_org E now (if oi_role_names i = [] then [''org_member''] else oi_role_names i) org
                     (oi_inviter_is_platform_admin i) (Some (oi_invited_by_user_id i)) (Some (u_id u)) s of
           (s1, Inl e) \<Rightarrow> (s1, Inl e)
         | (s1, Inr rs) \<Rightarrow>
             let m = (case existing of
                        Some m \<Rightarrow> m\<lparr>m_status := ''active'', m_joined_at := now\<rparr>
                      | None \<Rightarrow> \<lparr>m_id = next_id m_id (memberships s1), m_organization_id = org, m_user_id = u_id u,
                                 m_status = ''active'', m_invited_by_user_id = Some (oi_invited_by_user_id i), m_joined_at = now\<rparr>);
                 rows = (if existing = None then memberships s1 @ [m] else update_where (\<lambda>x. m_id x = m_id m) (\<lambda>_. m) (memberships s1))
             in (s1\<lparr>memberships := rows, membership_roles := assign_links (m_id m) (map r_id rs) (membership_roles s1)\<rparr>, Inr m))"

definition activate_invitation :: "env \<Rightarrow> time \<Rightarrow> org_invitation \<Rightarrow> user \<Rightarrow> db \<Rightarrow> db \<times> (exn + org_membership)" where
  "activate_invitation E now i u s =
     (case activate_membership E now i u s of
        (s1, Inl e) \<Rightarrow> (s1, Inl e)
      | (s1, Inr m) \<Rightarrow>
          let s2 = set_invitation (oi_id i) (\<lambda>x. x\<lparr>oi_status := ''accepted'', oi_active_key := None, oi_accepted_at := Some now,
                     oi_accepted_user_id := Some (u_id u), oi_mfa_secret_encrypted := None\<rparr>) s1;
              s3 = log_event E now ((invitation_event ''organization_invitation_accepted'' i)
                     \<lparr>a_actor := Some (u_id u), a_target := Some (u_id u), a_before := JObj [(''status'', JStr ''pending'')],
                      a_after := JObj [(''status'', JStr ''accepted''), (''roles'', jstrs (oi_role_names i))],
                      a_meta := JObj [(''email_verified_by_invitation'', JBool True)]\<rparr>) s2
          in (log_event E now ((invitation_event ''organization_membership_changed'' i)
                \<lparr>a_actor := Some (u_id u), a_target := Some (u_id u),
                 a_after := JObj [(''status'', JStr (m_status m)), (''roles'', jstrs (oi_role_names i))],
                 a_meta := JObj [(''reason'', JStr ''invitation_accepted'')]\<rparr>) s3, Inr m))"

record accepted =
  acc_user_id :: int
  acc_organization_id :: int

definition accepted_new_user_retry :: "env \<Rightarrow> string \<Rightarrow> string \<Rightarrow> db \<Rightarrow> exn + accepted option" where
  "accepted_new_user_retry E digest password s =
     (case query_first (\<lambda>x. oi_token_hash x = digest \<and> oi_status x = ''accepted'') (org_invitations s) of
        None \<Rightarrow> Inr None
      | Some consumed \<Rightarrow>
          (case oi_accepted_user_id consumed of
             None \<Rightarrow> Inr None
           | Some uid \<Rightarrow>
               (case find_user s uid of
                  None \<Rightarrow> Inr None
                | Some u \<Rightarrow>
                    (case u_hashed_password u of
                       None \<Rightarrow> Inr None
                     | Some h \<Rightarrow>
                         (case verify_password E password h of
                            Inl e \<Rightarrow> Inl e
                          | Inr True \<Rightarrow> Inr (Some \<lparr>acc_user_id = uid, acc_organization_id = oi_organization_id consumed\<rparr>)
                          | Inr False \<Rightarrow> Inr None)))))"

text \<open>A second factor that fails while accepting is counted, and the last one allowed revokes the invitation.\<close>

definition failed_factor :: "env \<Rightarrow> time \<Rightarrow> int option \<Rightarrow> string \<Rightarrow> org_invitation \<Rightarrow> db \<Rightarrow> db" where
  "failed_factor E now actor reason i s =
     (let s1 = set_invitation (oi_id i) (\<lambda>x. x\<lparr>oi_mfa_attempts := oi_mfa_attempts x + 1\<rparr>) s;
          s2 = log_event E now ((invitation_event ''organization_invitation_denied'' i)
                 \<lparr>a_actor := actor, a_meta := JObj [(''reason'', JStr reason)]\<rparr>) s1
      in if ORG_INVITATION_MAX_ACCEPT_ATTEMPTS (cfg E) \<le> oi_mfa_attempts i + 1
         then set_invitation (oi_id i) (\<lambda>x. x\<lparr>oi_status := ''revoked'', oi_active_key := None, oi_revoked_at := Some now\<rparr>) s2
         else s2)"

text \<open>What is committed when the last part of an acceptance gives up: \<open>base\<close> before it, \<open>flushed\<close> what it had flushed.\<close>

definition abandoned :: "db \<Rightarrow> db \<Rightarrow> exn \<Rightarrow> db \<Rightarrow> db" where
  "abandoned base flushed e s =
     (if \<not> is_invitation_error e \<and> audit_events s = audit_events flushed then base else s)"

definition invited_user :: "env \<Rightarrow> time \<Rightarrow> string \<Rightarrow> org_invitation \<Rightarrow> db \<Rightarrow> user" where
  "invited_user E now password i s =
     \<lparr>u_id = next_id u_id (users s), u_email = oi_invited_email i, u_hashed_password = Some (hash_password E password),
      u_status = ''active'', u_preferred_timezone = None, u_created_at = Some now, u_status_changed_at = None,
      u_status_changed_reason = None, u_status_changed_by_user_id = None, u_last_login_at = None, u_authentication_method = None,
      u_mfa_enabled = False, u_mfa_status = ''disabled'', u_mfa_primary_method = None, u_mfa_enabled_at = None,
      u_mfa_last_verified_at = None\<rparr>"

text \<open>The new account, its default role and, when the organization requires it, its verified device.\<close>

definition enroll_invited_user :: "env \<Rightarrow> time \<Rightarrow> org_invitation \<Rightarrow> user \<Rightarrow> db \<Rightarrow> db" where
  "enroll_invited_user E now i u s =
     (let d = \<lparr>d_id = next_id d_id (mfa_devices s), d_user_id = u_id u, d_device_type = ''totp'', d_label = Some ''Invitation setup'',
               d_encrypted_secret = the (oi_mfa_secret_encrypted i), d_created_at = now, d_verified_at = Some now,
               d_last_used_at = None, d_disabled_at = None\<rparr>;
          s1 = (set_user (u_id u) (enable_user_mfa now) s)\<lparr>mfa_devices := mfa_devices s @ [d]\<rparr>;
          s2 = log_event E now ((audit ''mfa_device_added'')
                 \<lparr>a_actor := Some (u_id u), a_target := Some (u_id u), a_rtype := Some ''mfa_device'', a_rid := Some (show_int (d_id d)),
                  a_after := JObj [(''device_type'', JStr ''totp''), (''verified'', JBool True)],
                  a_meta := JObj [(''enrollment'', JStr ''organization_invitation'')]\<rparr>) s1
      in log_event E now ((audit ''mfa_enabled'')
           \<lparr>a_actor := Some (u_id u), a_target := Some (u_id u), a_rtype := Some ''user'', a_rid := Some (show_int (u_id u)),
            a_after := JObj [(''mfa_enabled'', JBool True), (''mfa_primary_method'', JStr ''totp'')],
            a_meta := JObj [(''enrollment'', JStr ''organization_invitation'')]\<rparr>) s2)"

definition create_invited_user :: "env \<Rightarrow> time \<Rightarrow> string \<Rightarrow> org_invitation \<Rightarrow> db \<Rightarrow> db \<times> user" where
  "create_invited_user E now password i s =
     (let u = invited_user E now password i s;
          s1 = assign_default_role u (s\<lparr>users := users s @ [u]\<rparr>);
          s2 = (if policy_requires_mfa s (oi_organization_id i) then enroll_invited_user E now i u s1 else s1)
      in (s2, u))"

text \<open>The second factor a new account has to show: none, or a code of the device set up with the invitation.\<close>

definition new_user_factor :: "env \<Rightarrow> time \<Rightarrow> org_invitation \<Rightarrow> string option \<Rightarrow> db \<Rightarrow> exn + bool" where
  "new_user_factor E now i totp_code s =
     (if \<not> policy_requires_mfa s (oi_organization_id i) then Inr True
      else if \<not> truthy (oi_mfa_secret_encrypted i) \<or> \<not> truthy totp_code then Inl (invitation_error ''mfa_setup_required'' 403)
      else case crypto_decrypt E (the (oi_mfa_secret_encrypted i)) of
             None \<Rightarrow> Inl CryptoError
           | Some secret \<Rightarrow> verify_totp_code E secret (the totp_code) (whole_seconds now))"

text \<open>The last part of an acceptance: the membership and the invitation in one transaction.\<close>

definition finish_new_user :: "env \<Rightarrow> time \<Rightarrow> string \<Rightarrow> org_invitation \<Rightarrow> db \<Rightarrow> db \<times> (exn + accepted)" where
  "finish_new_user E now password i s =
     (let (s1, u) = create_invited_user E now password i s
      in case activate_invitation E now i u s1 of
           (s2, Inl e) \<Rightarrow> (abandoned s s1 e s2, Inl e)
         | (s2, Inr m) \<Rightarrow> (s2, Inr \<lparr>acc_user_id = u_id u, acc_organization_id = oi_organization_id i\<rparr>))"

definition token_digest :: "env \<Rightarrow> string \<Rightarrow> string" where
  "token_digest E token = (if token \<noteq> [] \<and> length token \<le> 256 then token_hash E token else '''')"

definition accept_new_user ::
  "env \<Rightarrow> time \<Rightarrow> string \<Rightarrow> string \<Rightarrow> string option \<Rightarrow> db \<Rightarrow> db \<times> (exn + accepted)" where
  "accept_new_user E now token password totp_code s =
     (let digest = token_digest E token in
      case accepted_new_user_retry E digest password s of
        Inl e \<Rightarrow> (s, Inl e)
      | Inr (Some r) \<Rightarrow> (s, Inr r)
      | Inr None \<Rightarrow>
          (case pending_invitation E now token s of
             (s1, Inl e) \<Rightarrow>
               if is_gone e
               then (case accepted_new_user_retry E digest password s1 of
                       Inl e' \<Rightarrow> (s1, Inl e') | Inr (Some r) \<Rightarrow> (s1, Inr r) | Inr None \<Rightarrow> (s1, Inl e))
               else (s1, Inl e)
           | (s1, Inr i) \<Rightarrow>
               if query_exists (\<lambda>u. u_email u = oi_invited_email i) (users s1)
               then (s1, Inl (invitation_error ''existing_account'' 409))
               else if validate_new_password E password (Some (oi_invited_email i)) \<noteq> None
               then (s1, Inl (invitation_error ''password_policy'' 400))
               else case new_user_factor E now i totp_code s1 of
                 Inl e \<Rightarrow> (s1, Inl e)
               | Inr ok \<Rightarrow>
                   if ok then finish_new_user E now password i s1
                   else (failed_factor E now None ''mfa_verification_failed'' i s1, Inl (invitation_error ''mfa_invalid'' 400))))"

definition consumed_by :: "string \<Rightarrow> user \<Rightarrow> db \<Rightarrow> accepted option" where
  "consumed_by digest u s =
     map_option (\<lambda>x. \<lparr>acc_user_id = u_id u, acc_organization_id = oi_organization_id x\<rparr>)
       (query_first (\<lambda>x. oi_token_hash x = digest \<and> oi_status x = ''accepted'' \<and> oi_accepted_user_id x = Some (u_id u)
                         \<and> oi_invited_email x = str_lower (str_strip (u_email u))) (org_invitations s))"

text \<open>
  The second factor an existing account has to show; a code that is accepted is used up, which
  commits and gives up the lock on the invitation, so that is read again.
\<close>

definition existing_user_factor :: "env \<Rightarrow> time \<Rightarrow> org_invitation \<Rightarrow> user \<Rightarrow> string option \<Rightarrow> db \<Rightarrow> db \<times> bool" where
  "existing_user_factor E now i u totp_code s =
     (if policy_requires_mfa s (oi_organization_id i)
      then verify_user_totp_step_up E now (u_id u) (case totp_code of None \<Rightarrow> '''' | Some c \<Rightarrow> c) s
      else (s, True))"

definition finish_existing_user :: "env \<Rightarrow> time \<Rightarrow> org_invitation \<Rightarrow> user \<Rightarrow> db \<Rightarrow> db \<times> (exn + accepted)" where
  "finish_existing_user E now i u s =
     (case activate_invitation E now i u s of
        (s1, Inl e) \<Rightarrow> (abandoned s s e s1, Inl e)
      | (s1, Inr m) \<Rightarrow> (s1, Inr \<lparr>acc_user_id = u_id u, acc_organization_id = m_organization_id m\<rparr>))"

definition accept_existing_user ::
  "env \<Rightarrow> time \<Rightarrow> string \<Rightarrow> user \<Rightarrow> string option \<Rightarrow> db \<Rightarrow> db \<times> (exn + accepted)" where
  "accept_existing_user E now token u totp_code s =
     (let digest = token_digest E token in
      case consumed_by digest u s of
        Some r \<Rightarrow> (s, Inr r)
      | None \<Rightarrow>
          (case pending_invitation E now token s of
             (s1, Inl e) \<Rightarrow>
               if is_gone e then (case consumed_by digest u s1 of Some r \<Rightarrow> (s1, Inr r) | None \<Rightarrow> (s1, Inl e)) else (s1, Inl e)
           | (s1, Inr i) \<Rightarrow>
               if u_status u \<noteq> ''active'' \<or> str_lower (str_strip (u_email u)) \<noteq> oi_invited_email i
               then (log_event E now ((invitation_event ''organization_invitation_denied'' i)
                       \<lparr>a_actor := Some (u_id u), a_meta := JObj [(''reason'', JStr ''identity_mismatch'')]\<rparr>) s1,
                     Inl (invitation_error ''identity_mismatch'' 403))
               else if policy_requires_mfa s1 (oi_organization_id i) \<and> \<not> u_mfa_enabled u
               then (s1, Inl (invitation_error ''mfa_enrollment_required'' 403))
               else let (s2, ok) = existing_user_factor E now i u totp_code s1
                    in if \<not> ok
                       then (failed_factor E now (Some (u_id u)) ''mfa_step_up_failed'' i s2, Inl (invitation_error ''mfa_invalid'' 400))
                       else if policy_requires_mfa s1 (oi_organization_id i)
                       then (case pending_invitation E now token s2 of
                               (s3, Inl e) \<Rightarrow> (s3, Inl e) | (s3, Inr i') \<Rightarrow> finish_existing_user E now i' u s3)
                       else finish_existing_user E now i u s2))"

subsection \<open>The invitation table\<close>

lemma set_invitation_simps [simp]:
  "org_invitations (set_invitation i f s) = update_where (\<lambda>x. oi_id x = i) f (org_invitations s)"
  "users (set_invitation i f s) = users s" "memberships (set_invitation i f s) = memberships s"
  "membership_roles (set_invitation i f s) = membership_roles s" "roles (set_invitation i f s) = roles s"
  "audit_events (set_invitation i f s) = audit_events s" "organizations (set_invitation i f s) = organizations s"
  "find_org (set_invitation i f s) k = find_org s k" "mfa_policies (set_invitation i f s) = mfa_policies s"
  "permissions (set_invitation i f s) = permissions s" "role_permissions (set_invitation i f s) = role_permissions s"
  by (simp_all add: set_invitation_def find_org_def)

lemma invitation_frames [simp]:
  "org_invitations (fst (get_or_create_role n ps s)) = org_invitations s"
  "org_invitations (assign_default_role u s) = org_invitations s"
  "org_invitations (fst (resolve_roles_for_org E now ns org admin actor target s)) = org_invitations s"
  "org_invitations (fst (verify_user_totp_step_up E now uid code s)) = org_invitations s"
  by (subst get_or_create_role_writes, simp) (subst assign_default_role_writes, simp, subst resolve_roles_writes, simp,
      subst step_up_writes, simp)

text \<open>How a row may change: a row that is not pending never changes, and a pending one keeps its identity.\<close>

definition evolves :: "env \<Rightarrow> org_invitation \<Rightarrow> org_invitation \<Rightarrow> bool" where
  "evolves E x y \<longleftrightarrow> oi_id y = oi_id x \<and> oi_organization_id y = oi_organization_id x \<and> oi_invited_email y = oi_invited_email x
     \<and> oi_token_hash y = oi_token_hash x \<and> (oi_status x \<noteq> ''pending'' \<longrightarrow> y = x)
     \<and> (oi_status y = ''pending'' \<longrightarrow> oi_active_key y = oi_active_key x \<and> oi_mfa_attempts x \<le> oi_mfa_attempts y
         \<and> (oi_mfa_attempts y = oi_mfa_attempts x \<or> oi_mfa_attempts y < ORG_INVITATION_MAX_ACCEPT_ATTEMPTS (cfg E)))
     \<and> (oi_status x = ''pending'' \<and> oi_status y \<noteq> ''pending'' \<longrightarrow> oi_active_key y = None)
     \<and> (oi_status x = ''pending'' \<and> oi_status y = ''accepted'' \<longrightarrow> oi_accepted_user_id y \<noteq> None)"

lemma evolves_refl [simp]: "evolves E x x"
  by (auto simp: evolves_def)

lemma evolves_rows_refl [simp]: "list_all2 (evolves E) xs xs"
  by (simp add: list_all2_refl)

lemma evolves_trans: "evolves E x y \<Longrightarrow> evolves E y z \<Longrightarrow> evolves E x z"
  by (auto simp: evolves_def)

definition table_evolves :: "env \<Rightarrow> db \<Rightarrow> db \<Rightarrow> bool" where
  "table_evolves E s s' \<longleftrightarrow> list_all2 (evolves E) (org_invitations s) (org_invitations s')"

lemma table_evolves_same [simp, intro]: "org_invitations s' = org_invitations s \<Longrightarrow> table_evolves E s s'"
  by (simp add: table_evolves_def list_all2_refl)

lemma table_evolves_log [simp]: "table_evolves E s (log_event E' now a s') = table_evolves E s s'"
  by (simp add: table_evolves_def)

lemma table_evolves_trans: "table_evolves E s s1 \<Longrightarrow> table_evolves E s1 s2 \<Longrightarrow> table_evolves E s s2"
  unfolding table_evolves_def by (rule list_all2_trans [of "evolves E" "evolves E" "evolves E", OF evolves_trans])

lemma table_evolves_set:
  assumes "\<And>x. x \<in> set (org_invitations s) \<Longrightarrow> oi_id x = i \<Longrightarrow> evolves E x (f x)"
  shows "table_evolves E s (set_invitation i f s)"
  using assms by (simp add: table_evolves_def update_where_def list.rel_map list_all2_same)

definition row_ok :: "env \<Rightarrow> org_invitation \<Rightarrow> bool" where
  "row_ok E x \<longleftrightarrow>
     oi_active_key x = (if oi_status x = ''pending'' then Some (active_key_for E (oi_organization_id x) (oi_invited_email x)) else None)
   \<and> (oi_status x = ''accepted'' \<longrightarrow> oi_accepted_user_id x \<noteq> None)
   \<and> (oi_status x = ''pending'' \<longrightarrow> oi_mfa_attempts x = 0 \<or> oi_mfa_attempts x < ORG_INVITATION_MAX_ACCEPT_ATTEMPTS (cfg E))"

definition inv_ok :: "env \<Rightarrow> db \<Rightarrow> bool" where
  "inv_ok E s \<longleftrightarrow> distinct (map oi_id (org_invitations s)) \<and> distinct (map oi_token_hash (org_invitations s))
     \<and> list_all (row_ok E) (org_invitations s)
     \<and> (\<forall>x \<in> set (org_invitations s). \<forall>y \<in> set (org_invitations s).
          oi_active_key x = oi_active_key y \<and> oi_active_key x \<noteq> None \<longrightarrow> oi_id x = oi_id y)"

lemma inv_ok_cong: "org_invitations s' = org_invitations s \<Longrightarrow> inv_ok E s' = inv_ok E s"
  by (simp only: inv_ok_def)

lemma evolves_back: "list_all2 (evolves E) xs ys \<Longrightarrow> y \<in> set ys \<Longrightarrow> \<exists>x \<in> set xs. evolves E x y"
  by (induction rule: list_all2_induct) auto

lemma evolves_forth: "list_all2 (evolves E) xs ys \<Longrightarrow> x \<in> set xs \<Longrightarrow> \<exists>y \<in> set ys. evolves E x y"
  by (induction rule: list_all2_induct) auto

lemma evolves_map: "list_all2 (evolves E) xs ys \<Longrightarrow> map oi_id ys = map oi_id xs \<and> map oi_token_hash ys = map oi_token_hash xs"
  by (induction rule: list_all2_induct) (auto simp: evolves_def)

lemma evolves_row_ok: "evolves E x y \<Longrightarrow> row_ok E x \<Longrightarrow> row_ok E y \<and> (oi_active_key y \<noteq> None \<longrightarrow> oi_active_key y = oi_active_key x)"
  by (cases "oi_status x = ''pending''"; cases "oi_status y = ''pending''") (auto simp: evolves_def row_ok_def)

lemma evolves_id: "evolves E x y \<Longrightarrow> oi_id y = oi_id x"
  by (simp add: evolves_def)

lemma inv_ok_evolves:
  assumes ok: "inv_ok E s" and ev: "table_evolves E s s'"
  shows "inv_ok E s'"
proof -
  have l: "list_all2 (evolves E) (org_invitations s) (org_invitations s')" using ev by (simp add: table_evolves_def)
  have rows: "list_all (row_ok E) (org_invitations s')"
    using ok evolves_back [OF l] evolves_row_ok unfolding inv_ok_def list_all_iff by metis
  have keys: "oi_id y = oi_id z" if "y \<in> set (org_invitations s')" "z \<in> set (org_invitations s')"
      "oi_active_key y = oi_active_key z" "oi_active_key y \<noteq> None" for y z
  proof -
    note y = that
    obtain a b where a: "a \<in> set (org_invitations s)" "evolves E a y" and b: "b \<in> set (org_invitations s)" "evolves E b z"
      using evolves_back [OF l] y(1,2) by blast
    have "row_ok E a" "row_ok E b" using ok a(1) b(1) by (auto simp: inv_ok_def list_all_iff)
    then have "oi_active_key a = oi_active_key b \<and> oi_active_key a \<noteq> None"
      using evolves_row_ok [OF a(2)] evolves_row_ok [OF b(2)] y(3,4) by simp
    then have "oi_id a = oi_id b" using ok a(1) b(1) unfolding inv_ok_def by blast
    then show ?thesis using evolves_id a(2) b(2) by simp
  qed
  show ?thesis
    unfolding inv_ok_def
  proof (intro conjI ballI impI)
    show "distinct (map oi_id (org_invitations s'))" "distinct (map oi_token_hash (org_invitations s'))"
      using ok evolves_map [OF l] by (simp_all add: inv_ok_def)
    show "list_all (row_ok E) (org_invitations s')" by (rule rows)
    show "oi_id x = oi_id y" if "x \<in> set (org_invitations s')" "y \<in> set (org_invitations s')"
      "oi_active_key x = oi_active_key y \<and> oi_active_key x \<noteq> None" for x y
      using keys that by blast
  qed
qed

subsection \<open>Every operation keeps it\<close>

lemma row_by_id: "inv_ok E s \<Longrightarrow> i \<in> set (org_invitations s) \<Longrightarrow> x \<in> set (org_invitations s) \<Longrightarrow> oi_id x = oi_id i \<Longrightarrow> x = i"
  by (auto simp: inv_ok_def dest: distinct_keyD)

lemma row_evolves:
  "inv_ok E s \<Longrightarrow> i \<in> set (org_invitations s) \<Longrightarrow> evolves E i (f i) \<Longrightarrow> table_evolves E s (set_invitation (oi_id i) f s)"
  by (rule table_evolves_set) (use row_by_id in blast)

lemma set_expired_evolves: "inv_ok E s \<Longrightarrow> i \<in> set (org_invitations s) \<Longrightarrow> table_evolves E s (set_expired E now actor i s)"
  by (simp add: set_expired_def row_evolves evolves_def)

lemma pending_evolves: "inv_ok E s \<Longrightarrow> table_evolves E s (fst (pending_invitation E now token s))"
  by (auto simp: pending_invitation_def split: option.splits intro!: set_expired_evolves dest: query_first_Some)

lemma pending_Inr:
  assumes "pending_invitation E now token s = (s1, Inr i)"
  shows "s1 = s \<and> token \<noteq> [] \<and> length token \<le> 256 \<and> i \<in> set (org_invitations s) \<and> oi_token_hash i = token_hash E token
    \<and> oi_status i = ''pending'' \<and> now < oi_expires_at i
    \<and> (\<exists>org. find_org s (oi_organization_id i) = Some org \<and> o_status org = ''active'')"
  using assms by (auto simp: pending_invitation_def not_le dest: query_first_Some split: option.splits if_splits)

lemma failed_factor_evolves:
  assumes ok: "inv_ok E s" and i: "i \<in> set (org_invitations s)" and p: "oi_status i = ''pending''"
  shows "table_evolves E s (failed_factor E now actor reason i s)"
proof -
  define g :: "org_invitation \<Rightarrow> org_invitation" where "g = (\<lambda>x. let y = x\<lparr>oi_mfa_attempts := oi_mfa_attempts x + 1\<rparr>
     in if ORG_INVITATION_MAX_ACCEPT_ATTEMPTS (cfg E) \<le> oi_mfa_attempts i + 1
        then y\<lparr>oi_status := ''revoked'', oi_active_key := None, oi_revoked_at := Some now\<rparr> else y)"
  have "org_invitations (failed_factor E now actor reason i s) = org_invitations (set_invitation (oi_id i) g s)"
    by (auto simp: failed_factor_def g_def Let_def update_where_def)
  moreover have "table_evolves E s (set_invitation (oi_id i) g s)"
    using p by (intro row_evolves [OF ok i]) (auto simp: evolves_def g_def Let_def)
  ultimately show ?thesis by (simp add: table_evolves_def)
qed

lemma activate_evolves:
  assumes ok: "inv_ok E s" and i: "i \<in> set (org_invitations s)" and p: "oi_status i = ''pending''"
  shows "table_evolves E s (fst (activate_invitation E now i u s))"
proof -
  let ?r = "resolve_roles_for_org E now (if oi_role_names i = [] then [''org_member''] else oi_role_names i) (oi_organization_id i)
      (oi_inviter_is_platform_admin i) (Some (oi_invited_by_user_id i)) (Some (u_id u)) s"
  obtain s0 res where r: "?r = (s0, res)" by fastforce
  have "org_invitations s0 = org_invitations s"
    using invitation_frames(3) [of E now "if oi_role_names i = [] then [''org_member''] else oi_role_names i"] r by (metis fst_conv)
  then have same: "org_invitations (fst (activate_membership E now i u s)) = org_invitations s"
    unfolding activate_membership_def Let_def r by (cases res) simp_all
  obtain s1 r where a: "activate_membership E now i u s = (s1, r)" by fastforce
  have "table_evolves E s s1" using same a by simp
  moreover have "table_evolves E s1 (set_invitation (oi_id i) (\<lambda>x. x\<lparr>oi_status := ''accepted'', oi_active_key := None,
      oi_accepted_at := Some now, oi_accepted_user_id := Some (u_id u), oi_mfa_secret_encrypted := None\<rparr>) s1)"
    using p same a i ok inv_ok_cong [of s1 s] by (intro row_evolves) (simp_all add: evolves_def)
  ultimately show ?thesis
    using a by (cases r) (auto simp: activate_invitation_def Let_def intro: table_evolves_trans)
qed

lemma start_mfa_evolves: "inv_ok E s \<Longrightarrow> table_evolves E s (fst (start_invitation_mfa E now secret token s))"
proof -
  assume ok: "inv_ok E s"
  show ?thesis
  proof (cases "pending_invitation E now token s")
    case (Pair s1 r)
    show ?thesis
    proof (cases r)
      case (Inl e)
      then show ?thesis using pending_evolves [OF ok, of now token] Pair by (simp add: start_invitation_mfa_def)
    next
      case (Inr i)
      have i: "s1 = s" "i \<in> set (org_invitations s)" "oi_status i = ''pending''"
        using pending_Inr Pair Inr by blast+
      have "table_evolves E s (set_invitation (oi_id i)
          (\<lambda>x. x\<lparr>oi_mfa_secret_encrypted := Some (crypto_encrypt E secret), oi_mfa_setup_at := Some now\<rparr>) s)"
        using i(3) by (intro row_evolves [OF ok i(2)]) (simp add: evolves_def)
      then show ?thesis using Pair Inr i(1) by (simp add: start_invitation_mfa_def split: option.split)
    qed
  qed
qed

lemma list_evolves: "inv_ok E s \<Longrightarrow> table_evolves E s (fst (list_invitations E now org actor s))"
proof -
  have step: "table_evolves E s (fold (\<lambda>x s. if oi_expires_at x \<le> now then set_expired E now (Some actor) x s else s) rows s)"
    if "inv_ok E s" "set rows \<subseteq> set (org_invitations s)" "distinct rows" for rows s
    using that
  proof (induction rows arbitrary: s)
    case (Cons x rows)
    let ?s = "if oi_expires_at x \<le> now then set_expired E now (Some actor) x s else s"
    have ev: "table_evolves E s ?s" using Cons.prems set_expired_evolves by simp
    have "y \<in> set (org_invitations ?s)" if y: "y \<in> set rows" for y
    proof -
      have "y \<noteq> x" "y \<in> set (org_invitations s)" "x \<in> set (org_invitations s)" using Cons.prems y by auto
      then have "oi_id y \<noteq> oi_id x" using row_by_id [OF Cons.prems(1)] by blast
      with \<open>y \<in> set (org_invitations s)\<close> show ?thesis by (auto simp: set_expired_def set_update_where)
    qed
    then have "set rows \<subseteq> set (org_invitations ?s)" by blast
    then have "table_evolves E ?s (fold (\<lambda>x s. if oi_expires_at x \<le> now then set_expired E now (Some actor) x s else s) rows ?s)"
      using Cons.IH inv_ok_evolves [OF Cons.prems(1) ev] Cons.prems(3) by simp
    with ev show ?case by (auto intro: table_evolves_trans)
  qed simp
  assume "inv_ok E s"
  moreover from this have "distinct (org_invitations s)" by (auto simp: inv_ok_def distinct_map)
  ultimately show ?thesis by (simp add: list_invitations_def Let_def step)
qed

lemma revoke_evolves: "inv_ok E s \<Longrightarrow> i \<in> set (org_invitations s) \<Longrightarrow> revoke_invitation E now i actor s = Inr s' \<Longrightarrow> table_evolves E s s'"
  by (auto simp: revoke_invitation_def evolves_def intro!: row_evolves split: if_splits)

lemma enroll_invitations [simp]: "org_invitations (fst (create_invited_user E now password i s)) = org_invitations s"
  by (simp add: create_invited_user_def enroll_invited_user_def set_user_def Let_def)

lemma finish_existing_evolves:
  assumes ok: "inv_ok E s" and i: "i \<in> set (org_invitations s)" "oi_status i = ''pending''"
  shows "table_evolves E s (fst (finish_existing_user E now i u s))"
proof -
  obtain s1 r where a: "activate_invitation E now i u s = (s1, r)" by fastforce
  then have "table_evolves E s s1" using activate_evolves [OF ok i, of now u] by simp
  then show ?thesis using a by (cases r) (simp_all add: finish_existing_user_def abandoned_def)
qed

lemma accept_existing_evolves:
  assumes ok: "inv_ok E s"
  shows "table_evolves E s (fst (accept_existing_user E now token u totp_code s))"
proof -
  obtain s1 r where p: "pending_invitation E now token s = (s1, r)" by fastforce
  have ev1: "table_evolves E s s1" using pending_evolves [OF ok, of now token] p by simp
  show ?thesis
  proof (cases r)
    case (Inl e)
    then show ?thesis using p ev1 by (auto simp: accept_existing_user_def Let_def split: option.split)
  next
    case (Inr i)
    have i: "s1 = s" "i \<in> set (org_invitations s)" "oi_status i = ''pending''" using pending_Inr p Inr by blast+
    obtain s2 b where v: "existing_user_factor E now i u totp_code s = (s2, b)" by fastforce
    have same: "org_invitations s2 = org_invitations s"
      using v by (simp add: existing_user_factor_def split: if_splits) (metis fst_conv invitation_frames(4))
    have ok2: "inv_ok E s2" using ok same inv_ok_cong by blast
    have i2: "i \<in> set (org_invitations s2)" using i same by simp
    have lift_ev: "table_evolves E s x" if "table_evolves E s2 x" for x
      using same that by (simp add: table_evolves_def)
    obtain s3 r3 where q: "pending_invitation E now token s2 = (s3, r3)" by fastforce
    have ev3: "table_evolves E s2 s3" using pending_evolves [OF ok2, of now token] q by simp
    have fin3: "table_evolves E s2 (fst (finish_existing_user E now i' u s3))" if "r3 = Inr i'" for i'
      using pending_Inr [of E now token s2 s3 i'] q that finish_existing_evolves [OF ok2] by simp
    have "table_evolves E s2 (failed_factor E now (Some (u_id u)) ''mfa_step_up_failed'' i s2)"
      by (rule failed_factor_evolves [OF ok2 i2 i(3)])
    moreover have "table_evolves E s2 (fst (finish_existing_user E now i u s2))" by (rule finish_existing_evolves [OF ok2 i2 i(3)])
    ultimately show ?thesis
      using p Inr i(1) v q ev3 fin3
      by (cases r3) (simp_all add: accept_existing_user_def Let_def lift_ev split: option.split)
  qed
qed

lemma accept_new_evolves:
  assumes ok: "inv_ok E s"
  shows "table_evolves E s (fst (accept_new_user E now token password totp_code s))"
proof -
  obtain s1 r where p: "pending_invitation E now token s = (s1, r)" by fastforce
  have ev1: "table_evolves E s s1" using pending_evolves [OF ok, of now token] p by simp
  show ?thesis
  proof (cases r)
    case (Inl e)
    then show ?thesis using p ev1 by (auto simp: accept_new_user_def Let_def split: option.split sum.split)
  next
    case (Inr i)
    have i: "s1 = s" "i \<in> set (org_invitations s)" "oi_status i = ''pending''" using pending_Inr p Inr by blast+
    have fin: "table_evolves E s (fst (finish_new_user E now password i s))"
    proof -
      obtain s2 u where c: "create_invited_user E now password i s = (s2, u)" by fastforce
      have same2: "org_invitations s2 = org_invitations s" using c enroll_invitations by (metis fst_conv)
      have ok2: "inv_ok E s2" using ok same2 inv_ok_cong by blast
      have i2: "i \<in> set (org_invitations s2)" using i same2 by simp
      obtain s3 r3 where a: "activate_invitation E now i u s2 = (s3, r3)" by fastforce
      have "table_evolves E s s3"
        using activate_evolves [OF ok2 i2 i(3), of now u] a same2 by (simp add: table_evolves_def)
      then show ?thesis using c a same2 by (cases r3) (simp_all add: finish_new_user_def abandoned_def)
    qed
    show ?thesis
      using p Inr i(1) fin failed_factor_evolves [OF ok i(2,3), of now None "''mfa_verification_failed''"]
      by (cases "new_user_factor E now i totp_code s")
        (simp_all add: accept_new_user_def Let_def split: option.split sum.split)
  qed
qed

lemma inv_ok_append:
  assumes "inv_ok E s" "oi_id i = next_id oi_id (org_invitations s)" "row_ok E i"
    "\<not> query_exists (\<lambda>x. oi_token_hash x = oi_token_hash i \<or> oi_active_key x = oi_active_key i) (org_invitations s)"
  shows "inv_ok E (log_event E' now a (s\<lparr>org_invitations := org_invitations s @ [i]\<rparr>))"
proof -
  have fresh: "\<And>x. x \<in> set (org_invitations s) \<Longrightarrow> oi_id x \<noteq> oi_id i \<and> oi_token_hash x \<noteq> oi_token_hash i \<and> oi_active_key x \<noteq> oi_active_key i"
    using assms(2,4) next_id_notin [of oi_id "org_invitations s"] by (auto simp: query_exists_def image_iff)
  have ids: "oi_id i \<notin> oi_id ` set (org_invitations s)" "oi_token_hash i \<notin> oi_token_hash ` set (org_invitations s)"
    using fresh by (metis imageE)+
  have "\<forall>x \<in> set (org_invitations s). \<forall>y \<in> set (org_invitations s). oi_active_key x = oi_active_key y \<and> oi_active_key x \<noteq> None \<longrightarrow> oi_id x = oi_id y"
    using assms(1) unfolding inv_ok_def by blast
  then have "\<forall>x \<in> insert i (set (org_invitations s)). \<forall>y \<in> insert i (set (org_invitations s)).
      oi_active_key x = oi_active_key y \<and> oi_active_key x \<noteq> None \<longrightarrow> oi_id x = oi_id y"
    using fresh by (metis insert_iff)
  then show ?thesis using assms(1,3) ids by (simp add: inv_ok_def)
qed

lemma send_keeps:
  assumes "inv_ok E base" "inv_ok E s" "row_ok E i" "oi_id i = next_id oi_id (org_invitations s)"
  shows "inv_ok E (fst (send_invitation E now token actor i base s))"
  using assms(1) inv_ok_append [OF assms(2,4,3)] by (simp add: send_invitation_def Let_def)

lemma new_invitation_ok:
  "row_ok E (new_invitation E now token org actor email rs admin s)"
  "oi_id (new_invitation E now token org actor email rs admin s) = next_id oi_id (org_invitations s)"
  by (simp_all add: new_invitation_def row_ok_def)

lemma create_keeps:
  assumes ok: "inv_ok E s"
  shows "inv_ok E (fst (create_invitation E now token org actor email names admin s))"
proof -
  define ns where "ns = (if names = [] then [''org_member''] else names)"
  let ?s1 = "fst (get_or_create_role ''org_member'' [] s)"
  let ?key = "active_key_for E (o_id org) (str_lower (str_strip email))"
  obtain s2 rr where res: "resolve_roles_for_org E now ns (o_id org) admin (Some (u_id actor)) None ?s1 = (s2, rr)" by fastforce
  have same: "org_invitations s2 = org_invitations s"
    using invitation_frames(3) [of E now ns "o_id org" admin "Some (u_id actor)" None ?s1] res by simp
  have ok2: "inv_ok E s2" using ok same inv_ok_cong by blast
  let ?ex = "query_first (\<lambda>x. oi_active_key x = Some ?key \<and> oi_status x = ''pending'') (org_invitations s2)"
  have ok3: "inv_ok E (set_expired E now (Some (u_id actor)) x s2)" if "?ex = Some x" for x
    using inv_ok_evolves [OF ok2 set_expired_evolves [OF ok2]] query_first_Some [OF that] by blast
  note send = send_keeps [OF ok ok2 new_invitation_ok] send_keeps [OF ok ok3 new_invitation_ok]
  show ?thesis
  proof (cases rr)
    case (Inl e)
    then show ?thesis using res ok ok2 by (simp add: create_invitation_def Let_def ns_def [symmetric] split: option.split)
  next
    case (Inr rs)
    then show ?thesis
      using res ok send
      by (cases ?ex) (simp_all add: create_invitation_def Let_def ns_def [symmetric] del: query_first_None split: option.split)
  qed
qed

subsection \<open>Steps\<close>

inductive inv_step :: "env \<Rightarrow> db \<Rightarrow> db \<Rightarrow> bool" for E :: env where
  create: "inv_step E s (fst (create_invitation E now token org actor email names admin s))"
| listing: "inv_step E s (fst (list_invitations E now oid uid s))"
| revoke: "i \<in> set (org_invitations s) \<Longrightarrow> revoke_invitation E now i actor s = Inr s' \<Longrightarrow> inv_step E s s'"
| preview: "inv_step E s (fst (preview_invitation E now token s))"
| mfa_setup: "inv_step E s (fst (start_invitation_mfa E now secret token s))"
| accept_new: "inv_step E s (fst (accept_new_user E now token password totp_code s))"
| accept_existing: "inv_step E s (fst (accept_existing_user E now token u totp_code s))"
| elsewhere: "org_invitations s' = org_invitations s \<Longrightarrow> inv_step E s s'"

lemma preview_evolves: "inv_ok E s \<Longrightarrow> table_evolves E s (fst (preview_invitation E now token s))"
  using pending_evolves [of E s now token]
  by (cases "pending_invitation E now token s"; cases "snd (pending_invitation E now token s)") (simp_all add: preview_invitation_def)

lemma inv_step_keeps: "inv_step E s s' \<Longrightarrow> inv_ok E s \<Longrightarrow> inv_ok E s'"
proof (induction rule: inv_step.induct)
  case (elsewhere s' s)
  then show ?case using inv_ok_cong by blast
qed (simp_all add: create_keeps inv_ok_evolves [OF _ list_evolves] inv_ok_evolves [OF _ revoke_evolves] inv_ok_evolves [OF _ preview_evolves]
      inv_ok_evolves [OF _ start_mfa_evolves] inv_ok_evolves [OF _ accept_new_evolves] inv_ok_evolves [OF _ accept_existing_evolves])

lemma inv_ok_empty [simp]: "inv_ok E empty_db"
  by (simp add: inv_ok_def empty_db_def)

interpretation invitations: transition_invariant "inv_step E" "inv_ok E" for E
  by unfold_locales (rule inv_step_keeps)

text \<open>A row that is no longer pending stays as it is.\<close>

lemma create_appends: "x \<in> set (org_invitations s) \<Longrightarrow> oi_status x \<noteq> ''pending'' \<Longrightarrow> inv_ok E s \<Longrightarrow>
   x \<in> set (org_invitations (fst (create_invitation E now token org actor email names admin s)))"
proof -
  assume x: "x \<in> set (org_invitations s)" "oi_status x \<noteq> ''pending''" and ok: "inv_ok E s"
  define ns where "ns = (if names = [] then [''org_member''] else names)"
  let ?s1 = "fst (get_or_create_role ''org_member'' [] s)"
  obtain s2 rr where res: "resolve_roles_for_org E now ns (o_id org) admin (Some (u_id actor)) None ?s1 = (s2, rr)" by fastforce
  have same: "org_invitations s2 = org_invitations s"
    using invitation_frames(3) [of E now ns "o_id org" admin "Some (u_id actor)" None ?s1] res by simp
  have send: "x \<in> set (org_invitations (fst (send_invitation E now token actor i s t)))" if "x \<in> set (org_invitations t)" for i t
    using x that by (simp add: send_invitation_def Let_def)
  have exp: "x \<in> set (org_invitations (set_expired E now a j s2))" if "j \<in> set (org_invitations s2)" "oi_status j = ''pending''" for a j
  proof -
    have "oi_id x \<noteq> oi_id j" using that x same row_by_id [OF ok, of j x] by auto
    then show ?thesis using that x same by (auto simp: set_expired_def set_update_where)
  qed
  show ?thesis
  proof (cases rr)
    case (Inl e)
    then show ?thesis using res same x by (simp add: create_invitation_def Let_def ns_def [symmetric] split: option.split)
  next
    case (Inr rs)
    let ?ex = "query_first (\<lambda>j. oi_active_key j = Some (active_key_for E (o_id org) (str_lower (str_strip email)))
        \<and> oi_status j = ''pending'') (org_invitations s2)"
    show ?thesis
    proof (cases ?ex)
      case None
      then show ?thesis using res Inr x same send [of s2]
        by (simp add: create_invitation_def Let_def ns_def [symmetric] split: option.split del: query_first_None)
    next
      case (Some j)
      have "j \<in> set (org_invitations s2)" "oi_status j = ''pending''" using query_first_Some [OF Some] by simp_all
      from send [OF exp [OF this]] show ?thesis using res Inr x same Some
        by (simp add: create_invitation_def Let_def ns_def [symmetric] split: option.split)
    qed
  qed
qed

lemma evolves_final: "table_evolves E s s' \<Longrightarrow> x \<in> set (org_invitations s) \<Longrightarrow> oi_status x \<noteq> ''pending'' \<Longrightarrow> x \<in> set (org_invitations s')"
  unfolding table_evolves_def using evolves_forth [of E] by (metis evolves_def)

lemma final_row_step:
  "inv_step E s s' \<Longrightarrow> inv_ok E s \<Longrightarrow> x \<in> set (org_invitations s) \<Longrightarrow> oi_status x \<noteq> ''pending'' \<Longrightarrow> x \<in> set (org_invitations s')"
proof (induction rule: inv_step.induct)
qed (simp_all add: create_appends evolves_final [OF list_evolves] evolves_final [OF revoke_evolves] evolves_final [OF preview_evolves]
      evolves_final [OF start_mfa_evolves] evolves_final [OF accept_new_evolves] evolves_final [OF accept_existing_evolves])

lemma final_row: "(inv_step E)\<^sup>*\<^sup>* s s' \<Longrightarrow> inv_ok E s \<Longrightarrow> x \<in> set (org_invitations s) \<Longrightarrow> oi_status x \<noteq> ''pending'' \<Longrightarrow> x \<in> set (org_invitations s')"
proof (induction rule: rtranclp_induct)
  case (step t t')
  then show ?case using final_row_step invitations.reachable by blast
qed

subsection \<open>What an acceptance does\<close>

lemma resolve_Inr:
  "resolve_roles_for_org E now ns org admin actor target s = (s', Inr rs) \<Longrightarrow>
   s' = s \<and> map r_name rs = ns \<and> set rs \<subseteq> set (roles s) \<and> (\<not> admin \<longrightarrow> (\<forall>r \<in> set rs. offending (role_perms s r) = []))"
proof (induction ns arbitrary: s' rs)
  case (Cons n ns)
  then show ?case
    by (auto simp: get_role_in_scope_def split: option.splits prod.splits sum.splits if_splits dest!: query_first_Some)
qed simp

definition invited_role_names :: "org_invitation \<Rightarrow> string list" where
  "invited_role_names i = (if oi_role_names i = [] then [''org_member''] else oi_role_names i)"

text \<open>The membership an accepted invitation leaves: the invited roles and no others.\<close>

definition member_as_invited :: "db \<Rightarrow> org_invitation \<Rightarrow> int \<Rightarrow> bool" where
  "member_as_invited s i uid \<longleftrightarrow>
     (\<exists>m \<in> set (memberships s). m_organization_id m = oi_organization_id i \<and> m_user_id m = uid \<and> m_status m = ''active''
       \<and> set (map r_name (roles_of_membership s m)) = set (invited_role_names i)
       \<and> (\<not> oi_inviter_is_platform_admin i \<longrightarrow> set (permissions_for_membership s m) \<inter> set GLOBAL_SCOPE_PERMISSIONS = {}))"

lemma activate_membership_Inr:
  assumes a: "activate_membership E now i u s = (s', Inr m)" and d: "distinct (map r_id (roles s))"
  shows "member_as_invited s' i (u_id u) \<and> m_organization_id m = oi_organization_id i \<and> m_status m = ''active''
    \<and> s' = s\<lparr>memberships := memberships s', membership_roles := membership_roles s'\<rparr>"
proof -
  let ?org = "oi_organization_id i" let ?ex = "get_membership s ?org (u_id u)"
  obtain s1 rr where res: "resolve_roles_for_org E now (invited_role_names i) ?org (oi_inviter_is_platform_admin i)
      (Some (oi_invited_by_user_id i)) (Some (u_id u)) s = (s1, rr)" by fastforce
  from a obtain rs where rr: "rr = Inr rs" and na: "map_option m_status ?ex \<noteq> Some ''active''"
    using res by (auto simp: activate_membership_def invited_role_names_def [symmetric] Let_def split: if_splits sum.splits)
  have r: "s1 = s" "map r_name rs = invited_role_names i" "set rs \<subseteq> set (roles s)"
    "\<not> oi_inviter_is_platform_admin i \<longrightarrow> (\<forall>r \<in> set rs. offending (role_perms s r) = [])"
    using resolve_Inr res rr by blast+
  have s': "s' = s\<lparr>memberships := memberships s', membership_roles := assign_links (m_id m) (map r_id rs) (membership_roles s)\<rparr>"
    and m: "m_organization_id m = ?org" "m_user_id m = u_id u" "m_status m = ''active''" "m \<in> set (memberships s')"
    using a res rr na r(1)
    by (auto simp: activate_membership_def invited_role_names_def [symmetric] Let_def get_membership_def set_update_where
        split: if_splits option.splits dest: query_first_Some)
  have ro: "roles s' = roles s" "membership_roles s' = assign_links (m_id m) (map r_id rs) (membership_roles s)" by (subst s', simp)+
  have rom: "set (roles_of_membership s' m) = set rs"
    using r(3) d by (auto simp: roles_of_membership_def ro set_assign_links dest: distinct_keyD)
  have rp: "role_perms s' x = role_perms s x" for x by (subst s', simp add: role_perms_def)
  have "set (permissions_for_membership s' m) \<inter> set GLOBAL_SCOPE_PERMISSIONS = {}" if "\<not> oi_inviter_is_platform_admin i"
    using r(4) that rom by (auto simp: permissions_for_membership_def permissions_for_roles_def rp offending_Nil)
  moreover have "set (map r_name (roles_of_membership s' m)) = set (invited_role_names i)"
    using rom r(2) by (metis list.set_map)
  moreover have "s' = s\<lparr>memberships := memberships s', membership_roles := membership_roles s'\<rparr>" using s' ro(2) by simp
  ultimately show ?thesis using m by (auto simp: member_as_invited_def)
qed

lemma member_as_invited_cong:
  "memberships s' = memberships s \<Longrightarrow> membership_roles s' = membership_roles s \<Longrightarrow> roles s' = roles s \<Longrightarrow>
   permissions s' = permissions s \<Longrightarrow> role_permissions s' = role_permissions s \<Longrightarrow> member_as_invited s' i uid = member_as_invited s i uid"
  by (simp add: member_as_invited_def roles_of_membership_def permissions_for_membership_def permissions_for_roles_def role_perms_def)

definition accepted_row :: "db \<Rightarrow> string \<Rightarrow> int \<Rightarrow> int \<Rightarrow> bool" where
  "accepted_row s h uid org \<longleftrightarrow>
     (\<exists>y \<in> set (org_invitations s). oi_token_hash y = h \<and> oi_status y = ''accepted'' \<and> oi_accepted_user_id y = Some uid \<and> oi_organization_id y = org)"

lemma accepted_row_log [simp]: "accepted_row (log_event E now a s) h uid org = accepted_row s h uid org"
  by (simp add: accepted_row_def)

lemma set_invitation_accepted:
  assumes "i \<in> set (org_invitations s)" "oi_token_hash (f i) = oi_token_hash i" "oi_status (f i) = ''accepted''"
    "oi_accepted_user_id (f i) = Some uid" "oi_organization_id (f i) = oi_organization_id i"
  shows "accepted_row (set_invitation (oi_id i) f s) (oi_token_hash i) uid (oi_organization_id i)"
  unfolding accepted_row_def using assms in_update_whereI [of i "org_invitations s" "\<lambda>x. oi_id x = oi_id i" f]
  by (intro bexI [of _ "f i"]) (auto simp: set_update_where)

lemma activate_Inr:
  assumes a: "activate_invitation E now i u s = (s', Inr m)" and i: "i \<in> set (org_invitations s)"
  shows "accepted_row s' (oi_token_hash i) (u_id u) (oi_organization_id i) \<and> users s' = users s
    \<and> (distinct (map r_id (roles s)) \<longrightarrow> member_as_invited s' i (u_id u) \<and> m_organization_id m = oi_organization_id i)"
proof -
  obtain s1 where m: "activate_membership E now i u s = (s1, Inr m)"
    using a by (auto simp: activate_invitation_def split: prod.splits sum.splits)
  have same: "org_invitations s1 = org_invitations s" "users s1 = users s"
  proof -
    obtain s0 rr where res: "resolve_roles_for_org E now (if oi_role_names i = [] then [''org_member''] else oi_role_names i)
        (oi_organization_id i) (oi_inviter_is_platform_admin i) (Some (oi_invited_by_user_id i)) (Some (u_id u)) s = (s0, rr)" by fastforce
    obtain rs where rr: "rr = Inr rs" using m res by (auto simp: activate_membership_def Let_def split: if_splits sum.splits)
    have "s0 = s" using resolve_Inr res rr by blast
    then show "org_invitations s1 = org_invitations s" "users s1 = users s"
      using m res rr by (auto simp: activate_membership_def Let_def split: if_splits)
  qed
  have "accepted_row s' (oi_token_hash i) (u_id u) (oi_organization_id i)"
    using a m i same(1) by (auto simp: activate_invitation_def Let_def intro!: set_invitation_accepted)
  moreover have "users s' = users s" using a m same(2) by (auto simp: activate_invitation_def Let_def)
  moreover have "member_as_invited s' i (u_id u) \<and> m_organization_id m = oi_organization_id i" if "distinct (map r_id (roles s))"
  proof -
    have "member_as_invited s' i (u_id u) = member_as_invited s1 i (u_id u)"
      using a m by (intro member_as_invited_cong) (auto simp: activate_invitation_def Let_def)
    then show ?thesis using activate_membership_Inr [OF m that] by simp
  qed
  ultimately show ?thesis by blast
qed

lemma activate_org: "activate_invitation E now i u s = (s', Inr m) \<Longrightarrow> m_organization_id m = oi_organization_id i"
  by (auto simp: activate_invitation_def activate_membership_def Let_def get_membership_def
      split: prod.splits sum.splits if_splits option.splits dest: query_first_Some)

lemma retry_Inr:
  "accepted_new_user_retry E digest password s = Inr (Some r) \<Longrightarrow> accepted_row s digest (acc_user_id r) (acc_organization_id r)"
  by (auto simp: accepted_new_user_retry_def accepted_row_def split: option.splits sum.splits bool.splits dest: query_first_Some)

lemma retry_password:
  "accepted_new_user_retry E digest password s = Inr (Some r) \<Longrightarrow>
     \<exists>x h. find_user s (acc_user_id r) = Some x \<and> u_hashed_password x = Some h \<and> verify_password E password h = Inr True"
  by (auto simp: accepted_new_user_retry_def split: option.splits sum.splits bool.splits)

lemma consumed_Inr: "consumed_by digest u s = Some r \<Longrightarrow> accepted_row s digest (u_id u) (acc_organization_id r) \<and> acc_user_id r = u_id u"
  by (auto simp: consumed_by_def accepted_row_def dest!: query_first_Some)

lemma pending_digest: "pending_invitation E now token s = (s1, Inr i) \<Longrightarrow> oi_token_hash i = token_digest E token"
  using pending_Inr by (auto simp: token_digest_def)

lemma consumed_after_pending:
  assumes "consumed_by digest u s = None" "pending_invitation E now token s = (s1, Inl e)"
  shows "consumed_by digest u s1 = None"
proof -
  have "s1 = s \<or> (\<exists>i \<in> set (org_invitations s). s1 = set_expired E now None i s)"
    using assms(2) by (auto simp: pending_invitation_def split: option.splits if_splits dest: query_first_Some)
  then show ?thesis
    using assms(1) by (auto simp: consumed_by_def set_expired_def set_update_where split: if_splits)
qed

lemma step_up_roles: "roles (fst (verify_user_totp_step_up E now uid code s)) = roles s"
  by (subst step_up_writes) simp

lemma accept_existing_row:
  assumes "accept_existing_user E now token u totp_code s = (s', Inr r)"
  shows "accepted_row s' (token_digest E token) (acc_user_id r) (acc_organization_id r)"
proof -
  have fin: "accepted_row s' (oi_token_hash i) (acc_user_id r) (acc_organization_id r)"
    if "finish_existing_user E now i u t = (s', Inr r)" "i \<in> set (org_invitations t)" for i t
    using that activate_Inr [of E now i u t s'] activate_org [of E now i u t s']
    by (auto simp: finish_existing_user_def split: prod.splits sum.splits)
  show ?thesis
  proof (cases "consumed_by (token_digest E token) u s")
    case (Some r')
    then show ?thesis using assms consumed_Inr by (auto simp: accept_existing_user_def Let_def)
  next
    case None
    obtain s1 p where p: "pending_invitation E now token s = (s1, p)" by fastforce
    show ?thesis
    proof (cases p)
      case (Inl e)
      then show ?thesis using assms None p consumed_Inr
        by (fastforce simp: accept_existing_user_def Let_def split: if_splits option.splits)
    next
      case (Inr i)
      note i = pending_Inr [OF p [unfolded Inr]] pending_digest [OF p [unfolded Inr]]
      obtain s2 b where v: "existing_user_factor E now i u totp_code s = (s2, b)" by fastforce
      obtain s3 q where q: "pending_invitation E now token s2 = (s3, q)" by fastforce
      show ?thesis
      proof (cases "policy_requires_mfa s (oi_organization_id i)")
        case True
        then obtain j where "q = Inr j" "finish_existing_user E now j u s3 = (s', Inr r)"
          using assms None p Inr i v q by (auto simp: accept_existing_user_def Let_def split: if_splits sum.splits)
        then show ?thesis using fin [of j s3] pending_Inr [of E now token s2 s3 j] pending_digest [of E now token s2 s3 j] q by auto
      next
        case False
        then have "s2 = s" "finish_existing_user E now i u s = (s', Inr r)"
          using assms None p Inr i v by (auto simp: accept_existing_user_def existing_user_factor_def Let_def split: if_splits)
        then show ?thesis using fin [of i s] i by auto
      qed
    qed
  qed
qed

lemma accept_new_row:
  assumes "accept_new_user E now token password totp_code s = (s', Inr r)"
  shows "accepted_row s' (token_digest E token) (acc_user_id r) (acc_organization_id r)"
proof (cases "accepted_new_user_retry E (token_digest E token) password s")
  case (Inl e)
  then show ?thesis using assms by (simp add: accept_new_user_def)
next
  case (Inr o')
  show ?thesis
  proof (cases o')
    case (Some r')
    then show ?thesis using assms Inr retry_Inr by (auto simp: accept_new_user_def)
  next
    case None
    obtain s1 p where p: "pending_invitation E now token s = (s1, p)" by fastforce
    show ?thesis
    proof (cases p)
      case (Inl e)
      then show ?thesis using assms Inr None p retry_Inr
        by (fastforce simp: accept_new_user_def split: if_splits option.splits sum.splits)
    next
      case i': (Inr i)
      note i = pending_Inr [OF p [unfolded i']] pending_digest [OF p [unfolded i']]
      have f: "finish_new_user E now password i s = (s', Inr r)"
        using assms Inr None p i' i by (auto simp: accept_new_user_def split: if_splits sum.splits)
      obtain s2 u where c: "create_invited_user E now password i s = (s2, u)" by fastforce
      have "i \<in> set (org_invitations s2)" using i(1) c enroll_invitations by (metis fst_conv)
      then show ?thesis using f c i(2) activate_Inr [of E now i u s2 s']
        by (auto simp: finish_new_user_def split: prod.splits sum.splits)
    qed
  qed
qed

subsection \<open>Properties\<close>

text \<open>
  Property. The invitation table in every reachable state: at most one pending invitation per
  organization and e-mail address, an accepted invitation names the account that took it, and a
  pending invitation has had fewer wrong second-factor codes than
  \<open>ORG_INVITATION_MAX_ACCEPT_ATTEMPTS\<close> (the last one allowed revokes it), so codes cannot be
  guessed against an invitation.
\<close>

theorem invitation_table_ok:
  assumes "(inv_step E)\<^sup>*\<^sup>* empty_db s" "x \<in> set (org_invitations s)"
  shows "(oi_status x = ''accepted'' \<longrightarrow> oi_accepted_user_id x \<noteq> None)
    \<and> (oi_status x = ''pending'' \<longrightarrow> oi_mfa_attempts x < max 1 (ORG_INVITATION_MAX_ACCEPT_ATTEMPTS (cfg E))
        \<and> (\<forall>y \<in> set (org_invitations s). oi_status y = ''pending'' \<and> oi_organization_id y = oi_organization_id x
             \<and> oi_invited_email y = oi_invited_email x \<longrightarrow> y = x))"
proof -
  have ok: "inv_ok E s" using invitations.reachable [OF assms(1)] by simp
  then have row: "\<And>y. y \<in> set (org_invitations s) \<Longrightarrow> row_ok E y" by (auto simp: inv_ok_def list_all_iff)
  have "y = x" if "oi_status x = ''pending''" "y \<in> set (org_invitations s)" "oi_status y = ''pending''"
      "oi_organization_id y = oi_organization_id x" "oi_invited_email y = oi_invited_email x" for y
  proof -
    have "oi_active_key y = oi_active_key x \<and> oi_active_key y \<noteq> None"
      using row [OF assms(2)] row [OF that(2)] that by (simp add: row_ok_def)
    then have "oi_id y = oi_id x" using ok that(2) assms(2) unfolding inv_ok_def by blast
    then show ?thesis by (rule row_by_id [OF ok assms(2) that(2)])
  qed
  then show ?thesis using row [OF assms(2)] by (auto simp: row_ok_def)
qed

text \<open>
  C25. An invitation is accepted once. After a successful acceptance, by a new account or an
  existing one, and whatever happens later, presenting its token again changes nothing: every
  further call leaves the state as it is and either fails or repeats the first answer. The call
  for people without an account repeats it only to the password that the account which accepted
  has at that moment, the call for existing accounts only to the account which accepted.
\<close>

theorem invitation_accepted_once:
  assumes st: "(inv_step E)\<^sup>*\<^sup>* empty_db s" and tok: "token \<noteq> []" "length token \<le> 256"
    and acc: "accept_new_user E now token password totp_code s = (s1, Inr r) \<or> accept_existing_user E now token u totp_code s = (s1, Inr r)"
    and later: "(inv_step E)\<^sup>*\<^sup>* s1 s2"
  shows "fst (accept_new_user E now' token password' totp' s2) = s2 \<and> fst (accept_existing_user E now' token u' totp' s2) = s2
    \<and> (\<forall>r'. snd (accept_new_user E now' token password' totp' s2) = Inr r' \<longrightarrow>
          r' = r \<and> (\<exists>x h. find_user s2 (acc_user_id r) = Some x \<and> u_hashed_password x = Some h \<and> verify_password E password' h = Inr True))
    \<and> (\<forall>r'. snd (accept_existing_user E now' token u' totp' s2) = Inr r' \<longrightarrow> r' = r \<and> u_id u' = acc_user_id r)"
proof -
  have ok: "inv_ok E s" using invitations.reachable [OF st] by simp
  have "inv_step E s s1" using acc inv_step.accept_new inv_step.accept_existing by (metis fst_conv)
  then have ok1: "inv_ok E s1" using ok inv_step_keeps by blast
  have d: "token_digest E token = token_hash E token" using tok by (simp add: token_digest_def)
  have "accepted_row s1 (token_digest E token) (acc_user_id r) (acc_organization_id r)"
    using acc accept_new_row accept_existing_row by blast
  then obtain y where y1: "y \<in> set (org_invitations s1)" and y: "oi_token_hash y = token_hash E token" "oi_status y = ''accepted''"
    "oi_accepted_user_id y = Some (acc_user_id r)" "oi_organization_id y = acc_organization_id r" by (auto simp: accepted_row_def d)
  have y2: "y \<in> set (org_invitations s2)" using final_row [OF later ok1 y1] y(2) by simp
  have ok2: "inv_ok E s2" using later ok1 by (rule invitations.reachable)
  have uniq: "x = y" if "x \<in> set (org_invitations s2)" "oi_token_hash x = token_hash E token" for x
    using ok2 that y2 y(1) by (auto simp: inv_ok_def dest: distinct_keyD)
  have row: "uid = acc_user_id r \<and> org = acc_organization_id r" if "accepted_row s2 (token_hash E token) uid org" for uid org
    using that uniq y by (auto simp: accepted_row_def)
  have "distinct (map oi_token_hash (org_invitations s2))" using ok2 by (simp add: inv_ok_def)
  from query_first_unique [OF this y2 y(1)]
  have q: "query_first (\<lambda>x. oi_token_hash x = token_hash E token) (org_invitations s2) = Some y" .
  have p: "pending_invitation E now' token s2 = (s2, Inl (invitation_error ''invitation_unavailable'' 410))"
    using tok q y(2) by (simp add: pending_invitation_def)
  have same: "r' = r" if "acc_user_id r' = acc_user_id r" "acc_organization_id r' = acc_organization_id r" for r' :: accepted
    using that by simp
  have retry: "r' = r \<and> (\<exists>x h. find_user s2 (acc_user_id r) = Some x \<and> u_hashed_password x = Some h \<and> verify_password E password' h = Inr True)"
    if "accepted_new_user_retry E (token_hash E token) password' s2 = Inr (Some r')" for r'
    using same row retry_Inr [OF that] retry_password [OF that] by blast
  have n: "fst (accept_new_user E now' token password' totp' s2) = s2
      \<and> (\<forall>r'. snd (accept_new_user E now' token password' totp' s2) = Inr r' \<longrightarrow>
            r' = r \<and> (\<exists>x h. find_user s2 (acc_user_id r) = Some x \<and> u_hashed_password x = Some h \<and> verify_password E password' h = Inr True))"
  proof (cases "accepted_new_user_retry E (token_hash E token) password' s2")
    case (Inr o')
    then show ?thesis using retry by (cases o') (auto simp: accept_new_user_def d p)
  qed (simp add: accept_new_user_def d)
  have cons: "r' = r \<and> u_id u' = acc_user_id r" if "consumed_by (token_hash E token) u' s2 = Some r'" for r'
    using same row consumed_Inr [OF that] that by (auto simp: consumed_by_def)
  have e: "fst (accept_existing_user E now' token u' totp' s2) = s2
      \<and> (\<forall>r'. snd (accept_existing_user E now' token u' totp' s2) = Inr r' \<longrightarrow> r' = r \<and> u_id u' = acc_user_id r)"
    using cons by (cases "consumed_by (token_hash E token) u' s2") (auto simp: accept_existing_user_def d p)
  show ?thesis using n e by blast
qed

text \<open>
  C26. What an existing account gets from an invitation. When a token is accepted for the first
  time, it belongs to a pending, unexpired invitation of an active organization whose e-mail
  address is the account's own, the account is active and, where the organization requires a
  second factor, has just shown an unused code of its authenticator. The account is left an
  active member with exactly the invited roles, and unless a platform administrator invited it
  these hold no platform-wide permission, whatever has become of the roles in between.
\<close>

theorem existing_account_accepts:
  assumes acc: "accept_existing_user E now token u totp_code s = (s', Inr r)"
    and first: "consumed_by (token_digest E token) u s = None" and d: "distinct (map r_id (roles s))"
  shows "\<exists>i \<in> set (org_invitations s). oi_token_hash i = token_hash E token \<and> oi_status i = ''pending'' \<and> now < oi_expires_at i
    \<and> map_option o_status (find_org s (oi_organization_id i)) = Some ''active''
    \<and> u_status u = ''active'' \<and> str_lower (str_strip (u_email u)) = oi_invited_email i
    \<and> (policy_requires_mfa s (oi_organization_id i) \<longrightarrow>
         u_mfa_enabled u \<and> snd (verify_user_totp_step_up E now (u_id u) (case totp_code of None \<Rightarrow> '''' | Some c \<Rightarrow> c) s) = True)
    \<and> member_as_invited s' i (u_id u) \<and> acc_user_id r = u_id u \<and> acc_organization_id r = oi_organization_id i"
proof -
  have fin: "member_as_invited s' i (u_id u) \<and> acc_user_id r = u_id u \<and> acc_organization_id r = oi_organization_id i"
    if "finish_existing_user E now i u t = (s', Inr r)" "i \<in> set (org_invitations t)" "roles t = roles s" for i t
    using that d activate_Inr [of E now i u t s'] by (auto simp: finish_existing_user_def split: prod.splits sum.splits)
  obtain s1 p where p: "pending_invitation E now token s = (s1, p)" by fastforce
  have "\<exists>i. p = Inr i"
  proof (cases p)
    case (Inl e)
    then have "consumed_by (token_digest E token) u s1 = None" using first p consumed_after_pending by blast
    then show ?thesis using acc first p Inl by (simp add: accept_existing_user_def split: if_splits)
  qed simp
  then obtain i where pi: "p = Inr i" by blast
  note i = pending_Inr [OF p [unfolded pi]]
  obtain s2 b where v: "existing_user_factor E now i u totp_code s = (s2, b)" by fastforce
  have r2: "roles s2 = roles s"
    using v by (simp add: existing_user_factor_def split: if_splits) (metis fst_conv step_up_roles)
  obtain s3 q where q: "pending_invitation E now token s2 = (s3, q)" by fastforce
  have who: "u_status u = ''active''" "str_lower (str_strip (u_email u)) = oi_invited_email i" b
    "policy_requires_mfa s (oi_organization_id i) \<longrightarrow> u_mfa_enabled u"
    using acc first p pi i v by (auto simp: accept_existing_user_def split: if_splits)
  have end': "member_as_invited s' i (u_id u) \<and> acc_user_id r = u_id u \<and> acc_organization_id r = oi_organization_id i"
  proof (cases "policy_requires_mfa s (oi_organization_id i)")
    case True
    then obtain j where j: "q = Inr j" "finish_existing_user E now j u s3 = (s', Inr r)"
      using acc first p pi i v q who by (auto simp: accept_existing_user_def split: if_splits sum.splits)
    have same2: "org_invitations s2 = org_invitations s"
      using v by (simp add: existing_user_factor_def split: if_splits) (metis fst_conv invitation_frames(4))
    have "j = i" "s3 = s2" using q j(1) same2 p pi i by (auto simp: pending_invitation_def split: option.splits if_splits)
    then show ?thesis using fin [OF j(2)] r2 i same2 by simp
  next
    case False
    then have "finish_existing_user E now i u s = (s', Inr r)"
      using acc first p pi i v who by (auto simp: accept_existing_user_def existing_user_factor_def split: if_splits)
    then show ?thesis using fin i by blast
  qed
  have "policy_requires_mfa s (oi_organization_id i) \<longrightarrow>
      snd (verify_user_totp_step_up E now (u_id u) (case totp_code of None \<Rightarrow> '''' | Some c \<Rightarrow> c) s) = True"
    using v who(3) by (auto simp: existing_user_factor_def)
  then show ?thesis using i who end' by (intro bexI [of _ i]) auto
qed

lemma no_retry:
  assumes "\<forall>x \<in> set (org_invitations s). oi_token_hash x = digest \<longrightarrow> oi_status x \<noteq> ''accepted''"
  shows "accepted_new_user_retry E digest password s = Inr None"
    and "pending_invitation E now token s = (s1, Inl e) \<Longrightarrow> accepted_new_user_retry E digest password s1 = Inr None"
proof -
  have none: "accepted_new_user_retry E digest password t = Inr None"
    if "\<forall>x \<in> set (org_invitations t). oi_token_hash x = digest \<longrightarrow> oi_status x \<noteq> ''accepted''" for t
  proof -
    have "query_first (\<lambda>x. oi_token_hash x = digest \<and> oi_status x = ''accepted'') (org_invitations t) = None" using that by auto
    then show ?thesis by (simp add: accepted_new_user_retry_def del: query_first_None)
  qed
  show "accepted_new_user_retry E digest password s = Inr None" using none assms by blast
  assume "pending_invitation E now token s = (s1, Inl e)"
  then have "s1 = s \<or> (\<exists>i \<in> set (org_invitations s). s1 = set_expired E now None i s)"
    by (auto simp: pending_invitation_def split: option.splits if_splits dest: query_first_Some)
  then have "\<forall>x \<in> set (org_invitations s1). oi_token_hash x = digest \<longrightarrow> oi_status x \<noteq> ''accepted''"
    using assms by (auto simp: set_expired_def set_update_where split: if_splits)
  then show "accepted_new_user_retry E digest password s1 = Inr None" by (rule none)
qed

lemma goc_roles:
  "roles (fst (get_or_create_role n [] s)) = roles s \<or>
   (\<exists>r. roles (fst (get_or_create_role n [] s)) = roles s @ [r] \<and> r_id r = next_id r_id (roles s) \<and> r_name r = n)"
  by (cases "get_role_by_name s n None") (auto simp: get_or_create_role_def add_role_def Let_def)

lemma goc_roles_distinct:
  assumes "distinct (map r_id (roles s))"
  shows "distinct (map r_id (roles (fst (get_or_create_role n [] s))))"
  using goc_roles [of n s] assms next_id_notin [of r_id "roles s"] by (elim disjE exE conjE) simp_all

lemma invited_user_stored:
  assumes c: "create_invited_user E now password i s = (s', u)"
  shows "u = invited_user E now password i s \<and> roles s' = roles (fst (get_or_create_role ''user'' [] s))
    \<and> (\<exists>v \<in> set (users s'). u_id v = u_id u \<and> u_email v = oi_invited_email i \<and> u_status v = ''active''
         \<and> u_hashed_password v = Some (hash_password E password) \<and> (policy_requires_mfa s (oi_organization_id i) \<longrightarrow> u_mfa_enabled v))"
proof -
  let ?u = "invited_user E now password i s" let ?s1 = "s\<lparr>users := users s @ [?u]\<rparr>"
  have u: "u = ?u" using c by (auto simp: create_invited_user_def Let_def)
  have us: "users (assign_default_role ?u ?s1) = users s @ [?u]" by (subst assign_default_role_writes) simp
  have ro: "roles (assign_default_role ?u ?s1) = roles (fst (get_or_create_role ''user'' [] s))"
    by (cases "get_role_by_name s ''user'' None")
      (simp_all add: assign_default_role_def get_or_create_role_def add_role_def get_role_by_name_def Let_def del: query_first_None)
  have en: "roles (enroll_invited_user E now i x t) = roles t"
    "users (enroll_invited_user E now i x t) = update_where (\<lambda>y. u_id y = u_id x) (enable_user_mfa now) (users t)" for x t
    by (simp_all add: enroll_invited_user_def set_user_def Let_def)
  have f: "u_id ?u = next_id u_id (users s)" "u_email ?u = oi_invited_email i" "u_status ?u = ''active''"
    "u_hashed_password ?u = Some (hash_password E password)" by (simp_all add: invited_user_def)
  show ?thesis
  proof (cases "policy_requires_mfa s (oi_organization_id i)")
    case True
    then have s': "s' = enroll_invited_user E now i ?u (assign_default_role ?u ?s1)" using c by (auto simp: create_invited_user_def Let_def)
    have "enable_user_mfa now ?u \<in> set (users s')" by (simp add: s' en us set_update_where)
    then show ?thesis using u ro f by (intro conjI bexI [of _ "enable_user_mfa now ?u"]) (simp_all add: s' en enable_user_mfa_def)
  next
    case False
    then have s': "s' = assign_default_role ?u ?s1" using c by (auto simp: create_invited_user_def Let_def)
    then show ?thesis using u ro f us False by (intro conjI bexI [of _ ?u]) simp_all
  qed
qed

text \<open>
  Property. What an invitation makes of a person without an account. When an unused token is accepted
  with a password, it belongs to a pending, unexpired invitation of an active organization,
  no account had the invited address, the password meets the policy and a required second
  factor was set up and shown; a new account with exactly that address and password is left,
  with the factor enabled, and an active membership with exactly the invited roles, which hold
  no platform-wide permission unless a platform administrator gave them.
\<close>

theorem new_account_accepts:
  assumes acc: "accept_new_user E now token password totp_code s = (s', Inr r)"
    and unused: "\<forall>x \<in> set (org_invitations s). oi_token_hash x = token_digest E token \<longrightarrow> oi_status x \<noteq> ''accepted''"
    and d: "distinct (map r_id (roles s))"
  shows "\<exists>i \<in> set (org_invitations s). oi_token_hash i = token_hash E token \<and> oi_status i = ''pending'' \<and> now < oi_expires_at i
    \<and> map_option o_status (find_org s (oi_organization_id i)) = Some ''active''
    \<and> oi_invited_email i \<notin> u_email ` set (users s) \<and> validate_new_password E password (Some (oi_invited_email i)) = None
    \<and> new_user_factor E now i totp_code s = Inr True
    \<and> acc_user_id r \<notin> u_id ` set (users s) \<and> acc_organization_id r = oi_organization_id i \<and> member_as_invited s' i (acc_user_id r)
    \<and> (\<exists>v \<in> set (users s'). u_id v = acc_user_id r \<and> u_email v = oi_invited_email i \<and> u_status v = ''active''
         \<and> u_hashed_password v = Some (hash_password E password) \<and> (policy_requires_mfa s (oi_organization_id i) \<longrightarrow> u_mfa_enabled v))"
proof -
  obtain s1 p where p: "pending_invitation E now token s = (s1, p)" by fastforce
  have "\<exists>i. p = Inr i"
  proof (cases p)
    case (Inl e)
    then show ?thesis using acc p no_retry [OF unused] by (simp add: accept_new_user_def split: if_splits)
  qed simp
  then obtain i where pi: "p = Inr i" by blast
  note i = pending_Inr [OF p [unfolded pi]]
  have chk: "oi_invited_email i \<notin> u_email ` set (users s)" "validate_new_password E password (Some (oi_invited_email i)) = None"
    "new_user_factor E now i totp_code s = Inr True" and f: "finish_new_user E now password i s = (s', Inr r)"
    using acc p pi i no_retry(1) [OF unused]
    by (auto simp: accept_new_user_def query_exists_def list_ex_iff image_iff split: if_splits sum.splits)
  obtain s2 u where c: "create_invited_user E now password i s = (s2, u)" by fastforce
  note st = invited_user_stored [OF c]
  have i2: "i \<in> set (org_invitations s2)" using i c enroll_invitations by (metis fst_conv)
  obtain m where a: "activate_invitation E now i u s2 = (s', Inr m)" and r: "r = \<lparr>acc_user_id = u_id u, acc_organization_id = oi_organization_id i\<rparr>"
    using f c by (auto simp: finish_new_user_def split: prod.splits sum.splits)
  have "distinct (map r_id (roles s2))" using st goc_roles_distinct [OF d] by simp
  then have g: "member_as_invited s' i (u_id u)" "users s' = users s2" using activate_Inr [OF a i2] by blast+
  have "u_id u \<notin> u_id ` set (users s)" using st next_id_notin [of u_id "users s"] by (simp add: invited_user_def)
  then show ?thesis using i chk g st r by (intro bexI [of _ i]) auto
qed

lemma create_invited_frame:
  assumes c: "create_invited_user E now password i s = (s', u)"
  shows "memberships s' = memberships s" "organizations s' = organizations s" "org_invitations s' = org_invitations s"
    "get_role_in_scope s n org = Some r \<Longrightarrow> get_role_in_scope s' n org = Some r" "role_perms s' r = role_perms s r"
proof -
  let ?t = "s\<lparr>users := users s @ [u]\<rparr>"
  let ?a = "assign_default_role u ?t"
  have s': "s' = ?a \<or> s' = enroll_invited_user E now i u ?a" using c by (auto simp: create_invited_user_def Let_def)
  have a: "memberships ?a = memberships s" "organizations ?a = organizations s" "org_invitations ?a = org_invitations s"
    by (subst assign_default_role_writes, simp)+
  have ro: "roles ?a = roles s \<or> (\<exists>x. roles ?a = roles s @ [x])"
    by (cases "get_role_by_name s ''user'' None")
      (simp_all add: assign_default_role_def get_or_create_role_def add_role_def get_role_by_name_def Let_def del: query_first_None)
  have rp: "permissions ?a = permissions s \<and> role_permissions ?a = role_permissions s"
    by (cases "get_role_by_name s ''user'' None")
      (simp_all add: assign_default_role_def get_or_create_role_def add_role_def get_role_by_name_def Let_def del: query_first_None)
  have en: "memberships (enroll_invited_user E now i u t) = memberships t" "organizations (enroll_invited_user E now i u t) = organizations t"
    "org_invitations (enroll_invited_user E now i u t) = org_invitations t" "roles (enroll_invited_user E now i u t) = roles t"
    "permissions (enroll_invited_user E now i u t) = permissions t" "role_permissions (enroll_invited_user E now i u t) = role_permissions t" for t
    by (simp_all add: enroll_invited_user_def set_user_def Let_def)
  show "memberships s' = memberships s" "organizations s' = organizations s" "org_invitations s' = org_invitations s"
    using s' a en by auto
  show "role_perms s' r = role_perms s r" using s' rp en by (auto simp: role_perms_def)
  have "roles s' = roles s \<or> (\<exists>x. roles s' = roles s @ [x])" using s' ro en by auto
  then show "get_role_in_scope s' n org = Some r" if "get_role_in_scope s n org = Some r"
    using that by (auto simp: get_role_in_scope_def query_first_append split: option.split)
qed

text \<open>
  Property. An acceptance that is refused can leave an account behind. When a role named in the
  invitation has gained a platform-wide permission since, \<open>accept_new_user\<close> fails with a
  \<open>ValueError\<close> no caller handles; but the denial event of \<open>resolve_roles_for_org\<close> has
  committed the session, so the new account and its password stay, without any membership,
  while the invitation is still pending, and from then on the invited person is told to sign in
  with an existing account.
\<close>

theorem refused_acceptance_leaves_account:
  assumes p: "pending_invitation E now token s = (s, Inr i)"
    and unused: "\<forall>x \<in> set (org_invitations s). oi_token_hash x = token_digest E token \<longrightarrow> oi_status x \<noteq> ''accepted''"
    and ok: "oi_invited_email i \<notin> u_email ` set (users s)" "validate_new_password E password (Some (oi_invited_email i)) = None"
      "new_user_factor E now i totp_code s = Inr True"
    and members: "\<forall>m \<in> set (memberships s). m_user_id m \<in> u_id ` set (users s)"
    and role: "\<not> oi_inviter_is_platform_admin i" "oi_role_names i = n # ns" "get_role_in_scope s n (oi_organization_id i) = Some x"
      "offending (role_perms s x) \<noteq> []"
  shows "\<exists>s' msg args. accept_new_user E now token password totp_code s = (s', Inl (ValueError msg args))
    \<and> oi_invited_email i \<in> u_email ` set (users s') \<and> memberships s' = memberships s \<and> org_invitations s' = org_invitations s
    \<and> (\<forall>now' pw tc. now' < oi_expires_at i \<longrightarrow> accept_new_user E now' token pw tc s' = (s', Inl (invitation_error ''existing_account'' 409)))"
proof -
  obtain s2 u where c: "create_invited_user E now password i s = (s2, u)" by fastforce
  note fr = create_invited_frame [OF c] and st = invited_user_stored [OF c]
  have "u_id u \<notin> u_id ` set (users s)" using st next_id_notin [of u_id "users s"] by (simp add: invited_user_def)
  then have "get_membership s2 (oi_organization_id i) (u_id u) = None" using members fr(1) unfolding get_membership_def query_first_None by metis
  moreover obtain a msg args where res: "resolve_roles_for_org E now (n # ns) (oi_organization_id i) False (Some (oi_invited_by_user_id i)) (Some (u_id u)) s2
      = (log_event E now a s2, Inl (ValueError msg args))"
    using role(3,4) fr(4,5) by auto
  ultimately have a: "activate_invitation E now i u s2 = (log_event E now a s2, Inl (ValueError msg args))"
    using role(1,2) by (simp add: activate_invitation_def activate_membership_def)
  let ?s = "log_event E now a s2"
  have no_account: "\<not> query_exists (\<lambda>u. u_email u = oi_invited_email i) (users s)"
    using ok(1) by (auto simp: query_exists_def list_ex_iff image_iff)
  have "audit_events ?s \<noteq> audit_events s2" by (simp add: log_event_def)
  then have "finish_new_user E now password i s = (?s, Inl (ValueError msg args))"
    using c a by (simp add: finish_new_user_def abandoned_def)
  then have r: "accept_new_user E now token password totp_code s = (?s, Inl (ValueError msg args))"
    using p ok(2,3) no_retry(1) [OF unused] no_account by (simp add: accept_new_user_def)
  have v: "oi_invited_email i \<in> u_email ` set (users ?s)" using st by force
  have later: "accept_new_user E now' token pw tc ?s = (?s, Inl (invitation_error ''existing_account'' 409))" if "now' < oi_expires_at i" for now' pw tc
  proof -
    have "pending_invitation E now' token ?s = (?s, Inr i)"
      using p that fr(2,3) pending_Inr [OF p] by (auto simp: pending_invitation_def find_org_def simp del: query_first_None split: option.splits if_splits)
    moreover have "accepted_new_user_retry E (token_digest E token) pw ?s = Inr None"
      using unused fr(3) by (intro no_retry(1)) simp
    moreover have "query_exists (\<lambda>u. u_email u = oi_invited_email i) (users ?s)" using v by (auto simp: query_exists_def list_ex_iff)
    ultimately show ?thesis by (simp add: accept_new_user_def)
  qed
  show ?thesis using r v later fr(1,3) by (intro exI [of _ ?s] exI [of _ msg] exI [of _ args]) auto
qed

subsection \<open>Concrete runs\<close>

definition inv_env :: env where
  "inv_env = (sample_env Map.empty)\<lparr>cfg := default_settings\<lparr>ORG_INVITATIONS_ENABLED := True,
     ORG_INVITATION_ACCEPT_URL := ''https://portal.example.org/accept''\<rparr>\<rparr>"

definition inv_org :: organization where
  "inv_org = \<lparr>o_id = 1, o_slug = ''lab'', o_name = ''Lab'', o_plan = ''beta'', o_status = ''active'', o_created_at = 0,
     o_created_by_user_id = Some 1, o_status_changed_at = None, o_status_changed_reason = None, o_status_changed_by_user_id = None\<rparr>"

text \<open>An organization with an administrator, an invited colleague who has an account, and an invitation.\<close>

definition inv_db :: db where
  "inv_db = empty_db\<lparr>users := [sample_user 1 ''root@lab.org'', sample_user 2 ''bob@lab.org''], organizations := [inv_org]\<rparr>"

definition inv_db1 :: db where
  "inv_db1 = fst (create_invitation inv_env 0 ''tok'' inv_org (sample_user 1 ''root@lab.org'') ''bob@lab.org'' [] False inv_db)"

definition inv_db2 :: db where
  "inv_db2 = fst (accept_existing_user inv_env 1 ''tok'' (sample_user 2 ''bob@lab.org'') None inv_db1)"



lemmas inv_eval = inv_db_def inv_env_def inv_org_def empty_db_def sample_env_def default_settings_def sample_user_def
  create_invitation_def invitation_refused_def valid_accept_url_def invitation_email_ok_def Let_def
  str_lower_def lower_char_def str_strip_def rstrip_by_def is_space_def find_user_by_email_def query_exists_def get_or_create_role_def get_role_by_name_def
  add_role_def get_role_in_scope_def role_perms_def offending_def send_invitation_def new_invitation_def token_hash_def ends_with_def starts_with_def

text \<open>The row \<open>create_invitation\<close> adds.\<close>

definition inv_row :: org_invitation where
  "inv_row = \<lparr>oi_id = 1, oi_organization_id = 1, oi_invited_by_user_id = 1, oi_inviter_is_platform_admin = False,
     oi_invited_email = ''bob@lab.org'', oi_role_names = [''org_member''], oi_token_hash = ''tok'',
     oi_active_key = Some (show_int 1 @ '':bob@lab.org''), oi_status = ''pending'', oi_created_at = 0, oi_expires_at = seconds 604800,
     oi_accepted_at = None, oi_accepted_user_id = None, oi_revoked_at = None, oi_revoked_by_user_id = None,
     oi_mfa_secret_encrypted = None, oi_mfa_setup_at = None, oi_mfa_attempts = 0\<rparr>"

definition inv_role :: role where
  "inv_role = \<lparr>r_id = 1, r_name = ''org_member'', r_description = None, r_organization_id = None\<rparr>"

lemma inv_db1: "\<exists>A. inv_db1 = inv_db\<lparr>org_invitations := [inv_row], roles := [inv_role], audit_events := A\<rparr>"
  by (simp add: inv_db1_def inv_row_def inv_role_def inv_eval log_event_def active_key_for_def next_id_def)

lemma inv_accepted: "snd (accept_existing_user inv_env 1 ''tok'' (sample_user 2 ''bob@lab.org'') None inv_db1)
   = Inr \<lparr>acc_user_id = 2, acc_organization_id = 1\<rparr>"
proof -
  obtain A where s: "inv_db1 = inv_db\<lparr>org_invitations := [inv_row], roles := [inv_role], audit_events := A\<rparr>" using inv_db1 by blast
  show ?thesis
    by (simp add: s inv_row_def inv_role_def inv_eval accept_existing_user_def consumed_by_def token_digest_def pending_invitation_def
       seconds_def find_org_def policy_requires_mfa_def existing_user_factor_def finish_existing_user_def activate_invitation_def activate_membership_def
       get_membership_def)
qed

lemma inv_reach: "(inv_step inv_env)\<^sup>*\<^sup>* empty_db inv_db1"
proof -
  have "inv_step inv_env empty_db inv_db" by (rule inv_step.elsewhere) (simp add: inv_db_def empty_db_def)
  moreover have "inv_step inv_env inv_db inv_db1" unfolding inv_db1_def by (rule inv_step.create)
  ultimately show ?thesis by (meson rtranclp.rtrancl_into_rtrancl rtranclp.rtrancl_refl)
qed

lemma inv_acc: "accept_existing_user inv_env 1 ''tok'' (sample_user 2 ''bob@lab.org'') None inv_db1
   = (inv_db2, Inr \<lparr>acc_user_id = 2, acc_organization_id = 1\<rparr>)"
  by (rule prod_eqI) (simp_all add: inv_db2_def inv_accepted)

theorem invitation_table_ok_witness:
  "oi_status inv_row = ''pending'' \<and> oi_mfa_attempts inv_row < max 1 (ORG_INVITATION_MAX_ACCEPT_ATTEMPTS (cfg inv_env))"
proof -
  obtain A where s: "inv_db1 = inv_db\<lparr>org_invitations := [inv_row], roles := [inv_role], audit_events := A\<rparr>" using inv_db1 by blast
  have "inv_row \<in> set (org_invitations inv_db1)" by (simp add: s)
  from invitation_table_ok [OF inv_reach this] show ?thesis by (simp add: inv_row_def)
qed

theorem invitation_accepted_once_witness:
  "fst (accept_new_user inv_env 2 ''tok'' ''pw'' None inv_db2) = inv_db2"
  using invitation_accepted_once [OF inv_reach _ _ disjI2 [OF inv_acc] rtranclp.rtrancl_refl,
      where now' = 2 and password' = "''pw''" and totp' = None and u' = "sample_user 2 ''bob@lab.org''"]
  by simp

theorem existing_account_accepts_witness: "member_as_invited inv_db2 inv_row 2"
proof -
  obtain A where s: "inv_db1 = inv_db\<lparr>org_invitations := [inv_row], roles := [inv_role], audit_events := A\<rparr>" using inv_db1 by blast
  have "consumed_by (token_digest inv_env ''tok'') (sample_user 2 ''bob@lab.org'') inv_db1 = None" "distinct (map r_id (roles inv_db1))"
    by (simp_all add: consumed_by_def s inv_row_def)
  from existing_account_accepts [OF inv_acc this] show ?thesis by (auto simp: s sample_user_def)
qed

text \<open>A person without an account, and the same with an invited role that has become platform-wide.\<close>

definition inv_new :: db where
  "inv_new = inv_db\<lparr>users := [sample_user 1 ''root@lab.org''], org_invitations := [inv_row], roles := [inv_role]\<rparr>"

definition inv_grown :: db where
  "inv_grown = inv_new\<lparr>permissions := [\<lparr>p_id = 1, p_name = ''manage_all_orgs''\<rparr>], role_permissions := [(1, 1)]\<rparr>"

lemma inv_password: "validate_new_password inv_env ''correct horse battery'' (Some (oi_invited_email inv_row)) = None"
  by (simp add: validate_new_password_def inv_row_def inv_env_def sample_env_def default_settings_def str_lower_def lower_char_def
      str_strip_def rstrip_by_def is_space_def COMMON_PASSWORDS_def check_compromised_def sha1_prefix_suffix_def Let_def)

lemma inv_new_pending: "pending_invitation inv_env 1 ''tok'' t = (t, Inr inv_row)" if "t = inv_new \<or> t = inv_grown"
  using that by (auto simp: pending_invitation_def inv_new_def inv_grown_def inv_db_def empty_db_def inv_row_def inv_env_def sample_env_def
      token_hash_def seconds_def find_org_def inv_org_def)

lemma inv_new_factor: "new_user_factor inv_env 1 inv_row None t = Inr True" if "t = inv_new \<or> t = inv_grown"
  using that by (auto simp: new_user_factor_def policy_requires_mfa_def inv_new_def inv_grown_def inv_db_def empty_db_def)

lemma inv_new_acc: "snd (accept_new_user inv_env 1 ''tok'' ''correct horse battery'' None inv_new)
   = Inr \<lparr>acc_user_id = 2, acc_organization_id = 1\<rparr>"
proof -
  have r: "accepted_new_user_retry inv_env (token_digest inv_env ''tok'') ''correct horse battery'' inv_new = Inr None"
    by (rule no_retry) (simp add: inv_new_def inv_row_def)
  have "snd (finish_new_user inv_env 1 ''correct horse battery'' inv_row inv_new) = Inr \<lparr>acc_user_id = 2, acc_organization_id = 1\<rparr>"
    by (simp add: finish_new_user_def create_invited_user_def invited_user_def assign_default_role_def get_or_create_role_def add_role_def
        get_role_by_name_def policy_requires_mfa_def activate_invitation_def activate_membership_def get_membership_def get_role_in_scope_def
        role_perms_def offending_def Let_def inv_new_def inv_db_def empty_db_def inv_row_def inv_role_def sample_user_def next_id_def)
  moreover have "\<not> query_exists (\<lambda>u. u_email u = oi_invited_email inv_row) (users inv_new)"
    by (simp add: query_exists_def inv_new_def inv_row_def sample_user_def)
  ultimately show ?thesis using r inv_new_pending inv_password inv_new_factor by (simp add: accept_new_user_def)
qed

theorem new_account_accepts_witness:
  "member_as_invited (fst (accept_new_user inv_env 1 ''tok'' ''correct horse battery'' None inv_new)) inv_row 2"
proof -
  have "accept_new_user inv_env 1 ''tok'' ''correct horse battery'' None inv_new
      = (fst (accept_new_user inv_env 1 ''tok'' ''correct horse battery'' None inv_new), Inr \<lparr>acc_user_id = 2, acc_organization_id = 1\<rparr>)"
    by (rule prod_eqI) (simp_all add: inv_new_acc)
  from new_account_accepts [OF this] show ?thesis by (auto simp: inv_new_def inv_row_def)
qed

theorem refused_acceptance_leaves_account_witness:
  "\<exists>s' e. accept_new_user inv_env 1 ''tok'' ''correct horse battery'' None inv_grown = (s', Inl e)
    \<and> ''bob@lab.org'' \<in> u_email ` set (users s') \<and> memberships s' = []"
proof -
  have u: "\<forall>x \<in> set (org_invitations inv_grown). oi_token_hash x = token_digest inv_env ''tok'' \<longrightarrow> oi_status x \<noteq> ''accepted''"
    by (simp add: inv_grown_def inv_new_def inv_row_def)
  have m: "oi_invited_email inv_row \<notin> u_email ` set (users inv_grown)" "\<forall>m \<in> set (memberships inv_grown). m_user_id m \<in> u_id ` set (users inv_grown)"
    "\<not> oi_inviter_is_platform_admin inv_row" "oi_role_names inv_row = ''org_member'' # []"
    "get_role_in_scope inv_grown ''org_member'' (oi_organization_id inv_row) = Some inv_role"
    by (simp_all add: inv_grown_def inv_new_def inv_db_def empty_db_def inv_row_def sample_user_def get_role_in_scope_def inv_role_def)
  have "''manage_all_orgs'' \<in> set GLOBAL_SCOPE_PERMISSIONS" by code_simp
  then have o': "offending (role_perms inv_grown inv_role) \<noteq> []"
    by (simp add: role_perms_def inv_role_def inv_grown_def inv_new_def offending_Nil)
  have "memberships inv_grown = []" by (simp add: inv_grown_def inv_new_def inv_db_def empty_db_def)
  then show ?thesis
    using refused_acceptance_leaves_account [OF inv_new_pending u m(1) inv_password inv_new_factor m(2-5) o'] by (auto simp: inv_row_def)
qed

end
