(* ===== verification/Route_Support.thy ===== *)
theory Route_Support
  imports Org_Invitations Api_Keys
begin

text \<open>
  What the route modules share. A handler takes its parsed arguments, the bearer token, the Redis
  state and the database, and returns the database with the answer or the exception; the
  database beside an exception holds what was committed before it was raised.

  \<open>or_raise\<close> is a call that may raise and writes nothing, \<open>and_then\<close> the sequence of two
  calls that may raise and write.
\<close>

definition or_raise :: "db \<Rightarrow> exn + 'a \<Rightarrow> ('a \<Rightarrow> db \<times> (exn + 'b)) \<Rightarrow> db \<times> (exn + 'b)" where
  "or_raise s x f = (case x of Inl e \<Rightarrow> (s, Inl e) | Inr a \<Rightarrow> f a)"

definition and_then :: "db \<times> (exn + 'a) \<Rightarrow> (db \<Rightarrow> 'a \<Rightarrow> db \<times> (exn + 'b)) \<Rightarrow> db \<times> (exn + 'b)" where
  "and_then p f = (case p of (s, Inl e) \<Rightarrow> (s, Inl e) | (s, Inr a) \<Rightarrow> f s a)"

definition refuse :: "db \<Rightarrow> int \<Rightarrow> string \<Rightarrow> db \<times> (exn + 'b)" where
  "refuse s code detail = (s, Inl (HTTPException code detail))"

text \<open>\<open>if not x: raise HTTPException(404, ...)\<close>\<close>

definition or_404 :: "string \<Rightarrow> 'a option \<Rightarrow> exn + 'a" where
  "or_404 detail x = (case x of None \<Rightarrow> Inl (HTTPException 404 detail) | Some a \<Rightarrow> Inr a)"

lemma or_raise_simps [simp]: "or_raise s (Inl e) f = (s, Inl e)" "or_raise s (Inr a) f = f a"
  by (simp_all add: or_raise_def)

lemma and_then_simps [simp]: "and_then (s, Inl e) f = (s, Inl e)" "and_then (s, Inr a) f = f s a"
  by (simp_all add: and_then_def)

lemma or_raise_Inr: "or_raise s x f = (s', Inr b) \<longleftrightarrow> (\<exists>a. x = Inr a \<and> f a = (s', Inr b))"
  by (cases x) auto

lemma and_then_Inr: "and_then p f = (s', Inr b) \<longleftrightarrow> (\<exists>s a. p = (s, Inr a) \<and> f s a = (s', Inr b))"
  by (cases p, cases "snd p") auto

lemma refuse_Inr [simp]: "refuse s code d \<noteq> (s', Inr b)" "fst (refuse s code d) = s"
  by (simp_all add: refuse_def)

lemma or_404_Inr [simp]: "or_404 d x = Inr a \<longleftrightarrow> x = Some a"
  by (simp add: or_404_def split: option.split)

text \<open>A property of the state a handler ends in, shown call by call.\<close>

definition ends :: "(db \<Rightarrow> bool) \<Rightarrow> db \<times> 'a \<Rightarrow> bool" where
  "ends P p \<longleftrightarrow> P (fst p)"

lemma ends_or_raise: "P s \<Longrightarrow> (\<And>a. x = Inr a \<Longrightarrow> ends P (f a)) \<Longrightarrow> ends P (or_raise s x f)"
  by (cases x) (auto simp: ends_def)

lemma ends_and_then:
  "(\<And>s e. p = (s, Inl e) \<Longrightarrow> P s) \<Longrightarrow> (\<And>s a. p = (s, Inr a) \<Longrightarrow> ends P (f s a)) \<Longrightarrow> ends P (and_then p f)"
  by (cases p, cases "snd p") (auto simp: ends_def)

lemma ends_refuse: "P s \<Longrightarrow> ends P (refuse s code d)"
  by (simp add: ends_def)

lemma ends_if: "(b \<Longrightarrow> ends P x) \<Longrightarrow> (\<not> b \<Longrightarrow> ends P y) \<Longrightarrow> ends P (if b then x else y)"
  by simp

lemma ends_done: "P s \<Longrightarrow> ends P (s, v)"
  by (simp add: ends_def)

lemma ends_option: "(x = None \<Longrightarrow> ends P a) \<Longrightarrow> (\<And>y. x = Some y \<Longrightarrow> ends P (f y)) \<Longrightarrow> ends P (case x of None \<Rightarrow> a | Some y \<Rightarrow> f y)"
  by (cases x) auto

lemmas handler_ends = ends_or_raise ends_and_then ends_refuse ends_if ends_done ends_option

lemma ends_fst: "ends P p \<Longrightarrow> P (fst p)"
  by (simp add: ends_def)

subsection \<open>Messages and callers\<close>

text \<open>\<open>p in str(e)\<close>: in the fixed text of the message or in a value put into it.\<close>

definition message_mentions :: "string \<Rightarrow> exn \<Rightarrow> bool" where
  "message_mentions p e = (case e of ValueError text args \<Rightarrow> contains_text p text \<or> (\<exists>a \<in> set args. contains_text p a) | _ \<Rightarrow> False)"

text \<open>\<open>except ValueError as e: raise HTTPException(code if p in str(e) else 400, str(e))\<close>\<close>

definition as_code_or_400 :: "string \<Rightarrow> int \<Rightarrow> exn \<Rightarrow> exn" where
  "as_code_or_400 p code e =
     (case e of ValueError text args \<Rightarrow> HTTPException (if message_mentions p e then code else 400) text | _ \<Rightarrow> e)"

definition map_exn :: "(exn \<Rightarrow> exn) \<Rightarrow> db \<times> (exn + 'a) \<Rightarrow> db \<times> (exn + 'a)" where
  "map_exn g p = (case p of (s, Inl e) \<Rightarrow> (s, Inl (g e)) | (s, Inr a) \<Rightarrow> (s, Inr a))"

lemma map_exn_simps [simp]: "fst (map_exn g p) = fst p" "map_exn g p = (s, Inr a) \<longleftrightarrow> p = (s, Inr a)"
  by (cases p, cases "snd p", auto simp: map_exn_def)+

text \<open>\<open>int(user.get("sub"))\<close>: a missing subject is \<open>int(None)\<close>.\<close>

definition int_sub_get :: "claims \<Rightarrow> exn + int" where
  "int_sub_get c = (if map_of c ''sub'' = None then Inl TypeError else int_sub c)"

lemma int_sub_get_Inr [simp]: "int_sub_get c = Inr uid \<longleftrightarrow> int_sub c = Inr uid"
  by (auto simp: int_sub_get_def int_sub_def)

text \<open>\<open>str(target.id) == str(user.get("sub"))\<close>\<close>

definition is_self :: "int \<Rightarrow> claims \<Rightarrow> bool" where
  "is_self uid c \<longleftrightarrow> sub_text (get_claim c ''sub'') = Some (show_int uid)"

lemma is_self_int_sub: "int_sub c = Inr uid \<Longrightarrow> is_self t c \<longleftrightarrow> t = uid"
  by (auto simp: is_self_def int_sub_def sub_text_def get_claim_def parse_int_def Let_def
      split: option.splits json.splits list.splits if_splits dest: arg_cong [where f = parse_int])

text \<open>\<open>MANAGE_ALL_ORGS in (user.get("permissions") or [])\<close>\<close>

definition caller_is_platform_admin :: "claims \<Rightarrow> exn + bool" where
  "caller_is_platform_admin user = claim_in_or_empty MANAGE_ALL_ORGS user ''permissions''"

subsection \<open>Roles as the routes show them\<close>

text \<open>
  \<open>RoleSummary\<close> and \<open>RoleDetailOut\<close> share their fields; the details carry the registry's
  entry of each permission.
\<close>

record role_summary =
  ro_id :: int
  ro_name :: string
  ro_description :: "string option"
  ro_permissions :: "string list"
  ro_organization_id :: "int option"

definition role_summary_of :: "db \<Rightarrow> role \<Rightarrow> role_summary" where
  "role_summary_of s r = \<lparr>ro_id = r_id r, ro_name = r_name r, ro_description = r_description r,
     ro_permissions = sorted_strs (role_perms s r), ro_organization_id = r_organization_id r\<rparr>"

record role_detail =
  rd_role :: role
  rd_permissions :: "json list"

definition permission_out_or_500 :: "string \<Rightarrow> exn + json" where
  "permission_out_or_500 name =
     (case map_of REGISTRY name of
        None \<Rightarrow> Inl (HTTPException 500 ''Registry drift: permission {!r} exists on this role in the database but is not present in the Permission Registry.'')
      | Some p \<Rightarrow> Inr (as_dict p))"

fun permissions_out_or_500 :: "string list \<Rightarrow> exn + json list" where
  "permissions_out_or_500 [] = Inr []"
| "permissions_out_or_500 (n # ns) =
     (case permission_out_or_500 n of
        Inl e \<Rightarrow> Inl e
      | Inr p \<Rightarrow> (case permissions_out_or_500 ns of Inl e \<Rightarrow> Inl e | Inr ps \<Rightarrow> Inr (p # ps)))"

definition role_detail_of :: "db \<Rightarrow> role \<Rightarrow> exn + role_detail" where
  "role_detail_of s r =
     (case permissions_out_or_500 (sorted_strs (role_perms s r)) of
        Inl e \<Rightarrow> Inl e
      | Inr ps \<Rightarrow> Inr \<lparr>rd_role = r, rd_permissions = ps\<rparr>)"

text \<open>\<open>_permission_out_or_none\<close>: what the registry does not know is skipped.\<close>

definition permissions_out_known :: "string list \<Rightarrow> json list" where
  "permissions_out_known names = map as_dict (List.map_filter (map_of REGISTRY) names)"

definition role_detail_lenient :: "db \<Rightarrow> role \<Rightarrow> role_detail" where
  "role_detail_lenient s r = \<lparr>rd_role = r, rd_permissions = permissions_out_known (sorted_strs (role_perms s r))\<rparr>"

lemma permissions_out_total: "(\<forall>n \<in> set ns. is_known_permission n) \<Longrightarrow> \<exists>ps. permissions_out_or_500 ns = Inr ps"
  by (induction ns) (auto simp: permission_out_or_500_def is_known_permission_def split: option.splits)

text \<open>In the states the operations reach no role's details can fail: the registry knows every permission row.\<close>

lemma role_detail_total: "roles_inv s \<Longrightarrow> \<exists>d. role_detail_of s r = Inr d"
proof -
  assume "roles_inv s"
  then have "\<forall>n \<in> set (sorted_strs (role_perms s r)). is_known_permission n"
    by (auto simp: in_role_perms roles_inv_def registered_ok_def)
  from permissions_out_total [OF this] show ?thesis by (auto simp: role_detail_of_def)
qed

end
