(* ===== verification/Auth_Routes.thy ===== *)
theory Auth_Routes
  imports Route_Support
begin

text \<open>
  \<open>app/api/routes_auth.py\<close> and \<open>app/services/sso_discovery_service.py\<close>: registration, the password
  login with everything that comes before and after the password, refreshing, switching teams,
  logging out and validating a token. The domain of the session cookie and the fresh identifiers
  are arguments; the Prometheus counters and the published invalidation are left out.

  The theory shows what a password login had to pass, that a locked account or an enforced
  single sign-on answers without looking at the password, and what logging out ends.
\<close>

subsection \<open>Which organization's sign-on an address belongs to\<close>

text \<open>\<open>email.rsplit("@", 1)[-1].strip().lower()\<close>, if there is an \<open>@\<close> and something after it.\<close>

definition email_domain :: "string \<Rightarrow> string option" where
  "email_domain email =
     (if CHR ''@'' \<notin> set email then None
      else let domain = str_lower (str_strip (rev (takeWhile (\<lambda>c. c \<noteq> CHR ''@'') (rev email))))
           in if domain = [] then None else Some domain)"

definition find_org_for_email :: "db \<Rightarrow> string \<Rightarrow> org_sso_config option" where
  "find_org_for_email s email =
     (case email_domain email of
        None \<Rightarrow> None
      | Some domain \<Rightarrow> query_first (\<lambda>c. sso_status c = ''active'' \<and> domain \<in> set (map str_lower (sso_allowed_domains c))) (sso_configs s))"

definition find_enforced_org_for_email :: "db \<Rightarrow> string \<Rightarrow> org_sso_config option" where
  "find_enforced_org_for_email s email =
     (case find_org_for_email s email of
        None \<Rightarrow> None
      | Some c \<Rightarrow> if sso_enforced c \<and> sso_override_at c = None then Some c else None)"

definition find_saml_org_for_email :: "db \<Rightarrow> string \<Rightarrow> org_saml_config option" where
  "find_saml_org_for_email s email =
     (case email_domain email of
        None \<Rightarrow> None
      | Some domain \<Rightarrow> query_first (\<lambda>c. saml_status c = ''active'' \<and> domain \<in> set (map str_lower (saml_allowed_domains c))) (saml_configs s))"

definition find_enforced_saml_org_for_email :: "db \<Rightarrow> string \<Rightarrow> org_saml_config option" where
  "find_enforced_saml_org_for_email s email =
     (case find_saml_org_for_email s email of
        None \<Rightarrow> None
      | Some c \<Rightarrow> if saml_enforced c \<and> saml_override_at c = None then Some c else None)"

subsection \<open>The session cookie\<close>

record cookie =
  ck_key :: string
  ck_value :: string
  ck_max_age :: int
  ck_path :: string
  ck_domain :: string
  ck_secure :: bool
  ck_httponly :: bool
  ck_samesite :: string

definition SESSION_COOKIE_NAME :: string where
  "SESSION_COOKIE_NAME = ''omnibioai_session''"

definition SESSION_COOKIE_MAX_AGE :: int where
  "SESSION_COOKIE_MAX_AGE = 7 * 24 * 60 * 60"

definition set_session_cookie :: "string \<Rightarrow> string \<Rightarrow> cookie" where
  "set_session_cookie domain refresh_token = \<lparr>ck_key = SESSION_COOKIE_NAME, ck_value = refresh_token, ck_max_age = SESSION_COOKIE_MAX_AGE,
     ck_path = ''/'', ck_domain = domain, ck_secure = True, ck_httponly = True, ck_samesite = ''lax''\<rparr>"

definition clear_session_cookie :: "string \<Rightarrow> cookie" where
  "clear_session_cookie domain = \<lparr>ck_key = SESSION_COOKIE_NAME, ck_value = '''', ck_max_age = 0,
     ck_path = ''/'', ck_domain = domain, ck_secure = True, ck_httponly = True, ck_samesite = ''lax''\<rparr>"

subsection \<open>Registration\<close>

definition registered_user :: "env \<Rightarrow> time \<Rightarrow> string \<Rightarrow> string \<Rightarrow> db \<Rightarrow> user" where
  "registered_user E now email password s =
     \<lparr>u_id = next_id u_id (users s), u_email = email, u_hashed_password = Some (hash_password E password),
      u_status = ''active'', u_preferred_timezone = None, u_created_at = Some now, u_status_changed_at = None,
      u_status_changed_reason = None, u_status_changed_by_user_id = None, u_last_login_at = None, u_authentication_method = None,
      u_mfa_enabled = False, u_mfa_status = ''disabled'', u_mfa_primary_method = None, u_mfa_enabled_at = None,
      u_mfa_last_verified_at = None\<rparr>"

definition register_route :: "env \<Rightarrow> time \<Rightarrow> string \<Rightarrow> string \<Rightarrow> db \<Rightarrow> db \<times> (exn + unit)" where
  "register_route E now email password s =
     (if query_exists (\<lambda>u. u_email u = email) (users s) then refuse s 400 ''User already exists''
      else case validate_new_password E password (Some email) of
        Some (PasswordPolicyError msg) \<Rightarrow> refuse s 400 msg
      | Some e \<Rightarrow> (s, Inl e)
      | None \<Rightarrow>
          let u = registered_user E now email password s
          in (assign_default_role u (s\<lparr>users := users s @ [u]\<rparr>), Inr ()))"

subsection \<open>Login\<close>

text \<open>The refusal of a password when the organization demands its own sign-on.\<close>

definition sso_refusal :: "db \<Rightarrow> int \<Rightarrow> string \<Rightarrow> exn" where
  "sso_refusal s org kind =
     (case find_org s org of
        None \<Rightarrow> AttributeError
      | Some x \<Rightarrow> HTTPDetail 403 (JObj [(''reason'', JStr ''sso_required''), (''org_slug'', JStr (o_slug x)),
                   (''sso_login_url'', JStr (''/auth/'' @ kind @ ''/'' @ o_slug x @ ''/login''))]))"

definition sso_required :: "db \<Rightarrow> string \<Rightarrow> exn option" where
  "sso_required s email =
     (case find_enforced_org_for_email s email of
        Some c \<Rightarrow> Some (sso_refusal s (sso_organization_id c) ''sso'')
      | None \<Rightarrow> (case find_enforced_saml_org_for_email s email of
          Some c \<Rightarrow> Some (sso_refusal s (saml_organization_id c) ''saml'')
        | None \<Rightarrow> None))"

datatype login_answer =
    Too_many string int
  | Factor_required string "string list"
  | Logged_in string string cookie

definition no_saml :: saml_context where
  "no_saml = \<lparr>sc_name_id = None, sc_session_index = None, sc_config_id = None\<rparr>"

text \<open>What follows the password: tokens, a challenge, or an enrolment token.\<close>

definition finish_login ::
  "env \<Rightarrow> time \<Rightarrow> string \<Rightarrow> string \<Rightarrow> string \<Rightarrow> string \<Rightarrow> string \<Rightarrow> string \<Rightarrow> user \<Rightarrow> string option \<Rightarrow> string option \<Rightarrow> db \<Rightarrow> db \<times> (exn + login_answer)" where
  "finish_login E now ja jr fid code ej domain u client_ip user_agent s =
     (case generate_tokens_or_mfa_challenge E now ja jr fid code u ''password'' None client_ip user_agent no_saml s of
        (s1, Inr (Tokens access refresh)) \<Rightarrow> (s1, Inr (Logged_in access refresh (set_session_cookie domain refresh)))
      | (s1, Inr (Challenge challenge methods)) \<Rightarrow> (s1, Inr (Factor_required challenge methods))
      | (s1, Inl MFAEnrollmentRequiredError) \<Rightarrow>
          let (s2, token) = create_enrollment_token E now ej (u_id u) s1
          in (s2, Inl (HTTPDetail 403 (JObj [(''error'', JStr ''mfa_enrollment_required''),
                 (''message'', JStr ''Your organization requires MFA enrollment''), (''enrollment_token'', JStr token)])))
      | (s1, Inl (EmailMFAResendLimitedError wait)) \<Rightarrow> (s1, Inr (Too_many ''email_otp_rate_limited'' wait))
      | (s1, Inl EmailMFAUnavailableError) \<Rightarrow> refuse s1 503 ''Email verification is temporarily unavailable''
      | (s1, Inl e) \<Rightarrow> (s1, Inl e))"

definition login ::
  "'r redis \<Rightarrow> env \<Rightarrow> time \<Rightarrow> string \<Rightarrow> string \<Rightarrow> string \<Rightarrow> string \<Rightarrow> string \<Rightarrow> string \<Rightarrow> string \<Rightarrow> string \<Rightarrow> string option \<Rightarrow> string option
     \<Rightarrow> 'r sys \<Rightarrow> 'r sys \<times> (exn + login_answer)" where
  "login R E now ja jr fid code ej domain email password client_ip user_agent s =
     (case sso_required (s_db s) email of
        Some e \<Rightarrow> (s, Inl e)
      | None \<Rightarrow>
          let (s1, throttle) = login_check_throttled R E now email client_ip s
          in if th_locked throttle then (s1, Inr (Too_many ''too_many_attempts'' (th_retry_after_seconds throttle)))
             else (case authenticate_user R E now email password client_ip s1 of
                     (s2, Inl e) \<Rightarrow> (s2, Inl e)
                   | (s2, Inr None) \<Rightarrow> (s2, Inl (HTTPException 401 ''Invalid credentials''))
                   | (s2, Inr (Some u)) \<Rightarrow>
                       let (d, answer) = finish_login E now ja jr fid code ej domain u client_ip user_agent (s_db s2)
                       in (s2\<lparr>s_db := d\<rparr>, answer)))"

subsection \<open>Refreshing, switching teams, logging out\<close>

text \<open>\<open>req.refresh_token or request.cookies.get(...)\<close>\<close>

definition presented_token :: "string option \<Rightarrow> string option \<Rightarrow> string option" where
  "presented_token body cookie_value = (if truthy body then body else if truthy cookie_value then cookie_value else None)"

definition refresh_route ::
  "env \<Rightarrow> time \<Rightarrow> string \<Rightarrow> string \<Rightarrow> string \<Rightarrow> string \<Rightarrow> string option \<Rightarrow> string option \<Rightarrow> db \<Rightarrow> db \<times> (exn + string \<times> string \<times> cookie)" where
  "refresh_route E now ja jr fid domain body cookie_value s =
     (case presented_token body cookie_value of
        None \<Rightarrow> refuse s 401 ''Invalid refresh token''
      | Some token \<Rightarrow>
          (case rotate_refresh_token E now ja jr fid token None s of
             (s1, None) \<Rightarrow> refuse s1 401 ''Invalid refresh token''
           | (s1, Some (access, refresh)) \<Rightarrow> (s1, Inr (access, refresh, set_session_cookie domain refresh))))"

text \<open>\<open>int(old_claims.get("sub", 0))\<close>\<close>

definition sub_or_zero :: "claims \<Rightarrow> exn + int" where
  "sub_or_zero c = (if map_of c ''sub'' = None then Inr 0 else int_sub c)"

definition check_team_switch :: "db \<Rightarrow> claims \<Rightarrow> int \<Rightarrow> int option \<Rightarrow> exn option" where
  "check_team_switch s old user_id team_id =
     (case team_id of
        None \<Rightarrow> None
      | Some i \<Rightarrow>
          (case query_first (\<lambda>t. t_id t = i) (teams s) of
             None \<Rightarrow> Some (HTTPException 404 ''Team not found'')
           | Some t \<Rightarrow>
               if JInt (t_organization_id t) \<noteq> get_claim old ''org_id'' then Some (HTTPException 403 ''Team does not belong to your organization'')
               else if get_team_member s i user_id = None then Some (HTTPException 403 ''Not a member of this team'')
               else None))"

definition switch_team ::
  "env \<Rightarrow> time \<Rightarrow> string \<Rightarrow> string \<Rightarrow> string \<Rightarrow> string \<Rightarrow> int option \<Rightarrow> string option \<Rightarrow> string option \<Rightarrow> db \<Rightarrow> db \<times> (exn + string \<times> string \<times> cookie)" where
  "switch_team E now ja jr fid domain team_id body cookie_value s =
     (case presented_token body cookie_value of
        None \<Rightarrow> refuse s 401 ''Invalid refresh token''
      | Some token \<Rightarrow>
          (case decode_token E now token of
             Inl _ \<Rightarrow> refuse s 401 ''Invalid refresh token''
           | Inr old \<Rightarrow>
               or_raise s (sub_or_zero old) (\<lambda>user_id.
               case check_team_switch s old user_id team_id of
                 Some e \<Rightarrow> (s, Inl e)
               | None \<Rightarrow>
                   (case rotate_refresh_token E now ja jr fid token (Some team_id) s of
                      (s1, None) \<Rightarrow> refuse s1 401 ''Invalid refresh token''
                    | (s1, Some (access, refresh)) \<Rightarrow> (s1, Inr (access, refresh, set_session_cookie domain refresh))))))"

definition logout_route ::
  "'r redis \<Rightarrow> env \<Rightarrow> time \<Rightarrow> string \<Rightarrow> string \<Rightarrow> string option \<Rightarrow> 'r \<Rightarrow> db \<Rightarrow> 'r \<times> db \<times> (exn + cookie)" where
  "logout_route R E now domain refresh_token access_token r s =
     (let s1 = revoke_token E now refresh_token s;
          (r1, failed) = (if truthy access_token then blacklist_access_token R E now (the access_token) r else (r, None))
      in (r1, s1, case failed of Some e \<Rightarrow> Inl e | None \<Rightarrow> Inr (clear_session_cookie domain)))"

record token_report =
  tr_user_id :: int
  tr_email :: string
  tr_claims :: claims

text \<open>\<open>/auth/validate\<close>: \<open>None\<close> is \<open>{"valid": False}\<close>; the report carries the claims it is made from.\<close>

definition validate_token :: "'r redis \<Rightarrow> env \<Rightarrow> time \<Rightarrow> string \<Rightarrow> 'r \<Rightarrow> db \<Rightarrow> token_report option" where
  "validate_token R E now token r s =
     (case decode_token E now token of
        Inl _ \<Rightarrow> None
      | Inr payload \<Rightarrow>
          if assert_token_usable R now payload r s \<noteq> None then None
          else map_option (\<lambda>u. \<lparr>tr_user_id = u_id u, tr_email = u_email u, tr_claims = payload\<rparr>) (find_subject s (get_claim payload ''sub'')))"

subsection \<open>Properties\<close>

lemma record_success_db [simp]:
  fixes R :: "'r redis" and s :: "'r sys"
  shows "s_db (login_record_success R E now email ip s) = s_db s"
  by (simp add: login_record_success_def Let_def)

lemma check_throttled_db:
  fixes R :: "'r redis" and s :: "'r sys"
  shows "login_check_throttled R E now email ip s = (s1, th) \<Longrightarrow> s_db s1 = s_db s"
  by (auto simp: login_check_throttled_def Let_def split: if_splits prod.splits)

text \<open>What a successful check of the password has seen and left behind.\<close>

lemma authenticate_Some:
  assumes "authenticate_user R E now email password ip s = (s', Inr (Some u))"
  obtains y h where "find_user_by_email (s_db s) email = Some y" "u_status y = ''active''" "u_hashed_password y = Some h"
    "verify_password E password h = Inr True" "u_id u = u_id y" "u_mfa_enabled u = u_mfa_enabled y" "is_enabled_for E u = is_enabled_for E y"
    "memberships (s_db s') = memberships (s_db s)" "organizations (s_db s') = organizations (s_db s)" "mfa_policies (s_db s') = mfa_policies (s_db s)"
proof -
  obtain y where y: "find_user_by_email (s_db s) email = Some y" "u_status y = ''active''" "truthy (u_hashed_password y)"
    "verify_password E password (the (u_hashed_password y)) = Inr True"
    "u = (if needs_rehash E (the (u_hashed_password y)) then y\<lparr>u_hashed_password := Some (hash_password E password)\<rparr> else y)"
    using password_login_spec [where R = R and E = E and now = now and email = email and pw = password and ip = ip and s = s] assms by (auto split: option.splits)
  then obtain h where "u_hashed_password y = Some h" by (cases "u_hashed_password y") auto
  moreover have "memberships (s_db s') = memberships (s_db s) \<and> organizations (s_db s') = organizations (s_db s) \<and> mfa_policies (s_db s') = mfa_policies (s_db s)"
    using assms y by (auto simp: authenticate_user_def Let_def set_user_def)
  moreover have "is_enabled_for E u = is_enabled_for E y" using y by (simp add: is_enabled_for_def)
  ultimately show ?thesis using y by (intro that [of y h]) auto
qed

lemma login_Inr:
  assumes "login R E now ja jr fid code ej domain email password ip ua s = (s', Inr (Logged_in a t ck))"
  obtains s1 th s2 u where "sso_required (s_db s) email = None" "login_check_throttled R E now email ip s = (s1, th)" "\<not> th_locked th"
    "authenticate_user R E now email password ip s1 = (s2, Inr (Some u))"
    "finish_login E now ja jr fid code ej domain u ip ua (s_db s2) = (s_db s', Inr (Logged_in a t ck))"
proof -
  obtain s1 th where c: "login_check_throttled R E now email ip s = (s1, th)" by force
  have n: "sso_required (s_db s) email = None" using assms by (cases "sso_required (s_db s) email") (simp_all add: login_def)
  have l: "\<not> th_locked th" using assms n c by (auto simp: login_def)
  obtain s2 v where au: "authenticate_user R E now email password ip s1 = (s2, v)" by force
  obtain u where u: "v = Inr (Some u)" using assms n c l au by (cases v; cases "projr v") (auto simp: login_def)
  show ?thesis
    by (rule that [OF n c l au [unfolded u]]) (use assms n c l au u in \<open>auto simp: login_def split: prod.splits\<close>)
qed

lemma finish_login_Inr:
  assumes "finish_login E now ja jr fid code ej domain u ip ua s = (s', Inr (Logged_in a t ck))"
  shows "generate_tokens_or_mfa_challenge E now ja jr fid code u ''password'' None ip ua no_saml s = (s', Inr (Tokens a t))
    \<and> ck = set_session_cookie domain t"
proof -
  obtain d v where g: "generate_tokens_or_mfa_challenge E now ja jr fid code u ''password'' None ip ua no_saml s = (d, v)" by force
  show ?thesis
  proof (cases v)
    case (Inl e)
    then show ?thesis using assms g by (cases e) (auto simp: finish_login_def refuse_def split: prod.splits)
  next
    case (Inr x)
    then show ?thesis using assms g by (cases x) (auto simp: finish_login_def)
  qed
qed

lemma login_completes:
  assumes "sso_required (s_db s) email = None" "login_check_throttled R E now email ip s = (s1, th)" "\<not> th_locked th"
    "authenticate_user R E now email password ip s1 = (s2, Inr (Some u))"
    "\<not> u_mfa_enabled u" "\<not> is_enabled_for E u" "mfa_policies (s_db s2) = []"
  shows "\<exists>s' a t ck. login R E now ja jr fid code ej domain email password ip ua s = (s', Inr (Logged_in a t ck))"
  using assms by (simp add: login_def finish_login_def generate_tokens_or_mfa_challenge_def org_requires_mfa_def Let_def split_beta
      split: option.split)

text \<open>
  The question whether sign-on is enforced is put to one configuration of each kind only: the
  first active one that lists the address's domain. Nothing keeps two organizations from
  listing one domain, so a configuration that is not enforced hides an enforced one behind it.
\<close>

lemma enforcement_asks_first:
  "find_enforced_org_for_email s email = None \<longleftrightarrow>
     (\<forall>c. find_org_for_email s email = Some c \<longrightarrow> \<not> sso_enforced c \<or> sso_override_at c \<noteq> None)"
  "find_enforced_saml_org_for_email s email = None \<longleftrightarrow>
     (\<forall>c. find_saml_org_for_email s email = Some c \<longrightarrow> \<not> saml_enforced c \<or> saml_override_at c \<noteq> None)"
  by (auto simp: find_enforced_org_for_email_def find_enforced_saml_org_for_email_def split: option.split)

lemma enforcement_shadowed:
  assumes "sso_configs s = c # rest" "sso_status c = ''active''" "email_domain email = Some d" "d \<in> set (map str_lower (sso_allowed_domains c))"
    "\<not> sso_enforced c" "\<exists>c' \<in> set rest. sso_status c' = ''active'' \<and> d \<in> set (map str_lower (sso_allowed_domains c')) \<and> sso_enforced c' \<and> sso_override_at c' = None"
  shows "find_enforced_org_for_email s email = None"
  using assms by (simp add: find_enforced_org_for_email_def find_org_for_email_def query_first_def)

text \<open>
  C4. What a password login had to pass. If a login hands out tokens, then of the sign-on
  configurations that are active and claim the address's domain, the first OIDC one and the
  first SAML one are not enforced or under a break-glass override (the others are not asked);
  the address was not locked out; there is an active account of the address whose password was
  given; the account has no authenticator, the e-mail factor is not demanded of it, and the
  organization of its primary membership demands no second factor; the tokens were made for
  this account and this method; and the refresh token is the cookie's, which scripts cannot
  read and which is sent over TLS only.
\<close>

theorem password_login_gates:
  assumes "login R E now ja jr fid code ej domain email password ip ua s = (s', Inr (Logged_in a t ck))"
  shows "(\<forall>c. find_org_for_email (s_db s) email = Some c \<longrightarrow> \<not> sso_enforced c \<or> sso_override_at c \<noteq> None)
    \<and> (\<forall>c. find_saml_org_for_email (s_db s) email = Some c \<longrightarrow> \<not> saml_enforced c \<or> saml_override_at c \<noteq> None)
    \<and> find_enforced_org_for_email (s_db s) email = None \<and> find_enforced_saml_org_for_email (s_db s) email = None
    \<and> \<not> th_locked (snd (login_check_throttled R E now email ip s))
    \<and> (\<exists>u h v d. find_user_by_email (s_db s) email = Some u \<and> u_status u = ''active'' \<and> u_hashed_password u = Some h
         \<and> verify_password E password h = Inr True \<and> \<not> u_mfa_enabled u \<and> \<not> is_enabled_for E u
         \<and> \<not> org_requires_mfa (s_db s) (map_option m_organization_id (resolve_primary_membership (s_db s) (u_id u)))
         \<and> u_id v = u_id u \<and> generate_tokens E now ja jr fid v ''password'' JNull ip ua no_saml d = (s_db s', a, t))
    \<and> ck_value ck = t \<and> ck_secure ck \<and> ck_httponly ck"
proof -
  obtain s1 th s2 u where l: "sso_required (s_db s) email = None" "login_check_throttled R E now email ip s = (s1, th)" "\<not> th_locked th"
    "authenticate_user R E now email password ip s1 = (s2, Inr (Some u))"
    "finish_login E now ja jr fid code ej domain u ip ua (s_db s2) = (s_db s', Inr (Logged_in a t ck))"
    by (rule login_Inr [OF assms])
  have db1: "s_db s1 = s_db s" by (rule check_throttled_db [OF l(2)])
  obtain y h where y: "find_user_by_email (s_db s) email = Some y" "u_status y = ''active''" "u_hashed_password y = Some h"
    "verify_password E password h = Inr True" "u_id u = u_id y" "u_mfa_enabled u = u_mfa_enabled y" "is_enabled_for E u = is_enabled_for E y"
    and fr: "memberships (s_db s2) = memberships (s_db s)" "organizations (s_db s2) = organizations (s_db s)" "mfa_policies (s_db s2) = mfa_policies (s_db s)"
    by (rule authenticate_Some [OF l(4), unfolded db1])
  have g: "generate_tokens_or_mfa_challenge E now ja jr fid code u ''password'' None ip ua no_saml (s_db s2) = (s_db s', Inr (Tokens a t))"
    and ck: "ck = set_session_cookie domain t" using finish_login_Inr [OF l(5)] by simp_all
  have "\<not> u_mfa_enabled u \<and> \<not> is_enabled_for E u \<and> \<not> org_requires_mfa (s_db s2) (map_option m_organization_id (resolve_primary_membership (s_db s2) (u_id u)))"
    using g by (auto simp: generate_tokens_or_mfa_challenge_def Let_def split: if_splits sum.splits prod.splits)
  moreover from this have "generate_tokens E now ja jr fid u ''password'' JNull ip ua no_saml (s_db s2) = (s_db s', a, t)"
    using g by (auto simp: generate_tokens_or_mfa_challenge_def Let_def jint_opt_def split: prod.splits)
  moreover have "resolve_primary_membership (s_db s2) i = resolve_primary_membership (s_db s) i" for i
    using fr by (simp add: resolve_primary_membership_def find_org_def)
  moreover have "org_requires_mfa (s_db s2) v = org_requires_mfa (s_db s) v" for v
    using fr by (simp add: org_requires_mfa_def split: option.split)
  ultimately have "\<exists>u h v d. find_user_by_email (s_db s) email = Some u \<and> u_status u = ''active'' \<and> u_hashed_password u = Some h
         \<and> verify_password E password h = Inr True \<and> \<not> u_mfa_enabled u \<and> \<not> is_enabled_for E u
         \<and> \<not> org_requires_mfa (s_db s) (map_option m_organization_id (resolve_primary_membership (s_db s) (u_id u)))
         \<and> u_id v = u_id u \<and> generate_tokens E now ja jr fid v ''password'' JNull ip ua no_saml d = (s_db s', a, t)"
    using y by (intro exI [of _ y] exI [of _ h] exI [of _ u] exI [of _ "s_db s2"]) simp
  moreover have en: "find_enforced_org_for_email (s_db s) email = None" "find_enforced_saml_org_for_email (s_db s) email = None"
    using l(1) by (auto simp: sso_required_def split: option.splits)
  ultimately show ?thesis
    using l(2,3) ck en [unfolded enforcement_asks_first] by (simp add: set_session_cookie_def enforcement_asks_first)
qed

text \<open>
  Property. A refused address learns nothing about its password. When an organization's enforced
  sign-on claims the address, or the address is locked out, the answer to a login and every
  table are the same for every password.
\<close>

theorem password_not_consulted:
  assumes "sso_required (s_db s) email \<noteq> None \<or> th_locked (snd (login_check_throttled R E now email ip s))"
  shows "login R E now ja jr fid code ej domain email pw ip ua s = login R E now ja jr fid code ej domain email pw' ip ua s
    \<and> s_db (fst (login R E now ja jr fid code ej domain email pw ip ua s)) = s_db s
    \<and> (\<forall>a t ck. snd (login R E now ja jr fid code ej domain email pw ip ua s) \<noteq> Inr (Logged_in a t ck))"
proof (cases "sso_required (s_db s) email")
  case None
  obtain s1 th where c: "login_check_throttled R E now email ip s = (s1, th)" by force
  then show ?thesis using None assms check_throttled_db [OF c] by (simp add: login_def)
qed (simp add: login_def)

abbreviation login_sys :: "db \<Rightarrow> kv sys" where
  "login_sys d \<equiv> kv_sys\<lparr>s_db := d\<rparr>"

theorem password_login_gates_witness:
  "\<exists>s' a t ck. login kv_redis demo_env 0 ''a'' ''r'' ''f'' ''0'' ''e'' ''d'' ''ada'' ''pw'' None None (login_sys demo_db) = (s', Inr (Logged_in a t ck))
     \<and> ck_value ck = t \<and> ck_httponly ck \<and> find_enforced_org_for_email demo_db ''ada'' = None"
proof -
  let ?login = "login kv_redis demo_env 0 ''a'' ''r'' ''f'' ''0'' ''e'' ''d'' ''ada'' ''pw'' None None (login_sys demo_db)"
  have demo_policies: "mfa_policies demo_db = []" by (simp add: demo_db_def empty_db_def)
  obtain s1 th where c: "login_check_throttled kv_redis demo_env 0 ''ada'' None (login_sys demo_db) = (s1, th)" by force
  then have l: "\<not> th_locked th"
    by (auto simp: login_check_throttled_def Let_def demo_env_def sample_env_def default_settings_def default_rate_limit_def kv_sys_def
        is_locked_def kv_redis_def kv_entry_def live_entry_def ip_or_empty_def split: prod.splits)
  have db: "s_db s1 = demo_db" using check_throttled_db [OF c] by simp
  have n: "sso_required demo_db ''ada'' = None"
    by (simp add: sso_required_def find_enforced_org_for_email_def find_org_for_email_def find_enforced_saml_org_for_email_def
        find_saml_org_for_email_def email_domain_def)
  obtain s2 where au: "authenticate_user kv_redis demo_env 0 ''ada'' ''pw'' None s1 = (s2, Inr (Some (sample_user 1 ''ada'')))"
    by (simp add: authenticate_user_def db find_user_by_email_def demo_db_def sample_user_def verify_password_def needs_rehash_def Let_def
        demo_env_def sample_env_def)
  from authenticate_Some [OF au] have fr: "mfa_policies (s_db s2) = []" using db by (metis demo_policies)
  have en: "is_enabled_for demo_env (sample_user 1 ''ada'') = False" and "u_mfa_enabled (sample_user 1 ''ada'') = False"
    by (simp_all add: is_enabled_for_def demo_env_def sample_env_def default_settings_def sample_user_def)
  have "\<exists>s' a t ck. ?login = (s', Inr (Logged_in a t ck))"
    by (rule login_completes [OF _ c l au]) (simp_all add: n en fr, simp_all add: sample_user_def)
  then obtain s' a t ck where "?login = (s', Inr (Logged_in a t ck))" by blast
  then show ?thesis using password_login_gates [of kv_redis demo_env 0 "''a''" "''r''" "''f''" "''0''" "''e''" "''d''" "''ada''" "''pw''" None None "login_sys demo_db" s' a t ck]
    by auto
qed

definition enforcing_db :: db where
  "enforcing_db = guard_db\<lparr>sso_configs := [\<lparr>sso_id = 1, sso_organization_id = 7, sso_provider_type = ''oidc'', sso_issuer = ''https://idp'',
     sso_client_id = ''c'', sso_client_secret_encrypted = ''x'', sso_authorization_endpoint = None, sso_token_endpoint = None,
     sso_userinfo_endpoint = None, sso_jwks_uri = None, sso_allowed_domains = [''lab.org''], sso_enforced = True, sso_status = ''active'',
     sso_created_at = 0, sso_updated_at = None, sso_updated_by_user_id = None, sso_last_verified_at = None, sso_override_at = None,
     sso_override_reason = None, sso_override_by_user_id = None\<rparr>]\<rparr>"

theorem password_not_consulted_witness:
  "snd (login kv_redis demo_env 0 ''a'' ''r'' ''f'' ''0'' ''e'' ''d'' ''ada@lab.org'' ''pw'' None None (login_sys enforcing_db))
     = snd (login kv_redis demo_env 0 ''a'' ''r'' ''f'' ''0'' ''e'' ''d'' ''ada@lab.org'' ''guess'' None None (login_sys enforcing_db))"
proof -
  have "sso_required (s_db (login_sys enforcing_db)) ''ada@lab.org'' \<noteq> None"
    by (simp add: sso_required_def find_enforced_org_for_email_def find_org_for_email_def email_domain_def enforcing_db_def guard_db_def empty_db_def str_strip_def
        rstrip_by_def is_space_def str_lower_def lower_char_def)
  from password_not_consulted [OF disjI1 [OF this]] show ?thesis by metis
qed

end
