(* ===== verification/Federation.thy ===== *)
theory Federation
  imports Licenses Auth_Routes
begin

text \<open>
  Sign-in through the public identity providers: \<open>app/core/oauth_providers.py\<close> and
  \<open>app/services/oauth_service.py\<close>. What travels over the network and what \<open>jose\<close> and \<open>httpx\<close> do
  with it is the record \<open>remote\<close>; the code that asks, checks the answers and decides what a
  provider has vouched for is modelled, as are the linked identities.

  The theory shows that an address is only taken from a provider that vouches for it, and that the
  query of the authorization request reaches the provider as it was written.
\<close>

subsection \<open>The network\<close>

text \<open>
  An answer over HTTP: the status, the text, and the JSON value of the body if it is one; or the
  text of the \<open>httpx.HTTPError\<close> that was raised instead. \<open>http_post\<close> sends a form, \<open>http_get\<close> a
  request with or without a bearer token, neither follows redirects. \<open>unverified_header\<close> and
  \<open>unverified_claims\<close> are the functions of \<open>jose.jwt\<close> of these names, \<open>verify_id_token\<close> is
  \<open>jwt.decode(token, key, algorithms=[alg], audience=..., issuer=...)\<close>; nothing is an exception.
\<close>

datatype http_answer = Unreachable string | Answered int string "json option"

record remote =
  http_post :: "string \<Rightarrow> (string \<times> string) list \<Rightarrow> http_answer"
  http_get :: "string \<Rightarrow> string option \<Rightarrow> http_answer"
  unverified_header :: "string \<Rightarrow> claims option"
  unverified_claims :: "string \<Rightarrow> claims option"
  verify_id_token :: "time \<Rightarrow> string \<Rightarrow> json \<Rightarrow> string \<Rightarrow> string \<Rightarrow> string \<Rightarrow> claims option"

text \<open>Two steps that may raise, and \<open>response.json()\<close>.\<close>

definition proceed :: "exn + 'a \<Rightarrow> ('a \<Rightarrow> exn + 'b) \<Rightarrow> exn + 'b" where
  "proceed x f = (case x of Inl e \<Rightarrow> Inl e | Inr a \<Rightarrow> f a)"

lemma proceed_simps [simp]: "proceed (Inl e) f = Inl e" "proceed (Inr a) f = f a"
  by (simp_all add: proceed_def)

lemma proceed_Inr: "proceed x f = Inr b \<longleftrightarrow> (\<exists>a. x = Inr a \<and> f a = Inr b)"
  by (cases x) auto

definition json_body :: "json option \<Rightarrow> exn + json" where
  "json_body body = (case body of None \<Rightarrow> Inl (ValueError ''JSONDecodeError'' []) | Some v \<Rightarrow> Inr v)"

text \<open>\<open>v.get(key)\<close> and \<open>v[key]\<close> on a parsed JSON value.\<close>

definition json_get :: "json \<Rightarrow> string \<Rightarrow> exn + json" where
  "json_get v key = (case v of JObj kvs \<Rightarrow> Inr (get_claim kvs key) | _ \<Rightarrow> Inl AttributeError)"

definition json_item :: "json \<Rightarrow> string \<Rightarrow> exn + json" where
  "json_item v key =
     (case v of JObj kvs \<Rightarrow> (case map_of kvs key of None \<Rightarrow> Inl (KeyError key) | Some x \<Rightarrow> Inr x) | _ \<Rightarrow> Inl TypeError)"

subsection \<open>Python's str and repr of a JSON value\<close>

text \<open>A character of a string literal: backslash, quote, line ends and tab, other unprintable ones.\<close>

definition repr_char :: "char \<Rightarrow> char \<Rightarrow> string" where
  "repr_char q c =
     (let n = of_char c :: nat; bs = char_of (92 :: nat)
      in if c = q \<or> n = 92 then [bs, c]
         else if n = 10 then [bs, CHR ''n''] else if n = 13 then [bs, CHR ''r''] else if n = 9 then [bs, CHR ''t'']
         else if 32 \<le> n \<and> n < 127 \<or> 161 \<le> n \<and> n \<noteq> 173 then [c]
         else [bs, CHR ''x'', Canonical_Json.hex_digit (n div 16), Canonical_Json.hex_digit (n mod 16)])"

definition py_repr_str :: "string \<Rightarrow> string" where
  "py_repr_str s =
     (let q = (if char_of (39 :: nat) \<in> set s \<and> CHR 0x22 \<notin> set s then CHR 0x22 else char_of (39 :: nat))
      in q # concat (map (repr_char q) s) @ [q])"

fun py_repr :: "json \<Rightarrow> string" where
  "py_repr JNull = ''None''"
| "py_repr (JBool b) = (if b then ''True'' else ''False'')"
| "py_repr (JInt i) = show_int i"
| "py_repr (JStr s) = py_repr_str s"
| "py_repr (JList vs) = ''['' @ str_join '', '' (map py_repr vs) @ '']''"
| "py_repr (JObj kvs) = ''{'' @ str_join '', '' (map (\<lambda>(k, v). py_repr_str k @ '': '' @ py_repr v) kvs) @ ''}''"

definition py_str :: "json \<Rightarrow> string" where
  "py_str v = (case v of JStr s \<Rightarrow> s | _ \<Rightarrow> py_repr v)"

subsection \<open>The query string of a redirect\<close>

text \<open>\<open>urllib.parse.urlencode\<close>\<close>

definition urlencode :: "(string \<times> string) list \<Rightarrow> string" where
  "urlencode ps = str_join ''&'' (map (\<lambda>(k, v). quote_plus k @ ''='' @ quote_plus v) ps)"

subsection \<open>The providers\<close>

record oauth_provider =
  op_client_id :: string
  op_client_secret :: string
  op_authorize_url :: string
  op_token_url :: string
  op_userinfo_url :: string
  op_scope :: string

definition PROVIDERS :: "env \<Rightarrow> string \<Rightarrow> oauth_provider option" where
  "PROVIDERS E provider =
     (let entry = (\<lambda>authorize token userinfo scope. Some \<lparr>op_client_id = OAUTH_CLIENT_ID (cfg E) provider,
            op_client_secret = OAUTH_CLIENT_SECRET (cfg E) provider, op_authorize_url = authorize, op_token_url = token,
            op_userinfo_url = userinfo, op_scope = scope\<rparr>)
      in if provider = ''google''
         then entry ''https://accounts.google.com/o/oauth2/v2/auth'' ''https://oauth2.googleapis.com/token''
                ''https://openidconnect.googleapis.com/v1/userinfo'' ''openid email profile''
         else if provider = ''github''
         then entry ''https://github.com/login/oauth/authorize'' ''https://github.com/login/oauth/access_token''
                ''https://api.github.com/user'' ''read:user user:email''
         else if provider = ''microsoft''
         then entry ''https://login.microsoftonline.com/common/oauth2/v2.0/authorize'' ''https://login.microsoftonline.com/common/oauth2/v2.0/token''
                ''https://graph.microsoft.com/oidc/userinfo'' ''openid email profile''
         else None)"

definition redirect_uri_for :: "env \<Rightarrow> string \<Rightarrow> string" where
  "redirect_uri_for E provider = OAUTH_REDIRECT_BASE_URL (cfg E) @ ''/auth/'' @ provider @ ''/callback''"

definition is_configured :: "env \<Rightarrow> string \<Rightarrow> bool" where
  "is_configured E provider =
     (case PROVIDERS E provider of None \<Rightarrow> False | Some p \<Rightarrow> op_client_id p \<noteq> [] \<and> op_client_secret p \<noteq> [])"

definition MICROSOFT_CONSUMER_TENANT_ID :: string where
  "MICROSOFT_CONSUMER_TENANT_ID = ''9188040d-6c67-4c5b-b112-36a304b66dad''"

definition claim_true :: "json \<Rightarrow> bool" where
  "claim_true v \<longleftrightarrow> v \<in> {JBool True, JStr ''true'', JStr ''True'', JStr ''1'', JInt 1}"

text \<open>\<open>next((e for e in emails if ...), None)\<close>: an element that is no object has no \<open>get\<close>.\<close>

fun first_email :: "bool \<Rightarrow> json list \<Rightarrow> exn + json option" where
  "first_email primary [] = Inr None"
| "first_email primary (e # es) =
     (case e of
        JObj kvs \<Rightarrow> if (primary \<longrightarrow> jtruthy (get_claim kvs ''primary'')) \<and> jtruthy (get_claim kvs ''verified'') then Inr (Some e)
                    else first_email primary es
      | _ \<Rightarrow> Inl AttributeError)"

text \<open>
  The address among GitHub's list of addresses: the first verified primary one, otherwise the first
  verified one.
\<close>

definition github_email :: "json \<Rightarrow> exn + json" where
  "github_email emails =
     (case emails of
        JList es \<Rightarrow> proceed (first_email True es) (\<lambda>p.
          proceed (case p of None \<Rightarrow> first_email False es | Some _ \<Rightarrow> Inr p) (\<lambda>q.
          (case q of None \<Rightarrow> Inr JNull | Some e \<Rightarrow> json_item e ''email'')))
      | JObj _ \<Rightarrow> Inl AttributeError
      | JStr _ \<Rightarrow> Inl AttributeError
      | _ \<Rightarrow> Inl TypeError)"

text \<open>
  \<open>parse_userinfo\<close>: the provider's identifier of the account and the address; \<open>UnverifiedEmailError\<close>
  is raised as the exception \<open>OAuthUnverifiedEmail\<close> that its only caller turns it into.
\<close>

definition parse_userinfo :: "string \<Rightarrow> json \<Rightarrow> json option \<Rightarrow> claims option \<Rightarrow> exn + string \<times> json" where
  "parse_userinfo provider userinfo emails id_claims =
     (if provider = ''google''
      then proceed (json_get userinfo ''email_verified'') (\<lambda>verified.
           proceed (json_get userinfo ''email'') (\<lambda>email.
           if \<not> claim_true verified then Inl (OAuthUnverifiedEmail provider (json_str email))
           else proceed (json_item userinfo ''sub'') (\<lambda>sub. Inr (py_str sub, email))))
      else if provider = ''github''
      then proceed (json_item userinfo ''id'') (\<lambda>i.
           proceed (json_get userinfo ''email'') (\<lambda>email.
           case emails of
             Some es \<Rightarrow> if \<not> jtruthy email \<and> jtruthy es then proceed (github_email es) (\<lambda>e. Inr (py_str i, e)) else Inr (py_str i, email)
           | None \<Rightarrow> Inr (py_str i, email)))
      else if provider = ''microsoft''
      then proceed (json_get userinfo ''email'') (\<lambda>email.
           let claims = (case id_claims of None \<Rightarrow> [] | Some c \<Rightarrow> c);
               verified = (get_claim claims ''tid'' = JStr MICROSOFT_CONSUMER_TENANT_ID \<or> claim_true (get_claim claims ''xms_edov''))
           in if \<not> jtruthy email \<or> \<not> verified then Inl (OAuthUnverifiedEmail provider (json_str email))
              else proceed (json_item userinfo ''sub'') (\<lambda>sub. Inr (py_str sub, email)))
      else Inl (ValueError ''Unknown provider: {}'' [provider]))"

subsection \<open>The authorization request and the exchange of the code\<close>

definition build_authorize_url :: "env \<Rightarrow> time \<Rightarrow> string \<Rightarrow> string \<Rightarrow> string \<Rightarrow> exn + string" where
  "build_authorize_url E now jti verifier provider =
     (case PROVIDERS E provider of
        None \<Rightarrow> Inl (KeyError provider)
      | Some p \<Rightarrow> Inr (op_authorize_url p @ ''?'' @ urlencode
          [(''client_id'', op_client_id p), (''redirect_uri'', redirect_uri_for E provider), (''response_type'', ''code''),
           (''scope'', op_scope p), (''state'', create_oauth_state_token E now jti provider (Some verifier)),
           (''code_challenge'', s256_challenge E verifier), (''code_challenge_method'', ''S256'')]))"

text \<open>The addresses GitHub keeps apart when the account's own is private.\<close>

definition github_addresses :: "remote \<Rightarrow> string \<Rightarrow> json \<Rightarrow> string \<Rightarrow> exn + json option" where
  "github_addresses N provider userinfo bearer =
     (if provider \<noteq> ''github'' then Inr None
      else proceed (json_get userinfo ''email'') (\<lambda>email.
        if jtruthy email then Inr None
        else case http_get N ''https://api.github.com/user/emails'' (Some bearer) of
               Unreachable text \<Rightarrow> Inl (TransportError text)
             | Answered status _ body \<Rightarrow> if status = 200 then proceed (json_body body) (\<lambda>v. Inr (Some v)) else Inr None))"

text \<open>The payload of Microsoft's token, read without a check of its signature.\<close>

definition microsoft_claims :: "remote \<Rightarrow> string \<Rightarrow> json \<Rightarrow> claims option" where
  "microsoft_claims N provider token_data =
     (if provider \<noteq> ''microsoft'' then None
      else case json_get token_data ''id_token'' of
             Inr (JStr t) \<Rightarrow> if t = [] then None else unverified_claims N t
           | _ \<Rightarrow> None)"

text \<open>An address that the provider does not send as text has no \<open>lower\<close>.\<close>

definition exchange_code_for_userinfo :: "remote \<Rightarrow> env \<Rightarrow> string \<Rightarrow> string \<Rightarrow> string option \<Rightarrow> exn + string \<times> string" where
  "exchange_code_for_userinfo N E provider code verifier =
     (case PROVIDERS E provider of
        None \<Rightarrow> Inl (KeyError provider)
      | Some p \<Rightarrow>
          (case http_post N (op_token_url p) ([(''client_id'', op_client_id p), (''client_secret'', op_client_secret p), (''code'', code),
                  (''redirect_uri'', redirect_uri_for E provider), (''grant_type'', ''authorization_code'')]
                  @ (if truthy verifier then [(''code_verifier'', the verifier)] else [])) of
             Unreachable text \<Rightarrow> Inl (TransportError text)
           | Answered status text body \<Rightarrow>
               if status \<noteq> 200 then Inl (OAuthError (provider @ '' token exchange failed: '' @ text))
               else proceed (json_body body) (\<lambda>token_data.
                    proceed (json_get token_data ''access_token'') (\<lambda>access.
                    if \<not> jtruthy access then Inl (OAuthError (provider @ '' token response missing access_token''))
                    else case http_get N (op_userinfo_url p) (Some (py_str access)) of
                           Unreachable text \<Rightarrow> Inl (TransportError text)
                         | Answered status text body \<Rightarrow>
                             if status \<noteq> 200 then Inl (OAuthError (provider @ '' userinfo fetch failed: '' @ text))
                             else proceed (json_body body) (\<lambda>userinfo.
                                  proceed (github_addresses N provider userinfo (py_str access)) (\<lambda>emails.
                                  proceed (parse_userinfo provider userinfo emails (microsoft_claims N provider token_data)) (\<lambda>(puid, email).
                                  if \<not> jtruthy email then Inl (OAuthError (provider @ '' did not return an email address for this account''))
                                  else case json_str email of None \<Rightarrow> Inl AttributeError | Some e \<Rightarrow> Inr (puid, e))))))))"

subsection \<open>Linked identities\<close>

definition find_linked_user :: "db \<Rightarrow> string \<Rightarrow> string \<Rightarrow> int option \<Rightarrow> int option \<Rightarrow> user option" where
  "find_linked_user s provider puid sso saml =
     (case query_first (\<lambda>a. oa_provider a = provider \<and> oa_provider_user_id a = puid
             \<and> (sso \<noteq> None \<longrightarrow> oa_organization_sso_config_id a = sso) \<and> (saml \<noteq> None \<longrightarrow> oa_organization_saml_config_id a = saml)) (oauth_accounts s) of
        None \<Rightarrow> None
      | Some a \<Rightarrow> find_user s (oa_user_id a))"

text \<open>\<open>find_user_by_email\<close> of this service, which ignores the case of the address.\<close>

definition find_user_by_address :: "db \<Rightarrow> string \<Rightarrow> user option" where
  "find_user_by_address s email = query_first (\<lambda>u. str_lower (u_email u) = str_lower email) (users s)"

definition assert_single_idp_scope :: "int option \<Rightarrow> int option \<Rightarrow> exn option" where
  "assert_single_idp_scope sso saml =
     (if sso \<noteq> None \<and> saml \<noteq> None
      then Some (ValueError ''organization_sso_config_id and organization_saml_config_id are mutually exclusive'' []) else None)"

text \<open>
  The row and its two unique constraints; a missing configuration is equal to no other, so neither
  constraint compares rows that lack its column.
\<close>

definition add_oauth_account :: "time \<Rightarrow> int \<Rightarrow> string \<Rightarrow> string \<Rightarrow> string \<Rightarrow> int option \<Rightarrow> int option \<Rightarrow> db \<Rightarrow> exn + db" where
  "add_oauth_account now uid provider puid email sso saml s =
     (if query_exists (\<lambda>a. oa_provider a = provider \<and> oa_provider_user_id a = puid
           \<and> (sso \<noteq> None \<and> oa_organization_sso_config_id a = sso \<or> saml \<noteq> None \<and> oa_organization_saml_config_id a = saml)) (oauth_accounts s)
      then Inl (IntegrityError ''uq_oauth_provider_account'')
      else Inr (s\<lparr>oauth_accounts := oauth_accounts s @
             [\<lparr>oa_id = next_id oa_id (oauth_accounts s), oa_user_id = uid, oa_provider = provider, oa_provider_user_id = puid, oa_email = Some email,
               oa_created_at = now, oa_organization_sso_config_id = sso, oa_organization_saml_config_id = saml\<rparr>]\<rparr>))"

definition link_oauth_to_existing_user :: "time \<Rightarrow> user \<Rightarrow> string \<Rightarrow> string \<Rightarrow> string \<Rightarrow> int option \<Rightarrow> int option \<Rightarrow> db \<Rightarrow> exn + db" where
  "link_oauth_to_existing_user now u provider puid email sso saml s =
     (case assert_single_idp_scope sso saml of
        Some e \<Rightarrow> Inl e
      | None \<Rightarrow> add_oauth_account now (u_id u) provider puid email sso saml s)"

definition create_user_with_oauth :: "time \<Rightarrow> string \<Rightarrow> string \<Rightarrow> string \<Rightarrow> int option \<Rightarrow> int option \<Rightarrow> db \<Rightarrow> exn + db \<times> user" where
  "create_user_with_oauth now provider puid email sso saml s =
     (case assert_single_idp_scope sso saml of
        Some e \<Rightarrow> Inl e
      | None \<Rightarrow>
          let u = licensed_user now email s
          in proceed (add_oauth_account now (u_id u) provider puid email sso saml (assign_default_role u (s\<lparr>users := users s @ [u]\<rparr>)))
               (\<lambda>s1. Inr (s1, u)))"

definition issue_link_confirmation ::
  "env \<Rightarrow> time \<Rightarrow> string \<Rightarrow> user \<Rightarrow> string \<Rightarrow> string \<Rightarrow> string \<Rightarrow> int option \<Rightarrow> int option \<Rightarrow> int option \<Rightarrow> exn + string" where
  "issue_link_confirmation E now jti u provider puid email sso saml idp_org =
     (case assert_single_idp_scope sso saml of
        Some e \<Rightarrow> Inl e
      | None \<Rightarrow> Inr (create_link_token E now jti (u_id u) provider puid email sso saml idp_org))"

subsection \<open>Properties\<close>

text \<open>The reading of a query string that the provider's side does, \<open>urllib.parse.parse_qsl\<close>.\<close>

definition unhex :: "char \<Rightarrow> nat" where
  "unhex c = (let n = of_char c :: nat in if n \<le> 57 then n - 48 else n - 55)"

fun unquote_plus :: "string \<Rightarrow> string" where
  "unquote_plus [] = []"
| "unquote_plus (c # cs) =
     (if c = CHR ''%''
      then (case cs of
              h # l # ds \<Rightarrow>
                let n = 16 * unhex h + unhex l
                in if n < 128 then char_of n # unquote_plus ds
                   else (case ds of _ # h' # l' # es \<Rightarrow> char_of (64 * (n - 192) + (16 * unhex h' + unhex l' - 128)) # unquote_plus es | _ \<Rightarrow> [])
            | _ \<Rightarrow> [])
      else (if c = CHR ''+'' then CHR '' '' else c) # unquote_plus cs)"

fun split_at :: "char \<Rightarrow> string \<Rightarrow> string list" where
  "split_at sep [] = [[]]"
| "split_at sep (c # cs) = (if c = sep then [] # split_at sep cs else (case split_at sep cs of w # ws \<Rightarrow> (c # w) # ws | [] \<Rightarrow> [[c]]))"

definition parse_pair :: "string \<Rightarrow> string \<times> string" where
  "parse_pair w = (unquote_plus (takeWhile (\<lambda>c. c \<noteq> CHR ''='') w), unquote_plus (drop 1 (dropWhile (\<lambda>c. c \<noteq> CHR ''='') w)))"

definition parse_qsl :: "string \<Rightarrow> (string \<times> string) list" where
  "parse_qsl q = map parse_pair (split_at (CHR ''&'') q)"

lemma unhex_hex_digit [simp]: "n < 16 \<Longrightarrow> unhex (Totp.hex_digit n) = n"
  by (simp add: unhex_def Totp.hex_digit_def)

lemma hex_digit_no_sep: "n < 16 \<Longrightarrow> Totp.hex_digit n \<notin> {CHR ''&'', CHR ''=''}"
proof -
  assume "n < 16"
  then have "n \<in> set [0..<16]" by simp
  then show ?thesis by (simp add: Totp.hex_digit_def upt_rec) (elim disjE; simp add: char_of_def)
qed

text \<open>What one character, and one byte of it, becomes.\<close>

definition quoted_byte :: "nat \<Rightarrow> string" where
  "quoted_byte n = (if n = 32 then ''+'' else quote_byte {} n)"

lemma quote_plus_quoted: "quote_plus s = concat (map quoted_byte (concat (map utf8_char s)))"
  by (simp add: quote_plus_def quoted_byte_def [abs_def])

lemma char_of_is: "char_of n = c \<longleftrightarrow> n mod 256 = (of_char c :: nat)"
  by (metis of_char_of of_char_eq_iff)

lemma utf8_char_bytes: "n \<in> set (utf8_char c) \<Longrightarrow> n < 256"
proof -
  have n: "of_char c < (256 :: nat)" by (rule nat_of_char_less_256)
  then have "of_char c div 64 < (4 :: nat)" by (simp only: div_less_iff_less_mult)
  moreover assume "n \<in> set (utf8_char c)"
  ultimately show ?thesis using n by (auto simp: utf8_char_def Let_def split: if_splits)
qed

lemma quoted_byte_no_sep: "n < 256 \<Longrightarrow> set (quoted_byte n) \<inter> {CHR ''&'', CHR ''=''} = {}"
proof -
  assume n: "n < 256"
  have h: "Totp.hex_digit (n div 16) \<notin> {CHR ''&'', CHR ''=''}" "Totp.hex_digit (n mod 16) \<notin> {CHR ''&'', CHR ''=''}"
    using n by (intro hex_digit_no_sep; simp; linarith)+
  consider "n = 32" | "n \<noteq> 32" "always_safe n" | "n \<noteq> 32" "\<not> always_safe n" by blast
  then show ?thesis
  proof cases
    case 2
    then have "char_of n \<noteq> CHR ''&''" "char_of n \<noteq> CHR ''=''" using n by (auto simp: char_of_is always_safe_def)
    then show ?thesis using 2 by (simp add: quoted_byte_def quote_byte_def)
  qed (use h in \<open>simp_all add: quoted_byte_def quote_byte_def\<close>)
qed

lemma quote_plus_no_sep: "set (quote_plus s) \<inter> {CHR ''&'', CHR ''=''} = {}"
  using quoted_byte_no_sep utf8_char_bytes unfolding quote_plus_quoted by fastforce

lemma unquote_low: "n < 128 \<Longrightarrow> unquote_plus (quoted_byte n @ cs) = char_of n # unquote_plus cs"
proof -
  assume n: "n < 128"
  consider "n = 32" | "n \<noteq> 32" "always_safe n" | "n \<noteq> 32" "\<not> always_safe n" by blast
  then show ?thesis
  proof cases
    case 1
    have "CHR '' '' = char_of (32 :: nat)" by (simp add: char_of_is eq_commute [of _ "char_of _"])
    then show ?thesis using 1 by (simp add: quoted_byte_def)
  next
    case 2
    then have "char_of n \<noteq> CHR ''%''" "char_of n \<noteq> CHR ''+''" using n by (auto simp: char_of_is always_safe_def)
    then show ?thesis using 2 by (simp add: quoted_byte_def quote_byte_def)
  next
    case 3
    then show ?thesis using n by (simp add: quoted_byte_def quote_byte_def Let_def)
  qed
qed

lemma unquote_high:
  assumes "128 \<le> n" "n < 256"
  shows "unquote_plus (quoted_byte (192 + n div 64) @ quoted_byte (128 + n mod 64) @ cs) = char_of n # unquote_plus cs"
proof -
  have d: "(192 + n div 64) div 16 < 16" "(128 + n mod 64) div 16 < 16" using assms by linarith+
  have q: "quoted_byte (192 + n div 64) = [CHR ''%'', Totp.hex_digit ((192 + n div 64) div 16), Totp.hex_digit ((192 + n div 64) mod 16)]"
    "quoted_byte (128 + n mod 64) = [CHR ''%'', Totp.hex_digit ((128 + n mod 64) div 16), Totp.hex_digit ((128 + n mod 64) mod 16)]"
    using assms by (simp_all add: quoted_byte_def quote_byte_def always_safe_def)
  have v: "16 * ((192 + n div 64) div 16) + (192 + n div 64) mod 16 = 192 + n div 64"
    "16 * ((128 + n mod 64) div 16) + (128 + n mod 64) mod 16 = 128 + n mod 64" by (rule mult_div_mod_eq)+
  show ?thesis unfolding q using d by (simp add: Let_def v)
qed

lemma unquote_quote_plus: "unquote_plus (quote_plus s) = s"
proof (induction s)
  case (Cons c s)
  have "unquote_plus (concat (map quoted_byte (utf8_char c)) @ w) = c # unquote_plus w" for w
    using nat_of_char_less_256 [of c] unquote_low [of "of_char c" w] unquote_high [of "of_char c" w]
    by (simp add: utf8_char_def Let_def not_less)
  then show ?case using Cons by (simp add: quote_plus_quoted)
qed (simp add: quote_plus_def)

lemma split_at_join:
  assumes "ws \<noteq> []" "\<forall>w \<in> set ws. sep \<notin> set w"
  shows "split_at sep (str_join [sep] ws) = ws"
proof -
  have one: "split_at sep w = [w]" if "sep \<notin> set w" for w using that by (induction w) auto
  have app: "split_at sep (w @ sep # v) = w # split_at sep v" if "sep \<notin> set w" for w v using that by (induction w) auto
  show ?thesis using assms
  proof (induction ws)
    case (Cons w ws)
    then show ?case using one app by (cases ws) (simp_all add: str_join_def)
  qed simp
qed

lemma parse_pair_quoted: "parse_pair (quote_plus k @ ''='' @ quote_plus v) = (k, v)"
proof -
  have "CHR ''='' \<notin> set (quote_plus k)" using quote_plus_no_sep [of k] by blast
  then have "takeWhile (\<lambda>c. c \<noteq> CHR ''='') (quote_plus k @ ''='' @ quote_plus v) = quote_plus k"
    "dropWhile (\<lambda>c. c \<noteq> CHR ''='') (quote_plus k @ ''='' @ quote_plus v) = ''='' @ quote_plus v"
    by (subst takeWhile_append2 dropWhile_append2; auto)+
  then show ?thesis by (simp add: parse_pair_def unquote_quote_plus)
qed

lemma parse_urlencode: "ps \<noteq> [] \<Longrightarrow> parse_qsl (urlencode ps) = ps"
proof -
  assume ps: "ps \<noteq> []"
  let ?w = "\<lambda>(k, v). quote_plus k @ ''='' @ quote_plus v"
  have "\<forall>w \<in> set (map ?w ps). CHR ''&'' \<notin> set w" using quote_plus_no_sep by fastforce
  then have "split_at (CHR ''&'') (str_join ''&'' (map ?w ps)) = map ?w ps" using ps by (intro split_at_join) auto
  then show ?thesis using parse_pair_quoted by (simp add: parse_qsl_def urlencode_def o_def split_beta)
qed

text \<open>
  Property. The authorization request arrives as it was made. The provider that splits the query of
  the address a browser is sent to at \<open>&\<close> and \<open>=\<close>, and decodes it, reads exactly the client, the
  callback, the scope, the signed state and the challenge of the verifier that the state carries.
\<close>

theorem authorization_request_intact:
  assumes "build_authorize_url E now jti verifier provider = Inr url"
  shows "\<exists>p q. PROVIDERS E provider = Some p \<and> url = op_authorize_url p @ ''?'' @ q \<and> parse_qsl q =
     [(''client_id'', op_client_id p), (''redirect_uri'', OAUTH_REDIRECT_BASE_URL (cfg E) @ ''/auth/'' @ provider @ ''/callback''),
      (''response_type'', ''code''), (''scope'', op_scope p), (''state'', sign E (oauth_state_claims now jti provider (Some verifier))),
      (''code_challenge'', s256_challenge E verifier), (''code_challenge_method'', ''S256'')]"
proof (cases "PROVIDERS E provider")
  case (Some p)
  have "url = op_authorize_url p @ ''?'' @ urlencode
      [(''client_id'', op_client_id p), (''redirect_uri'', redirect_uri_for E provider), (''response_type'', ''code''),
       (''scope'', op_scope p), (''state'', create_oauth_state_token E now jti provider (Some verifier)),
       (''code_challenge'', s256_challenge E verifier), (''code_challenge_method'', ''S256'')]"
    using assms Some by (simp add: build_authorize_url_def)
  then show ?thesis unfolding create_oauth_state_token_def redirect_uri_for_def by (intro exI conjI) (rule Some, assumption, rule parse_urlencode, simp)
qed (use assms in \<open>simp add: build_authorize_url_def\<close>)

theorem authorization_request_intact_witness:
  "\<exists>p q. PROVIDERS (sample_env Map.empty) ''github'' = Some p \<and> op_authorize_url p = ''https://github.com/login/oauth/authorize''
     \<and> build_authorize_url (sample_env Map.empty) 0 ''j'' ''a&b=c'' ''github'' = Inr (op_authorize_url p @ ''?'' @ q)
     \<and> map_of (parse_qsl q) ''code_challenge'' = Some ''a&b=c''"
proof -
  let ?E = "sample_env Map.empty"
  obtain url where url: "build_authorize_url ?E 0 ''j'' ''a&b=c'' ''github'' = Inr url"
    by (simp add: build_authorize_url_def PROVIDERS_def Let_def)
  obtain p q where h: "PROVIDERS ?E ''github'' = Some p" "url = op_authorize_url p @ ''?'' @ q"
    "parse_qsl q = [(''client_id'', op_client_id p), (''redirect_uri'', OAUTH_REDIRECT_BASE_URL (cfg ?E) @ ''/auth/'' @ ''github'' @ ''/callback''),
      (''response_type'', ''code''), (''scope'', op_scope p), (''state'', sign ?E (oauth_state_claims 0 ''j'' ''github'' (Some ''a&b=c''))),
      (''code_challenge'', s256_challenge ?E ''a&b=c''), (''code_challenge_method'', ''S256'')]"
    using authorization_request_intact [OF url] by (elim exE conjE)
  have "map_of (parse_qsl q) ''code_challenge'' = Some (s256_challenge ?E ''a&b=c'')" unfolding h(3) by simp
  moreover have "s256_challenge ?E v = v" for v by (simp add: sample_env_def)
  moreover have "op_authorize_url p = ''https://github.com/login/oauth/authorize''" using h(1) by (auto simp: PROVIDERS_def Let_def)
  ultimately show ?thesis using h(1,2) url by auto
qed

lemma answered_Inr:
  "(case a of Unreachable t \<Rightarrow> Inl (e t) | Answered st t b \<Rightarrow> if st \<noteq> 200 then Inl (e' t) else f t b) = Inr x
     \<longleftrightarrow> (\<exists>t b. a = Answered 200 t b \<and> f t b = Inr x)"
  by (cases a) auto

lemma unless_Inr: "(if b then Inl e else f) = Inr x \<longleftrightarrow> \<not> b \<and> f = Inr x"
  by simp

lemma exchange_Inr:
  assumes "exchange_code_for_userinfo N E provider code v = Inr (puid, email)"
  obtains p access body userinfo emails ids where "PROVIDERS E provider = Some p"
    "http_get N (op_userinfo_url p) (Some access) = Answered 200 body (Some userinfo)"
    "github_addresses N provider userinfo access = Inr emails" "parse_userinfo provider userinfo emails ids = Inr (puid, JStr email)" "email \<noteq> []"
    "ids = None \<or> (\<exists>t. unverified_claims N t = ids)"
proof -
  obtain p where p: "PROVIDERS E provider = Some p" using assms by (cases "PROVIDERS E provider") (auto simp: exchange_code_for_userinfo_def)
  obtain form where f: "(case http_post N (op_token_url p) form of
             Unreachable text \<Rightarrow> Inl (TransportError text)
           | Answered status text body \<Rightarrow>
               if status \<noteq> 200 then Inl (OAuthError (provider @ '' token exchange failed: '' @ text))
               else proceed (json_body body) (\<lambda>token_data.
                    proceed (json_get token_data ''access_token'') (\<lambda>access.
                    if \<not> jtruthy access then Inl (OAuthError (provider @ '' token response missing access_token''))
                    else case http_get N (op_userinfo_url p) (Some (py_str access)) of
                           Unreachable text \<Rightarrow> Inl (TransportError text)
                         | Answered status text body \<Rightarrow>
                             if status \<noteq> 200 then Inl (OAuthError (provider @ '' userinfo fetch failed: '' @ text))
                             else proceed (json_body body) (\<lambda>userinfo.
                                  proceed (github_addresses N provider userinfo (py_str access)) (\<lambda>emails.
                                  proceed (parse_userinfo provider userinfo emails (microsoft_claims N provider token_data)) (\<lambda>(puid, email).
                                  if \<not> jtruthy email then Inl (OAuthError (provider @ '' did not return an email address for this account''))
                                  else case json_str email of None \<Rightarrow> Inl AttributeError | Some e \<Rightarrow> Inr (puid, e))))))) = Inr (puid, email)"
    using assms p by (auto simp: exchange_code_for_userinfo_def)
  then obtain td access answer body where t: "json_get td ''access_token'' = Inr access"
    "http_get N (op_userinfo_url p) (Some (py_str access)) = Answered 200 answer body"
    "proceed (json_body body) (\<lambda>userinfo.
       proceed (github_addresses N provider userinfo (py_str access)) (\<lambda>emails.
       proceed (parse_userinfo provider userinfo emails (microsoft_claims N provider td)) (\<lambda>(puid, email).
       if \<not> jtruthy email then Inl (OAuthError (provider @ '' did not return an email address for this account''))
       else case json_str email of None \<Rightarrow> Inl AttributeError | Some e \<Rightarrow> Inr (puid, e)))) = Inr (puid, email)"
    by (simp only: answered_Inr proceed_Inr unless_Inr) blast
  from t(3) obtain userinfo emails j where u: "body = Some userinfo" "github_addresses N provider userinfo (py_str access) = Inr emails"
    "parse_userinfo provider userinfo emails (microsoft_claims N provider td) = Inr (puid, j)" "jtruthy j" "json_str j = Some email"
    by (auto simp: proceed_Inr json_body_def unless_Inr split: option.splits)
  have "j = JStr email" using u(5) by (cases j) auto
  moreover have "microsoft_claims N provider td = None \<or> (\<exists>t. unverified_claims N t = microsoft_claims N provider td)"
    by (auto simp: microsoft_claims_def split: sum.split json.split)
  ultimately show ?thesis using p t(2) u by (intro that) auto
qed

lemma json_item_Inr: "json_item (JObj kvs) key = Inr v \<Longrightarrow> get_claim kvs key = v"
  by (auto simp: json_item_def get_claim_def split: option.splits)

lemma first_email_Some: "first_email b es = Inr (Some e) \<Longrightarrow> \<exists>kvs. e = JObj kvs \<and> JObj kvs \<in> set es \<and> jtruthy (get_claim kvs ''verified'')"
  by (induction b es rule: first_email.induct) (auto split: json.splits if_splits)

lemma github_email_Inr:
  assumes "github_email v = Inr (JStr email)"
  shows "\<exists>es kvs. v = JList es \<and> JObj kvs \<in> set es \<and> jtruthy (get_claim kvs ''verified'') \<and> get_claim kvs ''email'' = JStr email"
proof -
  obtain es e b where v: "v = JList es" "first_email b es = Inr (Some e)" "json_item e ''email'' = Inr (JStr email)"
    using assms by (cases v) (auto simp: github_email_def proceed_Inr split: option.splits)
  then show ?thesis using first_email_Some [OF v(2)] json_item_Inr by blast
qed

text \<open>
  Property. An address is the provider's word. If the exchange of a code gives an address, the
  provider answered the request for the account's data, and the address is the one it gives there
  and vouches for: Google marks it verified, Microsoft issued the account itself or marks the
  domain's owner verified, and GitHub gives it with the account or as a verified address.
\<close>

theorem oauth_address_vouched:
  assumes "exchange_code_for_userinfo N E provider code v = Inr (puid, email)"
  shows "\<exists>p access text kvs. PROVIDERS E provider = Some p \<and> http_get N (op_userinfo_url p) (Some access) = Answered 200 text (Some (JObj kvs)) \<and> email \<noteq> []
    \<and> (provider = ''google'' \<longrightarrow> get_claim kvs ''email'' = JStr email \<and> claim_true (get_claim kvs ''email_verified''))
    \<and> (provider = ''microsoft'' \<longrightarrow> get_claim kvs ''email'' = JStr email
         \<and> (\<exists>t c. unverified_claims N t = Some c \<and> (get_claim c ''tid'' = JStr MICROSOFT_CONSUMER_TENANT_ID \<or> claim_true (get_claim c ''xms_edov''))))
    \<and> (provider = ''github'' \<longrightarrow> get_claim kvs ''email'' = JStr email
         \<or> (\<exists>text es e. http_get N ''https://api.github.com/user/emails'' (Some access) = Answered 200 text (Some (JList es))
              \<and> JObj e \<in> set es \<and> jtruthy (get_claim e ''verified'') \<and> get_claim e ''email'' = JStr email))"
proof -
  from exchange_Inr [OF assms] obtain p access body userinfo emails ids where x: "PROVIDERS E provider = Some p"
    "http_get N (op_userinfo_url p) (Some access) = Answered 200 body (Some userinfo)"
    "github_addresses N provider userinfo access = Inr emails" "parse_userinfo provider userinfo emails ids = Inr (puid, JStr email)" "email \<noteq> []"
    "ids = None \<or> (\<exists>t. unverified_claims N t = ids)" by metis
  obtain kvs where u: "userinfo = JObj kvs"
    using x(4) by (cases userinfo) (auto simp: parse_userinfo_def proceed_Inr json_get_def json_item_def split: if_splits)
  have g: "get_claim kvs ''email'' = JStr email \<and> claim_true (get_claim kvs ''email_verified'')" if "provider = ''google''"
    using x(4) that u by (auto simp: parse_userinfo_def proceed_Inr json_get_def split: if_splits)
  have m: "get_claim kvs ''email'' = JStr email \<and> (\<exists>t c. unverified_claims N t = Some c
      \<and> (get_claim c ''tid'' = JStr MICROSOFT_CONSUMER_TENANT_ID \<or> claim_true (get_claim c ''xms_edov'')))" if "provider = ''microsoft''"
  proof (cases ids)
    case None
    then show ?thesis using x(4) that u by (simp add: parse_userinfo_def proceed_Inr json_get_def get_claim_def claim_true_def split: if_splits)
  next
    case (Some c)
    then show ?thesis using x(4,6) that u by (auto simp: parse_userinfo_def proceed_Inr json_get_def Let_def split: if_splits)
  qed
  have h: "get_claim kvs ''email'' = JStr email \<or> (\<exists>text es e. http_get N ''https://api.github.com/user/emails'' (Some access) = Answered 200 text (Some (JList es))
      \<and> JObj e \<in> set es \<and> jtruthy (get_claim e ''verified'') \<and> get_claim e ''email'' = JStr email)" if "provider = ''github''"
  proof (cases "get_claim kvs ''email'' = JStr email")
    case False
    then obtain v where v: "emails = Some v" "github_email v = Inr (JStr email)"
      using x(4) that u by (auto simp: parse_userinfo_def proceed_Inr json_get_def split: option.splits if_splits)
    then obtain answer where "http_get N ''https://api.github.com/user/emails'' (Some access) = Answered 200 answer (Some v)"
      using x(3) that u by (auto simp: github_addresses_def proceed_Inr json_get_def json_body_def split: http_answer.splits option.splits if_splits)
    then show ?thesis using github_email_Inr [OF v(2)] by auto
  qed simp
  show ?thesis using x(1,2,5) u g m h by (intro exI [of _ p] exI [of _ access] exI [of _ body] exI [of _ kvs]) simp
qed

definition google_remote :: remote where
  "google_remote = \<lparr>http_post = (\<lambda>url form. Answered 200 '''' (Some (JObj [(''access_token'', JStr ''t'')]))),
     http_get = (\<lambda>url bearer. Answered 200 '''' (Some (JObj [(''sub'', JInt 7), (''email'', JStr ''Ada@lab''), (''email_verified'', JBool True)]))),
     unverified_header = (\<lambda>t. None), unverified_claims = (\<lambda>t. None), verify_id_token = (\<lambda>now t k alg aud iss. None)\<rparr>"

lemma google_exchange: "exchange_code_for_userinfo google_remote E ''google'' code v = Inr (''7'', ''Ada@lab'')"
  by (simp add: exchange_code_for_userinfo_def google_remote_def PROVIDERS_def Let_def json_body_def json_get_def json_item_def get_claim_def
      github_addresses_def parse_userinfo_def claim_true_def py_str_def show_int_def show_nat.simps char_of_is microsoft_claims_def)

theorem oauth_address_vouched_witness:
  "\<exists>access text kvs. http_get google_remote ''https://openidconnect.googleapis.com/v1/userinfo'' (Some access) = Answered 200 text (Some (JObj kvs))
     \<and> get_claim kvs ''email'' = JStr ''Ada@lab'' \<and> claim_true (get_claim kvs ''email_verified'')"
  using oauth_address_vouched [OF google_exchange [of "sample_env Map.empty" "''c''" None]] by (auto simp: PROVIDERS_def Let_def)

end
