(* ===== verification/First_Party_Codes.thy ===== *)
theory First_Party_Codes
  imports Federation Service_Clients
begin

text \<open>
  The authorization codes of the first-party portal in \<open>app/api/routes_oauth_token.py\<close>: a platform
  administrator's browser obtains a code, the portal exchanges it for an access token. The codes
  are kept in Redis with an expiry, and nowhere else; the commands are the record \<open>code_redis\<close>, a
  call that raises being \<open>None\<close>. The text that is stored is represented by the JSON value it
  encodes, and a stored text that is no JSON by \<open>Some None\<close>.

  The theory shows whose token a code yields and until when, and that a code is redeemed once.
\<close>

subsection \<open>The store\<close>

record 'c code_redis =
  cr_setex :: "time \<Rightarrow> 'c \<Rightarrow> string \<Rightarrow> int \<Rightarrow> json \<Rightarrow> 'c option"
  cr_getdel :: "time \<Rightarrow> 'c \<Rightarrow> string \<Rightarrow> ('c \<times> json option option) option"

definition code_key :: "string \<Rightarrow> string" where
  "code_key code = ''oauth:first-party:'' @ code"

subsection \<open>The two routes\<close>

definition require_lims_sso_config :: "env \<Rightarrow> exn option" where
  "require_lims_sso_config E =
     (if LIMS_SSO_CLIENT_ID (cfg E) \<noteq> [] \<and> LIMS_SSO_CLIENT_SECRET (cfg E) \<noteq> [] \<and> LIMS_SSO_REDIRECT_URI (cfg E) \<noteq> [] then None
      else Some (HTTPException 503 ''first-party SSO is not configured''))"

definition verify_lims_client :: "env \<Rightarrow> string option \<Rightarrow> string option \<Rightarrow> exn option" where
  "verify_lims_client E client_id client_secret =
     (case require_lims_sso_config E of
        Some e \<Rightarrow> Some e
      | None \<Rightarrow>
          let invalid = Some (HTTPException 401 ''invalid_client'')
          in if \<not> truthy client_id \<or> \<not> truthy client_secret then invalid
             else (case compare_digest (the client_id) (LIMS_SSO_CLIENT_ID (cfg E)) of
                     Inl e \<Rightarrow> Some e
                   | Inr False \<Rightarrow> invalid
                   | Inr True \<Rightarrow>
                       (case compare_digest (the client_secret) (LIMS_SSO_CLIENT_SECRET (cfg E)) of
                          Inl e \<Rightarrow> Some e | Inr False \<Rightarrow> invalid | Inr True \<Rightarrow> None)))"

text \<open>\<open>user.get(key, [])\<close>\<close>

definition claim_or_list :: "claims \<Rightarrow> string \<Rightarrow> json" where
  "claim_or_list c key = (case map_of c key of None \<Rightarrow> JList [] | Some v \<Rightarrow> v)"

definition code_payload :: "env \<Rightarrow> time \<Rightarrow> claims \<Rightarrow> string \<Rightarrow> string \<Rightarrow> string \<Rightarrow> string \<Rightarrow> string option \<Rightarrow> claims" where
  "code_payload E now user jti client_id redirect_uri state nonce =
     [(''jti'', JStr jti), (''sub'', JStr (py_str (get_claim user ''sub''))), (''email'', get_claim user ''email''),
      (''roles'', claim_or_list user ''roles''), (''permissions'', claim_or_list user ''permissions''), (''org_id'', get_claim user ''org_id''),
      (''org_role'', claim_or_list user ''org_role''), (''auth_method'', get_claim user ''auth_method''), (''client_id'', JStr client_id),
      (''redirect_uri'', JStr redirect_uri), (''state'', JStr state), (''nonce'', jstr_opt nonce),
      (''exp'', JInt (whole_seconds now + LIMS_SSO_CODE_TTL_SECONDS (cfg E)))]"

definition code_redirect :: "string \<Rightarrow> string \<Rightarrow> string \<Rightarrow> string" where
  "code_redirect redirect_uri code state =
     redirect_uri @ (if CHR ''?'' \<in> set redirect_uri then ''&'' else ''?'') @ ''code='' @ code @ ''&state='' @ state"

definition authorize_first_party_client ::
  "'c code_redis \<Rightarrow> 'r redis \<Rightarrow> env \<Rightarrow> time \<Rightarrow> string \<Rightarrow> string \<Rightarrow> string \<Rightarrow> string \<Rightarrow> string \<Rightarrow> string \<Rightarrow> string \<Rightarrow> string option
     \<Rightarrow> 'r \<Rightarrow> db \<Rightarrow> 'c \<Rightarrow> 'c \<times> (exn + string)" where
  "authorize_first_party_client C R E now code jti token client_id redirect_uri response_type state nonce r s c =
     (case get_current_user R E now token r s of
        Inl e \<Rightarrow> (c, Inl e)
      | Inr user \<Rightarrow>
          (case require_lims_sso_config E of
             Some e \<Rightarrow> (c, Inl e)
           | None \<Rightarrow>
               if response_type \<noteq> ''code'' \<or> client_id \<noteq> LIMS_SSO_CLIENT_ID (cfg E) \<or> redirect_uri \<noteq> LIMS_SSO_REDIRECT_URI (cfg E)
               then (c, Inl (HTTPException 400 ''invalid_request''))
               else (case claim_in_or_empty ''manage_all_orgs'' user ''permissions'' of
                       Inl e \<Rightarrow> (c, Inl e)
                     | Inr False \<Rightarrow> (c, Inl (HTTPException 403 ''Forbidden''))
                     | Inr True \<Rightarrow>
                         (case cr_setex C now c (code_key code) (LIMS_SSO_CODE_TTL_SECONDS (cfg E))
                                 (JObj (code_payload E now user jti client_id redirect_uri state nonce)) of
                            None \<Rightarrow> (c, Inl (HTTPException 503 ''authorization service unavailable''))
                          | Some c1 \<Rightarrow> (c1, Inr (code_redirect redirect_uri code state))))))"

text \<open>\<open>payload.get("exp", 0) < n\<close>\<close>

definition exp_before :: "claims \<Rightarrow> int \<Rightarrow> exn + bool" where
  "exp_before payload n =
     (case map_of payload ''exp'' of
        None \<Rightarrow> Inr (0 < n)
      | Some (JInt i) \<Rightarrow> Inr (i < n)
      | Some (JBool b) \<Rightarrow> Inr ((if b then 1 else 0) < n)
      | Some _ \<Rightarrow> Inl TypeError)"

text \<open>The chain of \<open>or\<close>: whether the code does not fit the request.\<close>

definition unfit :: "claims \<Rightarrow> time \<Rightarrow> string \<Rightarrow> string \<Rightarrow> exn + bool" where
  "unfit payload now client_id redirect_uri =
     proceed (exp_before payload (whole_seconds now)) (\<lambda>late.
     if late \<or> get_claim payload ''client_id'' \<noteq> JStr client_id \<or> get_claim payload ''redirect_uri'' \<noteq> JStr redirect_uri then Inr True
     else proceed (claim_in_or_empty ''manage_all_orgs'' payload ''permissions'') (\<lambda>admin. Inr (\<not> admin)))"

definition CARRIED :: "string list" where
  "CARRIED = [''sub'', ''email'', ''roles'', ''permissions'', ''org_id'', ''org_role'', ''auth_method'']"

definition carried :: "claims \<Rightarrow> claims" where
  "carried payload = concat (map (\<lambda>k. case map_of payload k of None \<Rightarrow> [] | Some v \<Rightarrow> [(k, v)]) CARRIED)"

record code_token =
  ct_access_token :: string
  ct_expires_in :: int
  ct_state :: "string option"

definition redeem_first_party_authorization_code ::
  "'c code_redis \<Rightarrow> env \<Rightarrow> time \<Rightarrow> string \<Rightarrow> string \<Rightarrow> string \<Rightarrow> string \<Rightarrow> string option \<Rightarrow> string option \<Rightarrow> (string \<times> string) option
     \<Rightarrow> 'c \<Rightarrow> 'c \<times> (exn + code_token)" where
  "redeem_first_party_authorization_code C E now jti grant_type code redirect_uri form_id form_secret basic c =
     (let (client_id, client_secret) = (case basic of None \<Rightarrow> (form_id, form_secret) | Some (u, p) \<Rightarrow> (Some u, Some p))
      in if grant_type \<noteq> ''authorization_code'' then (c, Inl (HTTPException 400 ''unsupported_grant_type''))
         else (case verify_lims_client E client_id client_secret of
                 Some e \<Rightarrow> (c, Inl e)
               | None \<Rightarrow>
                   (case cr_getdel C now c (code_key code) of
                      None \<Rightarrow> (c, Inl (HTTPException 503 ''authorization service unavailable''))
                    | Some (c1, raw) \<Rightarrow>
                        (c1, case raw of
                           Some (Some (JObj payload)) \<Rightarrow>
                             proceed (unfit payload now (the client_id) redirect_uri) (\<lambda>no.
                             if no then Inl (HTTPException 400 ''invalid_grant'')
                             else Inr \<lparr>ct_access_token = create_access_token E now jti (carried payload) None,
                                       ct_expires_in = ACCESS_TOKEN_EXPIRE_MINUTES (cfg E) * 60, ct_state = json_str (get_claim payload ''state'')\<rparr>)
                         | Some (Some _) \<Rightarrow> Inl AttributeError
                         | _ \<Rightarrow> Inl (HTTPException 400 ''invalid_grant'')))))"

subsection \<open>What Redis promises\<close>

text \<open>\<open>SETEX\<close> stores a value with an expiry; \<open>GETDEL\<close> answers the live value and removes it.\<close>

locale code_store =
  fixes C :: "'c code_redis" and held :: "'c \<Rightarrow> string \<Rightarrow> (json option \<times> time) option"
  assumes setex: "cr_setex C t c k n v = Some c' \<Longrightarrow> held c' = (held c)(k \<mapsto> (Some v, t + seconds n))"
    and getdel: "cr_getdel C t c k = Some (c', raw) \<Longrightarrow>
      held c' = (held c)(k := None) \<and> raw = (case held c k of None \<Rightarrow> None | Some (v, e) \<Rightarrow> if t < e then Some v else None)"
begin

lemma getdel_live:
  assumes "cr_getdel C t c k = Some (c', Some v)"
  obtains e where "held c k = Some (v, e)" "t < e" "held c' k = None"
  using getdel [OF assms] by (auto split: option.splits if_splits)

lemma gone_is_refused: "held c k = None \<Longrightarrow> cr_getdel C t c k = Some (c', raw) \<Longrightarrow> raw = None \<and> held c' k = None"
  by (drule getdel) simp

end

text \<open>A store with these laws.\<close>

definition kv_codes :: "(string \<times> (json option \<times> time)) list code_redis" where
  "kv_codes = \<lparr>cr_setex = (\<lambda>t c k n v. if n \<le> 0 then None else Some (AList.update k (Some v, t + seconds n) c)),
     cr_getdel = (\<lambda>t c k. Some (filter (\<lambda>p. fst p \<noteq> k) c, case map_of c k of None \<Rightarrow> None | Some (v, e) \<Rightarrow> if t < e then Some v else None))\<rparr>"

lemma map_of_without: "map_of (filter (\<lambda>p. fst p \<noteq> k) al) = (map_of al)(k := None)"
  using map_of_filter_keys [of "{k}" al] by (auto simp: fun_eq_iff)

interpretation codes: code_store kv_codes map_of
  by unfold_locales (auto simp: kv_codes_def update_conv' map_of_without split: if_splits)

subsection \<open>Properties\<close>

text \<open>
  The requests on codes, with the codes that are drawn among \<open>fresh\<close>: whoever calls, with whatever
  token, user table and access-token blacklist.
\<close>

inductive code_step :: "'c code_redis \<Rightarrow> 'r redis \<Rightarrow> env \<Rightarrow> string set \<Rightarrow> 'c \<Rightarrow> 'c \<Rightarrow> bool" for C R E fresh where
  authorize: "code \<in> fresh \<Longrightarrow>
    code_step C R E fresh c (fst (authorize_first_party_client C R E now code jti token client_id redirect_uri rt state nonce r s c))"
| redeem: "code_step C R E fresh c (fst (redeem_first_party_authorization_code C E now jti gt code redirect_uri fid fsecret basic c))"

text \<open>An authorization that has stored a code, and what it has stored.\<close>

definition authorized_at :: "'r redis \<Rightarrow> env \<Rightarrow> time \<Rightarrow> claims \<Rightarrow> json \<Rightarrow> bool" where
  "authorized_at R E t0 user v \<longleftrightarrow>
     (\<exists>token r s. get_current_user R E t0 token r s = Inr user) \<and> claim_in_or_empty ''manage_all_orgs'' user ''permissions'' = Inr True
     \<and> (\<exists>jti state nonce. v = JObj (code_payload E t0 user jti (LIMS_SSO_CLIENT_ID (cfg E)) (LIMS_SSO_REDIRECT_URI (cfg E)) state nonce))"

definition codes_ok :: "'r redis \<Rightarrow> env \<Rightarrow> ('c \<Rightarrow> string \<Rightarrow> (json option \<times> time) option) \<Rightarrow> 'c \<Rightarrow> bool" where
  "codes_ok R E held c \<longleftrightarrow>
     (\<forall>k raw e. held c k = Some (raw, e) \<longrightarrow>
        (\<exists>v t0 user. raw = Some v \<and> authorized_at R E t0 user v \<and> e = t0 + seconds (LIMS_SSO_CODE_TTL_SECONDS (cfg E))))"

context code_store
begin

lemma authorize_effect:
  assumes "fst (authorize_first_party_client C R E now code jti token client_id redirect_uri rt state nonce r s c) = c'"
  shows "c' = c \<or> (\<exists>user v. authorized_at R E now user v
           \<and> held c' = (held c)(code_key code \<mapsto> (Some v, now + seconds (LIMS_SSO_CODE_TTL_SECONDS (cfg E)))))"
proof (cases "c' = c")
  case False
  then obtain user v where g: "get_current_user R E now token r s = Inr user" "claim_in_or_empty ''manage_all_orgs'' user ''permissions'' = Inr True"
    "client_id = LIMS_SSO_CLIENT_ID (cfg E)" "redirect_uri = LIMS_SSO_REDIRECT_URI (cfg E)"
    "v = JObj (code_payload E now user jti client_id redirect_uri state nonce)"
    and x: "cr_setex C now c (code_key code) (LIMS_SSO_CODE_TTL_SECONDS (cfg E)) v = Some c'"
    using assms by (auto simp: authorize_first_party_client_def split: sum.splits bool.splits option.splits if_splits)
  have "authorized_at R E now user v" using g by (auto simp: authorized_at_def)
  then show ?thesis using setex [OF x] by blast
qed simp

lemma redeem_effect:
  assumes "fst (redeem_first_party_authorization_code C E now jti gt code redirect_uri fid fsecret basic c) = c'"
  shows "c' = c \<or> held c' = (held c)(code_key code := None)"
proof (cases "c' = c")
  case False
  then obtain raw where "cr_getdel C now c (code_key code) = Some (c', raw)"
    using assms by (auto simp: redeem_first_party_authorization_code_def Let_def split: sum.splits option.splits if_splits prod.splits)
  then show ?thesis using getdel by blast
qed simp

lemma codes_ok_put:
  assumes "codes_ok R E held c" "authorized_at R E t0 user v" "held c' = (held c)(k \<mapsto> (Some v, t0 + seconds (LIMS_SSO_CODE_TTL_SECONDS (cfg E))))"
  shows "codes_ok R E held c'"
  unfolding codes_ok_def
proof (intro allI impI)
  fix k' raw e
  assume h: "held c' k' = Some (raw, e)"
  show "\<exists>v t0 user. raw = Some v \<and> authorized_at R E t0 user v \<and> e = t0 + seconds (LIMS_SSO_CODE_TTL_SECONDS (cfg E))"
  proof (cases "k' = k")
    case True
    then show ?thesis using h assms(2,3) by auto
  next
    case False
    then show ?thesis using h assms(1,3) by (simp add: codes_ok_def)
  qed
qed

lemma codes_ok_drop: "codes_ok R E held c \<Longrightarrow> held c' = (held c)(k := None) \<Longrightarrow> codes_ok R E held c'"
  by (simp add: codes_ok_def)

lemma codes_ok_step: "code_step C R E fresh c c' \<Longrightarrow> codes_ok R E held c \<Longrightarrow> codes_ok R E held c'"
proof (induction rule: code_step.induct)
  case (authorize code c now jti token client_id redirect_uri rt state nonce r s)
  show ?case using authorize_effect [OF refl, of R E now code jti token client_id redirect_uri rt state nonce r s c] authorize(2)
    by (elim disjE exE conjE) (simp, rule codes_ok_put)
next
  case (redeem c now jti gt code redirect_uri fid fsecret basic)
  show ?case using redeem_effect [OF refl, of E now jti gt code redirect_uri fid fsecret basic c] redeem
    by (elim disjE) (simp, rule codes_ok_drop)
qed

lemma codes_ok_reachable: "(code_step C R E fresh)\<^sup>*\<^sup>* c c' \<Longrightarrow> codes_ok R E held c \<Longrightarrow> codes_ok R E held c'"
  by (induction rule: rtranclp_induct) (auto intro: codes_ok_step)

lemma stays_gone: "(code_step C R E (- {code}))\<^sup>*\<^sup>* c c' \<Longrightarrow> held c (code_key code) = None \<Longrightarrow> held c' (code_key code) = None"
proof (induction rule: rtranclp_induct)
  case (step c1 c2)
  from step(2) step(3) [OF step(4)] show ?case
  proof (induction rule: code_step.induct)
    case (authorize code' c now jti token client_id redirect_uri rt state nonce r s)
    then have "code_key code' \<noteq> code_key code" by (auto simp: code_key_def)
    then show ?case using authorize(2) authorize_effect [OF refl, of R E now code' jti token client_id redirect_uri rt state nonce r s c]
      by (elim disjE exE conjE) simp_all
  next
    case (redeem c now jti gt code' redirect_uri fid fsecret basic)
    then show ?case using redeem_effect [OF refl, of E now jti gt code' redirect_uri fid fsecret basic c] by (elim disjE) simp_all
  qed
qed

lemma redeem_Inr:
  assumes "redeem_first_party_authorization_code C E now jti gt code redirect_uri fid fsecret basic c = (c', Inr t)"
  obtains client_id secret payload e where "presented_credentials fid fsecret basic = (Some client_id, Some secret)"
    "verify_lims_client E (Some client_id) (Some secret) = None" "held c (code_key code) = Some (Some (JObj payload), e)" "now < e"
    "held c' (code_key code) = None" "unfit payload now client_id redirect_uri = Inr False"
    "t = \<lparr>ct_access_token = create_access_token E now jti (carried payload) None,
          ct_expires_in = ACCESS_TOKEN_EXPIRE_MINUTES (cfg E) * 60, ct_state = json_str (get_claim payload ''state'')\<rparr>"
proof -
  obtain i p where ip: "presented_credentials fid fsecret basic = (i, p)" by force
  have ip': "(case basic of None \<Rightarrow> (fid, fsecret) | Some (u, p) \<Rightarrow> (Some u, Some p)) = (i, p)"
    using ip by (simp add: presented_credentials_def)
  have v: "verify_lims_client E i p = None"
    using assms by (auto simp: redeem_first_party_authorization_code_def ip' split: if_splits option.splits)
  then obtain client_id secret where cs: "i = Some client_id" "p = Some secret"
    by (cases i; cases p) (auto simp: verify_lims_client_def Let_def truthy_def split: option.splits if_splits)
  obtain payload where x: "cr_getdel C now c (code_key code) = Some (c', Some (Some (JObj payload)))"
    "proceed (unfit payload now client_id redirect_uri) (\<lambda>no. if no then Inl (HTTPException 400 ''invalid_grant'')
       else Inr \<lparr>ct_access_token = create_access_token E now jti (carried payload) None,
                 ct_expires_in = ACCESS_TOKEN_EXPIRE_MINUTES (cfg E) * 60, ct_state = json_str (get_claim payload ''state'')\<rparr>) = Inr t"
    using assms v by (auto simp: redeem_first_party_authorization_code_def ip' cs split: if_splits option.splits json.splits)
  obtain e where "held c (code_key code) = Some (Some (JObj payload), e)" "now < e" "held c' (code_key code) = None"
    by (rule getdel_live [OF x(1)])
  then show ?thesis using that [of client_id secret payload e] ip cs v x(2) by (auto simp: proceed_Inr split: if_splits)
qed

end

lemma lims_client_None:
  "verify_lims_client E (Some i) (Some p) = None \<Longrightarrow> i = LIMS_SSO_CLIENT_ID (cfg E) \<and> p = LIMS_SSO_CLIENT_SECRET (cfg E)"
  by (auto simp: verify_lims_client_def compare_digest_def Let_def split: option.splits if_splits sum.splits bool.splits)

lemma carried_payload:
  "carried (code_payload E t user jti cid uri state nonce) =
     [(''sub'', JStr (py_str (get_claim user ''sub''))), (''email'', get_claim user ''email''), (''roles'', claim_or_list user ''roles''),
      (''permissions'', claim_or_list user ''permissions''), (''org_id'', get_claim user ''org_id''), (''org_role'', claim_or_list user ''org_role''),
      (''auth_method'', get_claim user ''auth_method'')]"
  by (simp add: carried_def CARRIED_def code_payload_def)

text \<open>
  Property. Whose token a code yields. In every state of the codes that requests reach from an
  empty store, a code is exchanged only by the configured portal, with its secret and its
  redirect address, before the code's time is over; and it had been drawn by a request whose
  bearer token was at that moment a usable user token with the platform administrators'
  permission. The access token is for that user, with the claims that token had.
\<close>

theorem code_yields_its_user:
  assumes "code_store C held" "held c0 = Map.empty" "(code_step C R E UNIV)\<^sup>*\<^sup>* c0 c"
    and x: "redeem_first_party_authorization_code C E now jti gt code redirect_uri fid fsecret basic c = (c', Inr t)"
  shows "presented_credentials fid fsecret basic = (Some (LIMS_SSO_CLIENT_ID (cfg E)), Some (LIMS_SSO_CLIENT_SECRET (cfg E)))
    \<and> redirect_uri = LIMS_SSO_REDIRECT_URI (cfg E)
    \<and> (\<exists>t0 token r s user. now < t0 + seconds (LIMS_SSO_CODE_TTL_SECONDS (cfg E)) \<and> get_current_user R E t0 token r s = Inr user
         \<and> claim_in_or_empty ''manage_all_orgs'' user ''permissions'' = Inr True
         \<and> ct_access_token t = create_access_token E now jti
             [(''sub'', JStr (py_str (get_claim user ''sub''))), (''email'', get_claim user ''email''), (''roles'', claim_or_list user ''roles''),
              (''permissions'', claim_or_list user ''permissions''), (''org_id'', get_claim user ''org_id''),
              (''org_role'', claim_or_list user ''org_role''), (''auth_method'', get_claim user ''auth_method'')] None)"
proof -
  obtain client_id secret payload e where r: "presented_credentials fid fsecret basic = (Some client_id, Some secret)"
    "verify_lims_client E (Some client_id) (Some secret) = None" "held c (code_key code) = Some (Some (JObj payload), e)" "now < e"
    "unfit payload now client_id redirect_uri = Inr False" "ct_access_token t = create_access_token E now jti (carried payload) None"
    by (rule code_store.redeem_Inr [OF assms(1) x]) auto
  have "codes_ok R E held c"
    by (rule code_store.codes_ok_reachable [OF assms(1,3)]) (simp add: codes_ok_def assms(2))
  then obtain t0 user where a: "authorized_at R E t0 user (JObj payload)" "e = t0 + seconds (LIMS_SSO_CODE_TTL_SECONDS (cfg E))"
    using r(3) unfolding codes_ok_def by blast
  obtain token rr s j state nonce where g: "get_current_user R E t0 token rr s = Inr user"
    "payload = code_payload E t0 user j (LIMS_SSO_CLIENT_ID (cfg E)) (LIMS_SSO_REDIRECT_URI (cfg E)) state nonce"
    using a(1) by (auto simp: authorized_at_def)
  have "redirect_uri = LIMS_SSO_REDIRECT_URI (cfg E)"
    using r(5) by (auto simp: unfit_def proceed_Inr g(2) code_payload_def split: if_splits)
  moreover have adm: "claim_in_or_empty ''manage_all_orgs'' user ''permissions'' = Inr True" using a(1) by (simp add: authorized_at_def)
  moreover have "now < t0 + seconds (LIMS_SSO_CODE_TTL_SECONDS (cfg E))" using r(4) a(2) by simp
  moreover note g(1) r(6) [unfolded g(2) carried_payload]
  ultimately show ?thesis using r(1) lims_client_None [OF r(2)] by blast
qed

text \<open>
  Property. A code is redeemed once. Once it has been exchanged for a token, no request redeems it
  again, whatever happens in between, as long as no new code is the same.
\<close>

theorem code_redeemed_once:
  assumes "code_store C held" "redeem_first_party_authorization_code C E now jti gt code redirect_uri fid fsecret basic c = (c1, Inr t)"
    and "(code_step C R E (- {code}))\<^sup>*\<^sup>* c1 c2"
  shows "\<exists>e. snd (redeem_first_party_authorization_code C E now' jti' gt' code redirect_uri' fid' fsecret' basic' c2) = Inl e"
proof (rule ccontr)
  assume "\<not> ?thesis"
  then obtain c3 t' where x: "redeem_first_party_authorization_code C E now' jti' gt' code redirect_uri' fid' fsecret' basic' c2 = (c3, Inr t')"
    by (metis prod.collapse sum.exhaust)
  have "held c1 (code_key code) = None" by (rule code_store.redeem_Inr [OF assms(1,2)])
  then have "held c2 (code_key code) = None" by (rule code_store.stays_gone [OF assms(1,3)])
  then show False by (auto intro: code_store.redeem_Inr [OF assms(1) x])
qed

text \<open>
  The state is put into the redirect as it is: the portal reads more parameters than were set when
  it holds a separator.
\<close>

lemma state_not_encoded:
  "code_redirect ''https://lims/cb'' ''c0de'' ''0123456789abcdef&code=other'' = ''https://lims/cb?'' @ ''code=c0de&state=0123456789abcdef&code=other''"
  "parse_qsl ''code=c0de&state=0123456789abcdef&code=other'' = [(''code'', ''c0de''), (''state'', ''0123456789abcdef''), (''code'', ''other'')]"
  by (simp add: code_redirect_def) (simp add: parse_qsl_def parse_pair_def)

subsection \<open>A concrete exchange\<close>

definition portal_claims :: claims where
  "portal_claims = [(''sub'', JStr ''1''), (''permissions'', JList [JStr ''manage_all_orgs''])]"

definition portal_env :: env where
  "portal_env = (sample_env [''adm'' \<mapsto> portal_claims])\<lparr>cfg := default_settings\<lparr>LIMS_SSO_CLIENT_ID := ''lims'', LIMS_SSO_CLIENT_SECRET := ''s'',
     LIMS_SSO_REDIRECT_URI := ''https://lims/cb''\<rparr>\<rparr>"

definition portal_codes :: "(string \<times> (json option \<times> time)) list" where
  "portal_codes = fst (authorize_first_party_client kv_codes kv_redis portal_env 0 ''c0de'' ''j'' ''adm'' ''lims'' ''https://lims/cb'' ''code''
     ''0123456789abcdef'' None (True, []) (empty_db\<lparr>users := [sample_user 1 ''ada'']\<rparr>) [])"

lemma portal_user: "get_current_user kv_redis portal_env 0 ''adm'' (True, []) (empty_db\<lparr>users := [sample_user 1 ''ada'']\<rparr>) = Inr portal_claims"
  by (simp add: get_current_user_def decode_token_def decode_token_for_audience_def portal_env_def sample_env_def portal_claims_def
      assert_token_usable_def Let_def find_subject_def sub_text_def sample_user_def show_int_1 empty_db_def default_settings_def)

lemma portal_codes_is:
  "portal_codes = [(code_key ''c0de'', (Some (JObj (code_payload portal_env 0 portal_claims ''j'' ''lims'' ''https://lims/cb'' ''0123456789abcdef'' None)),
     seconds 60))]"
  by (simp add: portal_codes_def authorize_first_party_client_def portal_user)
     (simp add: portal_env_def require_lims_sso_config_def default_settings_def claim_in_or_empty_def portal_claims_def kv_codes_def)

lemma portal_redeems:
  "\<exists>t. redeem_first_party_authorization_code kv_codes portal_env 0 ''k'' ''authorization_code'' ''c0de'' ''https://lims/cb'' (Some ''lims'') (Some ''s'') None
     portal_codes = ([], Inr t)"
  unfolding portal_codes_is
  by (simp add: redeem_first_party_authorization_code_def verify_lims_client_def require_lims_sso_config_def compare_digest_def kv_codes_def
      unfit_def exp_before_def code_payload_def claim_in_or_empty_def claim_or_list_def portal_env_def portal_claims_def default_settings_def
      whole_seconds_def seconds_def proceed_def)

lemma portal_reached: "(code_step kv_codes kv_redis portal_env UNIV)\<^sup>*\<^sup>* [] portal_codes"
  unfolding portal_codes_def by (intro r_into_rtranclp code_step.authorize) simp

theorem code_yields_its_user_witness:
  "\<exists>t user. snd (redeem_first_party_authorization_code kv_codes portal_env 0 ''k'' ''authorization_code'' ''c0de'' ''https://lims/cb'' (Some ''lims'')
        (Some ''s'') None portal_codes) = Inr t
     \<and> claim_in_or_empty ''manage_all_orgs'' user ''permissions'' = Inr True
     \<and> ct_access_token t = create_access_token portal_env 0 ''k'' (carried (code_payload portal_env 0 user ''j'' ''lims'' ''https://lims/cb'' [] None)) None"
proof -
  obtain t where t: "redeem_first_party_authorization_code kv_codes portal_env 0 ''k'' ''authorization_code'' ''c0de'' ''https://lims/cb'' (Some ''lims'')
      (Some ''s'') None portal_codes = ([], Inr t)" using portal_redeems by blast
  show ?thesis using code_yields_its_user [OF codes.code_store_axioms map_of.simps(1) portal_reached t] t by (auto simp: carried_payload)
qed

theorem code_redeemed_once_witness:
  "\<exists>e. snd (redeem_first_party_authorization_code kv_codes portal_env 1 ''k2'' ''authorization_code'' ''c0de'' ''https://lims/cb'' (Some ''lims'')
      (Some ''s'') None []) = Inl e"
proof -
  obtain t where t: "redeem_first_party_authorization_code kv_codes portal_env 0 ''k'' ''authorization_code'' ''c0de'' ''https://lims/cb'' (Some ''lims'')
      (Some ''s'') None portal_codes = ([], Inr t)" using portal_redeems by blast
  show ?thesis
    by (rule code_redeemed_once [OF codes.code_store_axioms t, where R = kv_redis]) simp
qed

end
