(* ===== verification/Invitation_Routes.thy ===== *)
theory Invitation_Routes
  imports Route_Support
begin

text \<open>
  \<open>app/api/routes_org_invitations.py\<close>: the public routes an invited person uses. Every request is
  first counted against its client's address; an error of the invitation service is audited,
  which also commits, and becomes an HTTP answer.
\<close>

definition invitation_throttle :: "'r redis \<Rightarrow> env \<Rightarrow> time \<Rightarrow> string option \<Rightarrow> 'r sys \<Rightarrow> 'r sys \<times> exn option" where
  "invitation_throttle R E now client s =
     (let key = take 128 (case client of None \<Rightarrow> ''unknown'' | Some c \<Rightarrow> c);
          (l, res) = record_attempt R (cfg E) now (''org-invite:fail:'' @ key) (''org-invite:lock:'' @ key) 900 30 900 (Some 900) (Some 20) (s_lim s)
      in (s\<lparr>s_lim := l\<rparr>,
          if res_locked res then Some (HTTPException 429 ''Too many invitation attempts; try again later'') else None))"

definition denied_call :: "env \<Rightarrow> time \<Rightarrow> int option \<Rightarrow> db \<times> (exn + 'a) \<Rightarrow> db \<times> (exn + 'a)" where
  "denied_call E now actor p =
     (case p of
        (s, Inl (OrganizationInvitationError code status)) \<Rightarrow>
          (log_event E now ((audit ''organization_invitation_denied'')
             \<lparr>a_actor := actor, a_rtype := Some ''organization_invitation'', a_meta := JObj [(''reason'', JStr code)]\<rparr>) s,
           Inl (HTTPDetail status (JObj [(''code'', JStr code)])))
      | _ \<Rightarrow> p)"

definition throttled ::
  "'r redis \<Rightarrow> env \<Rightarrow> time \<Rightarrow> string option \<Rightarrow> ('r sys \<Rightarrow> db \<times> (exn + 'a)) \<Rightarrow> 'r sys \<Rightarrow> 'r sys \<times> (exn + 'a)" where
  "throttled R E now client call s =
     (case invitation_throttle R E now client s of
        (s1, Some e) \<Rightarrow> (s1, Inl e)
      | (s1, None) \<Rightarrow> let (d, v) = call s1 in (s1\<lparr>s_db := d\<rparr>, v))"

definition preview_route ::
  "'r redis \<Rightarrow> env \<Rightarrow> time \<Rightarrow> string option \<Rightarrow> string \<Rightarrow> 'r sys \<Rightarrow> 'r sys \<times> (exn + invitation_view option \<times> bool \<times> bool)" where
  "preview_route R E now client token =
     throttled R E now client (\<lambda>s. denied_call E now None (preview_invitation E now token (s_db s)))"

definition invitation_mfa_setup ::
  "'r redis \<Rightarrow> env \<Rightarrow> time \<Rightarrow> string option \<Rightarrow> string \<Rightarrow> string \<Rightarrow> 'r sys \<Rightarrow> 'r sys \<times> (exn + string \<times> string)" where
  "invitation_mfa_setup R E now client fresh_secret token =
     throttled R E now client (\<lambda>s. denied_call E now None (start_invitation_mfa E now fresh_secret token (s_db s)))"

definition accept_invitation ::
  "'r redis \<Rightarrow> env \<Rightarrow> time \<Rightarrow> string option \<Rightarrow> string \<Rightarrow> string \<Rightarrow> string option \<Rightarrow> 'r sys \<Rightarrow> 'r sys \<times> (exn + accepted)" where
  "accept_invitation R E now client token password totp_code =
     throttled R E now client (\<lambda>s. denied_call E now None (accept_new_user E now token password totp_code (s_db s)))"

definition accept_existing_invitation ::
  "'r redis \<Rightarrow> env \<Rightarrow> time \<Rightarrow> string option \<Rightarrow> string \<Rightarrow> string \<Rightarrow> string option \<Rightarrow> 'r sys \<Rightarrow> 'r sys \<times> (exn + accepted)" where
  "accept_existing_invitation R E now client access_token token totp_code s =
     (case get_current_user R E now access_token (lim_redis (s_lim s)) (s_db s) of
        Inl e \<Rightarrow> (s, Inl e)
      | Inr user \<Rightarrow>
          throttled R E now client
            (\<lambda>s. or_raise (s_db s) (int_sub user) (\<lambda>uid.
               case find_user (s_db s) uid of
                 None \<Rightarrow> refuse (s_db s) 401 ''Invalid user''
               | Some account \<Rightarrow> denied_call E now (Some (u_id account)) (accept_existing_user E now token account totp_code (s_db s)))) s)"

text \<open>
  Property. An invited person's mistakes are bounded and recorded. A client that is locked out
  changes no table and learns nothing about the invitation; whatever error the invitation
  service raises is recorded as the last event of the audit log.
\<close>

theorem invitation_attempts_guarded:
  assumes "accept_new_user E now token password code (s_db s) = (d, Inl (OrganizationInvitationError k st))"
  shows "\<exists>l a. a_type a = ''organization_invitation_denied'' \<and>
     accept_invitation R E now client token password code s =
       (if snd (invitation_throttle R E now client s) \<noteq> None
        then (s\<lparr>s_lim := l\<rparr>, Inl (HTTPException 429 ''Too many invitation attempts; try again later''))
        else (s\<lparr>s_lim := l, s_db := log_event E now a d\<rparr>, Inl (HTTPDetail st (JObj [(''code'', JStr k)]))))"
proof -
  have "\<exists>l x. invitation_throttle R E now client s = (s\<lparr>s_lim := l\<rparr>, x)
      \<and> (x = None \<or> x = Some (HTTPException 429 ''Too many invitation attempts; try again later''))"
    unfolding invitation_throttle_def Let_def split_beta by (intro exI conjI, rule refl, simp)
  then obtain l x where "invitation_throttle R E now client s = (s\<lparr>s_lim := l\<rparr>, x)"
    "x = None \<or> x = Some (HTTPException 429 ''Too many invitation attempts; try again later'')" by blast
  note t = this
  let ?a = "(audit ''organization_invitation_denied'')\<lparr>a_actor := None, a_rtype := Some ''organization_invitation'',
     a_meta := JObj [(''reason'', JStr k)]\<rparr>"
  have "a_type ?a = ''organization_invitation_denied''" by (simp add: audit_def)
  moreover have "accept_invitation R E now client token password code s =
       (if x \<noteq> None then (s\<lparr>s_lim := l\<rparr>, Inl (HTTPException 429 ''Too many invitation attempts; try again later''))
        else (s\<lparr>s_lim := l, s_db := log_event E now ?a d\<rparr>, Inl (HTTPDetail st (JObj [(''code'', JStr k)]))))"
    using t(2) assms by (elim disjE) (simp_all add: accept_invitation_def throttled_def t(1) denied_call_def)
  ultimately show ?thesis unfolding t(1) snd_conv by blast
qed

end
