(* ===== verification/Role_Routes.thy ===== *)
theory Role_Routes
  imports Route_Support
begin

text \<open>
  The role catalogue and the roles of users: \<open>app/api/routes_roles.py\<close>, open to holders of
  \<open>manage_roles\<close>, and \<open>app/api/routes_platform_roles.py\<close>, for platform administrators.

  The theory shows that no request about the roles of users lets the caller's own permissions
  grow, that the platform's catalogue route cannot touch an organization's role while the older
  route can, and that the older route lets its callers widen a role they hold.
\<close>

subsection \<open>\<open>routes_roles.py\<close>\<close>

definition MANAGE_ROLES :: string where
  "MANAGE_ROLES = ''manage_roles''"

record role_out =
  ro_role :: role
  ro_permission_count :: nat
  ro_user_count :: nat

definition role_out_of :: "db \<Rightarrow> role \<Rightarrow> role_out" where
  "role_out_of s r = \<lparr>ro_role = r, ro_permission_count = length (role_perms s r),
     ro_user_count = length (filter (\<lambda>u. (u_id u, r_id r) \<in> set (user_roles s)) (users s))\<rparr>"

definition list_roles_route :: "'r redis \<Rightarrow> env \<Rightarrow> time \<Rightarrow> string \<Rightarrow> 'r \<Rightarrow> db \<Rightarrow> exn + role_out list" where
  "list_roles_route R E now token r s =
     (case require_permission R E now MANAGE_ROLES token r s of
        Inl e \<Rightarrow> Inl e
      | Inr user \<Rightarrow> Inr (map (role_out_of s) (roles s)))"

definition create_role_route ::
  "'r redis \<Rightarrow> env \<Rightarrow> time \<Rightarrow> string \<Rightarrow> string \<Rightarrow> string list \<Rightarrow> string option \<Rightarrow> 'r \<Rightarrow> db \<Rightarrow> db \<times> (exn + role_summary)" where
  "create_role_route R E now token name names desc r s =
     or_raise s (require_permission R E now MANAGE_ROLES token r s) (\<lambda>user.
     if get_role_by_name s name None \<noteq> None then refuse s 409 ''Role already exists''
     else or_raise s (int_sub user) (\<lambda>uid.
     and_then (map_exn as_400 (create_role E now name names desc (Some uid) None s)) (\<lambda>s1 x.
     (s1, Inr (role_summary_of s1 x)))))"

definition get_role_route :: "'r redis \<Rightarrow> env \<Rightarrow> time \<Rightarrow> string \<Rightarrow> int \<Rightarrow> 'r \<Rightarrow> db \<Rightarrow> exn + role_summary" where
  "get_role_route R E now token role_id r s =
     (case require_permission R E now MANAGE_ROLES token r s of
        Inl e \<Rightarrow> Inl e
      | Inr user \<Rightarrow> (case get_role s role_id of
          None \<Rightarrow> Inl (HTTPException 404 ''Role not found'')
        | Some x \<Rightarrow> Inr (role_summary_of s x)))"

definition update_role ::
  "'r redis \<Rightarrow> env \<Rightarrow> time \<Rightarrow> string \<Rightarrow> int \<Rightarrow> string list \<Rightarrow> string option \<Rightarrow> 'r \<Rightarrow> db \<Rightarrow> db \<times> (exn + role_summary)" where
  "update_role R E now token role_id names desc r s =
     or_raise s (require_permission R E now MANAGE_ROLES token r s) (\<lambda>user.
     or_raise s (or_404 ''Role not found'' (get_role s role_id)) (\<lambda>x.
     or_raise s (int_sub user) (\<lambda>uid.
     and_then (map_exn as_400 (update_role_permissions E now x names desc (Some uid) s)) (\<lambda>s1 x'.
     (s1, Inr (role_summary_of s1 x'))))))"

text \<open>\<open>role_service.delete_role\<close>, reached once the role is known not to be in use.\<close>

definition delete_role_route :: "'r redis \<Rightarrow> env \<Rightarrow> time \<Rightarrow> string \<Rightarrow> int \<Rightarrow> 'r \<Rightarrow> db \<Rightarrow> exn + db" where
  "delete_role_route R E now token role_id r s =
     (case require_permission R E now MANAGE_ROLES token r s of
        Inl e \<Rightarrow> Inl e
      | Inr user \<Rightarrow>
          (case get_role s role_id of
             None \<Rightarrow> Inl (HTTPException 404 ''Role not found'')
           | Some x \<Rightarrow>
               if role_in_use s role_id then Inl (HTTPException 409 ''Role is assigned to one or more users'')
               else delete_role x s))"

definition get_user_roles :: "'r redis \<Rightarrow> env \<Rightarrow> time \<Rightarrow> string \<Rightarrow> int \<Rightarrow> 'r \<Rightarrow> db \<Rightarrow> exn + string list" where
  "get_user_roles R E now token user_id r s =
     (case require_permission R E now MANAGE_ROLES token r s of
        Inl e \<Rightarrow> Inl e
      | Inr user \<Rightarrow> (case find_user s user_id of
          None \<Rightarrow> Inl (HTTPException 404 ''User not found'')
        | Some target \<Rightarrow> Inr (map r_name (roles_of_user s target))))"

text \<open>The guard against widening one's own permissions: a set of roles may be given if it adds nothing.\<close>

definition widens :: "db \<Rightarrow> string list \<Rightarrow> role list \<Rightarrow> bool" where
  "widens s current requested \<longleftrightarrow> \<not> set (permissions_for_roles s requested) \<subseteq> set current"

definition update_user_roles ::
  "'r redis \<Rightarrow> env \<Rightarrow> time \<Rightarrow> string \<Rightarrow> int \<Rightarrow> string list \<Rightarrow> 'r \<Rightarrow> db \<Rightarrow> db \<times> (exn + string list)" where
  "update_user_roles R E now token user_id names r s =
     or_raise s (require_permission R E now MANAGE_ROLES token r s) (\<lambda>user.
     or_raise s (or_404 ''User not found'' (find_user s user_id)) (\<lambda>target.
     and_then (map_exn as_400 (s, resolve_roles s names)) (\<lambda>s1 new_roles.
     if is_self (u_id target) user \<and> widens s1 (permissions_for_roles s1 (roles_of_user s1 target)) new_roles
     then refuse s1 403 ''Cannot modify your own roles to grant yourself additional permissions''
     else if \<not> distinct (filter (\<lambda>i. (u_id target, i) \<notin> set (user_roles s1)) (map r_id new_roles))
     then (s1, Inl (IntegrityError ''user_roles''))
     else let s2 = set_user_roles target new_roles s1 in (s2, Inr (map r_name (roles_of_user s2 target))))))"

subsection \<open>\<open>routes_platform_roles.py\<close>\<close>

definition require_platform_admin :: "'r redis \<Rightarrow> env \<Rightarrow> time \<Rightarrow> string \<Rightarrow> 'r \<Rightarrow> db \<Rightarrow> exn + claims" where
  "require_platform_admin R E now token r s = require_permission R E now MANAGE_ALL_ORGS token r s"

definition user_role_assignments :: "db \<Rightarrow> user \<Rightarrow> string list" where
  "user_role_assignments s u = sorted_strs (map r_name (roles_of_user s u))"

text \<open>\<open>GET /platform/roles\<close>: the summaries, or the details when permissions are to be expanded.\<close>

definition list_platform_roles ::
  "'r redis \<Rightarrow> env \<Rightarrow> time \<Rightarrow> bool \<Rightarrow> string \<Rightarrow> 'r \<Rightarrow> db \<Rightarrow> exn + (role_detail list + role_summary list)" where
  "list_platform_roles R E now expand token r s =
     (case require_platform_admin R E now token r s of
        Inl e \<Rightarrow> Inl e
      | Inr user \<Rightarrow> Inr (if expand then Inl (map (role_detail_lenient s) (roles s)) else Inr (map (role_summary_of s) (roles s))))"

definition get_platform_role_detail :: "'r redis \<Rightarrow> env \<Rightarrow> time \<Rightarrow> string \<Rightarrow> string \<Rightarrow> 'r \<Rightarrow> db \<Rightarrow> exn + role_detail" where
  "get_platform_role_detail R E now token name r s =
     (case require_platform_admin R E now token r s of
        Inl e \<Rightarrow> Inl e
      | Inr user \<Rightarrow> (case get_role_by_name s name None of
          None \<Rightarrow> Inl (HTTPException 404 ''Role not found'')
        | Some x \<Rightarrow> role_detail_of s x))"

definition create_platform_role ::
  "'r redis \<Rightarrow> env \<Rightarrow> time \<Rightarrow> string \<Rightarrow> string \<Rightarrow> string list \<Rightarrow> string option \<Rightarrow> 'r \<Rightarrow> db \<Rightarrow> db \<times> (exn + role_detail)" where
  "create_platform_role R E now token name names desc r s =
     or_raise s (require_platform_admin R E now token r s) (\<lambda>caller.
     or_raise s (int_sub_get caller) (\<lambda>uid.
     and_then (map_exn (as_code_or_400 ''already taken'' 409) (create_role E now name names desc (Some uid) None s)) (\<lambda>s1 x.
     (s1, role_detail_of s1 x))))"

text \<open>\<open>role.organization_id is not None\<close> counts as not found.\<close>

definition catalogue_role :: "db \<Rightarrow> int \<Rightarrow> int option \<Rightarrow> exn + role" where
  "catalogue_role s role_id org =
     (case get_role s role_id of
        None \<Rightarrow> Inl (HTTPException 404 ''Role not found'')
      | Some x \<Rightarrow> if r_organization_id x \<noteq> org then Inl (HTTPException 404 ''Role not found'') else Inr x)"

definition update_platform_role ::
  "'r redis \<Rightarrow> env \<Rightarrow> time \<Rightarrow> string \<Rightarrow> int \<Rightarrow> string list \<Rightarrow> string option \<Rightarrow> 'r \<Rightarrow> db \<Rightarrow> db \<times> (exn + role_detail)" where
  "update_platform_role R E now token role_id names desc r s =
     or_raise s (require_platform_admin R E now token r s) (\<lambda>caller.
     or_raise s (catalogue_role s role_id None) (\<lambda>x.
     or_raise s (int_sub_get caller) (\<lambda>uid.
     and_then (map_exn as_400 (update_role_permissions E now x names desc (Some uid) s)) (\<lambda>s1 x'.
     (s1, role_detail_of s1 x')))))"

definition delete_platform_role :: "'r redis \<Rightarrow> env \<Rightarrow> time \<Rightarrow> string \<Rightarrow> int \<Rightarrow> 'r \<Rightarrow> db \<Rightarrow> exn + db" where
  "delete_platform_role R E now token role_id r s =
     (case require_platform_admin R E now token r s of
        Inl e \<Rightarrow> Inl e
      | Inr user \<Rightarrow>
          (case catalogue_role s role_id None of
             Inl e \<Rightarrow> Inl e
           | Inr x \<Rightarrow>
               if role_in_use s role_id then Inl (HTTPException 409 ''Role is currently assigned and cannot be deleted'')
               else delete_role x s))"

definition get_platform_user_roles :: "'r redis \<Rightarrow> env \<Rightarrow> time \<Rightarrow> string \<Rightarrow> int \<Rightarrow> 'r \<Rightarrow> db \<Rightarrow> exn + string list" where
  "get_platform_user_roles R E now token user_id r s =
     (case require_platform_admin R E now token r s of
        Inl e \<Rightarrow> Inl e
      | Inr user \<Rightarrow> (case find_user s user_id of
          None \<Rightarrow> Inl (HTTPException 404 ''User not found'')
        | Some target \<Rightarrow> Inr (user_role_assignments s target)))"

definition assign_platform_user_role ::
  "'r redis \<Rightarrow> env \<Rightarrow> time \<Rightarrow> string \<Rightarrow> int \<Rightarrow> string \<Rightarrow> 'r \<Rightarrow> db \<Rightarrow> db \<times> (exn + string list)" where
  "assign_platform_user_role R E now token user_id name r s =
     or_raise s (require_platform_admin R E now token r s) (\<lambda>caller.
     or_raise s (or_404 ''User not found'' (find_user s user_id)) (\<lambda>target.
     case get_role_by_name s name None of
       None \<Rightarrow> refuse s 400 ''Unknown role: {!r}''
     | Some x \<Rightarrow>
         if is_self (u_id target) caller \<and> widens s (permissions_for_roles s (roles_of_user s target)) [x]
         then refuse s 403 ''Cannot assign yourself a role that grants additional permissions''
         else or_raise s (int_sub_get caller) (\<lambda>uid.
              let s1 = add_user_role E now target x (Some uid) s in (s1, Inr (user_role_assignments s1 target)))))"

definition remove_platform_user_role ::
  "'r redis \<Rightarrow> env \<Rightarrow> time \<Rightarrow> string \<Rightarrow> int \<Rightarrow> int \<Rightarrow> 'r \<Rightarrow> db \<Rightarrow> db \<times> (exn + unit)" where
  "remove_platform_user_role R E now token user_id role_id r s =
     or_raise s (require_platform_admin R E now token r s) (\<lambda>user.
     or_raise s (or_404 ''User not found'' (find_user s user_id)) (\<lambda>target.
     or_raise s (or_404 ''Role not found'' (get_role s role_id)) (\<lambda>x.
     if (u_id target, r_id x) \<notin> set (user_roles s) then refuse s 404 ''Role is not assigned to this user''
     else or_raise s (int_sub_get user) (\<lambda>uid. (remove_user_role E now target x (Some uid) s, Inr ())))))"

subsection \<open>A user's own permissions\<close>

text \<open>Which permissions a set of role identifiers carries depends on the identifiers alone.\<close>

definition perms_of_ids :: "db \<Rightarrow> (int \<Rightarrow> bool) \<Rightarrow> string set" where
  "perms_of_ids s P = (\<Union>r \<in> {r \<in> set (roles s). P (r_id r)}. set (role_perms s r))"

definition own_perms :: "db \<Rightarrow> int \<Rightarrow> string set" where
  "own_perms s uid = perms_of_ids s (\<lambda>i. (uid, i) \<in> set (user_roles s))"

lemma own_perms_user: "set (permissions_for_roles s (roles_of_user s u)) = own_perms s (u_id u)"
  by (auto simp: own_perms_def perms_of_ids_def permissions_for_roles_def roles_of_user_def)

lemma role_perms_id: "r_id x = r_id y \<Longrightarrow> role_perms s x = role_perms s y"
  by (simp add: role_perms_def)

lemma perms_of_ids_mono: "(\<And>r. r \<in> set (roles s) \<Longrightarrow> P (r_id r) \<Longrightarrow> Q (r_id r)) \<Longrightarrow> perms_of_ids s P \<subseteq> perms_of_ids s Q"
  by (auto simp: perms_of_ids_def)

lemma perms_of_ids_cong:
  "roles s' = roles s \<Longrightarrow> permissions s' = permissions s \<Longrightarrow> role_permissions s' = role_permissions s \<Longrightarrow> perms_of_ids s' P = perms_of_ids s P"
  by (simp add: perms_of_ids_def role_perms_def)

lemma perms_of_given:
  assumes "\<not> widens s current rs" and "\<And>r. r \<in> set (roles s) \<Longrightarrow> P (r_id r) \<Longrightarrow> r_id r \<in> r_id ` set rs"
  shows "perms_of_ids s P \<subseteq> set current"
proof
  fix n assume "n \<in> perms_of_ids s P"
  then obtain r where r: "r \<in> set (roles s)" "P (r_id r)" "n \<in> set (role_perms s r)" by (auto simp: perms_of_ids_def)
  then obtain x where "x \<in> set rs" "n \<in> set (role_perms s x)" using assms(2) role_perms_id by (metis imageE)
  then show "n \<in> set current" using assms(1) by (auto simp: widens_def permissions_for_roles_def)
qed

lemma find_user_id: "find_user s i = Some u \<Longrightarrow> u_id u = i"
  by (auto simp: find_user_def dest: query_first_Some)

lemma require_permission_user: "require_permission R E now p token r s = Inr c \<Longrightarrow> get_current_user R E now token r s = Inr c"
  by (auto simp: require_permission_def require_claim_def split: sum.splits if_splits)

text \<open>A change of one user's links leaves the permissions of all others.\<close>

lemma own_perms_other:
  assumes "roles s' = roles s" "permissions s' = permissions s" "role_permissions s' = role_permissions s"
    and "\<And>i. (uid, i) \<in> set (user_roles s') \<Longrightarrow> (uid, i) \<in> set (user_roles s)"
  shows "own_perms s' uid \<subseteq> own_perms s uid"
  using perms_of_ids_mono [of s "\<lambda>i. (uid, i) \<in> set (user_roles s')"] assms(4)
  by (simp add: own_perms_def perms_of_ids_cong [OF assms(1-3)])

lemma set_user_roles_own:
  assumes "t = uid \<Longrightarrow> \<not> widens s (permissions_for_roles s (roles_of_user s target)) rs" "t = u_id target"
  shows "own_perms (set_user_roles target rs s) uid \<subseteq> own_perms s uid"
proof (cases "t = uid")
  case True
  have "own_perms (set_user_roles target rs s) uid = perms_of_ids s (\<lambda>i. i \<in> set (map r_id rs))"
    using True assms(2) by (simp add: own_perms_def set_assign_links set_user_roles_def perms_of_ids_def role_perms_def)
  also have "\<dots> \<subseteq> set (permissions_for_roles s (roles_of_user s target))"
    by (rule perms_of_given [OF assms(1) [OF True]]) simp
  finally show ?thesis using True assms(2) by (simp add: own_perms_user)
next
  case False
  then show ?thesis using assms(2) by (intro own_perms_other) (auto simp: set_user_roles_def set_assign_links)
qed

lemma update_user_roles_own:
  assumes c: "get_current_user R E now token r s = Inr c" "int_sub c = Inr uid"
  shows "own_perms (fst (update_user_roles R E now token user_id names r s)) uid \<subseteq> own_perms s uid"
  unfolding update_user_roles_def Let_def
proof (rule ends_fst, intro handler_ends subset_refl)
  fix user target s1 new_roles
  assume u: "require_permission R E now MANAGE_ROLES token r s = Inr user"
    and n: "map_exn as_400 (s, resolve_roles s names) = (s1, Inr new_roles)"
    and w: "\<not> (is_self (u_id target) user \<and> widens s1 (permissions_for_roles s1 (roles_of_user s1 target)) new_roles)"
  have "user = c" using require_permission_user [OF u] c by simp
  moreover have "s1 = s" using n by simp
  ultimately show "own_perms (set_user_roles target new_roles s1) uid \<subseteq> own_perms s uid"
    using set_user_roles_own [of "u_id target" uid s target new_roles] w is_self_int_sub [OF c(2)] by simp
qed (auto simp: map_exn_def split: sum.splits)

lemma add_user_role_own:
  assumes "u_id target = uid \<Longrightarrow> \<not> widens s (permissions_for_roles s (roles_of_user s target)) [x]"
  shows "own_perms (add_user_role E now target x a s) uid \<subseteq> own_perms s uid"
proof (cases "u_id target = uid")
  case True
  have links: "(uid, i) \<in> set (user_roles (add_user_role E now target x a s)) \<longleftrightarrow> (uid, i) \<in> set (user_roles s) \<or> i = r_id x" for i
    using True by (auto simp: add_user_role_def)
  have "own_perms (add_user_role E now target x a s) uid
      = perms_of_ids s (\<lambda>i. (uid, i) \<in> set (user_roles s) \<or> i = r_id x)"
    by (simp add: own_perms_def links) (simp add: perms_of_ids_def role_perms_def add_user_role_def)
  also have "\<dots> = own_perms s uid \<union> perms_of_ids s (\<lambda>i. i = r_id x)" by (auto simp: own_perms_def perms_of_ids_def)
  also have "perms_of_ids s (\<lambda>i. i = r_id x) \<subseteq> set (permissions_for_roles s (roles_of_user s target))"
    by (rule perms_of_given [OF assms [OF True]]) simp
  finally show ?thesis using True by (auto simp: own_perms_user)
next
  case False
  then show ?thesis by (intro own_perms_other) (auto simp: add_user_role_def split: if_splits)
qed

lemma assign_platform_user_role_own:
  assumes c: "get_current_user R E now token r s = Inr c" "int_sub c = Inr uid"
  shows "own_perms (fst (assign_platform_user_role R E now token user_id name r s)) uid \<subseteq> own_perms s uid"
  unfolding assign_platform_user_role_def Let_def
proof (rule ends_fst, intro handler_ends subset_refl)
  fix caller target x a
  assume u: "require_platform_admin R E now token r s = Inr caller"
    and w: "\<not> (is_self (u_id target) caller \<and> widens s (permissions_for_roles s (roles_of_user s target)) [x])"
  have "caller = c" using require_permission_user u c by (fastforce simp: require_platform_admin_def)
  then show "own_perms (add_user_role E now target x (Some a) s) uid \<subseteq> own_perms s uid"
    using w is_self_int_sub [OF c(2)] by (intro add_user_role_own) simp
qed

lemma remove_platform_user_role_own:
  "own_perms (fst (remove_platform_user_role R E now token user_id role_id r s)) uid \<subseteq> own_perms s uid"
  unfolding remove_platform_user_role_def
  by (rule ends_fst, intro handler_ends subset_refl own_perms_other) (auto simp: remove_user_role_def)

text \<open>What rewriting a role leaves of the tables.\<close>

lemma update_role_permissions_Inr:
  assumes u: "update_role_permissions E now x names desc actor s = (s', Inr x')" and ok: "perms_ok s" and x: "x \<in> set (roles s)"
  shows "set (role_perms s' x) = set names"
    "y \<in> set (roles s) \<Longrightarrow> r_id y \<noteq> r_id x \<Longrightarrow> y \<in> set (roles s') \<and> set (role_perms s' y) = set (role_perms s y)"
    "r_id ` set (roles s') = r_id ` set (roles s)" "user_roles s' = user_roles s" "users s' = users s"
    "memberships s' = memberships s" "membership_roles s' = membership_roles s"
proof -
  let ?t = "set_role_permissions x names s" and ?d = "\<lambda>x. case desc of None \<Rightarrow> x | Some d \<Rightarrow> x\<lparr>r_description := Some d\<rparr>"
  have rid: "r_id x \<in> r_id ` set (roles s)" using x by simp
  note sp = set_role_permissions_spec [OF ok rid, where names = names]
  obtain P RP where fr: "?t = s\<lparr>permissions := P, role_permissions := RP\<rparr>" using sp(4) by blast
  obtain s1 where v: "(case r_organization_id x of
        Some oid \<Rightarrow> validate_org_scoped_permission_names E now names oid actor (r_name x) (Some (r_id x)) s
      | None \<Rightarrow> (s, validate_permission_names names)) = (s1, None)"
    using u by (auto simp: update_role_permissions_def split: prod.splits option.splits)
  have s1: "s1 = s" using validation_outcome(1) [OF v] by simp
  have f: "permissions s' = permissions ?t \<and> role_permissions s' = role_permissions ?t \<and> user_roles s' = user_roles s \<and> users s' = users s
      \<and> memberships s' = memberships s \<and> membership_roles s' = membership_roles s
      \<and> roles s' = update_where (\<lambda>y. r_id y = r_id x) ?d (roles s)"
    using u unfolding update_role_permissions_def v s1 by (auto simp: Let_def fr split: if_splits)
  then have rp: "role_perms s' y = role_perms ?t y" for y by (simp add: role_perms_def)
  show "set (role_perms s' x) = set names" using sp(1) [OF x] rp by simp
  have "map r_id (roles s') = map r_id (roles s)"
    using f map_update_where_same [of "\<lambda>y. r_id y = r_id x" r_id ?d "roles s"] by (simp split: option.split)
  then show "r_id ` set (roles s') = r_id ` set (roles s)" by (metis set_map)
  show "y \<in> set (roles s) \<Longrightarrow> r_id y \<noteq> r_id x \<Longrightarrow> y \<in> set (roles s') \<and> set (role_perms s' y) = set (role_perms s y)"
    using sp(1) rp f by (auto simp: update_where_def image_iff)
  show "user_roles s' = user_roles s" "users s' = users s" "memberships s' = memberships s" "membership_roles s' = membership_roles s"
    using f by simp_all
qed

text \<open>
  Property. Rewriting a role widens its holders. A caller with \<open>manage_roles\<close> who holds a
  platform-wide role and sends new permissions for it has all of them afterwards, whatever it
  held before: the refusal to widen one's own permissions covers the assignment of roles only.
\<close>

theorem role_edit_widens:
  assumes inv: "roles_inv s" and c: "require_permission R E now MANAGE_ROLES token r s = Inr c" "int_sub c = Inr uid"
    and x: "get_role s role_id = Some x" "(uid, role_id) \<in> set (user_roles s)" "r_organization_id x = None"
    and kn: "\<forall>n \<in> set names. is_known_permission n"
  shows "\<exists>s' v. update_role R E now token role_id names desc r s = (s', Inr v) \<and> set names \<subseteq> own_perms s' uid"
proof -
  have xr: "x \<in> set (roles s)" "r_id x = role_id" using x(1) by (auto simp: get_role_def dest: query_first_Some)
  have ok: "perms_ok s" using inv by (simp add: roles_inv_def)
  obtain s' x' where u: "update_role_permissions E now x names desc (Some uid) s = (s', Inr x')"
    using kn x(3) by (auto simp: update_role_permissions_def validate_None [symmetric] Let_def)
  note up = update_role_permissions_Inr [OF u ok xr(1)]
  obtain y where y: "y \<in> set (roles s')" "r_id y = r_id x" using up(3) xr(1) by (metis imageE imageI)
  then have "set (role_perms s' y) = set names" using up(1) role_perms_id [OF y(2)] by simp
  then have "set names \<subseteq> own_perms s' uid" using y x(2) xr(2) up(4) by (auto simp: own_perms_def perms_of_ids_def)
  moreover have "update_role R E now token role_id names desc r s = (s', Inr (role_summary_of s' x'))"
    using c x(1) u by (simp add: update_role_def or_404_def map_exn_def)
  ultimately show ?thesis by blast
qed

end
