(* ===== verification/Org_Role_Routes.thy ===== *)
theory Org_Role_Routes
  imports Role_Routes
begin

text \<open>
  \<open>app/api/routes_organization_roles.py\<close>: the role catalogue of an organization and the roles of
  its members, for the organization's managers and platform administrators. \<open>target.user\<close> is
  the row its foreign key names.

  The theory shows that these routes never touch another organization's roles or members, that
  a manager cannot hand out platform-wide permissions, and that nobody widens their own
  permissions by an assignment.
\<close>

definition MANAGE_ORG :: string where
  "MANAGE_ORG = ''manage_org''"

definition require_org_manager :: "'r redis \<Rightarrow> env \<Rightarrow> time \<Rightarrow> string \<Rightarrow> int \<Rightarrow> 'r \<Rightarrow> db \<Rightarrow> exn + claims \<times> acting_membership" where
  "require_org_manager R E now token org r s =
     (case get_current_user R E now token r s of
        Inl e \<Rightarrow> Inl e
      | Inr user \<Rightarrow>
          (case get_org_membership_or_platform_admin s org user of
             Inl e \<Rightarrow> Inl e
           | Inr m \<Rightarrow> if MANAGE_ORG \<notin> set (acting_permissions s m) then Inl (HTTPException 403 ''Forbidden'') else Inr (user, m)))"

definition get_target_membership :: "db \<Rightarrow> int \<Rightarrow> int \<Rightarrow> exn + org_membership" where
  "get_target_membership s org user_id = or_404 ''User is not a member of this organization'' (get_membership s org user_id)"

subsection \<open>What the routes show\<close>

record member_role_out =
  mr_organization_id :: int
  mr_user_id :: int
  mr_email :: "string option"
  mr_status :: string
  mr_roles :: "role_detail list"

fun role_details :: "db \<Rightarrow> role list \<Rightarrow> exn + role_detail list" where
  "role_details s [] = Inr []"
| "role_details s (x # xs) =
     (case role_detail_of s x of
        Inl e \<Rightarrow> Inl e
      | Inr d \<Rightarrow> (case role_details s xs of Inl e \<Rightarrow> Inl e | Inr ds \<Rightarrow> Inr (d # ds)))"

definition member_email :: "db \<Rightarrow> org_membership \<Rightarrow> string option" where
  "member_email s m = map_option u_email (find_user s (m_user_id m))"

definition member_role_out_of :: "db \<Rightarrow> org_membership \<Rightarrow> int \<Rightarrow> exn + member_role_out" where
  "member_role_out_of s m org =
     (case role_details s (sort_key r_name (roles_of_membership s m)) of
        Inl e \<Rightarrow> Inl e
      | Inr ds \<Rightarrow> Inr \<lparr>mr_organization_id = org, mr_user_id = m_user_id m, mr_email = member_email s m, mr_status = m_status m, mr_roles = ds\<rparr>)"

definition list_organization_roles :: "'r redis \<Rightarrow> env \<Rightarrow> time \<Rightarrow> string \<Rightarrow> int \<Rightarrow> 'r \<Rightarrow> db \<Rightarrow> exn + role_summary list" where
  "list_organization_roles R E now token org r s =
     (case require_org_manager R E now token org r s of
        Inl e \<Rightarrow> Inl e
      | Inr m \<Rightarrow> Inr (map (role_summary_of s) (list_roles_for_scope s org)))"

definition list_organization_permissions :: "'r redis \<Rightarrow> env \<Rightarrow> time \<Rightarrow> string \<Rightarrow> int \<Rightarrow> 'r \<Rightarrow> db \<Rightarrow> exn + json list" where
  "list_organization_permissions R E now token org r s =
     (case require_org_manager R E now token org r s of
        Inl e \<Rightarrow> Inl e
      | Inr m \<Rightarrow> Inr (map as_dict (filter (\<lambda>p. pd_scope p \<in> {SCOPE_ORG, SCOPE_BOTH}) (filter_registry (\<lambda>x. x) None None None None None))))"

definition get_organization_member_roles :: "'r redis \<Rightarrow> env \<Rightarrow> time \<Rightarrow> string \<Rightarrow> int \<Rightarrow> int \<Rightarrow> 'r \<Rightarrow> db \<Rightarrow> exn + member_role_out" where
  "get_organization_member_roles R E now token org user_id r s =
     (case require_org_manager R E now token org r s of
        Inl e \<Rightarrow> Inl e
      | Inr m \<Rightarrow> (case get_target_membership s org user_id of Inl e \<Rightarrow> Inl e | Inr target \<Rightarrow> member_role_out_of s target org))"

record member_detail =
  md_user_id :: int
  md_email :: "string option"
  md_status :: string
  md_roles :: "string list"
  md_permissions :: "json list"

definition member_detail_of :: "db \<Rightarrow> bool \<Rightarrow> org_membership \<Rightarrow> member_detail" where
  "member_detail_of s expand m =
     (let names = sorted_strs (permissions_for_membership s m)
      in \<lparr>md_user_id = m_user_id m, md_email = member_email s m, md_status = m_status m,
          md_roles = sorted_strs (map r_name (roles_of_membership s m)),
          md_permissions = (if expand then permissions_out_known names else map JStr names)\<rparr>)"

definition list_organization_members :: "'r redis \<Rightarrow> env \<Rightarrow> time \<Rightarrow> bool \<Rightarrow> string \<Rightarrow> int \<Rightarrow> 'r \<Rightarrow> db \<Rightarrow> exn + member_detail list" where
  "list_organization_members R E now expand token org r s =
     (case require_org_manager R E now token org r s of
        Inl e \<Rightarrow> Inl e
      | Inr m \<Rightarrow> Inr (map (member_detail_of s expand) (list_members s org)))"

definition get_organization_member_effective_permissions ::
  "'r redis \<Rightarrow> env \<Rightarrow> time \<Rightarrow> string \<Rightarrow> int \<Rightarrow> int \<Rightarrow> 'r \<Rightarrow> db \<Rightarrow> exn + string list \<times> json list" where
  "get_organization_member_effective_permissions R E now token org user_id r s =
     (case require_org_manager R E now token org r s of
        Inl e \<Rightarrow> Inl e
      | Inr m \<Rightarrow>
          (case get_target_membership s org user_id of
             Inl e \<Rightarrow> Inl e
           | Inr target \<Rightarrow>
               let names = sorted_strs (permissions_for_membership s target)
               in case permissions_out_or_500 names of Inl e \<Rightarrow> Inl e | Inr ps \<Rightarrow> Inr (names, ps)))"

subsection \<open>The catalogue\<close>

definition create_organization_role ::
  "'r redis \<Rightarrow> env \<Rightarrow> time \<Rightarrow> string \<Rightarrow> int \<Rightarrow> string \<Rightarrow> string list \<Rightarrow> string option \<Rightarrow> 'r \<Rightarrow> db \<Rightarrow> db \<times> (exn + role_detail)" where
  "create_organization_role R E now token org name names desc r s =
     or_raise s (require_org_manager R E now token org r s) (\<lambda>(user, m).
     or_raise s (int_sub_get user) (\<lambda>uid.
     and_then (map_exn (as_code_or_400 ''already taken'' 409) (create_role E now name names desc (Some uid) (Some org) s)) (\<lambda>s1 x.
     (s1, role_detail_of s1 x))))"

definition update_organization_role ::
  "'r redis \<Rightarrow> env \<Rightarrow> time \<Rightarrow> string \<Rightarrow> int \<Rightarrow> int \<Rightarrow> string list \<Rightarrow> string option \<Rightarrow> 'r \<Rightarrow> db \<Rightarrow> db \<times> (exn + role_detail)" where
  "update_organization_role R E now token org role_id names desc r s =
     or_raise s (require_org_manager R E now token org r s) (\<lambda>(user, m).
     or_raise s (catalogue_role s role_id (Some org)) (\<lambda>x.
     or_raise s (int_sub_get user) (\<lambda>uid.
     and_then (map_exn as_400 (update_role_permissions E now x names desc (Some uid) s)) (\<lambda>s1 x'.
     (s1, role_detail_of s1 x')))))"

definition delete_organization_role :: "'r redis \<Rightarrow> env \<Rightarrow> time \<Rightarrow> string \<Rightarrow> int \<Rightarrow> int \<Rightarrow> 'r \<Rightarrow> db \<Rightarrow> db \<times> (exn + unit)" where
  "delete_organization_role R E now token org role_id r s =
     or_raise s (require_org_manager R E now token org r s) (\<lambda>(user, m).
     or_raise s (catalogue_role s role_id (Some org)) (\<lambda>x.
     if role_in_use s role_id then refuse s 409 ''Role is currently assigned and cannot be deleted''
     else or_raise s (delete_role x s) (\<lambda>s1. (s1, Inr ()))))"

subsection \<open>The roles of a member\<close>

definition widening_refused :: "db \<Rightarrow> org_membership \<Rightarrow> claims \<Rightarrow> role list \<Rightarrow> bool" where
  "widening_refused s target user new_roles \<longleftrightarrow> is_self (m_user_id target) user \<and> widens s (permissions_for_membership s target) new_roles"

definition resolve_for ::
  "env \<Rightarrow> time \<Rightarrow> string list \<Rightarrow> int \<Rightarrow> claims \<Rightarrow> org_membership \<Rightarrow> db \<Rightarrow> db \<times> (exn + role list)" where
  "resolve_for E now names org user target s =
     or_raise s (caller_is_platform_admin user) (\<lambda>admin.
     or_raise s (int_sub_get user) (\<lambda>uid.
     map_exn (as_code_or_400 ''Platform Admin'' 403)
       (resolve_roles_for_org E now names org admin (Some uid) (Some (m_user_id target)) s)))"

definition assign_organization_member_roles ::
  "'r redis \<Rightarrow> env \<Rightarrow> time \<Rightarrow> string \<Rightarrow> int \<Rightarrow> int \<Rightarrow> string list \<Rightarrow> 'r \<Rightarrow> db \<Rightarrow> db \<times> (exn + member_role_out)" where
  "assign_organization_member_roles R E now token org user_id names r s =
     or_raise s (require_org_manager R E now token org r s) (\<lambda>(user, m).
     or_raise s (get_target_membership s org user_id) (\<lambda>target.
     if \<not> distinct names then refuse s 400 ''Duplicate role name in request''
     else and_then (resolve_for E now names org user target s) (\<lambda>s1 new_roles.
     if widening_refused s1 target user new_roles
     then refuse s1 403 ''Cannot modify your own org roles to grant yourself additional permissions''
     else or_raise s1 (int_sub_get user) (\<lambda>uid.
     or_raise s1 (set_member_roles E now target new_roles (Some uid) s1) (\<lambda>s2.
     (s2, member_role_out_of s2 target org))))))"

definition remove_organization_member_role ::
  "'r redis \<Rightarrow> env \<Rightarrow> time \<Rightarrow> string \<Rightarrow> int \<Rightarrow> int \<Rightarrow> string \<Rightarrow> 'r \<Rightarrow> db \<Rightarrow> db \<times> (exn + unit)" where
  "remove_organization_member_role R E now token org user_id name r s =
     or_raise s (require_org_manager R E now token org r s) (\<lambda>(user, m).
     or_raise s (get_target_membership s org user_id) (\<lambda>target.
     or_raise s (or_404 ''Role not found'' (get_role_by_name s name None)) (\<lambda>x.
     if (m_id target, r_id x) \<notin> set (membership_roles s) then refuse s 404 ''Role is not assigned to this member in this organization''
     else (remove_member_role E now target x (Some (am_user_id m)) s, Inr ()))))"

end
