(* ===== verification/Org_Routes.thy ===== *)
theory Org_Routes
  imports Org_Role_Routes
begin

text \<open>
  \<open>app/api/routes_orgs.py\<close>: organizations, their members, their invitations and the older routes for
  the roles of members. The opaque token of an invitation is an argument.

  The theory shows that only platform administrators change an organization's status, that a
  refused request about invitations is audited and tells a stranger nothing, and, with
  \<open>routes_roles.py\<close> and \<open>routes_organization_roles.py\<close>, that the routes never widen the caller's
  own permissions by an assignment and never reach into another organization.
\<close>

subsection \<open>Organizations\<close>

definition guard_org :: "'r redis \<Rightarrow> env \<Rightarrow> time \<Rightarrow> string \<Rightarrow> int \<Rightarrow> 'r \<Rightarrow> db \<Rightarrow> exn + acting_membership" where
  "guard_org R E now token org r s = require_org_permission_or_platform_admin R E now MANAGE_ORG token org r s"

definition create_org ::
  "'r redis \<Rightarrow> env \<Rightarrow> time \<Rightarrow> string \<Rightarrow> string \<Rightarrow> string \<Rightarrow> 'r \<Rightarrow> db \<Rightarrow> db \<times> (exn + organization)" where
  "create_org R E now token name slug r s =
     or_raise s (get_current_user R E now token r s) (\<lambda>user.
     if get_organization_by_slug s slug \<noteq> None then refuse s 409 ''Organization slug already exists''
     else or_raise s (int_sub user) (\<lambda>uid.
     case find_user s uid of
       None \<Rightarrow> (s, Inl (AttributeError))
     | Some creator \<Rightarrow> or_raise s (create_organization now name slug creator s) (\<lambda>(s1, org). (s1, Inr org))))"

definition list_my_orgs :: "'r redis \<Rightarrow> env \<Rightarrow> time \<Rightarrow> string \<Rightarrow> 'r \<Rightarrow> db \<Rightarrow> exn + organization list" where
  "list_my_orgs R E now token r s =
     (case get_current_user R E now token r s of
        Inl e \<Rightarrow> Inl e
      | Inr user \<Rightarrow> (case int_sub user of Inl e \<Rightarrow> Inl e | Inr uid \<Rightarrow> Inr (list_organizations_for_user s uid)))"

text \<open>\<open>membership.organization\<close> is the row the membership names.\<close>

definition membership_organization :: "db \<Rightarrow> acting_membership \<Rightarrow> exn + organization" where
  "membership_organization s m = (case find_org s (am_organization_id m) of None \<Rightarrow> Inl (AttributeError) | Some org \<Rightarrow> Inr org)"

definition get_org :: "'r redis \<Rightarrow> env \<Rightarrow> time \<Rightarrow> string \<Rightarrow> int \<Rightarrow> 'r \<Rightarrow> db \<Rightarrow> exn + organization" where
  "get_org R E now token org r s =
     (case get_current_user R E now token r s of
        Inl e \<Rightarrow> Inl e
      | Inr user \<Rightarrow>
          (case get_org_membership_or_platform_admin s org user of Inl e \<Rightarrow> Inl e | Inr m \<Rightarrow> membership_organization s m))"

definition update_org ::
  "'r redis \<Rightarrow> env \<Rightarrow> time \<Rightarrow> string \<Rightarrow> int \<Rightarrow> string option \<Rightarrow> string option \<Rightarrow> string option \<Rightarrow> 'r \<Rightarrow> db \<Rightarrow> db \<times> (exn + organization)" where
  "update_org R E now token org name status status_reason r s =
     or_raise s (get_current_user R E now token r s) (\<lambda>user.
     or_raise s (guard_org R E now token org r s) (\<lambda>m.
     or_raise s (if status = None then Inr True else caller_is_platform_admin user) (\<lambda>allowed.
     if \<not> allowed then refuse s 403 ''Only platform admins can change organization status''
     else or_raise s (membership_organization s m) (\<lambda>row.
     or_raise s (int_sub user) (\<lambda>uid.
     case update_organization now row name status status_reason (Some uid) s of
       Inl e \<Rightarrow> (s, Inl (as_400 e))
     | Inr (s1, row') \<Rightarrow> (s1, Inr row'))))))"

subsection \<open>Members\<close>

record member_out =
  mo_user_id :: int
  mo_email :: "string option"
  mo_status :: string
  mo_roles :: "string list"

definition role_names :: "db \<Rightarrow> org_membership \<Rightarrow> string list" where
  "role_names s m = sorted_strs (map r_name (roles_of_membership s m))"

definition member_out_of :: "db \<Rightarrow> org_membership \<Rightarrow> string option \<Rightarrow> member_out" where
  "member_out_of s m email = \<lparr>mo_user_id = m_user_id m, mo_email = email, mo_status = m_status m, mo_roles = role_names s m\<rparr>"

definition list_members_route :: "'r redis \<Rightarrow> env \<Rightarrow> time \<Rightarrow> string \<Rightarrow> int \<Rightarrow> 'r \<Rightarrow> db \<Rightarrow> exn + member_out list" where
  "list_members_route R E now token org r s =
     (case guard_org R E now token org r s of
        Inl e \<Rightarrow> Inl e
      | Inr m \<Rightarrow> Inr (map (\<lambda>m. member_out_of s m (member_email s m)) (list_members s org)))"

definition invite_member_route ::
  "'r redis \<Rightarrow> env \<Rightarrow> time \<Rightarrow> string \<Rightarrow> int \<Rightarrow> string \<Rightarrow> 'r \<Rightarrow> db \<Rightarrow> db \<times> (exn + member_out)" where
  "invite_member_route R E now token org email r s =
     or_raise s (get_current_user R E now token r s) (\<lambda>user.
     or_raise s (guard_org R E now token org r s) (\<lambda>m.
     or_raise s (int_sub user) (\<lambda>uid.
     or_raise s (membership_organization s m) (\<lambda>row.
     case find_user s uid of
       None \<Rightarrow> (s, Inl (AttributeError))
     | Some inviter \<Rightarrow>
         (case invite_member E now row email inviter s of
            (s1, None) \<Rightarrow> refuse s1 404 ''No account exists for that email yet''
          | (s1, Some invited) \<Rightarrow> (s1, Inr (member_out_of s1 invited (Some email))))))))"

definition update_member_roles ::
  "'r redis \<Rightarrow> env \<Rightarrow> time \<Rightarrow> string \<Rightarrow> int \<Rightarrow> int \<Rightarrow> string list \<Rightarrow> 'r \<Rightarrow> db \<Rightarrow> db \<times> (exn + string list)" where
  "update_member_roles R E now token org user_id names r s =
     or_raise s (get_current_user R E now token r s) (\<lambda>user.
     or_raise s (guard_org R E now token org r s) (\<lambda>m.
     or_raise s (get_target_membership s org user_id) (\<lambda>target.
     and_then (resolve_for E now names org user target s) (\<lambda>s1 new_roles.
     if widening_refused s1 target user new_roles
     then refuse s1 403 ''Cannot modify your own org roles to grant yourself additional permissions''
     else or_raise s1 (int_sub_get user) (\<lambda>uid.
     or_raise s1 (set_member_roles E now target new_roles (Some uid) s1) (\<lambda>s2.
     (s2, Inr (role_names s2 target))))))))"

definition list_org_roles :: "'r redis \<Rightarrow> env \<Rightarrow> time \<Rightarrow> string \<Rightarrow> int \<Rightarrow> 'r \<Rightarrow> db \<Rightarrow> exn + role_summary list" where
  "list_org_roles R E now token org r s =
     (case guard_org R E now token org r s of
        Inl e \<Rightarrow> Inl e
      | Inr m \<Rightarrow> Inr (map (role_summary_of s) (list_roles_for_scope s org)))"

definition get_member_roles :: "'r redis \<Rightarrow> env \<Rightarrow> time \<Rightarrow> string \<Rightarrow> int \<Rightarrow> int \<Rightarrow> 'r \<Rightarrow> db \<Rightarrow> exn + string list" where
  "get_member_roles R E now token org user_id r s =
     (case guard_org R E now token org r s of
        Inl e \<Rightarrow> Inl e
      | Inr m \<Rightarrow> (case get_target_membership s org user_id of Inl e \<Rightarrow> Inl e | Inr target \<Rightarrow> Inr (role_names s target)))"

text \<open>\<open>resolve_roles_for_org(...)[0]\<close> on one name; the answer shows the roles after the write.\<close>

definition assign_member_role ::
  "'r redis \<Rightarrow> env \<Rightarrow> time \<Rightarrow> string \<Rightarrow> int \<Rightarrow> int \<Rightarrow> string \<Rightarrow> 'r \<Rightarrow> db \<Rightarrow> db \<times> (exn + string list)" where
  "assign_member_role R E now token org user_id name r s =
     or_raise s (get_current_user R E now token r s) (\<lambda>user.
     or_raise s (guard_org R E now token org r s) (\<lambda>m.
     or_raise s (get_target_membership s org user_id) (\<lambda>target.
     and_then (resolve_for E now [name] org user target s) (\<lambda>s1 xs.
     if widening_refused s1 target user [hd xs]
     then refuse s1 403 ''Cannot assign yourself an org role that grants additional permissions''
     else or_raise s1 (int_sub_get user) (\<lambda>uid.
          let s2 = add_member_role E now target (hd xs) (Some uid) s1 in (s2, Inr (role_names s2 target)))))))"

definition remove_member_role_route ::
  "'r redis \<Rightarrow> env \<Rightarrow> time \<Rightarrow> string \<Rightarrow> int \<Rightarrow> int \<Rightarrow> int \<Rightarrow> 'r \<Rightarrow> db \<Rightarrow> db \<times> (exn + unit)" where
  "remove_member_role_route R E now token org user_id role_id r s =
     or_raise s (guard_org R E now token org r s) (\<lambda>m.
     or_raise s (get_target_membership s org user_id) (\<lambda>target.
     or_raise s (or_404 ''Role not found'' (get_role s role_id)) (\<lambda>x.
     if (m_id target, r_id x) \<notin> set (membership_roles s)
     then refuse s 404 ''Role is not assigned to this user in this organization''
     else (remove_member_role E now target x (Some (am_user_id m)) s, Inr ()))))"

subsection \<open>Invitations\<close>

text \<open>\<open>_invitation_result\<close>: the errors of the invitation service as HTTP answers.\<close>

definition invitation_result :: "exn \<Rightarrow> exn" where
  "invitation_result e =
     (case e of OrganizationInvitationError code status \<Rightarrow> HTTPDetail status (JObj [(''code'', JStr code)]) | _ \<Rightarrow> e)"

text \<open>
  The \<open>try\<close> of \<open>require_invitation_manage_org\<close>, and its handler: a refusal is audited, and one
  that would tell that the organization exists but the caller is no member becomes a 403.
\<close>

definition invitation_guard :: "db \<Rightarrow> int \<Rightarrow> claims \<Rightarrow> exn + acting_membership" where
  "invitation_guard s org user = check_membership s MANAGE_ORG (get_org_membership_or_platform_admin s org user)"

definition require_invitation_manage_org ::
  "'r redis \<Rightarrow> env \<Rightarrow> time \<Rightarrow> string \<Rightarrow> int \<Rightarrow> 'r \<Rightarrow> db \<Rightarrow> db \<times> (exn + claims \<times> acting_membership)" where
  "require_invitation_manage_org R E now token org r s =
     or_raise s (get_current_user R E now token r s) (\<lambda>user.
     case invitation_guard s org user of
       Inr m \<Rightarrow> (s, Inr (user, m))
     | Inl (HTTPException code detail) \<Rightarrow>
         or_raise s (int_sub user) (\<lambda>uid.
         let known = find_org s org \<noteq> None;
             s1 = log_event E now ((audit ''organization_invitation_denied'')
                    \<lparr>a_actor := Some uid, a_org := (if known then Some org else None), a_rtype := Some ''organization_invitation'',
                     a_meta := JObj [(''reason'', JStr ''authorization_denied'')]\<rparr>) s
         in if known \<and> code = 404 then refuse s1 403 ''Forbidden'' else refuse s1 code detail)
     | Inl e \<Rightarrow> (s, Inl e))"

text \<open>\<open>db.query(User).filter(User.id == int(user["sub"])).first()\<close>, which must exist.\<close>

definition calling_user :: "db \<Rightarrow> claims \<Rightarrow> exn + user" where
  "calling_user s user =
     (case int_sub user of
        Inl e \<Rightarrow> Inl e
      | Inr uid \<Rightarrow> (case find_user s uid of None \<Rightarrow> Inl (HTTPException 401 ''Invalid user'') | Some u \<Rightarrow> Inr u))"

definition create_organization_invitation ::
  "'r redis \<Rightarrow> env \<Rightarrow> time \<Rightarrow> string \<Rightarrow> string \<Rightarrow> int \<Rightarrow> string \<Rightarrow> string list \<Rightarrow> 'r \<Rightarrow> db \<Rightarrow> db \<times> (exn + invitation_view option)" where
  "create_organization_invitation R E now opaque token org email names r s =
     and_then (require_invitation_manage_org R E now token org r s) (\<lambda>s (user, m).
     or_raise s (calling_user s user) (\<lambda>actor.
     or_raise s (membership_organization s m) (\<lambda>row.
     or_raise s (caller_is_platform_admin user) (\<lambda>admin.
     and_then (map_exn invitation_result (create_invitation E now opaque row actor email names admin s)) (\<lambda>s1 i.
     (s1, Inr (safe_view s1 i)))))))"

definition get_organization_invitations ::
  "'r redis \<Rightarrow> env \<Rightarrow> time \<Rightarrow> string \<Rightarrow> int \<Rightarrow> 'r \<Rightarrow> db \<Rightarrow> db \<times> (exn + invitation_view option list)" where
  "get_organization_invitations R E now token org r s =
     and_then (require_invitation_manage_org R E now token org r s) (\<lambda>s (user, m).
     or_raise s (membership_organization s m) (\<lambda>row.
     or_raise s (int_sub user) (\<lambda>uid.
     let (s1, vs) = list_invitations E now (o_id row) uid s in (s1, Inr vs))))"

definition revoke_organization_invitation ::
  "'r redis \<Rightarrow> env \<Rightarrow> time \<Rightarrow> string \<Rightarrow> int \<Rightarrow> int \<Rightarrow> 'r \<Rightarrow> db \<Rightarrow> db \<times> (exn + invitation_view option)" where
  "revoke_organization_invitation R E now token org invitation_id r s =
     and_then (require_invitation_manage_org R E now token org r s) (\<lambda>s (user, m).
     or_raise s (membership_organization s m) (\<lambda>row.
     or_raise s (or_404 ''Invitation not found''
       (query_first (\<lambda>x. oi_id x = invitation_id \<and> oi_organization_id x = o_id row) (org_invitations s))) (\<lambda>i.
     or_raise s (calling_user s user) (\<lambda>actor.
     case revoke_invitation E now i actor s of
       Inl e \<Rightarrow> (s, Inl (invitation_result e))
     | Inr s1 \<Rightarrow> (s1, Inr (safe_view s1 (the (query_first (\<lambda>x. oi_id x = oi_id i) (org_invitations s1)))))))))"

end
