(* ===== verification/Org_Route_Security.thy ===== *)
theory Org_Route_Security
  imports Org_Routes
begin

text \<open>
  What the routes for organizations and roles promise together: nobody widens their own
  permissions by an assignment, nobody but a platform administrator hands out platform-wide
  permissions or changes an organization's status, requests for one organization leave the
  others alone, and a refused request about invitations is audited.
\<close>

subsection \<open>What a request about a member's roles does\<close>

lemma member_perms_ids: "set (permissions_for_membership s m) = perms_of_ids s (\<lambda>i. (m_id m, i) \<in> set (membership_roles s))"
  by (auto simp: permissions_for_membership_def perms_of_ids_def permissions_for_roles_def roles_of_membership_def)

definition tables_kept :: "db \<Rightarrow> db \<Rightarrow> bool" where
  "tables_kept s s' \<longleftrightarrow> roles s' = roles s \<and> permissions s' = permissions s \<and> role_permissions s' = role_permissions s
     \<and> memberships s' = memberships s \<and> user_roles s' = user_roles s \<and> organizations s' = organizations s"

definition member_outcome :: "claims \<Rightarrow> int \<Rightarrow> db \<Rightarrow> db \<Rightarrow> bool" where
  "member_outcome c org s s' \<longleftrightarrow> tables_kept s s' \<and>
     (membership_roles s' = membership_roles s \<or>
      (\<exists>target \<in> set (memberships s). m_organization_id target = org
         \<and> (\<forall>i j. i \<noteq> m_id target \<longrightarrow> ((i, j) \<in> set (membership_roles s') \<longleftrightarrow> (i, j) \<in> set (membership_roles s)))
         \<and> (is_self (m_user_id target) c \<longrightarrow> set (permissions_for_membership s' target) \<subseteq> set (permissions_for_membership s target))
         \<and> (caller_is_platform_admin c = Inr False \<longrightarrow>
             set (permissions_for_membership s' target) \<inter> set GLOBAL_SCOPE_PERMISSIONS \<subseteq> set (permissions_for_membership s target))))"

lemma member_outcome_same [simp]: "member_outcome c org s s"
  by (simp add: member_outcome_def tables_kept_def)

lemma member_outcome_log [simp]: "member_outcome c org s (log_event E now a s') = member_outcome c org s s'"
  by (simp add: member_outcome_def tables_kept_def permissions_for_membership_def permissions_for_roles_def roles_of_membership_def role_perms_def)

lemma get_membership_row: "get_membership s org uid = Some m \<Longrightarrow> m \<in> set (memberships s) \<and> m_organization_id m = org \<and> m_user_id m = uid"
  by (auto simp: get_membership_def dest: query_first_Some)

lemma perms_of_ids_no_global:
  assumes "\<forall>x \<in> set rs. offending (role_perms s x) = []" and "\<And>r. r \<in> set (roles s) \<Longrightarrow> P (r_id r) \<Longrightarrow> r_id r \<in> r_id ` set rs"
  shows "perms_of_ids s P \<inter> set GLOBAL_SCOPE_PERMISSIONS = {}"
proof -
  { fix r assume "r \<in> set (roles s)" "P (r_id r)"
    then obtain x where "x \<in> set rs" "role_perms s r = role_perms s x" using assms(2) role_perms_id by (metis imageE)
    then have "set (role_perms s r) \<inter> set GLOBAL_SCOPE_PERMISSIONS = {}" using assms(1) offending_Nil by simp }
  then show ?thesis by (auto simp: perms_of_ids_def)
qed

lemma relinked_outcome:
  assumes t: "target \<in> set (memberships s)" "m_organization_id target = org"
    and s': "s' = s\<lparr>membership_roles := L\<rparr>" and other: "\<forall>i j. i \<noteq> m_id target \<longrightarrow> ((i, j) \<in> set L \<longleftrightarrow> (i, j) \<in> set (membership_roles s))"
    and new: "\<forall>j. (m_id target, j) \<in> set L \<longrightarrow> (m_id target, j) \<in> set (membership_roles s) \<or> j \<in> r_id ` set rs"
    and self: "\<not> widening_refused s target c rs"
    and glob: "caller_is_platform_admin c = Inr False \<Longrightarrow> \<forall>x \<in> set rs. offending (role_perms s x) = []"
  shows "member_outcome c org s s'"
proof -
  let ?old = "\<lambda>i. (m_id target, i) \<in> set (membership_roles s)" and ?given = "\<lambda>i. i \<in> r_id ` set rs"
  have "set (permissions_for_membership s' target) = perms_of_ids s (\<lambda>i. (m_id target, i) \<in> set L)"
    unfolding member_perms_ids by (simp add: s' perms_of_ids_def role_perms_def)
  also have "\<dots> \<subseteq> perms_of_ids s (\<lambda>i. ?old i \<or> ?given i)" using new by (intro perms_of_ids_mono) blast
  also have "\<dots> = set (permissions_for_membership s target) \<union> perms_of_ids s ?given"
    unfolding member_perms_ids by (auto simp: perms_of_ids_def)
  finally have sub: "set (permissions_for_membership s' target) \<subseteq> set (permissions_for_membership s target) \<union> perms_of_ids s ?given" .
  have "perms_of_ids s ?given \<subseteq> set (permissions_for_membership s target)" if "is_self (m_user_id target) c"
    by (rule perms_of_given [where rs = rs]) (use self that in \<open>simp_all add: widening_refused_def\<close>)
  moreover have "perms_of_ids s ?given \<inter> set GLOBAL_SCOPE_PERMISSIONS = {}" if "caller_is_platform_admin c = Inr False"
    by (rule perms_of_ids_no_global [OF glob [OF that]])
  moreover have "tables_kept s s'" "membership_roles s' = L" by (simp_all add: s' tables_kept_def)
  ultimately show ?thesis
    unfolding member_outcome_def using t other sub by (intro conjI disjI2 bexI [of _ target]) (simp, blast+)
qed

lemma set_member_roles_outcome:
  assumes "get_membership s org uid = Some target" "set_member_roles E now target rs actor s = Inr s'"
    and "\<not> widening_refused s target c rs" "caller_is_platform_admin c = Inr False \<Longrightarrow> \<forall>x \<in> set rs. offending (role_perms s x) = []"
  shows "member_outcome c org s s'"
proof -
  let ?L = "assign_links (m_id target) (map r_id rs) (membership_roles s)"
  have "member_outcome c org s (s\<lparr>membership_roles := ?L\<rparr>)"
    by (rule relinked_outcome [where target = target and rs = rs and L = ?L])
      (use assms get_membership_row [OF assms(1)] in \<open>simp_all add: set_assign_links\<close>)
  then show ?thesis using assms(2) by (auto simp: set_member_roles_def Let_def split: if_splits)
qed

lemma add_member_role_outcome:
  assumes "get_membership s org uid = Some target"
    and "\<not> widening_refused s target c [x]" "caller_is_platform_admin c = Inr False \<Longrightarrow> offending (role_perms s x) = []"
  shows "member_outcome c org s (add_member_role E now target x actor s)"
proof -
  have "member_outcome c org s (s\<lparr>membership_roles := membership_roles s @ [(m_id target, r_id x)]\<rparr>)"
    by (rule relinked_outcome [where target = target and rs = "[x]" and L = "membership_roles s @ [(m_id target, r_id x)]"])
      (use assms get_membership_row [OF assms(1)] in simp_all)
  then show ?thesis by (simp add: add_member_role_def)
qed

lemma remove_member_role_outcome:
  assumes "get_membership s org uid = Some target"
  shows "member_outcome c org s (remove_member_role E now target x actor s)"
proof -
  let ?L = "delete_where (\<lambda>p. p = (m_id target, r_id x)) (membership_roles s)"
  have "member_outcome c org s (s\<lparr>membership_roles := ?L\<rparr>)"
    by (rule relinked_outcome [where target = target and rs = "[]" and L = ?L])
      (use get_membership_row [OF assms] in \<open>auto simp: widening_refused_def widens_def permissions_for_roles_def\<close>)
  then show ?thesis by (simp add: remove_member_role_def)
qed

lemma resolve_for_Inr:
  assumes "resolve_for E now names org c target s = (s1, Inr rs)"
  shows "s1 = s" "map r_name rs = names" "set rs \<subseteq> set (roles s)"
    "caller_is_platform_admin c = Inr False \<Longrightarrow> \<forall>x \<in> set rs. offending (role_perms s x) = []"
  using assms resolve_Inr by (fastforce simp: resolve_for_def or_raise_Inr)+

lemma resolve_for_state: "resolve_for E now names org' c' target s = (s1, x) \<Longrightarrow> member_outcome c org s s1"
proof -
  assume n: "resolve_for E now names org' c' target s = (s1, x)"
  have "s1 = s \<or> (\<exists>ad ac ta. s1 = fst (resolve_roles_for_org E now names org' ad ac ta s))"
    using arg_cong [OF n, of fst] by (auto simp: resolve_for_def or_raise_def split: sum.splits)
  then show ?thesis using resolve_for_org_state [of E now names org' _ _ _ s] by (metis member_outcome_log member_outcome_same)
qed

lemma guard_org_user: "guard_org R E now token org r s = Inr m \<Longrightarrow> \<exists>c. get_current_user R E now token r s = Inr c"
  by (auto simp: guard_org_def require_org_permission_or_platform_admin_def split: sum.splits)

lemma require_org_manager_user: "require_org_manager R E now token org r s = Inr (c, m) \<Longrightarrow> get_current_user R E now token r s = Inr c"
  by (auto simp: require_org_manager_def split: sum.splits if_splits)

lemma update_member_roles_outcome:
  assumes c: "get_current_user R E now token r s = Inr c"
  shows "member_outcome c org s (fst (update_member_roles R E now token org user_id names r s))"
  unfolding update_member_roles_def
proof (rule ends_fst, intro handler_ends member_outcome_same)
  fix user m target s1 new_roles uid s2
  assume u: "get_current_user R E now token r s = Inr user" and t: "get_target_membership s org user_id = Inr target"
    and n: "resolve_for E now names org user target s = (s1, Inr new_roles)"
    and w: "\<not> widening_refused s1 target user new_roles" and s2: "set_member_roles E now target new_roles (Some uid) s1 = Inr s2"
  show "member_outcome c org s s2"
    using set_member_roles_outcome [of s org user_id target E now new_roles "Some uid" s2 c] u c t w s2 resolve_for_Inr [OF n]
    by (simp add: get_target_membership_def)
qed (rule resolve_for_state, assumption)+

lemma assign_organization_member_roles_outcome:
  assumes c: "get_current_user R E now token r s = Inr c"
  shows "member_outcome c org s (fst (assign_organization_member_roles R E now token org user_id names r s))"
  unfolding assign_organization_member_roles_def split_beta
proof (rule ends_fst, intro handler_ends member_outcome_same)
  fix a target s1 new_roles uid s2
  assume u: "require_org_manager R E now token org r s = Inr a" and t: "get_target_membership s org user_id = Inr target"
    and n: "resolve_for E now names org (fst a) target s = (s1, Inr new_roles)"
    and w: "\<not> widening_refused s1 target (fst a) new_roles" and s2: "set_member_roles E now target new_roles (Some uid) s1 = Inr s2"
  have "fst a = c" using require_org_manager_user [of R E now token org r s "fst a" "snd a"] u c by simp
  then show "member_outcome c org s s2"
    using set_member_roles_outcome [of s org user_id target E now new_roles "Some uid" s2 c] c t w s2 resolve_for_Inr [OF n]
    by (simp add: get_target_membership_def)
qed (rule resolve_for_state, assumption)+

lemma assign_member_role_outcome:
  assumes c: "get_current_user R E now token r s = Inr c"
  shows "member_outcome c org s (fst (assign_member_role R E now token org user_id name r s))"
  unfolding assign_member_role_def Let_def
proof (rule ends_fst, intro handler_ends member_outcome_same)
  fix user m target s1 xs uid
  assume u: "get_current_user R E now token r s = Inr user" and t: "get_target_membership s org user_id = Inr target"
    and n: "resolve_for E now [name] org user target s = (s1, Inr xs)" and w: "\<not> widening_refused s1 target user [hd xs]"
  note ri = resolve_for_Inr [OF n]
  obtain x where xs: "xs = [x]" using ri(2) by (cases xs) auto
  show "member_outcome c org s (add_member_role E now target (hd xs) (Some uid) s1)"
    using add_member_role_outcome [of s org user_id target c x E now "Some uid"] u c t w ri xs by (simp add: get_target_membership_def)
qed (rule resolve_for_state, assumption)+

lemma removal_outcomes:
  "member_outcome c org s (fst (remove_member_role_route R E now token org user_id role_id r s))"
  "member_outcome c org s (fst (remove_organization_member_role R E now token org user_id name r s))"
  unfolding remove_member_role_route_def remove_organization_member_role_def split_beta
  by (rule ends_fst, intro handler_ends member_outcome_same remove_member_role_outcome, simp add: get_target_membership_def)+

subsection \<open>Nobody widens their own permissions\<close>

definition bearer :: "'r redis \<Rightarrow> env \<Rightarrow> time \<Rightarrow> string \<Rightarrow> 'r \<Rightarrow> db \<Rightarrow> int \<Rightarrow> claims \<Rightarrow> bool" where
  "bearer R E now token r s uid c \<longleftrightarrow> get_current_user R E now token r s = Inr c \<and> int_sub c = Inr uid"

text \<open>A request of one user about who holds which roles, on any of the three surfaces.\<close>

inductive assignment_request :: "'r redis \<Rightarrow> env \<Rightarrow> int \<Rightarrow> db \<Rightarrow> db \<Rightarrow> bool" for R :: "'r redis" and E :: env and uid :: int where
  put_user_roles: "bearer R E now token r s uid c \<Longrightarrow> assignment_request R E uid s (fst (update_user_roles R E now token t names r s))"
| post_platform_user_role:
    "bearer R E now token r s uid c \<Longrightarrow> assignment_request R E uid s (fst (assign_platform_user_role R E now token t name r s))"
| delete_platform_user_role:
    "bearer R E now token r s uid c \<Longrightarrow> assignment_request R E uid s (fst (remove_platform_user_role R E now token t i r s))"
| put_member_roles:
    "bearer R E now token r s uid c \<Longrightarrow> assignment_request R E uid s (fst (update_member_roles R E now token org t names r s))"
| post_member_role:
    "bearer R E now token r s uid c \<Longrightarrow> assignment_request R E uid s (fst (assign_member_role R E now token org t name r s))"
| delete_member_role:
    "bearer R E now token r s uid c \<Longrightarrow> assignment_request R E uid s (fst (remove_member_role_route R E now token org t i r s))"
| post_organization_member_roles:
    "bearer R E now token r s uid c \<Longrightarrow> assignment_request R E uid s (fst (assign_organization_member_roles R E now token org t names r s))"
| delete_organization_member_role:
    "bearer R E now token r s uid c \<Longrightarrow> assignment_request R E uid s (fst (remove_organization_member_role R E now token org t name r s))"

definition not_widened :: "int \<Rightarrow> db \<Rightarrow> db \<Rightarrow> bool" where
  "not_widened uid s s' \<longleftrightarrow> memberships s' = memberships s \<and> own_perms s' uid \<subseteq> own_perms s uid
     \<and> (\<forall>m \<in> set (memberships s). m_user_id m = uid \<longrightarrow>
          set (permissions_for_membership s' m) \<subseteq> set (permissions_for_membership s m))"

lemma member_outcome_own:
  assumes o: "member_outcome c org s s'" and c: "int_sub c = Inr uid" and d: "distinct (map m_id (memberships s))"
  shows "not_widened uid s s'"
proof -
  have k: "tables_kept s s'" using o by (simp add: member_outcome_def)
  then have own: "own_perms s' uid \<subseteq> own_perms s uid" by (intro own_perms_other) (simp_all add: tables_kept_def)
  have same: "set (permissions_for_membership s' m) = perms_of_ids s (\<lambda>i. (m_id m, i) \<in> set (membership_roles s'))" for m
    unfolding member_perms_ids using k by (intro perms_of_ids_cong) (simp_all add: tables_kept_def)
  have "set (permissions_for_membership s' m) \<subseteq> set (permissions_for_membership s m)" if m: "m \<in> set (memberships s)" "m_user_id m = uid" for m
  proof (cases "membership_roles s' = membership_roles s")
    case True
    then show ?thesis by (simp only: same) (simp add: member_perms_ids)
  next
    case False
    then obtain target where t: "target \<in> set (memberships s)"
      and other: "\<forall>i j. i \<noteq> m_id target \<longrightarrow> ((i, j) \<in> set (membership_roles s') \<longleftrightarrow> (i, j) \<in> set (membership_roles s))"
      and self: "is_self (m_user_id target) c \<longrightarrow> set (permissions_for_membership s' target) \<subseteq> set (permissions_for_membership s target)"
      using o by (auto simp: member_outcome_def)
    show ?thesis
    proof (cases "m = target")
      case True
      then show ?thesis using self m(2) is_self_int_sub [OF c] by simp
    next
      case False
      then have "m_id m \<noteq> m_id target" using distinct_keyD [OF d m(1) t] by blast
      then show ?thesis using other by (simp only: same) (simp add: member_perms_ids)
    qed
  qed
  then show ?thesis using k own by (simp add: not_widened_def tables_kept_def)
qed

lemma user_links_own:
  assumes "own_perms s' uid \<subseteq> own_perms s uid" "roles s' = roles s" "permissions s' = permissions s" "role_permissions s' = role_permissions s"
    "memberships s' = memberships s" "membership_roles s' = membership_roles s"
  shows "not_widened uid s s'"
  using assms by (simp add: not_widened_def permissions_for_membership_def permissions_for_roles_def roles_of_membership_def role_perms_def)

definition only_user_links :: "db \<Rightarrow> db \<Rightarrow> bool" where
  "only_user_links s s' \<longleftrightarrow> roles s' = roles s \<and> permissions s' = permissions s \<and> role_permissions s' = role_permissions s
     \<and> memberships s' = memberships s \<and> membership_roles s' = membership_roles s"

lemma only_user_links_routes:
  "only_user_links s (fst (update_user_roles R E now token t names r s))"
  "only_user_links s (fst (assign_platform_user_role R E now token t name r s))"
  "only_user_links s (fst (remove_platform_user_role R E now token t i r s))"
  unfolding update_user_roles_def assign_platform_user_role_def remove_platform_user_role_def Let_def
  by (rule ends_fst, intro handler_ends; auto simp: only_user_links_def map_exn_def set_user_roles_def add_user_role_def remove_user_role_def split: sum.splits)+

lemma assignment_request_own:
  assumes "assignment_request R E uid s s'" "distinct (map m_id (memberships s))"
  shows "not_widened uid s s'"
  using assms(1)
proof cases
  case (put_user_roles now token r c t names)
  then show ?thesis using update_user_roles_own [of R E now token r s c uid t names] only_user_links_routes(1) [of s R E now token t names r]
    by (intro user_links_own) (auto simp: bearer_def only_user_links_def)
next
  case (post_platform_user_role now token r c t name)
  then show ?thesis
    using assign_platform_user_role_own [of R E now token r s c uid t name] only_user_links_routes(2) [of s R E now token t name r]
    by (intro user_links_own) (auto simp: bearer_def only_user_links_def)
next
  case (delete_platform_user_role now token r c t i)
  then show ?thesis
    using remove_platform_user_role_own [of R E now token t i r s uid] only_user_links_routes(3) [of s R E now token t i r]
    by (intro user_links_own) (auto simp: only_user_links_def)
next
  case (put_member_roles now token r c org t names)
  then show ?thesis by (auto simp: bearer_def intro!: member_outcome_own [OF update_member_roles_outcome _ assms(2)])
next
  case (post_member_role now token r c org t name)
  then show ?thesis by (auto simp: bearer_def intro!: member_outcome_own [OF assign_member_role_outcome _ assms(2)])
next
  case (delete_member_role now token r c org t i)
  then show ?thesis by (auto simp: bearer_def intro!: member_outcome_own [OF removal_outcomes(1) _ assms(2)])
next
  case (post_organization_member_roles now token r c org t names)
  then show ?thesis by (auto simp: bearer_def intro!: member_outcome_own [OF assign_organization_member_roles_outcome _ assms(2)])
next
  case (delete_organization_member_role now token r c org t name)
  then show ?thesis by (auto simp: bearer_def intro!: member_outcome_own [OF removal_outcomes(2) _ assms(2)])
qed

text \<open>
  C1. Nobody widens their own permissions by an assignment. Whatever requests about the
  roles of users and members a caller sends, in any number, on the older, the platform's and the
  organizations' routes, the permissions of its own account and of each of its memberships are
  afterwards among those it had before.
\<close>

theorem no_self_widening:
  assumes "(assignment_request R E uid)\<^sup>*\<^sup>* s s'" and "distinct (map m_id (memberships s))"
  shows "own_perms s' uid \<subseteq> own_perms s uid
    \<and> (\<forall>m \<in> set (memberships s). m_user_id m = uid \<longrightarrow>
          m \<in> set (memberships s') \<and> set (permissions_for_membership s' m) \<subseteq> set (permissions_for_membership s m))"
proof -
  have "not_widened uid s s'" using assms(1)
  proof (induction rule: rtranclp_induct)
    case base
    then show ?case by (simp add: not_widened_def)
  next
    case (step t t')
    have m: "memberships t = memberships s" using step.IH by (simp add: not_widened_def)
    have "not_widened uid t t'" by (rule assignment_request_own [OF step.hyps(2)]) (simp add: m assms(2))
    then show ?case using step.IH unfolding not_widened_def by (simp, blast)
  qed
  then show ?thesis by (simp add: not_widened_def)
qed

text \<open>
  C12. Platform-wide permissions come from the platform. A request that assigns or removes
  roles of an organization's members, on any of the five routes that do, from a caller who is
  not a platform administrator gives no membership, of whatever organization, a platform-wide
  permission it did not have.
\<close>

theorem managers_grant_no_platform_permission:
  assumes c: "get_current_user R E now token r s = Inr c" "caller_is_platform_admin c = Inr False"
    and d: "distinct (map m_id (memberships s))" and m: "m \<in> set (memberships s)"
    and s': "s' \<in> {fst (update_member_roles R E now token org t names r s), fst (assign_member_role R E now token org t name r s),
                  fst (assign_organization_member_roles R E now token org t names r s), fst (remove_member_role_route R E now token org t i r s),
                  fst (remove_organization_member_role R E now token org t name r s)}"
  shows "set (permissions_for_membership s' m) \<inter> set GLOBAL_SCOPE_PERMISSIONS \<subseteq> set (permissions_for_membership s m)"
proof -
  have o: "member_outcome c org s s'"
    using s' update_member_roles_outcome [OF c(1)] assign_member_role_outcome [OF c(1)] assign_organization_member_roles_outcome [OF c(1)]
      removal_outcomes by auto
  then have k: "tables_kept s s'" by (simp add: member_outcome_def)
  have same: "set (permissions_for_membership s' m) = perms_of_ids s (\<lambda>i. (m_id m, i) \<in> set (membership_roles s'))"
    unfolding member_perms_ids using k by (intro perms_of_ids_cong) (simp_all add: tables_kept_def)
  show ?thesis
  proof (cases "membership_roles s' = membership_roles s")
    case True
    then show ?thesis by (simp only: same) (auto simp: member_perms_ids)
  next
    case False
    then obtain target where t: "target \<in> set (memberships s)"
      and other: "\<forall>i j. i \<noteq> m_id target \<longrightarrow> ((i, j) \<in> set (membership_roles s') \<longleftrightarrow> (i, j) \<in> set (membership_roles s))"
      and g: "set (permissions_for_membership s' target) \<inter> set GLOBAL_SCOPE_PERMISSIONS \<subseteq> set (permissions_for_membership s target)"
      using o c(2) by (auto simp: member_outcome_def)
    show ?thesis
    proof (cases "m = target")
      case True
      then show ?thesis using g by simp
    next
      case False
      then have "m_id m \<noteq> m_id target" using distinct_keyD [OF d m t] by blast
      then show ?thesis using other by (simp only: same) (auto simp: member_perms_ids)
    qed
  qed
qed

subsection \<open>Requests for one organization leave the others alone\<close>

definition same_outside :: "int \<Rightarrow> db \<Rightarrow> db \<Rightarrow> bool" where
  "same_outside org s s' \<longleftrightarrow>
     (\<forall>x \<in> set (roles s). r_organization_id x \<noteq> Some org \<longrightarrow> x \<in> set (roles s') \<and> set (role_perms s' x) = set (role_perms s x))
   \<and> (\<forall>m \<in> set (memberships s). m_organization_id m \<noteq> org \<longrightarrow>
        m \<in> set (memberships s') \<and> (\<forall>i. (m_id m, i) \<in> set (membership_roles s') \<longleftrightarrow> (m_id m, i) \<in> set (membership_roles s)))
   \<and> (\<forall>x \<in> set (organizations s). o_id x \<noteq> org \<longrightarrow> x \<in> set (organizations s'))
   \<and> set (user_roles s') = set (user_roles s)"

lemma same_outside_refl [simp]: "same_outside org s s"
  by (simp add: same_outside_def)

lemma same_outside_log [simp]: "same_outside org s (log_event E now a s') = same_outside org s s'"
  by (simp add: same_outside_def role_perms_def)

lemma member_outcome_outside:
  assumes o: "member_outcome c org s s'" and d: "distinct (map m_id (memberships s))"
  shows "same_outside org s s'"
proof -
  have k: "tables_kept s s'" using o by (simp add: member_outcome_def)
  have "(m_id m, i) \<in> set (membership_roles s') \<longleftrightarrow> (m_id m, i) \<in> set (membership_roles s)"
    if m: "m \<in> set (memberships s)" "m_organization_id m \<noteq> org" for m i
  proof (cases "membership_roles s' = membership_roles s")
    case False
    then obtain target where "target \<in> set (memberships s)" "m_organization_id target = org"
      "\<forall>i j. i \<noteq> m_id target \<longrightarrow> ((i, j) \<in> set (membership_roles s') \<longleftrightarrow> (i, j) \<in> set (membership_roles s))"
      using o by (auto simp: member_outcome_def)
    then show ?thesis using distinct_keyD [OF d m(1)] m(2) by metis
  qed simp
  then show ?thesis using k by (auto simp: same_outside_def tables_kept_def role_perms_def)
qed

lemma create_role_outside:
  assumes "perms_ok s"
  shows "same_outside org s (fst (create_role E now name names desc actor (Some org) s))"
proof -
  obtain s1 e where v: "validate_org_scoped_permission_names E now names org actor name None s = (s1, e)" by force
  have vo: "s1 = s \<or> (\<exists>a. s1 = log_event E now a s)" "e = None \<Longrightarrow> s1 = s"
    using validation_outcome [where org = "Some org" and s = s] v by auto
  have "same_outside org s (fst (add_role name names desc (Some org) s))"
  proof -
    obtain s2 x where a: "add_role name names desc (Some org) s = (s2, x)" by force
    note sp = add_role_spec [OF a assms]
    obtain P RP where s2: "s2 = s\<lparr>roles := roles s @ [x], permissions := P, role_permissions := RP\<rparr>" using sp(10) by blast
    have "y \<in> set (roles s2) \<and> set (role_perms s2 y) = set (role_perms s y)" if "y \<in> set (roles s)" for y
      using sp(1,6) that by simp
    moreover have "memberships s2 = memberships s \<and> membership_roles s2 = membership_roles s \<and> organizations s2 = organizations s
        \<and> user_roles s2 = user_roles s" by (simp add: s2)
    ultimately show ?thesis by (simp add: a same_outside_def)
  qed
  then show ?thesis using vo by (cases e) (auto simp: create_role_def v split_beta Let_def split: option.split)
qed

lemma update_role_outside:
  assumes ok: "perms_ok s" and x: "get_role s i = Some x" "r_organization_id x = Some org"
  shows "same_outside org s (fst (update_role_permissions E now x names desc actor s))"
proof (cases "update_role_permissions E now x names desc actor s")
  case (Pair s' v)
  have xr: "x \<in> set (roles s)" using x(1) by (auto simp: get_role_def dest: query_first_Some)
  have d: "distinct (map r_id (roles s))" using ok by (simp add: perms_ok_def)
  show ?thesis
  proof (cases v)
    case (Inl e)
    obtain s1 b where v: "validate_org_scoped_permission_names E now names org actor (r_name x) (Some (r_id x)) s = (s1, b)" by force
    then have "s1 = s \<or> (\<exists>a. s1 = log_event E now a s)" using validation_outcome(2) [where org = "Some org" and s = s] by auto
    then show ?thesis using Pair Inl x(2) by (auto simp: update_role_permissions_def v Let_def split: option.splits)
  next
    case (Inr x')
    note up = update_role_permissions_Inr [OF Pair [unfolded Inr] ok xr]
    have "y \<in> set (roles s') \<and> set (role_perms s' y) = set (role_perms s y)" if "y \<in> set (roles s)" "r_organization_id y \<noteq> Some org" for y
      using up(2) [OF that(1)] distinct_keyD [OF d that(1) xr] that(2) x(2) by auto
    moreover have "organizations s' = organizations s" using update_role_frame [of E now x names desc actor s] Pair by simp
    ultimately show ?thesis using up(4,6,7) Pair by (simp add: same_outside_def)
  qed
qed

lemma delete_role_outside:
  assumes ok: "perms_ok s" and x: "get_role s i = Some x" "r_organization_id x = Some org" "\<not> role_in_use s i" "delete_role x s = Inr s'"
  shows "same_outside org s s'"
proof -
  have xr: "x \<in> set (roles s)" "r_id x = i" using x(1) by (auto simp: get_role_def dest: query_first_Some)
  have d: "distinct (map r_id (roles s))" using ok by (simp add: perms_ok_def)
  have s': "s' = s\<lparr>roles := delete_where (\<lambda>y. r_id y = i) (roles s), role_permissions := delete_where (\<lambda>(j, p). j = i) (role_permissions s),
      user_roles := delete_where (\<lambda>(u, j). j = i) (user_roles s)\<rparr>"
    using x(4) xr(2) by (simp add: delete_role_def split: if_splits)
  have "r_id y \<noteq> i" if "y \<in> set (roles s)" "r_organization_id y \<noteq> Some org" for y
    using distinct_keyD [OF d that(1) xr(1)] that(2) x(2) xr(2) by auto
  moreover have "\<forall>u. (u, i) \<notin> set (user_roles s)" using x(3) by (auto simp: role_in_use_def query_exists_def)
  ultimately show ?thesis by (auto simp: s' same_outside_def role_perms_def delete_where_def)
qed

lemma guard_membership_org:
  "get_org_membership_or_platform_admin s org c = Inr m \<Longrightarrow> am_organization_id m = org"
  by (auto simp: get_org_membership_or_platform_admin_def platform_admin_membership_def get_org_membership_def acting_row_def Let_def
      split: if_splits option.splits sum.splits dest!: query_first_Some)

lemma guard_org_id: "guard_org R E now token org r s = Inr m \<Longrightarrow> am_organization_id m = org"
  by (auto simp: guard_org_def require_org_permission_or_platform_admin_def check_membership_Inr guard_membership_org split: sum.splits)

lemma membership_organization_Inr:
  "membership_organization s m = Inr row \<Longrightarrow> row \<in> set (organizations s) \<and> o_id row = am_organization_id m"
  by (auto simp: membership_organization_def find_org_def split: option.splits dest: query_first_Some)

lemma invite_member_outside:
  assumes inv: "org_inv s" and row: "o_id row = org"
  shows "same_outside org s (fst (invite_member E now row email inviter s))"
proof (cases "find_user_by_email s email")
  case (Some u)
  show ?thesis
  proof (cases "get_membership s (o_id row) (u_id u)")
    case None
    obtain s1 x where g: "get_or_create_role ''org_member'' [] s = (s1, x)" by force
    have ok: "perms_ok s" using inv by (simp add: org_inv_def roles_inv_def)
    have "(\<forall>y \<in> set (roles s). y \<in> set (roles s1) \<and> set (role_perms s1 y) = set (role_perms s y)) \<and> memberships s1 = memberships s
        \<and> membership_roles s1 = membership_roles s \<and> organizations s1 = organizations s \<and> user_roles s1 = user_roles s"
    proof (cases "get_role_by_name s ''org_member'' None")
      case None
      then have a: "add_role ''org_member'' [] None None s = (s1, x)" using g by (simp add: get_or_create_role_def)
      note sp = add_role_spec [OF a ok]
      obtain P RP where "s1 = s\<lparr>roles := roles s @ [x], permissions := P, role_permissions := RP\<rparr>" using sp(10) by blast
      then show ?thesis using sp(1,6) by simp
    qed (use g in \<open>simp add: get_or_create_role_def\<close>)
    then have f: "\<forall>y \<in> set (roles s). y \<in> set (roles s1) \<and> set (role_perms s1 y) = set (role_perms s y)"
      "memberships s1 = memberships s" "membership_roles s1 = membership_roles s" "organizations s1 = organizations s" "user_roles s1 = user_roles s"
      by blast+
    obtain s2 m where a: "add_membership (o_id row) (u_id u) ''invited'' (Some (u_id inviter)) now x s1 = (s2, m)" by force
    have "m_id m \<notin> m_id ` set (memberships s)" using a f(2) next_id_notin [of m_id "memberships s"] by (auto simp: add_membership_def Let_def)
    moreover have "roles s2 = roles s1 \<and> organizations s2 = organizations s1 \<and> user_roles s2 = user_roles s1 \<and> permissions s2 = permissions s1
        \<and> role_permissions s2 = role_permissions s1 \<and> memberships s2 = memberships s1 @ [m] \<and> membership_roles s2 = membership_roles s1 @ [(m_id m, r_id x)]"
      using a by (auto simp: add_membership_def Let_def)
    ultimately have "same_outside org s s2" using f by (auto simp: same_outside_def role_perms_def image_iff)
    then show ?thesis using Some None g a by (simp add: invite_member_def Let_def)
  qed (simp add: invite_member_def Some)
qed (simp add: invite_member_def)

text \<open>The requests on an organization's path that change roles, members or the organization.\<close>

inductive org_request :: "'r redis \<Rightarrow> env \<Rightarrow> int \<Rightarrow> db \<Rightarrow> db \<Rightarrow> bool" for R :: "'r redis" and E :: env and org :: int where
  create_organization_role: "org_request R E org s (fst (create_organization_role R E now token org name names desc r s))"
| update_organization_role: "org_request R E org s (fst (update_organization_role R E now token org i names desc r s))"
| delete_organization_role: "org_request R E org s (fst (delete_organization_role R E now token org i r s))"
| assign_organization_member_roles: "org_request R E org s (fst (assign_organization_member_roles R E now token org t names r s))"
| remove_organization_member_role: "org_request R E org s (fst (remove_organization_member_role R E now token org t name r s))"
| update_org: "org_request R E org s (fst (update_org R E now token org nm st reason r s))"
| invite_member: "org_request R E org s (fst (invite_member_route R E now token org email r s))"
| update_member_roles: "org_request R E org s (fst (update_member_roles R E now token org t names r s))"
| assign_member_role: "org_request R E org s (fst (assign_member_role R E now token org t name r s))"
| remove_member_role: "org_request R E org s (fst (remove_member_role_route R E now token org t i r s))"

lemma catalogue_role_Inr: "catalogue_role s i org = Inr x \<longleftrightarrow> get_role s i = Some x \<and> r_organization_id x = org"
  by (auto simp: catalogue_role_def split: option.split)

lemma member_routes_outside:
  assumes d: "distinct (map m_id (memberships s))"
  shows "same_outside org s (fst (update_member_roles R E now token org t names r s))"
    "same_outside org s (fst (assign_member_role R E now token org t name r s))"
    "same_outside org s (fst (assign_organization_member_roles R E now token org t names r s))"
    "same_outside org s (fst (remove_member_role_route R E now token org t i r s))"
    "same_outside org s (fst (remove_organization_member_role R E now token org t name r s))"
proof -
  note out = member_outcome_outside [OF _ d]
  show "same_outside org s (fst (update_member_roles R E now token org t names r s))"
  proof (cases "get_current_user R E now token r s")
    case (Inr c)
    then show ?thesis by (rule out [OF update_member_roles_outcome])
  qed (simp add: update_member_roles_def)
  show "same_outside org s (fst (assign_member_role R E now token org t name r s))"
  proof (cases "get_current_user R E now token r s")
    case (Inr c)
    then show ?thesis by (rule out [OF assign_member_role_outcome])
  qed (simp add: assign_member_role_def)
  show "same_outside org s (fst (assign_organization_member_roles R E now token org t names r s))"
  proof (cases "get_current_user R E now token r s")
    case (Inr c)
    then show ?thesis by (rule out [OF assign_organization_member_roles_outcome])
  qed (simp add: assign_organization_member_roles_def require_org_manager_def)
qed (rule member_outcome_outside [OF _ d], rule removal_outcomes)+

lemma create_role_route_outside:
  "perms_ok s \<Longrightarrow> same_outside org s (fst (create_organization_role R E now token org name names desc r s))"
  using create_role_outside [of s org E now name names desc]
  unfolding create_organization_role_def split_beta
  by (intro ends_fst [of "same_outside org s"] handler_ends same_outside_refl)
    (auto simp: map_exn_def split: prod.splits sum.splits, (metis fst_conv)+)

lemma update_role_route_outside:
  "perms_ok s \<Longrightarrow> same_outside org s (fst (update_organization_role R E now token org i names desc r s))"
  using update_role_outside [of s i _ org E now names desc]
  unfolding update_organization_role_def split_beta
  by (intro ends_fst [of "same_outside org s"] handler_ends same_outside_refl)
    (auto simp: catalogue_role_Inr map_exn_def split: prod.splits sum.splits, (metis fst_conv)+)

lemma delete_role_route_outside:
  "perms_ok s \<Longrightarrow> same_outside org s (fst (delete_organization_role R E now token org i r s))"
  unfolding delete_organization_role_def split_beta
  by (intro ends_fst [of "same_outside org s"] handler_ends same_outside_refl) (rule delete_role_outside, auto simp: catalogue_role_Inr)

lemma update_org_outside: "same_outside org s (fst (update_org R E now token org nm st reason r s))"
  unfolding update_org_def
proof (rule ends_fst, intro handler_ends same_outside_refl)
  fix user m allowed row uid
  assume "guard_org R E now token org r s = Inr m" "membership_organization s m = Inr row"
  then have row: "row \<in> set (organizations s)" "o_id row = org" using membership_organization_Inr guard_org_id by fastforce+
  show "ends (same_outside org s) (case update_organization now row nm st reason (Some uid) s of Inl e \<Rightarrow> (s, Inl (as_400 e)) | Inr (s1, row') \<Rightarrow> (s1, Inr row'))"
    using row by (auto simp: ends_def update_organization_def Let_def same_outside_def role_perms_def update_where_def image_iff
        split: sum.splits option.splits if_splits)
qed

lemma invite_route_outside:
  assumes inv: "org_inv s"
  shows "same_outside org s (fst (invite_member_route R E now token org email r s))"
  unfolding invite_member_route_def
proof (rule ends_fst, intro handler_ends same_outside_refl)
  fix user m uid row inviter
  assume "guard_org R E now token org r s = Inr m" "membership_organization s m = Inr row"
  then have row: "o_id row = org" using membership_organization_Inr guard_org_id by fastforce
  show "ends (same_outside org s) (case invite_member E now row email inviter s of (s1, None) \<Rightarrow> refuse s1 404 ''No account exists for that email yet''
        | (s1, Some invited) \<Rightarrow> (s1, Inr (member_out_of s1 invited (Some email))))"
    using invite_member_outside [OF inv row, of E now email inviter] by (auto simp: ends_def split: prod.splits option.splits)
qed

text \<open>
  C11. Requests for one organization leave the others alone. Whoever sends it, a request on
  the path of one organization that changes roles, members or the organization itself leaves
  every platform-wide role and every role of another organization with its permissions, every
  membership of another organization with its roles, every other organization, and the roles of
  user accounts as they were.
\<close>

theorem organizations_isolated:
  assumes "org_request R E org s s'" and inv: "org_inv s"
  shows "same_outside org s s'"
proof -
  have ok: "perms_ok s" and d: "distinct (map m_id (memberships s))" using inv by (simp_all add: org_inv_def roles_inv_def members_ok_def)
  show ?thesis
    using assms(1)
    by cases (simp_all add: create_role_route_outside [OF ok] update_role_route_outside [OF ok] delete_role_route_outside [OF ok]
        member_routes_outside [OF d] update_org_outside invite_route_outside [OF inv])
qed

subsection \<open>Status, refusals and role edits\<close>

text \<open>
  Property. Only platform administrators change an organization's status. If a row of the table has
  another status after a request to update an organization, it is the organization of the path,
  the caller's token carries the platform administrators' permission, the new status is the
  requested one and one of the two known ones, and the time of the change is recorded.
\<close>

theorem status_change_by_platform_admin:
  assumes s': "s' = fst (update_org R E now token org nm st reason r s)" and d: "distinct (map o_id (organizations s))"
    and xy: "x \<in> set (organizations s)" "y \<in> set (organizations s')" "o_id y = o_id x" "o_status y \<noteq> o_status x"
  shows "o_id x = org \<and> (\<exists>c. get_current_user R E now token r s = Inr c \<and> caller_is_platform_admin c = Inr True)
    \<and> st = Some (o_status y) \<and> o_status y \<in> {''active'', ''suspended''} \<and> o_status_changed_at y = Some now"
proof -
  let ?P = "\<lambda>s'. \<forall>y \<in> set (organizations s'). o_id y = o_id x \<and> o_status y \<noteq> o_status x \<longrightarrow>
      o_id x = org \<and> (\<exists>c. get_current_user R E now token r s = Inr c \<and> caller_is_platform_admin c = Inr True)
    \<and> st = Some (o_status y) \<and> o_status y \<in> {''active'', ''suspended''} \<and> o_status_changed_at y = Some now"
  have same: "?P s" using distinct_keyD [OF d _ xy(1)] by auto
  have "?P (fst (update_org R E now token org nm st reason r s))"
    unfolding update_org_def
  proof (rule ends_fst [where P = ?P], intro handler_ends same)
    fix user m allowed row uid
    assume u: "get_current_user R E now token r s = Inr user" and g: "guard_org R E now token org r s = Inr m"
      and a: "(if st = None then Inr True else caller_is_platform_admin user) = Inr allowed" "\<not> \<not> allowed"
      and r: "membership_organization s m = Inr row"
    have row: "row \<in> set (organizations s)" "o_id row = org" using membership_organization_Inr [OF r] guard_org_id [OF g] by auto
    have adm: "st \<noteq> None \<Longrightarrow> caller_is_platform_admin user = Inr True" using a by (auto split: if_splits)
    have old: "z \<in> set (organizations s) \<Longrightarrow> o_id z = o_id x \<Longrightarrow> z = x" for z using distinct_keyD [OF d _ xy(1)] by blast
    show "ends ?P (case update_organization now row nm st reason (Some uid) s of Inl e \<Rightarrow> (s, Inl (as_400 e)) | Inr (s1, row') \<Rightarrow> (s1, Inr row'))"
    proof (cases "update_organization now row nm st reason (Some uid) s")
      case (Inr p)
      obtain s1 row' where p: "p = (s1, row')" by force
      have s1: "organizations s1 = update_where (\<lambda>z. o_id z = o_id row) (\<lambda>z. row') (organizations s)"
        using Inr p by (auto simp: update_organization_def Let_def split: sum.splits)
      have row': "o_id row' = o_id row \<and> (o_status row' = o_status row \<or> st = Some (o_status row') \<and> o_status row' \<in> {''active'', ''suspended''}
          \<and> o_status_changed_at row' = Some now)"
        using Inr p by (auto simp: update_organization_def Let_def split: option.splits if_splits)
      have "?P s1"
      proof (intro ballI impI)
        fix y assume y: "y \<in> set (organizations s1)" "o_id y = o_id x \<and> o_status y \<noteq> o_status x"
        then consider "y \<in> set (organizations s)" | "y = row'" using s1 by (auto simp: update_where_def split: if_splits)
        then show "o_id x = org \<and> (\<exists>c. get_current_user R E now token r s = Inr c \<and> caller_is_platform_admin c = Inr True)
          \<and> st = Some (o_status y) \<and> o_status y \<in> {''active'', ''suspended''} \<and> o_status_changed_at y = Some now"
        proof cases
          case 1
          then show ?thesis using old y(2) by auto
        next
          case 2
          then have "row = x" using old [OF row(1)] row' y(2) by simp
          then show ?thesis using 2 row' y(2) row(2) u adm by auto
        qed
      qed
      then show ?thesis using Inr p by (simp add: ends_def)
    qed (use same in \<open>simp add: ends_def\<close>)
  qed
  then show ?thesis using xy s' by blast
qed

text \<open>
  Property. A refused request about invitations is audited and tells nothing. A caller without the
  right to manage an existing organization gets the same answer whether or not it is a member,
  and the refusal is recorded under the caller's name.
\<close>

theorem invitation_refusal_audited:
  assumes c: "get_current_user R E now token r s = Inr c" "int_sub c = Inr uid" and org: "find_org s org \<noteq> None"
    and refused: "\<forall>m. invitation_guard s org c \<noteq> Inr m"
  shows "\<exists>a. require_invitation_manage_org R E now token org r s = (log_event E now a s, Inl (HTTPException 403 ''Forbidden''))
    \<and> a_actor a = Some uid \<and> a_org a = Some org"
proof -
  have "\<exists>code d. invitation_guard s org c = Inl (HTTPException code d) \<and> (code = 404 \<or> code = 403 \<and> d = ''Forbidden'')"
  proof (cases "get_org_membership_or_platform_admin s org c")
    case (Inl e)
    then have "get_org_membership s org c = Inl e"
      by (auto simp: get_org_membership_or_platform_admin_def Let_def split: sum.splits option.splits if_splits)
    then have "e = HTTPException 404 ''Organization not found''" using c(2) by (auto simp: get_org_membership_def split: option.splits)
    then show ?thesis using Inl by (simp add: invitation_guard_def check_membership_def)
  next
    case (Inr m)
    then show ?thesis using refused by (auto simp: invitation_guard_def check_membership_def split: if_splits)
  qed
  then show ?thesis using c org by (auto simp: require_invitation_manage_org_def Let_def refuse_def)
qed

text \<open>
  Property. A manager widens itself by rewriting a role. A member who may manage its organization and
  holds one of the organization's own roles can send new permissions for that role and has all
  of them afterwards, although the routes refuse to assign it a role with the same permissions.
\<close>

theorem org_role_edit_widens:
  assumes inv: "org_inv s" and g: "require_org_manager R E now token org r s = Inr (c, a)" "int_sub c = Inr uid"
    and x: "get_role s i = Some x" "r_organization_id x = Some org"
    and m: "m \<in> set (memberships s)" "m_organization_id m = org" "m_user_id m = uid" "(m_id m, i) \<in> set (membership_roles s)"
    and names: "\<forall>n \<in> set names. is_known_permission n" "offending names = []"
  shows "\<exists>s' v. update_organization_role R E now token org i names desc r s = (s', Inr v)
    \<and> set names \<subseteq> set (permissions_for_membership s' m)"
proof -
  have xr: "x \<in> set (roles s)" "r_id x = i" using x(1) by (auto simp: get_role_def dest: query_first_Some)
  have ok: "perms_ok s" "roles_inv s" using inv by (simp_all add: org_inv_def roles_inv_def)
  obtain s' x' where u: "update_role_permissions E now x names desc (Some uid) s = (s', Inr x')"
    using names x(2) by (auto simp: update_role_permissions_def validate_org_scoped_permission_names_def validate_None [symmetric] Let_def)
  note up = update_role_permissions_Inr [OF u ok(1) xr(1)]
  have "roles_inv s'" using roles_inv_update_role_permissions [OF ok(2) xr(1), of E now names desc "Some uid"] u by simp
  then obtain v where v: "role_detail_of s' x' = Inr v" using role_detail_total by blast
  obtain y where y: "y \<in> set (roles s')" "r_id y = r_id x" using up(3) xr(1) by (metis imageE imageI)
  then have "set (role_perms s' y) = set names" using up(1) role_perms_id [OF y(2)] by simp
  then have "set names \<subseteq> set (permissions_for_membership s' m)"
    unfolding member_perms_ids using y m(4) xr(2) up(7) by (auto simp: perms_of_ids_def)
  moreover have isg: "int_sub_get c = Inr uid" using g(2) by simp
  moreover have "update_organization_role R E now token org i names desc r s = (s', Inr v)"
    using g(1) isg u v x by (simp add: update_organization_role_def catalogue_role_def map_exn_def del: int_sub_get_Inr)
  ultimately show ?thesis by blast
qed

text \<open>
  Property. The route that takes a role away from a member by its name looks the name up among
  the platform-wide roles only: an organization's own role cannot be taken away by it.
\<close>

theorem own_role_not_removable:
  assumes "require_org_manager R E now token org r s = Inr (c, a)" "get_membership s org t = Some target"
    and "x \<in> set (roles_of_membership s target)" "r_organization_id x = Some org" "get_role_by_name s (r_name x) None = None"
  shows "remove_organization_member_role R E now token org t (r_name x) r s = (s, Inl (HTTPException 404 ''Role not found''))"
  using assms by (simp add: remove_organization_member_role_def get_target_membership_def or_404_def)

subsection \<open>A concrete organization\<close>

text \<open>Its only member manages it through a role of its own and may also read runs.\<close>

definition manager_db :: db where
  "manager_db = guard_db\<lparr>roles := [\<lparr>r_id = 3, r_name = ''lead'', r_description = None, r_organization_id = Some 7\<rparr>],
     permissions := [\<lparr>p_id = 2, p_name = ''runs.read''\<rparr>, \<lparr>p_id = 4, p_name = ''manage_org''\<rparr>], role_permissions := [(3, 2), (3, 4)]\<rparr>"

definition manager_row :: org_membership where
  "manager_row = \<lparr>m_id = 5, m_organization_id = 7, m_user_id = 1, m_status = ''active'', m_invited_by_user_id = None, m_joined_at = 0\<rparr>"

lemma manager_user: "get_current_user kv_redis guard_env 0 ''tok'' (True, []) manager_db = Inr guard_claims"
proof -
  have "get_current_user kv_redis guard_env 0 ''tok'' (True, []) manager_db = get_current_user kv_redis guard_env 0 ''tok'' (True, []) guard_db"
    by (rule user_guard_cong) (simp_all add: manager_db_def)
  then show ?thesis using guard_user by simp
qed

lemma manager_bearer: "bearer kv_redis guard_env 0 ''tok'' (True, []) manager_db 1 guard_claims"
  using manager_user guard_sub by (simp add: bearer_def)

lemma manager_names: "\<forall>n \<in> {''runs.read'', ''manage_org'', ''manage_billing''}. is_known_permission n \<and> n \<notin> set GLOBAL_SCOPE_PERMISSIONS"
proof -
  have "list_all (\<lambda>p. pd_name p \<in> {''runs.read'', ''manage_org'', ''manage_billing''} \<longrightarrow> pd_scope p \<noteq> SCOPE_GLOBAL) registered" by code_simp
  then show ?thesis unfolding is_known_iff registered_names by (auto simp: global_names list_all_iff)
qed

lemma manager_inv: "org_inv manager_db"
  using manager_names
  by (simp add: org_inv_def roles_inv_def perms_ok_def registered_ok_def org_roles_ok_def members_ok_def role_perms_def manager_db_def
      guard_db_def empty_db_def)

lemma manager_perms: "set (permissions_for_membership manager_db manager_row) = {''runs.read'', ''manage_org''}"
  by (simp add: permissions_for_membership_def permissions_for_roles_def roles_of_membership_def role_perms_def manager_db_def manager_row_def
      guard_db_def)

lemma manager_guard: "\<exists>a. require_org_manager kv_redis guard_env 0 ''tok'' 7 (True, []) manager_db = Inr (guard_claims, a)"
proof -
  have "get_org_membership_or_platform_admin manager_db 7 guard_claims = Inr (acting_row manager_db manager_row)"
    using guard_sub by (simp add: get_org_membership_or_platform_admin_def get_org_membership_def claim_in_or_empty_def guard_claims_def
        manager_db_def guard_db_def manager_row_def Let_def)
  then show ?thesis using manager_user manager_perms by (simp add: require_org_manager_def MANAGE_ORG_def)
qed

lemma manager_rows: "manager_row \<in> set (memberships manager_db)" "distinct (map m_id (memberships manager_db))"
  by (simp_all add: manager_db_def guard_db_def manager_row_def)

theorem no_self_widening_witness:
  "let s' = fst (update_member_roles kv_redis guard_env 0 ''tok'' 7 1 [''lead''] (True, []) manager_db)
   in set (permissions_for_membership s' manager_row) \<subseteq> {''runs.read'', ''manage_org''} \<and> own_perms s' 1 = {}"
proof -
  let ?s' = "fst (update_member_roles kv_redis guard_env 0 ''tok'' 7 1 [''lead''] (True, []) manager_db)"
  have "(assignment_request kv_redis guard_env 1)\<^sup>*\<^sup>* manager_db ?s'"
    by (rule r_into_rtranclp, rule put_member_roles [OF manager_bearer])
  note w = no_self_widening [OF this manager_rows(2)]
  have "own_perms manager_db 1 = {}" by (simp add: own_perms_def perms_of_ids_def manager_db_def guard_db_def empty_db_def)
  then have "own_perms ?s' 1 = {}" using w by blast
  moreover have "m_user_id manager_row = 1" by (simp add: manager_row_def)
  then have "set (permissions_for_membership ?s' manager_row) \<subseteq> {''runs.read'', ''manage_org''}"
    using w manager_rows(1) manager_perms by blast
  ultimately show ?thesis by (simp only: Let_def)
qed

theorem managers_grant_no_platform_permission_witness:
  "set (permissions_for_membership (fst (assign_member_role kv_redis guard_env 0 ''tok'' 7 1 ''lead'' (True, []) manager_db)) manager_row)
     \<inter> set GLOBAL_SCOPE_PERMISSIONS \<subseteq> {''runs.read'', ''manage_org''}"
proof -
  have "caller_is_platform_admin guard_claims = Inr False"
    by (simp add: caller_is_platform_admin_def claim_in_or_empty_def guard_claims_def)
  from managers_grant_no_platform_permission [OF manager_user this manager_rows(2,1), of _ 7 1 "[]" "''lead''" 0]
  show ?thesis using manager_perms by blast
qed

theorem organizations_isolated_witness:
  "same_outside 7 manager_db (fst (create_organization_role kv_redis guard_env 0 ''tok'' 7 ''reader'' [''runs.read''] None (True, []) manager_db))"
  by (rule organizations_isolated [OF create_organization_role manager_inv])

theorem org_role_edit_widens_witness:
  "\<exists>s' v. update_organization_role kv_redis guard_env 0 ''tok'' 7 3 [''manage_org'', ''manage_billing''] None (True, []) manager_db = (s', Inr v)
     \<and> ''manage_billing'' \<in> set (permissions_for_membership s' manager_row) - set (permissions_for_membership manager_db manager_row)"
proof -
  obtain a where g: "require_org_manager kv_redis guard_env 0 ''tok'' 7 (True, []) manager_db = Inr (guard_claims, a)"
    using manager_guard by blast
  let ?x = "\<lparr>r_id = 3, r_name = ''lead'', r_description = None, r_organization_id = Some 7\<rparr>"
  have x: "get_role manager_db 3 = Some ?x" "r_organization_id ?x = Some 7" by (simp_all add: get_role_def manager_db_def)
  have m: "m_organization_id manager_row = 7" "m_user_id manager_row = 1" "(m_id manager_row, 3) \<in> set (membership_roles manager_db)"
    by (simp_all add: manager_row_def manager_db_def guard_db_def)
  have n: "\<forall>n \<in> set [''manage_org'', ''manage_billing'']. is_known_permission n" "offending [''manage_org'', ''manage_billing''] = []"
    using manager_names by (simp_all add: offending_Nil)
  from org_role_edit_widens [OF manager_inv g guard_sub x manager_rows(1) m n, of None] show ?thesis using manager_perms by auto
qed

theorem own_role_not_removable_witness:
  "remove_organization_member_role kv_redis guard_env 0 ''tok'' 7 1 ''lead'' (True, []) manager_db = (manager_db, Inl (HTTPException 404 ''Role not found''))"
proof -
  obtain a where g: "require_org_manager kv_redis guard_env 0 ''tok'' 7 (True, []) manager_db = Inr (guard_claims, a)"
    using manager_guard by blast
  let ?x = "\<lparr>r_id = 3, r_name = ''lead'', r_description = None, r_organization_id = Some 7\<rparr>"
  have "get_membership manager_db 7 1 = Some manager_row" by (simp add: get_membership_def manager_db_def guard_db_def manager_row_def)
  moreover have "?x \<in> set (roles_of_membership manager_db manager_row)"
    by (simp add: roles_of_membership_def manager_db_def guard_db_def manager_row_def)
  moreover have "get_role_by_name manager_db (r_name ?x) None = None" by (simp add: get_role_by_name_def manager_db_def)
  ultimately show ?thesis using own_role_not_removable [OF g, of 1 manager_row ?x] by simp
qed

text \<open>A platform administrator suspends the organization; a stranger asks for its invitations.\<close>

definition admin_claims :: claims where
  "admin_claims = (''permissions'', jstrs [''manage_all_orgs'']) # guard_claims"

definition admin_env :: env where
  "admin_env = sample_env [''adm'' \<mapsto> admin_claims]"

definition admin_db :: db where
  "admin_db = manager_db\<lparr>roles := \<lparr>r_id = 8, r_name = ''org_admin'', r_description = None, r_organization_id = None\<rparr> # roles manager_db,
     role_permissions := (8, 4) # role_permissions manager_db\<rparr>"

lemma admin_user: "get_current_user kv_redis admin_env 0 ''adm'' (True, []) admin_db = Inr admin_claims"
  unfolding get_current_user_Inr
  by (simp add: decode_token_def decode_token_for_audience_def admin_env_def sample_env_def admin_claims_def guard_claims_def
      assert_token_usable_def Let_def kv_redis_def live_entry_def kv_entry_def admin_db_def manager_db_def guard_db_def empty_db_def
      query_exists_def find_subject_def sub_text_def sample_user_def show_int_1)

lemma admin_sub: "int_sub admin_claims = Inr 1"
  using guard_sub by (simp add: int_sub_def admin_claims_def)

lemma admin_guard: "\<exists>a. guard_org kv_redis admin_env 0 ''adm'' 7 (True, []) admin_db = Inr a \<and> am_organization_id a = 7"
proof -
  let ?r = "\<lparr>r_id = 8, r_name = ''org_admin'', r_description = None, r_organization_id = None\<rparr>"
  have "find_org admin_db 7 \<noteq> None" by (simp add: find_org_def admin_db_def manager_db_def guard_db_def)
  moreover have "get_role_by_name admin_db ''org_admin'' None = Some ?r" by (simp add: get_role_by_name_def admin_db_def)
  ultimately have "platform_admin_membership admin_db 7 admin_claims
      = Inr (Some \<lparr>am_row = None, am_organization_id = 7, am_user_id = 1, am_status = ''active'', am_roles = [?r]\<rparr>)"
    using admin_sub by (simp add: platform_admin_membership_def)
  moreover have "claim_in_or_empty MANAGE_ALL_ORGS admin_claims ''permissions'' = Inr True"
    by (simp add: claim_in_or_empty_def admin_claims_def MANAGE_ALL_ORGS_def)
  moreover have "get_claim admin_claims ''auth_method'' = JStr ''password''" by (simp add: admin_claims_def guard_claims_def)
  ultimately have "\<exists>a. get_org_membership_or_platform_admin admin_db 7 admin_claims = Inr a \<and> am_organization_id a = 7 \<and> am_roles a = [?r]"
    by (simp add: get_org_membership_or_platform_admin_def Let_def)
  then show ?thesis using admin_user
    by (auto simp: guard_org_def require_org_permission_or_platform_admin_def check_membership_def acting_permissions_def
        permissions_for_roles_def role_perms_def MANAGE_ORG_def admin_db_def manager_db_def)
qed

theorem status_change_by_platform_admin_witness:
  "\<exists>y \<in> set (organizations (fst (update_org kv_redis admin_env 0 ''adm'' 7 None (Some ''suspended'') None (True, []) admin_db))).
     o_status y = ''suspended'' \<and> o_status_changed_at y = Some 0"
proof -
  obtain a where a: "guard_org kv_redis admin_env 0 ''adm'' 7 (True, []) admin_db = Inr a" "am_organization_id a = 7" using admin_guard by blast
  let ?s' = "fst (update_org kv_redis admin_env 0 ''adm'' 7 None (Some ''suspended'') None (True, []) admin_db)" and ?x = "hd (organizations admin_db)"
  have d: "distinct (map o_id (organizations admin_db))" and x: "?x \<in> set (organizations admin_db)"
    by (simp_all add: admin_db_def manager_db_def guard_db_def)
  have adm: "caller_is_platform_admin admin_claims = Inr True"
    by (simp add: caller_is_platform_admin_def claim_in_or_empty_def admin_claims_def MANAGE_ALL_ORGS_def)
  have mo: "membership_organization admin_db a = Inr ?x"
    using a(2) by (simp add: membership_organization_def find_org_def admin_db_def manager_db_def guard_db_def)
  have "\<exists>y \<in> set (organizations ?s'). o_id y = o_id ?x \<and> o_status y \<noteq> o_status ?x"
    using admin_user a(1) adm mo admin_sub
    by (simp add: update_org_def update_organization_def Let_def) (simp add: update_where_def admin_db_def manager_db_def guard_db_def)
  then obtain y where y: "y \<in> set (organizations ?s')" "o_id y = o_id ?x" "o_status y \<noteq> o_status ?x" by blast
  have "Some ''suspended'' = Some (o_status y) \<and> o_status_changed_at y = Some 0"
    using status_change_by_platform_admin [OF refl d x y] by blast
  then show ?thesis using y(1) by auto
qed

theorem invitation_refusal_audited_witness:
  "\<exists>a. require_invitation_manage_org kv_redis guard_env 0 ''tok'' 7 (True, []) guard_db = (log_event guard_env 0 a guard_db, Inl (HTTPException 403 ''Forbidden''))"
proof -
  have "find_org guard_db 7 \<noteq> None" by (simp add: find_org_def guard_db_def)
  moreover have "\<forall>m. invitation_guard guard_db 7 guard_claims \<noteq> Inr m"
    by (simp add: invitation_guard_def get_org_membership_or_platform_admin_def get_org_membership_def claim_in_or_empty_def Let_def guard_sub
        check_membership_def)
      (simp add: guard_claims_def guard_db_def permissions_for_membership_def permissions_for_roles_def roles_of_membership_def
        role_perms_def MANAGE_ORG_def)
  ultimately show ?thesis using invitation_refusal_audited [OF guard_user guard_sub] by blast
qed

end
