(* ===== verification/Service_Mint.thy ===== *)
theory Service_Mint
  imports Service_Clients
begin

text \<open>
  \<open>app/services/service_mint_service.py\<close> and \<open>app/api/routes_service_mint.py\<close>: a service that
  signs users in itself obtains a short token for a user it names by e-mail address.

  A refusal is the exception \<open>MintRefused\<close> with its reason, which the route turns into one
  answer for all reasons. The token id recorded with a minted token is the one that was signed
  into it. \<open>str.lower\<close> and the database's \<open>lower\<close> are the same function here.

  The theory shows that a token is only minted for an active account in an active organization,
  that without the caller's extra permission it never carries a permission that is registered for
  the platform, for organizations or for services, and that a refusal leaves nothing behind but
  one event.
\<close>

definition MINT_PRIVILEGED_PERMISSION :: string where
  "MINT_PRIVILEGED_PERMISSION = ''service_token.mint_privileged''"

definition SERVICE_IDENTITY_PERMISSIONS :: "string list" where
  "SERVICE_IDENTITY_PERMISSIONS = [''toolserver.delegate'', ''toolserver.register'', ''identity.verify'', ''delegation.verify'']"

definition is_privileged_permission :: "string \<Rightarrow> bool" where
  "is_privileged_permission name =
     (case map_of REGISTRY name of
        None \<Rightarrow> True
      | Some p \<Rightarrow> pd_scope p \<in> {SCOPE_GLOBAL, SCOPE_ORG} \<or> name \<in> set SERVICE_IDENTITY_PERMISSIONS)"

definition mint_ttl_seconds :: "settings \<Rightarrow> int" where
  "mint_ttl_seconds S = min (SERVICE_MINT_TOKEN_TTL_SECONDS S) (ACCESS_TOKEN_EXPIRE_MINUTES S * 60)"

definition log_denied ::
  "env \<Rightarrow> time \<Rightarrow> int \<Rightarrow> string \<Rightarrow> string \<Rightarrow> int option \<Rightarrow> string \<Rightarrow> int option \<Rightarrow> int option \<Rightarrow> db \<Rightarrow> db" where
  "log_denied E now actor reason email requested_org verification target org s =
     log_event E now ((audit ''service_token_mint_denied'')
       \<lparr>a_actor := Some actor, a_target := target, a_org := org, a_rtype := Some ''user'', a_rid := map_option show_int target,
        a_meta := JObj [(''reason'', JStr reason), (''target_email'', JStr email), (''requested_org_id'', jint_opt requested_org),
                        (''verification_method'', JStr verification)]\<rparr>) s"

text \<open>\<open>find_user_by_email\<close> of \<open>oauth_service.py\<close>, which ignores case.\<close>

definition find_user_ignoring_case :: "db \<Rightarrow> string \<Rightarrow> user option" where
  "find_user_ignoring_case s email = query_first (\<lambda>u. str_lower (u_email u) = str_lower email) (users s)"

definition resolve_membership :: "db \<Rightarrow> int \<Rightarrow> int option \<Rightarrow> string + org_membership option" where
  "resolve_membership s uid org_id =
     (case org_id of
        None \<Rightarrow> Inr (resolve_primary_membership s uid)
      | Some org \<Rightarrow>
          (case query_first (\<lambda>m. m_user_id m = uid \<and> m_organization_id m = org \<and> m_status m = ''active'') (memberships s) of
             None \<Rightarrow> Inl ''not_a_member''
           | Some m \<Rightarrow> Inr (Some m)))"

definition claimed :: "claims \<Rightarrow> string list" where
  "claimed payload = (case get_claim payload ''permissions'' of JList vs \<Rightarrow> map (\<lambda>v. case v of JStr x \<Rightarrow> x | _ \<Rightarrow> []) vs | _ \<Rightarrow> [])"

text \<open>
  The checks: the reason of a refusal, or the payload to sign and whether it is privileged, with
  what was resolved by then.
\<close>

definition mint_checks :: "db \<Rightarrow> string \<Rightarrow> int option \<Rightarrow> bool \<Rightarrow> user option \<times> org_membership option \<times> (string + claims \<times> bool)" where
  "mint_checks s email org_id allow_privileged =
     (case find_user_ignoring_case s email of
        None \<Rightarrow> (None, None, Inl ''unknown_user'')
      | Some u \<Rightarrow>
          if u_status u \<noteq> ''active'' then (Some u, None, Inl ''inactive_user'')
          else case resolve_membership s (u_id u) org_id of
            Inl reason \<Rightarrow> (Some u, None, Inl reason)
          | Inr m \<Rightarrow>
              if (case m of None \<Rightarrow> False | Some x \<Rightarrow> map_option o_status (find_org s (m_organization_id x)) \<noteq> Some ''active'')
              then (Some u, m, Inl ''organization_inactive'')
              else let payload = build_user_claims s u (JStr ''service_mint'') JNull None m;
                       privileged = filter is_privileged_permission (claimed payload)
                   in if privileged \<noteq> [] \<and> \<not> allow_privileged then (Some u, m, Inl ''privileged_target'')
                      else (Some u, m, Inr (payload, privileged \<noteq> [])))"

definition mint_user_service_token ::
  "env \<Rightarrow> time \<Rightarrow> string \<Rightarrow> string \<Rightarrow> int \<Rightarrow> string \<Rightarrow> int option \<Rightarrow> bool \<Rightarrow> db \<Rightarrow> db \<times> (exn + string \<times> int)" where
  "mint_user_service_token E now jti email actor verification org_id allow_privileged s =
     (case mint_checks s email org_id allow_privileged of
        (u, m, Inl reason) \<Rightarrow>
          (log_denied E now actor reason email org_id verification (map_option u_id u) (map_option m_organization_id m) s, Inl (MintRefused reason))
      | (u, m, Inr (payload, privileged)) \<Rightarrow>
          let expires_in = mint_ttl_seconds (cfg E);
              token = create_access_token E now jti payload (Some expires_in);
              uid = u_id (the u)
          in (log_event E now ((audit ''service_token_minted'')
                \<lparr>a_actor := Some actor, a_target := Some uid, a_org := json_int (get_claim payload ''org_id''), a_rtype := Some ''user'',
                 a_rid := Some (show_int uid),
                 a_meta := JObj [(''target_email'', JStr email), (''requested_org_id'', jint_opt org_id),
                   (''organization_id'', get_claim payload ''org_id''), (''verification_method'', JStr verification),
                   (''privileged'', JBool privileged), (''jti'', JStr jti)]\<rparr>) s,
              Inr (token, expires_in)))"

subsection \<open>The route\<close>

definition mint_refused_detail :: "exn \<Rightarrow> exn" where
  "mint_refused_detail e = (case e of MintRefused _ \<Rightarrow> HTTPException 403 ''Cannot mint a token for this user'' | _ \<Rightarrow> e)"

definition mint_rate_limited :: "'r redis \<Rightarrow> settings \<Rightarrow> time \<Rightarrow> string \<Rightarrow> 'r limiter \<Rightarrow> 'r limiter \<times> bool \<times> bool" where
  "mint_rate_limited R S now caller_id l =
     (let limit = SERVICE_MINT_RATE_LIMIT S; window = SERVICE_MINT_RATE_WINDOW_SECONDS S; key = take 64 caller_id;
          (l', res) = record_attempt R S now (''svc-mint:count:'' @ key) (''svc-mint:lock:'' @ key) window (limit + 1) window
                        (Some window) (Some (limit + 1)) l
      in (l', res_locked res, res_newly_locked res))"

definition mint_user_token ::
  "'r redis \<Rightarrow> env \<Rightarrow> time \<Rightarrow> string \<Rightarrow> string \<Rightarrow> string \<Rightarrow> string \<Rightarrow> int option \<Rightarrow> 'r sys \<Rightarrow> 'r sys \<times> (exn + string \<times> int)" where
  "mint_user_token R E now jti token email verification org_id s =
     (case require_permission R E now ''service_token.mint'' token (lim_redis (s_lim s)) (s_db s) of
        Inl e \<Rightarrow> (s, Inl e)
      | Inr caller \<Rightarrow>
          (case int_sub caller of
             Inl e \<Rightarrow> (s, Inl e)
           | Inr actor \<Rightarrow>
               let (l, limited, newly) = mint_rate_limited R (cfg E) now (the (sub_text (get_claim caller ''sub''))) (s_lim s);
                   s1 = s\<lparr>s_lim := l\<rparr>
               in if limited
                  then (if newly then s1\<lparr>s_db := log_denied E now actor ''rate_limited'' email org_id verification None None (s_db s1)\<rparr> else s1,
                        Inl (HTTPException 429 ''Too many mint requests; try again later''))
                  else (case claim_in MINT_PRIVILEGED_PERMISSION caller ''permissions'' of
                          Inl e \<Rightarrow> (s1, Inl e)
                        | Inr allow \<Rightarrow>
                            (case mint_user_service_token E now jti email actor verification org_id allow (s_db s1) of
                               (d, Inl e) \<Rightarrow> (s1\<lparr>s_db := d\<rparr>, Inl (mint_refused_detail e))
                             | (d, Inr x) \<Rightarrow> (s1\<lparr>s_db := d\<rparr>, Inr x)))))"

subsection \<open>Properties\<close>

lemma claimed_build: "claimed (build_user_claims s u am idp team m) =
   sorted_set (concat (map (role_perms s) (roles_of_user s u))
     @ (case (case m of Some x \<Rightarrow> Some x | None \<Rightarrow> resolve_primary_membership s (u_id u)) of None \<Rightarrow> [] | Some x \<Rightarrow> permissions_for_membership s x))"
  by (simp add: claimed_def build_user_claims_def Let_def o_def split: prod.split)

lemma mint_checks_Inr:
  assumes "mint_checks s email org_id allow = (uo, mo, Inr (payload, privileged))"
  obtains u where "find_user_ignoring_case s email = Some u" "u_status u = ''active''" "uo = Some u" "resolve_membership s (u_id u) org_id = Inr mo"
    "pred_option (\<lambda>x. map_option o_status (find_org s (m_organization_id x)) = Some ''active'') mo"
    "payload = build_user_claims s u (JStr ''service_mint'') JNull None mo"
    "allow \<or> list_all (\<lambda>p. \<not> is_privileged_permission p) (claimed payload)"
  using assms by (auto simp: mint_checks_def Let_def list_all_iff filter_empty_conv split: option.splits if_splits sum.splits)

lemma resolve_primary_active:
  assumes "resolve_primary_membership s uid = Some m"
  shows "m \<in> set (memberships s) \<and> m_user_id m = uid \<and> m_status m = ''active''"
proof -
  let ?ms = "sort_key m_id (filter (\<lambda>m. m_user_id m = uid \<and> m_status m = ''active'') (memberships s))"
  have "m \<in> set ?ms"
  proof (cases "query_first (\<lambda>m. map_option o_slug (find_org s (m_organization_id m)) = Some ''default'') ?ms")
    case (Some x)
    then show ?thesis using assms query_first_Some [OF Some] by (simp add: resolve_primary_membership_def Let_def)
  next
    case None
    then show ?thesis using assms by (cases ?ms) (simp_all add: resolve_primary_membership_def Let_def del: query_first_None)
  qed
  then show ?thesis by simp
qed

lemma resolve_membership_active:
  assumes "resolve_membership s uid org_id = Inr (Some m)"
  shows "m \<in> set (memberships s) \<and> m_user_id m = uid \<and> m_status m = ''active'' \<and> (org_id = None \<or> org_id = Some (m_organization_id m))"
proof (cases org_id)
  case None
  then show ?thesis using assms resolve_primary_active by (simp add: resolve_membership_def)
next
  case (Some org)
  then have "query_first (\<lambda>m. m_user_id m = uid \<and> m_organization_id m = org \<and> m_status m = ''active'') (memberships s) = Some m"
    using assms by (simp add: resolve_membership_def split: option.splits)
  then show ?thesis using query_first_Some [of _ "memberships s" m] Some by auto
qed

lemma claimed_organization:
  "get_claim (build_user_claims s u am idp team m) ''org_id''
     = jint_opt (map_option m_organization_id (case m of Some x \<Rightarrow> Some x | None \<Rightarrow> resolve_primary_membership s (u_id u)))"
  by (simp add: build_user_claims_def Let_def split_beta)

lemma no_primary_membership:
  assumes "resolve_primary_membership s uid = None" "m \<in> set (memberships s)" "m_user_id m = uid"
  shows "m_status m \<noteq> ''active''"
proof
  assume "m_status m = ''active''"
  then have "m \<in> set (sort_key m_id (filter (\<lambda>m. m_user_id m = uid \<and> m_status m = ''active'') (memberships s)))" using assms(2,3) by simp
  then have "sort_key m_id (filter (\<lambda>m. m_user_id m = uid \<and> m_status m = ''active'') (memberships s)) \<noteq> []" by force
  then show False using assms(1) by (auto simp: resolve_primary_membership_def Let_def neq_Nil_conv split: option.splits)
qed

text \<open>
  C22. What can be minted. A token is only minted for an account that is active, and for at
  most the lifetime of an access token. It is a token for one organization, which is active and
  of which the account is an active member (the requested one, if one was requested); only when
  no organization was requested and the account has no active membership at all, it is a token
  for no organization. Unless the caller may mint privileged tokens, every permission the
  account's roles carry (those of its membership there included) is registered for both scopes
  and is none of the services' own: an account with any other permission is refused.
\<close>

theorem mint_bounded:
  assumes "mint_user_service_token E now jti email actor verification org_id allow s = (s', Inr (token, expires_in))"
  shows "\<exists>u m. find_user_ignoring_case s email = Some u \<and> u_status u = ''active''
     \<and> token = create_access_token E now jti (build_user_claims s u (JStr ''service_mint'') JNull None m) (Some expires_in)
     \<and> expires_in \<le> ACCESS_TOKEN_EXPIRE_MINUTES (cfg E) * 60
     \<and> (case m of None \<Rightarrow> org_id = None \<and> (\<forall>x \<in> set (memberships s). m_user_id x = u_id u \<longrightarrow> m_status x \<noteq> ''active'')
            \<and> get_claim (build_user_claims s u (JStr ''service_mint'') JNull None m) ''org_id'' = JNull
        | Some x \<Rightarrow> x \<in> set (memberships s) \<and> m_user_id x = u_id u \<and> m_status x = ''active''
            \<and> (org_id = None \<or> org_id = Some (m_organization_id x))
            \<and> get_claim (build_user_claims s u (JStr ''service_mint'') JNull None m) ''org_id'' = JInt (m_organization_id x)
            \<and> map_option o_status (find_org s (m_organization_id x)) = Some ''active'')
     \<and> (allow \<or> list_all (\<lambda>p. \<exists>d. map_of REGISTRY p = Some d \<and> pd_scope d = SCOPE_BOTH \<and> p \<notin> set SERVICE_IDENTITY_PERMISSIONS)
          (concat (map (role_perms s) (roles_of_user s u)) @ (case m of None \<Rightarrow> [] | Some x \<Rightarrow> permissions_for_membership s x)))"
proof -
  obtain uo m payload privileged where ch: "mint_checks s email org_id allow = (uo, m, Inr (payload, privileged))"
    and tok: "token = create_access_token E now jti payload (Some expires_in)" "expires_in = mint_ttl_seconds (cfg E)"
  proof -
    obtain uo m x where x: "mint_checks s email org_id allow = (uo, m, x)" by (cases "mint_checks s email org_id allow")
    then obtain payload privileged where "x = Inr (payload, privileged)"
      using assms by (cases x) (auto simp: mint_user_service_token_def)
    note x = x [unfolded this]
    have "token = create_access_token E now jti payload (Some (mint_ttl_seconds (cfg E)))" "expires_in = mint_ttl_seconds (cfg E)"
      using assms by (auto simp: mint_user_service_token_def x Let_def)
    then show ?thesis using that [OF x] by blast
  qed
  from ch obtain u where u: "find_user_ignoring_case s email = Some u" "u_status u = ''active''" "uo = Some u"
    and res: "resolve_membership s (u_id u) org_id = Inr m"
    and org: "pred_option (\<lambda>x. map_option o_status (find_org s (m_organization_id x)) = Some ''active'') m"
    and pl: "payload = build_user_claims s u (JStr ''service_mint'') JNull None m"
    and pr: "allow \<or> list_all (\<lambda>p. \<not> is_privileged_permission p) (claimed payload)"
    by (rule mint_checks_Inr)
  have m: "case m of None \<Rightarrow> org_id = None \<and> (\<forall>x \<in> set (memberships s). m_user_id x = u_id u \<longrightarrow> m_status x \<noteq> ''active'')
            \<and> get_claim (build_user_claims s u (JStr ''service_mint'') JNull None m) ''org_id'' = JNull
        | Some x \<Rightarrow> x \<in> set (memberships s) \<and> m_user_id x = u_id u \<and> m_status x = ''active''
            \<and> (org_id = None \<or> org_id = Some (m_organization_id x))
            \<and> get_claim (build_user_claims s u (JStr ''service_mint'') JNull None m) ''org_id'' = JInt (m_organization_id x)
            \<and> map_option o_status (find_org s (m_organization_id x)) = Some ''active''"
  proof (cases m)
    case None
    then have "org_id = None" "resolve_primary_membership s (u_id u) = None"
      using res by (cases org_id; simp add: resolve_membership_def split: option.splits)+
    then show ?thesis using None by (simp add: claimed_organization no_primary_membership jint_opt_def)
  next
    case (Some x)
    then show ?thesis using resolve_membership_active [of s "u_id u" org_id x] res org by (simp add: claimed_organization jint_opt_def)
  qed
  have "set (concat (map (role_perms s) (roles_of_user s u)) @ (case m of None \<Rightarrow> [] | Some x \<Rightarrow> permissions_for_membership s x)) \<subseteq> set (claimed payload)"
    unfolding pl claimed_build by (auto split: option.splits)
  moreover have "\<exists>d. map_of REGISTRY p = Some d \<and> pd_scope d = SCOPE_BOTH \<and> p \<notin> set SERVICE_IDENTITY_PERMISSIONS"
    if "\<not> is_privileged_permission p" for p
    using that by (auto simp: is_privileged_permission_def split: option.splits) (metis permission_scope.exhaust)
  ultimately have "allow \<or> list_all (\<lambda>p. \<exists>d. map_of REGISTRY p = Some d \<and> pd_scope d = SCOPE_BOTH \<and> p \<notin> set SERVICE_IDENTITY_PERMISSIONS)
      (concat (map (role_perms s) (roles_of_user s u)) @ (case m of None \<Rightarrow> [] | Some x \<Rightarrow> permissions_for_membership s x))"
    using pr unfolding list_all_iff by blast
  then show ?thesis using u(1,2) tok pl m by (intro exI [of _ u] exI [of _ m]) (simp add: mint_ttl_seconds_def)
qed

theorem mint_bounded_witness:
  "\<exists>s' token ttl. mint_user_service_token guard_env 0 ''j'' ''Ada'' 9 ''google'' (Some 7) True guard_db = (s', Inr (token, ttl)) \<and> ttl \<le> 900"
proof -
  have u: "find_user_ignoring_case guard_db ''Ada'' = Some (sample_user 1 ''ada'')"
  proof -
    have "str_lower ''Ada'' = ''ada''" "str_lower ''ada'' = ''ada''" by code_simp+
    then show ?thesis by (simp add: find_user_ignoring_case_def guard_db_def sample_user_def)
  qed
  have m: "resolve_membership guard_db 1 (Some 7) = Inr (Some (hd (memberships guard_db)))" by (simp add: resolve_membership_def guard_db_def)
  have o: "find_org guard_db 7 = Some (hd (organizations guard_db))" by (simp add: find_org_def guard_db_def)
  have "\<exists>x b. mint_checks guard_db ''Ada'' (Some 7) True = (Some (sample_user 1 ''ada''), Some (hd (memberships guard_db)), Inr (x, b))"
    using m by (simp add: mint_checks_def u sample_user_def Let_def) (simp add: o guard_db_def find_org_def)
  then obtain s' token ttl where t: "mint_user_service_token guard_env 0 ''j'' ''Ada'' 9 ''google'' (Some 7) True guard_db = (s', Inr (token, ttl))"
    by (auto simp: mint_user_service_token_def Let_def)
  have "ACCESS_TOKEN_EXPIRE_MINUTES (cfg guard_env) = 15" by (simp add: guard_env_def sample_env_def default_settings_def)
  then show ?thesis using mint_bounded [OF t] t by auto
qed

text \<open>
  Property. A refusal tells the caller nothing and leaves one event. When the route refuses a
  target, the answer is the same for every reason, and the database differs from before by one
  event of the ledger.
\<close>

theorem mint_refusal_uniform:
  assumes "mint_user_service_token E now jti email actor verification org_id allow s = (s', Inl e)"
  shows "\<exists>reason ev. e = MintRefused reason \<and> s' = s\<lparr>audit_events := audit_events s @ [ev]\<rparr>
     \<and> ae_event_type ev = ''service_token_mint_denied''"
proof -
  obtain u m x where x: "mint_checks s email org_id allow = (u, m, x)" by (cases "mint_checks s email org_id allow")
  then obtain reason where "x = Inl reason" using assms by (cases x) (auto simp: mint_user_service_token_def Let_def)
  then show ?thesis using assms x
    by (auto simp: mint_user_service_token_def log_denied_def log_event_def new_event_def set_integrity_def audit_def Let_def)
qed

theorem mint_refusal_uniform_witness:
  "\<exists>s' ev. mint_user_service_token guard_env 0 ''j'' ''eve'' 9 ''google'' None True guard_db = (s', Inl (MintRefused ''unknown_user''))
     \<and> audit_events s' = [ev] \<and> ae_event_type ev = ''service_token_mint_denied''"
proof -
  have "find_user_ignoring_case guard_db ''eve'' = None"
    by (simp add: find_user_ignoring_case_def guard_db_def sample_user_def str_lower_def lower_char_def)
  then obtain s' where t: "mint_user_service_token guard_env 0 ''j'' ''eve'' 9 ''google'' None True guard_db = (s', Inl (MintRefused ''unknown_user''))"
    by (simp add: mint_user_service_token_def mint_checks_def)
  from mint_refusal_uniform [OF t] show ?thesis using t by (auto simp: guard_db_def empty_db_def)
qed

end
