(* ===== verification/License_Routes.thy ===== *)
theory License_Routes
  imports Licenses Auth_Routes
begin

text \<open>
  \<open>app/api/routes_license.py\<close> and \<open>app/api/routes_platform_licenses.py\<close>: signing in with a license, the
  token for the container registry, generating and revoking plain licenses, and the privileged
  issuance. The tenant provisioning that a sign-in schedules in the background is left out; the
  registry token of the settings and the bullets of a masked key are arguments; of a
  \<open>ManualLicenseError\<close> the answer keeps the code. The second attempt after an
  \<open>IntegrityError\<close> is for a concurrent request, which the model does not have.

  The theory shows what a sign-in with a license had to pass, that it does not look at the status
  of the account, and who administers licenses.
\<close>

subsection \<open>Signing in with a license\<close>

record license_info =
  in_user_id :: int
  in_email :: string
  in_plan :: string
  in_expiry :: "time option"
  in_days_remaining :: "int option"
  in_org_id :: "int option"

datatype license_answer =
    License_invalid string
  | License_factor string "string list" license_info
  | License_tokens string string license_info

definition license_info_of :: "time \<Rightarrow> db \<Rightarrow> user \<Rightarrow> license_key \<Rightarrow> license_info" where
  "license_info_of now s u l = \<lparr>in_user_id = u_id u, in_email = u_email u, in_plan = lk_plan l, in_expiry = lk_expires_at l,
     in_days_remaining = map_option (\<lambda>x. max ((x - now) div days 1) 0) (lk_expires_at l),
     in_org_id = map_option m_organization_id (resolve_primary_membership s (u_id u))\<rparr>"

definition finish_license_login ::
  "env \<Rightarrow> time \<Rightarrow> string \<Rightarrow> string \<Rightarrow> string \<Rightarrow> string \<Rightarrow> string \<Rightarrow> user \<Rightarrow> license_info \<Rightarrow> db \<Rightarrow> db \<times> (exn + license_answer)" where
  "finish_license_login E now ja jr fid code ej u info s =
     (case generate_tokens_or_mfa_challenge E now ja jr fid code u ''license'' None None None no_saml s of
        (s1, Inr (Tokens access refresh)) \<Rightarrow> (s1, Inr (License_tokens access refresh info))
      | (s1, Inr (Challenge challenge methods)) \<Rightarrow> (s1, Inr (License_factor challenge methods info))
      | (s1, Inl MFAEnrollmentRequiredError) \<Rightarrow>
          let (s2, token) = create_enrollment_token E now ej (u_id u) s1
          in (s2, Inl (HTTPDetail 403 (JObj [(''error'', JStr ''mfa_enrollment_required''),
                 (''message'', JStr ''Your organization requires MFA enrollment''), (''enrollment_token'', JStr token)])))
      | (s1, Inl e) \<Rightarrow> (s1, Inl e))"

definition validate_license ::
  "env \<Rightarrow> time \<Rightarrow> string \<Rightarrow> string \<Rightarrow> string \<Rightarrow> string \<Rightarrow> string \<Rightarrow> string \<Rightarrow> string option \<Rightarrow> string \<Rightarrow> string option \<Rightarrow> db
     \<Rightarrow> db \<times> (exn + license_answer)" where
  "validate_license E now ja jr fid code ej key email platform machine s =
     (case validate_and_consume E now s key email platform of
        Inl reason \<Rightarrow> (s, Inr (License_invalid reason))
      | Inr l \<Rightarrow>
          let (s1, u) = get_or_create_user_for_email now (if truthy email then the email else lk_email l) s;
              s2 = mark_license_used now l u s1;
              s3 = (if truthy machine then bind_machine_id l (the machine) s2 else s2)
          in finish_license_login E now ja jr fid code ej u (license_info_of now s3 u l) s3)"

definition pull_token :: "env \<Rightarrow> time \<Rightarrow> string \<Rightarrow> string \<Rightarrow> string option \<Rightarrow> db \<Rightarrow> db \<times> (exn + string)" where
  "pull_token E now ghcr_token key machine s =
     (case validate_and_consume E now s key None ''desktop'' of
        Inl reason \<Rightarrow> refuse s (if reason = ''invalid_key'' then 404 else 403) reason
      | Inr l \<Rightarrow> (if truthy machine then bind_machine_id l (the machine) s else s, Inr ghcr_token))"

subsection \<open>Plain licenses\<close>

definition MANAGE_LICENSES :: string where
  "MANAGE_LICENSES = ''manage_licenses''"

definition LICENSE_ISSUE :: string where
  "LICENSE_ISSUE = ''license.issue''"

text \<open>Who generated a license: a service by its client id, or an account.\<close>

definition license_actor :: "claims \<Rightarrow> exn + int option \<times> int option \<times> (string \<times> json) list" where
  "license_actor caller =
     (if get_claim caller ''auth_method'' = JStr ''client_credentials''
      then Inr (None, json_int (get_claim caller ''org_id''),
                [(''actor_type'', JStr ''oauth_client''), (''actor_client_id'', get_claim caller ''client_id'')])
      else map_sum id (\<lambda>uid. (Some uid, None, [])) (int_sub caller))"

definition generate_license ::
  "'r redis \<Rightarrow> env \<Rightarrow> time \<Rightarrow> string \<Rightarrow> (nat \<Rightarrow> nat list) \<Rightarrow> string \<Rightarrow> string \<Rightarrow> string \<Rightarrow> string \<Rightarrow> int option \<Rightarrow> int \<Rightarrow> 'r \<Rightarrow> db
     \<Rightarrow> (db \<times> (exn + license_key)) option" where
  "generate_license R E now bullets draws token email plan platform expires_days max_uses r s =
     (case require_permission_or_service_scope R E now MANAGE_LICENSES LICENSE_ISSUE token r s of
        Inl e \<Rightarrow> Some (s, Inl e)
      | Inr caller \<Rightarrow>
          map_option (\<lambda>(s1, l).
            or_raise s (license_actor caller) (\<lambda>(actor, org, extra).
              (log_event E now ((audit ''license_generated'')\<lparr>a_actor := actor, a_org := org, a_rtype := Some ''license_key'', a_rid := Some (show_int (lk_id l)),
                 a_after := JObj [(''email'', JStr (lk_email l)), (''plan'', JStr (lk_plan l)), (''platform'', JStr (lk_platform l)),
                   (''expires_at'', (case lk_expires_at l of None \<Rightarrow> JNull | Some x \<Rightarrow> JStr (isoformat_auto E x))), (''max_uses'', JInt (lk_max_uses l))],
                 a_meta := JObj ((''key'', JStr (masked_text bullets (the (lk_key l)))) # extra)\<rparr>) s1,
               Inr l)))
          (create_license now draws email plan platform expires_days max_uses s))"

definition license_status :: "'r redis \<Rightarrow> env \<Rightarrow> time \<Rightarrow> string \<Rightarrow> 'r \<Rightarrow> db \<Rightarrow> exn + license_key" where
  "license_status R E now token r s =
     (case get_current_user R E now token r s of
        Inl e \<Rightarrow> Inl e
      | Inr user \<Rightarrow> (case int_sub user of Inl e \<Rightarrow> Inl e | Inr uid \<Rightarrow> or_404 ''No license found for this account'' (get_status_for_user s uid)))"

definition revoke_license :: "'r redis \<Rightarrow> env \<Rightarrow> time \<Rightarrow> string \<Rightarrow> string \<Rightarrow> string option \<Rightarrow> 'r \<Rightarrow> db \<Rightarrow> db \<times> (exn + bool)" where
  "revoke_license R E now token key reason r s =
     or_raise s (require_permission R E now MANAGE_LICENSES token r s) (\<lambda>user.
     let (s1, success) = revoke_license_key now key reason s
     in if \<not> success then refuse s1 404 ''License key not found'' else (s1, Inr success))"

subsection \<open>Privileged administration\<close>

definition DESIGNATED_ADMIN_USER_ID :: int where
  "DESIGNATED_ADMIN_USER_ID = 1"

definition may_administer_licenses :: "db \<Rightarrow> user \<Rightarrow> bool" where
  "may_administer_licenses s u \<longleftrightarrow>
     (let names = map r_name (roles_of_user s u)
      in {''platform_admin'', ''admin''} \<subseteq> set names \<or> (u_id u = DESIGNATED_ADMIN_USER_ID \<and> ''admin'' \<in> set names))"

definition authorized_license_admin :: "'r redis \<Rightarrow> env \<Rightarrow> time \<Rightarrow> string \<Rightarrow> 'r \<Rightarrow> db \<Rightarrow> exn + user" where
  "authorized_license_admin R E now token r s =
     (case get_current_user R E now token r s of
        Inl e \<Rightarrow> Inl e
      | Inr identity \<Rightarrow>
          (case int_sub identity of
             Inl e \<Rightarrow> Inl e
           | Inr uid \<Rightarrow>
               (case query_first (\<lambda>u. u_id u = uid \<and> u_status u = ''active'') (users s) of
                  None \<Rightarrow> Inl (HTTPException 403 ''Forbidden'')
                | Some u \<Rightarrow> if may_administer_licenses s u then Inr u
                            else Inl (HTTPException 403 ''Manual license administration is restricted''))))"

definition manual_error :: "exn \<Rightarrow> exn" where
  "manual_error e = (case e of ManualLicenseError code status \<Rightarrow> HTTPDetail status (JObj [(''code'', JStr code)]) | _ \<Rightarrow> e)"

definition license_policy :: "'r redis \<Rightarrow> env \<Rightarrow> time \<Rightarrow> string \<Rightarrow> 'r \<Rightarrow> db \<Rightarrow> exn + int list \<times> string list \<times> bool" where
  "license_policy R E now token r s =
     (case authorized_license_admin R E now token r s of
        Inl e \<Rightarrow> Inl e
      | Inr u \<Rightarrow> let validities = LICENSE_ALLOWED_VALIDITY_DAYS (cfg E) in Inr (validities, [''developer'', ''application_user''], validities \<noteq> []))"

record issue_response =
  ir_license :: license_metadata
  ir_key :: "string option"
  ir_idempotent_replay :: bool

definition issue_license ::
  "'r redis \<Rightarrow> env \<Rightarrow> time \<Rightarrow> string \<Rightarrow> (nat \<Rightarrow> nat list) \<Rightarrow> string \<Rightarrow> string \<Rightarrow> license_order \<Rightarrow> 'r \<Rightarrow> db \<Rightarrow> (db \<times> (exn + issue_response)) option" where
  "issue_license R E now bullets draws token idem q r s =
     (case authorized_license_admin R E now token r s of
        Inl e \<Rightarrow> Some (s, Inl e)
      | Inr actor \<Rightarrow>
          map_option (\<lambda>v. case v of
              Inl e \<Rightarrow> (s, Inl (manual_error e))
            | Inr (s1, l, key, again) \<Rightarrow>
                (s1, Inr \<lparr>ir_license = metadata_for bullets now s1 l, ir_key = key, ir_idempotent_replay = again\<rparr>))
          (issue E now draws (u_id actor) idem q s))"

definition list_licenses_route ::
  "'r redis \<Rightarrow> env \<Rightarrow> time \<Rightarrow> string \<Rightarrow> string \<Rightarrow> int option \<Rightarrow> 'r \<Rightarrow> db \<Rightarrow> exn + license_metadata list" where
  "list_licenses_route R E now bullets token org r s =
     (case authorized_license_admin R E now token r s of
        Inl e \<Rightarrow> Inl e | Inr u \<Rightarrow> Inr (map (metadata_for bullets now s) (list_licenses s org)))"

definition get_license_route :: "'r redis \<Rightarrow> env \<Rightarrow> time \<Rightarrow> string \<Rightarrow> string \<Rightarrow> int \<Rightarrow> 'r \<Rightarrow> db \<Rightarrow> exn + license_metadata" where
  "get_license_route R E now bullets token i r s =
     (case authorized_license_admin R E now token r s of
        Inl e \<Rightarrow> Inl e | Inr u \<Rightarrow> map_sum id (metadata_for bullets now s) (or_404 ''License not found'' (get_license s i)))"

text \<open>The row of a license after a write, shown.\<close>

definition shown_license :: "string \<Rightarrow> time \<Rightarrow> int \<Rightarrow> db \<Rightarrow> db \<times> (exn + license_metadata)" where
  "shown_license bullets now i s = (s, map_sum id (metadata_for bullets now s) (or_404 ''License not found'' (get_license s i)))"

definition revoke_license_route ::
  "'r redis \<Rightarrow> env \<Rightarrow> time \<Rightarrow> string \<Rightarrow> string \<Rightarrow> int \<Rightarrow> string \<Rightarrow> 'r \<Rightarrow> db \<Rightarrow> db \<times> (exn + license_metadata)" where
  "revoke_license_route R E now bullets token i reason r s =
     or_raise s (authorized_license_admin R E now token r s) (\<lambda>actor.
     or_raise s (or_404 ''License not found'' (get_license s i)) (\<lambda>l.
     shown_license bullets now i (revoke_manual_license E now l (u_id actor) reason s)))"

definition renew_license_route ::
  "'r redis \<Rightarrow> env \<Rightarrow> time \<Rightarrow> string \<Rightarrow> string \<Rightarrow> int \<Rightarrow> int \<Rightarrow> 'r \<Rightarrow> db \<Rightarrow> db \<times> (exn + license_metadata)" where
  "renew_license_route R E now bullets token i n r s =
     or_raise s (authorized_license_admin R E now token r s) (\<lambda>actor.
     or_raise s (or_404 ''License not found'' (get_license s i)) (\<lambda>l.
     case renew E now l (u_id actor) n s of Inl e \<Rightarrow> (s, Inl (manual_error e)) | Inr s1 \<Rightarrow> shown_license bullets now i s1))"

definition license_history_route :: "'r redis \<Rightarrow> env \<Rightarrow> time \<Rightarrow> string \<Rightarrow> int \<Rightarrow> 'r \<Rightarrow> db \<Rightarrow> exn + audit_event list" where
  "license_history_route R E now token i r s =
     (case authorized_license_admin R E now token r s of
        Inl e \<Rightarrow> Inl e
      | Inr u \<Rightarrow> if get_license s i = None then Inl (HTTPException 404 ''License not found'') else Inr (history s i))"

subsection \<open>Properties\<close>

lemma finish_license_tokens:
  assumes "finish_license_login E now ja jr fid code ej u info s = (s', Inr (License_tokens a t info'))"
  shows "generate_tokens_or_mfa_challenge E now ja jr fid code u ''license'' None None None no_saml s = (s', Inr (Tokens a t)) \<and> info' = info"
proof -
  obtain d v where g: "generate_tokens_or_mfa_challenge E now ja jr fid code u ''license'' None None None no_saml s = (d, v)" by force
  show ?thesis
  proof (cases v)
    case (Inl e)
    then show ?thesis using assms g by (cases e) (auto simp: finish_license_login_def split: prod.splits)
  next
    case (Inr x)
    then show ?thesis using assms g by (cases x) (auto simp: finish_license_login_def)
  qed
qed

lemma tokens_no_factor:
  assumes "generate_tokens_or_mfa_challenge E now ja jr fid code u am idp ip ua sc s = (s', Inr (Tokens a t))"
  shows "\<not> u_mfa_enabled u \<and> \<not> org_requires_mfa s (map_option m_organization_id (resolve_primary_membership s (u_id u)))
    \<and> generate_tokens E now ja jr fid u am (jint_opt idp) ip ua sc s = (s', a, t)"
  using assms by (auto simp: generate_tokens_or_mfa_challenge_def Let_def split: if_splits sum.splits prod.splits)

text \<open>The tables an organization's demand for a second factor is read from; a license leaves them alone.\<close>

definition same_standing :: "db \<Rightarrow> db \<Rightarrow> bool" where
  "same_standing s' s \<longleftrightarrow> memberships s' = memberships s \<and> organizations s' = organizations s \<and> mfa_policies s' = mfa_policies s"

lemma standing_demands:
  "same_standing s' s \<Longrightarrow> org_requires_mfa s' (map_option m_organization_id (resolve_primary_membership s' i))
     = org_requires_mfa s (map_option m_organization_id (resolve_primary_membership s i))"
  by (simp add: same_standing_def org_requires_mfa_def resolve_primary_membership_def find_org_def split: option.split)

lemma role_creation_standing: "same_standing (fst (get_or_create_role n ps s)) s"
  unfolding same_standing_def by (subst (1 2 3) get_or_create_role_writes) simp

lemma get_or_create_standing: "same_standing (fst (get_or_create_user_for_email now email s)) s"
  using role_creation_standing [of "''user''" "[]" "s\<lparr>users := users s @ [licensed_user now email s]\<rparr>"]
  by (simp add: same_standing_def get_or_create_user_for_email_def assign_default_role_def Let_def split_beta split: option.split)

text \<open>The account a license signs in: the one of its address, or a new one where there is none.\<close>

definition license_account :: "time \<Rightarrow> license_key \<Rightarrow> db \<Rightarrow> user" where
  "license_account now l s = (case find_user_by_email s (lk_email l) of Some u \<Rightarrow> u | None \<Rightarrow> licensed_user now (lk_email l) s)"

lemma get_or_create_account:
  assumes "get_or_create_user_for_email now email s = (s1, u)"
  shows "u = (case find_user_by_email s email of Some u \<Rightarrow> u | None \<Rightarrow> licensed_user now email s)" "u \<in> set (users s1)"
proof -
  have "users (fst (get_or_create_role n ps t)) = users t" for n ps t by (subst get_or_create_role_writes) simp
  then have "users (assign_default_role x t) = users t" for x t by (simp add: assign_default_role_def Let_def split_beta)
  then show "u = (case find_user_by_email s email of Some u \<Rightarrow> u | None \<Rightarrow> licensed_user now email s)" "u \<in> set (users s1)"
    using assms by (auto simp: get_or_create_user_for_email_def find_user_by_email_def Let_def split: option.splits dest: query_first_Some)
qed

text \<open>
  C18. What a sign-in with a license had to pass. If it hands out tokens, the key's license
  exists, has neither been revoked nor expired, was made for the platform or for both, and still
  had a use left or already belongs to an account; an address, if one was given, is the license's;
  and the tokens are made, with the method \<open>license\<close>, for the account the users table has under
  the license's address, or for the new account that is added under it when there is none. This
  account has no authenticator and the organization of its primary membership demands no second
  factor. (The e-mail factor is for passwords only: no sign-in with a license is asked for it.)
\<close>

theorem license_login_gates:
  assumes v: "validate_license E now ja jr fid code ej key email platform machine s = (s', Inr (License_tokens a t info))"
  shows "\<exists>l. lookup_license E s key = Some l \<and> license_live now l \<and> lk_platform l \<in> {''both'', platform}
    \<and> (lk_user_id l \<noteq> None \<or> lk_usage_count l < lk_max_uses l) \<and> email \<in> {None, Some (lk_email l)}
    \<and> (let u = license_account now l s in u_email u = lk_email l \<and> in_user_id info = u_id u \<and> \<not> u_mfa_enabled u
        \<and> \<not> org_requires_mfa s (map_option m_organization_id (resolve_primary_membership s (u_id u)))
        \<and> (\<exists>d. u \<in> set (users d) \<and> generate_tokens E now ja jr fid u ''license'' JNull None None no_saml d = (s', a, t)))"
proof -
  obtain l where l: "validate_and_consume E now s key email platform = Inr l"
    using v by (cases "validate_and_consume E now s key email platform") (auto simp: validate_license_def)
  let ?email = "if truthy email then the email else lk_email l"
  obtain s1 u where u: "get_or_create_user_for_email now ?email s = (s1, u)" by force
  let ?s2 = "mark_license_used now l u s1"
  let ?s3 = "if truthy machine then bind_machine_id l (the machine) ?s2 else ?s2"
  have f: "finish_license_login E now ja jr fid code ej u (license_info_of now ?s3 u l) ?s3 = (s', Inr (License_tokens a t info))"
    using v l u by (simp add: validate_license_def Let_def)
  have g: "lookup_license E s key = Some l" "license_live now l" "lk_platform l \<in> {''both'', platform}"
    "lk_user_id l \<noteq> None \<or> lk_usage_count l < lk_max_uses l" "email \<in> {None, Some (lk_email l)}"
    using l by (auto simp: validate_and_consume_def license_live_def split: option.splits if_splits)
  then have m: "?email = lk_email l" by auto
  have ua: "u = license_account now l s" "u \<in> set (users ?s3)"
    using get_or_create_account [OF u [unfolded m]] by (simp_all add: license_account_def mark_license_used_def bind_machine_id_def set_license_def)
  have "same_standing ?s3 s" using get_or_create_standing [of now ?email s] u by (auto simp: same_standing_def mark_license_used_def bind_machine_id_def set_license_def)
  note same = standing_demands [OF this]
  have "u_email u = lk_email l"
    unfolding ua(1) by (auto simp: license_account_def licensed_user_def find_user_by_email_def split: option.splits dest!: query_first_Some)
  moreover have "in_user_id info = u_id u" using finish_license_tokens [OF f] by (simp add: license_info_of_def)
  moreover have "\<not> u_mfa_enabled u \<and> \<not> org_requires_mfa s (map_option m_organization_id (resolve_primary_membership s (u_id u)))
      \<and> generate_tokens E now ja jr fid u ''license'' JNull None None no_saml ?s3 = (s', a, t)"
    using tokens_no_factor [OF conjunct1 [OF finish_license_tokens [OF f]]] unfolding same by (simp add: jint_opt_def)
  moreover from this ua(2) have "\<exists>d. u \<in> set (users d) \<and> generate_tokens E now ja jr fid u ''license'' JNull None None no_saml d = (s', a, t)"
    by (intro exI [of _ ?s3] conjI) (assumption | elim conjE, assumption)+
  ultimately show ?thesis using g
    by (intro exI [of _ l], unfold Let_def ua(1) [symmetric], intro conjI) (assumption | elim conjE, assumption)+
qed

inductive license_admin_request :: "'r redis \<Rightarrow> env \<Rightarrow> time \<Rightarrow> string \<Rightarrow> 'r \<Rightarrow> db \<Rightarrow> db \<Rightarrow> bool" for R E now token r s where
  issue: "issue_license R E now bullets draws token idem q r s = Some (s', v) \<Longrightarrow> license_admin_request R E now token r s s'"
| revoke: "license_admin_request R E now token r s (fst (revoke_license_route R E now bullets token i reason r s))"
| renew: "license_admin_request R E now token r s (fst (renew_license_route R E now bullets token i n r s))"

text \<open>
  Property. Who administers licenses by hand. If a request to the privileged license routes changed
  anything, its token was a usable user token of an account that is active now and holds the role
  \<open>admin\<close>, and either also the role \<open>platform_admin\<close> or the designated account's number.
\<close>

theorem license_administration_guarded:
  assumes q: "license_admin_request R E now token r s s'" and n: "s' \<noteq> s"
  shows "\<exists>c u. get_current_user R E now token r s = Inr c \<and> int_sub c = Inr (u_id u) \<and> u \<in> set (users s) \<and> u_status u = ''active''
    \<and> (\<exists>x \<in> set (roles_of_user s u). r_name x = ''admin'')
    \<and> ((\<exists>x \<in> set (roles_of_user s u). r_name x = ''platform_admin'') \<or> u_id u = DESIGNATED_ADMIN_USER_ID)"
proof -
  have "\<exists>u. authorized_license_admin R E now token r s = Inr u"
  proof (cases "authorized_license_admin R E now token r s")
    case (Inl e)
    with q have "s' = s" by (auto elim!: license_admin_request.cases simp: issue_license_def revoke_license_route_def renew_license_route_def)
    then show ?thesis using n by blast
  qed blast
  then obtain u where a: "authorized_license_admin R E now token r s = Inr u" by blast
  then obtain c uid where c: "get_current_user R E now token r s = Inr c" "int_sub c = Inr uid"
    "query_first (\<lambda>u. u_id u = uid \<and> u_status u = ''active'') (users s) = Some u" "may_administer_licenses s u"
    by (auto simp: authorized_license_admin_def split: sum.splits option.splits if_splits)
  then show ?thesis using query_first_Some [OF c(3)]
    by (intro exI [of _ c] exI [of _ u]) (auto simp: may_administer_licenses_def Let_def image_iff)
qed

text \<open>
  Property. A license signs in a suspended account. The sign-in with a license never looks at the
  account's status: for a license that validates, if the account of its address has no second
  factor and no organization demands one, tokens are issued, whatever the account's status is.
\<close>

theorem license_login_ignores_status:
  assumes l: "validate_and_consume E now s key None platform = Inr l" and u: "find_user_by_email s (lk_email l) = Some u" "\<not> u_mfa_enabled u"
    and m: "mfa_policies s = []"
  shows "\<exists>s' a t info. validate_license E now ja jr fid code ej key None platform None s = (s', Inr (License_tokens a t info)) \<and> in_user_id info = u_id u"
proof -
  have "mfa_policies (mark_license_used now l u s) = []" using m by (simp add: mark_license_used_def set_license_def)
  then have "\<not> org_requires_mfa (mark_license_used now l u s) org" for org by (simp add: org_requires_mfa_def split: option.split)
  then show ?thesis using l u
    by (simp add: validate_license_def get_or_create_user_for_email_def finish_license_login_def generate_tokens_or_mfa_challenge_def
        license_info_of_def Let_def split_beta)
qed

subsection \<open>Concrete requests\<close>

definition sample_license :: license_key where
  "sample_license = \<lparr>lk_id = 1, lk_key = Some ''OMNI'', lk_key_digest = None, lk_key_prefix = None, lk_user_id = None, lk_email = ''ada'',
     lk_recipient_name = None, lk_plan = ''beta'', lk_platform = ''both'', lk_max_uses = 1, lk_usage_count = 0, lk_created_at = 0, lk_expires_at = None,
     lk_last_used_at = None, lk_revoked_at = None, lk_revoked_reason = None, lk_renewed_at = None, lk_organization_id = None, lk_machine_id = None\<rparr>"

definition suspended_db :: db where
  "suspended_db = empty_db\<lparr>users := [(sample_user 1 ''ada'')\<lparr>u_status := ''suspended''\<rparr>], license_keys := [sample_license]\<rparr>"

lemma sample_validates: "validate_and_consume (sample_env Map.empty) 0 suspended_db ''OMNI'' None ''web'' = Inr sample_license"
  by (simp add: validate_and_consume_def lookup_license_def digest_key_def sample_env_def default_settings_def normalize_key_def suspended_db_def
      sample_license_def str_strip_def rstrip_by_def is_space_def str_upper_def upper_char_def)

theorem license_login_ignores_status_witness:
  "\<exists>s' a t info. validate_license (sample_env Map.empty) 0 ''a'' ''r'' ''f'' ''0'' ''e'' ''OMNI'' None ''web'' None suspended_db
     = (s', Inr (License_tokens a t info)) \<and> in_user_id info = 1 \<and> u_status (hd (users suspended_db)) = ''suspended''"
proof -
  let ?u = "(sample_user 1 ''ada'')\<lparr>u_status := ''suspended''\<rparr>"
  have "find_user_by_email suspended_db (lk_email sample_license) = Some ?u" "\<not> u_mfa_enabled ?u" "mfa_policies suspended_db = []" "u_id ?u = 1"
    "u_status (hd (users suspended_db)) = ''suspended''"
    by (simp_all add: find_user_by_email_def suspended_db_def sample_license_def sample_user_def empty_db_def)
  then show ?thesis using license_login_ignores_status [OF sample_validates, of ?u "''a''" "''r''" "''f''" "''0''" "''e''"] by simp
qed

theorem license_login_gates_witness:
  "\<exists>s' a t info l. validate_license (sample_env Map.empty) 0 ''a'' ''r'' ''f'' ''0'' ''e'' ''OMNI'' None ''web'' None suspended_db
     = (s', Inr (License_tokens a t info)) \<and> lookup_license (sample_env Map.empty) suspended_db ''OMNI'' = Some l \<and> license_live 0 l"
proof -
  let ?u = "(sample_user 1 ''ada'')\<lparr>u_status := ''suspended''\<rparr>"
  have u: "find_user_by_email suspended_db (lk_email sample_license) = Some ?u" "\<not> u_mfa_enabled ?u" "mfa_policies suspended_db = []"
    by (simp_all add: find_user_by_email_def suspended_db_def sample_license_def sample_user_def empty_db_def)
  let ?s2 = "mark_license_used 0 sample_license ?u suspended_db"
  have "mfa_policies ?s2 = []" using u(3) by (simp add: mark_license_used_def set_license_def)
  then have "\<not> org_requires_mfa ?s2 org" for org by (simp add: org_requires_mfa_def split: option.split)
  then obtain s' a t info where "validate_license (sample_env Map.empty) 0 ''a'' ''r'' ''f'' ''0'' ''e'' ''OMNI'' None ''web'' None suspended_db
      = (s', Inr (License_tokens a t info))"
    using u sample_validates by (simp add: validate_license_def get_or_create_user_for_email_def finish_license_login_def
        generate_tokens_or_mfa_challenge_def Let_def split_beta)
  then show ?thesis using license_login_gates [of "sample_env Map.empty" 0 "''a''" "''r''" "''f''" "''0''" "''e''" "''OMNI''" None] by fastforce
qed

definition licensing_db :: db where
  "licensing_db = empty_db\<lparr>users := [sample_user 1 ''ada''], roles := [\<lparr>r_id = 3, r_name = ''admin'', r_description = None, r_organization_id = None\<rparr>],
     user_roles := [(1, 3)], license_keys := [sample_license]\<rparr>"

theorem license_administration_guarded_witness:
  "\<exists>s' u. license_admin_request kv_redis guard_env 0 ''tok'' (True, []) licensing_db s' \<and> s' \<noteq> licensing_db
     \<and> u \<in> set (users licensing_db) \<and> (\<exists>x \<in> set (roles_of_user licensing_db u). r_name x = ''admin'')"
proof -
  have g: "get_current_user kv_redis guard_env 0 ''tok'' (True, []) licensing_db = Inr guard_claims"
    unfolding get_current_user_Inr
    by (simp add: decode_token_def decode_token_for_audience_def guard_env_def sample_env_def guard_claims_def assert_token_usable_def
        Let_def kv_redis_def live_entry_def kv_entry_def licensing_db_def empty_db_def query_exists_def find_subject_def sub_text_def
        sample_user_def show_int_1)
  have a: "authorized_license_admin kv_redis guard_env 0 ''tok'' (True, []) licensing_db = Inr (sample_user 1 ''ada'')"
    using guard_sub by (simp add: authorized_license_admin_def g) (simp add: may_administer_licenses_def roles_of_user_def
        DESIGNATED_ADMIN_USER_ID_def licensing_db_def sample_user_def)
  let ?s = "fst (revoke_license_route kv_redis guard_env 0 ''*'' ''tok'' 1 ''lost'' (True, []) licensing_db)"
  have r: "license_admin_request kv_redis guard_env 0 ''tok'' (True, []) licensing_db ?s" by (rule license_admin_request.revoke)
  have l: "license_keys licensing_db = [sample_license]" "get_license licensing_db 1 = Some sample_license"
    by (simp_all add: get_license_def licensing_db_def sample_license_def)
  then have "lk_revoked_at (hd (license_keys ?s)) = Some 0"
    using a by (simp add: revoke_license_route_def shown_license_def or_404_def revoke_manual_license_def set_license_def sample_license_def)
  moreover have "lk_revoked_at (hd (license_keys licensing_db)) = None" using l(1) by (simp add: sample_license_def)
  ultimately have n: "?s \<noteq> licensing_db" by auto
  show ?thesis using license_administration_guarded [OF r n] r n by blast
qed

end
