(* ===== verification/Oauth_Routes.thy ===== *)
theory Oauth_Routes
  imports Federation License_Routes
begin

text \<open>
  \<open>app/api/routes_oauth.py\<close>: the redirect to a public provider, its two callbacks and the
  confirmation of a link with the account's password. The network is the record \<open>remote\<close>; the
  fresh identifiers of a request are the record \<open>fresh_ids\<close>.

  The theory shows what a sign-in through a provider had to pass, which accounts are linked
  without a password, that the status of a linked account is not looked at, and that a refusal or
  an outage of the provider changes nothing but the ledger.
\<close>

subsection \<open>Failures of the provider\<close>

text \<open>\<open>str.casefold\<close>: among the first 256 code points it differs from \<open>lower\<close> in the sharp s.\<close>

definition str_casefold :: "string \<Rightarrow> string" where
  "str_casefold s = concat (map (\<lambda>c. if c = char_of (223 :: nat) then ''ss'' else [lower_char c]) s)"

definition OAUTH_CALLBACK_MESSAGES :: "string \<Rightarrow> string" where
  "OAUTH_CALLBACK_MESSAGES category =
     (if category = ''cancelled'' then ''Sign-in was cancelled. You can try again.''
      else if category = ''not_test_user'' then ''This app is still being tested. Ask an administrator to add your account as a test user.''
      else if category = ''misconfigured'' then ''Sign-in is temporarily unavailable. Ask an administrator to check the OAuth app configuration.''
      else ''Sign-in couldn't be completed. Please try again or contact support.'')"

definition oauth_callback_failure :: "string option \<Rightarrow> string option \<Rightarrow> string \<times> string" where
  "oauth_callback_failure error description =
     (let code = str_casefold (str_strip (case error of None \<Rightarrow> '''' | Some e \<Rightarrow> e));
          detail = str_casefold (case description of None \<Rightarrow> '''' | Some d \<Rightarrow> d);
          category =
            (if \<exists>m \<in> set [''test user'', ''test users'', ''testing'', ''test mode'', ''test account'', ''developer-approved'',
                  ''developer approved'', ''not been added as a tester'']. contains_text m detail
             then ''not_test_user''
             else if code \<in> {''invalid_client'', ''unauthorized_client'', ''invalid_request'', ''invalid_scope'', ''redirect_uri_mismatch'',
                    ''unauthorized'', ''aadsts50011''}
               \<or> (\<exists>m \<in> set [''redirect_uri'', ''redirect uri'', ''reply url'', ''client_id'', ''client id'', ''client_secret'', ''client secret'',
                    ''misconfigured'', ''configuration error'', ''application with identifier'', ''aadsts50011'']. contains_text m detail)
             then ''misconfigured''
             else if code \<in> {''access_denied'', ''user_cancelled'', ''user_canceled''} then ''cancelled'' else ''failed'')
      in (category, OAUTH_CALLBACK_MESSAGES category))"

subsection \<open>Tokens for an account that has been identified\<close>

record fresh_ids =
  f_access :: string
  f_refresh :: string
  f_family :: string
  f_enrol :: string
  f_link :: string

definition audit_oauth ::
  "env \<Rightarrow> time \<Rightarrow> string \<Rightarrow> string \<Rightarrow> string option \<Rightarrow> user option \<Rightarrow> (string \<times> json) list \<Rightarrow> db \<Rightarrow> db" where
  "audit_oauth E now event_type provider email u extra s =
     log_event E now ((audit event_type)
       \<lparr>a_actor := map_option u_id u, a_target := map_option u_id u, a_rtype := map_option (\<lambda>_. ''user'') u,
        a_rid := map_option (\<lambda>x. show_int (u_id x)) u,
        a_meta := JObj ([(''provider'', JStr provider), (''email'', jstr_opt email)] @ extra)\<rparr>) s"

text \<open>
  \<open>_issue_tokens_or_challenge\<close>: an account whose organization demands a factor it has not enrolled
  is sent to enrolment. No e-mail code is sent for these methods.
\<close>

definition issue_tokens_or_challenge ::
  "env \<Rightarrow> time \<Rightarrow> fresh_ids \<Rightarrow> user \<Rightarrow> string \<Rightarrow> int option \<Rightarrow> db \<Rightarrow> db \<times> (exn + login_result)" where
  "issue_tokens_or_challenge E now f u auth_method idp_org s =
     (case generate_tokens_or_mfa_challenge E now (f_access f) (f_refresh f) (f_family f) '''' u auth_method idp_org None None no_saml s of
        (s1, Inl MFAEnrollmentRequiredError) \<Rightarrow>
          let (s2, token) = create_enrollment_token E now (f_enrol f) (u_id u) s1
          in (s2, Inl (HTTPDetail 403 (JObj [(''error'', JStr ''mfa_enrollment_required''),
                 (''message'', JStr ''Your organization requires MFA enrollment''), (''enrollment_token'', JStr token)])))
      | other \<Rightarrow> other)"

datatype flow_answer =
    Signed_in string string
  | Second_factor string "string list"
  | Link_required string string string

fun flow_answer_of :: "login_result \<Rightarrow> flow_answer" where
  "flow_answer_of (Tokens access refresh) = Signed_in access refresh"
| "flow_answer_of (Challenge challenge methods) = Second_factor challenge methods"

definition sign_in :: "env \<Rightarrow> time \<Rightarrow> fresh_ids \<Rightarrow> user \<Rightarrow> string \<Rightarrow> string \<Rightarrow> db \<Rightarrow> db \<times> (exn + flow_answer)" where
  "sign_in E now f u provider email s =
     and_then (issue_tokens_or_challenge E now f u ''oauth'' None s) (\<lambda>s1 result.
     (audit_oauth E now ''oauth_login'' provider (Some email) (Some u)
        [(''mfa_required'', JBool (case result of Challenge _ _ \<Rightarrow> True | Tokens _ _ \<Rightarrow> False))] s1,
      Inr (flow_answer_of result)))"

definition NO_AUTO_LINK_ROLES :: "string list" where
  "NO_AUTO_LINK_ROLES = [''admin'', ''platform_admin'']"

definition can_auto_link :: "db \<Rightarrow> user \<Rightarrow> bool" where
  "can_auto_link s u \<longleftrightarrow> \<not> truthy (u_hashed_password u) \<and> u_status u = ''active''
     \<and> set (map r_name (roles_of_user s u)) \<inter> set NO_AUTO_LINK_ROLES = {}"

subsection \<open>Guards\<close>

definition require_provider :: "env \<Rightarrow> string \<Rightarrow> exn option" where
  "require_provider E provider =
     (if PROVIDERS E provider = None then Some (HTTPException 404 ''Unknown OAuth provider'')
      else if \<not> is_configured E provider then Some (HTTPException 503 (provider @ '' SSO is not configured''))
      else None)"

definition verify_state :: "env \<Rightarrow> time \<Rightarrow> string \<Rightarrow> string \<Rightarrow> exn + string option" where
  "verify_state E now provider state =
     (case decode_token E now state of
        Inl _ \<Rightarrow> Inl (HTTPException 400 ''Invalid or expired OAuth state'')
      | Inr payload \<Rightarrow>
          if get_claim payload ''type'' \<noteq> JStr ''oauth_state'' \<or> get_claim payload ''provider'' \<noteq> JStr provider
          then Inl (HTTPException 400 ''Invalid OAuth state'')
          else Inr (json_str (get_claim payload ''code_verifier'')))"

subsection \<open>The callback\<close>

definition NOT_APPROVED_MESSAGE :: string where
  "NOT_APPROVED_MESSAGE = ''This email isn't approved yet. Request beta access at omnibioai.org''"

definition UNVERIFIED_EMAIL_MESSAGE :: string where
  "UNVERIFIED_EMAIL_MESSAGE =
     ''Your sign-in provider hasn't verified this email address. Verify it with the provider, or sign in another way.''"

definition reasoned :: "string \<Rightarrow> string \<Rightarrow> exn" where
  "reasoned reason message = HTTPDetail 403 (JObj [(''reason'', JStr reason), (''message'', JStr message)])"

text \<open>An account of the address that is not linked to the identity.\<close>

definition link_by_email :: "env \<Rightarrow> time \<Rightarrow> fresh_ids \<Rightarrow> user \<Rightarrow> string \<Rightarrow> string \<Rightarrow> string \<Rightarrow> db \<Rightarrow> db \<times> (exn + flow_answer)" where
  "link_by_email E now f u provider puid email s =
     (if \<not> can_auto_link s u
      then or_raise s (issue_link_confirmation E now (f_link f) u provider puid email None None None) (\<lambda>token.
           (audit_oauth E now ''oauth_link_required'' provider (Some email) (Some u) [] s, Inr (Link_required token provider email)))
      else or_raise s (link_oauth_to_existing_user now u provider puid email None None s) (\<lambda>s1.
           sign_in E now f u provider email (audit_oauth E now ''oauth_linked'' provider (Some email) (Some u) [] s1)))"

text \<open>No account of the address: only a live license lets one be created.\<close>

definition create_by_email :: "env \<Rightarrow> time \<Rightarrow> fresh_ids \<Rightarrow> string \<Rightarrow> string \<Rightarrow> string \<Rightarrow> db \<Rightarrow> db \<times> (exn + flow_answer)" where
  "create_by_email E now f provider puid email s =
     (if \<not> is_email_approved now s email
      then (audit_oauth E now ''oauth_rejected_not_approved'' provider (Some email) None [] s, Inl (reasoned ''not_approved'' NOT_APPROVED_MESSAGE))
      else or_raise s (create_user_with_oauth now provider puid email None None s) (\<lambda>(s1, u).
           sign_in E now f u provider email (audit_oauth E now ''oauth_account_created'' provider (Some email) (Some u) [] s1)))"

definition complete_oauth_flow ::
  "remote \<Rightarrow> env \<Rightarrow> time \<Rightarrow> fresh_ids \<Rightarrow> string \<Rightarrow> string \<Rightarrow> string option \<Rightarrow> db \<Rightarrow> db \<times> (exn + flow_answer)" where
  "complete_oauth_flow N E now f provider code verifier s =
     (case exchange_code_for_userinfo N E provider code verifier of
        Inl (OAuthUnverifiedEmail _ email) \<Rightarrow>
          (audit_oauth E now ''oauth_rejected_unverified_email'' provider email None [] s, Inl (reasoned ''unverified_email'' UNVERIFIED_EMAIL_MESSAGE))
      | Inl (OAuthError text) \<Rightarrow> refuse s 400 text
      | Inl e \<Rightarrow> (s, Inl e)
      | Inr (puid, email) \<Rightarrow>
          (case sso_required s email of
             Some e \<Rightarrow> (s, Inl e)
           | None \<Rightarrow>
               (case find_linked_user s provider puid None None of
                  Some u \<Rightarrow> sign_in E now f u provider email s
                | None \<Rightarrow>
                    (case find_user_by_address s email of
                       Some u \<Rightarrow> link_by_email E now f u provider puid email s
                     | None \<Rightarrow> create_by_email E now f provider puid email s))))"

text \<open>The dict a flow answers with.\<close>

fun answer_params :: "flow_answer \<Rightarrow> (string \<times> json) list" where
  "answer_params (Signed_in access refresh) =
     [(''status'', JStr ''ok''), (''access_token'', JStr access), (''refresh_token'', JStr refresh), (''token_type'', JStr ''bearer'')]"
| "answer_params (Second_factor challenge methods) =
     [(''status'', JStr ''mfa_required''), (''mfa_required'', JBool True), (''challenge_token'', JStr challenge), (''methods'', jstrs methods)]"
| "answer_params (Link_required token provider email) =
     [(''status'', JStr ''link_required''), (''link_token'', JStr token), (''provider'', JStr provider), (''email'', JStr email)]"

subsection \<open>Routes\<close>

definition oauth_login :: "env \<Rightarrow> time \<Rightarrow> string \<Rightarrow> string \<Rightarrow> string \<Rightarrow> exn + string" where
  "oauth_login E now jti verifier provider =
     (case require_provider E provider of Some e \<Rightarrow> Inl e | None \<Rightarrow> build_authorize_url E now jti verifier provider)"

text \<open>The page of the front end that a browser is sent back to.\<close>

definition oauth_complete :: "env \<Rightarrow> (string \<times> json) list \<Rightarrow> string" where
  "oauth_complete E params = FRONTEND_BASE_URL (cfg E) @ ''/oauth-complete?'' @ urlencode (map (\<lambda>(k, v). (k, py_str v)) params)"

text \<open>\<open>except HTTPException\<close>: other exceptions pass.\<close>

fun error_params :: "exn \<Rightarrow> (string \<times> json) list option" where
  "error_params (HTTPException code detail) = Some [(''status'', JStr ''error''), (''error'', JStr detail)]"
| "error_params (HTTPDetail code (JObj kvs)) = Some ((''status'', JStr ''error'') # kvs)"
| "error_params (HTTPDetail code v) = Some [(''status'', JStr ''error''), (''error'', v)]"
| "error_params _ = None"

definition redirect_result :: "env \<Rightarrow> db \<times> (exn + flow_answer) \<Rightarrow> db \<times> (exn + string)" where
  "redirect_result E p =
     (case p of
        (s, Inr a) \<Rightarrow> (s, Inr (oauth_complete E (answer_params a)))
      | (s, Inl e) \<Rightarrow> (case error_params e of Some ps \<Rightarrow> (s, Inr (oauth_complete E ps)) | None \<Rightarrow> (s, Inl e)))"

definition oauth_callback_json :: "remote \<Rightarrow> env \<Rightarrow> time \<Rightarrow> fresh_ids \<Rightarrow> string \<Rightarrow> string \<Rightarrow> string \<Rightarrow> db \<Rightarrow> db \<times> (exn + flow_answer)" where
  "oauth_callback_json N E now f provider code state s =
     (case require_provider E provider of
        Some e \<Rightarrow> (s, Inl e)
      | None \<Rightarrow> or_raise s (verify_state E now provider state) (\<lambda>verifier. complete_oauth_flow N E now f provider code verifier s))"

definition oauth_callback_redirect ::
  "remote \<Rightarrow> env \<Rightarrow> time \<Rightarrow> fresh_ids \<Rightarrow> string \<Rightarrow> string option \<Rightarrow> string option \<Rightarrow> string option \<Rightarrow> string option \<Rightarrow> db \<Rightarrow> db \<times> (exn + string)" where
  "oauth_callback_redirect N E now f provider code state error description s =
     (if PROVIDERS E provider = None then refuse s 404 ''Unknown OAuth provider''
      else if error \<noteq> None
      then (s, Inr (oauth_complete E [(''status'', JStr ''error''), (''error'', JStr (snd (oauth_callback_failure error description)))]))
      else if \<not> truthy code \<or> \<not> truthy state
      then (s, Inr (oauth_complete E [(''status'', JStr ''error''), (''error'', JStr (OAUTH_CALLBACK_MESSAGES ''failed''))]))
      else redirect_result E (oauth_callback_json N E now f provider (the code) (the state) s))"

text \<open>\<open>payload[key]\<close> for a claim that every token of the kind carries as text or as a number.\<close>

definition claim_text :: "claims \<Rightarrow> string \<Rightarrow> exn + string" where
  "claim_text c key = proceed (json_item (JObj c) key) (\<lambda>v. case json_str v of None \<Rightarrow> Inl TypeError | Some x \<Rightarrow> Inr x)"

text \<open>The account a link token names, if the address still belongs to it.\<close>

definition linked_account :: "db \<Rightarrow> claims \<Rightarrow> string \<Rightarrow> exn + user option" where
  "linked_account s payload email =
     (case find_user_by_address s email of
        None \<Rightarrow> Inr None
      | Some u \<Rightarrow> proceed (json_item (JObj payload) ''user_id'') (\<lambda>i. Inr (if i = JInt (u_id u) then Some u else None)))"

text \<open>The link and, for a link that came from an organization's provider, the membership.\<close>

definition finish_link :: "env \<Rightarrow> time \<Rightarrow> fresh_ids \<Rightarrow> claims \<Rightarrow> user \<Rightarrow> string \<Rightarrow> db \<Rightarrow> db \<times> (exn + login_result)" where
  "finish_link E now f payload u email s =
     or_raise s (claim_text payload ''provider'') (\<lambda>provider.
     or_raise s (claim_text payload ''provider_user_id'') (\<lambda>puid.
     or_raise s (link_oauth_to_existing_user now u provider puid email (json_int (get_claim payload ''organization_sso_config_id''))
        (json_int (get_claim payload ''organization_saml_config_id'')) s) (\<lambda>s1.
     (case json_int (get_claim payload ''idp_org_id'') of
        None \<Rightarrow> issue_tokens_or_challenge E now f u ''oauth'' None s1
      | Some org \<Rightarrow> issue_tokens_or_challenge E now f u ''sso'' (Some org) (fst (jit_provision_membership E now org (u_id u) s1))))))"

definition confirm_oauth_link :: "env \<Rightarrow> time \<Rightarrow> fresh_ids \<Rightarrow> string \<Rightarrow> string \<Rightarrow> db \<Rightarrow> db \<times> (exn + login_result)" where
  "confirm_oauth_link E now f link_token password s =
     (case decode_token E now link_token of
        Inl _ \<Rightarrow> refuse s 400 ''Invalid or expired link token''
      | Inr payload \<Rightarrow>
          if get_claim payload ''type'' \<noteq> JStr ''oauth_link'' then refuse s 400 ''Invalid link token''
          else or_raise s (claim_text payload ''email'') (\<lambda>email.
               or_raise s (linked_account s payload email) (\<lambda>account.
               (case account of
                  None \<Rightarrow> or_raise s (verify_password E password (DUMMY_PASSWORD_HASH E)) (\<lambda>_. refuse s 404 ''Account not found'')
                | Some u \<Rightarrow>
                    if \<not> truthy (u_hashed_password u)
                    then or_raise s (verify_password E password (DUMMY_PASSWORD_HASH E)) (\<lambda>_. refuse s 409
                           ''This account has no password set: sign in with its original provider to link additional providers.'')
                    else or_raise s (verify_password E password (the (u_hashed_password u))) (\<lambda>ok.
                         if \<not> ok then refuse s 401 ''Incorrect password''
                         else finish_link E now f payload u email s)))))"

subsection \<open>What a sign-in writes\<close>

text \<open>The tables identities are told by; issuing tokens or a challenge leaves them alone.\<close>

definition identity_view where
  "identity_view s = (oauth_accounts s, sso_configs s, saml_configs s, memberships s, organizations s, mfa_policies s,
     map (\<lambda>u. (u_id u, u_email u, u_hashed_password u, u_status u)) (users s))"

lemma identity_view_log [simp]: "identity_view (log_event E now a s) = identity_view s"
  by (simp add: identity_view_def log_event_def)

lemma identity_view_audit [simp]: "identity_view (audit_oauth E now e p m u x s) = identity_view s"
  by (simp add: audit_oauth_def)

lemma identity_view_end [simp]: "identity_view (end_session E now u fid r a s) = identity_view s"
  by (simp add: end_session_def log_session_revoked_def session_revoke_def revoke_family_def set_session_def identity_view_def log_event_def
      split: option.splits)

lemma identity_view_fold_end [simp]: "identity_view (fold (\<lambda>x. end_session E now u (Some (us_session_id x)) r a) xs s) = identity_view s"
  by (induction xs arbitrary: s) simp_all

lemma identity_view_generate: "identity_view (fst (generate_tokens E now ja jr fid u am idp ip ua sc s)) = identity_view s"
proof -
  have ev: "identity_view (evict_oldest_sessions_over_limit E now v d) = identity_view d" for v d
    by (simp add: evict_oldest_sessions_over_limit_def Let_def)
  have cr: "identity_view (session_create n i v o' rl am' mv e ip' ua' sc' d) = identity_view d" for n i v o' rl am' mv e ip' ua' sc' d
    by (simp add: session_create_def identity_view_def)
  have ad: "identity_view (add_token E now v t f d) = identity_view d" for v t f d by (simp add: add_token_def identity_view_def)
  have "identity_view (set_user i (\<lambda>x. x\<lparr>u_last_login_at := Some now, u_authentication_method := m\<rparr>) d) = identity_view d" for i m d
    by (simp add: identity_view_def set_user_def map_update_where_same)
  then show ?thesis by (simp add: generate_tokens_def Let_def ev cr ad)
qed

lemma issue_view:
  assumes "am \<noteq> ''password''"
  shows "identity_view (fst (issue_tokens_or_challenge E now f u am idp s)) = identity_view s"
proof -
  let ?g = "generate_tokens_or_mfa_challenge E now (f_access f) (f_refresh f) (f_family f) '''' u am idp None None no_saml s"
  have g: "identity_view (fst ?g) = identity_view s"
    using assms identity_view_generate [of E now "f_access f" "f_refresh f" "f_family f" u am "jint_opt idp" None None no_saml s]
    by (auto simp: generate_tokens_or_mfa_challenge_def Let_def split: prod.splits)
  have en: "identity_view (fst (create_enrollment_token E now j i d)) = identity_view d" for j i d
    by (simp add: create_enrollment_token_def identity_view_def)
  show ?thesis
  proof (cases "snd ?g = Inl MFAEnrollmentRequiredError")
    case True
    then show ?thesis using g en by (cases ?g) (simp add: issue_tokens_or_challenge_def split_beta)
  next
    case False
    then have "issue_tokens_or_challenge E now f u am idp s = ?g"
      by (cases ?g; cases "snd ?g"; cases "projl (snd ?g)") (auto simp: issue_tokens_or_challenge_def)
    then show ?thesis using g by simp
  qed
qed

lemma sign_in_view: "identity_view (fst (sign_in E now f u provider email s)) = identity_view s"
proof (cases "issue_tokens_or_challenge E now f u ''oauth'' None s")
  case (Pair d v)
  then show ?thesis using issue_view [of "''oauth''" E now f u None s] by (cases v) (simp_all add: sign_in_def)
qed

lemma sign_in_Inr:
  assumes "sign_in E now f u provider email s = (s', Inr a)"
  obtains d result where "issue_tokens_or_challenge E now f u ''oauth'' None s = (d, Inr result)" "a = flow_answer_of result"
  using assms by (auto simp: sign_in_def and_then_Inr)

lemma issued_without_factor:
  assumes "issue_tokens_or_challenge E now f u am idp s = (s', Inr (Tokens a t))"
  shows "\<not> u_mfa_enabled u \<and> \<not> org_requires_mfa s (map_option m_organization_id (resolve_primary_membership s (u_id u)))"
proof -
  obtain d v where g: "generate_tokens_or_mfa_challenge E now (f_access f) (f_refresh f) (f_family f) '''' u am idp None None no_saml s = (d, v)" by force
  then have "v = Inr (Tokens a t)"
    using assms by (cases v; cases "projl v") (auto simp: issue_tokens_or_challenge_def split: prod.splits)
  then show ?thesis using tokens_no_factor g by blast
qed

subsection \<open>Properties\<close>

lemma identity_view_standing: "identity_view s' = identity_view s \<Longrightarrow> same_standing s' s"
  by (simp add: identity_view_def same_standing_def)

lemma sign_in_factor:
  assumes si: "sign_in E now f u provider email s1 = (s', Inr a)" and st: "same_standing s1 s"
  shows "a = Signed_in x t \<Longrightarrow> \<not> u_mfa_enabled u \<and> \<not> org_requires_mfa s (map_option m_organization_id (resolve_primary_membership s (u_id u)))"
    and "oauth_accounts s' = oauth_accounts s1" and "\<exists>r. a = flow_answer_of r"
proof -
  obtain d r where i: "issue_tokens_or_challenge E now f u ''oauth'' None s1 = (d, Inr r)" "a = flow_answer_of r" by (rule sign_in_Inr [OF si])
  show "a = Signed_in x t \<Longrightarrow> \<not> u_mfa_enabled u \<and> \<not> org_requires_mfa s (map_option m_organization_id (resolve_primary_membership s (u_id u)))"
    using issued_without_factor [of E now f u "''oauth''" None s1 d x t] i standing_demands [OF st] by (cases r) auto
  show "oauth_accounts s' = oauth_accounts s1" using sign_in_view [of E now f u provider email s1] si by (simp add: identity_view_def)
  show "\<exists>r. a = flow_answer_of r" using i(2) by blast
qed

lemma flow_Inr:
  assumes "complete_oauth_flow N E now f provider code v s = (s', Inr a)"
  obtains puid email where "exchange_code_for_userinfo N E provider code v = Inr (puid, email)" "sso_required s email = None"
    "(case find_linked_user s provider puid None None of Some u \<Rightarrow> sign_in E now f u provider email s
      | None \<Rightarrow> (case find_user_by_address s email of Some u \<Rightarrow> link_by_email E now f u provider puid email s
                 | None \<Rightarrow> create_by_email E now f provider puid email s)) = (s', Inr a)"
proof (cases "exchange_code_for_userinfo N E provider code v")
  case (Inl e)
  then show ?thesis using assms by (cases e) (simp_all add: complete_oauth_flow_def)
next
  case (Inr x)
  obtain puid email where x: "x = (puid, email)" by (cases x)
  then show ?thesis using that [of puid email] assms Inr by (cases "sso_required s email") (simp_all add: complete_oauth_flow_def)
qed

lemma linked_row: "find_linked_user s provider puid None None = Some u \<Longrightarrow>
  \<exists>x \<in> set (oauth_accounts s). oa_provider x = provider \<and> oa_provider_user_id x = puid \<and> oa_user_id x = u_id u"
  by (auto simp: find_linked_user_def find_user_def split: option.splits dest!: query_first_Some)

lemma link_row:
  assumes "link_oauth_to_existing_user now u provider puid email sso saml s = Inr s1"
  shows "s1 = s\<lparr>oauth_accounts := oauth_accounts s1\<rparr>"
    "\<exists>x. oauth_accounts s1 = oauth_accounts s @ [x] \<and> oa_provider x = provider \<and> oa_provider_user_id x = puid \<and> oa_user_id x = u_id u
       \<and> oa_organization_sso_config_id x = sso \<and> oa_organization_saml_config_id x = saml"
  using assms by (auto simp: link_oauth_to_existing_user_def add_oauth_account_def split: option.splits if_splits)

lemma created_row:
  assumes "create_user_with_oauth now provider puid email sso saml s = Inr (s1, u)"
  shows "u = licensed_user now email s" "same_standing s1 s" "users s1 = users s @ [u]"
    "\<exists>x. oauth_accounts s1 = oauth_accounts s @ [x] \<and> oa_provider x = provider \<and> oa_provider_user_id x = puid \<and> oa_user_id x = u_id u
       \<and> oa_organization_sso_config_id x = sso \<and> oa_organization_saml_config_id x = saml"
proof -
  let ?u = "licensed_user now email s"
  let ?s0 = "assign_default_role ?u (s\<lparr>users := users s @ [?u]\<rparr>)"
  have w: "?s0 = s\<lparr>users := users s @ [?u], permissions := permissions ?s0, roles := roles ?s0, role_permissions := role_permissions ?s0,
     user_roles := user_roles ?s0\<rparr>" by (subst assign_default_role_writes) simp
  have a: "add_oauth_account now (u_id ?u) provider puid email sso saml ?s0 = Inr s1" and u: "u = ?u"
    using assms by (auto simp: create_user_with_oauth_def Let_def proceed_Inr split: option.splits)
  have f: "oauth_accounts ?s0 = oauth_accounts s" "users ?s0 = users s @ [?u]" "same_standing ?s0 s"
    unfolding same_standing_def by (subst w, simp)+
  show "u = ?u" by (rule u)
  show "same_standing s1 s" "users s1 = users s @ [u]" "\<exists>x. oauth_accounts s1 = oauth_accounts s @ [x] \<and> oa_provider x = provider
     \<and> oa_provider_user_id x = puid \<and> oa_user_id x = u_id u \<and> oa_organization_sso_config_id x = sso \<and> oa_organization_saml_config_id x = saml"
    using a f u by (auto simp: add_oauth_account_def same_standing_def split: if_splits)
qed

text \<open>
  Property. What a sign-in through a public provider had to pass. If it hands out tokens or asks for
  the second factor, the exchange of the code gave an identity and an address the provider vouches
  for, no organization's enforced sign-on claims the address, and the account is the one the
  identity was linked to; or, if it was linked to none, the active account of the address without
  a password and without an administrator's role; or, if the address had none, a new one for an
  address with a live license. Afterwards the identity is linked to the account, and tokens went
  only to an account without a second factor whose organization demands none.
\<close>

theorem oauth_sign_in_gates:
  assumes c: "complete_oauth_flow N E now f provider code v s = (s', Inr a)" and n: "\<And>t p e. a \<noteq> Link_required t p e"
  shows "\<exists>puid email u. exchange_code_for_userinfo N E provider code v = Inr (puid, email) \<and> sso_required s email = None
    \<and> (find_linked_user s provider puid None None = Some u
       \<or> find_linked_user s provider puid None None = None \<and> find_user_by_address s email = Some u \<and> can_auto_link s u
       \<or> find_linked_user s provider puid None None = None \<and> find_user_by_address s email = None \<and> is_email_approved now s email
           \<and> u = licensed_user now email s)
    \<and> (\<exists>x \<in> set (oauth_accounts s'). oa_provider x = provider \<and> oa_provider_user_id x = puid \<and> oa_user_id x = u_id u)
    \<and> (\<forall>x t. a = Signed_in x t \<longrightarrow>
          \<not> u_mfa_enabled u \<and> \<not> org_requires_mfa s (map_option m_organization_id (resolve_primary_membership s (u_id u))))"
proof -
  obtain puid email where x: "exchange_code_for_userinfo N E provider code v = Inr (puid, email)" "sso_required s email = None"
    "(case find_linked_user s provider puid None None of Some u \<Rightarrow> sign_in E now f u provider email s
      | None \<Rightarrow> (case find_user_by_address s email of Some u \<Rightarrow> link_by_email E now f u provider puid email s
                 | None \<Rightarrow> create_by_email E now f provider puid email s)) = (s', Inr a)" by (rule flow_Inr [OF c])
  have refl: "same_standing s s" by (simp add: same_standing_def)
  consider (linked) u where "find_linked_user s provider puid None None = Some u"
    | (address) u where "find_linked_user s provider puid None None = None" "find_user_by_address s email = Some u"
    | (none) "find_linked_user s provider puid None None = None" "find_user_by_address s email = None" by fastforce
  then show ?thesis
  proof cases
    case linked
    then have si: "sign_in E now f u provider email s = (s', Inr a)" using x(3) by simp
    show ?thesis using x(1,2) linked linked_row [OF linked] sign_in_factor [OF si refl]
      by (intro exI [of _ puid] exI [of _ email] exI [of _ u]) auto
  next
    case address
    then have l: "link_by_email E now f u provider puid email s = (s', Inr a)" using x(3) by simp
    then have auto: "can_auto_link s u" using n by (auto simp: link_by_email_def or_raise_Inr split: if_splits)
    then obtain s1 where s1: "link_oauth_to_existing_user now u provider puid email None None s = Inr s1"
      "sign_in E now f u provider email (audit_oauth E now ''oauth_linked'' provider (Some email) (Some u) [] s1) = (s', Inr a)"
      using l by (auto simp: link_by_email_def or_raise_Inr)
    have "same_standing s1 s" unfolding same_standing_def by (subst (1 2 3) link_row(1) [OF s1(1)]) simp
    then have st: "same_standing (audit_oauth E now ''oauth_linked'' provider (Some email) (Some u) [] s1) s"
      by (simp add: same_standing_def audit_oauth_def)
    show ?thesis using x(1,2) address auto link_row(2) [OF s1(1)] sign_in_factor [OF s1(2) st]
      by (intro exI [of _ puid] exI [of _ email] exI [of _ u]) (auto simp: audit_oauth_def log_event_def)
  next
    case none
    then have l: "create_by_email E now f provider puid email s = (s', Inr a)" using x(3) by simp
    then obtain s1 u where s1: "is_email_approved now s email" "create_user_with_oauth now provider puid email None None s = Inr (s1, u)"
      "sign_in E now f u provider email (audit_oauth E now ''oauth_account_created'' provider (Some email) (Some u) [] s1) = (s', Inr a)"
      by (auto simp: create_by_email_def or_raise_Inr split: if_splits)
    note r = created_row [OF s1(2)]
    have st: "same_standing (audit_oauth E now ''oauth_account_created'' provider (Some email) (Some u) [] s1) s"
      using r(2) by (simp add: same_standing_def audit_oauth_def)
    show ?thesis using x(1,2) none s1(1) r(1,4) sign_in_factor [OF s1(3) st]
      by (intro exI [of _ puid] exI [of _ email] exI [of _ u]) (auto simp: audit_oauth_def log_event_def)
  qed
qed

text \<open>The status of a linked account is not looked at.\<close>

lemma tokens_without_policies:
  assumes "\<not> u_mfa_enabled u" "mfa_policies s = []" "am \<noteq> ''password''"
  shows "\<exists>s' a t. issue_tokens_or_challenge E now f u am idp s = (s', Inr (Tokens a t))"
proof -
  have "\<not> org_requires_mfa s org" for org using assms(2) by (simp add: org_requires_mfa_def split: option.split)
  then show ?thesis using assms by (simp add: issue_tokens_or_challenge_def generate_tokens_or_mfa_challenge_def Let_def split_beta)
qed

lemma oauth_ignores_status:
  assumes x: "exchange_code_for_userinfo N E provider code v = Inr (puid, email)" "sso_required s email = None"
    and u: "find_linked_user s provider puid None None = Some u" "\<not> u_mfa_enabled u" "mfa_policies s = []"
  shows "\<exists>s' a t. complete_oauth_flow N E now f provider code v s = (s', Inr (Signed_in a t))"
proof -
  obtain d a t where "issue_tokens_or_challenge E now f u ''oauth'' None s = (d, Inr (Tokens a t))"
    using tokens_without_policies [OF u(2,3), of "''oauth''"] by fastforce
  then show ?thesis using x u(1) by (simp add: complete_oauth_flow_def sign_in_def)
qed

definition federated_db :: db where
  "federated_db = empty_db\<lparr>users := [(sample_user 1 ''ada'')\<lparr>u_status := ''suspended''\<rparr>],
     oauth_accounts := [\<lparr>oa_id = 1, oa_user_id = 1, oa_provider = ''google'', oa_provider_user_id = ''7'', oa_email = None, oa_created_at = 0,
       oa_organization_sso_config_id = None, oa_organization_saml_config_id = None\<rparr>]\<rparr>"

definition sample_ids :: fresh_ids where
  "sample_ids = \<lparr>f_access = ''a'', f_refresh = ''r'', f_family = ''f'', f_enrol = ''e'', f_link = ''l''\<rparr>"

lemma federated_facts:
  "find_linked_user federated_db ''google'' ''7'' None None = Some ((sample_user 1 ''ada'')\<lparr>u_status := ''suspended''\<rparr>)"
  "mfa_policies federated_db = []" "sso_required federated_db ''Ada@lab'' = None" "\<not> u_mfa_enabled ((sample_user 1 ''ada'')\<lparr>u_status := ''suspended''\<rparr>)"
  by (simp_all add: federated_db_def find_linked_user_def find_user_def sample_user_def empty_db_def sso_required_def find_enforced_org_for_email_def
      find_org_for_email_def find_enforced_saml_org_for_email_def find_saml_org_for_email_def split: option.split)

theorem oauth_sign_in_gates_witness:
  "\<exists>s' a t u. complete_oauth_flow google_remote (sample_env Map.empty) 0 sample_ids ''google'' ''c'' None federated_db = (s', Inr (Signed_in a t))
     \<and> find_linked_user federated_db ''google'' ''7'' None None = Some u \<and> \<not> u_mfa_enabled u"
proof -
  let ?E = "sample_env Map.empty"
  obtain s' a t where c: "complete_oauth_flow google_remote ?E 0 sample_ids ''google'' ''c'' None federated_db = (s', Inr (Signed_in a t))"
    using oauth_ignores_status [OF google_exchange federated_facts(3,1,4,2)] by blast
  then show ?thesis using oauth_sign_in_gates [OF c] federated_facts(1) google_exchange [of ?E "''c''" None] by auto
qed

text \<open>A provider that cannot be reached surfaces as an exception of the route, not as a redirect.\<close>

lemma outage_not_redirected:
  assumes p: "PROVIDERS E provider = Some p" "is_configured E provider" "verify_state E now provider state = Inr v" "code \<noteq> []" "state \<noteq> []"
    and down: "\<And>form. http_post N (op_token_url p) form = Unreachable msg"
  shows "oauth_callback_redirect N E now f provider (Some code) (Some state) None d s = (s, Inl (TransportError msg))"
  using assms by (simp add: oauth_callback_redirect_def oauth_callback_json_def require_provider_def complete_oauth_flow_def
      exchange_code_for_userinfo_def redirect_result_def)

text \<open>An address the provider does not vouch for changes nothing but the ledger.\<close>

lemma unvouched_inert:
  assumes "exchange_code_for_userinfo N E provider code v = Inl e"
  shows "only_audit s (fst (complete_oauth_flow N E now f provider code v s))" "\<exists>e'. snd (complete_oauth_flow N E now f provider code v s) = Inl e'"
  using assms by (cases e; simp add: complete_oauth_flow_def refuse_def audit_oauth_def only_audit_refl only_audit_log)+

end
