(* ===== verification/Mfa_Routes.thy ===== *)
theory Mfa_Routes
  imports Auth_Routes Mfa_Invariant
begin

text \<open>
  \<open>app/api/routes_mfa.py\<close> and \<open>app/api/routes_org_mfa.py\<close>: enrolling an authenticator, the devices and
  recovery codes of the caller, the challenge after the password, and the second-factor policy of
  an organization.

  The theory shows that an enrolment token reaches nothing but its own account's devices and is
  worthless once it has been used, and who can make an organization require a second factor or
  lift the requirement.
\<close>

subsection \<open>The caller's devices\<close>

record mfa_device_out =
  do_id :: int
  do_device_type :: string
  do_label :: "string option"
  do_created_at :: time
  do_verified_at :: "time option"
  do_last_used_at :: "time option"

definition device_out_of :: "mfa_device \<Rightarrow> mfa_device_out" where
  "device_out_of d = \<lparr>do_id = d_id d, do_device_type = d_device_type d, do_label = d_label d, do_created_at = d_created_at d,
     do_verified_at = d_verified_at d, do_last_used_at = d_last_used_at d\<rparr>"

text \<open>
  The session of a caller that came with an enrolment token: \<open>None\<close> for other callers, and a
  refusal unless the session is open and satisfies \<open>ok\<close>.
\<close>

definition enrollment_session ::
  "time \<Rightarrow> db \<Rightarrow> claims \<Rightarrow> (mfa_enrollment_session \<Rightarrow> bool) \<Rightarrow> string \<Rightarrow> exn + mfa_enrollment_session option" where
  "enrollment_session now s user ok detail =
     (if \<not> jtruthy (get_claim user ''mfa_enrollment_only'') then Inr None
      else case int_sub user of
        Inl e \<Rightarrow> Inl e
      | Inr uid \<Rightarrow>
          (case get_active_session now s uid (case json_str (get_claim user ''mfa_enrollment_jti'') of None \<Rightarrow> '''' | Some j \<Rightarrow> j) of
             None \<Rightarrow> Inl (HTTPException 401 detail)
           | Some x \<Rightarrow> if ok x then Inr (Some x) else Inl (HTTPException 401 detail)))"

definition set_enrollment_device :: "int \<Rightarrow> int \<Rightarrow> db \<Rightarrow> db" where
  "set_enrollment_device session_id device_id s =
     s\<lparr>mfa_enrollment_sessions := update_where (\<lambda>x. es_id x = session_id) (\<lambda>x. x\<lparr>es_device_id := Some device_id\<rparr>) (mfa_enrollment_sessions s)\<rparr>"

text \<open>\<open>user["email"]\<close>, which every user token of this service carries as text.\<close>

definition claimed_email :: "claims \<Rightarrow> exn + string" where
  "claimed_email c = (case map_of c ''email'' of None \<Rightarrow> Inl (KeyError ''email'') | Some v \<Rightarrow> (case json_str v of None \<Rightarrow> Inl TypeError | Some e \<Rightarrow> Inr e))"

definition config_error :: "exn \<Rightarrow> exn" where
  "config_error e = (case e of RuntimeError text \<Rightarrow> HTTPException 500 text | _ \<Rightarrow> e)"

definition totp_error :: "exn \<Rightarrow> exn" where
  "totp_error e = (case e of LookupError _ \<Rightarrow> HTTPException 404 ''MFA device not found'' | ValueError text _ \<Rightarrow> HTTPException 400 text | _ \<Rightarrow> e)"

definition start_totp_route ::
  "'r redis \<Rightarrow> env \<Rightarrow> time \<Rightarrow> string \<Rightarrow> string \<Rightarrow> 'r \<Rightarrow> db \<Rightarrow> db \<times> (exn + int \<times> string)" where
  "start_totp_route R E now secret token r s =
     or_raise s (get_mfa_enrollment_user R E now token r s) (\<lambda>user.
     or_raise s (enrollment_session now s user (\<lambda>x. es_device_id x = None) ''Invalid or already used enrollment token'') (\<lambda>session.
     or_raise s (int_sub user) (\<lambda>uid.
     or_raise s (claimed_email user) (\<lambda>email.
     and_then (map_exn config_error (start_totp_enrollment E now secret uid email s)) (\<lambda>s1 (device, uri).
     (case session of None \<Rightarrow> s1 | Some x \<Rightarrow> set_enrollment_device (es_id x) (d_id device) s1, Inr (d_id device, uri)))))))"

text \<open>An enrolment token is used up by the device it verified.\<close>

definition finish_enrollment ::
  "time \<Rightarrow> mfa_enrollment_session option \<Rightarrow> mfa_device \<Rightarrow> db \<Rightarrow> db \<times> (exn + mfa_device_out)" where
  "finish_enrollment now session device s =
     (case session of
        None \<Rightarrow> (s, Inr (device_out_of device))
      | Some x \<Rightarrow>
          let (s1, consumed) = consume_session now (es_id x) s
          in if consumed then (s1, Inr (device_out_of device)) else refuse s1 401 ''Enrollment token already used or expired'')"

definition verify_totp_route ::
  "'r redis \<Rightarrow> env \<Rightarrow> time \<Rightarrow> string \<Rightarrow> int \<Rightarrow> string \<Rightarrow> 'r \<Rightarrow> db \<Rightarrow> db \<times> (exn + mfa_device_out)" where
  "verify_totp_route R E now token device_id code r s =
     or_raise s (get_mfa_enrollment_user R E now token r s) (\<lambda>user.
     or_raise s (enrollment_session now s user (\<lambda>x. es_device_id x = Some device_id) ''Invalid or expired enrollment token'') (\<lambda>session.
     or_raise s (int_sub user) (\<lambda>uid.
     case verify_totp_enrollment E now uid device_id code s of
       Inl e \<Rightarrow> (s, Inl (totp_error e))
     | Inr (s1, device) \<Rightarrow> finish_enrollment now session device s1)))"

definition list_mfa_devices :: "'r redis \<Rightarrow> env \<Rightarrow> time \<Rightarrow> string \<Rightarrow> 'r \<Rightarrow> db \<Rightarrow> exn + mfa_device_out list" where
  "list_mfa_devices R E now token r s =
     (case get_current_user R E now token r s of
        Inl e \<Rightarrow> Inl e
      | Inr user \<Rightarrow> (case int_sub user of Inl e \<Rightarrow> Inl e | Inr uid \<Rightarrow> Inr (map device_out_of (list_devices s uid))))"

definition remove_mfa_device :: "'r redis \<Rightarrow> env \<Rightarrow> time \<Rightarrow> string \<Rightarrow> int \<Rightarrow> 'r \<Rightarrow> db \<Rightarrow> db \<times> (exn + unit)" where
  "remove_mfa_device R E now token device_id r s =
     or_raise s (get_current_user R E now token r s) (\<lambda>user.
     or_raise s (int_sub user) (\<lambda>uid.
     case remove_device E now uid device_id s of
       Inl (LookupError m) \<Rightarrow> refuse s 404 ''MFA device not found''
     | Inl e \<Rightarrow> (s, Inl e)
     | Inr s1 \<Rightarrow> (s1, Inr ())))"

definition generate_recovery_codes_route ::
  "'r redis \<Rightarrow> env \<Rightarrow> time \<Rightarrow> nat list list \<Rightarrow> string \<Rightarrow> 'r \<Rightarrow> db \<Rightarrow> db \<times> (exn + string list)" where
  "generate_recovery_codes_route R E now draws token r s =
     or_raise s (get_current_user R E now token r s) (\<lambda>user.
     or_raise s (int_sub user) (\<lambda>uid.
     let (s1, codes) = generate_recovery_codes E now draws uid s in (s1, Inr codes)))"

definition recovery_codes_status :: "'r redis \<Rightarrow> env \<Rightarrow> time \<Rightarrow> string \<Rightarrow> 'r \<Rightarrow> db \<Rightarrow> exn + int" where
  "recovery_codes_status R E now token r s =
     (case get_current_user R E now token r s of
        Inl e \<Rightarrow> Inl e
      | Inr user \<Rightarrow> (case int_sub user of Inl e \<Rightarrow> Inl e | Inr uid \<Rightarrow> Inr (recovery_codes_remaining s uid)))"

definition regenerate_recovery_codes_route ::
  "'r redis \<Rightarrow> env \<Rightarrow> time \<Rightarrow> nat list list \<Rightarrow> string \<Rightarrow> 'r \<Rightarrow> db \<Rightarrow> db \<times> (exn + string list)" where
  "regenerate_recovery_codes_route R E now draws token r s =
     or_raise s (get_current_user R E now token r s) (\<lambda>user.
     or_raise s (int_sub user) (\<lambda>uid.
     let (s1, codes) = regenerate_recovery_codes E now draws uid s in (s1, Inr codes)))"

subsection \<open>The challenge\<close>

text \<open>Both answers of the service, as the route sends them; both errors carry one message.\<close>

definition challenge_route ::
  "'r redis \<Rightarrow> env \<Rightarrow> time \<Rightarrow> string \<Rightarrow> string \<Rightarrow> string \<Rightarrow> string \<Rightarrow> string \<Rightarrow> string \<Rightarrow> string option \<Rightarrow> string option \<Rightarrow> 'r sys
     \<Rightarrow> 'r sys \<times> (exn + login_answer)" where
  "challenge_route R E now ja jr fid domain challenge_token code client_ip method s =
     (case verify_mfa_challenge R E now ja jr fid challenge_token code client_ip method s of
        (s1, Inl (MFAThrottledError wait)) \<Rightarrow> (s1, Inr (Too_many ''too_many_attempts'' wait))
      | (s1, Inl MFAChallengeError) \<Rightarrow> (s1, Inl (HTTPException 401 ''Invalid or expired challenge token''))
      | (s1, Inl (ValueError text a)) \<Rightarrow> (s1, Inl (HTTPException 400 text))
      | (s1, Inl e) \<Rightarrow> (s1, Inl e)
      | (s1, Inr (Challenge next methods)) \<Rightarrow> (s1, Inr (Factor_required next methods))
      | (s1, Inr (Tokens access refresh)) \<Rightarrow> (s1, Inr (Logged_in access refresh (set_session_cookie domain refresh))))"

definition resend_email_mfa_code :: "env \<Rightarrow> time \<Rightarrow> string \<Rightarrow> string \<Rightarrow> db \<Rightarrow> db \<times> (exn + int + int)" where
  "resend_email_mfa_code E now code challenge_token s =
     (case resend_code E now code challenge_token s of
        Inl (EmailMFAResendLimitedError wait) \<Rightarrow> (s, Inr (Inl wait))
      | Inl EmailMFAChallengeError \<Rightarrow> refuse s 401 ''Invalid or expired challenge token''
      | Inl EmailMFAUnavailableError \<Rightarrow> refuse s 503 ''Email verification is temporarily unavailable''
      | Inl e \<Rightarrow> (s, Inl e)
      | Inr (s1, cooldown) \<Rightarrow> (s1, Inr (Inr cooldown)))"

subsection \<open>The policy of an organization\<close>

definition MANAGE_SSO :: string where
  "MANAGE_SSO = ''manage_sso''"

definition OVERRIDE_MFA_POLICY :: string where
  "OVERRIDE_MFA_POLICY = ''manage_all_orgs''"

record org_mfa_policy_out =
  po_required :: bool
  po_created_at :: time
  po_updated_at :: "time option"
  po_enabled_at :: "time option"
  po_enabled_by_email :: "string option"
  po_override_active :: bool
  po_override_reason :: "string option"

definition mfa_policy_out :: "db \<Rightarrow> org_mfa_policy \<Rightarrow> org_mfa_policy_out" where
  "mfa_policy_out s p = \<lparr>po_required = mp_required p, po_created_at = mp_created_at p, po_updated_at = mp_updated_at p,
     po_enabled_at = mp_enabled_at p,
     po_enabled_by_email = (case mp_enabled_by_user_id p of None \<Rightarrow> None | Some i \<Rightarrow> map_option u_email (find_user s i)),
     po_override_active = mp_override_active p,
     po_override_reason = (if mp_override_active p then mp_override_reason p else None)\<rparr>"

definition policy_or_404 :: "db \<Rightarrow> int \<Rightarrow> exn + org_mfa_policy" where
  "policy_or_404 s org = or_404 ''No MFA policy configured for this organization'' (get_org_mfa_policy s org)"

text \<open>The row as it stands, shown.\<close>

definition shown_policy :: "db \<Rightarrow> int \<Rightarrow> db \<times> (exn + org_mfa_policy_out)" where
  "shown_policy s org = (s, map_sum id (mfa_policy_out s) (policy_or_404 s org))"

definition sso_manager :: "'r redis \<Rightarrow> env \<Rightarrow> time \<Rightarrow> string \<Rightarrow> int \<Rightarrow> 'r \<Rightarrow> db \<Rightarrow> exn + acting_membership" where
  "sso_manager R E now token org r s = require_org_permission_or_platform_admin R E now MANAGE_SSO token org r s"

definition create_policy_route ::
  "'r redis \<Rightarrow> env \<Rightarrow> time \<Rightarrow> string \<Rightarrow> int \<Rightarrow> bool \<Rightarrow> 'r \<Rightarrow> db \<Rightarrow> db \<times> (exn + org_mfa_policy_out)" where
  "create_policy_route R E now token org required r s =
     or_raise s (sso_manager R E now token org r s) (\<lambda>m.
     case create_org_mfa_policy E now org required (am_user_id m) s of
       Inl (ValueError text a) \<Rightarrow> refuse s 409 text
     | Inl e \<Rightarrow> (s, Inl e)
     | Inr (s1, p) \<Rightarrow> (s1, Inr (mfa_policy_out s1 p)))"

definition get_policy_route :: "'r redis \<Rightarrow> env \<Rightarrow> time \<Rightarrow> string \<Rightarrow> int \<Rightarrow> 'r \<Rightarrow> db \<Rightarrow> exn + org_mfa_policy_out" where
  "get_policy_route R E now token org r s =
     (case sso_manager R E now token org r s of Inl e \<Rightarrow> Inl e | Inr m \<Rightarrow> snd (shown_policy s org))"

definition update_policy_route ::
  "'r redis \<Rightarrow> env \<Rightarrow> time \<Rightarrow> string \<Rightarrow> int \<Rightarrow> bool option \<Rightarrow> string option \<Rightarrow> 'r \<Rightarrow> db \<Rightarrow> db \<times> (exn + org_mfa_policy_out)" where
  "update_policy_route R E now token org required reason r s =
     or_raise s (sso_manager R E now token org r s) (\<lambda>m.
     or_raise s (policy_or_404 s org) (\<lambda>p.
     shown_policy (case required of None \<Rightarrow> s | Some b \<Rightarrow> set_org_mfa_required E now p b (am_user_id m) reason s) org))"

definition override_policy_route ::
  "'r redis \<Rightarrow> env \<Rightarrow> time \<Rightarrow> string \<Rightarrow> int \<Rightarrow> string \<Rightarrow> 'r \<Rightarrow> db \<Rightarrow> db \<times> (exn + org_mfa_policy_out)" where
  "override_policy_route R E now token org reason r s =
     or_raise s (require_permission R E now OVERRIDE_MFA_POLICY token r s) (\<lambda>user.
     or_raise s (policy_or_404 s org) (\<lambda>p.
     or_raise s (int_sub user) (\<lambda>uid.
     shown_policy (set_org_mfa_override E now p reason uid s) org)))"

definition clear_override_route ::
  "'r redis \<Rightarrow> env \<Rightarrow> time \<Rightarrow> string \<Rightarrow> int \<Rightarrow> 'r \<Rightarrow> db \<Rightarrow> db \<times> (exn + org_mfa_policy_out)" where
  "clear_override_route R E now token org r s =
     or_raise s (require_permission R E now OVERRIDE_MFA_POLICY token r s) (\<lambda>user.
     or_raise s (policy_or_404 s org) (\<lambda>p.
     or_raise s (int_sub user) (\<lambda>uid.
     shown_policy (clear_org_mfa_override E now p uid s) org)))"

inductive policy_request :: "'r redis \<Rightarrow> env \<Rightarrow> time \<Rightarrow> string \<Rightarrow> int \<Rightarrow> 'r \<Rightarrow> db \<Rightarrow> db \<Rightarrow> bool" for R E now token org r s where
  create: "policy_request R E now token org r s (fst (create_policy_route R E now token org required r s))"
| update: "policy_request R E now token org r s (fst (update_policy_route R E now token org new reason r s))"
| override: "policy_request R E now token org r s (fst (override_policy_route R E now token org why r s))"
| clear: "policy_request R E now token org r s (fst (clear_override_route R E now token org r s))"

subsection \<open>Properties\<close>

lemma get_policy_Some: "get_org_mfa_policy s org = Some p \<Longrightarrow> p \<in> set (mfa_policies s) \<and> mp_organization_id p = org"
  by (auto simp: get_org_mfa_policy_def dest!: query_first_Some)

text \<open>Writing one row changes the requirement of that row's organization only.\<close>

lemma requires_after_set:
  assumes d: "distinct (map mp_id (mfa_policies s))" and p: "p \<in> set (mfa_policies s)" "mp_organization_id p = org"
    and keep: "\<And>x. mp_organization_id (f x) = mp_organization_id x" and m: "mfa_policies s' = mfa_policies (set_policy (mp_id p) f s)"
    and o: "org_requires_mfa s' (Some o') \<noteq> org_requires_mfa s (Some o')"
  shows "o' = org"
proof (rule ccontr)
  assume n: "o' \<noteq> org"
  have "query_first (\<lambda>x. mp_organization_id x = o') (mfa_policies s')
      = map_option (\<lambda>x. if mp_id x = mp_id p then f x else x) (query_first (\<lambda>x. mp_organization_id x = o') (mfa_policies s))"
    using m by (simp add: set_policy_def query_first_update_where keep)
  moreover have "mp_id x \<noteq> mp_id p" if "query_first (\<lambda>x. mp_organization_id x = o') (mfa_policies s) = Some x" for x
    using query_first_Some [OF that] distinct_keyD [OF d _ p(1), of x] p(2) n by auto
  ultimately have "query_first (\<lambda>x. mp_organization_id x = o') (mfa_policies s') = query_first (\<lambda>x. mp_organization_id x = o') (mfa_policies s)"
    by (cases "query_first (\<lambda>x. mp_organization_id x = o') (mfa_policies s)") (simp_all del: query_first_None)
  then show False using o by (simp add: org_requires_mfa_def)
qed

text \<open>The policies that demand a factor, and those an override has suspended.\<close>

definition demanding :: "db \<Rightarrow> int set" where
  "demanding s = mp_id ` {p \<in> set (mfa_policies s). mp_required p}"

definition overridden :: "db \<Rightarrow> int set" where
  "overridden s = mp_id ` {p \<in> set (mfa_policies s). mp_override_active p}"

definition decided_by :: "'r redis \<Rightarrow> env \<Rightarrow> time \<Rightarrow> string \<Rightarrow> int \<Rightarrow> 'r \<Rightarrow> db \<Rightarrow> db \<Rightarrow> bool" where
  "decided_by R E now token org r s s' \<longleftrightarrow>
     (\<exists>m. sso_manager R E now token org r s = Inr m) \<and> overridden s' = overridden s
   \<or> (\<exists>c. require_permission R E now OVERRIDE_MFA_POLICY token r s = Inr c) \<and> demanding s' = demanding s"

lemma set_policy_flags:
  assumes "\<And>x. mp_id (f x) = mp_id x"
  shows "(\<And>x. mp_override_active (f x) = mp_override_active x) \<Longrightarrow> overridden (set_policy i f s) = overridden s"
    and "(\<And>x. mp_required (f x) = mp_required x) \<Longrightarrow> demanding (set_policy i f s) = demanding s"
proof -
  have u: "mp_id ` {x \<in> set (update_where (\<lambda>p. mp_id p = i) f ps). Q x} = mp_id ` {x \<in> set ps. Q x}"
    if q: "\<And>x. Q (f x) = Q x" for Q ps
  proof -
    let ?g = "\<lambda>x. if mp_id x = i then f x else x"
    have "{x \<in> set (update_where (\<lambda>p. mp_id p = i) f ps). Q x} = ?g ` {x \<in> set ps. Q x}"
      using q by (auto simp: update_where_def)
    then show ?thesis using assms by (simp only: image_image) (rule image_cong, simp_all)
  qed
  show "(\<And>x. mp_override_active (f x) = mp_override_active x) \<Longrightarrow> overridden (set_policy i f s) = overridden s"
    using u [of mp_override_active] by (simp add: overridden_def set_policy_def)
  show "(\<And>x. mp_required (f x) = mp_required x) \<Longrightarrow> demanding (set_policy i f s) = demanding s"
    using u [of mp_required] by (simp add: demanding_def set_policy_def)
qed

lemma policy_flags_cong:
  "mfa_policies s' = mfa_policies s \<Longrightarrow> overridden s' = overridden s \<and> demanding s' = demanding s"
  by (simp add: overridden_def demanding_def)

definition guarded_requirement :: "'r redis \<Rightarrow> env \<Rightarrow> time \<Rightarrow> string \<Rightarrow> int \<Rightarrow> 'r \<Rightarrow> db \<Rightarrow> int \<Rightarrow> db \<Rightarrow> bool" where
  "guarded_requirement R E now token org r s o' s' \<longleftrightarrow>
     (org_requires_mfa s' (Some o') \<noteq> org_requires_mfa s (Some o') \<longrightarrow> o' = org \<and> decided_by R E now token org r s s')"

lemma requirement_set_guarded:
  assumes d: "distinct (map mp_id (mfa_policies s))"
    and m: "sso_manager R E now token org r s = Inr m" and p: "policy_or_404 s org = Inr p"
  shows "guarded_requirement R E now token org r s o' (set_org_mfa_required E now p b i reason s)"
proof -
  let ?f = "\<lambda>x. if b \<and> \<not> mp_required p
        then x\<lparr>mp_required := b, mp_updated_at := Some now, mp_enabled_at := Some now, mp_enabled_by_user_id := Some i\<rparr>
        else x\<lparr>mp_required := b, mp_updated_at := Some now\<rparr>"
  let ?s1 = "set_org_mfa_required E now p b i reason s"
  have f: "mfa_policies ?s1 = mfa_policies (set_policy (mp_id p) ?f s)" by (simp add: set_org_mfa_required_def Let_def)
  have "overridden (set_policy (mp_id p) ?f s) = overridden s" by (rule set_policy_flags) simp_all
  then have v: "overridden ?s1 = overridden s" using policy_flags_cong [OF f] by simp
  have "org_requires_mfa ?s1 (Some o') \<noteq> org_requires_mfa s (Some o') \<Longrightarrow> o' = org"
    by (rule requires_after_set [OF d _ _ _ f]) (use get_policy_Some [of s org p] p in \<open>simp_all add: policy_or_404_def\<close>)
  then show ?thesis using v m by (auto simp: decided_by_def guarded_requirement_def)
qed

lemma override_guarded:
  assumes d: "distinct (map mp_id (mfa_policies s))"
    and c: "require_permission R E now OVERRIDE_MFA_POLICY token r s = Inr c" and p: "policy_or_404 s org = Inr p"
    and w: "mfa_policies s1 = mfa_policies (set_policy (mp_id p) f s)"
    and keep: "\<And>x. mp_organization_id (f x) = mp_organization_id x \<and> mp_id (f x) = mp_id x \<and> mp_required (f x) = mp_required x"
  shows "guarded_requirement R E now token org r s o' s1"
  using requires_after_set [OF d _ _ _ w, of org] get_policy_Some [of s org p] c p keep policy_flags_cong [OF w] set_policy_flags(2) [of f "mp_id p" s]
  by (auto simp: policy_or_404_def decided_by_def guarded_requirement_def)

lemma creation_guarded:
  assumes m: "sso_manager R E now token org r s = Inr m" and c: "create_org_mfa_policy E now org b i s = Inr (s1, p)"
  shows "guarded_requirement R E now token org r s o' s1"
proof -
  obtain q where q: "mfa_policies s1 = mfa_policies s @ [q]" "mp_organization_id q = org" "\<not> mp_override_active q"
    using c by (auto simp: create_org_mfa_policy_def Let_def split: if_splits)
  then have "overridden s1 = overridden s" by (auto simp: overridden_def)
  moreover have "o' \<noteq> org \<Longrightarrow> org_requires_mfa s1 (Some o') = org_requires_mfa s (Some o')"
    using q by (simp add: org_requires_mfa_def query_first_append del: query_first_None split: option.split)
  ultimately show ?thesis using m by (auto simp: decided_by_def guarded_requirement_def)
qed

text \<open>
  C29. Who decides whether an organization demands a second factor. If a request on an
  organization's path changes the requirement in force for some organization, it is that
  organization, and either the caller may manage sign-on in it and no override was set or lifted,
  or the caller's token carries the platform administrators' permission and no policy's own
  demand was changed.
\<close>

theorem mfa_requirement_guarded:
  assumes q: "policy_request R E now token org r s s'" and d: "distinct (map mp_id (mfa_policies s))"
    and o: "org_requires_mfa s' (Some o') \<noteq> org_requires_mfa s (Some o')"
  shows "o' = org \<and> decided_by R E now token org r s s'"
proof -
  let ?P = "guarded_requirement R E now token org r s o'"
  have same: "?P s" by (simp add: guarded_requirement_def)
  have 1: "?P (fst (create_policy_route R E now token org b r s))" for b
    unfolding create_policy_route_def
    by (rule ends_fst [where P = ?P], intro handler_ends same)
       (auto simp: ends_def refuse_def same split: sum.split exn.split dest: creation_guarded)
  have 2: "?P (fst (update_policy_route R E now token org b reason r s))" for b reason
    unfolding update_policy_route_def
    by (rule ends_fst [where P = ?P], intro handler_ends same)
       (auto simp: ends_def shown_policy_def same split: option.split intro: requirement_set_guarded [OF d])
  have 3: "?P (fst (override_policy_route R E now token org why r s))" for why
    unfolding override_policy_route_def
    by (rule ends_fst [where P = ?P], intro handler_ends same)
       (simp only: ends_def shown_policy_def fst_conv, rule override_guarded [OF d, where f = "\<lambda>x. x\<lparr>mp_override_active := True,
            mp_override_reason := Some why, mp_override_at := Some now, mp_override_by_user_id := Some _\<rparr>"],
        assumption, assumption, simp_all add: set_org_mfa_override_def)
  have 4: "?P (fst (clear_override_route R E now token org r s))"
    unfolding clear_override_route_def
    by (rule ends_fst [where P = ?P], intro handler_ends same)
       (simp only: ends_def shown_policy_def fst_conv, rule override_guarded [OF d, where f = "\<lambda>x. x\<lparr>mp_override_active := False,
            mp_override_reason := None, mp_override_at := None, mp_override_by_user_id := None\<rparr>"],
        assumption, assumption, simp_all add: clear_org_mfa_override_def Let_def)
  have "?P s'" using q by (induction rule: policy_request.induct) (rule 1 2 3 4)+
  then show ?thesis using o by (simp add: guarded_requirement_def)
qed

subsection \<open>What an enrolment token reaches\<close>

lemma enrolment_user:
  assumes u: "get_mfa_enrollment_user R E now token r s = Inr user" and d: "decode_token E now token = Inr c"
    and ty: "get_claim c ''type'' = JStr ''mfa_enrollment''"
  obtains uid where "json_int (get_claim c ''user_id'') = Some uid" "int_sub user = Inr uid" "jtruthy (get_claim user ''mfa_enrollment_only'')"
    "\<exists>x \<in> set (users s). u_id x = uid \<and> u_status x = ''active'' \<and> \<not> u_mfa_enabled x"
proof -
  have g: "(case (json_int (get_claim c ''user_id''), json_str (get_claim c ''jti'')) of
      (Some uid, Some jti) \<Rightarrow>
        (case (query_first (\<lambda>u. u_id u = uid \<and> u_status u = ''active'') (users s), get_active_session now s uid jti) of
           (Some u, Some x) \<Rightarrow>
             if u_mfa_enabled u then Inl (HTTPException 401 ''Invalid or expired enrollment token'')
             else Inr [(''sub'', JStr (show_int (u_id u))), (''email'', JStr (u_email u)), (''mfa_enrollment_only'', JBool True),
                       (''mfa_enrollment_jti'', JStr jti), (''mfa_enrollment_session_id'', JInt (es_id x))]
         | _ \<Rightarrow> Inl (HTTPException 401 ''Invalid or expired enrollment token''))
    | _ \<Rightarrow> Inl (HTTPException 401 ''Invalid or expired enrollment token'')) = Inr user"
    using u d ty by (simp add: get_mfa_enrollment_user_def split: if_splits)
  then obtain uid jti where k: "json_int (get_claim c ''user_id'') = Some uid" "json_str (get_claim c ''jti'') = Some jti" by (auto split: option.splits)
  then obtain x e where x: "query_first (\<lambda>u. u_id u = uid \<and> u_status u = ''active'') (users s) = Some x" "get_active_session now s uid jti = Some e"
    "\<not> u_mfa_enabled x" using g by (auto split: option.splits if_splits)
  have "user = [(''sub'', JStr (show_int (u_id x))), (''email'', JStr (u_email x)), (''mfa_enrollment_only'', JBool True),
                       (''mfa_enrollment_jti'', JStr jti), (''mfa_enrollment_session_id'', JInt (es_id e))]" using g k x by simp
  then show ?thesis
    using k x query_first_Some [of "\<lambda>u. u_id u = uid \<and> u_status u = ''active''" "users s" x]
    by (intro that [of uid]) (auto simp: int_sub_def get_claim_def)
qed

text \<open>Only the account's factors, its enrolment sessions' rows and the ledger differ.\<close>

definition own_factors_only :: "int \<Rightarrow> db \<Rightarrow> db \<Rightarrow> bool" where
  "own_factors_only uid s s' \<longleftrightarrow>
     s' = s\<lparr>users := users s', mfa_devices := mfa_devices s', mfa_enrollment_sessions := mfa_enrollment_sessions s', audit_events := audit_events s'\<rparr>
   \<and> filter (\<lambda>u. u_id u \<noteq> uid) (users s') = filter (\<lambda>u. u_id u \<noteq> uid) (users s)
   \<and> map (\<lambda>u. (u_id u, u_email u, u_hashed_password u, u_status u)) (users s') = map (\<lambda>u. (u_id u, u_email u, u_hashed_password u, u_status u)) (users s)
   \<and> filter (\<lambda>d. d_user_id d \<noteq> uid) (mfa_devices s') = filter (\<lambda>d. d_user_id d \<noteq> uid) (mfa_devices s)"

lemma filter_other_rows:
  assumes "\<And>x. x \<in> set xs \<Longrightarrow> p x \<Longrightarrow> \<not> q x \<and> \<not> q (f x)"
  shows "filter q (update_where p f xs) = filter q xs"
  using assms by (induction xs) auto

lemma start_own: "own_factors_only uid s (fst (start_totp_enrollment E now secret uid email s))"
proof -
  have "filter (\<lambda>d. d_user_id d \<noteq> uid) (mfa_devices (disable_pending_totp_devices now uid s)) = filter (\<lambda>d. d_user_id d \<noteq> uid) (mfa_devices s)"
    by (simp add: disable_pending_totp_devices_def) (rule filter_other_rows, auto)
  then show ?thesis
    by (simp add: start_totp_enrollment_def own_factors_only_def Let_def log_event_def) (simp add: disable_pending_totp_devices_def)
qed

lemma verify_own:
  assumes v: "verify_totp_enrollment E now uid device_id code s = Inr (s1, device)" and d: "distinct (map d_id (mfa_devices s))"
  shows "own_factors_only uid s s1" and "\<And>x. x \<in> set (users s1) \<Longrightarrow> u_id x = uid \<Longrightarrow> u_mfa_enabled x"
proof -
  obtain y where y: "y \<in> set (mfa_devices s)" "d_user_id y = uid"
    and s1: "mfa_devices s1 = mfa_devices (set_device (d_id y) (\<lambda>d. d\<lparr>d_verified_at := Some now\<rparr>) s)"
      "users s1 = update_where (\<lambda>u. u_id u = uid) (enable_user_mfa now) (users s)" "s1 = s\<lparr>users := users s1, mfa_devices := mfa_devices s1, audit_events := audit_events s1\<rparr>"
    using v by (auto simp: verify_totp_enrollment_def set_device_def set_user_def log_event_def Let_def
        split: option.splits sum.splits bool.splits if_splits dest!: query_first_Some)
  have "filter (\<lambda>d. d_user_id d \<noteq> uid) (mfa_devices s1) = filter (\<lambda>d. d_user_id d \<noteq> uid) (mfa_devices s)"
    unfolding s1(1) using y distinct_keyD [OF d _ y(1)] by (simp add: set_device_def) (rule filter_other_rows, auto)
  moreover have "s1 = s\<lparr>users := users s1, mfa_devices := mfa_devices s1, mfa_enrollment_sessions := mfa_enrollment_sessions s1, audit_events := audit_events s1\<rparr>"
  proof -
    have e: "mfa_enrollment_sessions s1 = mfa_enrollment_sessions s" by (subst s1(3)) simp
    show ?thesis unfolding e by (subst s1(3)) simp
  qed
  moreover have "filter (\<lambda>u. u_id u \<noteq> uid) (users s1) = filter (\<lambda>u. u_id u \<noteq> uid) (users s)"
    unfolding s1(2) by (rule filter_other_rows) (auto simp: enable_user_mfa_def)
  moreover have "map (\<lambda>u. (u_id u, u_email u, u_hashed_password u, u_status u)) (users s1) = map (\<lambda>u. (u_id u, u_email u, u_hashed_password u, u_status u)) (users s)"
    unfolding s1(2) by (rule map_update_where_same) (simp add: enable_user_mfa_def)
  ultimately show "own_factors_only uid s s1" unfolding own_factors_only_def by blast
  show "u_mfa_enabled x" if "x \<in> set (users s1)" "u_id x = uid" for x
    using that(1) unfolding s1(2) by (rule in_update_whereE) (use that(2) in \<open>simp_all add: enable_user_mfa_def\<close>)
qed

lemma own_factors_trans:
  assumes "own_factors_only uid s s1" "own_factors_only uid s1 s2"
  shows "own_factors_only uid s s2"
proof -
  have a: "s1 = s\<lparr>users := users s1, mfa_devices := mfa_devices s1, mfa_enrollment_sessions := mfa_enrollment_sessions s1, audit_events := audit_events s1\<rparr>"
    and b: "s2 = s1\<lparr>users := users s2, mfa_devices := mfa_devices s2, mfa_enrollment_sessions := mfa_enrollment_sessions s2, audit_events := audit_events s2\<rparr>"
    using assms by (simp_all only: own_factors_only_def)
  have "s2 = s\<lparr>users := users s2, mfa_devices := mfa_devices s2, mfa_enrollment_sessions := mfa_enrollment_sessions s2, audit_events := audit_events s2\<rparr>"
    by (subst (1) b, subst (1) a) simp
  moreover have "filter (\<lambda>u. u_id u \<noteq> uid) (users s2) = filter (\<lambda>u. u_id u \<noteq> uid) (users s)"
    "map (\<lambda>u. (u_id u, u_email u, u_hashed_password u, u_status u)) (users s2) = map (\<lambda>u. (u_id u, u_email u, u_hashed_password u, u_status u)) (users s)"
    "filter (\<lambda>d. d_user_id d \<noteq> uid) (mfa_devices s2) = filter (\<lambda>d. d_user_id d \<noteq> uid) (mfa_devices s)"
    using assms [unfolded own_factors_only_def, THEN conjunct2] by simp_all
  ultimately show ?thesis unfolding own_factors_only_def by blast
qed

lemma own_sessions:
  "own_factors_only uid s (s\<lparr>mfa_enrollment_sessions := es\<rparr>)" "own_factors_only uid s s"
  by (simp_all only: own_factors_only_def) simp_all

lemma session_writes:
  "set_enrollment_device i j s = s\<lparr>mfa_enrollment_sessions := mfa_enrollment_sessions (set_enrollment_device i j s)\<rparr>"
  "consume_session now i s = (s2, b) \<Longrightarrow> s2 = s\<lparr>mfa_enrollment_sessions := mfa_enrollment_sessions s2\<rparr>"
  by (auto simp: set_enrollment_device_def consume_session_def Let_def)

lemma own_session_writes:
  "own_factors_only uid s s1 \<Longrightarrow> own_factors_only uid s (set_enrollment_device i j s1)"
  "own_factors_only uid s s1 \<Longrightarrow> consume_session now i s1 = (s2, b) \<Longrightarrow> own_factors_only uid s s2"
  using own_sessions(1) own_factors_trans session_writes by metis+

lemma finish_own:
  "own_factors_only uid s s0 \<Longrightarrow> own_factors_only uid s (fst (finish_enrollment now session dev s0))"
  "users (fst (finish_enrollment now session dev s0)) = users s0"
proof -
  obtain s2 b where c: "consume_session now (es_id (the session)) s0 = (s2, b)" by force
  have "users s2 = users s0" by (subst session_writes(2) [OF c]) simp
  then show "users (fst (finish_enrollment now session dev s0)) = users s0" using c by (cases session) (simp_all add: finish_enrollment_def)
  show "own_factors_only uid s s0 \<Longrightarrow> own_factors_only uid s (fst (finish_enrollment now session dev s0))"
    using own_session_writes(2) [OF _ c] c by (cases session) (simp_all add: finish_enrollment_def)
qed

text \<open>
  Property. What an enrolment token is good for. The token that a login hands out when the organization
  demands a second factor and the account has none reaches, through the two enrolment routes,
  only the second factors of its own account, its enrolment sessions and the ledger: other
  accounts, passwords, addresses, statuses, sessions and refresh tokens stay as they are. And once
  an enrolment has been completed with it, every further use of it is refused, at any time.
\<close>

theorem enrolment_token_confined:
  assumes d: "distinct (map d_id (mfa_devices s))" and c: "decode_token E now token = Inr c" "get_claim c ''type'' = JStr ''mfa_enrollment''"
    and uid: "json_int (get_claim c ''user_id'') = Some uid"
  shows "own_factors_only uid s (fst (start_totp_route R E now secret token r s))
    \<and> own_factors_only uid s (fst (verify_totp_route R E now token device code r s))
    \<and> (\<forall>s1 out t c' secret' device' code' r'. verify_totp_route R E now token device code r s = (s1, Inr out)
          \<and> decode_token E t token = Inr c' \<and> get_claim c' ''type'' = JStr ''mfa_enrollment'' \<and> json_int (get_claim c' ''user_id'') = Some uid \<longrightarrow>
        (\<exists>e. start_totp_route R E t secret' token r' s1 = (s1, Inl e)) \<and> (\<exists>e. verify_totp_route R E t token device' code' r' s1 = (s1, Inl e)))"
proof (intro conjI allI impI)
  have sub: "u = uid" if "get_mfa_enrollment_user R E now token r s = Inr user" "int_sub user = Inr u" for user u
    using enrolment_user [OF that(1) c] that(2) uid by (metis option.inject sum.inject(2))
  let ?P = "own_factors_only uid s"
  show "?P (fst (start_totp_route R E now secret token r s))"
    unfolding start_totp_route_def
  proof (rule ends_fst [where P = ?P], intro handler_ends own_sessions(2))
    fix user session u email p s1 e
    assume "get_mfa_enrollment_user R E now token r s = Inr user" "int_sub user = Inr u"
      and p: "map_exn config_error (start_totp_enrollment E now secret u email s) = (s1, Inl e)"
    then have "u = uid" using sub by blast
    then show "?P s1" using start_own [of uid s E now secret email] p by (metis fst_conv map_exn_simps(1))
  next
    fix user session u email s1 p
    assume "get_mfa_enrollment_user R E now token r s = Inr user" "int_sub user = Inr u"
      and p: "map_exn config_error (start_totp_enrollment E now secret u email s) = (s1, Inr p)"
    then have "u = uid" using sub by blast
    then have "?P s1" using start_own [of uid s E now secret email] p by (metis fst_conv map_exn_simps(1))
    then show "ends ?P (case p of (device, uri) \<Rightarrow>
        (case session of None \<Rightarrow> s1 | Some x \<Rightarrow> set_enrollment_device (es_id x) (d_id device) s1, Inr (d_id device, uri)))"
      by (auto simp: ends_def own_session_writes(1) split: prod.split option.split)
  qed
  have fin: "?P s1 \<and> (\<forall>x \<in> set (users s1). u_id x = uid \<longrightarrow> u_mfa_enabled x)"
    if "get_mfa_enrollment_user R E now token r s = Inr user" "int_sub user = Inr u" "verify_totp_enrollment E now u device code s = Inr (s1, dev)"
    for user u s1 dev using sub [OF that(1,2)] verify_own [OF that(3)] d by blast
  show "?P (fst (verify_totp_route R E now token device code r s))"
    unfolding verify_totp_route_def
    by (rule ends_fst [where P = ?P], intro handler_ends own_sessions(2))
       (auto simp: ends_def own_sessions(2) finish_own(1) split: sum.split dest!: fin)
  have spent: "\<exists>e. get_mfa_enrollment_user R E t token r' s1 = Inl e"
    if "verify_totp_route R E now token device code r s = (s1, Inr out)
          \<and> decode_token E t token = Inr c' \<and> get_claim c' ''type'' = JStr ''mfa_enrollment'' \<and> json_int (get_claim c' ''user_id'') = Some uid" for s1 out t c' r'
  proof -
    note vr = conjunct1 [OF that]
    have "\<forall>x \<in> set (users s1). u_id x = uid \<longrightarrow> u_mfa_enabled x"
    proof -
      obtain user u session where g: "get_mfa_enrollment_user R E now token r s = Inr user" "int_sub user = Inr u"
        and c: "(case verify_totp_enrollment E now u device code s of Inl e \<Rightarrow> (s, Inl (totp_error e)) | Inr (s0, dev) \<Rightarrow> finish_enrollment now session dev s0) = (s1, Inr out)"
        using vr unfolding verify_totp_route_def or_raise_Inr by blast
      then obtain s0 dev where v: "verify_totp_enrollment E now u device code s = Inr (s0, dev)" by (cases "verify_totp_enrollment E now u device code s") auto
      then have "finish_enrollment now session dev s0 = (s1, Inr out)" using c by simp
      then have "users s1 = users s0" using finish_own(2) [of now session dev s0] by simp
      then show ?thesis using fin [OF g v] by simp
    qed
    then show ?thesis
      using enrolment_user [of R E t token r' s1 _ c'] that by (cases "get_mfa_enrollment_user R E t token r' s1") auto
  qed
  {
    fix s1 out t c' secret' device' code' r'
    assume v: "verify_totp_route R E now token device code r s = (s1, Inr out)
          \<and> decode_token E t token = Inr c' \<and> get_claim c' ''type'' = JStr ''mfa_enrollment'' \<and> json_int (get_claim c' ''user_id'') = Some uid"
    obtain e where "get_mfa_enrollment_user R E t token r' s1 = Inl e" using spent [OF v] by blast
    then show "\<exists>e. start_totp_route R E t secret' token r' s1 = (s1, Inl e)" by (simp add: start_totp_route_def)
  next
    fix s1 out t c' secret' device' code' r'
    assume v: "verify_totp_route R E now token device code r s = (s1, Inr out)
          \<and> decode_token E t token = Inr c' \<and> get_claim c' ''type'' = JStr ''mfa_enrollment'' \<and> json_int (get_claim c' ''user_id'') = Some uid"
    obtain e where "get_mfa_enrollment_user R E t token r' s1 = Inl e" using spent [OF v] by blast
    then show "\<exists>e. verify_totp_route R E t token device' code' r' s1 = (s1, Inl e)" by (simp add: verify_totp_route_def)
  }
qed

subsection \<open>Concrete requests\<close>

definition sso_db :: db where
  "sso_db = guard_db\<lparr>permissions := [\<lparr>p_id = 2, p_name = ''manage_sso''\<rparr>]\<rparr>"

lemma sso_user: "get_current_user kv_redis guard_env 0 ''tok'' (True, []) sso_db = Inr guard_claims"
proof -
  have "get_current_user kv_redis guard_env 0 ''tok'' (True, []) sso_db = get_current_user kv_redis guard_env 0 ''tok'' (True, []) guard_db"
    by (rule user_guard_cong) (simp_all add: sso_db_def)
  then show ?thesis using guard_user by simp
qed

theorem mfa_requirement_guarded_witness:
  "\<exists>s'. s' = fst (create_policy_route kv_redis guard_env 0 ''tok'' 7 True (True, []) sso_db) \<and> org_requires_mfa s' (Some 7)
     \<and> decided_by kv_redis guard_env 0 ''tok'' 7 (True, []) sso_db s'"
proof -
  let ?s = "fst (create_policy_route kv_redis guard_env 0 ''tok'' 7 True (True, []) sso_db)"
  let ?a = "acting_row sso_db (hd (memberships guard_db))"
  have "get_org_membership_or_platform_admin sso_db 7 guard_claims = Inr ?a"
    using guard_sub by (simp add: get_org_membership_or_platform_admin_def get_org_membership_def claim_in_or_empty_def guard_claims_def
        sso_db_def guard_db_def Let_def)
  moreover have "MANAGE_SSO \<in> set (permissions_for_membership sso_db (hd (memberships guard_db)))"
    by (simp add: permissions_for_membership_def permissions_for_roles_def roles_of_membership_def role_perms_def sso_db_def guard_db_def MANAGE_SSO_def)
  ultimately have m: "sso_manager kv_redis guard_env 0 ''tok'' 7 (True, []) sso_db = Inr ?a"
    by (simp add: sso_manager_def require_org_permission_or_platform_admin_def sso_user check_membership_def)
  have e: "mfa_policies sso_db = []" by (simp add: sso_db_def guard_db_def empty_db_def)
  then have r: "org_requires_mfa ?s (Some 7)" "\<not> org_requires_mfa sso_db (Some 7)"
    using m by (simp_all add: create_policy_route_def create_org_mfa_policy_def get_org_mfa_policy_def org_requires_mfa_def Let_def)
  then have "decided_by kv_redis guard_env 0 ''tok'' 7 (True, []) sso_db ?s"
    using mfa_requirement_guarded [OF policy_request.create, of sso_db kv_redis guard_env 0 "''tok''" 7 True "(True, [])" 7] e by auto
  then show ?thesis using r by blast
qed

definition enrol_claims :: claims where
  "enrol_claims = [(''type'', JStr ''mfa_enrollment''), (''purpose'', JStr ''totp_enrollment''), (''user_id'', JInt 1), (''jti'', JStr ''j'')]"

definition enrol_env :: env where
  "enrol_env = sample_env [''enr'' \<mapsto> enrol_claims]"

definition enrol_db :: db where
  "enrol_db = guard_db\<lparr>mfa_enrollment_sessions := [\<lparr>es_id = 1, es_user_id = 1, es_token_jti = ''j'', es_device_id = None, es_created_at = 0,
     es_expires_at = 600, es_consumed_at = None\<rparr>]\<rparr>"

theorem enrolment_token_confined_witness:
  "own_factors_only 1 enrol_db (fst (start_totp_route kv_redis enrol_env 0 ''secret'' ''enr'' (True, []) enrol_db))
     \<and> mfa_devices (fst (start_totp_route kv_redis enrol_env 0 ''secret'' ''enr'' (True, []) enrol_db)) \<noteq> []"
proof -
  have d: "decode_token enrol_env 0 ''enr'' = Inr enrol_claims"
    by (simp add: decode_token_def decode_token_for_audience_def enrol_env_def sample_env_def enrol_claims_def)
  have cr: "crypto_configured enrol_env" by (simp add: enrol_env_def sample_env_def)
  have g: "get_mfa_enrollment_user kv_redis enrol_env 0 ''enr'' (True, []) enrol_db
      = Inr [(''sub'', JStr (show_int 1)), (''email'', JStr ''ada''), (''mfa_enrollment_only'', JBool True), (''mfa_enrollment_jti'', JStr ''j''),
             (''mfa_enrollment_session_id'', JInt 1)]"
    by (simp add: get_mfa_enrollment_user_def d) (simp add: enrol_claims_def get_active_session_def enrol_db_def guard_db_def sample_user_def)
  have sess: "get_active_session 0 enrol_db 1 ''j'' = Some \<lparr>es_id = 1, es_user_id = 1, es_token_jti = ''j'', es_device_id = None, es_created_at = 0,
     es_expires_at = 600, es_consumed_at = None\<rparr>" by (simp add: get_active_session_def enrol_db_def)
  have "mfa_devices (fst (start_totp_route kv_redis enrol_env 0 ''secret'' ''enr'' (True, []) enrol_db)) \<noteq> []"
    using sess by (simp add: start_totp_route_def g enrollment_session_def int_sub_def claimed_email_def set_enrollment_device_def log_event_def
        start_totp_enrollment_def Let_def cr map_exn_def)
  moreover have "distinct (map d_id (mfa_devices enrol_db))" by (simp add: enrol_db_def guard_db_def empty_db_def)
  moreover have "json_int (get_claim enrol_claims ''user_id'') = Some 1" "get_claim enrol_claims ''type'' = JStr ''mfa_enrollment''"
    by (simp_all add: enrol_claims_def)
  ultimately show ?thesis using enrolment_token_confined [of enrol_db enrol_env 0 "''enr''" enrol_claims 1 kv_redis "''secret''" "(True, [])"] d by blast
qed

end
