(* ===== verification/Org_Sso.thy ===== *)
theory Org_Sso
  imports Oauth_Routes Mfa_Routes
begin

text \<open>
  An organization's own identity provider: \<open>app/services/org_sso_service.py\<close> and
  \<open>app/api/routes_org_sso.py\<close>. The issuer an administrator enters is resolved, kept from internal
  addresses and asked for its discovery document over \<open>remote\<close>; the resolver is the environment's.

  The theory shows that nothing is stored that was not discovered at a public address, that
  enforcement needs somebody who has signed in through the provider, and what a change of the
  issuer and the deletion of a configuration leave behind.
\<close>

subsection \<open>Discovery\<close>

definition validate_issuer_url :: "env \<Rightarrow> string \<Rightarrow> exn + string" where
  "validate_issuer_url E issuer =
     (case urlsplit E issuer of
        None \<Rightarrow> Inl (ValueError ''invalid URL'' [])
      | Some u \<Rightarrow>
          if url_scheme u \<noteq> ''http'' \<and> url_scheme u \<noteq> ''https'' then Inl (SSODiscoveryError ''issuer must be an http(s) URL'')
          else if REQUIRE_HTTPS_FOR_SSO_ISSUER (cfg E) \<and> url_scheme u \<noteq> ''https'' then Inl (SSODiscoveryError ''issuer must use HTTPS'')
          else if \<not> truthy (url_hostname u) then Inl (SSODiscoveryError ''issuer must include a hostname'')
          else Inr (the (url_hostname u)))"

text \<open>The loop over the addresses of the host: an address that is none raises \<open>ValueError\<close>.\<close>

fun all_global :: "env \<Rightarrow> string list \<Rightarrow> exn option" where
  "all_global E [] = None"
| "all_global E (a # as) =
     (case ip_is_global E a of
        None \<Rightarrow> Some (ValueError ''{!r} does not appear to be an IPv4 or IPv6 address'' [a])
      | Some g \<Rightarrow> if \<not> g then Some (SSODiscoveryError ''issuer host resolves to a non-public address, which is not allowed'') else all_global E as)"

definition assert_not_ssrf_target :: "env \<Rightarrow> string \<Rightarrow> exn option" where
  "assert_not_ssrf_target E host =
     (case getaddrinfo E host of
        None \<Rightarrow> Some (SSODiscoveryError ''could not resolve issuer host'')
      | Some as \<Rightarrow> all_global E as)"

definition REQUIRED_DISCOVERY_FIELDS :: "string list" where
  "REQUIRED_DISCOVERY_FIELDS = [''authorization_endpoint'', ''token_endpoint'', ''jwks_uri'']"

definition discovery_url :: "string \<Rightarrow> string" where
  "discovery_url issuer = rstrip_by (\<lambda>c. c = CHR ''/'') issuer @ ''/.well-known/openid-configuration''"

text \<open>The document, a JSON object whose own issuer is the requested one.\<close>

definition check_document :: "string \<Rightarrow> json \<Rightarrow> exn + claims" where
  "check_document issuer v =
     (case v of
        JObj doc \<Rightarrow>
          if get_claim doc ''issuer'' \<noteq> JStr issuer
          then Inl (SSODiscoveryError (''discovery document's issuer ('' @ py_repr (get_claim doc ''issuer'')
                 @ '') does not match the requested issuer ('' @ py_repr_str issuer @ '')''))
          else let missing = filter (\<lambda>f. \<not> jtruthy (get_claim doc f)) REQUIRED_DISCOVERY_FIELDS
               in if missing \<noteq> []
                  then Inl (SSODiscoveryError (''discovery document missing required field(s): '' @ str_join '', '' missing)) else Inr doc
      | _ \<Rightarrow> Inl AttributeError)"

definition verify_oidc_discovery :: "remote \<Rightarrow> env \<Rightarrow> string \<Rightarrow> exn + claims" where
  "verify_oidc_discovery N E issuer =
     proceed (validate_issuer_url E issuer) (\<lambda>host.
     case assert_not_ssrf_target E host of
       Some e \<Rightarrow> Inl e
     | None \<Rightarrow>
         (case http_get N (discovery_url issuer) None of
            Unreachable m \<Rightarrow> Inl (SSODiscoveryError (''could not reach discovery endpoint: '' @ m))
          | Answered status _ body \<Rightarrow>
              if status \<noteq> 200 then Inl (SSODiscoveryError (''discovery endpoint returned HTTP '' @ show_int status))
              else (case body of
                      None \<Rightarrow> Inl (SSODiscoveryError ''discovery endpoint did not return valid JSON'')
                    | Some v \<Rightarrow> check_document issuer v)))"

subsection \<open>The configuration\<close>

definition get_sso_config :: "db \<Rightarrow> int \<Rightarrow> org_sso_config option" where
  "get_sso_config s org = query_first (\<lambda>c. sso_organization_id c = org) (sso_configs s)"

definition set_sso :: "int \<Rightarrow> (org_sso_config \<Rightarrow> org_sso_config) \<Rightarrow> db \<Rightarrow> db" where
  "set_sso i f s = s\<lparr>sso_configs := update_where (\<lambda>c. sso_id c = i) f (sso_configs s)\<rparr>"

text \<open>A column of text takes no other value.\<close>

definition column_text :: "json \<Rightarrow> exn + string option" where
  "column_text v = (case v of JNull \<Rightarrow> Inr None | JStr x \<Rightarrow> Inr (Some x) | _ \<Rightarrow> Inl TypeError)"

definition crypto_seal :: "env \<Rightarrow> string \<Rightarrow> exn + string" where
  "crypto_seal E secret = (if crypto_configured E then Inr (crypto_encrypt E secret) else Inl (RuntimeError ''CONFIG_ENCRYPTION_KEY is not set''))"

record endpoints =
  ep_authorization :: "string option"
  ep_token :: "string option"
  ep_userinfo :: "string option"
  ep_jwks :: "string option"

definition endpoints_of :: "claims \<Rightarrow> exn + endpoints" where
  "endpoints_of doc =
     proceed (column_text (get_claim doc ''authorization_endpoint'')) (\<lambda>a.
     proceed (column_text (get_claim doc ''token_endpoint'')) (\<lambda>t.
     proceed (column_text (get_claim doc ''userinfo_endpoint'')) (\<lambda>u.
     proceed (column_text (get_claim doc ''jwks_uri'')) (\<lambda>j.
     Inr \<lparr>ep_authorization = a, ep_token = t, ep_userinfo = u, ep_jwks = j\<rparr>))))"

definition sso_event :: "string \<Rightarrow> int option \<Rightarrow> org_sso_config \<Rightarrow> audit_args" where
  "sso_event t actor c = (audit t)\<lparr>a_actor := actor, a_org := Some (sso_organization_id c), a_rtype := Some ''organization_sso_config'',
     a_rid := Some (show_int (sso_id c))\<rparr>"

definition new_sso_config :: "int \<Rightarrow> time \<Rightarrow> int \<Rightarrow> string \<Rightarrow> string \<Rightarrow> string \<Rightarrow> string list \<Rightarrow> int \<Rightarrow> endpoints \<Rightarrow> org_sso_config" where
  "new_sso_config i now org issuer client_id sealed domains actor ep =
     \<lparr>sso_id = i, sso_organization_id = org, sso_provider_type = ''oidc'', sso_issuer = issuer,
      sso_client_id = client_id, sso_client_secret_encrypted = sealed, sso_authorization_endpoint = ep_authorization ep,
      sso_token_endpoint = ep_token ep, sso_userinfo_endpoint = ep_userinfo ep, sso_jwks_uri = ep_jwks ep,
      sso_allowed_domains = domains, sso_enforced = False, sso_status = ''active'', sso_created_at = now,
      sso_updated_at = Some now, sso_updated_by_user_id = Some actor, sso_last_verified_at = Some now,
      sso_override_at = None, sso_override_reason = None, sso_override_by_user_id = None\<rparr>"

definition configure_sso ::
  "remote \<Rightarrow> env \<Rightarrow> time \<Rightarrow> int \<Rightarrow> string \<Rightarrow> string \<Rightarrow> string \<Rightarrow> string list \<Rightarrow> int \<Rightarrow> db \<Rightarrow> exn + db \<times> org_sso_config" where
  "configure_sso N E now org issuer client_id secret domains actor s =
     (if get_sso_config s org \<noteq> None then Inl (ValueError ''this organization already has an SSO configuration'' [])
      else proceed (verify_oidc_discovery N E issuer) (\<lambda>doc.
           proceed (crypto_seal E secret) (\<lambda>sealed.
           proceed (endpoints_of doc) (\<lambda>ep.
           let c = new_sso_config (next_id sso_id (sso_configs s)) now org issuer client_id sealed domains actor ep
           in Inr (log_event E now ((sso_event ''sso_configuration_created'' (Some actor) c)
                     \<lparr>a_after := JObj [(''provider_type'', JStr ''oidc''), (''issuer'', JStr issuer), (''status'', JStr ''active'')],
                      a_meta := JObj [(''provider_type'', JStr ''oidc'')]\<rparr>) (s\<lparr>sso_configs := sso_configs s @ [c]\<rparr>), c)))))"

text \<open>The fields of an update; the issuer is only looked up again when it changes.\<close>

record sso_changes =
  sc_issuer :: "string option"
  sc_client_id :: "string option"
  sc_client_secret :: "string option"
  sc_allowed_domains :: "string list option"

definition rediscover :: "remote \<Rightarrow> env \<Rightarrow> time \<Rightarrow> org_sso_config \<Rightarrow> string option \<Rightarrow> exn + org_sso_config" where
  "rediscover N E now c issuer =
     (if issuer = None \<or> issuer = Some (sso_issuer c) then Inr c
      else proceed (verify_oidc_discovery N E (the issuer)) (\<lambda>doc.
           proceed (endpoints_of doc) (\<lambda>ep.
           Inr (c\<lparr>sso_issuer := the issuer, sso_authorization_endpoint := ep_authorization ep, sso_token_endpoint := ep_token ep,
             sso_userinfo_endpoint := ep_userinfo ep, sso_jwks_uri := ep_jwks ep, sso_last_verified_at := Some now, sso_status := ''active''\<rparr>))))"

definition reseal :: "env \<Rightarrow> string option \<Rightarrow> org_sso_config \<Rightarrow> exn + org_sso_config" where
  "reseal E secret c =
     (case secret of None \<Rightarrow> Inr c | Some x \<Rightarrow> proceed (crypto_seal E x) (\<lambda>sealed. Inr (c\<lparr>sso_client_secret_encrypted := sealed\<rparr>)))"

definition config_fields :: "org_sso_config \<Rightarrow> json" where
  "config_fields c = JObj [(''issuer'', JStr (sso_issuer c)), (''client_id'', JStr (sso_client_id c)), (''allowed_domains'', jstrs (sso_allowed_domains c))]"

definition update_sso_config ::
  "remote \<Rightarrow> env \<Rightarrow> time \<Rightarrow> org_sso_config \<Rightarrow> int \<Rightarrow> sso_changes \<Rightarrow> db \<Rightarrow> exn + db \<times> org_sso_config" where
  "update_sso_config N E now c actor q s =
     proceed (rediscover N E now c (sc_issuer q)) (\<lambda>c1.
     proceed (reseal E (sc_client_secret q) (case sc_client_id q of None \<Rightarrow> c1 | Some i \<Rightarrow> c1\<lparr>sso_client_id := i\<rparr>)) (\<lambda>c2.
     let c3 = (case sc_allowed_domains q of None \<Rightarrow> c2 | Some ds \<Rightarrow> c2\<lparr>sso_allowed_domains := ds\<rparr>)
                \<lparr>sso_updated_at := Some now, sso_updated_by_user_id := Some actor\<rparr>
     in Inr (log_event E now ((sso_event ''sso_configuration_updated'' (Some actor) c3)
               \<lparr>a_before := config_fields c, a_after := config_fields c3, a_meta := JObj [(''provider_type'', JStr (sso_provider_type c3))]\<rparr>)
               (set_sso (sso_id c) (\<lambda>_. c3) s), c3)))"

text \<open>The row is the target of the foreign key of the identities linked through it.\<close>

definition delete_sso_config :: "org_sso_config \<Rightarrow> db \<Rightarrow> exn + db" where
  "delete_sso_config c s =
     (if query_exists (\<lambda>a. oa_organization_sso_config_id a = Some (sso_id c)) (oauth_accounts s)
      then Inl (IntegrityError ''fk_oauth_accounts_organization_sso_config_id'')
      else Inr (s\<lparr>sso_configs := filter (\<lambda>x. sso_id x \<noteq> sso_id c) (sso_configs s)\<rparr>))"

definition has_completed_sso_login :: "db \<Rightarrow> int \<Rightarrow> bool" where
  "has_completed_sso_login s i = query_exists (\<lambda>a. oa_organization_sso_config_id a = Some i) (oauth_accounts s)"

definition set_enforced :: "env \<Rightarrow> time \<Rightarrow> org_sso_config \<Rightarrow> bool \<Rightarrow> int \<Rightarrow> db \<Rightarrow> exn + db \<times> org_sso_config" where
  "set_enforced E now c enforced actor s =
     (if enforced \<and> \<not> sso_enforced c \<and> \<not> has_completed_sso_login s (sso_id c)
      then Inl (ValueError ''cannot enforce SSO for this organization until at least one member has completed a successful SSO login'' [])
      else let c1 = c\<lparr>sso_enforced := enforced, sso_updated_at := Some now, sso_updated_by_user_id := Some actor\<rparr>;
               s1 = set_sso (sso_id c) (\<lambda>_. c1) s
           in Inr (if sso_enforced c \<noteq> enforced
                   then log_event E now ((sso_event ''sso_enforcement_changed'' (Some actor) c1)
                          \<lparr>a_before := JObj [(''enforced'', JBool (sso_enforced c))], a_after := JObj [(''enforced'', JBool enforced)],
                           a_meta := JObj [(''enforced_before'', JBool (sso_enforced c)), (''enforced_after'', JBool enforced)]\<rparr>) s1
                   else s1, c1))"

definition set_sso_override :: "env \<Rightarrow> time \<Rightarrow> org_sso_config \<Rightarrow> string \<Rightarrow> int \<Rightarrow> db \<Rightarrow> db \<times> org_sso_config" where
  "set_sso_override E now c reason actor s =
     (let c1 = c\<lparr>sso_override_at := Some now, sso_override_reason := Some reason, sso_override_by_user_id := Some actor\<rparr>
      in (log_event E now ((sso_event ''sso_override_created'' (Some actor) c1)
            \<lparr>a_before := JObj [(''sso_override_active'', JBool (sso_override_at c \<noteq> None)), (''enforced'', JBool (sso_enforced c))],
             a_after := JObj [(''sso_override_active'', JBool True), (''enforced'', JBool (sso_enforced c))],
             a_meta := JObj [(''action'', JStr ''override_created''), (''override_reason'', JStr reason),
                        (''enforced_before'', JBool (sso_enforced c)), (''timestamp'', JStr (isoformat_auto E now))]\<rparr>)
            (set_sso (sso_id c) (\<lambda>_. c1) s), c1))"

definition clear_sso_override :: "env \<Rightarrow> time \<Rightarrow> org_sso_config \<Rightarrow> int option \<Rightarrow> db \<Rightarrow> db \<times> org_sso_config" where
  "clear_sso_override E now c actor s =
     (let c1 = c\<lparr>sso_override_at := None, sso_override_reason := None, sso_override_by_user_id := None\<rparr>;
          s1 = set_sso (sso_id c) (\<lambda>_. c1) s
      in (if sso_override_at c \<noteq> None
          then log_event E now ((sso_event ''sso_override_removed'' actor c1)
                 \<lparr>a_before := JObj [(''sso_override_active'', JBool True), (''sso_override_reason'', jstr_opt (sso_override_reason c)),
                                (''sso_override_by_user_id'', jint_opt (sso_override_by_user_id c))],
                  a_after := JObj [(''sso_override_active'', JBool False)],
                  a_meta := JObj [(''action'', JStr ''override_removed''), (''timestamp'', JStr (isoformat_auto E now))]\<rparr>) s1
          else s1, c1))"

subsection \<open>\<open>routes_org_sso.py\<close>\<close>

definition OVERRIDE_SSO_ENFORCEMENT :: string where
  "OVERRIDE_SSO_ENFORCEMENT = ''override_sso_enforcement''"

record sso_config_out =
  sx_issuer :: string
  sx_client_id :: string
  sx_provider_type :: string
  sx_allowed_domains :: "string list"
  sx_status :: string
  sx_created_at :: time
  sx_updated_at :: "time option"
  sx_enforced :: bool
  sx_override_active :: bool

definition sso_config_out_of :: "org_sso_config \<Rightarrow> sso_config_out" where
  "sso_config_out_of c = \<lparr>sx_issuer = sso_issuer c, sx_client_id = sso_client_id c, sx_provider_type = sso_provider_type c,
     sx_allowed_domains = sso_allowed_domains c, sx_status = sso_status c, sx_created_at = sso_created_at c, sx_updated_at = sso_updated_at c,
     sx_enforced = sso_enforced c, sx_override_active = (sso_override_at c \<noteq> None)\<rparr>"

definition sso_config_or_404 :: "db \<Rightarrow> int \<Rightarrow> exn + org_sso_config" where
  "sso_config_or_404 s org = or_404 ''No SSO configuration for this organization'' (get_sso_config s org)"

text \<open>The \<open>except\<close> clauses of the two routes that discover, which differ in the code for a \<open>ValueError\<close>.\<close>

definition sso_error :: "int \<Rightarrow> exn \<Rightarrow> exn" where
  "sso_error code e =
     (case e of SSODiscoveryError m \<Rightarrow> HTTPException 400 m | ValueError m _ \<Rightarrow> HTTPException code m | RuntimeError m \<Rightarrow> HTTPException 500 m | _ \<Rightarrow> e)"

definition create_sso_config_route ::
  "remote \<Rightarrow> 'r redis \<Rightarrow> env \<Rightarrow> time \<Rightarrow> string \<Rightarrow> int \<Rightarrow> string \<Rightarrow> string \<Rightarrow> string \<Rightarrow> string list \<Rightarrow> 'r \<Rightarrow> db \<Rightarrow> db \<times> (exn + sso_config_out)" where
  "create_sso_config_route N R E now token org issuer client_id secret domains r s =
     or_raise s (sso_manager R E now token org r s) (\<lambda>m.
     case configure_sso N E now org issuer client_id secret domains (am_user_id m) s of
       Inl e \<Rightarrow> (s, Inl (sso_error 409 e))
     | Inr (s1, c) \<Rightarrow> (s1, Inr (sso_config_out_of c)))"

definition get_sso_config_route :: "'r redis \<Rightarrow> env \<Rightarrow> time \<Rightarrow> string \<Rightarrow> int \<Rightarrow> 'r \<Rightarrow> db \<Rightarrow> exn + sso_config_out" where
  "get_sso_config_route R E now token org r s =
     proceed (sso_manager R E now token org r s) (\<lambda>m. map_sum id sso_config_out_of (sso_config_or_404 s org))"

text \<open>The update is committed before the enforcement is looked at.\<close>

definition update_sso_config_route ::
  "remote \<Rightarrow> 'r redis \<Rightarrow> env \<Rightarrow> time \<Rightarrow> string \<Rightarrow> int \<Rightarrow> sso_changes \<Rightarrow> bool option \<Rightarrow> 'r \<Rightarrow> db \<Rightarrow> db \<times> (exn + sso_config_out)" where
  "update_sso_config_route N R E now token org q enforced r s =
     or_raise s (sso_manager R E now token org r s) (\<lambda>m.
     or_raise s (sso_config_or_404 s org) (\<lambda>c.
     case update_sso_config N E now c (am_user_id m) q s of
       Inl e \<Rightarrow> (s, Inl (sso_error 400 e))
     | Inr (s1, c1) \<Rightarrow>
         if enforced = None \<or> enforced = Some (sso_enforced c1) then (s1, Inr (sso_config_out_of c1))
         else (case set_enforced E now c1 (the enforced) (am_user_id m) s1 of
                 Inl e \<Rightarrow> (s1, Inl (sso_error 400 e))
               | Inr (s2, c2) \<Rightarrow> (s2, Inr (sso_config_out_of c2)))))"

definition delete_sso_config_route :: "'r redis \<Rightarrow> env \<Rightarrow> time \<Rightarrow> string \<Rightarrow> int \<Rightarrow> 'r \<Rightarrow> db \<Rightarrow> db \<times> (exn + unit)" where
  "delete_sso_config_route R E now token org r s =
     or_raise s (sso_manager R E now token org r s) (\<lambda>m.
     or_raise s (sso_config_or_404 s org) (\<lambda>c.
     case delete_sso_config c s of Inl e \<Rightarrow> (s, Inl e) | Inr s1 \<Rightarrow> (s1, Inr ())))"

definition override_sso_enforcement ::
  "'r redis \<Rightarrow> env \<Rightarrow> time \<Rightarrow> string \<Rightarrow> int \<Rightarrow> string \<Rightarrow> 'r \<Rightarrow> db \<Rightarrow> db \<times> (exn + sso_config_out)" where
  "override_sso_enforcement R E now token org reason r s =
     or_raise s (require_permission R E now OVERRIDE_SSO_ENFORCEMENT token r s) (\<lambda>user.
     or_raise s (sso_config_or_404 s org) (\<lambda>c.
     or_raise s (int_sub user) (\<lambda>uid.
     let (s1, c1) = set_sso_override E now c reason uid s in (s1, Inr (sso_config_out_of c1)))))"

definition clear_sso_override_route :: "'r redis \<Rightarrow> env \<Rightarrow> time \<Rightarrow> string \<Rightarrow> int \<Rightarrow> 'r \<Rightarrow> db \<Rightarrow> db \<times> (exn + sso_config_out)" where
  "clear_sso_override_route R E now token org r s =
     or_raise s (require_permission R E now OVERRIDE_SSO_ENFORCEMENT token r s) (\<lambda>user.
     or_raise s (sso_config_or_404 s org) (\<lambda>c.
     or_raise s (int_sub user) (\<lambda>uid.
     let (s1, c1) = clear_sso_override E now c (Some uid) s in (s1, Inr (sso_config_out_of c1)))))"

subsection \<open>Properties\<close>

text \<open>
  The requests on configurations, and everything else that happens to the identities linked through
  them: no code of the service removes one.
\<close>

inductive sso_request :: "remote \<Rightarrow> 'r redis \<Rightarrow> env \<Rightarrow> db \<Rightarrow> db \<Rightarrow> bool" for N R E where
  create: "sso_request N R E s (fst (create_sso_config_route N R E now token org issuer client_id secret domains r s))"
| update: "sso_request N R E s (fst (update_sso_config_route N R E now token org q enforced r s))"
| delete: "sso_request N R E s (fst (delete_sso_config_route R E now token org r s))"
| override: "sso_request N R E s (fst (override_sso_enforcement R E now token org reason r s))"
| clear: "sso_request N R E s (fst (clear_sso_override_route R E now token org r s))"
| elsewhere: "sso_configs s' = sso_configs s \<Longrightarrow> set (oauth_accounts s) \<subseteq> set (oauth_accounts s') \<Longrightarrow> sso_request N R E s s'"

text \<open>The address of the issuer is public, and its document is where the configuration comes from.\<close>

definition discovered :: "remote \<Rightarrow> env \<Rightarrow> org_sso_config \<Rightarrow> bool" where
  "discovered N E c \<longleftrightarrow> (\<exists>doc. verify_oidc_discovery N E (sso_issuer c) = Inr doc
     \<and> endpoints_of doc = Inr \<lparr>ep_authorization = sso_authorization_endpoint c, ep_token = sso_token_endpoint c,
                               ep_userinfo = sso_userinfo_endpoint c, ep_jwks = sso_jwks_uri c\<rparr>)"

definition sso_sound :: "remote \<Rightarrow> env \<Rightarrow> db \<Rightarrow> org_sso_config \<Rightarrow> bool" where
  "sso_sound N E s c \<longleftrightarrow> discovered N E c \<and> (sso_enforced c \<longrightarrow> has_completed_sso_login s (sso_id c))"

definition sso_configs_sound :: "remote \<Rightarrow> env \<Rightarrow> db \<Rightarrow> bool" where
  "sso_configs_sound N E s \<longleftrightarrow> (\<forall>c \<in> set (sso_configs s). sso_sound N E s c)"

lemma sso_sound_mono: "sso_sound N E s c \<Longrightarrow> set (oauth_accounts s) \<subseteq> set (oauth_accounts s') \<Longrightarrow> sso_sound N E s' c"
  by (auto simp: sso_sound_def has_completed_sso_login_def query_exists_def)

lemma sso_sound_log [simp]: "sso_configs_sound N E (log_event E' now a s) = sso_configs_sound N E s"
  by (simp add: sso_configs_sound_def sso_sound_def has_completed_sso_login_def log_event_def)

lemma sso_sound_set: "sso_configs_sound N E s \<Longrightarrow> sso_sound N E s c' \<Longrightarrow> sso_configs_sound N E (set_sso i (\<lambda>_. c') s)"
  by (auto simp: sso_configs_sound_def sso_sound_def has_completed_sso_login_def set_sso_def update_where_def)

lemma get_sso_config_Some: "get_sso_config s org = Some c \<Longrightarrow> c \<in> set (sso_configs s)"
  by (auto simp: get_sso_config_def dest!: query_first_Some)

lemma configure_sound:
  assumes "configure_sso N E now org issuer client_id secret domains actor s = Inr (s', c)" and ok: "sso_configs_sound N E s"
  shows "sso_configs_sound N E s'"
proof -
  obtain doc sealed ep where d: "verify_oidc_discovery N E issuer = Inr doc" "endpoints_of doc = Inr ep"
    and c: "c = new_sso_config (next_id sso_id (sso_configs s)) now org issuer client_id sealed domains actor ep"
    and s': "\<exists>a. s' = log_event E now a (s\<lparr>sso_configs := sso_configs s @ [c]\<rparr>)"
    using assms(1) by (simp only: configure_sso_def unless_Inr proceed_Inr Let_def Inr_inject prod.inject) blast
  have "discovered N E c" using d by (simp add: discovered_def c new_sso_config_def)
  moreover have "\<not> sso_enforced c" by (simp add: c new_sso_config_def)
  ultimately have "sso_sound N E s c" by (simp add: sso_sound_def)
  then have "sso_configs_sound N E (s\<lparr>sso_configs := sso_configs s @ [c]\<rparr>)"
    using ok by (simp add: sso_configs_sound_def sso_sound_def has_completed_sso_login_def)
  then show ?thesis using s' by auto
qed

lemma rediscover_sound:
  assumes "rediscover N E now c issuer = Inr c1" "discovered N E c"
  shows "discovered N E c1" "sso_enforced c1 = sso_enforced c" "sso_id c1 = sso_id c"
  using assms by (auto simp: rediscover_def discovered_def proceed_Inr split: if_splits)

lemma update_Inr:
  assumes "update_sso_config N E now c actor q s = Inr (s', c')"
  obtains c1 c2 a where "rediscover N E now c (sc_issuer q) = Inr c1"
    "reseal E (sc_client_secret q) (case sc_client_id q of None \<Rightarrow> c1 | Some i \<Rightarrow> c1\<lparr>sso_client_id := i\<rparr>) = Inr c2"
    "c' = (case sc_allowed_domains q of None \<Rightarrow> c2 | Some ds \<Rightarrow> c2\<lparr>sso_allowed_domains := ds\<rparr>)
        \<lparr>sso_updated_at := Some now, sso_updated_by_user_id := Some actor\<rparr>"
    "s' = log_event E now a (set_sso (sso_id c) (\<lambda>_. c') s)"
  using assms by (simp only: update_sso_config_def proceed_Inr Let_def Inr_inject prod.inject) blast

lemma update_fields:
  assumes "update_sso_config N E now c actor q s = Inr (s', c')"
  obtains c1 a where "rediscover N E now c (sc_issuer q) = Inr c1" "s' = log_event E now a (set_sso (sso_id c) (\<lambda>_. c') s)"
    "sso_issuer c' = sso_issuer c1" "sso_enforced c' = sso_enforced c1" "sso_id c' = sso_id c1" "sso_override_at c' = sso_override_at c1"
    "sso_authorization_endpoint c' = sso_authorization_endpoint c1" "sso_token_endpoint c' = sso_token_endpoint c1"
    "sso_userinfo_endpoint c' = sso_userinfo_endpoint c1" "sso_jwks_uri c' = sso_jwks_uri c1"
proof -
  obtain c1 c2 a where u: "rediscover N E now c (sc_issuer q) = Inr c1"
    "reseal E (sc_client_secret q) (case sc_client_id q of None \<Rightarrow> c1 | Some i \<Rightarrow> c1\<lparr>sso_client_id := i\<rparr>) = Inr c2"
    "c' = (case sc_allowed_domains q of None \<Rightarrow> c2 | Some ds \<Rightarrow> c2\<lparr>sso_allowed_domains := ds\<rparr>)
        \<lparr>sso_updated_at := Some now, sso_updated_by_user_id := Some actor\<rparr>"
    "s' = log_event E now a (set_sso (sso_id c) (\<lambda>_. c') s)" by (rule update_Inr [OF assms])
  show ?thesis using u(2) by (intro that [OF u(1,4)]) (auto simp: u(3) reseal_def proceed_Inr split: option.splits)
qed

lemma update_sound:
  assumes u: "update_sso_config N E now c actor q s = Inr (s', c')" and c: "c \<in> set (sso_configs s)" and ok: "sso_configs_sound N E s"
  shows "sso_configs_sound N E s'" "sso_sound N E s' c'"
proof -
  have snd: "sso_sound N E s c" using ok c by (simp add: sso_configs_sound_def)
  obtain c1 a where r: "rediscover N E now c (sc_issuer q) = Inr c1" and c': "s' = log_event E now a (set_sso (sso_id c) (\<lambda>_. c') s)"
    and same: "sso_issuer c' = sso_issuer c1" "sso_enforced c' = sso_enforced c1" "sso_id c' = sso_id c1"
    "sso_authorization_endpoint c' = sso_authorization_endpoint c1" "sso_token_endpoint c' = sso_token_endpoint c1"
    "sso_userinfo_endpoint c' = sso_userinfo_endpoint c1" "sso_jwks_uri c' = sso_jwks_uri c1" by (rule update_fields [OF u])
  then have s1: "sso_sound N E s c'"
    using rediscover_sound [OF r] snd by (simp add: sso_sound_def discovered_def)
  then show "sso_configs_sound N E s'" using c' sso_sound_set [OF ok s1] by auto
  show "sso_sound N E s' c'" using c' s1 by (auto simp: sso_sound_def has_completed_sso_login_def set_sso_def log_event_def)
qed

lemma enforce_sound:
  assumes e: "set_enforced E now c b actor s = Inr (s', c')" and c: "sso_sound N E' s c" and ok: "sso_configs_sound N E' s"
  shows "sso_configs_sound N E' s'"
proof -
  have s1: "sso_sound N E' s c'" and s': "s' = set_sso (sso_id c) (\<lambda>_. c') s \<or> (\<exists>a. s' = log_event E now a (set_sso (sso_id c) (\<lambda>_. c') s))"
    using e c by (auto simp: set_enforced_def Let_def sso_sound_def discovered_def split: if_splits)
  then show ?thesis using sso_sound_set [OF ok s1, of "sso_id c"] by auto
qed

lemma override_sound:
  assumes c: "sso_sound N E' s c" and ok: "sso_configs_sound N E' s"
  shows "sso_configs_sound N E' (fst (set_sso_override E now c reason actor s))" "sso_configs_sound N E' (fst (clear_sso_override E now c actor' s))"
proof -
  have "sso_sound N E' s (c\<lparr>sso_override_at := x, sso_override_reason := y, sso_override_by_user_id := z\<rparr>)" for x y z
    using c by (simp add: sso_sound_def discovered_def)
  then show "sso_configs_sound N E' (fst (set_sso_override E now c reason actor s))" "sso_configs_sound N E' (fst (clear_sso_override E now c actor' s))"
    using sso_sound_set [OF ok] by (simp_all add: set_sso_override_def clear_sso_override_def Let_def)
qed

lemma sso_request_sound:
  assumes "sso_request N R E s s'" "sso_configs_sound N E s"
  shows "sso_configs_sound N E s'"
  using assms
proof cases
  case (create now token org issuer client_id secret domains r)
  show ?thesis unfolding create(1) create_sso_config_route_def
    by (rule ends_fst, intro handler_ends assms(2)) (auto simp: ends_def assms(2) split: sum.split dest: configure_sound)
next
  case (update now token org q enforced r)
  have ok: "sso_configs_sound N E s" by (rule assms(2))
  have c: "sso_config_or_404 s org = Inr c \<Longrightarrow> c \<in> set (sso_configs s)" for c
    by (auto simp: sso_config_or_404_def dest: get_sso_config_Some)
  show ?thesis unfolding update(1) update_sso_config_route_def
    by (rule ends_fst, intro handler_ends ok)
       (auto simp: ends_def ok split: sum.split prod.split dest: update_sound [OF _ c ok] enforce_sound)
next
  case (delete now token org r)
  show ?thesis unfolding delete(1) delete_sso_config_route_def
    by (rule ends_fst, intro handler_ends assms(2))
       (use assms(2) in \<open>auto simp: ends_def delete_sso_config_def sso_configs_sound_def sso_sound_def has_completed_sso_login_def split: sum.split\<close>)
next
  case (override now token org reason r)
  show ?thesis unfolding override(1) override_sso_enforcement_def
    by (rule ends_fst, intro handler_ends assms(2))
       (use assms(2) override_sound(1) in \<open>auto simp: ends_def sso_config_or_404_def sso_configs_sound_def split_beta dest!: get_sso_config_Some\<close>)
next
  case (clear now token org r)
  show ?thesis unfolding clear(1) clear_sso_override_route_def
    by (rule ends_fst, intro handler_ends assms(2))
       (use assms(2) override_sound(2) in \<open>auto simp: ends_def sso_config_or_404_def sso_configs_sound_def split_beta dest!: get_sso_config_Some\<close>)
next
  case elsewhere
  then show ?thesis using assms(2) by (auto simp: sso_configs_sound_def intro: sso_sound_mono)
qed

interpretation sso: transition_invariant "sso_request N R E" "sso_configs_sound N E"
  by unfold_locales (rule sso_request_sound)

text \<open>
  Property. Sign-on through an organization's provider was found and proven. In every state that is
  reached from an empty database, a configuration has an issuer over HTTPS, where that is demanded,
  whose host resolves to public addresses only and whose discovery document, under the same
  issuer, names the endpoints that are stored; and it is enforced only if somebody has an
  identity linked through it.
\<close>

theorem sso_configs_proven:
  assumes "(sso_request N R E)\<^sup>*\<^sup>* empty_db s" and c: "c \<in> set (sso_configs s)"
  shows "(sso_enforced c \<longrightarrow> (\<exists>a \<in> set (oauth_accounts s). oa_organization_sso_config_id a = Some (sso_id c)))
    \<and> (\<exists>u host addrs m doc. urlsplit E (sso_issuer c) = Some u \<and> url_hostname u = Some host
         \<and> url_scheme u \<in> {''http'', ''https''} \<and> (REQUIRE_HTTPS_FOR_SSO_ISSUER (cfg E) \<longrightarrow> url_scheme u = ''https'')
         \<and> getaddrinfo E host = Some addrs \<and> (\<forall>a \<in> set addrs. ip_is_global E a = Some True)
         \<and> http_get N (discovery_url (sso_issuer c)) None = Answered 200 m (Some (JObj doc)) \<and> get_claim doc ''issuer'' = JStr (sso_issuer c)
         \<and> get_claim doc ''authorization_endpoint'' = jstr_opt (sso_authorization_endpoint c)
         \<and> get_claim doc ''token_endpoint'' = jstr_opt (sso_token_endpoint c) \<and> get_claim doc ''jwks_uri'' = jstr_opt (sso_jwks_uri c))"
proof -
  have "sso_configs_sound N E s" by (rule sso.reachable [OF assms(1)]) (simp add: sso_configs_sound_def empty_db_def)
  then have snd: "sso_sound N E s c" using c by (simp add: sso_configs_sound_def)
  then obtain doc where d: "verify_oidc_discovery N E (sso_issuer c) = Inr doc"
    and ep: "endpoints_of doc = Inr \<lparr>ep_authorization = sso_authorization_endpoint c, ep_token = sso_token_endpoint c,
        ep_userinfo = sso_userinfo_endpoint c, ep_jwks = sso_jwks_uri c\<rparr>" by (auto simp: sso_sound_def discovered_def)
  obtain host where h: "validate_issuer_url E (sso_issuer c) = Inr host" "assert_not_ssrf_target E host = None"
    and g: "\<exists>m v. http_get N (discovery_url (sso_issuer c)) None = Answered 200 m (Some v) \<and> check_document (sso_issuer c) v = Inr doc"
    using d by (auto simp: verify_oidc_discovery_def proceed_Inr split: option.splits http_answer.splits if_splits)
  obtain m v where v: "http_get N (discovery_url (sso_issuer c)) None = Answered 200 m (Some v)" "check_document (sso_issuer c) v = Inr doc"
    using g by blast
  have doc: "v = JObj doc" "get_claim doc ''issuer'' = JStr (sso_issuer c)"
    using v(2) by (cases v; simp add: check_document_def Let_def split: if_splits)+
  obtain u where u: "urlsplit E (sso_issuer c) = Some u" "url_hostname u = Some host" "url_scheme u \<in> {''http'', ''https''}"
    "REQUIRE_HTTPS_FOR_SSO_ISSUER (cfg E) \<longrightarrow> url_scheme u = ''https''"
    using h(1) by (auto simp: validate_issuer_url_def split: option.splits if_splits elim: truthyE)
  have all: "all_global E as = None \<Longrightarrow> \<forall>a \<in> set as. ip_is_global E a = Some True" for as
    by (induction as) (auto split: option.splits if_splits)
  obtain addrs where "getaddrinfo E host = Some addrs" "\<forall>a \<in> set addrs. ip_is_global E a = Some True"
    using h(2) all by (auto simp: assert_not_ssrf_target_def split: option.splits)
  moreover have col: "column_text j = Inr x \<Longrightarrow> j = jstr_opt x" for j x by (cases j) (auto simp: column_text_def jstr_opt_def)
  moreover have "sso_enforced c \<longrightarrow> (\<exists>a \<in> set (oauth_accounts s). oa_organization_sso_config_id a = Some (sso_id c))"
    using snd by (auto simp: sso_sound_def has_completed_sso_login_def query_exists_def)
  ultimately show ?thesis using u v(1) doc ep by (auto simp: endpoints_of_def proceed_Inr dest!: col)
qed

text \<open>A configuration somebody has signed in through cannot be deleted: the request ends in an error.\<close>

lemma used_config_undeletable:
  assumes "sso_manager R E now token org r s = Inr m" "get_sso_config s org = Some c" "has_completed_sso_login s (sso_id c)"
  shows "\<exists>k. delete_sso_config_route R E now token org r s = (s, Inl (IntegrityError k))"
  using assms by (simp add: delete_sso_config_route_def sso_config_or_404_def or_404_def delete_sso_config_def has_completed_sso_login_def)

text \<open>A new issuer inherits the enforcement and the linked identities of the old one.\<close>

lemma issuer_change_keeps_enforcement:
  assumes "update_sso_config N E now c actor q s = Inr (s', c')"
  shows "sso_enforced c' = sso_enforced c" "sso_id c' = sso_id c" "sso_override_at c' = sso_override_at c" "oauth_accounts s' = oauth_accounts s"
    "sc_issuer q = Some i \<Longrightarrow> sso_issuer c' = i"
  by (rule update_fields [OF assms]; auto simp: rediscover_def proceed_Inr set_sso_def log_event_def split: if_splits)+

subsection \<open>A concrete provider\<close>

definition acme_doc :: claims where
  "acme_doc = [(''issuer'', JStr ''https://acme''), (''authorization_endpoint'', JStr ''https://acme/a''), (''token_endpoint'', JStr ''https://acme/t''),
     (''jwks_uri'', JStr ''https://acme/k'')]"

definition acme_remote :: remote where
  "acme_remote = google_remote\<lparr>http_get := \<lambda>url bearer. Answered 200 '''' (Some (JObj acme_doc))\<rparr>"

definition sso_env :: env where
  "sso_env = guard_env\<lparr>ip_is_global := \<lambda>_. Some True\<rparr>"

lemma acme_discovery: "verify_oidc_discovery acme_remote sso_env ''https://acme'' = Inr acme_doc"
  by (simp add: verify_oidc_discovery_def validate_issuer_url_def assert_not_ssrf_target_def acme_remote_def check_document_def sso_env_def
      guard_env_def sample_env_def acme_doc_def get_claim_def REQUIRED_DISCOVERY_FIELDS_def)

lemma sso_env_manager: "sso_manager kv_redis sso_env 0 ''tok'' 7 (True, []) sso_db = Inr (acting_row sso_db (hd (memberships guard_db)))"
proof -
  let ?a = "acting_row sso_db (hd (memberships guard_db))"
  have dec: "decode_token sso_env t x = decode_token guard_env t x" for t x
    by (simp add: decode_token_def decode_token_for_audience_def sso_env_def split: option.split)
  have u: "get_current_user kv_redis sso_env 0 ''tok'' (True, []) sso_db = Inr guard_claims"
    using sso_user by (simp add: get_current_user_def dec)
  have "get_org_membership_or_platform_admin sso_db 7 guard_claims = Inr ?a"
    using guard_sub by (simp add: get_org_membership_or_platform_admin_def get_org_membership_def claim_in_or_empty_def guard_claims_def
        sso_db_def guard_db_def Let_def)
  moreover have "MANAGE_SSO \<in> set (permissions_for_membership sso_db (hd (memberships guard_db)))"
    by (simp add: permissions_for_membership_def permissions_for_roles_def roles_of_membership_def role_perms_def sso_db_def guard_db_def MANAGE_SSO_def)
  ultimately show ?thesis by (simp add: sso_manager_def require_org_permission_or_platform_admin_def u check_membership_def)
qed

theorem sso_configs_proven_witness:
  "\<exists>s c. (sso_request acme_remote kv_redis sso_env)\<^sup>*\<^sup>* empty_db s \<and> c \<in> set (sso_configs s) \<and> sso_issuer c = ''https://acme'' \<and> \<not> sso_enforced c
     \<and> get_claim acme_doc ''token_endpoint'' = jstr_opt (sso_token_endpoint c)"
proof -
  let ?s = "fst (create_sso_config_route acme_remote kv_redis sso_env 0 ''tok'' 7 ''https://acme'' ''id'' ''secret'' [''acme.org''] (True, []) sso_db)"
  have e: "sso_configs sso_db = []" "oauth_accounts sso_db = []" by (simp_all add: sso_db_def guard_db_def empty_db_def)
  obtain ep where ep: "endpoints_of acme_doc = Inr ep" by (simp add: endpoints_of_def acme_doc_def column_text_def get_claim_def)
  have cr: "crypto_seal sso_env x = Inr x" for x by (simp add: crypto_seal_def sso_env_def guard_env_def sample_env_def)
  let ?i = "am_user_id (acting_row sso_db (hd (memberships guard_db)))"
  obtain s' c where "configure_sso acme_remote sso_env 0 7 ''https://acme'' ''id'' ''secret'' [''acme.org''] ?i sso_db = Inr (s', c)"
      and c: "c \<in> set (sso_configs s')" "sso_issuer c = ''https://acme''" "\<not> sso_enforced c"
    using e by (auto simp: configure_sso_def get_sso_config_def acme_discovery cr ep new_sso_config_def Let_def log_event_def)
  then have s: "?s = s'" by (simp add: create_sso_config_route_def sso_env_manager)
  have "sso_request acme_remote kv_redis sso_env empty_db sso_db" using e by (intro sso_request.elsewhere) (simp_all add: empty_db_def)
  then have r: "(sso_request acme_remote kv_redis sso_env)\<^sup>*\<^sup>* empty_db ?s"
    by (rule converse_rtranclp_into_rtranclp [OF _ r_into_rtranclp]) (rule sso_request.create)
  have "get_claim acme_doc ''token_endpoint'' = jstr_opt (sso_token_endpoint c)"
    using sso_configs_proven [OF r [unfolded s] c(1)] c(2) by (auto simp: acme_remote_def)
  then show ?thesis using r c unfolding s by blast
qed

end
