(* ===== verification/Sso_Routes.thy ===== *)
theory Sso_Routes
  imports Org_Sso
begin

text \<open>
  Sign-in through an organization's own provider: \<open>app/services/org_oidc_service.py\<close>,
  \<open>app/api/routes_sso.py\<close> and the state token of \<open>app/core/jwt.py\<close>. The cache of signing keys, a
  module variable, is a state of its own, from the configuration's number to the time of the
  fetch and the key set.

  The theory shows what a sign-in through an organization's provider had to pass: a state signed
  for this organization and its present configuration, an identity token vouched for by the
  provider, an account linked under this very configuration or created now; an account that only
  shares the address is never signed in, it is offered a link that asks for its password. It also
  records that the status of a linked account is not looked at.
\<close>

subsection \<open>The state of a sign-in\<close>

definition sso_state_claims :: "env \<Rightarrow> time \<Rightarrow> string \<Rightarrow> int \<Rightarrow> int \<Rightarrow> string \<Rightarrow> string \<Rightarrow> claims" where
  "sso_state_claims E now jti org config_id verifier nonce =
     [(''type'', JStr ''sso_state''), (''organization_id'', JInt org), (''organization_sso_config_id'', JInt config_id),
      (''code_verifier'', JStr verifier), (''nonce'', JStr nonce), (''created_at'', JStr (isoformat_auto E now)),
      (''exp'', jdate (now + minutes 10)), (''jti'', JStr jti)]"

definition create_sso_state_token :: "env \<Rightarrow> time \<Rightarrow> string \<Rightarrow> int \<Rightarrow> int \<Rightarrow> string \<Rightarrow> string \<Rightarrow> string" where
  "create_sso_state_token E now jti org config_id verifier nonce = sign E (sso_state_claims E now jti org config_id verifier nonce)"

subsection \<open>\<open>org_oidc_service.py\<close>\<close>

definition sso_redirect_uri :: "env \<Rightarrow> string \<Rightarrow> string" where
  "sso_redirect_uri E slug = OAUTH_REDIRECT_BASE_URL (cfg E) @ ''/auth/sso/'' @ slug @ ''/callback''"

text \<open>A missing endpoint is formatted as \<open>None\<close>.\<close>

definition build_sso_authorize_url :: "env \<Rightarrow> org_sso_config \<Rightarrow> string \<Rightarrow> string \<Rightarrow> string \<Rightarrow> string \<Rightarrow> string" where
  "build_sso_authorize_url E c slug state challenge nonce =
     (case sso_authorization_endpoint c of None \<Rightarrow> ''None'' | Some u \<Rightarrow> u) @ ''?'' @ urlencode
       [(''client_id'', sso_client_id c), (''redirect_uri'', sso_redirect_uri E slug), (''response_type'', ''code''),
        (''scope'', ''openid email profile''), (''state'', state), (''code_challenge'', challenge), (''code_challenge_method'', ''S256''),
        (''nonce'', nonce)]"

type_synonym jwks_cache = "int \<rightharpoonup> time \<times> json"

definition JWKS_CACHE_TTL :: time where
  "JWKS_CACHE_TTL = seconds 600"

text \<open>The request for the keys, whose answer is kept.\<close>

definition fetch_fresh :: "remote \<Rightarrow> time \<Rightarrow> int \<Rightarrow> string \<Rightarrow> jwks_cache \<Rightarrow> jwks_cache \<times> (exn + json)" where
  "fetch_fresh N now i uri k =
     (case http_get N uri None of
        Unreachable m \<Rightarrow> (k, Inl (SSOLoginError (''could not fetch signing keys from the identity provider: '' @ m)))
      | Answered status _ body \<Rightarrow>
          if status \<noteq> 200 then (k, Inl (SSOLoginError (''identity provider's key endpoint returned HTTP '' @ show_int status)))
          else (case body of
                  None \<Rightarrow> (k, Inl (SSOLoginError ''identity provider's key endpoint did not return valid JSON''))
                | Some v \<Rightarrow> (k(i \<mapsto> (now, v)), Inr v)))"

definition fetch_jwks :: "remote \<Rightarrow> time \<Rightarrow> org_sso_config \<Rightarrow> jwks_cache \<Rightarrow> jwks_cache \<times> (exn + json)" where
  "fetch_jwks N now c k =
     (if \<not> truthy (sso_jwks_uri c)
      then (k, Inl (SSOLoginError ''this organization's SSO configuration is incomplete (no signing key endpoint)''))
      else case k (sso_id c) of
        Some (t, v) \<Rightarrow> if now - t < JWKS_CACHE_TTL then (k, Inr v) else fetch_fresh N now (sso_id c) (the (sso_jwks_uri c)) k
      | None \<Rightarrow> fetch_fresh N now (sso_id c) (the (sso_jwks_uri c)) k)"

text \<open>The first key of the identifier; what is no object has no \<open>get\<close>.\<close>

fun key_with_id :: "json \<Rightarrow> json list \<Rightarrow> exn + json" where
  "key_with_id kid [] = Inl (SSOLoginError ''id_token's key id does not match any key published by the identity provider'')"
| "key_with_id kid (v # vs) =
     (case v of JObj kvs \<Rightarrow> if get_claim kvs ''kid'' = kid then Inr v else key_with_id kid vs | _ \<Rightarrow> Inl AttributeError)"

definition find_signing_key :: "json \<Rightarrow> json \<Rightarrow> exn + json" where
  "find_signing_key jwks kid =
     (case jwks of
        JObj kvs \<Rightarrow>
          (case (case map_of kvs ''keys'' of None \<Rightarrow> JList [] | Some v \<Rightarrow> v) of
             JList keys \<Rightarrow>
               if kid \<noteq> JNull then key_with_id kid keys
               else (case keys of
                       [key] \<Rightarrow> Inr key
                     | _ \<Rightarrow> Inl (SSOLoginError ''could not determine which signing key to use for this id_token''))
           | _ \<Rightarrow> Inl TypeError)
      | _ \<Rightarrow> Inl AttributeError)"

definition ALLOWED_ID_TOKEN_ALGORITHMS :: "string list" where
  "ALLOWED_ID_TOKEN_ALGORITHMS = [''RS256'', ''ES256'']"

text \<open>\<open>signing_key.get("alg") or header.get("alg")\<close>\<close>

definition signing_algorithm :: "json \<Rightarrow> claims \<Rightarrow> exn + string" where
  "signing_algorithm key header =
     proceed (json_get key ''alg'') (\<lambda>own.
     let alg = (if jtruthy own then own else get_claim header ''alg'')
     in case json_str alg of
          Some x \<Rightarrow> if x \<in> set ALLOWED_ID_TOKEN_ALGORITHMS then Inr x
                    else Inl (SSOLoginError (''unsupported or missing id_token signing algorithm: '' @ py_repr alg))
        | None \<Rightarrow> Inl (SSOLoginError (''unsupported or missing id_token signing algorithm: '' @ py_repr alg)))"

text \<open>The checks of an id_token once the key set is at hand.\<close>

definition checked_claims :: "remote \<Rightarrow> time \<Rightarrow> org_sso_config \<Rightarrow> string \<Rightarrow> claims \<Rightarrow> json \<Rightarrow> json \<Rightarrow> exn + claims" where
  "checked_claims N now c id_token header nonce jwks =
     proceed (find_signing_key jwks (get_claim header ''kid'')) (\<lambda>key.
     proceed (signing_algorithm key header) (\<lambda>alg.
     case verify_id_token N now id_token key alg (sso_client_id c) (sso_issuer c) of
       None \<Rightarrow> Inl (SSOLoginError ''id_token failed validation'')
     | Some claims \<Rightarrow>
         if get_claim claims ''nonce'' \<noteq> nonce then Inl (SSOLoginError ''id_token nonce does not match the original request'')
         else if \<not> jtruthy (get_claim claims ''sub'')
         then Inl (SSOLoginError ''identity provider's id_token did not include a subject (sub) claim'')
         else if \<not> jtruthy (get_claim claims ''email'')
         then Inl (SSOLoginError ''identity provider's id_token did not include an email claim'')
         else Inr claims))"

definition token_request :: "env \<Rightarrow> org_sso_config \<Rightarrow> string \<Rightarrow> string \<Rightarrow> string \<Rightarrow> string \<Rightarrow> (string \<times> string) list" where
  "token_request E c slug code secret verifier =
     [(''grant_type'', ''authorization_code''), (''code'', code), (''redirect_uri'', sso_redirect_uri E slug),
      (''client_id'', sso_client_id c), (''client_secret'', secret), (''code_verifier'', verifier)]"

text \<open>The \<open>id_token\<close> of the answer to the code, with its unverified header.\<close>

definition received_id_token :: "remote \<Rightarrow> env \<Rightarrow> org_sso_config \<Rightarrow> string \<Rightarrow> string \<Rightarrow> string \<Rightarrow> exn + string \<times> claims" where
  "received_id_token N E c slug code verifier =
     (case crypto_decrypt E (sso_client_secret_encrypted c) of
        None \<Rightarrow> Inl CryptoError
      | Some secret \<Rightarrow>
          (case sso_token_endpoint c of
             None \<Rightarrow> Inl TypeError
           | Some endpoint \<Rightarrow>
               (case http_post N endpoint (token_request E c slug code secret verifier) of
                  Unreachable m \<Rightarrow> Inl (SSOLoginError (''could not reach the identity provider's token endpoint: '' @ m))
                | Answered status _ body \<Rightarrow>
                    if status \<noteq> 200
                    then Inl (SSOLoginError (''identity provider rejected the authorization code (HTTP '' @ show_int status @ '')''))
                    else (case body of
                            None \<Rightarrow> Inl (SSOLoginError ''identity provider's token endpoint did not return valid JSON'')
                          | Some v \<Rightarrow>
                              proceed (json_get v ''id_token'') (\<lambda>t.
                              if \<not> jtruthy t then Inl (SSOLoginError ''identity provider did not return an id_token'')
                              else case json_str t of
                                None \<Rightarrow> Inl AttributeError
                              | Some id_token \<Rightarrow>
                                  (case unverified_header N id_token of
                                     None \<Rightarrow> Inl (SSOLoginError ''could not read id_token header'')
                                   | Some header \<Rightarrow> Inr (id_token, header)))))))"

definition exchange_code_for_id_token_claims ::
  "remote \<Rightarrow> env \<Rightarrow> time \<Rightarrow> org_sso_config \<Rightarrow> string \<Rightarrow> string \<Rightarrow> string \<Rightarrow> json \<Rightarrow> jwks_cache \<Rightarrow> jwks_cache \<times> (exn + claims)" where
  "exchange_code_for_id_token_claims N E now c slug code verifier nonce k =
     (case received_id_token N E c slug code verifier of
        Inl e \<Rightarrow> (k, Inl e)
      | Inr (id_token, header) \<Rightarrow>
          (case fetch_jwks N now c k of
             (k1, Inl e) \<Rightarrow> (k1, Inl e)
           | (k1, Inr jwks) \<Rightarrow> (k1, checked_claims N now c id_token header nonce jwks)))"

subsection \<open>\<open>routes_sso.py\<close>\<close>

text \<open>The organization's slug and whether sign-on is enforced, if a provider claims the address.\<close>

definition sso_discover :: "db \<Rightarrow> string \<Rightarrow> exn + (string \<times> bool) option" where
  "sso_discover s email =
     (case find_org_for_email s email of
        None \<Rightarrow> Inr None
      | Some c \<Rightarrow>
          (case find_org s (sso_organization_id c) of None \<Rightarrow> Inl AttributeError | Some o' \<Rightarrow> Inr (Some (o_slug o', sso_enforced c))))"

definition sso_login :: "env \<Rightarrow> time \<Rightarrow> string \<Rightarrow> string \<Rightarrow> string \<Rightarrow> string \<Rightarrow> db \<Rightarrow> exn + string" where
  "sso_login E now jti verifier nonce slug s =
     (case get_organization_by_slug s slug of
        None \<Rightarrow> Inl (HTTPException 404 ''Unknown organization'')
      | Some o' \<Rightarrow>
          (case get_sso_config s (o_id o') of
             None \<Rightarrow> Inl (HTTPException 404 ''SSO is not configured for this organization'')
           | Some c \<Rightarrow>
               if sso_status c \<noteq> ''active'' then Inl (HTTPException 404 ''SSO is not configured for this organization'')
               else Inr (build_sso_authorize_url E c slug (create_sso_state_token E now jti (o_id o') (sso_id c) verifier nonce)
                      (s256_challenge E verifier) nonce)))"

definition verify_sso_state :: "env \<Rightarrow> time \<Rightarrow> string \<Rightarrow> string \<Rightarrow> db \<Rightarrow> exn + organization \<times> org_sso_config \<times> claims" where
  "verify_sso_state E now slug state s =
     (case decode_token E now state of
        Inl _ \<Rightarrow> Inl (HTTPException 400 ''Invalid or expired SSO state'')
      | Inr payload \<Rightarrow>
          if get_claim payload ''type'' \<noteq> JStr ''sso_state'' then Inl (HTTPException 400 ''Invalid SSO state'')
          else (case get_organization_by_slug s slug of
                  None \<Rightarrow> Inl (HTTPException 400 ''SSO state does not match this organization'')
                | Some o' \<Rightarrow>
                    if get_claim payload ''organization_id'' \<noteq> JInt (o_id o')
                    then Inl (HTTPException 400 ''SSO state does not match this organization'')
                    else (case get_sso_config s (o_id o') of
                            None \<Rightarrow> Inl (HTTPException 400 ''This organization's SSO configuration is no longer valid'')
                          | Some c \<Rightarrow>
                              if JInt (sso_id c) \<noteq> get_claim payload ''organization_sso_config_id'' \<or> sso_status c \<noteq> ''active''
                              then Inl (HTTPException 400 ''This organization's SSO configuration is no longer valid'')
                              else Inr (o', c, payload))))"

text \<open>Tokens or a challenge for an account that is a member by now.\<close>

definition sso_sign_in :: "env \<Rightarrow> time \<Rightarrow> fresh_ids \<Rightarrow> organization \<Rightarrow> user \<Rightarrow> db \<Rightarrow> db \<times> (exn + flow_answer)" where
  "sso_sign_in E now f o' u s =
     (case issue_tokens_or_challenge E now f u ''sso'' (Some (o_id o')) (fst (jit_provision_membership E now (o_id o') (u_id u) s)) of
        (s1, Inl e) \<Rightarrow> (s1, Inl e)
      | (s1, Inr result) \<Rightarrow> (s1, Inr (flow_answer_of result)))"

text \<open>What follows the exchange of the code.\<close>

definition sso_account :: "env \<Rightarrow> time \<Rightarrow> fresh_ids \<Rightarrow> organization \<Rightarrow> org_sso_config \<Rightarrow> claims \<Rightarrow> db \<Rightarrow> db \<times> (exn + flow_answer)" where
  "sso_account E now f o' c claims s =
     or_raise s (claim_text claims ''sub'') (\<lambda>sub.
     case find_linked_user s ''oidc'' sub (Some (sso_id c)) None of
       Some u \<Rightarrow> sso_sign_in E now f o' u s
     | None \<Rightarrow>
         or_raise s (case json_str (get_claim claims ''email'') of None \<Rightarrow> Inl AttributeError | Some x \<Rightarrow> Inr x) (\<lambda>email.
         case find_user_by_address s email of
           Some u \<Rightarrow>
             or_raise s (issue_link_confirmation E now (f_link f) u ''oidc'' sub email (Some (sso_id c)) None (Some (o_id o'))) (\<lambda>token.
             (s, Inr (Link_required token ''oidc'' email)))
         | None \<Rightarrow>
             or_raise s (create_user_with_oauth now ''oidc'' sub email (Some (sso_id c)) None s) (\<lambda>(s1, u).
             sso_sign_in E now f o' u s1)))"

text \<open>\<open>except SSOLoginError as e: raise HTTPException(400, str(e))\<close>\<close>

definition sso_login_error :: "exn \<Rightarrow> exn" where
  "sso_login_error e = (case e of SSOLoginError text \<Rightarrow> HTTPException 400 text | _ \<Rightarrow> e)"

definition complete_sso_flow ::
  "remote \<Rightarrow> env \<Rightarrow> time \<Rightarrow> fresh_ids \<Rightarrow> string \<Rightarrow> string \<Rightarrow> string \<Rightarrow> jwks_cache \<Rightarrow> db \<Rightarrow> jwks_cache \<times> db \<times> (exn + flow_answer)" where
  "complete_sso_flow N E now f slug code state k s =
     (case verify_sso_state E now slug state s of
        Inl e \<Rightarrow> (k, s, Inl e)
      | Inr (o', c, payload) \<Rightarrow>
          (case (claim_text payload ''code_verifier'', json_item (JObj payload) ''nonce'') of
             (Inl e, _) \<Rightarrow> (k, s, Inl e)
           | (Inr _, Inl e) \<Rightarrow> (k, s, Inl e)
           | (Inr verifier, Inr nonce) \<Rightarrow>
               (case exchange_code_for_id_token_claims N E now c slug code verifier nonce k of
                  (k1, Inl e) \<Rightarrow> (k1, s, Inl (sso_login_error e))
                | (k1, Inr claims) \<Rightarrow> (k1, sso_account E now f o' c claims s))))"

text \<open>The callback a browser follows: every \<open>HTTPException\<close> becomes a redirect with its detail.\<close>

definition sso_callback_redirect ::
  "remote \<Rightarrow> env \<Rightarrow> time \<Rightarrow> fresh_ids \<Rightarrow> string \<Rightarrow> string \<Rightarrow> string \<Rightarrow> jwks_cache \<Rightarrow> db \<Rightarrow> jwks_cache \<times> db \<times> (exn + string)" where
  "sso_callback_redirect N E now f slug code state k s =
     (case complete_sso_flow N E now f slug code state k s of
        (k1, s1, Inr a) \<Rightarrow> (k1, s1, Inr (oauth_complete E (answer_params a)))
      | (k1, s1, Inl (HTTPException _ detail)) \<Rightarrow> (k1, s1, Inr (oauth_complete E [(''status'', JStr ''error''), (''error'', JStr detail)]))
      | (k1, s1, Inl (HTTPDetail _ detail)) \<Rightarrow> (k1, s1, Inr (oauth_complete E [(''status'', JStr ''error''), (''error'', detail)]))
      | (k1, s1, Inl e) \<Rightarrow> (k1, s1, Inl e))"

subsection \<open>Properties\<close>

lemma jit_effect:
  "oauth_accounts (fst (jit_provision_membership E now org uid s)) = oauth_accounts s"
  "\<exists>m \<in> set (memberships (fst (jit_provision_membership E now org uid s))). m_organization_id m = org \<and> m_user_id m = uid"
proof -
  have g: "oauth_accounts (fst (get_or_create_role n ps t)) = oauth_accounts t" for n ps t by (subst get_or_create_role_writes) simp
  show "oauth_accounts (fst (jit_provision_membership E now org uid s)) = oauth_accounts s"
    using g by (simp add: jit_provision_membership_def add_membership_def split_beta Let_def log_event_def split: option.split)
  show "\<exists>m \<in> set (memberships (fst (jit_provision_membership E now org uid s))). m_organization_id m = org \<and> m_user_id m = uid"
  proof (cases "get_membership s org uid")
    case None
    then show ?thesis by (auto simp: jit_provision_membership_def add_membership_def split_beta Let_def log_event_def)
  next
    case (Some m)
    then show ?thesis by (auto simp: jit_provision_membership_def get_membership_def dest: query_first_Some)
  qed
qed

lemma sso_sign_in_Inr:
  assumes "sso_sign_in E now f o' u s = (s', Inr a)"
  shows "oauth_accounts s' = oauth_accounts s" "\<exists>m \<in> set (memberships s'). m_organization_id m = o_id o' \<and> m_user_id m = u_id u"
    "a = Signed_in x t \<Longrightarrow> \<not> u_mfa_enabled u \<and> \<not> org_requires_mfa s' (map_option m_organization_id (resolve_primary_membership s' (u_id u)))"
proof -
  let ?j = "fst (jit_provision_membership E now (o_id o') (u_id u) s)"
  obtain r where i: "issue_tokens_or_challenge E now f u ''sso'' (Some (o_id o')) ?j = (s', Inr r)" "a = flow_answer_of r"
    using assms by (auto simp: sso_sign_in_def split: prod.splits sum.splits)
  have v: "identity_view s' = identity_view ?j" using issue_view [of "''sso''" E now f u "Some (o_id o')" ?j] i(1) by simp
  show "oauth_accounts s' = oauth_accounts s" "\<exists>m \<in> set (memberships s'). m_organization_id m = o_id o' \<and> m_user_id m = u_id u"
    using v jit_effect [of E now "o_id o'" "u_id u" s] by (simp_all add: identity_view_def)
  show "a = Signed_in x t \<Longrightarrow> \<not> u_mfa_enabled u \<and> \<not> org_requires_mfa s' (map_option m_organization_id (resolve_primary_membership s' (u_id u)))"
    using issued_without_factor [of E now f u "''sso''" "Some (o_id o')" ?j s' x t] i standing_demands [OF identity_view_standing [OF v]]
    by (cases r) auto
qed

lemma verified_state:
  "verify_sso_state E now slug state s = Inr (o', c, payload) \<longleftrightarrow>
     decode_token E now state = Inr payload \<and> get_claim payload ''type'' = JStr ''sso_state'' \<and> get_organization_by_slug s slug = Some o'
     \<and> get_claim payload ''organization_id'' = JInt (o_id o') \<and> get_sso_config s (o_id o') = Some c
     \<and> get_claim payload ''organization_sso_config_id'' = JInt (sso_id c) \<and> sso_status c = ''active''"
  by (cases "decode_token E now state"; cases "get_organization_by_slug s slug"; cases "get_sso_config s (o_id (the (get_organization_by_slug s slug)))")
     (auto simp: verify_sso_state_def)

text \<open>What a provider has vouched for: a token it signed for this client and this sign-in.\<close>

definition vouched :: "remote \<Rightarrow> time \<Rightarrow> org_sso_config \<Rightarrow> json \<Rightarrow> claims \<Rightarrow> bool" where
  "vouched N now c nonce claims \<longleftrightarrow>
     (\<exists>id_token key alg. alg \<in> {''RS256'', ''ES256''} \<and> verify_id_token N now id_token key alg (sso_client_id c) (sso_issuer c) = Some claims)
     \<and> get_claim claims ''nonce'' = nonce \<and> jtruthy (get_claim claims ''sub'') \<and> jtruthy (get_claim claims ''email'')"

lemma checked_claims_Inr: "checked_claims N now c t header nonce jwks = Inr claims \<Longrightarrow> vouched N now c nonce claims"
  by (auto simp: checked_claims_def vouched_def proceed_Inr signing_algorithm_def ALLOWED_ID_TOKEN_ALGORITHMS_def Let_def
      split: option.splits if_splits)

lemma exchange_vouched:
  "exchange_code_for_id_token_claims N E now c slug code verifier nonce k = (k', Inr claims) \<Longrightarrow> vouched N now c nonce claims"
  by (auto simp: exchange_code_for_id_token_claims_def split: sum.splits prod.splits dest: checked_claims_Inr)

lemma sso_flow_Inr:
  assumes "complete_sso_flow N E now f slug code state k s = (k', s', Inr a)"
  obtains o' c payload claims where "verify_sso_state E now slug state s = Inr (o', c, payload)"
    "vouched N now c (get_claim payload ''nonce'') claims" "sso_account E now f o' c claims s = (s', Inr a)"
proof -
  obtain o' c payload where st: "verify_sso_state E now slug state s = Inr (o', c, payload)"
    using assms by (auto simp: complete_sso_flow_def split: sum.splits)
  obtain verifier nonce where vn: "claim_text payload ''code_verifier'' = Inr verifier" "json_item (JObj payload) ''nonce'' = Inr nonce"
    using assms st by (auto simp: complete_sso_flow_def split: sum.splits)
  obtain k1 v where ex: "exchange_code_for_id_token_claims N E now c slug code verifier nonce k = (k1, v)" by force
  obtain claims where v: "v = Inr claims" using assms st vn ex by (cases v) (auto simp: complete_sso_flow_def)
  have "nonce = get_claim payload ''nonce''" using vn(2) by (auto simp: json_item_def get_claim_def split: option.splits)
  then show ?thesis using that [OF st] exchange_vouched [OF ex [unfolded v]] assms st vn ex v by (auto simp: complete_sso_flow_def)
qed

text \<open>
  What the callback leaves behind: of an account that has the address and is not linked, nothing;
  otherwise the identity's account, linked and a member.
\<close>

definition signed_through :: "time \<Rightarrow> organization \<Rightarrow> org_sso_config \<Rightarrow> claims \<Rightarrow> string \<Rightarrow> db \<Rightarrow> db \<Rightarrow> user \<Rightarrow> bool" where
  "signed_through now o' c claims sub s s' u \<longleftrightarrow>
     (find_linked_user s ''oidc'' sub (Some (sso_id c)) None = Some u
      \<or> (\<exists>email. find_linked_user s ''oidc'' sub (Some (sso_id c)) None = None \<and> get_claim claims ''email'' = JStr email
           \<and> find_user_by_address s email = None \<and> u = licensed_user now email s))
   \<and> (\<exists>x \<in> set (oauth_accounts s'). oa_provider x = ''oidc'' \<and> oa_provider_user_id x = sub \<and> oa_user_id x = u_id u
        \<and> oa_organization_sso_config_id x = Some (sso_id c))
   \<and> (\<exists>m \<in> set (memberships s'). m_organization_id m = o_id o' \<and> m_user_id m = u_id u)"

lemma linked_sso_row: "find_linked_user s provider puid (Some i) None = Some u \<Longrightarrow>
  \<exists>x \<in> set (oauth_accounts s). oa_provider x = provider \<and> oa_provider_user_id x = puid \<and> oa_user_id x = u_id u
     \<and> oa_organization_sso_config_id x = Some i"
  by (auto simp: find_linked_user_def find_user_def split: option.splits dest!: query_first_Some)

lemma sso_sign_in_answer: "sso_sign_in E now f o' u s = (s', Inr a) \<Longrightarrow> a \<noteq> Link_required t p e"
proof -
  assume "sso_sign_in E now f o' u s = (s', Inr a)"
  then obtain r where "a = flow_answer_of r" by (auto simp: sso_sign_in_def split: prod.splits sum.splits)
  then show "a \<noteq> Link_required t p e" by (cases r) auto
qed

lemma sso_account_Inr:
  assumes "sso_account E now f o' c claims s = (s', Inr a)"
  obtains (signed) sub u where "get_claim claims ''sub'' = JStr sub" "signed_through now o' c claims sub s s' u" "\<And>t p e. a \<noteq> Link_required t p e"
      "\<And>x t. a = Signed_in x t \<Longrightarrow> \<not> u_mfa_enabled u \<and> \<not> org_requires_mfa s' (map_option m_organization_id (resolve_primary_membership s' (u_id u)))"
    | (offered) sub link email where "get_claim claims ''sub'' = JStr sub" "a = Link_required link ''oidc'' email" "s' = s"
      "find_linked_user s ''oidc'' sub (Some (sso_id c)) None = None" "get_claim claims ''email'' = JStr email" "find_user_by_address s email \<noteq> None"
proof -
  obtain sub where sub: "claim_text claims ''sub'' = Inr sub" using assms by (auto simp: sso_account_def or_raise_Inr)
  then have sj: "get_claim claims ''sub'' = JStr sub"
    by (cases "map_of claims ''sub''") (auto simp: claim_text_def json_item_def get_claim_def proceed_Inr json_views split: option.splits)
  note acc = assms [unfolded sso_account_def sub or_raise_def sum.case]
  show ?thesis
  proof (cases "find_linked_user s ''oidc'' sub (Some (sso_id c)) None")
    case (Some u)
    then have si: "sso_sign_in E now f o' u s = (s', Inr a)" using acc by simp
    show ?thesis
    proof (rule signed [OF sj _ sso_sign_in_answer [OF si] sso_sign_in_Inr(3) [OF si]])
      show "signed_through now o' c claims sub s s' u"
        unfolding signed_through_def using Some linked_sso_row [OF Some] sso_sign_in_Inr(1,2) [OF si] by simp
    qed
  next
    case None
    then obtain email where em: "get_claim claims ''email'' = JStr email" using acc by (auto simp: json_views split: option.splits)
    show ?thesis
    proof (cases "find_user_by_address s email")
      case (Some u)
      then show ?thesis using acc None em by (auto split: sum.splits intro: offered [OF sj _ _ None em])
    next
      case none: None
      then obtain s1 u where cr: "create_user_with_oauth now ''oidc'' sub email (Some (sso_id c)) None s = Inr (s1, u)"
        "sso_sign_in E now f o' u s1 = (s', Inr a)" using acc None em by (auto split: sum.splits)
      note r = created_row [OF cr(1)]
      show ?thesis
      proof (rule signed [OF sj _ sso_sign_in_answer [OF cr(2)] sso_sign_in_Inr(3) [OF cr(2)]])
        show "signed_through now o' c claims sub s s' u"
          unfolding signed_through_def using None em none r(1,4) sso_sign_in_Inr(1,2) [OF cr(2)] by auto
      qed
    qed
  qed
qed

text \<open>
  Property. What a sign-in through an organization's own provider had to pass, and what it cannot
  do. If the callback answers with tokens, with the demand for a second factor or with the offer to
  link, the state was signed here for this organization and its present, active configuration, and
  the provider of that configuration signed, with an asymmetric algorithm and for this client, a
  token with the nonce of this sign-in. Then either the account is the one that was linked to this
  subject of this very configuration, or a new one for an address nobody had; afterwards the
  identity is linked to it and it is a member, and tokens went only to an account without an
  authenticator whose organization demands no second factor. Or the address belongs to an account
  that is not linked: then a link is offered and nothing is written.
\<close>

theorem sso_sign_in_gates:
  assumes c: "complete_sso_flow N E now f slug code state k s = (k', s', Inr a)"
  shows "\<exists>o' c payload claims sub. decode_token E now state = Inr payload \<and> get_claim payload ''type'' = JStr ''sso_state''
    \<and> get_organization_by_slug s slug = Some o' \<and> get_claim payload ''organization_id'' = JInt (o_id o')
    \<and> get_sso_config s (o_id o') = Some c \<and> sso_status c = ''active'' \<and> get_claim payload ''organization_sso_config_id'' = JInt (sso_id c)
    \<and> vouched N now c (get_claim payload ''nonce'') claims \<and> get_claim claims ''sub'' = JStr sub
    \<and> (case a of
         Link_required link provider email \<Rightarrow> s' = s \<and> find_linked_user s ''oidc'' sub (Some (sso_id c)) None = None
           \<and> get_claim claims ''email'' = JStr email \<and> find_user_by_address s email \<noteq> None
       | Signed_in x t \<Rightarrow> (\<exists>u. signed_through now o' c claims sub s s' u \<and> \<not> u_mfa_enabled u
           \<and> \<not> org_requires_mfa s' (map_option m_organization_id (resolve_primary_membership s' (u_id u))))
       | Second_factor challenge methods \<Rightarrow> (\<exists>u. signed_through now o' c claims sub s s' u))"
proof -
  obtain o' c payload claims where st: "verify_sso_state E now slug state s = Inr (o', c, payload)"
    and v: "vouched N now c (get_claim payload ''nonce'') claims" and acc: "sso_account E now f o' c claims s = (s', Inr a)"
    by (rule sso_flow_Inr [OF c])
  note vs = st [unfolded verified_state]
  from acc show ?thesis
  proof (cases rule: sso_account_Inr)
    case (signed sub u)
    then show ?thesis using vs v
      by (intro exI [of _ o'] exI [of _ c] exI [of _ payload] exI [of _ claims] exI [of _ sub]) (cases a; auto)
  next
    case (offered sub link email)
    then show ?thesis using vs v
      by (intro exI [of _ o'] exI [of _ c] exI [of _ payload] exI [of _ claims] exI [of _ sub]) simp
  qed
qed

text \<open>Here too the status of a linked account is not looked at.\<close>

lemma sso_ignores_status:
  assumes "get_claim claims ''sub'' = JStr sub" "find_linked_user s ''oidc'' sub (Some (sso_id c)) None = Some u" "\<not> u_mfa_enabled u"
    "get_membership s (o_id o') (u_id u) = Some m" "mfa_policies s = []"
  shows "\<exists>s' a t. sso_account E now f o' c claims s = (s', Inr (Signed_in a t))"
proof -
  have "claim_text claims ''sub'' = Inr sub"
    using assms(1) by (auto simp: claim_text_def json_item_def get_claim_def split: option.splits)
  moreover have "fst (jit_provision_membership E now (o_id o') (u_id u) s) = s" using assms(4) by (simp add: jit_provision_membership_def)
  moreover obtain d a t where "issue_tokens_or_challenge E now f u ''sso'' (Some (o_id o')) s = (d, Inr (Tokens a t))"
    using tokens_without_policies [OF assms(3,5), of "''sso''" E now f] by fastforce
  ultimately show ?thesis using assms(2) by (simp add: sso_account_def or_raise_def sso_sign_in_def)
qed

end
