(* ===== verification/Team_Routes.thy ===== *)
theory Team_Routes
  imports Route_Support
begin

text \<open>
  \<open>app/api/routes_teams.py\<close>: the teams of an organization. Most routes take the permission to manage
  teams; the ones on a single team also accept an administrator of that team, and leaving takes
  no more than being a member.

  The theory shows who can change a team, and that a request on one organization's path never
  reaches a team of another.
\<close>

definition MANAGE_TEAMS :: string where
  "MANAGE_TEAMS = ''manage_teams''"

record team_out =
  to_id :: int
  to_organization_id :: int
  to_name :: string
  to_member_user_ids :: "int list"
  to_description :: "string option"
  to_created_by_user_id :: "int option"

definition team_out_of :: "db \<Rightarrow> team \<Rightarrow> team_out" where
  "team_out_of s t = \<lparr>to_id = t_id t, to_organization_id = t_organization_id t, to_name = t_name t,
     to_member_user_ids = sort (map u_id (filter (\<lambda>u. \<exists>m \<in> set (team_members s). tm_team_id m = t_id t \<and> tm_user_id m = u_id u) (users s))),
     to_description = t_description t, to_created_by_user_id = t_created_by_user_id t\<rparr>"

record team_member_out =
  tmo_user_id :: int
  tmo_role :: string
  tmo_invited_by_user_id :: "int option"
  tmo_joined_at :: "time option"

definition team_member_out_of :: "team_member \<Rightarrow> team_member_out" where
  "team_member_out_of m = \<lparr>tmo_user_id = tm_user_id m, tmo_role = tm_role m, tmo_invited_by_user_id = tm_invited_by_user_id m,
     tmo_joined_at = tm_joined_at m\<rparr>"

subsection \<open>The guards\<close>

definition team_manager :: "'r redis \<Rightarrow> env \<Rightarrow> time \<Rightarrow> string \<Rightarrow> int \<Rightarrow> 'r \<Rightarrow> db \<Rightarrow> exn + acting_membership" where
  "team_manager R E now token org r s = require_org_permission_or_platform_admin R E now MANAGE_TEAMS token org r s"

definition team_admin :: "'r redis \<Rightarrow> env \<Rightarrow> time \<Rightarrow> string \<Rightarrow> int \<Rightarrow> int \<Rightarrow> 'r \<Rightarrow> db \<Rightarrow> exn + team" where
  "team_admin R E now token org team_id r s = require_team_manage_permission R E now MANAGE_TEAMS token org team_id r s"

definition any_member :: "'r redis \<Rightarrow> env \<Rightarrow> time \<Rightarrow> string \<Rightarrow> int \<Rightarrow> 'r \<Rightarrow> db \<Rightarrow> exn + acting_membership" where
  "any_member R E now token org r s =
     (case get_current_user R E now token r s of Inl e \<Rightarrow> Inl e | Inr user \<Rightarrow> get_org_membership_or_platform_admin s org user)"

subsection \<open>The routes\<close>

definition create_team_route ::
  "'r redis \<Rightarrow> env \<Rightarrow> time \<Rightarrow> string \<Rightarrow> int \<Rightarrow> string \<Rightarrow> string option \<Rightarrow> 'r \<Rightarrow> db \<Rightarrow> db \<times> (exn + team_out)" where
  "create_team_route R E now token org name desc r s =
     or_raise s (get_current_user R E now token r s) (\<lambda>user.
     or_raise s (team_manager R E now token org r s) (\<lambda>m.
     or_raise s (int_sub user) (\<lambda>uid.
     or_raise s (create_team now org name desc (find_user s uid) s) (\<lambda>(s1, t). (s1, Inr (team_out_of s1 t))))))"

definition list_teams_route :: "'r redis \<Rightarrow> env \<Rightarrow> time \<Rightarrow> string \<Rightarrow> int \<Rightarrow> 'r \<Rightarrow> db \<Rightarrow> exn + team_out list" where
  "list_teams_route R E now token org r s =
     (case any_member R E now token org r s of Inl e \<Rightarrow> Inl e | Inr m \<Rightarrow> Inr (map (team_out_of s) (list_teams s org)))"

definition get_team_detail :: "'r redis \<Rightarrow> env \<Rightarrow> time \<Rightarrow> string \<Rightarrow> int \<Rightarrow> int \<Rightarrow> 'r \<Rightarrow> db \<Rightarrow> exn + team_out" where
  "get_team_detail R E now token org team_id r s =
     (case any_member R E now token org r s of
        Inl e \<Rightarrow> Inl e
      | Inr m \<Rightarrow> map_sum id (team_out_of s) (or_404 ''Team not found'' (get_team s org team_id)))"

definition rename_team ::
  "'r redis \<Rightarrow> env \<Rightarrow> time \<Rightarrow> string \<Rightarrow> int \<Rightarrow> int \<Rightarrow> string option \<Rightarrow> string option \<Rightarrow> 'r \<Rightarrow> db \<Rightarrow> db \<times> (exn + team_out)" where
  "rename_team R E now token org team_id name desc r s =
     or_raise s (team_admin R E now token org team_id r s) (\<lambda>t.
     or_raise s (update_team t name desc s) (\<lambda>(s1, t'). (s1, Inr (team_out_of s1 t'))))"

definition get_team_members :: "'r redis \<Rightarrow> env \<Rightarrow> time \<Rightarrow> string \<Rightarrow> int \<Rightarrow> int \<Rightarrow> 'r \<Rightarrow> db \<Rightarrow> exn + team_member_out list" where
  "get_team_members R E now token org team_id r s =
     (case any_member R E now token org r s of
        Inl e \<Rightarrow> Inl e
      | Inr m \<Rightarrow> map_sum id (\<lambda>t. map team_member_out_of (list_team_members s team_id)) (or_404 ''Team not found'' (get_team s org team_id)))"

definition invite_team_member ::
  "'r redis \<Rightarrow> env \<Rightarrow> time \<Rightarrow> string \<Rightarrow> int \<Rightarrow> int \<Rightarrow> string \<Rightarrow> string \<Rightarrow> 'r \<Rightarrow> db \<Rightarrow> db \<times> (exn + team_member_out)" where
  "invite_team_member R E now token org team_id email role r s =
     or_raise s (get_current_user R E now token r s) (\<lambda>user.
     or_raise s (team_admin R E now token org team_id r s) (\<lambda>t.
     or_raise s (int_sub user) (\<lambda>uid.
     case find_user s uid of
       None \<Rightarrow> (s, Inl AttributeError)
     | Some inviter \<Rightarrow>
         (case invite_to_team now t org email inviter role s of
            Inl e \<Rightarrow> (s, Inl (as_400 e))
          | Inr (s1, None) \<Rightarrow> refuse s1 404 ''No account exists for that email yet''
          | Inr (s1, Some m) \<Rightarrow> (s1, Inr (team_member_out_of m))))))"

definition update_team_member_role ::
  "'r redis \<Rightarrow> env \<Rightarrow> time \<Rightarrow> string \<Rightarrow> int \<Rightarrow> int \<Rightarrow> int \<Rightarrow> string \<Rightarrow> 'r \<Rightarrow> db \<Rightarrow> db \<times> (exn + team_member_out)" where
  "update_team_member_role R E now token org team_id user_id role r s =
     or_raise s (team_admin R E now token org team_id r s) (\<lambda>t.
     or_raise s (or_404 ''Team member not found'' (get_team_member s team_id user_id)) (\<lambda>target.
     case set_member_role target role s of
       Inl e \<Rightarrow> (s, Inl (as_400 e))
     | Inr (s1, updated) \<Rightarrow> (s1, Inr (team_member_out_of updated))))"

definition remove_team_member ::
  "'r redis \<Rightarrow> env \<Rightarrow> time \<Rightarrow> string \<Rightarrow> int \<Rightarrow> int \<Rightarrow> int \<Rightarrow> 'r \<Rightarrow> db \<Rightarrow> db \<times> (exn + unit)" where
  "remove_team_member R E now token org team_id user_id r s =
     or_raise s (team_admin R E now token org team_id r s) (\<lambda>t.
     or_raise s (or_404 ''Team member not found'' (get_team_member s team_id user_id)) (\<lambda>target.
     case remove_member target s of Inl e \<Rightarrow> (s, Inl (as_400 e)) | Inr s1 \<Rightarrow> (s1, Inr ())))"

definition leave_team_route ::
  "'r redis \<Rightarrow> env \<Rightarrow> time \<Rightarrow> string \<Rightarrow> int \<Rightarrow> int \<Rightarrow> 'r \<Rightarrow> db \<Rightarrow> db \<times> (exn + unit)" where
  "leave_team_route R E now token org team_id r s =
     or_raise s (get_current_user R E now token r s) (\<lambda>user.
     or_raise s (any_member R E now token org r s) (\<lambda>a.
     or_raise s (or_404 ''Team not found'' (get_team s org team_id)) (\<lambda>t.
     or_raise s (int_sub user) (\<lambda>uid.
     or_raise s (or_404 ''Not a member of this team'' (get_team_member s team_id uid)) (\<lambda>m.
     case leave_team m s of Inl e \<Rightarrow> (s, Inl (as_400 e)) | Inr s1 \<Rightarrow> (s1, Inr ()))))))"

definition set_team_members_route ::
  "'r redis \<Rightarrow> env \<Rightarrow> time \<Rightarrow> string \<Rightarrow> int \<Rightarrow> int \<Rightarrow> int list \<Rightarrow> 'r \<Rightarrow> db \<Rightarrow> db \<times> (exn + team_out)" where
  "set_team_members_route R E now token org team_id user_ids r s =
     or_raise s (team_manager R E now token org r s) (\<lambda>m.
     or_raise s (or_404 ''Team not found'' (get_team s org team_id)) (\<lambda>t.
     case set_team_members now t org user_ids s of
       Inl e \<Rightarrow> (s, Inl (as_400 e))
     | Inr s1 \<Rightarrow> (s1, Inr (team_out_of s1 t))))"

definition delete_team_route ::
  "'r redis \<Rightarrow> env \<Rightarrow> time \<Rightarrow> string \<Rightarrow> int \<Rightarrow> int \<Rightarrow> 'r \<Rightarrow> db \<Rightarrow> db \<times> (exn + unit)" where
  "delete_team_route R E now token org team_id r s =
     or_raise s (team_manager R E now token org r s) (\<lambda>m.
     or_raise s (or_404 ''Team not found'' (get_team s org team_id)) (\<lambda>t. (delete_team t s, Inr ())))"

text \<open>A request to a route that writes, with the state it leaves.\<close>

inductive team_request :: "'r redis \<Rightarrow> env \<Rightarrow> time \<Rightarrow> string \<Rightarrow> int \<Rightarrow> 'r \<Rightarrow> db \<Rightarrow> db \<Rightarrow> bool" for R E now token org r s where
  create: "team_request R E now token org r s (fst (create_team_route R E now token org name desc r s))"
| rename: "team_request R E now token org r s (fst (rename_team R E now token org tid nm desc r s))"
| invite: "team_request R E now token org r s (fst (invite_team_member R E now token org tid email role r s))"
| set_role: "team_request R E now token org r s (fst (update_team_member_role R E now token org tid uid role r s))"
| remove: "team_request R E now token org r s (fst (remove_team_member R E now token org tid uid r s))"
| leave: "team_request R E now token org r s (fst (leave_team_route R E now token org tid r s))"
| replace: "team_request R E now token org r s (fst (set_team_members_route R E now token org tid ids r s))"
| delete: "team_request R E now token org r s (fst (delete_team_route R E now token org tid r s))"

subsection \<open>What the guards establish\<close>

lemma get_team_Some: "get_team s org i = Some t \<Longrightarrow> t \<in> set (teams s) \<and> t_organization_id t = org \<and> t_id t = i"
  by (auto simp: get_team_def dest!: query_first_Some)

lemma get_team_member_Some: "get_team_member s i u = Some m \<Longrightarrow> m \<in> set (team_members s) \<and> tm_team_id m = i \<and> tm_user_id m = u"
  by (auto simp: get_team_member_def dest!: query_first_Some)

text \<open>The caller acts in the organization, with the permission or as an administrator of a team of it.\<close>

definition may_manage :: "'r redis \<Rightarrow> env \<Rightarrow> time \<Rightarrow> string \<Rightarrow> int \<Rightarrow> 'r \<Rightarrow> db \<Rightarrow> bool" where
  "may_manage R E now token org r s \<longleftrightarrow>
     (\<exists>c a. get_current_user R E now token r s = Inr c \<and> get_org_membership_or_platform_admin s org c = Inr a
        \<and> MANAGE_TEAMS \<in> set (acting_permissions s a))"

definition administers :: "'r redis \<Rightarrow> env \<Rightarrow> time \<Rightarrow> string \<Rightarrow> int \<Rightarrow> int \<Rightarrow> 'r \<Rightarrow> db \<Rightarrow> bool" where
  "administers R E now token org i r s \<longleftrightarrow>
     (\<exists>c a uid m. get_current_user R E now token r s = Inr c \<and> get_org_membership_or_platform_admin s org c = Inr a
        \<and> int_sub c = Inr uid \<and> m \<in> set (team_members s) \<and> tm_team_id m = i \<and> tm_user_id m = uid \<and> tm_role m = ''admin'')"

lemma team_manager_Inr: "team_manager R E now token org r s = Inr a \<Longrightarrow> may_manage R E now token org r s"
  by (auto simp: team_manager_def require_org_permission_or_platform_admin_def may_manage_def check_membership_Inr split: sum.splits)

lemma team_admin_Inr:
  "team_admin R E now token org i r s = Inr t \<Longrightarrow>
     get_team s org i = Some t \<and> (may_manage R E now token org r s \<or> administers R E now token org i r s)"
  by (auto simp: team_admin_def require_team_manage_permission_def may_manage_def administers_def
      split: sum.splits option.splits if_splits dest!: get_team_member_Some)

text \<open>At most the team with this identifier and its members differ.\<close>

definition only_team :: "int \<Rightarrow> db \<Rightarrow> db \<Rightarrow> bool" where
  "only_team i s s' \<longleftrightarrow>
     s' = s\<lparr>teams := teams s', team_members := team_members s'\<rparr>
   \<and> filter (\<lambda>t. t_id t \<noteq> i) (teams s') = filter (\<lambda>t. t_id t \<noteq> i) (teams s)
   \<and> filter (\<lambda>m. tm_team_id m \<noteq> i) (team_members s') = filter (\<lambda>m. tm_team_id m \<noteq> i) (team_members s)"

lemma filter_update_where:
  assumes "\<And>x. x \<in> set xs \<Longrightarrow> p x \<Longrightarrow> \<not> q x \<and> \<not> q (f x)"
  shows "filter q (update_where p f xs) = filter q xs"
  using assms by (induction xs) (auto simp: update_where_def)

lemma filter_delete_where: "(\<And>x. x \<in> set xs \<Longrightarrow> p x \<Longrightarrow> \<not> q x) \<Longrightarrow> filter q (delete_where p xs) = filter q xs"
  by (induction xs) (auto simp: delete_where_def)

lemma create_team_only:
  "create_team now org nm desc u s = Inr (s1, t) \<Longrightarrow> only_team (next_id t_id (teams s)) s s1"
  by (auto simp: create_team_def only_team_def Let_def split: if_splits)

lemma update_team_only: "update_team t nm desc s = Inr (s1, t') \<Longrightarrow> only_team (t_id t) s s1"
  by (auto simp: update_team_def only_team_def Let_def intro!: filter_update_where split: if_splits option.splits)

lemma invite_to_team_only: "invite_to_team now t org email u role s = Inr (s1, m) \<Longrightarrow> only_team (t_id t) s s1"
  by (auto simp: invite_to_team_def only_team_def Let_def split: if_splits option.splits)

lemma member_change_only:
  "set_member_role m role s = Inr (s1, m') \<Longrightarrow> only_team (tm_team_id m) s s1"
  "remove_member m s = Inr s1 \<Longrightarrow> only_team (tm_team_id m) s s1"
  by (auto simp: set_member_role_def remove_member_def only_team_def is_row_def
      intro!: filter_update_where filter_delete_where split: if_splits)

lemma leave_team_only: "leave_team m s = Inr s1 \<Longrightarrow> only_team (tm_team_id m) s s1 \<and> s1 = s\<lparr>team_members := delete_where (is_row m) (team_members s)\<rparr>"
  by (auto simp: leave_team_def only_team_def is_row_def intro!: filter_delete_where split: if_splits)

lemma replace_members_only: "set_team_members now t org ids s = Inr s1 \<Longrightarrow> only_team (t_id t) s s1"
  by (auto simp: set_team_members_def only_team_def Let_def filter_empty_conv intro!: filter_delete_where split: if_splits)

lemma delete_team_only: "only_team (t_id t) s (delete_team t s)"
  by (simp add: delete_team_def only_team_def delete_where_def)

text \<open>The caller ends a membership of its own, and nothing else happens.\<close>

definition leaves :: "'r redis \<Rightarrow> env \<Rightarrow> time \<Rightarrow> string \<Rightarrow> int \<Rightarrow> 'r \<Rightarrow> db \<Rightarrow> db \<Rightarrow> bool" where
  "leaves R E now token i r s s' \<longleftrightarrow>
     (\<exists>c uid m. get_current_user R E now token r s = Inr c \<and> int_sub c = Inr uid \<and> m \<in> set (team_members s)
        \<and> tm_team_id m = i \<and> tm_user_id m = uid \<and> s' = s\<lparr>team_members := delete_where (is_row m) (team_members s)\<rparr>)"

definition authorized_change :: "'r redis \<Rightarrow> env \<Rightarrow> time \<Rightarrow> string \<Rightarrow> int \<Rightarrow> 'r \<Rightarrow> db \<Rightarrow> int \<Rightarrow> db \<Rightarrow> bool" where
  "authorized_change R E now token org r s i s' \<longleftrightarrow> only_team i s s'
     \<and> (i \<notin> t_id ` set (teams s) \<and> may_manage R E now token org r s
        \<or> get_team s org i \<noteq> None \<and> (may_manage R E now token org r s \<or> administers R E now token org i r s \<or> leaves R E now token i r s s'))"

text \<open>
  C27. Who changes a team. A request on the path of an organization leaves the database as it was,
  or changes one team and its members and no other row of any table; and then either the team is
  new and the caller holds the permission to manage teams in this organization, or the team is one
  of this organization and the caller holds that permission, is an administrator of just this
  team, or removed its own membership of it.
\<close>

theorem team_change_authorized:
  assumes "team_request R E now token org r s s'"
  shows "s' = s \<or> (\<exists>i. authorized_change R E now token org r s i s')"
proof -
  let ?P = "\<lambda>s'. s' = s \<or> (\<exists>i. authorized_change R E now token org r s i s')"
  have adm: "?P s1" if "team_admin R E now token org i r s = Inr t" "only_team (t_id t) s s1" for i t s1
    using team_admin_Inr [OF that(1)] that(2) get_team_Some [of s org i t] by (auto simp: authorized_change_def)
  have man: "?P s1" if "team_manager R E now token org r s = Inr a" "get_team s org i = Some t" "only_team (t_id t) s s1" for a i t s1
    using team_manager_Inr [OF that(1)] that(2,3) get_team_Some [of s org i t] by (auto simp: authorized_change_def)
  have new: "?P s1" if "team_manager R E now token org r s = Inr a" "create_team now org nm desc u s = Inr (s1, t)" for a nm desc u s1 t
    using team_manager_Inr [OF that(1)] create_team_only [OF that(2)] next_id_notin [of t_id "teams s"] by (auto simp: authorized_change_def)
  have create: "?P (fst (create_team_route R E now token org nm desc r s))" for nm desc
    unfolding create_team_route_def
    by (rule ends_fst, intro handler_ends) (auto simp: ends_def dest: new)
  have rename: "?P (fst (rename_team R E now token org i nm desc r s))" for i nm desc
    unfolding rename_team_def
    by (rule ends_fst, intro handler_ends) (auto simp: ends_def dest!: update_team_only dest: adm)
  have invite: "?P (fst (invite_team_member R E now token org i email role r s))" for i email role
    unfolding invite_team_member_def
    by (rule ends_fst, intro handler_ends)
       (auto simp: ends_def refuse_def split: sum.split option.split dest!: invite_to_team_only dest: adm)
  have target: "t_id t = tm_team_id m" if "team_admin R E now token org i r s = Inr t" "get_team_member s i u = Some m" for i t m u
    using that team_admin_Inr [OF that(1)] get_team_Some get_team_member_Some by metis
  have adm2: "?P s1" if "team_admin R E now token org i r s = Inr t" "get_team_member s i u = Some m" "only_team (tm_team_id m) s s1" for i t m u s1
    using adm [OF that(1)] target [OF that(1,2)] that(3) by simp
  have set_role: "?P (fst (update_team_member_role R E now token org i u role r s))" for i u role
    unfolding update_team_member_role_def
    by (rule ends_fst, intro handler_ends)
       (auto simp: ends_def split: sum.split dest!: member_change_only(1) dest: adm2)
  have remove: "?P (fst (remove_team_member R E now token org i u r s))" for i u
    unfolding remove_team_member_def
    by (rule ends_fst, intro handler_ends)
       (auto simp: ends_def split: sum.split dest!: member_change_only(2) dest: adm2)
  have leave: "?P (fst (leave_team_route R E now token org i r s))" for i
    unfolding leave_team_route_def
    by (rule ends_fst, intro handler_ends)
       (auto simp: ends_def authorized_change_def leaves_def split: sum.split dest!: leave_team_only get_team_member_Some)
  have replace: "?P (fst (set_team_members_route R E now token org i ids r s))" for i ids
    unfolding set_team_members_route_def
    by (rule ends_fst, intro handler_ends) (auto simp: ends_def split: sum.split dest!: replace_members_only dest: man)
  have delete: "?P (fst (delete_team_route R E now token org i r s))" for i
    unfolding delete_team_route_def
    by (rule ends_fst, intro handler_ends) (auto dest: man [OF _ _ delete_team_only])
  show ?thesis using assms by cases (simp_all only: create rename invite set_role remove leave replace delete)
qed

definition teams_db :: db where
  "teams_db = guard_db\<lparr>permissions := [\<lparr>p_id = 2, p_name = ''manage_teams''\<rparr>]\<rparr>"

lemma teams_user: "get_current_user kv_redis guard_env 0 ''tok'' (True, []) teams_db = Inr guard_claims"
  unfolding get_current_user_Inr
  by (simp add: decode_token_def decode_token_for_audience_def guard_env_def sample_env_def guard_claims_def assert_token_usable_def
      Let_def kv_redis_def live_entry_def kv_entry_def teams_db_def guard_db_def empty_db_def query_exists_def find_subject_def sub_text_def
      sample_user_def show_int_1)

theorem team_change_authorized_witness:
  "\<exists>i s'. s' = fst (create_team_route kv_redis guard_env 0 ''tok'' 7 ''imaging'' None (True, []) teams_db) \<and> teams s' \<noteq> []
     \<and> authorized_change kv_redis guard_env 0 ''tok'' 7 (True, []) teams_db i s'"
proof -
  let ?p = "create_team_route kv_redis guard_env 0 ''tok'' 7 ''imaging'' None (True, []) teams_db"
  have "get_org_membership_or_platform_admin teams_db 7 guard_claims = Inr (acting_row teams_db (hd (memberships guard_db)))"
    using guard_sub by (simp add: get_org_membership_or_platform_admin_def get_org_membership_def claim_in_or_empty_def guard_claims_def
        teams_db_def guard_db_def Let_def)
  moreover have "MANAGE_TEAMS \<in> set (permissions_for_membership teams_db (hd (memberships guard_db)))"
    by (simp add: permissions_for_membership_def permissions_for_roles_def roles_of_membership_def role_perms_def teams_db_def guard_db_def MANAGE_TEAMS_def)
  ultimately have "team_manager kv_redis guard_env 0 ''tok'' 7 (True, []) teams_db = Inr (acting_row teams_db (hd (memberships guard_db)))"
    by (simp add: team_manager_def require_org_permission_or_platform_admin_def teams_user check_membership_def)
  moreover have e: "teams teams_db = []" by (simp add: teams_db_def guard_db_def empty_db_def)
  ultimately have t: "teams (fst ?p) \<noteq> []"
    using guard_sub by (simp add: create_team_route_def teams_user create_team_def query_exists_def Let_def split_beta)
  then have "fst ?p \<noteq> teams_db" using e by metis
  then show ?thesis using team_change_authorized [OF team_request.create, of kv_redis guard_env 0 "''tok''" 7 "''imaging''" None "(True, [])" teams_db] t by blast
qed

end
