(* ===== verification/User_Admin.thy ===== *)
theory User_Admin
  imports Role_Routes
begin

text \<open>
  The directory of accounts and what an account can see of itself: \<open>app/services/user_admin_service.py\<close>,
  \<open>app/services/identity_service.py\<close> and the routes of \<open>routes_platform_users.py\<close>,
  \<open>routes_identity.py\<close> and \<open>routes_sessions.py\<close>. What the database's \<open>ILIKE\<close> matches and the order
  in which it returns the rows of one query are arguments; \<open>ORDER BY\<close> names a single column, so
  the order of rows with equal values is the database's, and may differ from query to query.

  The theory shows that a suspension cuts an account off everywhere and that the sessions it
  ended stay ended when the account is taken back, and that the pages of the directory list
  every matching account once if they are sorted by a column with different values.
\<close>

subsection \<open>The directory\<close>

datatype sort_field = Sort_email | Sort_created_at | Sort_status

datatype sort_order = Ascending | Descending

record user_summary =
  su_id :: int
  su_email :: string
  su_status :: string
  su_created_at :: "time option"
  su_global_roles :: "string list"
  su_org_count :: nat
  su_last_login_at :: "time option"
  su_authentication_method :: "string option"
  su_mfa_enabled :: bool

record user_query =
  uq_search :: "string option"
  uq_organization_id :: "int option"
  uq_status :: "string option"
  uq_role :: "string option"

definition org_count :: "db \<Rightarrow> int \<Rightarrow> nat" where
  "org_count s uid = length (filter (\<lambda>m. m_user_id m = uid) (memberships s))"

definition user_summary_of :: "db \<Rightarrow> user \<Rightarrow> user_summary" where
  "user_summary_of s u = \<lparr>su_id = u_id u, su_email = u_email u, su_status = u_status u, su_created_at = u_created_at u,
     su_global_roles = sorted_strs (map r_name (roles_of_user s u)), su_org_count = org_count s (u_id u),
     su_last_login_at = u_last_login_at u, su_authentication_method = u_authentication_method u, su_mfa_enabled = u_mfa_enabled u\<rparr>"

definition has_role :: "string option \<Rightarrow> role list \<Rightarrow> bool" where
  "has_role name rs \<longleftrightarrow> (\<exists>r \<in> set rs. Some (r_name r) = name)"

definition user_matches :: "(string \<Rightarrow> string \<Rightarrow> bool) \<Rightarrow> db \<Rightarrow> user_query \<Rightarrow> user \<Rightarrow> bool" where
  "user_matches ilike s q u \<longleftrightarrow>
     (truthy (uq_search q) \<longrightarrow> ilike (u_email u) (''%'' @ the (uq_search q) @ ''%''))
   \<and> (truthy (uq_status q) \<longrightarrow> Some (u_status u) = uq_status q)
   \<and> (case uq_organization_id q of
        Some org \<Rightarrow> (\<exists>m \<in> set (memberships s). m_user_id m = u_id u \<and> m_organization_id m = org
                      \<and> (truthy (uq_role q) \<longrightarrow> has_role (uq_role q) (roles_of_membership s m)))
      | None \<Rightarrow> truthy (uq_role q) \<longrightarrow> has_role (uq_role q) (roles_of_user s u))"

text \<open>\<open>order_by\<close> is the order in which this query returns the matching rows.\<close>

definition list_users ::
  "(string \<Rightarrow> string \<Rightarrow> bool) \<Rightarrow> (user list \<Rightarrow> user list) \<Rightarrow> db \<Rightarrow> nat \<Rightarrow> nat \<Rightarrow> user_query \<Rightarrow> user_summary list \<times> nat" where
  "list_users ilike order_by s page page_size q =
     (let found = filter (user_matches ilike s q) (users s);
          rows = take page_size (drop ((page - 1) * page_size) (order_by found))
      in (map (user_summary_of s) rows, length found))"

definition total_pages :: "nat \<Rightarrow> nat \<Rightarrow> nat" where
  "total_pages n page_size = (if n = 0 then 0 else (n + page_size - 1) div page_size)"

record membership_summary =
  ms_organization_id :: int
  ms_organization_name :: "string option"
  ms_organization_slug :: "string option"
  ms_roles :: "string list"
  ms_status :: string
  ms_joined_at :: time

text \<open>A device as an administrator sees it: neither its identifier nor its secret.\<close>

record device_summary =
  ds_device_type :: string
  ds_label :: "string option"
  ds_created_at :: time
  ds_last_used_at :: "time option"

record user_detail =
  ud_id :: int
  ud_email :: string
  ud_status :: string
  ud_created_at :: "time option"
  ud_status_changed_at :: "time option"
  ud_status_changed_reason :: "string option"
  ud_last_login_at :: "time option"
  ud_authentication_method :: "string option"
  ud_mfa_enabled :: bool
  ud_mfa_status :: string
  ud_mfa_primary_method :: "string option"
  ud_mfa_enabled_at :: "time option"
  ud_mfa_last_verified_at :: "time option"
  ud_global_roles :: "string list"
  ud_memberships :: "membership_summary list"
  ud_status_changed_by_email :: "string option"
  ud_mfa_devices :: "device_summary list"
  ud_mfa_recovery_codes_remaining :: int

definition membership_summary_of :: "db \<Rightarrow> org_membership \<Rightarrow> membership_summary" where
  "membership_summary_of s m = \<lparr>ms_organization_id = m_organization_id m,
     ms_organization_name = map_option o_name (find_org s (m_organization_id m)),
     ms_organization_slug = map_option o_slug (find_org s (m_organization_id m)),
     ms_roles = sorted_strs (map r_name (roles_of_membership s m)), ms_status = m_status m, ms_joined_at = m_joined_at m\<rparr>"

definition device_summary_of :: "mfa_device \<Rightarrow> device_summary" where
  "device_summary_of d = \<lparr>ds_device_type = d_device_type d, ds_label = d_label d, ds_created_at = d_created_at d, ds_last_used_at = d_last_used_at d\<rparr>"

definition get_user_detail :: "db \<Rightarrow> int \<Rightarrow> user_detail option" where
  "get_user_detail s uid =
     map_option (\<lambda>u. \<lparr>ud_id = u_id u, ud_email = u_email u, ud_status = u_status u, ud_created_at = u_created_at u,
       ud_status_changed_at = u_status_changed_at u, ud_status_changed_reason = u_status_changed_reason u,
       ud_last_login_at = u_last_login_at u, ud_authentication_method = u_authentication_method u,
       ud_mfa_enabled = u_mfa_enabled u, ud_mfa_status = u_mfa_status u, ud_mfa_primary_method = u_mfa_primary_method u,
       ud_mfa_enabled_at = u_mfa_enabled_at u, ud_mfa_last_verified_at = u_mfa_last_verified_at u,
       ud_global_roles = sorted_strs (map r_name (roles_of_user s u)),
       ud_memberships = map (membership_summary_of s) (filter (\<lambda>m. m_user_id m = uid) (memberships s)),
       ud_status_changed_by_email = (case u_status_changed_by_user_id u of None \<Rightarrow> None | Some i \<Rightarrow> map_option u_email (find_user s i)),
       ud_mfa_devices = map device_summary_of (sort_key d_created_at (filter (\<lambda>d. d_user_id d = uid \<and> d_disabled_at d = None) (mfa_devices s))),
       ud_mfa_recovery_codes_remaining = query_count (\<lambda>c. rc_user_id c = uid \<and> rc_used_at c = None) (mfa_recovery_codes s)\<rparr>)
       (find_user s uid)"

subsection \<open>Suspending and taking back\<close>

definition ALLOWED_USER_STATUSES :: "string list" where
  "ALLOWED_USER_STATUSES = [''active'', ''suspended'']"

definition set_user_status :: "env \<Rightarrow> time \<Rightarrow> user \<Rightarrow> string \<Rightarrow> string option \<Rightarrow> int \<Rightarrow> db \<Rightarrow> exn + db" where
  "set_user_status E now u status reason actor s =
     (if status \<notin> set ALLOWED_USER_STATUSES
      then Inl (ValueError ''Unknown status: {!r} (expected one of ['active', 'suspended'])'' [status])
      else let changed = (status \<noteq> u_status u);
               s1 = (if changed
                     then set_user (u_id u) (\<lambda>x. x\<lparr>u_status := status, u_status_changed_at := Some now, u_status_changed_reason := reason,
                            u_status_changed_by_user_id := Some actor\<rparr>) s
                     else s);
               s2 = (if changed \<and> status \<noteq> ''active''
                     then fst (revoke_all_sessions_for_user E now (u_id u) ''account_disabled'' (Some actor) s1) else s1)
           in Inr (if changed
                   then log_event E now ((audit (if status = ''active'' then ''user_enabled'' else ''user_disabled''))
                          \<lparr>a_actor := Some actor, a_target := Some (u_id u), a_rtype := Some ''user'', a_rid := Some (show_int (u_id u)),
                           a_before := JObj [(''status'', JStr (u_status u))], a_after := JObj [(''status'', JStr status)],
                           a_meta := JObj [(''reason'', jstr_opt reason)]\<rparr>) s2
                   else s2))"

subsection \<open>Identity\<close>

record org_identity =
  oid_organization_id :: int
  oid_organization_name :: "string option"
  oid_roles :: "string list"
  oid_effective_permissions :: "string list"

record current_user_out =
  cu_id :: int
  cu_email :: string
  cu_status :: string
  cu_created_at :: "time option"

record global_role_out =
  gr_id :: int
  gr_name :: string
  gr_description :: "string option"

record identity =
  id_user :: current_user_out
  id_global_roles :: "global_role_out list"
  id_global_permissions :: "string list"
  id_organizations :: "org_identity list"

definition build_identity :: "db \<Rightarrow> user \<Rightarrow> identity" where
  "build_identity s u =
     \<lparr>id_user = \<lparr>cu_id = u_id u, cu_email = u_email u, cu_status = u_status u, cu_created_at = u_created_at u\<rparr>,
      id_global_roles = map (\<lambda>x. \<lparr>gr_id = r_id x, gr_name = r_name x, gr_description = r_description x\<rparr>) (sort_key r_name (roles_of_user s u)),
      id_global_permissions = sorted_set (concat (map (role_perms s) (roles_of_user s u))),
      id_organizations = map (\<lambda>m. \<lparr>oid_organization_id = m_organization_id m, oid_organization_name = map_option o_name (find_org s (m_organization_id m)),
           oid_roles = sorted_strs (map r_name (roles_of_membership s m)),
           oid_effective_permissions = sorted_strs (permissions_for_membership s m)\<rparr>)
         (sort_key m_organization_id (filter (\<lambda>m. m_user_id m = u_id u) (memberships s)))\<rparr>"

definition get_identity_for_user_id :: "db \<Rightarrow> int \<Rightarrow> identity option" where
  "get_identity_for_user_id s uid = map_option (build_identity s) (find_user s uid)"

text \<open>The permissions of an identity, by name or, expanded, as the registry's entries.\<close>

fun org_permissions_out :: "org_identity list \<Rightarrow> exn + json list list" where
  "org_permissions_out [] = Inr []"
| "org_permissions_out (x # xs) =
     (case permissions_out_or_500 (oid_effective_permissions x) of
        Inl e \<Rightarrow> Inl e
      | Inr ps \<Rightarrow> (case org_permissions_out xs of Inl e \<Rightarrow> Inl e | Inr rest \<Rightarrow> Inr (ps # rest)))"

definition identity_response :: "identity \<Rightarrow> bool \<Rightarrow> exn + identity \<times> (json list \<times> json list list) option" where
  "identity_response i expand =
     (if \<not> expand then Inr (i, None)
      else case permissions_out_or_500 (id_global_permissions i) of
        Inl e \<Rightarrow> Inl e
      | Inr ps \<Rightarrow> (case org_permissions_out (id_organizations i) of Inl e \<Rightarrow> Inl e | Inr pss \<Rightarrow> Inr (i, Some (ps, pss))))"

definition get_my_identity ::
  "'r redis \<Rightarrow> env \<Rightarrow> time \<Rightarrow> bool \<Rightarrow> string \<Rightarrow> 'r \<Rightarrow> db \<Rightarrow> exn + identity \<times> (json list \<times> json list list) option" where
  "get_my_identity R E now expand token r s =
     (case get_current_user R E now token r s of
        Inl e \<Rightarrow> Inl e
      | Inr user \<Rightarrow>
          (case int_sub user of
             Inl e \<Rightarrow> Inl e
           | Inr uid \<Rightarrow> (case get_identity_for_user_id s uid of
               None \<Rightarrow> Inl (HTTPException 404 ''User not found'') | Some i \<Rightarrow> identity_response i expand)))"

definition get_platform_user_identity ::
  "'r redis \<Rightarrow> env \<Rightarrow> time \<Rightarrow> bool \<Rightarrow> string \<Rightarrow> int \<Rightarrow> 'r \<Rightarrow> db \<Rightarrow> exn + identity \<times> (json list \<times> json list list) option" where
  "get_platform_user_identity R E now expand token user_id r s =
     (case require_platform_admin R E now token r s of
        Inl e \<Rightarrow> Inl e
      | Inr user \<Rightarrow> (case get_identity_for_user_id s user_id of
          None \<Rightarrow> Inl (HTTPException 404 ''User not found'') | Some i \<Rightarrow> identity_response i expand))"

subsection \<open>\<open>routes_platform_users.py\<close>\<close>

text \<open>\<open>list(dict.fromkeys(ids))\<close> keeps the first of equal identifiers.\<close>

definition first_occurrences :: "int list \<Rightarrow> int list" where
  "first_occurrences xs = rev (remdups (rev xs))"

definition batch_platform_user_identities ::
  "'r redis \<Rightarrow> env \<Rightarrow> time \<Rightarrow> string \<Rightarrow> int list \<Rightarrow> 'r \<Rightarrow> db \<Rightarrow> exn + (string \<times> string \<times> string \<times> time option) list" where
  "batch_platform_user_identities R E now token user_ids r s =
     (case require_platform_admin R E now token r s of
        Inl e \<Rightarrow> Inl e
      | Inr user \<Rightarrow>
          let ids = first_occurrences user_ids
          in if 1000 < length ids then Inl (HTTPException 422 ''At most 1000 user ids are allowed'')
             else Inr (map (\<lambda>u. (show_int (u_id u), takeWhile (\<lambda>c. c \<noteq> CHR ''@'') (u_email u), u_email u, u_last_login_at u))
                        (List.map_filter (find_user s) ids)))"

definition list_platform_users ::
  "(string \<Rightarrow> string \<Rightarrow> bool) \<Rightarrow> (sort_field \<Rightarrow> sort_order \<Rightarrow> user list \<Rightarrow> user list) \<Rightarrow> 'r redis \<Rightarrow> env \<Rightarrow> time \<Rightarrow> string \<Rightarrow> nat \<Rightarrow> nat \<Rightarrow> user_query
     \<Rightarrow> sort_field \<Rightarrow> sort_order \<Rightarrow> 'r \<Rightarrow> db \<Rightarrow> exn + user_summary list \<times> nat \<times> nat" where
  "list_platform_users ilike order_by R E now token page page_size q field order r s =
     (case require_platform_admin R E now token r s of
        Inl e \<Rightarrow> Inl e
      | Inr user \<Rightarrow>
          let (items, n) = list_users ilike (order_by field order) s page page_size q
          in Inr (items, n, total_pages n page_size))"

definition get_platform_user :: "'r redis \<Rightarrow> env \<Rightarrow> time \<Rightarrow> string \<Rightarrow> int \<Rightarrow> 'r \<Rightarrow> db \<Rightarrow> exn + user_detail" where
  "get_platform_user R E now token user_id r s =
     (case require_platform_admin R E now token r s of
        Inl e \<Rightarrow> Inl e
      | Inr user \<Rightarrow> (case get_user_detail s user_id of None \<Rightarrow> Inl (HTTPException 404 ''User not found'') | Some d \<Rightarrow> Inr d))"

definition update_platform_user_status ::
  "'r redis \<Rightarrow> env \<Rightarrow> time \<Rightarrow> string \<Rightarrow> int \<Rightarrow> string \<Rightarrow> string option \<Rightarrow> 'r \<Rightarrow> db \<Rightarrow> db \<times> (exn + user_detail option)" where
  "update_platform_user_status R E now token user_id status reason r s =
     or_raise s (require_platform_admin R E now token r s) (\<lambda>caller.
     or_raise s (or_404 ''User not found'' (find_user s user_id)) (\<lambda>target.
     or_raise s (int_sub caller) (\<lambda>uid.
     case set_user_status E now target status reason uid s of
       Inl e \<Rightarrow> (s, Inl (as_400 e))
     | Inr s1 \<Rightarrow> (s1, Inr (get_user_detail s1 user_id)))))"

definition reset_platform_user_mfa :: "'r redis \<Rightarrow> env \<Rightarrow> time \<Rightarrow> string \<Rightarrow> int \<Rightarrow> 'r \<Rightarrow> db \<Rightarrow> db \<times> (exn + int)" where
  "reset_platform_user_mfa R E now token user_id r s =
     or_raise s (require_platform_admin R E now token r s) (\<lambda>caller.
     or_raise s (int_sub caller) (\<lambda>uid.
     case reset_user_mfa E now user_id uid s of
       Inl (LookupError _) \<Rightarrow> refuse s 404 ''User not found''
     | Inl e \<Rightarrow> (s, Inl e)
     | Inr s1 \<Rightarrow> (s1, Inr user_id)))"

subsection \<open>\<open>routes_sessions.py\<close>\<close>

definition my_session :: "db \<Rightarrow> string \<Rightarrow> int \<Rightarrow> user_session option" where
  "my_session s session_id uid = query_first (\<lambda>x. us_session_id x = session_id \<and> us_user_id x = uid) (user_sessions s)"

text \<open>A row as it is shown, with its effective status.\<close>

record session_out =
  so_session_id :: string
  so_organization_id :: "int option"
  so_auth_method :: "string option"
  so_mfa_verified :: bool
  so_status :: string
  so_created_at :: time
  so_last_activity_at :: time
  so_expires_at :: time
  so_revoked_at :: "time option"
  so_revoked_reason :: "string option"
  so_client_ip :: "string option"
  so_user_agent :: "string option"

definition serialize :: "env \<Rightarrow> time \<Rightarrow> user_session \<Rightarrow> session_out" where
  "serialize E now x = \<lparr>so_session_id = us_session_id x, so_organization_id = us_organization_id x, so_auth_method = us_auth_method x,
     so_mfa_verified = us_mfa_verified x, so_status = effective_status (cfg E) now x, so_created_at = us_created_at x,
     so_last_activity_at = us_last_activity_at x, so_expires_at = us_expires_at x, so_revoked_at = us_revoked_at x,
     so_revoked_reason = us_revoked_reason x, so_client_ip = us_client_ip x, so_user_agent = us_user_agent x\<rparr>"

definition list_my_sessions :: "'r redis \<Rightarrow> env \<Rightarrow> time \<Rightarrow> string \<Rightarrow> 'r \<Rightarrow> db \<Rightarrow> exn + session_out list" where
  "list_my_sessions R E now token r s =
     (case get_current_user R E now token r s of
        Inl e \<Rightarrow> Inl e
      | Inr user \<Rightarrow> (case int_sub user of
          Inl e \<Rightarrow> Inl e
        | Inr uid \<Rightarrow> Inr (map (serialize E now) (sort_key (\<lambda>x. - us_created_at x) (filter (\<lambda>x. us_user_id x = uid) (user_sessions s))))))"

definition get_my_session :: "'r redis \<Rightarrow> env \<Rightarrow> time \<Rightarrow> string \<Rightarrow> string \<Rightarrow> 'r \<Rightarrow> db \<Rightarrow> exn + session_out" where
  "get_my_session R E now token session_id r s =
     (case get_current_user R E now token r s of
        Inl e \<Rightarrow> Inl e
      | Inr user \<Rightarrow> (case int_sub user of
          Inl e \<Rightarrow> Inl e
        | Inr uid \<Rightarrow> (case my_session s session_id uid of
            None \<Rightarrow> Inl (HTTPException 404 ''Session not found'') | Some x \<Rightarrow> Inr (serialize E now x))))"

definition revoke_my_session ::
  "'r redis \<Rightarrow> env \<Rightarrow> time \<Rightarrow> string \<Rightarrow> string \<Rightarrow> 'r \<Rightarrow> db \<Rightarrow> db \<times> (exn + session_out option)" where
  "revoke_my_session R E now token session_id r s =
     or_raise s (get_current_user R E now token r s) (\<lambda>user.
     or_raise s (int_sub user) (\<lambda>uid.
     or_raise s (or_404 ''Session not found'' (my_session s session_id uid)) (\<lambda>x.
     let s1 = fst (revoke_session E now session_id s)
     in (s1, Inr (map_option (serialize E now) (my_session s1 session_id uid))))))"

subsection \<open>Properties\<close>

lemma revoke_all_blocks:
  assumes ok: "tok_ok s" and x: "x \<in> set (user_sessions s)" "us_user_id x = uid"
  shows "family_blocked (fst (revoke_all_sessions_for_user E now uid reason actor s)) (us_session_id x)"
proof (cases "us_status x = ''revoked''")
  case True
  then have "us_session_id x \<in> revoked_ids s" using x by (force simp: revoked_ids_def)
  then show ?thesis using fold_end_session(5) by (force simp: family_blocked_def revoke_all_sessions_for_user_def Let_def)
next
  case False
  then have "x \<in> set (filter (\<lambda>x. us_user_id x = uid \<and> us_status x \<noteq> ''revoked'') (user_sessions s))" using x by simp
  moreover have "us_session_id x \<noteq> []" using ok imageI [OF x(1), of us_session_id] by (auto simp: tok_ok_def session_ids_def)
  ultimately show ?thesis
    by (simp only: revoke_all_sessions_for_user_def Let_def fst_conv) (rule fold_end_blocks)
qed

lemma revoke_all_users: "users (fst (revoke_all_sessions_for_user E now uid reason actor s)) = users s"
  using revoked_tokens_fold_end [of E now uid "\<lambda>x :: user_session. Some (us_session_id x)" reason actor]
  by (simp add: revoke_all_sessions_for_user_def Let_def)

definition suspended_row :: "time \<Rightarrow> string option \<Rightarrow> int \<Rightarrow> user \<Rightarrow> user" where
  "suspended_row now reason actor x = x\<lparr>u_status := ''suspended'', u_status_changed_at := Some now, u_status_changed_reason := reason,
     u_status_changed_by_user_id := Some actor\<rparr>"

lemma suspend_Inr:
  assumes "set_user_status E now u ''suspended'' reason actor s = Inr s1" "u_status u = ''active''"
  shows "\<exists>a. s1 = log_event E now a (fst (revoke_all_sessions_for_user E now (u_id u) ''account_disabled'' (Some actor)
           (set_user (u_id u) (suspended_row now reason actor) s)))"
  using assms by (auto simp: set_user_status_def ALLOWED_USER_STATUSES_def suspended_row_def [abs_def] Let_def)

text \<open>
  C9. A suspension cuts an account off everywhere. From the moment a platform administrator's
  suspension of an active account is committed, no bearer token of the account passes the user
  guard and no password signs it in; and every refresh token of a session it had is refused for
  good, in every later state, also after the account has been taken back.
\<close>

theorem suspension_cuts_off:
  fixes R :: "'r redis"
  assumes reach: "(auth_step E)\<^sup>*\<^sup>* empty_db s" and u: "u \<in> set (users s)" "u_status u = ''active''"
    and d: "distinct (map u_id (users s))" "distinct (map u_email (users s))"
    and sus: "set_user_status E now u ''suspended'' reason actor s = Inr s1"
  shows "(\<forall>t tok c. decode_token E t tok = Inr c \<and> get_claim c ''sub'' = JStr (show_int (u_id u)) \<longrightarrow>
            (\<exists>e. get_current_user R E t tok r s1 = Inl e))
    \<and> (\<forall>t pw ip (q :: 'r sys) x. s_db q = s1 \<longrightarrow> snd (authenticate_user R E t (u_email u) pw ip q) \<noteq> Inr (Some x))
    \<and> (\<forall>s2 x tok row t ja jr ff team. (auth_step E)\<^sup>*\<^sup>* s1 s2 \<and> x \<in> set (user_sessions s) \<and> us_user_id x = u_id u
            \<and> token_of E s2 tok = Some row \<and> rt_family_id row = Some (us_session_id x) \<longrightarrow>
            snd (rotate_refresh_token E t ja jr ff tok team s2) = None)"
proof (intro conjI allI impI)
  let ?m = "set_user (u_id u) (suspended_row now reason actor) s"
  let ?r = "fst (revoke_all_sessions_for_user E now (u_id u) ''account_disabled'' (Some actor) ?m)"
  obtain a where s1: "s1 = log_event E now a ?r" using suspend_Inr [OF sus u(2)] by blast
  have us: "users s1 = update_where (\<lambda>x. u_id x = u_id u) (suspended_row now reason actor) (users s)"
    by (simp add: s1 revoke_all_users set_user_def)
  have row: "x \<in> set (users s1) \<Longrightarrow> u_id x = u_id u \<or> u_email x = u_email u \<Longrightarrow> u_status x \<noteq> ''active''" for x
    using distinct_keyD [OF d(1) _ u(1)] distinct_keyD [OF d(2) _ u(1)] by (auto simp: us update_where_def suspended_row_def)
  {
    fix t tok c assume c: "decode_token E t tok = Inr c \<and> get_claim c ''sub'' = JStr (show_int (u_id u))"
    show "\<exists>e. get_current_user R E t tok r s1 = Inl e"
    proof (cases "get_current_user R E t tok r s1")
      case (Inr c')
      then have "c' = c" "assert_token_usable R t c r s1 = None" using c by (auto simp: get_current_user_Inr)
      then obtain y where "find_subject s1 (get_claim c ''sub'') = Some y" "u_status y = ''active''" using c by (auto elim: usable_subject)
      then have "y \<in> set (users s1)" "u_id y = u_id u" "u_status y = ''active''"
        using query_first_Some [of _ "users s1" y] c by (auto simp: find_subject_def sub_text_def)
      then show ?thesis using row by blast
    qed simp
  next
    fix t pw ip x and q :: "'r sys" assume q: "s_db q = s1"
    have "case find_user_by_email s1 (u_email u) of None \<Rightarrow> True | Some y \<Rightarrow> u_status y \<noteq> ''active''"
    proof (cases "find_user_by_email s1 (u_email u)")
      case (Some y)
      then show ?thesis using row query_first_Some [of "\<lambda>y. u_email y = u_email u" "users s1" y] by (simp add: find_user_by_email_def)
    qed simp
    then show "snd (authenticate_user R E t (u_email u) pw ip q) \<noteq> Inr (Some x)"
      by (auto simp: authenticate_user_def q Let_def split: sum.split option.splits)
  next
    fix s2 x tok row t ja jr ff team
    assume h: "(auth_step E)\<^sup>*\<^sup>* s1 s2 \<and> x \<in> set (user_sessions s) \<and> us_user_id x = u_id u
      \<and> token_of E s2 tok = Some row \<and> rt_family_id row = Some (us_session_id x)"
    let ?f = "us_session_id x"
    have same: "refresh_tokens ?m = refresh_tokens s" "user_sessions ?m = user_sessions s" by (simp_all add: set_user_def)
    have ok: "tok_ok ?m" using reachable_tok_ok [OF reach] tok_ok_cong [OF same] by simp
    have k: "known_family ?m ?f" using h same by (auto simp: known_family_def session_ids_def)
    have "tok_keeps ?f ?m ?r" by (rule tok_keeps_step [OF auth_step.revoke_all])
    then have "tok_ok ?r" "known_family ?r ?f" using ok k by (simp_all add: tok_keeps_def)
    moreover have "family_blocked ?r ?f" by (rule revoke_all_blocks [OF ok]) (use h same in simp_all)
    ultimately have "tok_ok s1 \<and> known_family s1 ?f \<and> family_blocked s1 ?f"
      using tok_ok_cong [of s1 ?r] family_cong [of s1 ?r ?f] by (simp add: s1)
    then show "snd (rotate_refresh_token E t ja jr ff tok team s2) = None" using refused_forever [of E s1 s2 ?f tok row] h by blast
  }
qed

lemma total_pages_drop: "n \<le> total_pages n k * k" if "0 < k"
proof (cases "n = 0")
  case False
  have "n + k - 1 < k * ((n + k - 1) div k) + k" using that dividend_less_div_times [of k "n + k - 1"] by (simp add: mult.commute)
  then show ?thesis using False by (simp add: total_pages_def mult.commute)
qed (simp add: total_pages_def)

lemma pages_concat: "concat (map (\<lambda>p. take k (drop (p * k) xs)) [0..<n]) = take (n * k) xs"
proof (induction n)
  case (Suc n)
  have "take (Suc n * k) xs = take (n * k + k) xs" by (simp add: add.commute)
  then show ?case using Suc by (simp only: take_add) simp
qed simp

text \<open>
  What \<open>ORDER BY\<close> of one column promises of the rows of a query: they are the matching rows,
  sorted by the column. Rows with equal values may come in any order, and in another one in the
  next query.
\<close>

definition ordered_rows :: "(user \<Rightarrow> 'k :: linorder) \<Rightarrow> bool \<Rightarrow> user list \<Rightarrow> user list \<Rightarrow> bool" where
  "ordered_rows column descending found rows \<longleftrightarrow> mset rows = mset found
     \<and> sorted_wrt (\<lambda>u v. if descending then column v \<le> column u else column u \<le> column v) rows"

lemma ordered_rows_unique:
  assumes xs: "ordered_rows column descending found xs" and ys: "ordered_rows column descending found ys" and inj: "inj_on column (set found)"
  shows "xs = ys"
proof -
  have m: "mset xs = mset ys" "set xs = set found" "set ys = set found"
    using xs ys mset_eq_setD [of xs found] mset_eq_setD [of ys found] by (auto simp: ordered_rows_def)
  have srt: "sorted (map column (if descending then rev zs else zs))" if "ordered_rows column descending found zs" for zs
    using that by (cases descending) (simp_all add: ordered_rows_def sorted_map sorted_wrt_rev)
  note srt [OF xs] srt [OF ys]
  moreover have "mset (map column (if descending then rev xs else xs)) = mset (map column (if descending then rev ys else ys))"
    using m(1) by simp
  ultimately have "map column (if descending then rev xs else xs) = map column (if descending then rev ys else ys)"
    by (metis properties_for_sort)
  then have "(if descending then rev xs else xs) = (if descending then rev ys else ys)"
    by (rule map_inj_on) (use inj m(2,3) in simp)
  then show ?thesis by (simp split: if_splits)
qed

text \<open>
  C39. The directory's pages list every account once, if they are sorted by a column whose values
  tell the matching accounts apart (the e-mail address does). Whatever the search, the filters
  and the direction, and whatever the database does with each of the queries beyond sorting it by
  the column, the pages 1 up to the announced number of pages, one after another, are the
  summaries of exactly the matching accounts, sorted by the column, and the announced total is
  their number.
\<close>

theorem directory_pages_complete:
  assumes size: "0 < page_size"
    and ord: "\<And>p. ordered_rows column descending (filter (user_matches ilike s q) (users s)) (order_by p (filter (user_matches ilike s q) (users s)))"
    and inj: "inj_on column (set (filter (user_matches ilike s q) (users s)))"
  shows "(\<exists>rows. ordered_rows column descending (filter (user_matches ilike s q) (users s)) rows
       \<and> concat (map (\<lambda>p. fst (list_users ilike (order_by p) s p page_size q))
            [1..<total_pages (snd (list_users ilike (order_by 1) s 1 page_size q)) page_size + 1]) = map (user_summary_of s) rows)
    \<and> snd (list_users ilike (order_by 1) s 1 page_size q) = length (filter (user_matches ilike s q) (users s))"
proof -
  let ?found = "filter (user_matches ilike s q) (users s)"
  let ?n = "total_pages (length ?found) page_size"
  define rows where "rows = order_by 1 ?found"
  have same: "order_by p ?found = rows" for p unfolding rows_def by (rule ordered_rows_unique [OF ord ord inj])
  have o: "ordered_rows column descending ?found rows" using ord [of 1] by (simp only: same)
  then have len: "length rows = length ?found" unfolding ordered_rows_def by (metis mset_eq_length)
  have up: "[1..<?n + 1] = map Suc [0..<?n]" by (simp add: map_Suc_upt)
  have "map (\<lambda>p. fst (list_users ilike (order_by p) s p page_size q)) [1..<?n + 1]
      = map (\<lambda>p. map (user_summary_of s) (take page_size (drop (p * page_size) rows))) [0..<?n]"
    unfolding up by (simp add: list_users_def Let_def same)
  then have "concat (map (\<lambda>p. fst (list_users ilike (order_by p) s p page_size q)) [1..<?n + 1])
      = concat (map (map (user_summary_of s)) (map (\<lambda>p. take page_size (drop (p * page_size) rows)) [0..<?n]))"
    by (simp add: o_def)
  also have "\<dots> = map (user_summary_of s) (take (?n * page_size) rows)" by (simp only: pages_concat flip: map_concat)
  finally have "concat (map (\<lambda>p. fst (list_users ilike (order_by p) s p page_size q)) [1..<?n + 1]) = map (user_summary_of s) rows"
    using total_pages_drop [OF size, of "length ?found"] len by simp
  then show ?thesis using o by (auto simp: list_users_def Let_def)
qed

text \<open>
  A column with equal values, like the status or the time of creation, is not enough: the
  database may answer the queries of two pages in two orders, and then an account is listed
  twice and another one not at all.
\<close>

lemma equal_columns_lose_rows:
  assumes "filter (user_matches ilike s q) (users s) = [a, b]" "column a = column b"
  shows "\<exists>order_by. (\<forall>p. ordered_rows column descending [a, b] (order_by p [a, b]))
    \<and> concat (map (\<lambda>p. fst (list_users ilike (order_by p) s p 1 q)) [1..<total_pages (snd (list_users ilike (order_by 1) s 1 1 q)) 1 + 1])
        = [user_summary_of s a, user_summary_of s a]"
proof -
  let ?order = "\<lambda>p us. if p = (1 :: nat) then us else rev us"
  have n: "snd (list_users ilike (?order 1) s 1 1 q) = 2" using assms(1) by (simp add: list_users_def Let_def)
  have u: "[1..<total_pages 2 1 + 1] = [1, 2]" by (simp add: total_pages_def upt_rec)
  have "concat (map (\<lambda>p. fst (list_users ilike (?order p) s p 1 q)) [1..<total_pages (snd (list_users ilike (?order 1) s 1 1 q)) 1 + 1]) = [user_summary_of s a, user_summary_of s a]"
    unfolding n u using assms(1) by (simp add: list_users_def Let_def)
  moreover have "\<forall>p. ordered_rows column descending [a, b] (?order p [a, b])"
    using assms(2) by (simp add: ordered_rows_def)
  ultimately show ?thesis by (intro exI [of _ ?order]) blast
qed

theorem directory_pages_complete_witness:
  "concat (map (\<lambda>p. fst (list_users (\<lambda>_ _. False) rev guard_db p 10 \<lparr>uq_search = None, uq_organization_id = None, uq_status = Some ''active'', uq_role = None\<rparr>)) [1..<2])
     = [user_summary_of guard_db (sample_user 1 ''ada'')]"
proof -
  let ?q = "\<lparr>uq_search = None, uq_organization_id = None, uq_status = Some ''active'', uq_role = None\<rparr>"
  have f: "filter (user_matches (\<lambda>_ _. False) guard_db ?q) (users guard_db) = [sample_user 1 ''ada'']"
    by (simp add: user_matches_def guard_db_def sample_user_def)
  have o: "ordered_rows u_id False us (rev us)" if "us = [sample_user 1 ''ada'']" for us
    using that by (simp add: ordered_rows_def)
  note d = directory_pages_complete [of 10 u_id False "\<lambda>_ _. False" guard_db ?q "\<lambda>_. rev", unfolded f, OF _ o [OF refl]]
  have n: "snd (list_users (\<lambda>_ _. False) rev guard_db 1 10 ?q) = 1" using d by simp
  have "total_pages 1 10 + 1 = 2" by (simp add: total_pages_def)
  moreover have "rows = [sample_user 1 ''ada'']" if "ordered_rows u_id False [sample_user 1 ''ada''] rows" for rows
    using that by (simp add: ordered_rows_def)
  moreover have "[Suc 0..<2] = [Suc 0]" by (simp add: upt_rec)
  ultimately show ?thesis using d unfolding n by fastforce
qed

theorem suspension_cuts_off_witness:
  "\<exists>s1. set_user_status guard_env 5 (sample_user 1 ''ada'') ''suspended'' None 2 guard_db = Inr s1
     \<and> (\<forall>r. \<exists>e. get_current_user kv_redis guard_env 0 ''tok'' r s1 = Inl e)"
proof -
  obtain s1 where s1: "set_user_status guard_env 5 (sample_user 1 ''ada'') ''suspended'' None 2 guard_db = Inr s1"
    by (simp add: set_user_status_def ALLOWED_USER_STATUSES_def sample_user_def Let_def)
  have "auth_step guard_env empty_db guard_db" by (rule auth_step.elsewhere) (simp_all add: guard_db_def)
  then have r: "(auth_step guard_env)\<^sup>*\<^sup>* empty_db guard_db" by blast
  have u: "sample_user 1 ''ada'' \<in> set (users guard_db)" "u_status (sample_user 1 ''ada'') = ''active''"
    "distinct (map u_id (users guard_db))" "distinct (map u_email (users guard_db))" by (simp_all add: guard_db_def sample_user_def)
  have c: "decode_token guard_env 0 ''tok'' = Inr guard_claims" "get_claim guard_claims ''sub'' = JStr (show_int (u_id (sample_user 1 ''ada'')))"
    using guard_user by (simp_all add: get_current_user_Inr) (simp add: guard_claims_def sample_user_def show_int_1)
  have "\<exists>e. get_current_user kv_redis guard_env 0 ''tok'' r s1 = Inl e" for r
    using suspension_cuts_off [OF r u s1, of kv_redis r] c by blast
  then show ?thesis using s1 by blast
qed

end
