(* ===== verification/Spec2Isabelle.thy ===== *)
theory Spec2Isabelle
  imports Delegated_Execution First_Party_Codes Invitation_Routes Org_Route_Security Service_Mint Sso_Routes Team_Routes User_Admin
begin

text \<open>
  Verification of \<open>omnibioai-auth\<close>, the identity service of the OmniBioAI platform: accounts and
  passwords, sessions and tokens, second factors, organizations with their members, roles and
  teams, service clients, API keys, delegations, licenses, sign-on through other providers, and a
  ledger that records what happened. The service is a FastAPI application over a relational
  database and Redis; the paths below are those under \<open>src/\<close>.

  \<^bold>\<open>How the program is modelled.\<close>

  The database is one record \<open>db\<close> (\<open>Db_Schema\<close>) with a list of rows for each table of
  \<open>app/db/models.py\<close>; a row is a record with the columns as fields, a nullable column an option. A
  query is a function on these lists (\<open>query_first\<close>, \<open>update_where\<close>, \<open>delete_where\<close> in
  \<open>Auth_Prelude\<close>), in the order of insertion unless the source sorts. An operation takes the
  database and returns it; one that may fail returns \<open>Inl\<close> of an exception (\<open>exn\<close>) or \<open>Inr\<close> of its
  answer, and the database beside an exception holds what was committed before it was raised, a
  refusal being often itself recorded. A route is a function of its parsed arguments, the bearer
  token, the Redis store and the database; \<open>Depends\<close> is application, and an \<open>HTTPException\<close> is the
  left value. The limiter's state (Redis, the fallback in the process, a counter) is \<open>limiter\<close>, and
  a handler that also throttles works on \<open>sys\<close>, the database with the limiter.

  Time is an integer number of microseconds; one operation reads the clock once. Strings are lists of
  the 256 characters of Latin-1 (a dash or a bullet of a message outside of them is replaced or an
  argument), integers are unbounded as in Python. Random values, identifiers and drawn keys are
  arguments. What is not in the repository is a parameter: the record \<open>env\<close> (\<open>Auth_Env\<close>: digests,
  \<open>jose\<close>, passlib, the cipher, the mail service, URL parsing and name resolution), the record \<open>redis\<close>
  (the commands), and the record \<open>remote\<close> (\<open>Federation\<close>: HTTP requests to identity providers). What
  the code relies on of them is a hypothesis of the theorem that needs it, or a locale.

  A request is one step: it reads and writes one state, and requests come one after the other, in
  any order and at any times. Where the source takes no lock between its check and its write, a
  statement about one request says nothing of two that overlap; for the rotation of refresh tokens
  the last section of \<open>Refresh_Security\<close> splits the request into its reads and its writes and shows
  that two overlapping ones both succeed.

  \<^bold>\<open>Theories and sources.\<close>

  \<^item> \<open>Auth_Prelude\<close>, \<open>Auth_Env\<close>, \<open>Db_Schema\<close>, \<open>Write_Frames\<close>: the shared vocabulary, the rewrite
    collections \<open>table_simps\<close> and \<open>frame_simps\<close>, the parameters and settings
    (\<open>core/config.py\<close>), the schema, and which tables an operation writes.
  \<^item> \<open>Canonical_Json\<close>, \<open>Audit_Log\<close>: \<open>services/audit_integrity.py\<close>, \<open>services/audit_service.py\<close>. The
    canonical text determines the record; whoever changes a signed field and keeps the digest has
    found two messages with one HMAC.
  \<^item> \<open>Rate_Limiting\<close>, \<open>Throttling\<close>: \<open>core/rate_limit.py\<close>, \<open>services/login_throttle_service.py\<close>,
    \<open>services/mfa_throttle_service.py\<close>. Both backends of the limiter refine one counter with a lock
    (\<open>cell_step\<close>), for which the bound on attempts is proved.
  \<^item> \<open>Permission_Registry\<close>, \<open>Role_Service\<close>, \<open>Org_Service\<close>, \<open>Team_Service\<close>: \<open>core/permission_names.py\<close> and
    the services of these names. Roles of organizations never hold platform-wide permissions,
    permissions are registered, teams keep an administrator.
  \<^item> \<open>Jwt_Tokens\<close>, \<open>Session_Service\<close>, \<open>Auth_Service\<close>, \<open>Login_Security\<close>, \<open>Refresh_Security\<close>: \<open>core/jwt.py\<close>,
    \<open>services/session_service.py\<close>, \<open>core/token_revocation.py\<close>, \<open>services/auth_service.py\<close>,
    \<open>core/security.py\<close>. Passwords, claims, the rotation of refresh tokens with the detection of
    their reuse, the ends of a session, the limit on sessions, the lock-out end to end.
  \<^item> \<open>Totp\<close>, \<open>Email_Mfa\<close>, \<open>Mfa_Service\<close>, \<open>Mfa_Invariant\<close>: \<open>services/mfa_service.py\<close>,
    \<open>services/email_mfa_service.py\<close>, \<open>services/mfa_enrollment_service.py\<close>. A code works once, a
    challenge is passed once and only with a factor, the flag of an account agrees with its devices.
  \<^item> \<open>Rbac\<close>: \<open>app/rbac.py\<close>, \<open>api/deps.py\<close>. Exactly which tokens satisfy which guard.
  \<^item> \<open>Credentials\<close>, \<open>Api_Keys\<close>, \<open>Service_Clients\<close>, \<open>Service_Mint\<close>, \<open>Delegated_Execution\<close>:
    \<open>services/apikey_service.py\<close>, \<open>services/oauth_client_service.py\<close>, \<open>services/service_identity.py\<close>,
    \<open>services/service_mint_service.py\<close>, \<open>services/delegated_execution_service.py\<close>,
    \<open>services/toolserver_registration_service.py\<close> and their routes. What is issued stays within what
    was granted and what is held at the time of use, and what is revoked stays revoked.
  \<^item> \<open>Password_Policy\<close>, \<open>Org_Invitations\<close>, \<open>Invitation_Routes\<close>: \<open>core/password_policy.py\<close>,
    \<open>core/compromised_password.py\<close>, \<open>core/common_passwords.py\<close>,
    \<open>services/org_invitation_service.py\<close> and its public routes.
  \<^item> \<open>Route_Support\<close>, \<open>Role_Routes\<close>, \<open>Org_Role_Routes\<close>, \<open>Org_Routes\<close>, \<open>Org_Route_Security\<close>:
    \<open>api/routes_roles.py\<close>, \<open>routes_platform_roles.py\<close>, \<open>routes_organization_roles.py\<close>,
    \<open>routes_orgs.py\<close>. Nobody widens their own permissions by an assignment, managers hand out
    nothing platform-wide, organizations are kept apart.
  \<^item> \<open>Auth_Routes\<close>, \<open>User_Admin\<close>, \<open>Team_Routes\<close>, \<open>Mfa_Routes\<close>: \<open>api/routes_auth.py\<close>,
    \<open>services/sso_discovery_service.py\<close>, \<open>services/user_admin_service.py\<close>,
    \<open>services/identity_service.py\<close>, \<open>routes_platform_users.py\<close>, \<open>routes_identity.py\<close>,
    \<open>routes_sessions.py\<close>, \<open>routes_teams.py\<close>, \<open>routes_mfa.py\<close>, \<open>routes_org_mfa.py\<close>.
  \<^item> \<open>Licenses\<close>, \<open>License_Routes\<close>: \<open>services/license_service.py\<close>, \<open>services/manual_license_service.py\<close>,
    \<open>routes_license.py\<close>, \<open>routes_platform_licenses.py\<close>.
  \<^item> \<open>Federation\<close>, \<open>Oauth_Routes\<close>: \<open>core/oauth_providers.py\<close>, \<open>services/oauth_service.py\<close>,
    \<open>routes_oauth.py\<close>. An address is taken only from a provider that vouches for it.
  \<^item> \<open>Org_Sso\<close>, \<open>Sso_Routes\<close>: \<open>services/org_sso_service.py\<close>, \<open>routes_org_sso.py\<close>,
    \<open>services/org_oidc_service.py\<close>, \<open>routes_sso.py\<close>. A configuration was discovered at a public
    address; a sign-in was vouched for under the organization's present configuration.

  \<^bold>\<open>Interfaces.\<close>

  \<open>transition_invariant\<close> (a step relation and an invariant it keeps) is interpreted on the steps of
  sessions and tokens (\<open>auth\<close>), e-mail codes (\<open>otp\<close>), second factors (\<open>mfa\<close>), organizations and roles
  (\<open>org\<close>), teams (\<open>team\<close>), invitations (\<open>invitations\<close>), licenses (\<open>license\<close>) and sign-on
  configurations (\<open>sso\<close>); most statements about every reachable state rest on its facts.
  \<open>redis_store\<close> states the documented behaviour of the Redis commands; \<open>redis_cell\<close> adds one counter
  and is a sublocale of \<open>cell_backend\<close>, the contract of a counter with a lock, which the fallback
  interprets too; \<open>throttled_account\<close> carries the account dimension of both throttles. Their
  interpretation on \<open>kv_redis\<close>, a store with expiry times, shows that the laws can hold.
  \<open>credential_table\<close>, a sublocale of \<open>credential_store\<close>, is what API keys and service clients have in
  common.

  \<^bold>\<open>Loops.\<close>

  The two loops that draw identifiers until one is unused are partial functions over the stream of
  drawn values (\<open>fresh_client_id\<close>, \<open>first_free\<close>), \<open>None\<close> being the loop that does not end;
  \<open>client_id_loop_ends\<close> bounds the first one by the number of clients. All other loops are total
  functions; no fuel is used.

  \<^bold>\<open>What is not modelled.\<close>

  SAML (\<open>services/org_saml_service.py\<close>, \<open>routes_saml.py\<close>, \<open>routes_org_saml.py\<close>), whose decisions
  are those of a library that reads signed XML; its configuration rows, its enforcement and its
  relay tokens are modelled where other code uses them. The first-party part of
  \<open>routes_oauth_token.py\<close> (the redemption of a portal's authorization code), telemetry
  (\<open>interaction_*\<close>, \<open>workers/\<close>), research inquiries, integration credentials, the configuration
  documents, the read-only listings for administrators, preferences, tenant provisioning and billing,
  the delivery of mail, key files, request validation by Pydantic, the start of the service and the
  migrations. Prometheus counters, log lines, published messages and the lists of spelling suggestions
  in error messages are left out of the operations that are modelled.
\<close>

end
